(* ===== verification/Session_Prelude.thy ===== *)
theory Session_Prelude
  imports Main "HOL-Library.AList"
begin

text \<open>
  Shared vocabulary of the development: guard lists that mirror the source's chains of
  early returns, loops that stop at the first exit, the insertion-ordered JavaScript
  \<^verbatim>\<open>Map\<close>, and the safe-integer test.
\<close>

named_theorems guards \<open>unfolding of guard lists\<close>
named_theorems jsmap \<open>lookups and updates of JavaScript maps\<close>

section \<open>Early returns\<close>

text \<open>
  A function body of the source is a sequence of \<^verbatim>\<open>if (cond) return fail(..)\<close>. The
  model lists the guards in the source's order; the first one that fires decides.
\<close>

definition fail_if :: "bool \<Rightarrow> 'e \<Rightarrow> 'e option" where
  "fail_if c e = (if c then Some e else None)"

fun first_exit :: "'e option list \<Rightarrow> 'e option" where
  "first_exit [] = None"
| "first_exit (Some e # gs) = Some e"
| "first_exit (None # gs) = first_exit gs"

text \<open>Continue with the rest of the body when no guard fired.\<close>

definition unless_exit :: "'e option \<Rightarrow> 'e + 'a \<Rightarrow> 'e + 'a" where
  "unless_exit g k = (case g of Some e \<Rightarrow> Inl e | None \<Rightarrow> k)"

text \<open>Sequencing of a computation that may exit.\<close>

definition and_then :: "'e + 'a \<Rightarrow> ('a \<Rightarrow> 'e + 'b) \<Rightarrow> 'e + 'b" where
  "and_then m k = (case m of Inl e \<Rightarrow> Inl e | Inr a \<Rightarrow> k a)"

text \<open>A guard that needs the value of a computation that may exit.\<close>

definition with_value :: "'e + 'a \<Rightarrow> ('a \<Rightarrow> 'e option) \<Rightarrow> 'e option" where
  "with_value m g = (case m of Inl e \<Rightarrow> Some e | Inr a \<Rightarrow> g a)"

text \<open>A loop over a list whose body updates a state and may exit.\<close>

fun loop_exit :: "('a \<Rightarrow> 's \<Rightarrow> 'e + 's) \<Rightarrow> 'a list \<Rightarrow> 's \<Rightarrow> 'e + 's" where
  "loop_exit f [] s = Inr s"
| "loop_exit f (x # xs) s = (case f x s of Inl e \<Rightarrow> Inl e | Inr s' \<Rightarrow> loop_exit f xs s')"

lemma fail_if_None [simp]: "fail_if c e = None \<longleftrightarrow> \<not> c"
  by (simp add: fail_if_def)

lemma fail_if_Some [simp]: "fail_if c e = Some e' \<longleftrightarrow> c \<and> e = e'"
  by (simp add: fail_if_def)

lemma first_exit_Cons: "first_exit (g # gs) = (case g of Some e \<Rightarrow> Some e | None \<Rightarrow> first_exit gs)"
  by (cases g) simp_all

lemma first_exit_None [simp]: "first_exit gs = None \<longleftrightarrow> (\<forall>g \<in> set gs. g = None)"
  by (induction gs rule: first_exit.induct) auto

lemma first_exit_Some_mem: "first_exit gs = Some e \<Longrightarrow> Some e \<in> set gs"
  by (induction gs rule: first_exit.induct) auto

lemma unless_exit_Inr [simp]: "unless_exit g k = Inr x \<longleftrightarrow> g = None \<and> k = Inr x"
  by (cases g) (simp_all add: unless_exit_def)

lemma unless_exit_simps [simp]:
  "unless_exit None k = k" "unless_exit (Some e) k = Inl e"
  by (simp_all add: unless_exit_def)

lemma and_then_Inr [simp]: "and_then m k = Inr y \<longleftrightarrow> (\<exists>x. m = Inr x \<and> k x = Inr y)"
  by (cases m) (simp_all add: and_then_def)

lemma and_then_simps [simp]: "and_then (Inr x) k = k x" "and_then (Inl e) k = Inl e"
  by (simp_all add: and_then_def)

lemma with_value_None [simp]: "with_value m g = None \<longleftrightarrow> (\<exists>x. m = Inr x \<and> g x = None)"
  by (cases m) (simp_all add: with_value_def)

lemma with_value_simps [simp]: "with_value (Inr x) g = g x" "with_value (Inl e) g = Some e"
  by (simp_all add: with_value_def)

lemma loop_exit_append:
  "loop_exit f (xs @ ys) s = and_then (loop_exit f xs s) (loop_exit f ys)"
  by (induction xs arbitrary: s) (auto simp: and_then_def split: sum.splits)

text \<open>
  The rule every loop proof uses: an invariant indexed by the elements already processed.
\<close>

lemma loop_exit_invariant:
  assumes run: "loop_exit f xs s = Inr s'"
    and init: "I [] s"
    and step: "\<And>past x t t'. set past \<subseteq> set xs \<Longrightarrow> x \<in> set xs \<Longrightarrow> I past t \<Longrightarrow>
      f x t = Inr t' \<Longrightarrow> I (past @ [x]) t'"
  shows "I xs s'"
proof -
  have gen: "loop_exit f ys t = Inr s' \<Longrightarrow> I past t \<Longrightarrow> xs = past @ ys \<Longrightarrow> I (past @ ys) s'" for ys past t
  proof (induction ys arbitrary: past t)
    case Nil
    then show ?case by simp
  next
    case (Cons y ys)
    then obtain t' where t': "f y t = Inr t'" "loop_exit f ys t' = Inr s'"
      by (auto split: sum.splits)
    have "I (past @ [y]) t'"
      using step [of "past" y t t'] Cons.prems t'(1) by auto
    then show ?case
      using Cons.IH [of t' "past @ [y]"] t'(2) Cons.prems by simp
  qed
  show ?thesis using gen [of xs s "[]"] run init by simp
qed

text \<open>A body that always passes through its own guards has passed them for every element.\<close>

lemma loop_exit_all:
  assumes run: "loop_exit f xs s = Inr s'"
    and step: "\<And>x t t'. x \<in> set xs \<Longrightarrow> f x t = Inr t' \<Longrightarrow> P x"
  shows "\<forall>x \<in> set xs. P x"
  using loop_exit_invariant [OF run, of "\<lambda>past t. \<forall>x \<in> set past. P x"] step by auto

section \<open>JavaScript maps\<close>

text \<open>
  A \<^verbatim>\<open>Map\<close> iterates in insertion order; \<^verbatim>\<open>set\<close> on a present key keeps its position.
  That is \<open>AList.update\<close>.
\<close>

type_synonym ('k, 'v) jsmap = "('k \<times> 'v) list"

definition jm_get :: "('k, 'v) jsmap \<Rightarrow> 'k \<Rightarrow> 'v option" where
  "jm_get m k = map_of m k"

definition jm_has :: "('k, 'v) jsmap \<Rightarrow> 'k \<Rightarrow> bool" where
  "jm_has m k = (jm_get m k \<noteq> None)"

definition jm_set :: "('k, 'v) jsmap \<Rightarrow> 'k \<Rightarrow> 'v \<Rightarrow> ('k, 'v) jsmap" where
  "jm_set m k v = AList.update k v m"

definition jm_delete :: "('k, 'v) jsmap \<Rightarrow> 'k \<Rightarrow> ('k, 'v) jsmap" where
  "jm_delete m k = AList.delete k m"

definition jm_values :: "('k, 'v) jsmap \<Rightarrow> 'v list" where
  "jm_values m = map snd m"

definition jm_keys :: "('k, 'v) jsmap \<Rightarrow> 'k list" where
  "jm_keys m = map fst m"

text \<open>The constructor \<^verbatim>\<open>new Map(entries)\<close>: later entries overwrite earlier ones.\<close>

definition jm_of :: "('k \<times> 'v) list \<Rightarrow> ('k, 'v) jsmap" where
  "jm_of kvs = fold (\<lambda>(k, v) m. jm_set m k v) kvs []"

definition jm_wf :: "('k, 'v) jsmap \<Rightarrow> bool" where
  "jm_wf m = distinct (map fst m)"

lemma jm_get_Nil [simp]: "jm_get [] k = None"
  by (simp add: jm_get_def)

lemma jm_get_set [simp, jsmap]: "jm_get (jm_set m k v) j = (if j = k then Some v else jm_get m j)"
  by (simp add: jm_get_def jm_set_def update_conv')

lemma jm_get_delete [jsmap]: "jm_get (jm_delete m k) j = (if j = k then None else jm_get m j)"
  by (simp add: jm_get_def jm_delete_def delete_conv')

lemma jm_has_set [simp, jsmap]: "jm_has (jm_set m k v) j \<longleftrightarrow> j = k \<or> jm_has m j"
  by (simp add: jm_has_def)

lemma jm_has_get: "jm_has m k \<longleftrightarrow> (\<exists>v. jm_get m k = Some v)"
  by (auto simp: jm_has_def)

lemma jm_get_has: "jm_get m k = Some v \<Longrightarrow> jm_has m k"
  by (simp add: jm_has_def)

lemma jm_wf_Nil [simp, intro]: "jm_wf []"
  by (simp add: jm_wf_def)

lemma jm_wf_set [simp, intro]: "jm_wf m \<Longrightarrow> jm_wf (jm_set m k v)"
  by (simp add: jm_wf_def jm_set_def distinct_update)

lemma jm_get_mem: "jm_get m k = Some v \<Longrightarrow> (k, v) \<in> set m"
  by (simp add: jm_get_def map_of_SomeD)

lemma jm_mem_get: "jm_wf m \<Longrightarrow> (k, v) \<in> set m \<longleftrightarrow> jm_get m k = Some v"
  by (auto simp: jm_wf_def jm_get_def)

lemma jm_values_get: "jm_get m k = Some v \<Longrightarrow> v \<in> set (jm_values m)"
  by (force simp: jm_values_def dest: jm_get_mem)

lemma jm_values_mem: "jm_wf m \<Longrightarrow> v \<in> set (jm_values m) \<longleftrightarrow> (\<exists>k. jm_get m k = Some v)"
  by (force simp: jm_values_def jm_mem_get [symmetric])

lemma jm_keys_set: "set (jm_keys (jm_set m k v)) = insert k (set (jm_keys m))"
  by (auto simp: jm_keys_def jm_set_def update_keys)

text \<open>Updating a present key replaces one entry in place; a new key is appended.\<close>

lemma jm_set_present: "jm_get m k = Some w \<Longrightarrow> jm_keys (jm_set m k v) = jm_keys m"
  by (induction m) (auto simp: jm_get_def jm_set_def jm_keys_def split: if_splits)

lemma jm_set_absent: "jm_get m k = None \<Longrightarrow> jm_set m k v = m @ [(k, v)]"
  by (induction m) (auto simp: jm_get_def jm_set_def split: if_splits)

lemma jm_set_same: "jm_get m k = Some v \<Longrightarrow> jm_set m k v = m"
  by (induction m) (auto simp: jm_get_def jm_set_def split: if_splits)

section \<open>Safe integers\<close>

text \<open>
  \<^verbatim>\<open>Number.isSafeInteger\<close> on an integral value. A sum of two safe integers that leaves
  the safe range is rounded by the machine to a value outside it too, so testing the exact
  sum decides the same way.
\<close>

definition max_safe :: int where
  "max_safe = 9007199254740991"

definition is_safe_integer :: "int \<Rightarrow> bool" where
  "is_safe_integer n \<longleftrightarrow> - max_safe \<le> n \<and> n \<le> max_safe"

lemma max_safe_pos: "0 < max_safe"
  by (simp add: max_safe_def)

section \<open>Lists\<close>

lemma filter_singleton_unique:
  "length (filter P xs) \<le> 1 \<Longrightarrow> x \<in> set xs \<Longrightarrow> y \<in> set xs \<Longrightarrow> P x \<Longrightarrow> P y \<Longrightarrow> x = y"
proof -
  assume len: "length (filter P xs) \<le> 1" and "x \<in> set xs" "y \<in> set xs" "P x" "P y"
  then have "x \<in> set (filter P xs)" "y \<in> set (filter P xs)" by simp_all
  with len show "x = y" by (cases "filter P xs") auto
qed

end
