(* ===== verification/Json_Codec.thy ===== *)
theory Json_Codec
  imports Session_Prelude
begin

text \<open>
  The bounded JSON codec of \<^verbatim>\<open>packages/ai-contract/src/codec.ts\<close>: its limits and
  diagnostics, the serialiser \<^verbatim>\<open>boundedJson\<close> and the structural scan of \<^verbatim>\<open>decode\<close>.
  A JavaScript string is its sequence of code points (a lone surrogate is a code point in
  the surrogate range), so \<^verbatim>\<open>for (const c of s)\<close> is iteration over the list. A JSON value
  is a finite tree: cyclic graphs, accessors and sparse arrays, which the source rejects as
  \<^verbatim>\<open>encoding\<close>, have no counterpart, and everything else \<^verbatim>\<open>boundedJson\<close> refuses by
  \<^verbatim>\<open>typeof\<close> or prototype is the constructor \<open>JForeign\<close>.
\<close>

section \<open>Text\<close>

type_synonym utext = "nat list"

text \<open>An ASCII string of the source as text.\<close>

definition utext_of :: "string \<Rightarrow> utext" where
  "utext_of s = map of_char s"

definition utf8_char :: "nat \<Rightarrow> int" where
  "utf8_char c = (if c < 128 then 1 else if c < 2048 then 2 else if c < 65536 then 3 else 4)"

definition byteLength :: "utext \<Rightarrow> int" where
  "byteLength s = sum_list (map utf8_char s)"

definition unicode :: "utext \<Rightarrow> bool" where
  "unicode s = list_all (\<lambda>c. \<not> (55296 \<le> c \<and> c \<le> 57343)) s"

text \<open>\<^verbatim>\<open>JSON.stringify\<close> on a string.\<close>

definition hex_digit :: "nat \<Rightarrow> nat" where
  "hex_digit d = (if d < 10 then 48 + d else 87 + d)"

definition json_escape :: "nat \<Rightarrow> utext" where
  "json_escape c =
     (if c = 34 then [92, 34] else if c = 92 then [92, 92]
      else if c = 8 then [92, 98] else if c = 9 then [92, 116] else if c = 10 then [92, 110]
      else if c = 12 then [92, 102] else if c = 13 then [92, 114]
      else if c < 32 then [92, 117, 48, 48, hex_digit (c div 16), hex_digit (c mod 16)]
      else if 55296 \<le> c \<and> c \<le> 57343
      then [92, 117, hex_digit (c div 4096), hex_digit (c div 256 mod 16),
            hex_digit (c div 16 mod 16), hex_digit (c mod 16)]
      else [c])"

definition json_quote :: "utext \<Rightarrow> utext" where
  "json_quote s = 34 # concat (map json_escape s) @ [34]"

fun decimal :: "nat \<Rightarrow> utext" where
  "decimal n = (if n < 10 then [48 + n] else decimal (n div 10) @ [48 + n mod 10])"

declare decimal.simps [simp del]

definition json_int :: "int \<Rightarrow> utext" where
  "json_int n = (if n < 0 then 45 # decimal (nat (- n)) else decimal (nat n))"

section \<open>Values, limits, diagnostics\<close>

text \<open>
  \<open>JInt\<close> is an integral number, \<open>JDec\<close> a finite fractional one carried as the text
  \<^verbatim>\<open>JSON.stringify\<close> prints for it, \<open>JNonFinite\<close> a NaN or an infinity.
\<close>

datatype json =
    JNull
  | JBool bool
  | JInt int
  | JDec utext
  | JNonFinite
  | JStr utext
  | JArr "json list"
  | JObj "(utext \<times> json) list"
  | JForeign

datatype diagnostic =
  D_configuration | D_encoding | D_duplicate_key | D_version | D_schema | D_limit | D_number | D_context

datatype limits = Limits (maxBytes: int) (maxTextBytes: int) (maxDepth: int) (maxNodes: int)

text \<open>Limits are ordered componentwise: a larger one is a looser budget.\<close>

instantiation limits :: order
begin

definition less_eq_limits :: "limits \<Rightarrow> limits \<Rightarrow> bool" where
  "less_eq_limits l m \<longleftrightarrow> maxBytes l \<le> maxBytes m \<and> maxTextBytes l \<le> maxTextBytes m \<and>
     maxDepth l \<le> maxDepth m \<and> maxNodes l \<le> maxNodes m"

definition less_limits :: "limits \<Rightarrow> limits \<Rightarrow> bool" where
  "less_limits l m \<longleftrightarrow> l \<le> m \<and> \<not> m \<le> (l :: limits)"

instance
  by standard (auto simp: less_eq_limits_def less_limits_def limits.expand)

end

definition defaultLimits :: limits where
  "defaultLimits = Limits 262144 131072 32 16384"

definition checkLimits :: "limits \<Rightarrow> diagnostic option" where
  "checkLimits l = first_exit
     (map (\<lambda>n. fail_if (\<not> is_safe_integer n \<or> n < 1) D_configuration)
        [maxBytes l, maxTextBytes l, maxDepth l, maxNodes l] @
      [fail_if (64 < maxDepth l) D_configuration])"

section \<open>The serialiser\<close>

record budget =
  bg_nodes :: int
  bg_text :: int
  bg_bytes :: int
  bg_parts :: "utext list" \<comment> \<open>most recent part first\<close>

definition emit :: "limits \<Rightarrow> utext \<Rightarrow> budget \<Rightarrow> diagnostic + budget" where
  "emit lim part bg =
     (let bytes = bg_bytes bg + byteLength part in
      if maxBytes lim < bytes then Inl D_limit
      else Inr (bg\<lparr>bg_bytes := bytes, bg_parts := part # bg_parts bg\<rparr>))"

definition put_text :: "limits \<Rightarrow> utext \<Rightarrow> budget \<Rightarrow> diagnostic + budget" where
  "put_text lim v bg =
     (if \<not> unicode v then Inl D_encoding
      else let total = bg_text bg + byteLength v in
        if maxTextBytes lim < total \<or> maxBytes lim < byteLength v then Inl D_limit
        else emit lim (json_quote v) (bg\<lparr>bg_text := total\<rparr>))"

definition count_node :: "limits \<Rightarrow> budget \<Rightarrow> diagnostic + budget" where
  "count_node lim bg =
     (let nodes = bg_nodes bg + 1 in
      if maxNodes lim < nodes then Inl D_limit else Inr (bg\<lparr>bg_nodes := nodes\<rparr>))"

text \<open>The guards and the opening bracket of an object or array with \<open>n\<close> own keys.\<close>

definition open_container :: "limits \<Rightarrow> int \<Rightarrow> nat \<Rightarrow> utext \<Rightarrow> budget \<Rightarrow> diagnostic + budget" where
  "open_container lim depth n bracket bg =
     (if maxDepth lim < depth + 1 then Inl D_limit
      else if maxNodes lim - bg_nodes bg < int n then Inl D_limit
      else emit lim bracket bg)"

definition comma :: "limits \<Rightarrow> bool \<Rightarrow> budget \<Rightarrow> diagnostic + budget" where
  "comma lim isfirst bg = (if isfirst then Inr bg else emit lim [44] bg)"

primrec walk :: "limits \<Rightarrow> json \<Rightarrow> int \<Rightarrow> budget \<Rightarrow> diagnostic + budget"
  and walk_items :: "limits \<Rightarrow> json list \<Rightarrow> bool \<Rightarrow> int \<Rightarrow> budget \<Rightarrow> diagnostic + budget"
  and walk_members :: "limits \<Rightarrow> (utext \<times> json) list \<Rightarrow> bool \<Rightarrow> int \<Rightarrow> budget \<Rightarrow> diagnostic + budget"
  and walk_member :: "limits \<Rightarrow> utext \<times> json \<Rightarrow> int \<Rightarrow> budget \<Rightarrow> diagnostic + budget"
where
  "walk lim JNull depth bg = and_then (count_node lim bg) (emit lim (utext_of ''null''))"
| "walk lim (JBool b) depth bg =
     and_then (count_node lim bg) (emit lim (utext_of (if b then ''true'' else ''false'')))"
| "walk lim (JInt n) depth bg = and_then (count_node lim bg)
     (\<lambda>bg. if \<not> is_safe_integer n then Inl D_number else emit lim (json_int n) bg)"
| "walk lim (JDec t) depth bg = and_then (count_node lim bg) (emit lim t)"
| "walk lim JNonFinite depth bg = and_then (count_node lim bg) (\<lambda>_. Inl D_number)"
| "walk lim (JStr s) depth bg = and_then (count_node lim bg) (put_text lim s)"
| "walk lim (JArr xs) depth bg =
     and_then (count_node lim bg) (\<lambda>bg.
     and_then (open_container lim depth (length xs) [91] bg) (\<lambda>bg.
     and_then (walk_items lim xs True (depth + 1) bg) (emit lim [93])))"
| "walk lim (JObj ms) depth bg =
     and_then (count_node lim bg) (\<lambda>bg.
     and_then (open_container lim depth (length ms) [123] bg) (\<lambda>bg.
     and_then (walk_members lim ms True (depth + 1) bg) (emit lim [125])))"
| "walk lim JForeign depth bg = and_then (count_node lim bg) (\<lambda>_. Inl D_encoding)"
| "walk_items lim [] isfirst depth bg = Inr bg"
| "walk_items lim (x # xs) isfirst depth bg =
     and_then (comma lim isfirst bg) (\<lambda>bg.
     and_then (walk lim x depth bg) (walk_items lim xs False depth))"
| "walk_members lim [] isfirst depth bg = Inr bg"
| "walk_members lim (m # ms) isfirst depth bg =
     and_then (comma lim isfirst bg) (\<lambda>bg.
     and_then (walk_member lim m depth bg) (walk_members lim ms False depth))"
| "walk_member lim (k, v) depth bg =
     and_then (put_text lim k bg) (\<lambda>bg.
     and_then (emit lim [58] bg) (walk lim v depth))"

definition no_budget :: budget where
  "no_budget = \<lparr>bg_nodes = 0, bg_text = 0, bg_bytes = 0, bg_parts = []\<rparr>"

definition boundedJson :: "limits \<Rightarrow> json \<Rightarrow> diagnostic + utext" where
  "boundedJson lim v = unless_exit (checkLimits lim)
     (and_then (walk lim v 0 no_budget) (\<lambda>bg. Inr (concat (rev (bg_parts bg)))))"

section \<open>What the serialiser accepts\<close>

text \<open>
  Reference measures of a value: is it serialisable at all, how many nodes and text bytes
  it has, how deep it nests, and which parts its serialisation consists of.
\<close>

primrec json_clean :: "json \<Rightarrow> bool"
  and clean_items :: "json list \<Rightarrow> bool"
  and clean_members :: "(utext \<times> json) list \<Rightarrow> bool"
  and clean_member :: "utext \<times> json \<Rightarrow> bool"
where
  "json_clean JNull = True"
| "json_clean (JBool b) = True"
| "json_clean (JInt n) = is_safe_integer n"
| "json_clean (JDec t) = True"
| "json_clean JNonFinite = False"
| "json_clean (JStr s) = unicode s"
| "json_clean (JArr xs) = clean_items xs"
| "json_clean (JObj ms) = clean_members ms"
| "json_clean JForeign = False"
| "clean_items [] = True"
| "clean_items (x # xs) = (json_clean x \<and> clean_items xs)"
| "clean_members [] = True"
| "clean_members (m # ms) = (clean_member m \<and> clean_members ms)"
| "clean_member (k, v) = (unicode k \<and> json_clean v)"

primrec json_nodes :: "json \<Rightarrow> int"
  and nodes_items :: "json list \<Rightarrow> int"
  and nodes_members :: "(utext \<times> json) list \<Rightarrow> int"
  and nodes_member :: "utext \<times> json \<Rightarrow> int"
where
  "json_nodes JNull = 1"
| "json_nodes (JBool b) = 1"
| "json_nodes (JInt n) = 1"
| "json_nodes (JDec t) = 1"
| "json_nodes JNonFinite = 1"
| "json_nodes (JStr s) = 1"
| "json_nodes (JArr xs) = 1 + nodes_items xs"
| "json_nodes (JObj ms) = 1 + nodes_members ms"
| "json_nodes JForeign = 1"
| "nodes_items [] = 0"
| "nodes_items (x # xs) = json_nodes x + nodes_items xs"
| "nodes_members [] = 0"
| "nodes_members (m # ms) = nodes_member m + nodes_members ms"
| "nodes_member (k, v) = json_nodes v"

primrec json_text :: "json \<Rightarrow> int"
  and text_items :: "json list \<Rightarrow> int"
  and text_members :: "(utext \<times> json) list \<Rightarrow> int"
  and text_member :: "utext \<times> json \<Rightarrow> int"
where
  "json_text JNull = 0"
| "json_text (JBool b) = 0"
| "json_text (JInt n) = 0"
| "json_text (JDec t) = 0"
| "json_text JNonFinite = 0"
| "json_text (JStr s) = byteLength s"
| "json_text (JArr xs) = text_items xs"
| "json_text (JObj ms) = text_members ms"
| "json_text JForeign = 0"
| "text_items [] = 0"
| "text_items (x # xs) = json_text x + text_items xs"
| "text_members [] = 0"
| "text_members (m # ms) = text_member m + text_members ms"
| "text_member (k, v) = byteLength k + json_text v"

primrec json_depth :: "json \<Rightarrow> int"
  and depth_items :: "json list \<Rightarrow> int"
  and depth_members :: "(utext \<times> json) list \<Rightarrow> int"
  and depth_member :: "utext \<times> json \<Rightarrow> int"
where
  "json_depth JNull = 0"
| "json_depth (JBool b) = 0"
| "json_depth (JInt n) = 0"
| "json_depth (JDec t) = 0"
| "json_depth JNonFinite = 0"
| "json_depth (JStr s) = 0"
| "json_depth (JArr xs) = 1 + depth_items xs"
| "json_depth (JObj ms) = 1 + depth_members ms"
| "json_depth JForeign = 0"
| "depth_items [] = 0"
| "depth_items (x # xs) = max (json_depth x) (depth_items xs)"
| "depth_members [] = 0"
| "depth_members (m # ms) = max (depth_member m) (depth_members ms)"
| "depth_member (k, v) = json_depth v"

primrec json_parts :: "json \<Rightarrow> utext list"
  and parts_items :: "json list \<Rightarrow> bool \<Rightarrow> utext list"
  and parts_members :: "(utext \<times> json) list \<Rightarrow> bool \<Rightarrow> utext list"
  and parts_member :: "utext \<times> json \<Rightarrow> utext list"
where
  "json_parts JNull = [utext_of ''null'']"
| "json_parts (JBool b) = [utext_of (if b then ''true'' else ''false'')]"
| "json_parts (JInt n) = [json_int n]"
| "json_parts (JDec t) = [t]"
| "json_parts JNonFinite = []"
| "json_parts (JStr s) = [json_quote s]"
| "json_parts (JArr xs) = [91] # parts_items xs True @ [[93]]"
| "json_parts (JObj ms) = [123] # parts_members ms True @ [[125]]"
| "json_parts JForeign = []"
| "parts_items [] isfirst = []"
| "parts_items (x # xs) isfirst = (if isfirst then [] else [[44]]) @ json_parts x @ parts_items xs False"
| "parts_members [] isfirst = []"
| "parts_members (m # ms) isfirst = (if isfirst then [] else [[44]]) @ parts_member m @ parts_members ms False"
| "parts_member (k, v) = json_quote k # [58] # json_parts v"

text \<open>The text \<^verbatim>\<open>JSON.stringify\<close> prints for a clean value, and its size in bytes.\<close>

definition json_print :: "json \<Rightarrow> utext" where
  "json_print v = concat (json_parts v)"

definition bytes_of :: "utext list \<Rightarrow> int" where
  "bytes_of ps = sum_list (map byteLength ps)"

definition within :: "limits \<Rightarrow> budget \<Rightarrow> bool" where
  "within lim bg \<longleftrightarrow> bg_nodes bg \<le> maxNodes lim \<and> bg_text bg \<le> maxTextBytes lim \<and>
     0 \<le> bg_bytes bg \<and> bg_bytes bg \<le> maxBytes lim"

definition advance :: "budget \<Rightarrow> int \<Rightarrow> int \<Rightarrow> utext list \<Rightarrow> budget" where
  "advance bg n t ps = \<lparr>bg_nodes = bg_nodes bg + n, bg_text = bg_text bg + t,
     bg_bytes = bg_bytes bg + bytes_of ps, bg_parts = rev ps @ bg_parts bg\<rparr>"

lemma utf8_char_pos: "0 < utf8_char c"
  by (simp add: utf8_char_def)

lemma byteLength_Nil [simp]: "byteLength [] = 0"
  by (simp add: byteLength_def)

lemma byteLength_append [simp]: "byteLength (s @ t) = byteLength s + byteLength t"
  by (simp add: byteLength_def)

lemma byteLength_Cons: "byteLength (c # s) = utf8_char c + byteLength s"
  by (simp add: byteLength_def)

lemma byteLength_nonneg [simp]: "0 \<le> byteLength s"
  by (induction s) (auto simp: byteLength_Cons intro: add_nonneg_nonneg less_imp_le utf8_char_pos)

lemma byteLength_concat: "byteLength (concat ps) = bytes_of ps"
  by (induction ps) (simp_all add: bytes_of_def)

lemma bytes_of_simps [simp]:
  "bytes_of [] = 0" "bytes_of (p # ps) = byteLength p + bytes_of ps"
  "bytes_of (ps @ qs) = bytes_of ps + bytes_of qs"
  by (simp_all add: bytes_of_def)

lemma bytes_of_nonneg [simp]: "0 \<le> bytes_of ps"
  by (induction ps) auto

lemma byteLength_escape: "utf8_char c \<le> byteLength (json_escape c)"
  by (simp add: json_escape_def byteLength_Cons utf8_char_def)

lemma byteLength_quote: "byteLength s \<le> byteLength (json_quote s)"
proof -
  have "byteLength s \<le> byteLength (concat (map json_escape s))"
    by (induction s) (auto simp: byteLength_Cons intro: add_mono byteLength_escape)
  then show ?thesis by (simp add: json_quote_def byteLength_Cons utf8_char_def)
qed

lemma json_nodes_pos:
  "1 \<le> json_nodes v" "int (length xs) \<le> nodes_items xs"
  "1 \<le> nodes_member m" "int (length ms) \<le> nodes_members ms"
  by (induction v and xs and m and ms rule: json_nodes.induct nodes_items.induct nodes_member.induct nodes_members.induct)
    simp_all

lemma json_text_nonneg:
  "0 \<le> json_text v" "0 \<le> text_items xs" "0 \<le> text_member m" "0 \<le> text_members ms"
  by (induction v and xs and m and ms rule: json_nodes.induct nodes_items.induct nodes_member.induct nodes_members.induct)
    simp_all

lemma json_depth_nonneg:
  "0 \<le> json_depth v" "0 \<le> depth_items xs" "0 \<le> depth_member m" "0 \<le> depth_members ms"
  by (induction v and xs and m and ms rule: json_nodes.induct nodes_items.induct nodes_member.induct nodes_members.induct)
    simp_all

lemma advance_advance [simp]:
  "advance (advance bg n t ps) n' t' ps' = advance bg (n + n') (t + t') (ps @ ps')"
  by (simp add: advance_def)

lemma advance_zero [simp]: "advance bg 0 0 [] = bg"
  by (simp add: advance_def)

lemma within_advance_mono:
  "within lim bg \<Longrightarrow> within lim (advance bg n t ps) \<Longrightarrow> n' \<le> n \<Longrightarrow> t' \<le> t \<Longrightarrow> bytes_of ps' \<le> bytes_of ps \<Longrightarrow>
   within lim (advance bg n' t' ps')"
  by (auto simp: within_def advance_def)

lemma emit_Inr:
  assumes "within lim bg"
  shows "emit lim p bg = Inr bg' \<longleftrightarrow> bg' = advance bg 0 0 [p] \<and> within lim bg'"
  using assms byteLength_nonneg [of p] by (auto simp: emit_def Let_def advance_def within_def)

lemma count_node_Inr:
  assumes "within lim bg"
  shows "count_node lim bg = Inr bg' \<longleftrightarrow> bg' = advance bg 1 0 [] \<and> within lim bg'"
  using assms by (auto simp: count_node_def Let_def advance_def within_def)

lemma comma_Inr:
  assumes "within lim bg"
  shows "comma lim isfirst bg = Inr bg' \<longleftrightarrow>
    bg' = advance bg 0 0 (if isfirst then [] else [[44]]) \<and> within lim bg'"
  using assms by (auto simp: comma_def emit_Inr [OF assms])

lemma put_text_Inr:
  assumes "within lim bg"
  shows "put_text lim s bg = Inr bg' \<longleftrightarrow>
    unicode s \<and> bg' = advance bg 0 (byteLength s) [json_quote s] \<and> within lim bg'"
  using assms byteLength_quote [of s] byteLength_nonneg [of s]
  by (auto simp: put_text_def emit_def Let_def advance_def within_def)

text \<open>
  The walk from a state within its budgets succeeds exactly when the value is clean, nests
  within the limit and the budgets it consumes still fit; the state it reaches is then
  determined by the measures.
\<close>

definition walked :: "limits \<Rightarrow> bool \<Rightarrow> int \<Rightarrow> int \<Rightarrow> budget \<Rightarrow> budget \<Rightarrow> int \<Rightarrow> int \<Rightarrow> utext list \<Rightarrow> bool" where
  "walked lim clean d nest bg bg' n t ps \<longleftrightarrow>
     clean \<and> d + nest \<le> maxDepth lim \<and> bg' = advance bg n t ps \<and> within lim bg'"

lemma walked_within: "walked lim c d h bg bg' n t ps \<Longrightarrow> within lim bg'"
  by (auto simp: walked_def)

text \<open>Two consecutive stretches of output are one.\<close>

lemma walked_seq:
  assumes "within lim bg" "0 \<le> n'" "0 \<le> t'" "0 \<le> n" "0 \<le> t"
  shows "(\<exists>bg1. walked lim c d h bg bg1 n t ps \<and> walked lim c' d h' bg1 bg2 n' t' ps') \<longleftrightarrow>
    walked lim (c \<and> c') d (max h h') bg bg2 (n + n') (t + t') (ps @ ps')"
  using assms by (auto simp: walked_def dest: within_advance_mono
      [of lim bg "n + n'" "t + t'" "ps @ ps'" n t ps])

lemma emit_walked:
  "within lim bg \<Longrightarrow> d \<le> maxDepth lim \<Longrightarrow>
   emit lim p bg = Inr bg' \<longleftrightarrow> walked lim True d 0 bg bg' 0 0 [p]"
  by (simp add: emit_Inr walked_def)

lemma comma_walked:
  "within lim bg \<Longrightarrow> d \<le> maxDepth lim \<Longrightarrow>
   comma lim isfirst bg = Inr bg' \<longleftrightarrow> walked lim True d 0 bg bg' 0 0 (if isfirst then [] else [[44]])"
  by (simp add: comma_Inr walked_def)

lemma put_text_walked:
  "within lim bg \<Longrightarrow> d \<le> maxDepth lim \<Longrightarrow>
   put_text lim s bg = Inr bg' \<longleftrightarrow> walked lim (unicode s) d 0 bg bg' 0 (byteLength s) [json_quote s]"
  by (auto simp add: put_text_Inr walked_def)

lemma then_walked:
  assumes bg: "within lim bg"
    and f: "\<And>bg1. m = Inr bg1 \<longleftrightarrow> walked lim c d h bg bg1 n t ps"
    and g: "\<And>bg1 bg2. within lim bg1 \<Longrightarrow> g bg1 = Inr bg2 \<longleftrightarrow> walked lim c' d h' bg1 bg2 n' t' ps'"
    and pos: "0 \<le> n" "0 \<le> t" "0 \<le> n'" "0 \<le> t'"
  shows "and_then m g = Inr bg' \<longleftrightarrow>
    walked lim (c \<and> c') d (max h h') bg bg' (n + n') (t + t') (ps @ ps')"
  unfolding walked_seq [OF bg pos(3,4,1,2), symmetric] and_then_Inr f
  using g walked_within by blast

text \<open>A scalar: one node, then its own output.\<close>

lemma leaf_walked:
  assumes bg: "within lim bg" and d: "d \<le> maxDepth lim"
    and g: "\<And>bg1 bg2. within lim bg1 \<Longrightarrow> d \<le> maxDepth lim \<Longrightarrow>
      g bg1 = Inr bg2 \<longleftrightarrow> walked lim c d 0 bg1 bg2 0 t ps"
    and t: "0 \<le> t"
  shows "and_then (count_node lim bg) g = Inr bg' \<longleftrightarrow> walked lim c d 0 bg bg' 1 t ps"
proof -
  have "and_then (count_node lim bg) g = Inr bg' \<longleftrightarrow>
      walked lim (True \<and> c) d (max 0 0) bg bg' (1 + 0) (0 + t) ([] @ ps)"
    by (rule then_walked [OF bg])
      (use bg d t in \<open>auto simp: count_node_Inr walked_def [of lim True d 0] g\<close>)
  then show ?thesis by simp
qed

text \<open>A container of \<open>n\<close> elements around its already characterised contents.\<close>

lemma container_walked:
  assumes bg: "within lim bg" and d: "d \<le> maxDepth lim"
    and body: "\<And>bg1 bg2. within lim bg1 \<Longrightarrow> d + 1 \<le> maxDepth lim \<Longrightarrow>
      body bg1 = Inr bg2 \<longleftrightarrow> walked lim c (d + 1) h bg1 bg2 n t ps"
    and pos: "int k \<le> n" "0 \<le> t" "0 \<le> h"
  shows "and_then (count_node lim bg) (\<lambda>bg. and_then (open_container lim d k lb bg) (\<lambda>bg.
      and_then (body bg) (emit lim rb))) = Inr bg' \<longleftrightarrow>
    walked lim c d (1 + h) bg bg' (1 + n) t (lb # ps @ [rb])"
    (is "?l \<longleftrightarrow> ?r")
proof
  assume ?l
  then obtain bg0 bg1 bg2 where st: "count_node lim bg = Inr bg0"
    "open_container lim d k lb bg0 = Inr bg1" "body bg1 = Inr bg2" "emit lim rb bg2 = Inr bg'"
    by auto
  have 0: "bg0 = advance bg 1 0 []" "within lim bg0"
    using st(1) bg by (auto simp: count_node_Inr)
  have 1: "d + 1 \<le> maxDepth lim" "bg1 = advance bg0 0 0 [lb]" "within lim bg1"
    using st(2) 0(2) by (auto simp: open_container_def emit_Inr split: if_splits)
  have 2: "c" "d + 1 + h \<le> maxDepth lim" "bg2 = advance bg1 n t ps" "within lim bg2"
    using st(3) body [OF 1(3,1)] by (auto simp: walked_def)
  have "bg' = advance bg2 0 0 [rb]" "within lim bg'"
    using st(4) 2(4) by (auto simp: emit_Inr)
  then show ?r using 0 1 2 by (simp add: walked_def)
next
  assume r: ?r
  define bg0 where "bg0 = advance bg 1 0 []"
  define bg1 where "bg1 = advance bg0 0 0 [lb]"
  define bg2 where "bg2 = advance bg1 n t ps"
  have w: "within lim bg0" "within lim bg1" "within lim bg2"
    using r bg pos unfolding walked_def bg0_def bg1_def bg2_def
    by (auto intro: within_advance_mono)
  have dd: "d + 1 \<le> maxDepth lim" "d + 1 + h \<le> maxDepth lim" and c: c
    using r pos by (auto simp: walked_def)
  have k: "int k \<le> maxNodes lim - bg_nodes bg0"
    using w(3) pos by (simp add: bg2_def bg1_def within_def advance_def)
  have 0: "count_node lim bg = Inr bg0"
    using bg w(1) by (simp add: count_node_Inr bg0_def)
  have 1: "open_container lim d k lb bg0 = Inr bg1"
    using dd k w(1,2) by (simp add: open_container_def emit_Inr bg1_def)
  have 2: "body bg1 = Inr bg2"
    using body [OF w(2) dd(1)] c dd w(3) by (simp add: walked_def bg2_def)
  have "emit lim rb bg2 = Inr bg'"
    using r w(3) by (auto simp: emit_Inr walked_def bg2_def bg1_def bg0_def)
  then show ?l using 0 1 2 by simp
qed

lemma walk_Inr:
  "within lim bg \<Longrightarrow> d \<le> maxDepth lim \<Longrightarrow> walk lim v d bg = Inr bg' \<longleftrightarrow>
     walked lim (json_clean v) d (json_depth v) bg bg' (json_nodes v) (json_text v) (json_parts v)"
  "within lim bg \<Longrightarrow> d \<le> maxDepth lim \<Longrightarrow> walk_items lim xs isfirst d bg = Inr bg' \<longleftrightarrow>
     walked lim (clean_items xs) d (depth_items xs) bg bg' (nodes_items xs) (text_items xs)
       (parts_items xs isfirst)"
  "within lim bg \<Longrightarrow> d \<le> maxDepth lim \<Longrightarrow> walk_member lim m d bg = Inr bg' \<longleftrightarrow>
     walked lim (clean_member m) d (depth_member m) bg bg' (nodes_member m) (text_member m)
       (parts_member m)"
  "within lim bg \<Longrightarrow> d \<le> maxDepth lim \<Longrightarrow> walk_members lim ms isfirst d bg = Inr bg' \<longleftrightarrow>
     walked lim (clean_members ms) d (depth_members ms) bg bg' (nodes_members ms) (text_members ms)
       (parts_members ms isfirst)"
proof (induction v and xs and m and ms arbitrary: bg bg' d and bg bg' d isfirst and bg bg' d
    and bg bg' d isfirst
    rule: json_nodes.induct nodes_items.induct nodes_member.induct nodes_members.induct)
  case (JArr xs)
  show ?case
    unfolding walk.simps json_clean.simps json_depth.simps json_nodes.simps json_text.simps
      json_parts.simps append.simps
    by (rule container_walked [OF JArr.prems JArr.IH])
      (simp_all add: json_nodes_pos json_text_nonneg json_depth_nonneg)
next
  case (JObj ms)
  show ?case
    unfolding walk.simps json_clean.simps json_depth.simps json_nodes.simps json_text.simps
      json_parts.simps append.simps
    by (rule container_walked [OF JObj.prems JObj.IH])
      (simp_all add: json_nodes_pos json_text_nonneg json_depth_nonneg)
next
  case (Cons_json x xs)
  have "walk_items lim (x # xs) isfirst d bg = Inr bg' \<longleftrightarrow>
    walked lim (True \<and> json_clean x \<and> clean_items xs) d (max 0 (max (json_depth x) (depth_items xs)))
      bg bg' (0 + (json_nodes x + nodes_items xs)) (0 + (json_text x + text_items xs))
      ((if isfirst then [] else [[44]]) @ json_parts x @ parts_items xs False)"
    unfolding walk_items.simps
    using Cons_json json_nodes_pos(1)[of x] json_nodes_pos(2)[of xs] json_text_nonneg(1)[of x] json_text_nonneg(2)[of xs]
    by (intro then_walked comma_walked) (auto intro: order_trans)
  then show ?case using json_depth_nonneg(1)[of x] json_depth_nonneg(2)[of xs] by (simp add: max_def)
next
  case (Pair_nat_list_json k v)
  have "walk_member lim (k, v) d bg = Inr bg' \<longleftrightarrow>
    walked lim (unicode k \<and> True \<and> json_clean v) d (max 0 (max 0 (json_depth v)))
      bg bg' (0 + (0 + json_nodes v)) (byteLength k + (0 + json_text v))
      ([json_quote k] @ [[58]] @ json_parts v)"
    unfolding walk_member.simps
    using Pair_nat_list_json json_nodes_pos(1) [of v] json_text_nonneg(1) [of v]
    by (intro then_walked put_text_walked emit_walked) (auto intro: order_trans)
  then show ?case using json_depth_nonneg(1) [of v] by (simp add: max_def)
next
  case (Cons_nat_list_json_prod m ms)
  have "walk_members lim (m # ms) isfirst d bg = Inr bg' \<longleftrightarrow>
    walked lim (True \<and> clean_member m \<and> clean_members ms) d
      (max 0 (max (depth_member m) (depth_members ms)))
      bg bg' (0 + (nodes_member m + nodes_members ms)) (0 + (text_member m + text_members ms))
      ((if isfirst then [] else [[44]]) @ parts_member m @ parts_members ms False)"
    unfolding walk_members.simps
    using Cons_nat_list_json_prod json_nodes_pos(3) [of m] json_nodes_pos(4) [of ms]
      json_text_nonneg(3) [of m] json_text_nonneg(4) [of ms]
    by (intro then_walked comma_walked) (auto intro: order_trans)
  then show ?case using json_depth_nonneg(3) [of m] json_depth_nonneg(4) [of ms] by (simp add: max_def)
qed ((unfold walk.simps json_clean.simps json_depth.simps json_nodes.simps json_text.simps
      json_parts.simps, rule leaf_walked; auto simp: emit_walked put_text_walked walked_def)
    | (auto simp: walked_def)[1])+

lemma checkLimits_None:
  "checkLimits lim = None \<longleftrightarrow>
     (\<forall>n \<in> {maxBytes lim, maxTextBytes lim, maxDepth lim, maxNodes lim}. 1 \<le> n \<and> n \<le> max_safe) \<and>
     maxDepth lim \<le> 64"
  by (auto simp: checkLimits_def is_safe_integer_def max_safe_def)

definition fits :: "limits \<Rightarrow> json \<Rightarrow> bool" where
  "fits lim v \<longleftrightarrow> json_clean v \<and> json_depth v \<le> maxDepth lim \<and> json_nodes v \<le> maxNodes lim \<and>
     json_text v \<le> maxTextBytes lim \<and> byteLength (json_print v) \<le> maxBytes lim"

text \<open>
  The serialiser's contract: it returns the printed text exactly when the limits are legal
  and the whole value fits them.
\<close>

theorem boundedJson_Inr:
  "boundedJson lim v = Inr s \<longleftrightarrow> checkLimits lim = None \<and> fits lim v \<and> s = json_print v"
proof (cases "checkLimits lim = None")
  case True
  then have w: "within lim no_budget" and d: "0 \<le> maxDepth lim"
    by (auto simp: checkLimits_None within_def no_budget_def)
  show ?thesis
    using True walk_Inr(1) [OF w d]
    by (auto simp: boundedJson_def walked_def within_def advance_def no_budget_def fits_def
        json_print_def byteLength_concat)
next
  case False
  then show ?thesis by (auto simp: boundedJson_def)
qed

lemma fits_mono: "fits l v \<Longrightarrow> l \<le> m \<Longrightarrow> fits m v"
  by (auto simp: fits_def less_eq_limits_def)

section \<open>The structural scan of decode\<close>

text \<open>
  \<^verbatim>\<open>decode\<close> walks the source text with the visitor of \<^verbatim>\<open>jsonc-parser\<close>, which reports the
  events below in document order, and then calls \<^verbatim>\<open>JSON.parse\<close>. The parser is a parameter:
  a function from the text to the reported events and the parsed value (\<open>None\<close> where
  \<^verbatim>\<open>JSON.parse\<close> throws). \<open>Ev_error\<close> is the visitor's \<^verbatim>\<open>onError\<close>.
\<close>

datatype json_event =
    Ev_object_begin
  | Ev_array_begin
  | Ev_object_end
  | Ev_array_end
  | Ev_property utext
  | Ev_literal json
  | Ev_error

type_synonym parser = "utext \<Rightarrow> json_event list \<times> json option"

record scan =
  sc_stack :: "utext list option list" \<comment> \<open>innermost container first, \<open>None\<close> for an array\<close>
  sc_nodes :: int
  sc_text :: int

definition scan_count :: "limits \<Rightarrow> scan \<Rightarrow> diagnostic + scan" where
  "scan_count lim st =
     (let n = sc_nodes st + 1 in
      if maxNodes lim < n then Inl D_limit else Inr (st\<lparr>sc_nodes := n\<rparr>))"

definition scan_text :: "limits \<Rightarrow> utext \<Rightarrow> scan \<Rightarrow> diagnostic + scan" where
  "scan_text lim s st =
     (if \<not> unicode s then Inl D_encoding
      else let t = sc_text st + byteLength s in
        if maxTextBytes lim < t then Inl D_limit else Inr (st\<lparr>sc_text := t\<rparr>))"

definition scan_begin :: "limits \<Rightarrow> utext list option \<Rightarrow> scan \<Rightarrow> diagnostic + scan" where
  "scan_begin lim keys st = and_then (scan_count lim st) (\<lambda>st.
     if maxDepth lim < int (length (sc_stack st)) + 1 then Inl D_limit
     else Inr (st\<lparr>sc_stack := keys # sc_stack st\<rparr>))"

fun scan_event :: "limits \<Rightarrow> json_event \<Rightarrow> scan \<Rightarrow> diagnostic + scan" where
  "scan_event lim Ev_object_begin st = scan_begin lim (Some []) st"
| "scan_event lim Ev_array_begin st = scan_begin lim None st"
| "scan_event lim Ev_object_end st = Inr (st\<lparr>sc_stack := tl (sc_stack st)\<rparr>)"
| "scan_event lim Ev_array_end st = Inr (st\<lparr>sc_stack := tl (sc_stack st)\<rparr>)"
| "scan_event lim (Ev_property key) st =
     (case sc_stack st of
        Some keys # rest \<Rightarrow>
          if key \<in> set keys then Inl D_duplicate_key
          else scan_text lim key (st\<lparr>sc_stack := Some (key # keys) # rest\<rparr>)
      | _ \<Rightarrow> Inl D_duplicate_key)"
| "scan_event lim (Ev_literal v) st = and_then (scan_count lim st) (\<lambda>st.
     case v of
       JStr s \<Rightarrow> scan_text lim s st
     | JInt n \<Rightarrow> if \<not> is_safe_integer n then Inl D_number else Inr st
     | JNonFinite \<Rightarrow> Inl D_number
     | _ \<Rightarrow> Inr st)"
| "scan_event lim Ev_error st = Inl D_encoding"

text \<open>The schema-independent part of \<^verbatim>\<open>decode\<close> on a string source.\<close>

definition decode_text :: "parser \<Rightarrow> limits \<Rightarrow> utext \<Rightarrow> diagnostic + json" where
  "decode_text parser lim source =
     unless_exit (first_exit
       [checkLimits lim,
        fail_if (maxBytes lim < byteLength source) D_limit,
        fail_if (\<not> unicode source) D_encoding])
     (and_then (loop_exit (scan_event lim) (fst (parser source))
         \<lparr>sc_stack = [], sc_nodes = 0, sc_text = 0\<rparr>) (\<lambda>_.
      case snd (parser source) of None \<Rightarrow> Inl D_encoding | Some v \<Rightarrow> Inr v))"

text \<open>The events of a document that denotes a value.\<close>

primrec visit_events :: "json \<Rightarrow> json_event list"
  and visit_items :: "json list \<Rightarrow> json_event list"
  and visit_members :: "(utext \<times> json) list \<Rightarrow> json_event list"
  and visit_member :: "utext \<times> json \<Rightarrow> json_event list"
where
  "visit_events JNull = [Ev_literal JNull]"
| "visit_events (JBool b) = [Ev_literal (JBool b)]"
| "visit_events (JInt n) = [Ev_literal (JInt n)]"
| "visit_events (JDec t) = [Ev_literal (JDec t)]"
| "visit_events JNonFinite = [Ev_literal JNonFinite]"
| "visit_events (JStr s) = [Ev_literal (JStr s)]"
| "visit_events (JArr xs) = Ev_array_begin # visit_items xs @ [Ev_array_end]"
| "visit_events (JObj ms) = Ev_object_begin # visit_members ms @ [Ev_object_end]"
| "visit_events JForeign = [Ev_error]"
| "visit_items [] = []"
| "visit_items (x # xs) = visit_events x @ visit_items xs"
| "visit_members [] = []"
| "visit_members (m # ms) = visit_member m @ visit_members ms"
| "visit_member (k, v) = Ev_property k # visit_events v"

text \<open>JavaScript objects have distinct keys.\<close>

primrec json_wf :: "json \<Rightarrow> bool"
  and wf_items :: "json list \<Rightarrow> bool"
  and wf_members :: "(utext \<times> json) list \<Rightarrow> bool"
  and wf_member :: "utext \<times> json \<Rightarrow> bool"
where
  "json_wf JNull = True"
| "json_wf (JBool b) = True"
| "json_wf (JInt n) = True"
| "json_wf (JDec t) = True"
| "json_wf JNonFinite = True"
| "json_wf (JStr s) = True"
| "json_wf (JArr xs) = wf_items xs"
| "json_wf (JObj ms) = (distinct (map fst ms) \<and> wf_members ms)"
| "json_wf JForeign = True"
| "wf_items [] = True"
| "wf_items (x # xs) = (json_wf x \<and> wf_items xs)"
| "wf_members [] = True"
| "wf_members (m # ms) = (wf_member m \<and> wf_members ms)"
| "wf_member (k, v) = json_wf v"

definition scan_fits :: "limits \<Rightarrow> scan \<Rightarrow> int \<Rightarrow> int \<Rightarrow> int \<Rightarrow> bool" where
  "scan_fits lim st h n t \<longleftrightarrow> int (length (sc_stack st)) + h \<le> maxDepth lim \<and>
     sc_nodes st + n \<le> maxNodes lim \<and> sc_text st + t \<le> maxTextBytes lim"

definition scanned :: "scan \<Rightarrow> int \<Rightarrow> int \<Rightarrow> scan" where
  "scanned st n t = st\<lparr>sc_nodes := sc_nodes st + n, sc_text := sc_text st + t\<rparr>"

definition with_keys :: "utext list \<Rightarrow> scan \<Rightarrow> scan" where
  "with_keys ks st = (case sc_stack st of
     Some keys # rest \<Rightarrow> st\<lparr>sc_stack := Some (rev ks @ keys) # rest\<rparr> | _ \<Rightarrow> st)"

definition open_keys :: "scan \<Rightarrow> utext list option" where
  "open_keys st = (case sc_stack st of keys # _ \<Rightarrow> keys | [] \<Rightarrow> None)"

text \<open>
  A value whose measures still fit is scanned without an exit; a run of members only adds
  their keys to the innermost object.
\<close>

lemma scan_visit:
  "json_clean v \<Longrightarrow> json_wf v \<Longrightarrow> scan_fits lim st (json_depth v) (json_nodes v) (json_text v) \<Longrightarrow>
     loop_exit (scan_event lim) (visit_events v @ es) st =
     loop_exit (scan_event lim) es (scanned st (json_nodes v) (json_text v))"
  "clean_items xs \<Longrightarrow> wf_items xs \<Longrightarrow> scan_fits lim st (depth_items xs) (nodes_items xs) (text_items xs) \<Longrightarrow>
     loop_exit (scan_event lim) (visit_items xs @ es) st =
     loop_exit (scan_event lim) es (scanned st (nodes_items xs) (text_items xs))"
  "clean_member m \<Longrightarrow> wf_member m \<Longrightarrow> scan_fits lim st (depth_member m) (nodes_member m) (text_member m) \<Longrightarrow>
     open_keys st = Some ks \<Longrightarrow> fst m \<notin> set ks \<Longrightarrow>
     loop_exit (scan_event lim) (visit_member m @ es) st =
     loop_exit (scan_event lim) es (with_keys [fst m] (scanned st (nodes_member m) (text_member m)))"
  "clean_members ms \<Longrightarrow> wf_members ms \<Longrightarrow> scan_fits lim st (depth_members ms) (nodes_members ms) (text_members ms) \<Longrightarrow>
     open_keys st = Some ks \<Longrightarrow> distinct (map fst ms) \<Longrightarrow> set (map fst ms) \<inter> set ks = {} \<Longrightarrow>
     loop_exit (scan_event lim) (visit_members ms @ es) st =
     loop_exit (scan_event lim) es (with_keys (map fst ms) (scanned st (nodes_members ms) (text_members ms)))"
proof (induction v and xs and m and ms arbitrary: st es and st es and st es ks and st es ks
    rule: json_nodes.induct nodes_items.induct nodes_member.induct nodes_members.induct)
  case (JArr xs)
  let ?st = "st\<lparr>sc_nodes := sc_nodes st + 1, sc_stack := None # sc_stack st\<rparr>"
  have "scan_fits lim ?st (depth_items xs) (nodes_items xs) (text_items xs)"
    using JArr.prems by (simp add: scan_fits_def)
  from JArr.IH [OF _ _ this] JArr.prems show ?case
    using json_nodes_pos(2) [of xs] json_depth_nonneg(2) [of xs]
    by (auto simp: scan_begin_def scan_count_def Let_def scan_fits_def scanned_def add.assoc)
next
  case (JObj ms)
  let ?st = "st\<lparr>sc_nodes := sc_nodes st + 1, sc_stack := Some [] # sc_stack st\<rparr>"
  have "scan_fits lim ?st (depth_members ms) (nodes_members ms) (text_members ms)"
    using JObj.prems by (simp add: scan_fits_def)
  from JObj.IH [OF _ _ this, of "[]"] JObj.prems show ?case
    using json_nodes_pos(4) [of ms] json_depth_nonneg(4) [of ms]
    by (auto simp: scan_begin_def scan_count_def Let_def scan_fits_def scanned_def with_keys_def
        open_keys_def add.assoc)
next
  case (Cons_json x xs)
  have 1: "scan_fits lim st (json_depth x) (json_nodes x) (json_text x)"
    using Cons_json.prems json_nodes_pos(2) [of xs] json_text_nonneg(2) [of xs]
    by (auto simp: scan_fits_def)
  have 2: "scan_fits lim (scanned st (json_nodes x) (json_text x)) (depth_items xs) (nodes_items xs)
      (text_items xs)"
    using Cons_json.prems by (auto simp: scan_fits_def scanned_def)
  show ?case
    using Cons_json.IH(1) [OF _ _ 1] Cons_json.IH(2) [OF _ _ 2] Cons_json.prems
    by (simp add: scanned_def algebra_simps)
next
  case (Pair_nat_list_json k v)
  obtain rest where st: "sc_stack st = Some ks # rest"
    using Pair_nat_list_json.prems(4) by (auto simp: open_keys_def split: list.splits)
  let ?st = "st\<lparr>sc_stack := Some (k # ks) # rest, sc_text := sc_text st + byteLength k\<rparr>"
  have fit: "scan_fits lim ?st (json_depth v) (json_nodes v) (json_text v)"
    using Pair_nat_list_json.prems st by (simp add: scan_fits_def)
  have "scan_event lim (Ev_property k) st = Inr ?st"
    using Pair_nat_list_json.prems st json_text_nonneg(1) [of v]
    by (auto simp: scan_text_def scan_fits_def Let_def)
  then show ?case
    using Pair_nat_list_json.IH [OF _ _ fit] Pair_nat_list_json.prems st
    by (cases st) (simp add: scanned_def with_keys_def add.assoc)
next
  case (Cons_nat_list_json_prod m ms)
  obtain rest where st: "sc_stack st = Some ks # rest"
    using Cons_nat_list_json_prod.prems(4) by (auto simp: open_keys_def split: list.splits)
  let ?st = "with_keys [fst m] (scanned st (nodes_member m) (text_member m))"
  have 1: "scan_fits lim st (depth_member m) (nodes_member m) (text_member m)"
    using Cons_nat_list_json_prod.prems json_nodes_pos(4) [of ms] json_text_nonneg(4) [of ms]
    by (auto simp: scan_fits_def)
  have 2: "scan_fits lim ?st (depth_members ms) (nodes_members ms) (text_members ms)"
    using Cons_nat_list_json_prod.prems st by (auto simp: scan_fits_def scanned_def with_keys_def)
  have 3: "open_keys ?st = Some (fst m # ks)"
    using st by (simp add: with_keys_def scanned_def open_keys_def)
  show ?case
    using Cons_nat_list_json_prod.IH(1) [OF _ _ 1 Cons_nat_list_json_prod.prems(4)]
      Cons_nat_list_json_prod.IH(2) [OF _ _ 2 3] Cons_nat_list_json_prod.prems st
    by (auto simp: scanned_def with_keys_def algebra_simps)
next
  case Nil_nat_list_json_prod
  then show ?case by (cases st) (auto simp: scanned_def with_keys_def split: list.splits option.splits)
qed (auto simp: scan_count_def scan_text_def Let_def scan_fits_def scanned_def)

text \<open>The serialiser's output passes the decoder's own budgets: no second limit applies.\<close>

lemma unicode_append [simp]: "unicode (s @ t) \<longleftrightarrow> unicode s \<and> unicode t"
  by (simp add: unicode_def)

lemma unicode_Cons: "unicode (c # s) \<longleftrightarrow> \<not> (55296 \<le> c \<and> c \<le> 57343) \<and> unicode s"
  by (simp add: unicode_def)

lemma unicode_Nil [simp]: "unicode []"
  by (simp add: unicode_def)

lemma hex_digit_less: "d < 16 \<Longrightarrow> hex_digit d < 200"
  by (simp add: hex_digit_def)

lemma unicode_escape: "unicode [c] \<Longrightarrow> unicode (json_escape c)"
proof -
  assume c: "unicode [c]"
  have small: "n < 200 \<Longrightarrow> \<not> (55296 \<le> n)" for n :: nat by simp
  have "c < 32 \<Longrightarrow> hex_digit (c div 16) < 200" by (rule hex_digit_less) simp
  moreover have "hex_digit (c mod 16) < 200" by (rule hex_digit_less) simp
  ultimately show ?thesis using c by (auto simp: json_escape_def unicode_Cons)
qed

lemma unicode_quote: "unicode s \<Longrightarrow> unicode (json_quote s)"
proof -
  assume "unicode s"
  then have "unicode (concat (map json_escape s))"
    by (induction s) (auto simp: unicode_Cons intro: unicode_escape [unfolded unicode_Cons])
  then show ?thesis by (simp add: json_quote_def unicode_Cons)
qed

lemma decimal_less: "\<forall>c \<in> set (decimal n). c < 58"
  by (induction n rule: decimal.induct) (subst decimal.simps, auto)

lemma unicode_small: "\<forall>c \<in> set s. c < 58 \<Longrightarrow> unicode s"
  by (induction s) (auto simp: unicode_Cons)

lemma unicode_json_int: "unicode (json_int n)"
  by (simp add: json_int_def unicode_Cons unicode_small decimal_less)

text \<open>Fractional numbers carry well-formed text.\<close>

primrec dec_ok :: "json \<Rightarrow> bool"
  and dec_items :: "json list \<Rightarrow> bool"
  and dec_members :: "(utext \<times> json) list \<Rightarrow> bool"
  and dec_member :: "utext \<times> json \<Rightarrow> bool"
where
  "dec_ok JNull = True"
| "dec_ok (JBool b) = True"
| "dec_ok (JInt n) = True"
| "dec_ok (JDec t) = unicode t"
| "dec_ok JNonFinite = True"
| "dec_ok (JStr s) = True"
| "dec_ok (JArr xs) = dec_items xs"
| "dec_ok (JObj ms) = dec_members ms"
| "dec_ok JForeign = True"
| "dec_items [] = True"
| "dec_items (x # xs) = (dec_ok x \<and> dec_items xs)"
| "dec_members [] = True"
| "dec_members (m # ms) = (dec_member m \<and> dec_members ms)"
| "dec_member (k, v) = dec_ok v"

lemma unicode_parts:
  "json_clean v \<Longrightarrow> dec_ok v \<Longrightarrow> unicode (concat (json_parts v))"
  "clean_items xs \<Longrightarrow> dec_items xs \<Longrightarrow> unicode (concat (parts_items xs b))"
  "clean_member m \<Longrightarrow> dec_member m \<Longrightarrow> unicode (concat (parts_member m))"
  "clean_members ms \<Longrightarrow> dec_members ms \<Longrightarrow> unicode (concat (parts_members ms b))"
  by (induction v and xs and m and ms arbitrary: and b and and b
      rule: json_nodes.induct nodes_items.induct nodes_member.induct nodes_members.induct)
    (auto simp: unicode_Cons unicode_json_int unicode_quote utext_of_def)

theorem decode_boundedJson:
  assumes ok: "boundedJson lim v = Inr s" and wf: "json_wf v" "dec_ok v"
    and parser: "parser s = (visit_events v, Some v)"
  shows "decode_text parser lim s = Inr v"
proof -
  have lim: "checkLimits lim = None" and fit: "fits lim v" and s: "s = json_print v"
    using ok by (simp_all add: boundedJson_Inr)
  let ?st = "\<lparr>sc_stack = [], sc_nodes = 0, sc_text = 0\<rparr>"
  have "scan_fits lim ?st (json_depth v) (json_nodes v) (json_text v)"
    using fit by (simp add: fits_def scan_fits_def)
  then have "loop_exit (scan_event lim) (visit_events v) ?st =
      Inr (scanned ?st (json_nodes v) (json_text v))"
    using scan_visit(1) [of v lim ?st "[]"] fit wf(1) by (simp add: fits_def)
  moreover have "unicode s"
    using fit wf(2) unicode_parts(1) [of v] by (simp add: s json_print_def fits_def)
  ultimately show ?thesis
    using lim fit parser by (auto simp: decode_text_def s fits_def)
qed

end
