(* ===== verification/Wire_Types.thy ===== *)
theory Wire_Types
  imports Json_Codec
begin

text \<open>
  The product records of \<^verbatim>\<open>packages/ai-contract/src/wire.ts\<close> that the session core works
  on. An interface is a record, a tagged union a datatype, an optional field an option. A
  field that is \<^verbatim>\<open>never\<close> in a variant is absent from its constructor, so the shape half of
  the JSON schema is the HOL type; the lexical half (identifier alphabet, counter range, text
  and list lengths, which event bodies carry which coordinates) is \<open>schema_row\<close> in
  \<^verbatim>\<open>Wire_Codec\<close>. Unstructured JSON payloads are \<open>json\<close> values, an object listed by its
  properties in canonical order, so the canonical comparison \<^verbatim>\<open>same(a, b)\<close> of the source
  (equality of JCS texts) is equality of the model's values.
\<close>

section \<open>Scalars and closed enumerations\<close>

type_synonym id = string
type_synonym counter = int

datatype error_code =
    Invalid_input | Unsupported_version | Unsupported_capability | Permission_denied
  | Content_conflict | Revision_conflict | Stale_binding | Expired | Unavailable
  | Reconciliation_required | Limit_exceeded | Cursor_expired | Session_gone | Already_answered
  | Storage_corrupt | Connection_switch_pending | Connection_required | Authentication_required
  | Context_unavailable | Verification_cancelled | Verification_refused

datatype retry = Same_command | Reconcile_first | Never

datatype outcome =
  Completed | Cancelled_outcome | Refused | Max_tokens | Max_turn_requests | Failed_outcome

datatype policy = Queue_next | Steer

datatype certainty = Intent | Submitted | Unknown

datatype capability_state = Supported | Unsupported | Capability_unknown

datatype continuation = Same_process | Across_processes | Continuation_unsupported | Continuation_unknown

datatype cancellation =
  Request_only_cancellation | Terminal_acknowledged | Cancellation_unsupported | Cancellation_unknown

datatype tool_mode = Host_mediated | Provider_managed | Tools_disabled | Tools_unknown

datatype session_status = Active | Recovery_required | Retired

datatype interaction_status = Pending | Answered | Interaction_expired | Interaction_unavailable

datatype callback_lifetime = Generation_bound

datatype surface_status = Surface_active | Surface_deleted | Surface_invalidated

datatype delivery_status =
  Delivery_pending | Delivered | Receipt_recorded | Delivery_reconciliation_required

datatype delivery_retry = Receiver_idempotent | Retry_reconcile_first | Retry_never

datatype confirmation = Request_only | Already_terminal | Confirmation_unsupported

datatype disposition = Returned | Rejected | Disposition_unavailable

section \<open>Records\<close>

record failure =
  code :: error_code
  retry_of :: retry

record namespace =
  tenantId :: id
  principalId :: id
  authorityId :: id
  ns_sessionId :: id

record surface_reference =
  sr_instanceId :: id
  sr_revision :: counter

record history_preview =
  hp_sessionId :: id
  hp_connectionId :: id
  hp_configRevision :: counter
  hp_throughSequence :: counter
  hp_commandIds :: "id list"
  hp_text :: utext
  hp_contentHash :: id
  hp_messageIds :: "id list"

datatype input =
    Prompt (prompt_text: utext) (prompt_policy: policy) (targetRunId: "id option")
      (history: "history_preview option")
  | Cancel (targetCommandId: id) (in_generation: id) (in_nativeRunId: "id option")
  | Respond (in_interactionId: id) (in_generation: id) (in_nativeRunId: "id option")
      (answer: json) (in_surface: "surface_reference option")

record command =
  cmd_sessionId :: id
  commandId :: id
  expiresAtMs :: counter
  input_of :: input

record receipt =
  rc_namespace :: namespace
  rc_commandId :: id
  contentHash :: string
  acceptedAtMs :: counter
  retryUntilMs :: counter
  receiptUntilMs :: counter
  acceptedRevision :: counter
  rc_stageId :: id

record dispatch_attempt =
  da_nativeSessionId :: id
  da_nativeRunId :: "id option"
  da_nativeRequestId :: "id option"
  certainty_of :: certainty
  attemptId :: id
  originGeneration :: id
  observerGeneration :: id
  correlationId :: "id option"
  da_nativeThreadId :: "id option"

text \<open>A native control acknowledgement, and the local one of a queued cancellation.\<close>

datatype control_ack = Ack_cancel confirmation | Ack_respond | Ack_steer

datatype acknowledgement = Control_ack control_ack | Queued_cancelled id

text \<open>The lifecycle of a command; each state carries exactly the fields its variant has.\<close>

datatype record_state =
    Accepted
  | Dispatching dispatch_attempt
  | Running dispatch_attempt
  | Terminal dispatch_attempt outcome
  | Uncertain dispatch_attempt \<comment> \<open>\<^verbatim>\<open>reconciliation_required\<close>\<close>
  | Invalidated failure
  | Cancelled id
  | Acknowledged dispatch_attempt control_ack
  | Acknowledged_queued id

record command_record =
  cr_command :: command
  cr_receipt :: receipt
  cr_state :: record_state

datatype state_tag =
    T_accepted | T_dispatching | T_running | T_terminal | T_uncertain | T_invalidated
  | T_cancelled | T_acknowledged

fun tag_of :: "record_state \<Rightarrow> state_tag" where
  "tag_of Accepted = T_accepted"
| "tag_of (Dispatching d) = T_dispatching"
| "tag_of (Running d) = T_running"
| "tag_of (Terminal d r) = T_terminal"
| "tag_of (Uncertain d) = T_uncertain"
| "tag_of (Invalidated f) = T_invalidated"
| "tag_of (Cancelled i) = T_cancelled"
| "tag_of (Acknowledged d a) = T_acknowledged"
| "tag_of (Acknowledged_queued i) = T_acknowledged"

fun state_dispatch :: "record_state \<Rightarrow> dispatch_attempt option" where
  "state_dispatch (Dispatching d) = Some d"
| "state_dispatch (Running d) = Some d"
| "state_dispatch (Terminal d r) = Some d"
| "state_dispatch (Uncertain d) = Some d"
| "state_dispatch (Acknowledged d a) = Some d"
| "state_dispatch _ = None"

fun state_ack :: "record_state \<Rightarrow> acknowledgement option" where
  "state_ack (Acknowledged d a) = Some (Control_ack a)"
| "state_ack (Acknowledged_queued i) = Some (Queued_cancelled i)"
| "state_ack _ = None"

fun state_outcome :: "record_state \<Rightarrow> outcome option" where
  "state_outcome (Terminal d r) = Some r"
| "state_outcome _ = None"

fun state_failure :: "record_state \<Rightarrow> failure option" where
  "state_failure (Invalidated f) = Some f"
| "state_failure _ = None"

fun state_cancelledBy :: "record_state \<Rightarrow> id option" where
  "state_cancelledBy (Cancelled i) = Some i"
| "state_cancelledBy _ = None"

abbreviation dispatch :: "command_record \<Rightarrow> dispatch_attempt option" where
  "dispatch c \<equiv> state_dispatch (cr_state c)"

abbreviation state_of :: "command_record \<Rightarrow> state_tag" where
  "state_of c \<equiv> tag_of (cr_state c)"

abbreviation record_id :: "command_record \<Rightarrow> id" where
  "record_id c \<equiv> commandId (cr_command c)"

record config_ref =
  cfg_id :: id
  cfg_revision :: id

record binding =
  provider :: id
  providerVersion :: id
  adapterVersion :: id
  generation :: id
  nativeSessionId :: id
  config :: config_ref
  nativeRunId :: "id option"
  nativeRequestId :: "id option"
  workspaceId :: id
  nativeThreadId :: "id option"

record capabilities =
  continuation :: continuation
  cancellation :: cancellation
  tools :: tool_mode
  steer :: capability_state
  fork :: capability_state
  subagent :: capability_state
  terminal_capability :: capability_state
  structuredQuestion :: capability_state
  multimodal :: capability_state

record context_stage =
  stageId :: id
  connectionId :: id
  configRevision :: counter
  stage_binding :: binding
  stage_capabilities :: capabilities

record session =
  ss_namespace :: namespace
  revision :: counter
  lastSequence :: counter
  status :: session_status
  selectedConnectionId :: "id option"
  currentStageId :: "id option"
  stages :: "context_stage list"
  freshContext :: bool
  presentation :: "json option"

record interaction =
  ia_namespace :: namespace
  interactionId :: id
  ia_commandId :: id
  ia_generation :: id
  ia_nativeRunId :: "id option"
  ia_expiresAtMs :: counter
  ia_status :: interaction_status
  responseCommandId :: "id option"
  callbackLifetime :: callback_lifetime
  nativeCallbackId :: id
  request :: json

record delivery =
  dl_namespace :: namespace
  operationId :: id
  dl_eventId :: id
  target :: id
  dl_contentHash :: string
  dl_retry :: delivery_retry
  dl_status :: delivery_status
  attempts :: counter
  nextAttemptAtMs :: counter

record surface_state =
  sf_namespace :: namespace
  sf_generation :: id
  sf_nativeRunId :: id
  surfaceId :: id
  surfaceInstanceId :: id
  sf_revision :: counter
  sf_interactionId :: id
  sourceComponentId :: id
  eventName :: id
  catalogId :: id
  catalogVersion :: id
  sf_status :: surface_status
  messages :: "json list"

section \<open>Events\<close>

datatype live_state = Live_dispatching | Live_running | Live_uncertain

fun live_tag :: "live_state \<Rightarrow> state_tag" where
  "live_tag Live_dispatching = T_dispatching"
| "live_tag Live_running = T_running"
| "live_tag Live_uncertain = T_uncertain"

datatype resolution = R_running | R_terminal | R_not_submitted | R_unknown | R_submitted | R_acknowledged

datatype event_body =
    Text (messageId: id) (body_text: utext)
  | Command_accepted (accepted_command: command)
  | Status_changed live_state
  | Terminal_reported outcome
  | Cancel_dispatched confirmation
  | Tool_proposal (proposalId: id) (tool_name: id) (tool_arguments: json)
  | Tool_result (proposalId: id) disposition (body_text: utext)
  | Interaction_opened (body_interactionId: id) (body_request: json) (body_expiresAtMs: counter)
      callback_lifetime
  | Interaction_answered (body_interactionId: id) (body_responseCommandId: id)
  | Interaction_lapsed (body_interactionId: id)
  | Interaction_withdrawn (body_interactionId: id)
  | Error_reported failure
  | Invalidated_reported failure
  | Dispatch_reported dispatch_attempt
  | Reconciled dispatch_attempt resolution
  | Surface_changed surface_state
  | Session_rebound id
  | Session_retired
  | Acknowledged_reported acknowledgement
  | Cancelled_reported id
  | Session_recovery_unavailable
  | Delivery_requested (body_operationId: id) (body_target: id) (proposal_name: id) (proposal_arguments: json)
  | Delivery_recorded (body_operationId: id) (body_target: id) (body_contentHash: string) (receiptRef: id)

record event =
  ev_namespace :: namespace
  eventId :: id
  sequence :: counter
  ev_generation :: id
  ev_commandId :: "id option"
  ev_attemptId :: "id option"
  body :: event_body

text \<open>The status an interaction body announces.\<close>

fun body_interaction_status :: "event_body \<Rightarrow> interaction_status option" where
  "body_interaction_status (Interaction_opened i r e l) = Some Pending"
| "body_interaction_status (Interaction_answered i c) = Some Answered"
| "body_interaction_status (Interaction_lapsed i) = Some Interaction_expired"
| "body_interaction_status (Interaction_withdrawn i) = Some Interaction_unavailable"
| "body_interaction_status _ = None"

section \<open>Results\<close>

text \<open>
  Every way out of a transition other than success: a returned failure, or an exception on
  its way to \<^verbatim>\<open>guarded\<close>. \<open>Js_error\<close> stands for the errors the language itself raises, a
  property read of \<^verbatim>\<open>undefined\<close>.
\<close>

datatype exit =
    Failed failure
  | Contract_error diagnostic
  | Surface_error
  | Js_error

type_synonym 'a result = "failure + 'a"

definition fail_with :: "error_code \<Rightarrow> retry \<Rightarrow> failure" where
  "fail_with c r = \<lparr>code = c, retry_of = r\<rparr>"

abbreviation failed :: "error_code \<Rightarrow> exit" where
  "failed c \<equiv> Failed (fail_with c Never)"

end
