(* ===== verification/Wire_Codec.thy ===== *)
theory Wire_Codec
  imports Wire_Types
begin

text \<open>
  Encoding and validation of the session records: their JSON form, the lexical constraints
  of \<^verbatim>\<open>schema/runtime.schema.json\<close> (compiled into \<^verbatim>\<open>validate-record.ts\<close>), the cross-field
  rules \<^verbatim>\<open>checkContext\<close> of \<^verbatim>\<open>codec.ts\<close>, and \<open>valid\<close>, the \<^verbatim>\<open>decode(boundedJson(row))\<close> every
  transition applies to the rows it is given. SHA-256 over the JCS text of a value is the
  parameter \<open>digest\<close>; over an array of two strings the JCS text and \<^verbatim>\<open>JSON.stringify\<close> agree,
  so the event identifiers of \<^verbatim>\<open>transitions.ts\<close> use the same parameter.
\<close>

named_theorems row_eval \<open>evaluation of encoders and validators on closed rows\<close>

type_synonym digest = "json \<Rightarrow> string"

section \<open>JSON form\<close>

definition jid :: "id \<Rightarrow> json" where
  "jid s = JStr (utext_of s)"

definition obj :: "(string \<times> json) list \<Rightarrow> json" where
  "obj kvs = JObj (map (\<lambda>(k, v). (utext_of k, v)) kvs)"

fun opt_member :: "string \<Rightarrow> ('a \<Rightarrow> json) \<Rightarrow> 'a option \<Rightarrow> (string \<times> json) list" where
  "opt_member k f None = []"
| "opt_member k f (Some v) = [(k, f v)]"

fun error_code_text :: "error_code \<Rightarrow> string" where
  "error_code_text Invalid_input = ''invalid_input''"
| "error_code_text Unsupported_version = ''unsupported_version''"
| "error_code_text Unsupported_capability = ''unsupported_capability''"
| "error_code_text Permission_denied = ''permission_denied''"
| "error_code_text Content_conflict = ''content_conflict''"
| "error_code_text Revision_conflict = ''revision_conflict''"
| "error_code_text Stale_binding = ''stale_binding''"
| "error_code_text Expired = ''expired''"
| "error_code_text Unavailable = ''unavailable''"
| "error_code_text Reconciliation_required = ''reconciliation_required''"
| "error_code_text Limit_exceeded = ''limit_exceeded''"
| "error_code_text Cursor_expired = ''cursor_expired''"
| "error_code_text Session_gone = ''session_gone''"
| "error_code_text Already_answered = ''already_answered''"
| "error_code_text Storage_corrupt = ''storage_corrupt''"
| "error_code_text Connection_switch_pending = ''connection_switch_pending''"
| "error_code_text Connection_required = ''connection_required''"
| "error_code_text Authentication_required = ''authentication_required''"
| "error_code_text Context_unavailable = ''context_unavailable''"
| "error_code_text Verification_cancelled = ''verification_cancelled''"
| "error_code_text Verification_refused = ''verification_refused''"

fun retry_text :: "retry \<Rightarrow> string" where
  "retry_text Same_command = ''same_command''"
| "retry_text Reconcile_first = ''reconcile_first''"
| "retry_text Never = ''never''"

fun outcome_text :: "outcome \<Rightarrow> string" where
  "outcome_text Completed = ''completed''"
| "outcome_text Cancelled_outcome = ''cancelled''"
| "outcome_text Refused = ''refused''"
| "outcome_text Max_tokens = ''max_tokens''"
| "outcome_text Max_turn_requests = ''max_turn_requests''"
| "outcome_text Failed_outcome = ''failed''"

fun policy_text :: "policy \<Rightarrow> string" where
  "policy_text Queue_next = ''queue_next''"
| "policy_text Steer = ''steer''"

fun certainty_text :: "certainty \<Rightarrow> string" where
  "certainty_text Intent = ''intent''"
| "certainty_text Submitted = ''submitted''"
| "certainty_text Unknown = ''unknown''"

fun capability_text :: "capability_state \<Rightarrow> string" where
  "capability_text Supported = ''supported''"
| "capability_text Unsupported = ''unsupported''"
| "capability_text Capability_unknown = ''unknown''"

fun continuation_text :: "continuation \<Rightarrow> string" where
  "continuation_text Same_process = ''same_process''"
| "continuation_text Across_processes = ''across_processes''"
| "continuation_text Continuation_unsupported = ''unsupported''"
| "continuation_text Continuation_unknown = ''unknown''"

fun cancellation_text :: "cancellation \<Rightarrow> string" where
  "cancellation_text Request_only_cancellation = ''request_only''"
| "cancellation_text Terminal_acknowledged = ''terminal_acknowledged''"
| "cancellation_text Cancellation_unsupported = ''unsupported''"
| "cancellation_text Cancellation_unknown = ''unknown''"

fun tool_mode_text :: "tool_mode \<Rightarrow> string" where
  "tool_mode_text Host_mediated = ''host_mediated''"
| "tool_mode_text Provider_managed = ''provider_managed''"
| "tool_mode_text Tools_disabled = ''disabled''"
| "tool_mode_text Tools_unknown = ''unknown''"

fun session_status_text :: "session_status \<Rightarrow> string" where
  "session_status_text Active = ''active''"
| "session_status_text Recovery_required = ''recovery_required''"
| "session_status_text Retired = ''retired''"

fun interaction_status_text :: "interaction_status \<Rightarrow> string" where
  "interaction_status_text Pending = ''pending''"
| "interaction_status_text Answered = ''answered''"
| "interaction_status_text Interaction_expired = ''expired''"
| "interaction_status_text Interaction_unavailable = ''unavailable''"

fun surface_status_text :: "surface_status \<Rightarrow> string" where
  "surface_status_text Surface_active = ''active''"
| "surface_status_text Surface_deleted = ''deleted''"
| "surface_status_text Surface_invalidated = ''invalidated''"

fun delivery_status_text :: "delivery_status \<Rightarrow> string" where
  "delivery_status_text Delivery_pending = ''pending''"
| "delivery_status_text Delivered = ''delivered''"
| "delivery_status_text Receipt_recorded = ''receipt_recorded''"
| "delivery_status_text Delivery_reconciliation_required = ''reconciliation_required''"

fun delivery_retry_text :: "delivery_retry \<Rightarrow> string" where
  "delivery_retry_text Receiver_idempotent = ''receiver_idempotent''"
| "delivery_retry_text Retry_reconcile_first = ''reconcile_first''"
| "delivery_retry_text Retry_never = ''never''"

fun confirmation_text :: "confirmation \<Rightarrow> string" where
  "confirmation_text Request_only = ''request_only''"
| "confirmation_text Already_terminal = ''already_terminal''"
| "confirmation_text Confirmation_unsupported = ''unsupported''"

fun disposition_text :: "disposition \<Rightarrow> string" where
  "disposition_text Returned = ''returned''"
| "disposition_text Rejected = ''rejected''"
| "disposition_text Disposition_unavailable = ''unavailable''"

fun tag_text :: "state_tag \<Rightarrow> string" where
  "tag_text T_accepted = ''accepted''"
| "tag_text T_dispatching = ''dispatching''"
| "tag_text T_running = ''running''"
| "tag_text T_terminal = ''terminal''"
| "tag_text T_uncertain = ''reconciliation_required''"
| "tag_text T_invalidated = ''invalidated''"
| "tag_text T_cancelled = ''cancelled''"
| "tag_text T_acknowledged = ''acknowledged''"

fun resolution_text :: "resolution \<Rightarrow> string" where
  "resolution_text R_running = ''running''"
| "resolution_text R_terminal = ''terminal''"
| "resolution_text R_not_submitted = ''not_submitted''"
| "resolution_text R_unknown = ''unknown''"
| "resolution_text R_submitted = ''submitted''"
| "resolution_text R_acknowledged = ''acknowledged''"

definition header :: "string \<Rightarrow> (string \<times> json) list" where
  "header kind = [(''schemaVersion'', JInt 1), (''kind'', jid kind)]"

definition json_of_failure :: "failure \<Rightarrow> json" where
  "json_of_failure f = obj [(''code'', jid (error_code_text (code f))), (''retry'', jid (retry_text (retry_of f)))]"

definition json_of_namespace :: "namespace \<Rightarrow> json" where
  "json_of_namespace n = obj [(''tenantId'', jid (tenantId n)), (''principalId'', jid (principalId n)),
     (''authorityId'', jid (authorityId n)), (''sessionId'', jid (ns_sessionId n))]"

definition json_of_history :: "history_preview \<Rightarrow> json" where
  "json_of_history h = obj (header ''historyPreview'' @
     [(''sessionId'', jid (hp_sessionId h)), (''connectionId'', jid (hp_connectionId h)),
      (''configRevision'', JInt (hp_configRevision h)), (''throughSequence'', JInt (hp_throughSequence h)),
      (''commandIds'', JArr (map jid (hp_commandIds h))), (''text'', JStr (hp_text h)),
      (''contentHash'', jid (hp_contentHash h)), (''messageIds'', JArr (map jid (hp_messageIds h)))])"

definition json_of_surface_reference :: "surface_reference \<Rightarrow> json" where
  "json_of_surface_reference r = obj [(''instanceId'', jid (sr_instanceId r)), (''revision'', JInt (sr_revision r))]"

fun json_of_input :: "input \<Rightarrow> json" where
  "json_of_input (Prompt t p tr h) = obj ([(''type'', jid ''prompt''), (''text'', JStr t),
     (''policy'', jid (policy_text p))] @ opt_member ''targetRunId'' jid tr @
     opt_member ''history'' json_of_history h)"
| "json_of_input (Cancel tc g r) = obj ([(''type'', jid ''cancel''), (''targetCommandId'', jid tc),
     (''generation'', jid g)] @ opt_member ''nativeRunId'' jid r)"
| "json_of_input (Respond i g r a s) = obj ([(''type'', jid ''respond''), (''interactionId'', jid i),
     (''generation'', jid g)] @ opt_member ''nativeRunId'' jid r @ [(''answer'', a)] @
     opt_member ''surface'' json_of_surface_reference s)"

definition json_of_command :: "command \<Rightarrow> json" where
  "json_of_command c = obj (header ''command'' @
     [(''sessionId'', jid (cmd_sessionId c)), (''commandId'', jid (commandId c)),
      (''expiresAtMs'', JInt (expiresAtMs c)), (''input'', json_of_input (input_of c))])"

definition json_of_receipt :: "receipt \<Rightarrow> json" where
  "json_of_receipt r = obj (header ''receipt'' @
     [(''namespace'', json_of_namespace (rc_namespace r)), (''commandId'', jid (rc_commandId r)),
      (''contentHash'', jid (contentHash r)), (''acceptedAtMs'', JInt (acceptedAtMs r)),
      (''retryUntilMs'', JInt (retryUntilMs r)), (''receiptUntilMs'', JInt (receiptUntilMs r)),
      (''acceptedRevision'', JInt (acceptedRevision r)), (''stageId'', jid (rc_stageId r))])"

definition json_of_dispatch :: "dispatch_attempt \<Rightarrow> json" where
  "json_of_dispatch d = obj ([(''nativeSessionId'', jid (da_nativeSessionId d))] @
     opt_member ''nativeRunId'' jid (da_nativeRunId d) @
     opt_member ''nativeRequestId'' jid (da_nativeRequestId d) @
     [(''certainty'', jid (certainty_text (certainty_of d))), (''attemptId'', jid (attemptId d)),
      (''originGeneration'', jid (originGeneration d)), (''observerGeneration'', jid (observerGeneration d))] @
     opt_member ''correlationId'' jid (correlationId d) @
     opt_member ''nativeThreadId'' jid (da_nativeThreadId d))"

fun json_of_ack :: "acknowledgement \<Rightarrow> json" where
  "json_of_ack (Control_ack (Ack_cancel c)) =
     obj [(''type'', jid ''cancel''), (''confirmation'', jid (confirmation_text c))]"
| "json_of_ack (Control_ack Ack_respond) = obj [(''type'', jid ''respond'')]"
| "json_of_ack (Control_ack Ack_steer) = obj [(''type'', jid ''steer'')]"
| "json_of_ack (Queued_cancelled i) =
     obj [(''type'', jid ''queued_cancelled''), (''targetCommandId'', jid i)]"

definition json_of_record :: "command_record \<Rightarrow> json" where
  "json_of_record c = obj (header ''commandRecord'' @
     [(''command'', json_of_command (cr_command c)), (''receipt'', json_of_receipt (cr_receipt c)),
      (''state'', jid (tag_text (state_of c)))] @
     opt_member ''dispatch'' json_of_dispatch (dispatch c) @
     opt_member ''outcome'' (\<lambda>r. jid (outcome_text r)) (state_outcome (cr_state c)) @
     opt_member ''failure'' json_of_failure (state_failure (cr_state c)) @
     opt_member ''cancelledBy'' jid (state_cancelledBy (cr_state c)) @
     opt_member ''acknowledgement'' json_of_ack (state_ack (cr_state c)))"

definition json_of_binding :: "binding \<Rightarrow> json" where
  "json_of_binding b = obj ([(''provider'', jid (provider b)), (''providerVersion'', jid (providerVersion b)),
      (''adapterVersion'', jid (adapterVersion b)), (''generation'', jid (generation b)),
      (''nativeSessionId'', jid (nativeSessionId b)),
      (''config'', obj [(''id'', jid (cfg_id (config b))), (''revision'', jid (cfg_revision (config b)))])] @
     opt_member ''nativeRunId'' jid (nativeRunId b) @ opt_member ''nativeRequestId'' jid (nativeRequestId b) @
     [(''workspaceId'', jid (workspaceId b))] @ opt_member ''nativeThreadId'' jid (nativeThreadId b))"

definition json_of_capabilities :: "capabilities \<Rightarrow> json" where
  "json_of_capabilities c = obj
     [(''continuation'', jid (continuation_text (continuation c))),
      (''cancellation'', jid (cancellation_text (cancellation c))),
      (''tools'', jid (tool_mode_text (tools c))), (''steer'', jid (capability_text (steer c))),
      (''fork'', jid (capability_text (fork c))), (''subagent'', jid (capability_text (subagent c))),
      (''terminal'', jid (capability_text (terminal_capability c))),
      (''structuredQuestion'', jid (capability_text (structuredQuestion c))),
      (''multimodal'', jid (capability_text (multimodal c)))]"

definition json_of_stage :: "context_stage \<Rightarrow> json" where
  "json_of_stage s = obj [(''stageId'', jid (stageId s)), (''connectionId'', jid (connectionId s)),
     (''configRevision'', JInt (configRevision s)), (''binding'', json_of_binding (stage_binding s)),
     (''capabilities'', json_of_capabilities (stage_capabilities s))]"

definition json_of_session :: "session \<Rightarrow> json" where
  "json_of_session s = obj (header ''session'' @
     [(''namespace'', json_of_namespace (ss_namespace s)), (''revision'', JInt (revision s)),
      (''lastSequence'', JInt (lastSequence s)), (''status'', jid (session_status_text (status s)))] @
     opt_member ''selectedConnectionId'' jid (selectedConnectionId s) @
     opt_member ''currentStageId'' jid (currentStageId s) @
     [(''stages'', JArr (map json_of_stage (stages s)))] @
     (if freshContext s then [(''freshContext'', JBool True)] else []) @
     opt_member ''presentation'' id (presentation s))"

definition json_of_interaction :: "interaction \<Rightarrow> json" where
  "json_of_interaction i = obj (header ''interaction'' @
     [(''namespace'', json_of_namespace (ia_namespace i)), (''interactionId'', jid (interactionId i)),
      (''commandId'', jid (ia_commandId i)), (''generation'', jid (ia_generation i))] @
     opt_member ''nativeRunId'' jid (ia_nativeRunId i) @
     [(''expiresAtMs'', JInt (ia_expiresAtMs i)), (''status'', jid (interaction_status_text (ia_status i)))] @
     opt_member ''responseCommandId'' jid (responseCommandId i) @
     [(''callbackLifetime'', jid ''generation_bound''), (''nativeCallbackId'', jid (nativeCallbackId i)),
      (''request'', request i), (''category'', jid ''question'')])"

definition json_of_delivery :: "delivery \<Rightarrow> json" where
  "json_of_delivery d = obj (header ''delivery'' @
     [(''namespace'', json_of_namespace (dl_namespace d)), (''operationId'', jid (operationId d)),
      (''eventId'', jid (dl_eventId d)), (''target'', jid (target d)),
      (''contentHash'', jid (dl_contentHash d)), (''retry'', jid (delivery_retry_text (dl_retry d))),
      (''status'', jid (delivery_status_text (dl_status d))), (''attempts'', JInt (attempts d)),
      (''nextAttemptAtMs'', JInt (nextAttemptAtMs d))])"

definition json_of_surface :: "surface_state \<Rightarrow> json" where
  "json_of_surface s = obj (header ''surface'' @
     [(''namespace'', json_of_namespace (sf_namespace s)), (''generation'', jid (sf_generation s)),
      (''nativeRunId'', jid (sf_nativeRunId s)), (''surfaceId'', jid (surfaceId s)),
      (''surfaceInstanceId'', jid (surfaceInstanceId s)), (''revision'', JInt (sf_revision s)),
      (''interactionId'', jid (sf_interactionId s)), (''sourceComponentId'', jid (sourceComponentId s)),
      (''eventName'', jid (eventName s)), (''catalogId'', jid (catalogId s)),
      (''catalogVersion'', jid (catalogVersion s)), (''a2uiVersion'', jid ''v0.9.1''),
      (''status'', jid (surface_status_text (sf_status s))), (''messages'', JArr (messages s))])"

fun json_of_body :: "event_body \<Rightarrow> json" where
  "json_of_body (Text m t) = obj [(''type'', jid ''text''), (''messageId'', jid m), (''text'', JStr t)]"
| "json_of_body (Command_accepted c) = obj [(''type'', jid ''command_accepted''), (''command'', json_of_command c)]"
| "json_of_body (Status_changed s) = obj [(''type'', jid ''status''), (''state'', jid (tag_text (live_tag s)))]"
| "json_of_body (Terminal_reported r) = obj [(''type'', jid ''terminal''), (''outcome'', jid (outcome_text r))]"
| "json_of_body (Cancel_dispatched c) =
     obj [(''type'', jid ''cancel_dispatched''), (''confirmation'', jid (confirmation_text c))]"
| "json_of_body (Tool_proposal p n a) = obj [(''type'', jid ''tool_proposal''), (''proposalId'', jid p),
     (''name'', jid n), (''arguments'', a)]"
| "json_of_body (Tool_result p d t) = obj [(''type'', jid ''tool_result''), (''proposalId'', jid p),
     (''disposition'', jid (disposition_text d)), (''text'', JStr t)]"
| "json_of_body (Interaction_opened i r e l) = obj [(''type'', jid ''interaction''), (''interactionId'', jid i),
     (''status'', jid ''pending''), (''request'', r), (''expiresAtMs'', JInt e),
     (''callbackLifetime'', jid ''generation_bound'')]"
| "json_of_body (Interaction_answered i c) = obj [(''type'', jid ''interaction''), (''interactionId'', jid i),
     (''status'', jid ''answered''), (''responseCommandId'', jid c)]"
| "json_of_body (Interaction_lapsed i) = obj [(''type'', jid ''interaction''), (''interactionId'', jid i),
     (''status'', jid ''expired'')]"
| "json_of_body (Interaction_withdrawn i) = obj [(''type'', jid ''interaction''), (''interactionId'', jid i),
     (''status'', jid ''unavailable'')]"
| "json_of_body (Error_reported f) = obj [(''type'', jid ''error''), (''failure'', json_of_failure f)]"
| "json_of_body (Invalidated_reported f) = obj [(''type'', jid ''invalidated''), (''failure'', json_of_failure f)]"
| "json_of_body (Dispatch_reported d) = obj [(''type'', jid ''dispatch''), (''attempt'', json_of_dispatch d)]"
| "json_of_body (Reconciled d r) = obj [(''type'', jid ''reconciled''), (''attempt'', json_of_dispatch d),
     (''resolution'', jid (resolution_text r))]"
| "json_of_body (Surface_changed s) = obj [(''type'', jid ''surface''), (''surface'', json_of_surface s)]"
| "json_of_body (Session_rebound g) = obj [(''type'', jid ''session_rebound''), (''previousGeneration'', jid g)]"
| "json_of_body Session_retired = obj [(''type'', jid ''session_retired'')]"
| "json_of_body (Acknowledged_reported a) = obj [(''type'', jid ''acknowledged''), (''acknowledgement'', json_of_ack a)]"
| "json_of_body (Cancelled_reported c) = obj [(''type'', jid ''cancelled''), (''cancelledBy'', jid c)]"
| "json_of_body Session_recovery_unavailable = obj [(''type'', jid ''session_recovery_unavailable'')]"
| "json_of_body (Delivery_requested opId t n a) = obj [(''type'', jid ''delivery_requested''),
     (''operationId'', jid opId), (''target'', jid t),
     (''proposal'', obj [(''name'', jid n), (''arguments'', a)])]"
| "json_of_body (Delivery_recorded opId t h r) = obj [(''type'', jid ''delivery_recorded''),
     (''operationId'', jid opId), (''target'', jid t), (''contentHash'', jid h), (''receiptRef'', jid r)]"

definition json_of_event :: "event \<Rightarrow> json" where
  "json_of_event e = obj (header ''event'' @
     [(''namespace'', json_of_namespace (ev_namespace e)), (''eventId'', jid (eventId e)),
      (''sequence'', JInt (sequence e)), (''generation'', jid (ev_generation e))] @
     opt_member ''commandId'' jid (ev_commandId e) @ [(''body'', json_of_body (body e))] @
     opt_member ''attemptId'' jid (ev_attemptId e))"

datatype row =
    Row_command command
  | Row_receipt receipt
  | Row_record command_record
  | Row_event event
  | Row_session session
  | Row_interaction interaction
  | Row_delivery delivery
  | Row_surface surface_state

fun json_of_row :: "row \<Rightarrow> json" where
  "json_of_row (Row_command c) = json_of_command c"
| "json_of_row (Row_receipt r) = json_of_receipt r"
| "json_of_row (Row_record c) = json_of_record c"
| "json_of_row (Row_event e) = json_of_event e"
| "json_of_row (Row_session s) = json_of_session s"
| "json_of_row (Row_interaction i) = json_of_interaction i"
| "json_of_row (Row_delivery d) = json_of_delivery d"
| "json_of_row (Row_surface s) = json_of_surface s"

section \<open>Lexical constraints of the schema\<close>

text \<open>
  \<^verbatim>\<open>isId\<close>, the compiled validator of \<^verbatim>\<open>validate-id.ts\<close>: 1 to 128 characters matching
  \<^verbatim>\<open>^[A-Za-z0-9][A-Za-z0-9._:/+-]*$\<close>.
\<close>

definition alphanumeric :: "char \<Rightarrow> bool" where
  "alphanumeric c = (let n = (of_char c :: nat) in
     48 \<le> n \<and> n \<le> 57 \<or> 65 \<le> n \<and> n \<le> 90 \<or> 97 \<le> n \<and> n \<le> 122)"

definition id_char :: "char \<Rightarrow> bool" where
  "id_char c = (alphanumeric c \<or> c \<in> set ''._:/+-'')"

definition isId :: "string \<Rightarrow> bool" where
  "isId s = (length s \<le> 128 \<and> (case s of [] \<Rightarrow> False | c # cs \<Rightarrow> alphanumeric c \<and> list_all id_char cs))"

definition isCounter :: "int \<Rightarrow> bool" where
  "isCounter n \<longleftrightarrow> 0 \<le> n \<and> n \<le> max_safe"

text \<open>A \<^verbatim>\<open>contentHash\<close>: \<^verbatim>\<open>^[a-f0-9]{64}$\<close>.\<close>

definition isHash :: "string \<Rightarrow> bool" where
  "isHash s = (length s = 64 \<and> list_all (\<lambda>c. let n = (of_char c :: nat) in
     48 \<le> n \<and> n \<le> 57 \<or> 97 \<le> n \<and> n \<le> 102) s)"

fun is_object :: "json \<Rightarrow> bool" where
  "is_object (JObj ms) = True"
| "is_object _ = False"

definition opt_ok :: "('a \<Rightarrow> bool) \<Rightarrow> 'a option \<Rightarrow> bool" where
  "opt_ok p x = (case x of None \<Rightarrow> True | Some v \<Rightarrow> p v)"

definition schema_namespace :: "namespace \<Rightarrow> bool" where
  "schema_namespace n \<longleftrightarrow> isId (tenantId n) \<and> isId (principalId n) \<and> isId (authorityId n) \<and> isId (ns_sessionId n)"

definition schema_history :: "history_preview \<Rightarrow> bool" where
  "schema_history h \<longleftrightarrow> isId (hp_sessionId h) \<and> isId (hp_connectionId h) \<and>
     isCounter (hp_configRevision h) \<and> isCounter (hp_throughSequence h) \<and>
     length (hp_commandIds h) \<le> 10000 \<and> list_all isId (hp_commandIds h) \<and>
     length (hp_text h) \<le> 131072 \<and> isId (hp_contentHash h) \<and>
     length (hp_messageIds h) \<le> 10000 \<and> list_all isId (hp_messageIds h)"

fun schema_input :: "input \<Rightarrow> bool" where
  "schema_input (Prompt t p tr h) \<longleftrightarrow> length t \<le> 65536 \<and> opt_ok isId tr \<and> opt_ok schema_history h"
| "schema_input (Cancel tc g r) \<longleftrightarrow> isId tc \<and> isId g \<and> opt_ok isId r"
| "schema_input (Respond i g r a s) \<longleftrightarrow> isId i \<and> isId g \<and> opt_ok isId r \<and> is_object a \<and>
     opt_ok (\<lambda>s. isId (sr_instanceId s) \<and> isCounter (sr_revision s)) s"

definition schema_command :: "command \<Rightarrow> bool" where
  "schema_command c \<longleftrightarrow> isId (cmd_sessionId c) \<and> isId (commandId c) \<and> isCounter (expiresAtMs c) \<and>
     schema_input (input_of c)"

definition schema_receipt :: "receipt \<Rightarrow> bool" where
  "schema_receipt r \<longleftrightarrow> schema_namespace (rc_namespace r) \<and> isId (rc_commandId r) \<and>
     isHash (contentHash r) \<and> isCounter (acceptedAtMs r) \<and> isCounter (retryUntilMs r) \<and>
     isCounter (receiptUntilMs r) \<and> isCounter (acceptedRevision r) \<and> isId (rc_stageId r)"

definition schema_dispatch :: "dispatch_attempt \<Rightarrow> bool" where
  "schema_dispatch d \<longleftrightarrow> isId (da_nativeSessionId d) \<and> opt_ok isId (da_nativeRunId d) \<and>
     opt_ok isId (da_nativeRequestId d) \<and> isId (attemptId d) \<and> isId (originGeneration d) \<and>
     isId (observerGeneration d) \<and> opt_ok isId (correlationId d) \<and> opt_ok isId (da_nativeThreadId d)"

text \<open>A provider acknowledges a cancellation as sent or as already terminal.\<close>

fun schema_ack :: "acknowledgement \<Rightarrow> bool" where
  "schema_ack (Control_ack (Ack_cancel c)) \<longleftrightarrow> c \<noteq> Confirmation_unsupported"
| "schema_ack (Control_ack a) = True"
| "schema_ack (Queued_cancelled i) = isId i"

definition schema_record :: "command_record \<Rightarrow> bool" where
  "schema_record c \<longleftrightarrow> schema_command (cr_command c) \<and> schema_receipt (cr_receipt c) \<and>
     opt_ok schema_dispatch (dispatch c) \<and> opt_ok isId (state_cancelledBy (cr_state c)) \<and>
     opt_ok schema_ack (state_ack (cr_state c))"

definition schema_binding :: "binding \<Rightarrow> bool" where
  "schema_binding b \<longleftrightarrow> isId (provider b) \<and> isId (providerVersion b) \<and> isId (adapterVersion b) \<and>
     isId (generation b) \<and> isId (nativeSessionId b) \<and> isId (cfg_id (config b)) \<and>
     isId (cfg_revision (config b)) \<and> opt_ok isId (nativeRunId b) \<and> opt_ok isId (nativeRequestId b) \<and>
     isId (workspaceId b) \<and> opt_ok isId (nativeThreadId b)"

definition schema_stage :: "context_stage \<Rightarrow> bool" where
  "schema_stage s \<longleftrightarrow> isId (stageId s) \<and> isId (connectionId s) \<and> isCounter (configRevision s) \<and>
     schema_binding (stage_binding s)"

definition schema_session :: "session \<Rightarrow> bool" where
  "schema_session s \<longleftrightarrow> schema_namespace (ss_namespace s) \<and> isCounter (revision s) \<and>
     isCounter (lastSequence s) \<and> opt_ok isId (selectedConnectionId s) \<and>
     opt_ok isId (currentStageId s) \<and> length (stages s) \<le> 128 \<and> list_all schema_stage (stages s) \<and>
     opt_ok is_object (presentation s)"

definition schema_interaction :: "interaction \<Rightarrow> bool" where
  "schema_interaction i \<longleftrightarrow> schema_namespace (ia_namespace i) \<and> isId (interactionId i) \<and>
     isId (ia_commandId i) \<and> isId (ia_generation i) \<and> opt_ok isId (ia_nativeRunId i) \<and>
     isCounter (ia_expiresAtMs i) \<and> opt_ok isId (responseCommandId i) \<and>
     isId (nativeCallbackId i) \<and> is_object (request i)"

definition schema_delivery :: "delivery \<Rightarrow> bool" where
  "schema_delivery d \<longleftrightarrow> schema_namespace (dl_namespace d) \<and> isId (operationId d) \<and>
     isId (dl_eventId d) \<and> isId (target d) \<and> isHash (dl_contentHash d) \<and>
     isCounter (attempts d) \<and> isCounter (nextAttemptAtMs d)"

definition schema_surface :: "surface_state \<Rightarrow> bool" where
  "schema_surface s \<longleftrightarrow> schema_namespace (sf_namespace s) \<and> isId (sf_generation s) \<and>
     isId (sf_nativeRunId s) \<and> isId (surfaceId s) \<and> isId (surfaceInstanceId s) \<and>
     isCounter (sf_revision s) \<and> isId (sf_interactionId s) \<and> isId (sourceComponentId s) \<and>
     isId (eventName s) \<and> isId (catalogId s) \<and> isId (catalogVersion s) \<and>
     length (messages s) \<le> 128 \<and> list_all is_object (messages s)"

fun schema_body :: "event_body \<Rightarrow> bool" where
  "schema_body (Text m t) \<longleftrightarrow> isId m \<and> length t \<le> 65536"
| "schema_body (Command_accepted c) \<longleftrightarrow> schema_command c"
| "schema_body (Tool_proposal p n a) \<longleftrightarrow> isId p \<and> isId n \<and> is_object a"
| "schema_body (Tool_result p d t) \<longleftrightarrow> isId p \<and> length t \<le> 65536"
| "schema_body (Interaction_opened i r e l) \<longleftrightarrow> isId i \<and> is_object r \<and> isCounter e"
| "schema_body (Interaction_answered i c) \<longleftrightarrow> isId i \<and> isId c"
| "schema_body (Interaction_lapsed i) \<longleftrightarrow> isId i"
| "schema_body (Interaction_withdrawn i) \<longleftrightarrow> isId i"
| "schema_body (Dispatch_reported d) \<longleftrightarrow> schema_dispatch d"
| "schema_body (Reconciled d r) \<longleftrightarrow> schema_dispatch d"
| "schema_body (Surface_changed s) \<longleftrightarrow> schema_surface s"
| "schema_body (Session_rebound g) \<longleftrightarrow> isId g"
| "schema_body (Acknowledged_reported a) \<longleftrightarrow> schema_ack a"
| "schema_body (Cancelled_reported c) \<longleftrightarrow> isId c"
| "schema_body (Delivery_requested opId t n a) \<longleftrightarrow> isId opId \<and> isId t \<and> isId n \<and> is_object a"
| "schema_body (Delivery_recorded opId t h r) \<longleftrightarrow> isId opId \<and> isId t \<and> isHash h \<and> isId r"
| "schema_body _ \<longleftrightarrow> True"

text \<open>
  Which bodies carry a command coordinate and which an attempt coordinate: the variants of
  the \<^verbatim>\<open>Event\<close> union require or forbid them.
\<close>

fun body_has_command :: "event_body \<Rightarrow> bool" where
  "body_has_command (Session_rebound g) = False"
| "body_has_command Session_retired = False"
| "body_has_command Session_recovery_unavailable = False"
| "body_has_command _ = True"

fun body_has_attempt :: "event_body \<Rightarrow> bool" where
  "body_has_attempt (Command_accepted c) = False"
| "body_has_attempt (Error_reported f) = False"
| "body_has_attempt (Invalidated_reported f) = False"
| "body_has_attempt (Session_rebound g) = False"
| "body_has_attempt Session_retired = False"
| "body_has_attempt Session_recovery_unavailable = False"
| "body_has_attempt (Cancelled_reported c) = False"
| "body_has_attempt (Acknowledged_reported (Queued_cancelled i)) = False"
| "body_has_attempt (Delivery_requested opId t n a) = False"
| "body_has_attempt (Delivery_recorded opId t h r) = False"
| "body_has_attempt _ = True"

definition schema_event :: "event \<Rightarrow> bool" where
  "schema_event e \<longleftrightarrow> schema_namespace (ev_namespace e) \<and> isId (eventId e) \<and>
     isCounter (sequence e) \<and> isId (ev_generation e) \<and>
     (ev_commandId e \<noteq> None) = body_has_command (body e) \<and> opt_ok isId (ev_commandId e) \<and>
     (ev_attemptId e \<noteq> None) = body_has_attempt (body e) \<and> opt_ok isId (ev_attemptId e) \<and>
     schema_body (body e)"

fun schema_row :: "row \<Rightarrow> bool" where
  "schema_row (Row_command c) = schema_command c"
| "schema_row (Row_receipt r) = schema_receipt r"
| "schema_row (Row_record c) = schema_record c"
| "schema_row (Row_event e) = schema_event e"
| "schema_row (Row_session s) = schema_session s"
| "schema_row (Row_interaction i) = schema_interaction i"
| "schema_row (Row_delivery d) = schema_delivery d"
| "schema_row (Row_surface s) = schema_surface s"

section \<open>Cross-field rules\<close>

definition context_session :: "session \<Rightarrow> bool" where
  "context_session s \<longleftrightarrow>
     currentStageId s = (if stages s = [] then None else Some (stageId (last (stages s)))) \<and>
     distinct (map stageId (stages s)) \<and>
     list_all (\<lambda>g. connectionId g = cfg_id (config (stage_binding g)) \<and> 1 \<le> configRevision g) (stages s)"

fun context_input :: "input \<Rightarrow> bool" where
  "context_input (Prompt t p tr h) \<longleftrightarrow> (p = Steer) = (tr \<noteq> None)"
| "context_input _ = True"

definition context_command :: "command \<Rightarrow> bool" where
  "context_command c = context_input (input_of c)"

definition context_receipt :: "receipt \<Rightarrow> bool" where
  "context_receipt r \<longleftrightarrow> acceptedAtMs r \<le> retryUntilMs r \<and> retryUntilMs r \<le> receiptUntilMs r"

definition context_record :: "digest \<Rightarrow> command_record \<Rightarrow> bool" where
  "context_record digest c \<longleftrightarrow>
     commandId (cr_command c) = rc_commandId (cr_receipt c) \<and>
     cmd_sessionId (cr_command c) = ns_sessionId (rc_namespace (cr_receipt c)) \<and>
     digest (json_of_command (cr_command c)) = contentHash (cr_receipt c) \<and>
     context_command (cr_command c) \<and> context_receipt (cr_receipt c)"

definition context_interaction :: "interaction \<Rightarrow> bool" where
  "context_interaction i \<longleftrightarrow> (ia_status i = Answered) = (responseCommandId i \<noteq> None)"

definition context_event :: "event \<Rightarrow> bool" where
  "context_event e = (case body e of
     Command_accepted c \<Rightarrow> context_command c \<and> ev_commandId e = Some (commandId c) \<and>
       ns_sessionId (ev_namespace e) = cmd_sessionId c
   | Surface_changed s \<Rightarrow> ev_namespace e = sf_namespace s \<and>
       (sf_status s = Surface_invalidated \<or> ev_generation e = sf_generation s)
   | _ \<Rightarrow> True)"

fun checkContext :: "digest \<Rightarrow> row \<Rightarrow> bool" where
  "checkContext digest (Row_command c) = context_command c"
| "checkContext digest (Row_receipt r) = context_receipt r"
| "checkContext digest (Row_record c) = context_record digest c"
| "checkContext digest (Row_event e) = context_event e"
| "checkContext digest (Row_session s) = context_session s"
| "checkContext digest (Row_interaction i) = context_interaction i"
| "checkContext digest (Row_delivery d) = True"
| "checkContext digest (Row_surface s) = True"

text \<open>
  \<^verbatim>\<open>valid(row, limits)\<close>: serialise under the budgets, decode again, check the schema and the
  context. The structural scan of the second pass cannot reject what the first accepted
  (\<open>decode_boundedJson\<close>), so the exits are those of the serialiser, the schema and the context.
\<close>

definition valid :: "digest \<Rightarrow> limits \<Rightarrow> row \<Rightarrow> diagnostic option" where
  "valid digest lim row = first_exit
     [case boundedJson lim (json_of_row row) of Inl d \<Rightarrow> Some d | Inr _ \<Rightarrow> None,
      fail_if (\<not> schema_row row) D_schema,
      fail_if (\<not> checkContext digest row) D_context]"

lemma valid_None:
  "valid digest lim row = None \<longleftrightarrow>
     checkLimits lim = None \<and> fits lim (json_of_row row) \<and> schema_row row \<and> checkContext digest row"
proof -
  have "(case boundedJson lim (json_of_row row) of Inl d \<Rightarrow> Some d | Inr _ \<Rightarrow> None) = None \<longleftrightarrow>
      checkLimits lim = None \<and> fits lim (json_of_row row)"
    using boundedJson_Inr [of lim "json_of_row row"]
    by (cases "boundedJson lim (json_of_row row)") auto
  then show ?thesis by (auto simp: valid_def)
qed

text \<open>\<^verbatim>\<open>fingerprint\<close> and \<^verbatim>\<open>deliveryFingerprint\<close>; both re-validate what they hash.\<close>

definition fingerprint :: "digest \<Rightarrow> limits \<Rightarrow> command \<Rightarrow> diagnostic + string" where
  "fingerprint digest lim c = (case valid digest lim (Row_command c) of
     Some d \<Rightarrow> Inl d | None \<Rightarrow> Inr (digest (json_of_command c)))"

definition deliveryFingerprint :: "digest \<Rightarrow> limits \<Rightarrow> event \<Rightarrow> id \<Rightarrow> diagnostic + string" where
  "deliveryFingerprint digest lim e tgt = (case valid digest lim (Row_event e) of
     Some d \<Rightarrow> Inl d
   | None \<Rightarrow> if \<not> isId tgt then Inl D_schema
       else let payload = obj [(''event'', json_of_event e), (''target'', jid tgt)] in
         case boundedJson lim payload of Inl d \<Rightarrow> Inl d | Inr _ \<Rightarrow> Inr (digest payload))"

text \<open>\<^verbatim>\<open>eventId(seed, label)\<close> of \<^verbatim>\<open>transitions.ts\<close>.\<close>

definition derived_id :: "digest \<Rightarrow> id \<Rightarrow> string \<Rightarrow> id" where
  "derived_id digest seed label = digest (JArr [jid seed, jid label])"

lemma isId_nonempty: "isId s \<Longrightarrow> s \<noteq> []"
  by (auto simp: isId_def)

lemma schema_event_command:
  "schema_event e \<Longrightarrow> ev_commandId e = None \<longleftrightarrow> \<not> body_has_command (body e)"
  by (auto simp: schema_event_def)

end
