(* ===== verification/Session_Contexts.thy ===== *)
theory Session_Contexts
  imports Wire_Codec
begin

text \<open>
  Context stages (\<^verbatim>\<open>contexts.ts\<close>) and the user-confirmed history preview
  (\<^verbatim>\<open>history.ts\<close>). A session owns the list of stages it has been through; the current one
  is found by its identifier, and a session without it makes \<^verbatim>\<open>activeStage\<close> throw.
\<close>

section \<open>Stages\<close>

definition activeStage :: "session \<Rightarrow> exit + context_stage" where
  "activeStage s = (case find (\<lambda>row. Some (stageId row) = currentStageId s) (stages s) of
     Some stage \<Rightarrow> Inr stage
   | None \<Rightarrow> Inl (Contract_error D_context))"

definition productSession :: "namespace \<Rightarrow> id option \<Rightarrow> session" where
  "productSession n selected =
     \<lparr>ss_namespace = n, revision = 0, lastSequence = 0, status = Active,
      selectedConnectionId = (case selected of Some c \<Rightarrow> if c = [] then None else Some c | None \<Rightarrow> None),
      currentStageId = None, stages = [], freshContext = False, presentation = None\<rparr>"

definition providerStage :: "binding \<Rightarrow> capabilities \<Rightarrow> counter \<Rightarrow> context_stage" where
  "providerStage b c configRev =
     \<lparr>stageId = generation b, connectionId = cfg_id (config b), configRevision = configRev,
      stage_binding = b, stage_capabilities = c\<rparr>"

definition startStage :: "session \<Rightarrow> context_stage \<Rightarrow> exit + session" where
  "startStage s stage =
     (if list_ex (\<lambda>row. stageId row = stageId stage) (stages s) then Inl (Contract_error D_context)
      else Inr (s\<lparr>currentStageId := Some (stageId stage),
                  selectedConnectionId := Some (connectionId stage),
                  stages := stages s @ [stage],
                  freshContext := False\<rparr>))"

definition replaceStage :: "session \<Rightarrow> binding option \<Rightarrow> capabilities option \<Rightarrow> exit + session" where
  "replaceStage s b c = and_then (activeStage s) (\<lambda>current.
     Inr (s\<lparr>stages := map (\<lambda>row. if stageId row = stageId current
        then row\<lparr>stage_binding := (case b of Some v \<Rightarrow> v | None \<Rightarrow> stage_binding row),
                 stage_capabilities := (case c of Some v \<Rightarrow> v | None \<Rightarrow> stage_capabilities row)\<rparr>
        else row) (stages s)\<rparr>))"

lemma activeStage_mem:
  assumes "activeStage s = Inr stage"
  shows "stage \<in> set (stages s)" "currentStageId s = Some (stageId stage)"
  using assms
  by (auto simp: activeStage_def find_Some_iff split: option.splits)

lemma activeStage_cong:
  "stages s = stages t \<Longrightarrow> currentStageId s = currentStageId t \<Longrightarrow> activeStage s = activeStage t"
  by (simp add: activeStage_def)

lemma activeStage_update [simp]:
  "activeStage (s\<lparr>revision := r\<rparr>) = activeStage s"
  "activeStage (s\<lparr>lastSequence := n\<rparr>) = activeStage s"
  "activeStage (s\<lparr>status := st\<rparr>) = activeStage s"
  "activeStage (s\<lparr>selectedConnectionId := c\<rparr>) = activeStage s"
  "activeStage (s\<lparr>freshContext := f\<rparr>) = activeStage s"
  by (simp_all add: activeStage_def)

lemma find_append:
  "find P (xs @ ys) = (case find P xs of Some x \<Rightarrow> Some x | None \<Rightarrow> find P ys)"
  by (induction xs) simp_all

lemma find_absent: "\<forall>x \<in> set xs. \<not> P x \<Longrightarrow> find P xs = None"
  by (induction xs) simp_all

text \<open>
  In a well-formed session (\<open>context_session\<close>) the active stage is the last one, so a commit
  that freezes every stage but the last freezes history and leaves only the live phase.
\<close>

lemma activeStage_last:
  assumes "context_session s" "activeStage s = Inr stage"
  shows "stages s \<noteq> []" "stage = last (stages s)"
proof -
  have mem: "stage \<in> set (stages s)" and cur: "currentStageId s = Some (stageId stage)"
    using activeStage_mem [OF assms(2)] by auto
  show "stages s \<noteq> []" using mem by auto
  then have "stageId stage = stageId (last (stages s))"
    using cur assms(1) by (simp add: context_session_def)
  moreover have "distinct (map stageId (stages s))" using assms(1) by (simp add: context_session_def)
  ultimately show "stage = last (stages s)"
    using mem \<open>stages s \<noteq> []\<close> by (metis distinct_map inj_onD last_in_set)
qed

lemma startStage_active:
  assumes "startStage s stage = Inr t"
  shows "activeStage t = Inr stage"
proof -
  have fresh: "\<forall>row \<in> set (stages s). stageId row \<noteq> stageId stage"
    and t: "t = s\<lparr>currentStageId := Some (stageId stage), selectedConnectionId := Some (connectionId stage),
      stages := stages s @ [stage], freshContext := False\<rparr>"
    using assms by (auto simp: startStage_def list_ex_iff split: if_splits)
  have "find (\<lambda>row. Some (stageId row) = Some (stageId stage)) (stages s) = None"
    by (rule find_absent) (use fresh in auto)
  then show ?thesis by (simp add: t activeStage_def find_append)
qed

lemma replaceStage_active:
  assumes "replaceStage s (Some b) (Some c) = Inr t"
  shows "\<exists>stage. activeStage s = Inr stage \<and>
    activeStage t = Inr (stage\<lparr>stage_binding := b, stage_capabilities := c\<rparr>)"
proof -
  obtain stage where stage: "activeStage s = Inr stage"
    and t: "t = s\<lparr>stages := map (\<lambda>row. if stageId row = stageId stage
       then row\<lparr>stage_binding := b, stage_capabilities := c\<rparr> else row) (stages s)\<rparr>"
    using assms by (auto simp: replaceStage_def)
  let ?f = "\<lambda>row. if stageId row = stageId stage
       then row\<lparr>stage_binding := b, stage_capabilities := c\<rparr> else row"
  have ids: "stageId (?f row) = stageId row" for row by simp
  have "find (\<lambda>row. Some (stageId row) = cur) (map ?f xs) =
      map_option ?f (find (\<lambda>row. Some (stageId row) = cur) xs)" for xs cur
    by (induction xs) (auto simp: ids)
  from this [of "currentStageId s" "stages s"] have "activeStage t = Inr (?f stage)"
    using stage unfolding t by (simp add: activeStage_def split: option.splits)
  then show ?thesis using stage by simp
qed

section \<open>History preview\<close>

definition utext_join :: "utext \<Rightarrow> utext list \<Rightarrow> utext" where
  "utext_join sep xs = (case xs of [] \<Rightarrow> [] | y # ys \<Rightarrow> y @ concat (map (\<lambda>t. sep @ t) ys))"

definition blank_line :: utext where
  "blank_line = [10, 10]"

text \<open>The prompts a preview may quote: completed ones only.\<close>

definition previewable :: "command_record \<Rightarrow> bool" where
  "previewable row = (case input_of (cr_command row) of
     Prompt t p tr h \<Rightarrow> state_outcome (cr_state row) = Some Completed
   | _ \<Rightarrow> False)"

text \<open>The assistant messages of one prompt, the latest text of each message.\<close>

definition message_map :: "event list \<Rightarrow> id \<Rightarrow> (id, utext) jsmap" where
  "message_map events cmd = fold (\<lambda>e m.
     if ev_commandId e = Some cmd
     then (case body e of Text i t \<Rightarrow> jm_set m i t | _ \<Rightarrow> m) else m) events []"

definition preview_turn :: "event list \<Rightarrow> command_record \<Rightarrow> utext" where
  "preview_turn events row =
     utext_of ''User:'' @ [10] @
     (case input_of (cr_command row) of Prompt t p tr h \<Rightarrow> t | _ \<Rightarrow> []) @ blank_line @
     utext_of ''Assistant:'' @ [10] @ utext_join blank_line (jm_values (message_map events (record_id row)))"

text \<open>\<^verbatim>\<open>slice(-n)\<close> for a positive \<open>n\<close>.\<close>

definition last_n :: "nat \<Rightarrow> 'a list \<Rightarrow> 'a list" where
  "last_n n xs = drop (length xs - n) xs"

definition preview_selection :: "command_record list \<Rightarrow> int option \<Rightarrow> command_record list" where
  "preview_selection commands recent =
     (let completed = sort_key (\<lambda>row. acceptedRevision (cr_receipt row)) (filter previewable commands)
      in case recent of None \<Rightarrow> completed | Some n \<Rightarrow> last_n (nat n) completed)"

definition json_of_preview_value :: "history_preview \<Rightarrow> json" where
  "json_of_preview_value h = obj (header ''historyPreview'' @
     [(''sessionId'', jid (hp_sessionId h)), (''connectionId'', jid (hp_connectionId h)),
      (''configRevision'', JInt (hp_configRevision h)), (''throughSequence'', JInt (hp_throughSequence h)),
      (''commandIds'', JArr (map jid (hp_commandIds h))), (''messageIds'', JArr (map jid (hp_messageIds h))),
      (''text'', JStr (hp_text h))])"

definition preview_limits :: limits where
  "preview_limits = (case defaultLimits of Limits b t d n \<Rightarrow> Limits b 65536 d n)"

definition historyPreview ::
  "digest \<Rightarrow> session \<Rightarrow> command_record list \<Rightarrow> event list \<Rightarrow> id \<Rightarrow> counter \<Rightarrow> int option
     \<Rightarrow> history_preview result" where
  "historyPreview digest s commands events connection configRev recent =
     (if (case recent of None \<Rightarrow> False | Some n \<Rightarrow> n < 1 \<or> 10000 < n)
      then Inl (fail_with Invalid_input Never)
      else let selected = preview_selection commands recent;
        value = \<lparr>hp_sessionId = ns_sessionId (ss_namespace s), hp_connectionId = connection,
          hp_configRevision = configRev, hp_throughSequence = lastSequence s,
          hp_commandIds = map record_id selected,
          hp_text = utext_join blank_line (map (preview_turn events) selected),
          hp_contentHash = [],
          hp_messageIds = concat (map (\<lambda>row. jm_keys (message_map events (record_id row))) selected)\<rparr>
       in case boundedJson preview_limits (json_of_preview_value value) of
            Inl d \<Rightarrow> Inl (fail_with Limit_exceeded Never)
          | Inr _ \<Rightarrow> Inr (value\<lparr>hp_contentHash := digest (json_of_preview_value value)\<rparr>))"

text \<open>The confirmed preview is part of the prompt the provider receives.\<close>

fun promptText :: "input \<Rightarrow> utext" where
  "promptText (Prompt t p tr (Some h)) =
     utext_of ''Previous completed conversation (user-confirmed plain text):'' @ [10] @ hp_text h @
     blank_line @ utext_of ''Current user request:'' @ [10] @ t"
| "promptText (Prompt t p tr None) = t"
| "promptText _ = []"

lemma preview_selection_mem:
  "row \<in> set (preview_selection commands recent) \<Longrightarrow> row \<in> set commands \<and> previewable row"
  by (auto simp: preview_selection_def Let_def last_n_def split: option.splits dest: in_set_dropD)

lemma preview_selection_sorted:
  "sorted (map (\<lambda>row. acceptedRevision (cr_receipt row)) (preview_selection commands recent))"
  by (auto simp: preview_selection_def Let_def last_n_def drop_map [symmetric] sorted_wrt_drop split: option.splits)

lemma preview_selection_length:
  "length (preview_selection commands (Some n)) \<le> nat n"
  by (simp add: preview_selection_def Let_def last_n_def)

text \<open>The latest text wins, and a message keeps its first position.\<close>

lemma message_map_snoc:
  "message_map (events @ [e]) c =
     (if ev_commandId e = Some c then (case body e of Text i t \<Rightarrow> jm_set (message_map events c) i t
        | _ \<Rightarrow> message_map events c) else message_map events c)"
  by (cases "body e") (simp_all add: message_map_def)

lemma message_map_get:
  "jm_get (message_map events c) i = Some t \<Longrightarrow>
     \<exists>e \<in> set events. ev_commandId e = Some c \<and> body e = Text i t"
proof (induction events rule: rev_induct)
  case Nil
  then show ?case by (simp add: message_map_def)
next
  case (snoc e events)
  then show ?case
    by (cases "body e") (auto simp: message_map_snoc split: if_splits)
qed

lemma message_map_wf: "jm_wf (message_map events c)"
proof (induction events rule: rev_induct)
  case Nil
  then show ?case by (simp add: message_map_def)
next
  case (snoc e events)
  then show ?case by (cases "body e") (simp_all add: message_map_snoc)
qed

end
