(* ===== verification/Provider_Facts.thy ===== *)
theory Provider_Facts
  imports Session_Contexts
begin

text \<open>
  Provider evidence (\<^verbatim>\<open>session.ts\<close>). A \<^verbatim>\<open>VerifiedProviderSession\<close> is the record of its
  private fields; a value of any other origin is \<open>Forged\<close>. \<^verbatim>\<open>mint\<close> checks an observation
  against the session head, the original record and the admitted identity, and files the
  evidence in the private \<^verbatim>\<open>WeakMap\<close>. That map is the list \<open>evidence_store\<close>; a proof is
  its index together with the public command identifier, so a proof the store does not know
  denotes an object that \<^verbatim>\<open>mint\<close> never returned. Ports are parameters: a port call gives
  \<open>None\<close> when it throws or exhausts its budget.
\<close>

section \<open>Observations and reconciliations\<close>

record provider_interaction =
  pi_interactionId :: id
  pi_nativeCallbackId :: id
  pi_expiresAtMs :: counter
  pi_request :: json

datatype observation_kind =
    Obs_submitted
  | Obs_running
  | Obs_acknowledged control_ack
  | Obs_interaction_unavailable id
  | Obs_event event_body
  | Obs_delta id utext
  | Obs_interaction provider_interaction

record provider_observation =
  po_attemptId :: id
  po_binding :: binding
  po_commandId :: id
  po_kind :: observation_kind

datatype reconciliation_status =
    Is_running
  | Is_submitted
  | Is_unknown "id option"
  | Is_terminal outcome
  | Is_not_submitted "failure option"
  | Is_acknowledged control_ack
  | Is_observed provider_observation

text \<open>\<open>rn_extra\<close> lists own property names beyond those of the variant.\<close>

record reconciliation =
  rn_commandId :: id
  rn_attemptId :: id
  rn_binding :: binding
  rn_status :: reconciliation_status
  rn_extra :: "string list"

fun is_observed :: "reconciliation_status \<Rightarrow> bool" where
  "is_observed (Is_observed p) = True"
| "is_observed _ = False"

text \<open>The resolution name a \<^verbatim>\<open>reconciled\<close> event announces for a status.\<close>

fun status_resolution :: "reconciliation_status \<Rightarrow> resolution option" where
  "status_resolution Is_running = Some R_running"
| "status_resolution Is_submitted = Some R_submitted"
| "status_resolution (Is_unknown c) = Some R_unknown"
| "status_resolution (Is_terminal r) = Some R_terminal"
| "status_resolution (Is_not_submitted e) = Some R_not_submitted"
| "status_resolution (Is_acknowledged a) = Some R_acknowledged"
| "status_resolution (Is_observed p) = None"

section \<open>Identities\<close>

text \<open>Stable observer identity: run and request coordinates are dropped.\<close>

definition providerIdentity :: "binding \<Rightarrow> binding" where
  "providerIdentity b = b\<lparr>nativeRunId := None, nativeRequestId := None\<rparr>"

text \<open>A coordinate, once known, is kept.\<close>

definition keeps :: "'a option \<Rightarrow> 'a option \<Rightarrow> bool" where
  "keeps old new \<longleftrightarrow> old = None \<or> old = new"

definition attempt_keeps :: "dispatch_attempt \<Rightarrow> dispatch_attempt \<Rightarrow> bool" where
  "attempt_keeps old new \<longleftrightarrow>
     attemptId old = attemptId new \<and> originGeneration old = originGeneration new \<and>
     observerGeneration old = observerGeneration new \<and>
     da_nativeSessionId old = da_nativeSessionId new \<and>
     keeps (da_nativeRunId old) (da_nativeRunId new) \<and>
     keeps (da_nativeRequestId old) (da_nativeRequestId new) \<and>
     keeps (correlationId old) (correlationId new)"

lemma keeps_refl [simp]: "keeps x x"
  by (simp add: keeps_def)

lemma keeps_trans: "keeps x y \<Longrightarrow> keeps y z \<Longrightarrow> keeps x z"
  by (auto simp: keeps_def)

lemma attempt_keeps_refl [simp]: "attempt_keeps d d"
  by (simp add: attempt_keeps_def)

lemma attempt_keeps_trans: "attempt_keeps a b \<Longrightarrow> attempt_keeps b c \<Longrightarrow> attempt_keeps a c"
  by (auto simp: attempt_keeps_def intro: keeps_trans)

lemma providerIdentity_fields [simp]:
  "generation (providerIdentity b) = generation b"
  "nativeSessionId (providerIdentity b) = nativeSessionId b"
  "nativeThreadId (providerIdentity b) = nativeThreadId b"
  "provider (providerIdentity b) = provider b"
  "workspaceId (providerIdentity b) = workspaceId b"
  "config (providerIdentity b) = config b"
  by (simp_all add: providerIdentity_def)

lemma providerIdentity_idem [simp]: "providerIdentity (providerIdentity b) = providerIdentity b"
  by (simp add: providerIdentity_def)

section \<open>Admitted sessions\<close>

record provider_session =
  vs_namespace :: namespace
  vs_binding :: binding
  vs_port :: nat
  vs_capabilities :: capabilities
  vs_tools :: "nat option"
  vs_previous :: "(namespace \<times> binding) option"

text \<open>A value offered where an admitted session is required.\<close>

datatype candidate = Admitted provider_session | Forged

definition opens :: "provider_session \<Rightarrow> namespace \<Rightarrow> bool" where
  "opens vs n \<longleftrightarrow> vs_previous vs = None \<and> vs_namespace vs = n"

definition matches_binding :: "provider_session \<Rightarrow> binding \<Rightarrow> nat option \<Rightarrow> bool" where
  "matches_binding vs b t \<longleftrightarrow> vs_binding vs = b \<and> vs_tools vs = t"

definition restores :: "provider_session \<Rightarrow> session \<Rightarrow> exit + bool" where
  "restores vs previous = (case vs_previous vs of
     None \<Rightarrow> Inr False
   | Some link \<Rightarrow> and_then (activeStage previous) (\<lambda>stage.
       Inr (link = (ss_namespace previous, stage_binding stage))))"

section \<open>Evidence\<close>

record evidence =
  ed_namespace :: namespace
  ed_binding :: binding
  ed_record :: command_record
  ed_observation :: reconciliation

type_synonym evidence_store = "evidence list"

record fact_proof =
  pf_token :: nat
  pf_commandId :: id

definition find_evidence :: "evidence_store \<Rightarrow> fact_proof \<Rightarrow> evidence option" where
  "find_evidence store p = (if pf_token p < length store then Some (store ! pf_token p) else None)"

definition evidence_matches :: "evidence \<Rightarrow> command_record \<Rightarrow> bool" where
  "evidence_matches ev record \<longleftrightarrow>
     cr_command (ed_record ev) = cr_command record \<and> cr_receipt (ed_record ev) = cr_receipt record \<and>
     (case (dispatch (ed_record ev), dispatch record) of
        (Some d, Some d') \<Rightarrow> attempt_keeps d d' \<and>
          (da_nativeRunId d' = None \<or> nativeRunId (rn_binding (ed_observation ev)) = da_nativeRunId d') \<and>
          (da_nativeRequestId d' = None \<or>
             nativeRequestId (rn_binding (ed_observation ev)) = da_nativeRequestId d')
      | _ \<Rightarrow> False)"

definition providerFactFor ::
  "evidence_store \<Rightarrow> fact_proof \<Rightarrow> session \<Rightarrow> command_record \<Rightarrow> exit + reconciliation option" where
  "providerFactFor store p s record = (case find_evidence store p of
     None \<Rightarrow> Inr None
   | Some ev \<Rightarrow> and_then (activeStage s) (\<lambda>stage. Inr
       (if ed_namespace ev = ss_namespace s \<and> ed_binding ev = providerIdentity (stage_binding stage) \<and>
           evidence_matches ev record
        then Some (ed_observation ev) else None)))"

section \<open>Minting\<close>

definition json_of_control :: "control_ack \<Rightarrow> json" where
  "json_of_control a = json_of_ack (Control_ack a)"

fun json_of_observation_kind :: "observation_kind \<Rightarrow> (string \<times> json) list" where
  "json_of_observation_kind Obs_submitted = [(''type'', jid ''submitted'')]"
| "json_of_observation_kind Obs_running = [(''type'', jid ''running'')]"
| "json_of_observation_kind (Obs_acknowledged a) =
     [(''type'', jid ''acknowledged''), (''acknowledgement'', json_of_control a)]"
| "json_of_observation_kind (Obs_interaction_unavailable i) =
     [(''type'', jid ''interaction_unavailable''), (''interactionId'', jid i)]"
| "json_of_observation_kind (Obs_event b) = [(''type'', jid ''event''), (''body'', json_of_body b)]"
| "json_of_observation_kind (Obs_delta m t) =
     [(''type'', jid ''delta''), (''messageId'', jid m), (''text'', JStr t)]"
| "json_of_observation_kind (Obs_interaction i) =
     [(''type'', jid ''interaction''), (''interaction'', obj
        [(''category'', jid ''question''), (''interactionId'', jid (pi_interactionId i)),
         (''nativeCallbackId'', jid (pi_nativeCallbackId i)), (''expiresAtMs'', JInt (pi_expiresAtMs i)),
         (''callbackLifetime'', jid ''generation_bound''), (''request'', pi_request i)])]"

definition json_of_observation :: "provider_observation \<Rightarrow> json" where
  "json_of_observation p = obj ([(''attemptId'', jid (po_attemptId p)),
     (''binding'', json_of_binding (po_binding p)), (''commandId'', jid (po_commandId p))] @
     json_of_observation_kind (po_kind p))"

fun json_of_reconciliation_status :: "reconciliation_status \<Rightarrow> (string \<times> json) list" where
  "json_of_reconciliation_status Is_running = [(''status'', jid ''running'')]"
| "json_of_reconciliation_status Is_submitted = [(''status'', jid ''submitted'')]"
| "json_of_reconciliation_status (Is_unknown c) =
     (''status'', jid ''unknown'') # opt_member ''correlationId'' jid c"
| "json_of_reconciliation_status (Is_terminal r) =
     [(''status'', jid ''terminal''), (''outcome'', jid (outcome_text r))]"
| "json_of_reconciliation_status (Is_not_submitted e) =
     (''status'', jid ''not_submitted'') # opt_member ''error'' json_of_failure e"
| "json_of_reconciliation_status (Is_acknowledged a) =
     [(''status'', jid ''acknowledged''), (''acknowledgement'', json_of_control a)]"
| "json_of_reconciliation_status (Is_observed p) =
     [(''status'', jid ''observed''), (''observation'', json_of_observation p)]"

definition json_of_reconciliation :: "reconciliation \<Rightarrow> json" where
  "json_of_reconciliation r = obj ([(''commandId'', jid (rn_commandId r)),
     (''attemptId'', jid (rn_attemptId r)), (''binding'', json_of_binding (rn_binding r))] @
     json_of_reconciliation_status (rn_status r))"

text \<open>The own keys must be exactly those of the variant; an empty correlation is no key.\<close>

definition exact_keys :: "reconciliation \<Rightarrow> bool" where
  "exact_keys r \<longleftrightarrow> rn_extra r = [] \<and> rn_status r \<noteq> Is_unknown (Some [])"

definition mint_limits :: limits where
  "mint_limits = Limits 262144 131072 32 16384"

definition submitted_attempt :: "dispatch_attempt \<Rightarrow> dispatch_attempt" where
  "submitted_attempt d = d\<lparr>certainty_of := Submitted\<rparr>"

text \<open>The coordinate checks of \<^verbatim>\<open>mint\<close>; the attempt is that of an unsettled record.\<close>

definition mint_coordinates ::
  "provider_session \<Rightarrow> session \<Rightarrow> binding \<Rightarrow> command_record \<Rightarrow> dispatch_attempt \<Rightarrow> reconciliation \<Rightarrow> bool" where
  "mint_coordinates vs head current original d observed \<longleftrightarrow>
     status head = Active \<and>
     state_of original \<notin> {T_terminal, T_invalidated, T_acknowledged, T_cancelled} \<and>
     ss_namespace head = vs_namespace vs \<and> rc_namespace (cr_receipt original) = vs_namespace vs \<and>
     providerIdentity current = providerIdentity (vs_binding vs) \<and>
     observerGeneration d = generation (vs_binding vs) \<and>
     da_nativeSessionId d = nativeSessionId (vs_binding vs) \<and>
     da_nativeThreadId d = nativeThreadId (vs_binding vs) \<and>
     rn_commandId observed = record_id original \<and> rn_attemptId observed = attemptId d \<and>
     providerIdentity (rn_binding observed) = providerIdentity (vs_binding vs) \<and>
     keeps (da_nativeRunId d) (nativeRunId (rn_binding observed)) \<and>
     keeps (da_nativeRequestId d) (nativeRequestId (rn_binding observed))"

text \<open>The rows a claim would produce must themselves be valid.\<close>

fun mint_row :: "session \<Rightarrow> binding \<Rightarrow> command_record \<Rightarrow> dispatch_attempt \<Rightarrow> reconciliation_status
    \<Rightarrow> row option" where
  "mint_row head current original d (Is_observed p) =
     (let probe = (\<lambda>b. Some (Row_event \<lparr>ev_namespace = ss_namespace head,
          eventId = ''verify-observation'', sequence = 1, ev_generation = generation current,
          ev_commandId = Some (record_id original), ev_attemptId = Some (attemptId d), body = b\<rparr>))
      in case po_kind p of Obs_delta m t \<Rightarrow> probe (Text m t) | Obs_event b \<Rightarrow> probe b | _ \<Rightarrow> None)"
| "mint_row head current original d (Is_terminal r) =
     Some (Row_record (original\<lparr>cr_state := Terminal (submitted_attempt d) r\<rparr>))"
| "mint_row head current original d (Is_acknowledged a) =
     Some (Row_record (original\<lparr>cr_state := Acknowledged (submitted_attempt d) a\<rparr>))"
| "mint_row head current original d _ = None"

definition mint_evidence ::
  "digest \<Rightarrow> provider_session \<Rightarrow> session \<Rightarrow> command_record \<Rightarrow> reconciliation \<Rightarrow> evidence option" where
  "mint_evidence digest vs head original observed =
     (case (activeStage head, dispatch original) of
        (Inr stage, Some d) \<Rightarrow>
          (if exact_keys observed \<and>
              valid digest mint_limits (Row_session head) = None \<and>
              valid digest mint_limits (Row_record original) = None \<and>
              mint_coordinates vs head (stage_binding stage) original d observed \<and>
              (case replaceStage head (Some (rn_binding observed)) None of
                 Inl e \<Rightarrow> False | Inr s \<Rightarrow> valid digest mint_limits (Row_session s) = None) \<and>
              (case mint_row head (stage_binding stage) original d (rn_status observed) of
                 None \<Rightarrow> True | Some row \<Rightarrow> valid digest mint_limits row = None) \<and>
              (case boundedJson mint_limits (json_of_reconciliation observed) of
                 Inl e \<Rightarrow> False | Inr t \<Rightarrow> True)
           then Some \<lparr>ed_namespace = ss_namespace head,
                      ed_binding = providerIdentity (stage_binding stage),
                      ed_record = original, ed_observation = observed\<rparr>
           else None)
      | _ \<Rightarrow> None)"

text \<open>\<^verbatim>\<open>denied()\<close>; every exception inside \<^verbatim>\<open>mint\<close> is caught and denied.\<close>

definition denied :: failure where
  "denied = fail_with Permission_denied Never"

definition mint ::
  "digest \<Rightarrow> provider_session \<Rightarrow> session \<Rightarrow> command_record \<Rightarrow> reconciliation \<Rightarrow> evidence_store
     \<Rightarrow> fact_proof result \<times> evidence_store" where
  "mint digest vs head original observed store =
     (case mint_evidence digest vs head original observed of
        None \<Rightarrow> (Inl denied, store)
      | Some ev \<Rightarrow> (Inr \<lparr>pf_token = length store, pf_commandId = rn_commandId observed\<rparr>, store @ [ev]))"

section \<open>Provider calls\<close>

datatype submission =
    Sub_acknowledged binding control_ack
  | Sub_submitted binding
  | Sub_not_sent failure
  | Sub_unknown id

text \<open>The reconciliation a completed dispatch claims.\<close>

fun submission_claim :: "reconciliation \<Rightarrow> submission \<Rightarrow> reconciliation" where
  "submission_claim basis (Sub_submitted b) = basis\<lparr>rn_binding := b, rn_status := Is_submitted\<rparr>"
| "submission_claim basis (Sub_acknowledged b a) =
     basis\<lparr>rn_binding := b, rn_status := Is_acknowledged a\<rparr>"
| "submission_claim basis (Sub_not_sent e) = basis\<lparr>rn_status := Is_not_submitted (Some e)\<rparr>"
| "submission_claim basis (Sub_unknown c) = basis\<lparr>rn_status := Is_unknown (Some c)\<rparr>"

definition provider_dispatch ::
  "digest \<Rightarrow> (binding \<Rightarrow> command \<Rightarrow> dispatch_attempt \<Rightarrow> submission option) \<Rightarrow> provider_session
     \<Rightarrow> session \<Rightarrow> command_record \<Rightarrow> evidence_store \<Rightarrow> (exit + fact_proof result) \<times> evidence_store" where
  "provider_dispatch digest port vs head original store =
     (case cr_state original of
        Dispatching d \<Rightarrow>
          if certainty_of d \<noteq> Intent then (Inr (Inl denied), store)
          else (case activeStage head of
            Inl e \<Rightarrow> (Inl e, store)
          | Inr stage \<Rightarrow>
              let basis = \<lparr>rn_commandId = record_id original, rn_attemptId = attemptId d,
                rn_binding = stage_binding stage, rn_status = Is_unknown None, rn_extra = []\<rparr>
              in case mint digest vs head original basis store of
                (Inl f, store') \<Rightarrow> (Inr (Inl denied), store')
              | (Inr p, store') \<Rightarrow> map_prod Inr id (mint digest vs head original
                  (case port (stage_binding stage) (cr_command original) d of
                     None \<Rightarrow> basis | Some sub \<Rightarrow> submission_claim basis sub) store'))
      | _ \<Rightarrow> (Inr (Inl denied), store))"

definition provider_reconcile ::
  "digest \<Rightarrow> (binding \<Rightarrow> command_record \<Rightarrow> reconciliation result option) \<Rightarrow> provider_session
     \<Rightarrow> session \<Rightarrow> command_record \<Rightarrow> evidence_store \<Rightarrow> (exit + fact_proof result) \<times> evidence_store" where
  "provider_reconcile digest port vs head original store =
     (case dispatch original of
        None \<Rightarrow> (Inr (Inl denied), store)
      | Some d \<Rightarrow> (case activeStage head of
          Inl e \<Rightarrow> (Inl e, store)
        | Inr stage \<Rightarrow>
            let b = stage_binding stage;
              basis = \<lparr>rn_commandId = record_id original, rn_attemptId = attemptId d,
                rn_binding = b\<lparr>nativeRunId := (case da_nativeRunId d of None \<Rightarrow> nativeRunId b | r \<Rightarrow> r),
                  nativeRequestId := (case da_nativeRequestId d of None \<Rightarrow> nativeRequestId b | r \<Rightarrow> r)\<rparr>,
                rn_status = Is_unknown None, rn_extra = []\<rparr>
            in case mint digest vs head original basis store of
              (Inl f, store') \<Rightarrow> (Inr (Inl denied), store')
            | (Inr p, store') \<Rightarrow> (case port b original of
                None \<Rightarrow> (Inr (Inl (fail_with Unavailable Same_command)), store')
              | Some (Inl f) \<Rightarrow> (Inr (Inl f), store')
              | Some (Inr observed) \<Rightarrow>
                  if is_observed (rn_status observed) then (Inr (Inl denied), store')
                  else map_prod Inr id (mint digest vs head original observed store'))))"

fun observation_claim :: "provider_observation \<Rightarrow> reconciliation_status" where
  "observation_claim p = (case po_kind p of
     Obs_submitted \<Rightarrow> Is_submitted
   | Obs_running \<Rightarrow> Is_running
   | Obs_acknowledged a \<Rightarrow> Is_acknowledged a
   | Obs_event (Terminal_reported r) \<Rightarrow> Is_terminal r
   | _ \<Rightarrow> Is_observed p)"

text \<open>
  One run of the observer over the observations the port yields, each paired with whether the
  caller had aborted when it arrived: the run ends at the first abort, and an observation
  that is not minted is skipped.
\<close>

fun provider_observe ::
  "digest \<Rightarrow> provider_session \<Rightarrow> session \<Rightarrow> command_record \<Rightarrow> (bool \<times> provider_observation) list
     \<Rightarrow> evidence_store \<Rightarrow> fact_proof list \<times> evidence_store" where
  "provider_observe digest vs head original [] store = ([], store)"
| "provider_observe digest vs head original ((aborted, p) # ps) store =
     (if aborted \<or> dispatch original = None then ([], store)
      else let claim = \<lparr>rn_commandId = po_commandId p, rn_attemptId = po_attemptId p,
             rn_binding = po_binding p, rn_status = observation_claim p, rn_extra = []\<rparr>
        in case mint digest vs head original claim store of
          (Inl f, store') \<Rightarrow> provider_observe digest vs head original ps store'
        | (Inr q, store') \<Rightarrow>
            (case provider_observe digest vs head original ps store' of (qs, store'') \<Rightarrow> (q # qs, store'')))"

section \<open>Facts\<close>

lemma mint_evidence_Some:
  assumes "mint_evidence digest vs head original observed = Some ev"
  obtains stage d where "activeStage head = Inr stage" "dispatch original = Some d"
    "exact_keys observed" "mint_coordinates vs head (stage_binding stage) original d observed"
    "valid digest mint_limits (Row_record original) = None"
    "ev = \<lparr>ed_namespace = ss_namespace head, ed_binding = providerIdentity (stage_binding stage),
       ed_record = original, ed_observation = observed\<rparr>"
  using assms by (auto simp: mint_evidence_def split: sum.splits option.splits if_splits)

lemma mint_store:
  assumes "mint digest vs head original observed store = (r, store')"
  shows "store' = store \<and> r = Inl denied \<or>
    (\<exists>ev. mint_evidence digest vs head original observed = Some ev \<and> store' = store @ [ev] \<and>
       r = Inr \<lparr>pf_token = length store, pf_commandId = rn_commandId observed\<rparr>)"
  using assms by (auto simp: mint_def split: option.splits)

text \<open>Evidence is append-only: what a proof denotes never changes.\<close>

lemma find_evidence_append:
  "find_evidence store p = Some ev \<Longrightarrow> find_evidence (store @ ext) p = Some ev"
  by (auto simp: find_evidence_def nth_append split: if_splits)

lemma providerFactFor_Some:
  assumes "providerFactFor store p s record = Inr (Some r)"
  obtains ev stage where "find_evidence store p = Some ev" "activeStage s = Inr stage"
    "ed_namespace ev = ss_namespace s" "ed_binding ev = providerIdentity (stage_binding stage)"
    "evidence_matches ev record" "ed_observation ev = r"
  using assms by (auto simp: providerFactFor_def split: option.splits if_splits)

text \<open>
  Every filed piece of evidence binds the observation to the attempt of the record it was
  minted for and to the admitted identity.
\<close>

definition evidence_ok :: "evidence \<Rightarrow> bool" where
  "evidence_ok ev \<longleftrightarrow> (\<exists>d. dispatch (ed_record ev) = Some d \<and>
     rn_commandId (ed_observation ev) = record_id (ed_record ev) \<and>
     rn_attemptId (ed_observation ev) = attemptId d \<and>
     providerIdentity (rn_binding (ed_observation ev)) = ed_binding ev \<and>
     observerGeneration d = generation (ed_binding ev) \<and>
     da_nativeSessionId d = nativeSessionId (ed_binding ev) \<and>
     da_nativeThreadId d = nativeThreadId (ed_binding ev) \<and>
     keeps (da_nativeRunId d) (nativeRunId (rn_binding (ed_observation ev))) \<and>
     keeps (da_nativeRequestId d) (nativeRequestId (rn_binding (ed_observation ev))))"

definition store_ok :: "evidence_store \<Rightarrow> bool" where
  "store_ok store \<longleftrightarrow> list_all evidence_ok store"

lemma mint_evidence_ok:
  assumes "mint_evidence digest vs head original observed = Some ev"
  shows "evidence_ok ev"
  using assms
proof (rule mint_evidence_Some)
  fix stage d
  assume d: "dispatch original = Some d"
    and c: "mint_coordinates vs head (stage_binding stage) original d observed"
    and ev: "ev = \<lparr>ed_namespace = ss_namespace head, ed_binding = providerIdentity (stage_binding stage),
       ed_record = original, ed_observation = observed\<rparr>"
  have same: "providerIdentity (stage_binding stage) = providerIdentity (vs_binding vs)"
    using c by (simp add: mint_coordinates_def)
  have "generation (stage_binding stage) = generation (vs_binding vs)"
    using arg_cong [OF same, of generation] by simp
  moreover have "nativeSessionId (stage_binding stage) = nativeSessionId (vs_binding vs)"
    using arg_cong [OF same, of nativeSessionId] by simp
  moreover have "nativeThreadId (stage_binding stage) = nativeThreadId (vs_binding vs)"
    using arg_cong [OF same, of nativeThreadId] by simp
  ultimately show ?thesis
    using c d by (simp add: ev evidence_ok_def mint_coordinates_def)
qed

lemma mint_preserves_store_ok:
  assumes "store_ok store" "mint digest vs head original observed store = (r, store')"
  shows "store_ok store'"
  using mint_store [OF assms(2)] assms(1) mint_evidence_ok by (auto simp: store_ok_def)

lemma mint_extends:
  "mint digest vs head original observed store = (r, store') \<Longrightarrow> \<exists>ext. store' = store @ ext"
  by (drule mint_store) auto

lemma observe_store_ok:
  assumes "store_ok store" "provider_observe digest vs head original ps store = (qs, store')"
  shows "store_ok store'"
  using assms
proof (induction ps arbitrary: store qs store')
  case (Cons x ps)
  obtain aborted p where x: "x = (aborted, p)" by (cases x)
  define claim where "claim = \<lparr>rn_commandId = po_commandId p, rn_attemptId = po_attemptId p,
    rn_binding = po_binding p, rn_status = observation_claim p, rn_extra = []\<rparr>"
  obtain r store1 where m: "mint digest vs head original claim store = (r, store1)"
    by (cases "mint digest vs head original claim store")
  have ok: "store_ok store1" using mint_preserves_store_ok [OF Cons.prems(1) m] .
  obtain qs1 store2 where rest: "provider_observe digest vs head original ps store1 = (qs1, store2)"
    by (cases "provider_observe digest vs head original ps store1")
  have "store_ok store2" by (rule Cons.IH [OF ok rest])
  moreover have "store' = (if aborted \<or> dispatch original = None then store else store2)"
    using Cons.prems(2) rest m unfolding x claim_def
    by (cases "aborted \<or> dispatch original = None") (simp_all add: Let_def split: sum.splits)
  ultimately show ?case using Cons.prems(1) by simp
qed simp

end
