(* ===== verification/Session_Rows.thy ===== *)
theory Session_Rows
  imports Provider_Facts
begin

text \<open>
  Transaction rows and scoped reads (\<^verbatim>\<open>session-mutation.ts\<close>). A reducer sees its rows
  through \<^verbatim>\<open>SessionRows\<close>: a plain map, the rows of a store reachable by key only, or an
  overlay of pending writes. Reads that range over rows go through \<^verbatim>\<open>readView\<close>, which
  merges the pending writes into what the source returns. The locale \<open>writable_rows\<close> is
  what reducers rely on when they write, \<open>session_source\<close> what \<^verbatim>\<open>readView\<close> relies on; both
  are interpreted on the code's own providers, here, in \<open>Session_View\<close> and in \<open>Sqlite_Facts\<close>.
\<close>

section \<open>Rows\<close>

text \<open>
  The ways a read or a write throws: a failed store read, an enumeration of rows that are
  no map (\<^verbatim>\<open>TypeError\<close>), a write to the rows of a store.
\<close>

datatype row_error = Read_failure failure | Not_enumerable | Read_only_rows

datatype ('k, 'v) rows =
    Memory "('k, 'v) jsmap"
  | Scoped "'k \<Rightarrow> row_error + 'v option"
  | Overlay "('k, 'v) rows" "('k, 'v) jsmap"

fun rows_get :: "('k, 'v) rows \<Rightarrow> 'k \<Rightarrow> row_error + 'v option" where
  "rows_get (Memory m) k = Inr (jm_get m k)"
| "rows_get (Scoped g) k = g k"
| "rows_get (Overlay base own) k = (if jm_has own k then Inr (jm_get own k) else rows_get base k)"

fun rows_has :: "('k, 'v) rows \<Rightarrow> 'k \<Rightarrow> row_error + bool" where
  "rows_has (Memory m) k = Inr (jm_has m k)"
| "rows_has (Scoped g) k = and_then (g k) (\<lambda>v. Inr (v \<noteq> None))"
| "rows_has (Overlay base own) k = (if jm_has own k then Inr True else rows_has base k)"

fun rows_set :: "('k, 'v) rows \<Rightarrow> 'k \<Rightarrow> 'v \<Rightarrow> row_error + ('k, 'v) rows" where
  "rows_set (Memory m) k v = Inr (Memory (jm_set m k v))"
| "rows_set (Scoped g) k v = Inl Read_only_rows"
| "rows_set (Overlay base own) k v = Inr (Overlay base (jm_set own k v))"

text \<open>\<^verbatim>\<open>Overlay.writes\<close>, and the module's \<^verbatim>\<open>writes\<close> for rows that are no overlay.\<close>

fun writes :: "('k, 'v) rows \<Rightarrow> ('k, 'v) jsmap" where
  "writes (Overlay base own) = jm_of (writes base @ own)"
| "writes _ = []"

text \<open>\<^verbatim>\<open>memoryRows(rows)\<close> followed by iteration: overlays iterate their merged entries.\<close>

fun memoryRows :: "('k, 'v) rows \<Rightarrow> row_error + ('k, 'v) jsmap" where
  "memoryRows (Memory m) = Inr m"
| "memoryRows (Scoped g) = Inl Not_enumerable"
| "memoryRows (Overlay base own) =
     and_then (memoryRows base) (\<lambda>m. Inr (fold (\<lambda>(k, v) m. jm_set m k v) own m))"

fun is_map :: "('k, 'v) rows \<Rightarrow> bool" where
  "is_map (Scoped g) = False"
| "is_map _ = True"

text \<open>The rows below every overlay.\<close>

fun root_rows :: "('k, 'v) rows \<Rightarrow> ('k, 'v) rows" where
  "root_rows (Overlay base own) = root_rows base"
| "root_rows r = r"

lemma jm_get_fold_set:
  "jm_get (fold (\<lambda>(k, v) m. jm_set m k v) kvs m) j =
     (case map_of (rev kvs) j of Some v \<Rightarrow> Some v | None \<Rightarrow> jm_get m j)"
proof (induction kvs arbitrary: m)
  case (Cons kv kvs)
  then show ?case
    by (cases kv) (auto simp: map_add_def split: option.splits)
qed simp

lemma jm_wf_fold_set: "jm_wf m \<Longrightarrow> jm_wf (fold (\<lambda>(k, v) m. jm_set m k v) kvs m)"
  by (induction kvs arbitrary: m) auto

lemma jm_get_of: "jm_get (jm_of kvs) j = map_of (rev kvs) j"
  by (simp add: jm_of_def jm_get_fold_set split: option.splits)

lemma jm_wf_of [simp]: "jm_wf (jm_of kvs)"
  by (simp add: jm_of_def jm_wf_fold_set)

lemma map_of_rev_distinct: "jm_wf m \<Longrightarrow> map_of (rev m) = jm_get m"
proof
  fix k
  assume wf: "jm_wf m"
  then have "distinct (map fst (rev m))" by (simp add: jm_wf_def rev_map [symmetric])
  then show "map_of (rev m) k = jm_get m k"
    using wf unfolding jm_get_def jm_wf_def
    by (metis map_of_eqI set_map set_rev map_of_eq_Some_iff option.exhaust_sel map_of_SomeD
        map_of_is_SomeI not_Some_eq)
qed

fun rows_wf :: "('k, 'v) rows \<Rightarrow> bool" where
  "rows_wf (Memory m) = jm_wf m"
| "rows_wf (Scoped g) = True"
| "rows_wf (Overlay base own) = (rows_wf base \<and> jm_wf own)"

lemma writes_wf [simp]: "jm_wf (writes r)"
  by (cases r) auto

text \<open>
  The decomposition the delta rests on: reading a row is reading the accumulated writes and
  falling back to the rows below every overlay.
\<close>

lemma rows_get_writes:
  "rows_wf r \<Longrightarrow> rows_get r k =
     (case jm_get (writes r) k of Some v \<Rightarrow> Inr (Some v) | None \<Rightarrow> rows_get (root_rows r) k)"
proof (induction r)
  case (Overlay base own)
  have own: "map_of (rev own) k = jm_get own k"
    using Overlay.prems by (simp add: map_of_rev_distinct)
  have base: "map_of (rev (writes base)) k = jm_get (writes base) k"
    by (simp add: map_of_rev_distinct)
  show ?case
    using Overlay own base
    by (auto simp: jm_get_of map_add_def jm_has_def split: option.splits)
qed simp_all

lemma memoryRows_get:
  "rows_wf r \<Longrightarrow> memoryRows r = Inr m \<Longrightarrow> rows_get r k = Inr (jm_get m k)"
proof (induction r arbitrary: m)
  case (Overlay base own)
  then obtain b where b: "memoryRows base = Inr b" "m = fold (\<lambda>(k, v) m. jm_set m k v) own b"
    by auto
  then show ?case
    using Overlay by (auto simp: jm_get_fold_set map_of_rev_distinct jm_has_def split: option.splits)
qed simp_all

lemma memoryRows_wf: "rows_wf r \<Longrightarrow> memoryRows r = Inr m \<Longrightarrow> jm_wf m"
  by (induction r arbitrary: m) (auto intro: jm_wf_fold_set)

lemma rows_has_get: "rows_get r k = Inr v \<Longrightarrow> rows_has r k = Inr (v \<noteq> None)"
  by (induction r) (auto simp: jm_has_def split: if_splits)

section \<open>The contract of writable rows\<close>

locale writable_rows =
  fixes ok :: "'m \<Rightarrow> bool"
    and get :: "'m \<Rightarrow> 'k \<Rightarrow> row_error + 'v option"
    and put :: "'m \<Rightarrow> 'k \<Rightarrow> 'v \<Rightarrow> row_error + 'm"
  assumes put_ok: "ok m \<Longrightarrow> \<exists>m'. put m k v = Inr m' \<and> ok m'"
    and get_put: "ok m \<Longrightarrow> put m k v = Inr m' \<Longrightarrow>
      get m' j = (if j = k then Inr (Some v) else get m j)"
begin

text \<open>A sequence of writes is one map of last values.\<close>

fun put_all :: "'m \<Rightarrow> ('k \<times> 'v) list \<Rightarrow> row_error + 'm" where
  "put_all m [] = Inr m"
| "put_all m ((k, v) # kvs) = and_then (put m k v) (\<lambda>m'. put_all m' kvs)"

lemma put_all_ok: "ok m \<Longrightarrow> \<exists>m'. put_all m kvs = Inr m' \<and> ok m'"
proof (induction m kvs rule: put_all.induct)
  case (2 m k v kvs)
  then show ?case using put_ok [OF "2.prems", of k v] by auto
qed simp

lemma get_put_all:
  assumes "ok m" "put_all m kvs = Inr m'"
  shows "get m' j = (case map_of (rev kvs) j of Some v \<Rightarrow> Inr (Some v) | None \<Rightarrow> get m j)"
  using assms
proof (induction m kvs rule: put_all.induct)
  case (2 m k v kvs)
  then obtain m1 where m1: "put m k v = Inr m1" "ok m1" "put_all m1 kvs = Inr m'"
    using put_ok [of m k v] by auto
  then show ?case
    using "2.IH" [OF m1(2,3)] get_put [OF "2.prems"(1) m1(1), of j]
    by (auto simp: map_add_def split: option.splits)
qed simp

text \<open>Writes under different keys commute, as far as any read can tell.\<close>

lemma put_commute:
  assumes "ok m" "k \<noteq> l" "put_all m [(k, v), (l, w)] = Inr a" "put_all m [(l, w), (k, v)] = Inr b"
  shows "get a j = get b j"
  using get_put_all [OF assms(1,3), of j] get_put_all [OF assms(1,4), of j] assms(2)
  by auto

end

text \<open>A plain map and a forked overlay both satisfy it.\<close>

fun writable :: "('k, 'v) rows \<Rightarrow> bool" where
  "writable (Memory m) = jm_wf m"
| "writable (Scoped g) = False"
| "writable (Overlay base own) = (rows_wf base \<and> jm_wf own)"

interpretation txn_rows: writable_rows writable rows_get rows_set
proof unfold_locales
  fix m :: "('a, 'b) rows" and k v
  assume "writable m"
  then show "\<exists>m'. rows_set m k v = Inr m' \<and> writable m'" by (cases m) auto
next
  fix m m' :: "('a, 'b) rows" and k v j
  assume "writable m" "rows_set m k v = Inr m'"
  then show "rows_get m' j = (if j = k then Inr (Some v) else rows_get m j)"
    by (cases m) auto
qed

interpretation map_rows: writable_rows jm_wf "\<lambda>m k. Inr (jm_get m k)" "\<lambda>m k v. Inr (jm_set m k v)"
  by unfold_locales auto

section \<open>Merging pending writes into a base result\<close>

definition merge_rows ::
  "'v list \<Rightarrow> ('k, 'v) jsmap \<Rightarrow> ('v \<Rightarrow> 'k) \<Rightarrow> ('v \<Rightarrow> bool) \<Rightarrow> 'v list" where
  "merge_rows base changed key P = jm_values (fold (\<lambda>(k, row) rows.
     if P row then jm_set rows k row else jm_delete rows k) changed
     (jm_of (map (\<lambda>row. (key row, row)) base)))"

text \<open>Rows stored under their own key.\<close>

definition keyed :: "('v \<Rightarrow> 'k) \<Rightarrow> ('k, 'v) jsmap \<Rightarrow> bool" where
  "keyed key m \<longleftrightarrow> jm_wf m \<and> (\<forall>(k, v) \<in> set m. key v = k)"

lemma keyed_Nil [simp]: "keyed key []"
  by (simp add: keyed_def)

lemma keyed_get: "keyed key m \<Longrightarrow> jm_get m k = Some v \<Longrightarrow> key v = k"
  by (auto simp: keyed_def dest: jm_get_mem)

lemma set_update_subset: "set (AList.update k v m) \<subseteq> insert (k, v) (set m)"
  by (induction m) auto

lemma keyed_set: "keyed key m \<Longrightarrow> keyed key (jm_set m (key v) v)"
  using set_update_subset [of "key v" v m] by (auto simp: keyed_def jm_set_def distinct_update jm_wf_def)

lemma keyed_values_iff:
  assumes "keyed key m"
  shows "v \<in> set (jm_values m) \<longleftrightarrow> jm_get m (key v) = Some v"
proof -
  have wf: "jm_wf m" using assms by (simp add: keyed_def)
  show ?thesis
    using keyed_get [OF assms] by (auto simp: jm_values_mem [OF wf])
qed

lemma jm_wf_delete: "jm_wf m \<Longrightarrow> jm_wf (jm_delete m k)"
  by (simp add: jm_wf_def jm_delete_def distinct_delete)

lemma jm_get_merge_fold:
  assumes "jm_wf changed"
  shows "jm_get (fold (\<lambda>(k, row) rows. if P row then jm_set rows k row else jm_delete rows k) changed m) j =
    (case jm_get changed j of Some row \<Rightarrow> if P row then Some row else None | None \<Rightarrow> jm_get m j)"
  using assms
proof (induction changed arbitrary: m)
  case (Cons kv rest)
  obtain k row where kv: "kv = (k, row)" by (cases kv)
  have wf: "jm_wf rest" and fresh: "jm_get rest k = None"
    using Cons.prems by (auto simp: kv jm_wf_def jm_get_def map_of_eq_None_iff)
  show ?case
    using Cons.IH [OF wf] fresh
    by (auto simp: kv jm_get_delete jm_get_def [of "(k, row) # rest"] jm_get_def [of rest, symmetric]
        split: option.splits)
qed simp

lemma jm_wf_merge_fold:
  "jm_wf m \<Longrightarrow> jm_wf (fold (\<lambda>(k, row) rows. if P row then jm_set rows k row else jm_delete rows k) changed m)"
  by (induction changed arbitrary: m) (auto simp: jm_wf_delete)

lemma jm_get_of_keyed:
  assumes "distinct (map key base)"
  shows "jm_get (jm_of (map (\<lambda>row. (key row, row)) base)) k = Some v \<longleftrightarrow> v \<in> set base \<and> key v = k"
proof -
  have wf: "jm_wf (map (\<lambda>row. (key row, row)) base)"
    using assms by (simp add: jm_wf_def comp_def)
  have "jm_get (jm_of (map (\<lambda>row. (key row, row)) base)) k = jm_get (map (\<lambda>row. (key row, row)) base) k"
    using map_of_rev_distinct [OF wf] by (simp add: jm_get_of)
  also have "\<dots> = Some v \<longleftrightarrow> (k, v) \<in> set (map (\<lambda>row. (key row, row)) base)"
    using jm_mem_get [OF wf, of k v] by simp
  finally show ?thesis by auto
qed

lemma merge_rows_set:
  assumes "distinct (map key base)" "keyed key changed"
  shows "set (merge_rows base changed key P) =
    {v. P v \<and> jm_get changed (key v) = Some v} \<union> {v \<in> set base. jm_get changed (key v) = None}"
proof -
  let ?m = "jm_of (map (\<lambda>row. (key row, row)) base)"
  let ?f = "fold (\<lambda>(k, row) rows. if P row then jm_set rows k row else jm_delete rows k) changed ?m"
  have wf: "jm_wf ?f" by (rule jm_wf_merge_fold) simp
  have "v \<in> set (merge_rows base changed key P) \<longleftrightarrow> (\<exists>k. jm_get ?f k = Some v)" for v
    by (simp add: merge_rows_def jm_values_mem [OF wf])
  moreover have "jm_get ?f k = Some v \<longleftrightarrow>
      (jm_get changed k = Some v \<and> P v \<or> jm_get changed k = None \<and> v \<in> set base \<and> key v = k)" for k v
    using assms(2) by (auto simp: jm_get_merge_fold keyed_def jm_get_of_keyed [OF assms(1)] split: option.splits)
  ultimately show ?thesis
    using keyed_get [OF assms(2)] by (auto; metis)
qed

text \<open>Storing a list of rows, each under its own key.\<close>

definition upsert :: "('v \<Rightarrow> 'k) \<Rightarrow> 'v list \<Rightarrow> ('k, 'v) jsmap \<Rightarrow> ('k, 'v) jsmap" where
  "upsert key xs m = fold (\<lambda>x m. jm_set m (key x) x) xs m"

lemma upsert_Nil [simp]: "upsert key [] m = m"
  by (simp add: upsert_def)

lemma upsert_Cons: "upsert key (x # xs) m = upsert key xs (jm_set m (key x) x)"
  by (simp add: upsert_def)

lemma upsert_snoc [simp]: "upsert key (xs @ [x]) m = jm_set (upsert key xs m) (key x) x"
  by (simp add: upsert_def)

lemma upsert_keyed: "keyed key m \<Longrightarrow> keyed key (upsert key xs m)"
  by (induction xs arbitrary: m) (auto simp: upsert_Cons intro: keyed_set)

lemma upsert_other: "k \<notin> key ` set xs \<Longrightarrow> jm_get (upsert key xs m) k = jm_get m k"
  by (induction xs arbitrary: m) (auto simp: upsert_Cons)

lemma upsert_get:
  "distinct (map key xs) \<Longrightarrow> x \<in> set xs \<Longrightarrow> jm_get (upsert key xs m) (key x) = Some x"
  by (induction xs arbitrary: m) (auto simp: upsert_Cons upsert_other)

lemma upsert_SomeD:
  "jm_get (upsert key xs m) k = Some v \<Longrightarrow> v \<in> set xs \<and> key v = k \<or> k \<notin> key ` set xs \<and> jm_get m k = Some v"
proof (induction xs rule: rev_induct)
  case (snoc x xs)
  then show ?case by (cases "key x = k") auto
qed simp

lemma upsert_cases:
  assumes "jm_get (upsert key xs m) k = Some v"
  obtains (new) "v \<in> set xs" "key v = k" | (old) "k \<notin> key ` set xs" "jm_get m k = Some v"
  using upsert_SomeD [OF assms] by blast

lemma upsert_has: "jm_has m k \<Longrightarrow> jm_has (upsert key xs m) k"
  by (induction xs arbitrary: m) (auto simp: upsert_Cons)

text \<open>The pending writes are again rows under their own key.\<close>

fun rows_keyed :: "('v \<Rightarrow> 'k) \<Rightarrow> ('k, 'v) rows \<Rightarrow> bool" where
  "rows_keyed key (Memory m) = keyed key m"
| "rows_keyed key (Scoped g) = (\<forall>k v. g k = Inr (Some v) \<longrightarrow> key v = k)"
| "rows_keyed key (Overlay base own) = (rows_keyed key base \<and> keyed key own)"

lemma rows_keyed_wf: "rows_keyed key r \<Longrightarrow> rows_wf r"
  by (induction r) (auto simp: keyed_def)

lemma rows_keyed_get: "rows_keyed key r \<Longrightarrow> rows_get r k = Inr (Some v) \<Longrightarrow> key v = k"
  by (induction r) (auto simp: jm_has_def dest: keyed_get split: if_splits)

lemma rows_keyed_set: "rows_keyed key r \<Longrightarrow> rows_set r (key v) v = Inr r' \<Longrightarrow> rows_keyed key r'"
  by (cases r) (auto intro: keyed_set)

lemma keyed_of:
  assumes "\<And>k v. map_of (rev kvs) k = Some v \<Longrightarrow> key v = k"
  shows "keyed key (jm_of kvs)"
  using assms by (auto simp: keyed_def jm_mem_get jm_get_of)

lemma writes_keyed: "rows_keyed key r \<Longrightarrow> keyed key (writes r)"
proof (induction r)
  case (Overlay base own)
  then have own: "map_of (rev own) = jm_get own" and kb: "keyed key (writes base)" "keyed key own"
    by (auto simp: map_of_rev_distinct keyed_def)
  show ?case
    using keyed_get [OF kb(1)] keyed_get [OF kb(2)] map_of_rev_distinct [OF writes_wf [of base]]
    by (auto intro!: keyed_of simp: map_add_def own split: option.splits)
qed simp_all

text \<open>
  The query theorem: when the base result lists exactly the matching rows below the overlays,
  merging the writes lists exactly the matching rows a lookup can see.
\<close>

lemma merge_rows_visible:
  assumes keyed: "rows_keyed key r"
    and base: "distinct (map key base)"
      "\<And>v. v \<in> set base \<longleftrightarrow> P v \<and> rows_get (root_rows r) (key v) = Inr (Some v)"
  shows "set (merge_rows base (writes r) key P) = {v. P v \<and> rows_get r (key v) = Inr (Some v)}"
proof -
  have "P v \<and> jm_get (writes r) (key v) = Some v \<or> v \<in> set base \<and> jm_get (writes r) (key v) = None
      \<longleftrightarrow> P v \<and> rows_get r (key v) = Inr (Some v)" for v
    using rows_get_writes [OF rows_keyed_wf [OF keyed], of "key v"] base(2) [of v]
    by (cases "jm_get (writes r) (key v)") auto
  then show ?thesis
    by (intro set_eqI) (simp only: merge_rows_set [OF base(1) writes_keyed [OF keyed]] Un_iff mem_Collect_eq)
qed

text \<open>In memory the base already contains the writes; merging them again changes nothing.\<close>

lemma merge_rows_memory:
  assumes keyed: "rows_keyed key r" and m: "memoryRows r = Inr m"
  shows "set (merge_rows (filter P (jm_values m)) (writes r) key P) =
    {v. P v \<and> rows_get r (key v) = Inr (Some v)}"
proof -
  have wf: "rows_wf r" "jm_wf m"
    using rows_keyed_wf [OF keyed] memoryRows_wf [OF _ m] by auto
  have get: "rows_get r k = Inr (jm_get m k)" for k by (rule memoryRows_get [OF wf(1) m])
  have km: "keyed key m"
    using wf(2) rows_keyed_get [OF keyed] by (auto simp: keyed_def jm_mem_get get)
  have dist: "distinct (map key (filter P (jm_values m)))"
  proof -
    have "map key (jm_values m) = map fst m"
      using km by (auto simp: keyed_def jm_values_def)
    then have "distinct (map key (jm_values m))" using wf(2) by (simp add: jm_wf_def)
    then show ?thesis by (simp add: distinct_map_filter)
  qed
  have "P v \<and> jm_get (writes r) (key v) = Some v \<or>
      v \<in> set (filter P (jm_values m)) \<and> jm_get (writes r) (key v) = None
      \<longleftrightarrow> P v \<and> rows_get r (key v) = Inr (Some v)" for v
    using keyed_values_iff [OF km, of v] rows_get_writes [OF wf(1), of "key v"]
    by (cases "jm_get (writes r) (key v)") (auto simp: get)
  then show ?thesis
    by (intro set_eqI) (simp only: merge_rows_set [OF dist writes_keyed [OF keyed]] Un_iff mem_Collect_eq)
qed

end
