(* ===== verification/Session_View.thy ===== *)
theory Session_View
  imports Session_Rows
begin

text \<open>
  The reducer workspace and its scoped queries (\<^verbatim>\<open>session-mutation.ts\<close>, second half).
  \<open>transaction\<close> is the general workspace: rows over any base and an optional source.
  \<open>workspace\<close> is the materialised one every reducer starts from and returns in memory; the
  reducers are modelled on it, since forking it, writing and materialising again is writing
  into it directly (\<open>fork_put\<close>) and its queries are plain filters (\<open>memory_queries\<close>). For a
  transaction over a store the locale \<open>session_source\<close> proves the same answers.
\<close>

section \<open>Workspaces\<close>

record workspace =
  ws_session :: session
  ws_generations :: "id list"
  ws_commands :: "(id, command_record) jsmap"
  ws_events :: "event list"
  ws_interactions :: "(id, interaction) jsmap"
  ws_deliveries :: "(id, delivery) jsmap"
  ws_surfaces :: "(id, surface_state) jsmap"

record read_view =
  rv_command :: "id \<Rightarrow> command_record option result"
  rv_event :: "id \<Rightarrow> event option result"
  rv_interaction :: "id \<Rightarrow> interaction option result"
  rv_surface :: "id \<Rightarrow> surface_state option result"
  rv_delivery :: "id \<Rightarrow> delivery option result"
  rv_hasEvent :: "id \<Rightarrow> bool result"
  rv_hasAttempt :: "id \<Rightarrow> bool result"
  rv_commandsInStates :: "state_tag list \<Rightarrow> command_record list result"
  rv_commandsForNativeTurn ::
    "id option \<Rightarrow> id option \<Rightarrow> id option \<Rightarrow> id option \<Rightarrow> command_record list result"
  rv_interactionForCallback :: "id \<Rightarrow> id \<Rightarrow> interaction option result"
  rv_interactionsForCommand :: "id option \<Rightarrow> interaction list result"
  rv_surfacesForInteraction :: "id option \<Rightarrow> surface_state list result"
  rv_deliveriesInStates :: "delivery_status list \<Rightarrow> delivery list result"
  rv_hasNotSubmittedReconciliation :: "id \<Rightarrow> bool result"

record transaction =
  tx_source :: "read_view option"
  tx_session :: session
  tx_generations :: "id list"
  tx_commands :: "(id, command_record) rows"
  tx_interactions :: "(id, interaction) rows"
  tx_surfaces :: "(id, surface_state) rows"
  tx_deliveries :: "(id, delivery) rows"
  tx_events :: "event list"

definition readResult :: "'a result \<Rightarrow> row_error + 'a" where
  "readResult r = (case r of Inl f \<Rightarrow> Inl (Read_failure f) | Inr v \<Rightarrow> Inr v)"

definition forkState :: "transaction \<Rightarrow> transaction" where
  "forkState tx = tx\<lparr>tx_commands := Overlay (tx_commands tx) [],
     tx_interactions := Overlay (tx_interactions tx) [],
     tx_surfaces := Overlay (tx_surfaces tx) [],
     tx_deliveries := Overlay (tx_deliveries tx) []\<rparr>"

definition memory_transaction :: "workspace \<Rightarrow> transaction" where
  "memory_transaction w = \<lparr>tx_source = None, tx_session = ws_session w,
     tx_generations = ws_generations w, tx_commands = Memory (ws_commands w),
     tx_interactions = Memory (ws_interactions w), tx_surfaces = Memory (ws_surfaces w),
     tx_deliveries = Memory (ws_deliveries w), tx_events = ws_events w\<rparr>"

text \<open>\<^verbatim>\<open>memoryState\<close>: without a source every row map is copied out.\<close>

definition memoryState :: "transaction \<Rightarrow> row_error + transaction" where
  "memoryState tx = (if tx_source tx \<noteq> None then Inr tx
     else and_then (memoryRows (tx_commands tx)) (\<lambda>c.
       and_then (memoryRows (tx_interactions tx)) (\<lambda>i.
       and_then (memoryRows (tx_surfaces tx)) (\<lambda>s.
       and_then (memoryRows (tx_deliveries tx)) (\<lambda>d.
         Inr (tx\<lparr>tx_commands := Memory c, tx_interactions := Memory i,
                 tx_surfaces := Memory s, tx_deliveries := Memory d\<rparr>))))))"

record session_delta =
  sd_session :: session
  sd_generations :: "id list"
  sd_commands :: "command_record list"
  sd_events :: "event list"
  sd_interactions :: "interaction list"
  sd_surfaces :: "surface_state list"
  sd_deliveries :: "delivery list"

definition transactionDelta :: "transaction \<Rightarrow> transaction \<Rightarrow> session_delta" where
  "transactionDelta before after = \<lparr>sd_session = tx_session after,
     sd_generations = filter (\<lambda>g. g \<notin> set (tx_generations before)) (tx_generations after),
     sd_commands = jm_values (writes (tx_commands after)),
     sd_events = drop (length (tx_events before)) (tx_events after),
     sd_interactions = jm_values (writes (tx_interactions after)),
     sd_surfaces = jm_values (writes (tx_surfaces after)),
     sd_deliveries = jm_values (writes (tx_deliveries after))\<rparr>"

section \<open>Row predicates of the queries\<close>

definition in_states :: "state_tag list \<Rightarrow> command_record \<Rightarrow> bool" where
  "in_states tags c = (state_of c \<in> set tags)"

definition native_turn ::
  "id option \<Rightarrow> id option \<Rightarrow> id option \<Rightarrow> id option \<Rightarrow> command_record \<Rightarrow> bool" where
  "native_turn ses thread run req c = (case dispatch c of
     None \<Rightarrow> False
   | Some d \<Rightarrow> Some (da_nativeSessionId d) = ses \<and> da_nativeThreadId d = thread \<and>
       da_nativeRunId d = run \<and> (run \<noteq> None \<or> da_nativeRequestId d = req))"

definition for_callback :: "id \<Rightarrow> id \<Rightarrow> interaction \<Rightarrow> bool" where
  "for_callback gen callback i \<longleftrightarrow> ia_generation i = gen \<and> nativeCallbackId i = callback"

definition for_command :: "id option \<Rightarrow> interaction \<Rightarrow> bool" where
  "for_command c i = (case c of None \<Rightarrow> True | Some c \<Rightarrow> ia_commandId i = c)"

definition for_interaction :: "id option \<Rightarrow> surface_state \<Rightarrow> bool" where
  "for_interaction c s = (case c of None \<Rightarrow> True | Some i \<Rightarrow> sf_interactionId s = i)"

definition in_statuses :: "delivery_status list \<Rightarrow> delivery \<Rightarrow> bool" where
  "in_statuses sts d = (dl_status d \<in> set sts)"

definition not_submitted_for :: "id \<Rightarrow> event \<Rightarrow> bool" where
  "not_submitted_for c e \<longleftrightarrow> ev_commandId e = Some c \<and>
     (case body e of Reconciled d r \<Rightarrow> r = R_not_submitted | _ \<Rightarrow> False)"

section \<open>The read view of a transaction\<close>

definition view_rows ::
  "read_view option \<Rightarrow> (read_view \<Rightarrow> 'v list result) \<Rightarrow> (id, 'v) rows \<Rightarrow> ('v \<Rightarrow> id) \<Rightarrow> ('v \<Rightarrow> bool)
     \<Rightarrow> row_error + 'v list" where
  "view_rows src q rows key P = and_then
     (case src of
        Some v \<Rightarrow> readResult (q v)
      | None \<Rightarrow> and_then (memoryRows rows) (\<lambda>m. Inr (filter P (jm_values m))))
     (\<lambda>base. Inr (merge_rows base (writes rows) key P))"

text \<open>A test on the pending events first, then on the source.\<close>

definition view_exists ::
  "read_view option \<Rightarrow> (read_view \<Rightarrow> bool result) \<Rightarrow> event list \<Rightarrow> (event \<Rightarrow> bool) \<Rightarrow> row_error + bool" where
  "view_exists src q es P = (if list_ex P es then Inr True
     else case src of Some v \<Rightarrow> readResult (q v) | None \<Rightarrow> Inr False)"

definition view_event :: "transaction \<Rightarrow> id \<Rightarrow> row_error + event option" where
  "view_event tx i = (case find (\<lambda>e. eventId e = i) (tx_events tx) of
     Some e \<Rightarrow> Inr (Some e)
   | None \<Rightarrow> (case tx_source tx of Some v \<Rightarrow> readResult (rv_event v i) | None \<Rightarrow> Inr None))"

definition view_hasEvent :: "transaction \<Rightarrow> id \<Rightarrow> row_error + bool" where
  "view_hasEvent tx i = view_exists (tx_source tx) (\<lambda>v. rv_hasEvent v i) (tx_events tx) (\<lambda>e. eventId e = i)"

definition view_hasAttempt :: "transaction \<Rightarrow> id \<Rightarrow> row_error + bool" where
  "view_hasAttempt tx i =
     view_exists (tx_source tx) (\<lambda>v. rv_hasAttempt v i) (tx_events tx) (\<lambda>e. ev_attemptId e = Some i)"

definition view_commandsInStates :: "transaction \<Rightarrow> state_tag list \<Rightarrow> row_error + command_record list" where
  "view_commandsInStates tx tags = view_rows (tx_source tx) (\<lambda>v. rv_commandsInStates v tags)
     (tx_commands tx) record_id (in_states tags)"

definition view_commandsForNativeTurn ::
  "transaction \<Rightarrow> id option \<Rightarrow> id option \<Rightarrow> id option \<Rightarrow> id option \<Rightarrow> row_error + command_record list" where
  "view_commandsForNativeTurn tx ses thread run req = view_rows (tx_source tx)
     (\<lambda>v. rv_commandsForNativeTurn v ses thread run req)
     (tx_commands tx) record_id (native_turn ses thread run req)"

definition view_interactionForCallback :: "transaction \<Rightarrow> id \<Rightarrow> id \<Rightarrow> row_error + interaction option" where
  "view_interactionForCallback tx gen callback = and_then
     (view_rows (tx_source tx)
        (\<lambda>v. and_then (rv_interactionForCallback v gen callback)
           (\<lambda>old. Inr (case old of Some i \<Rightarrow> [i] | None \<Rightarrow> [])))
        (tx_interactions tx) interactionId (for_callback gen callback))
     (\<lambda>found. Inr (case found of [] \<Rightarrow> None | i # _ \<Rightarrow> Some i))"

definition view_interactionsForCommand :: "transaction \<Rightarrow> id option \<Rightarrow> row_error + interaction list" where
  "view_interactionsForCommand tx c = view_rows (tx_source tx) (\<lambda>v. rv_interactionsForCommand v c)
     (tx_interactions tx) interactionId (for_command c)"

definition view_surfacesForInteraction :: "transaction \<Rightarrow> id option \<Rightarrow> row_error + surface_state list" where
  "view_surfacesForInteraction tx i = view_rows (tx_source tx) (\<lambda>v. rv_surfacesForInteraction v i)
     (tx_surfaces tx) surfaceInstanceId (for_interaction i)"

definition view_deliveriesInStates :: "transaction \<Rightarrow> delivery_status list \<Rightarrow> row_error + delivery list" where
  "view_deliveriesInStates tx sts = view_rows (tx_source tx) (\<lambda>v. rv_deliveriesInStates v sts)
     (tx_deliveries tx) operationId (in_statuses sts)"

definition view_hasNotSubmittedReconciliation :: "transaction \<Rightarrow> id \<Rightarrow> row_error + bool" where
  "view_hasNotSubmittedReconciliation tx c = view_exists (tx_source tx)
     (\<lambda>v. rv_hasNotSubmittedReconciliation v c) (tx_events tx) (not_submitted_for c)"

section \<open>The queries of a materialised workspace\<close>

definition hasEvent :: "workspace \<Rightarrow> id \<Rightarrow> bool" where
  "hasEvent w i = list_ex (\<lambda>e. eventId e = i) (ws_events w)"

definition find_event :: "workspace \<Rightarrow> id \<Rightarrow> event option" where
  "find_event w i = find (\<lambda>e. eventId e = i) (ws_events w)"

definition hasAttempt :: "workspace \<Rightarrow> id \<Rightarrow> bool" where
  "hasAttempt w i = list_ex (\<lambda>e. ev_attemptId e = Some i) (ws_events w)"

definition commandsInStates :: "workspace \<Rightarrow> state_tag list \<Rightarrow> command_record list" where
  "commandsInStates w tags = filter (in_states tags) (jm_values (ws_commands w))"

definition commandsForNativeTurn ::
  "workspace \<Rightarrow> id option \<Rightarrow> id option \<Rightarrow> id option \<Rightarrow> id option \<Rightarrow> command_record list" where
  "commandsForNativeTurn w ses thread run req =
     filter (native_turn ses thread run req) (jm_values (ws_commands w))"

definition interactionForCallback :: "workspace \<Rightarrow> id \<Rightarrow> id \<Rightarrow> interaction option" where
  "interactionForCallback w gen callback = find (for_callback gen callback) (jm_values (ws_interactions w))"

definition interactionsForCommand :: "workspace \<Rightarrow> id option \<Rightarrow> interaction list" where
  "interactionsForCommand w c = filter (for_command c) (jm_values (ws_interactions w))"

definition surfacesForInteraction :: "workspace \<Rightarrow> id option \<Rightarrow> surface_state list" where
  "surfacesForInteraction w i = filter (for_interaction i) (jm_values (ws_surfaces w))"

definition deliveriesInStates :: "workspace \<Rightarrow> delivery_status list \<Rightarrow> delivery list" where
  "deliveriesInStates w sts = filter (in_statuses sts) (jm_values (ws_deliveries w))"

definition hasNotSubmittedReconciliation :: "workspace \<Rightarrow> id \<Rightarrow> bool" where
  "hasNotSubmittedReconciliation w c = list_ex (not_submitted_for c) (ws_events w)"

text \<open>Every row is stored under its own key.\<close>

definition ws_keyed :: "workspace \<Rightarrow> bool" where
  "ws_keyed w \<longleftrightarrow> keyed record_id (ws_commands w) \<and> keyed interactionId (ws_interactions w) \<and>
     keyed surfaceInstanceId (ws_surfaces w) \<and> keyed operationId (ws_deliveries w)"

lemma map_key_values: "keyed key m \<Longrightarrow> map key (jm_values m) = map fst m"
  by (auto simp: keyed_def jm_values_def)

lemma keyed_values_distinct: "keyed key m \<Longrightarrow> distinct (map key (jm_values m))"
  by (simp add: map_key_values) (simp add: keyed_def jm_wf_def)

lemma jm_of_distinct: "jm_wf m \<Longrightarrow> jm_of m = m"
proof -
  have gen: "jm_wf (xs @ m) \<Longrightarrow> fold (\<lambda>(k, v) m. jm_set m k v) m xs = xs @ m" for xs m :: "('a \<times> 'b) list"
  proof (induction m arbitrary: xs)
    case (Cons kv m)
    obtain k v where kv: "kv = (k, v)" by (cases kv)
    have "jm_get xs k = None"
      using Cons.prems by (auto simp: kv jm_wf_def jm_get_def map_of_eq_None_iff)
    then show ?case
      using Cons.IH [of "xs @ [kv]"] Cons.prems by (simp add: kv jm_set_absent)
  qed simp
  assume "jm_wf m"
  then show ?thesis using gen [of "[]" m] by (simp add: jm_of_def)
qed

lemma merge_rows_nothing:
  "distinct (map key base) \<Longrightarrow> merge_rows base [] key P = base"
  by (simp add: merge_rows_def jm_of_distinct jm_wf_def comp_def jm_values_def)

lemma view_rows_memory:
  assumes "keyed key m"
  shows "view_rows None q (Memory m) key P = Inr (filter P (jm_values m))"
  using keyed_values_distinct [OF assms]
  by (simp add: view_rows_def merge_rows_nothing distinct_map_filter)

lemma head_filter: "(case filter P xs of [] \<Rightarrow> None | x # _ \<Rightarrow> Some x) = find P xs"
  by (induction xs) auto

text \<open>On a materialised workspace the read view is the plain filter, list for list.\<close>

lemma memory_queries:
  assumes "ws_keyed w"
  shows "view_commandsInStates (memory_transaction w) tags = Inr (commandsInStates w tags)"
    and "view_commandsForNativeTurn (memory_transaction w) ses thread run req =
      Inr (commandsForNativeTurn w ses thread run req)"
    and "view_interactionForCallback (memory_transaction w) gen callback =
      Inr (interactionForCallback w gen callback)"
    and "view_interactionsForCommand (memory_transaction w) c = Inr (interactionsForCommand w c)"
    and "view_surfacesForInteraction (memory_transaction w) i = Inr (surfacesForInteraction w i)"
    and "view_deliveriesInStates (memory_transaction w) sts = Inr (deliveriesInStates w sts)"
    and "view_event (memory_transaction w) e = Inr (find_event w e)"
    and "view_hasEvent (memory_transaction w) e = Inr (hasEvent w e)"
    and "view_hasAttempt (memory_transaction w) a = Inr (hasAttempt w a)"
    and "view_hasNotSubmittedReconciliation (memory_transaction w) k = Inr (hasNotSubmittedReconciliation w k)"
  using assms
  by (simp_all add: ws_keyed_def memory_transaction_def view_commandsInStates_def commandsInStates_def
      view_commandsForNativeTurn_def commandsForNativeTurn_def view_interactionForCallback_def
      interactionForCallback_def view_interactionsForCommand_def interactionsForCommand_def
      view_surfacesForInteraction_def surfacesForInteraction_def view_deliveriesInStates_def
      deliveriesInStates_def view_rows_memory head_filter view_event_def find_event_def
      view_exists_def view_hasEvent_def hasEvent_def view_hasAttempt_def hasAttempt_def
      view_hasNotSubmittedReconciliation_def hasNotSubmittedReconciliation_def
      split: option.splits)

section \<open>Fork, write, materialise\<close>

lemma jm_set_swap:
  "jm_get m k \<noteq> None \<Longrightarrow> j \<noteq> k \<Longrightarrow> jm_set (jm_set m j x) k v = jm_set (jm_set m k v) j x"
  by (induction m) (auto simp: jm_set_def jm_get_def split: if_splits)

lemma jm_set_twice: "jm_set (jm_set m k u) k v = jm_set m k v"
  by (induction m) (auto simp: jm_set_def)

lemma fold_set_present:
  "jm_get m k \<noteq> None \<Longrightarrow> jm_get own k = None \<Longrightarrow>
     jm_set (fold (\<lambda>(k, v) m. jm_set m k v) own m) k v = fold (\<lambda>(k, v) m. jm_set m k v) own (jm_set m k v)"
proof (induction own arbitrary: m)
  case (Cons jx own)
  obtain j x where jx: "jx = (j, x)" by (cases jx)
  have ne: "j \<noteq> k" and rest: "jm_get own k = None"
    using Cons.prems(2) by (auto simp: jx jm_get_def split: if_splits)
  have "jm_get (jm_set m j x) k \<noteq> None" using Cons.prems(1) ne by simp
  from Cons.IH [OF this rest] show ?case
    using jm_set_swap [OF Cons.prems(1) ne] by (simp add: jx)
qed simp

text \<open>Writing into the overlay and copying out is writing into the copy, order included.\<close>

lemma fold_set_put:
  "jm_wf own \<Longrightarrow> fold (\<lambda>(k, v) m. jm_set m k v) (jm_set own k v) m =
     jm_set (fold (\<lambda>(k, v) m. jm_set m k v) own m) k v"
proof (induction own arbitrary: m)
  case Nil
  then show ?case by (simp add: jm_set_def)
next
  case (Cons jx own)
  obtain j x where jx: "jx = (j, x)" by (cases jx)
  have wf: "jm_wf own" and fresh: "jm_get own j = None"
    using Cons.prems by (auto simp: jx jm_wf_def jm_get_def map_of_eq_None_iff)
  show ?case
  proof (cases "j = k")
    case True
    then show ?thesis
      using fold_set_present [of "jm_set m j x" k own v] fresh
      by (simp add: jx jm_set_def [of "(k, x) # own"] jm_set_twice)
  next
    case False
    then have "jm_set ((j, x) # own) k v = (j, x) # jm_set own k v" by (simp add: jm_set_def)
    then show ?thesis using Cons.IH [OF wf] by (simp add: jx)
  qed
qed

lemma fork_put:
  assumes "memoryRows (Overlay base own) = Inr m" "jm_wf own" "rows_set (Overlay base own) k v = Inr r"
  shows "memoryRows r = Inr (jm_set m k v)"
  using assms by (auto simp: fold_set_put)

lemma memory_fork: "memoryState (forkState (memory_transaction w)) = Inr (memory_transaction w)"
  by (simp add: memoryState_def forkState_def memory_transaction_def)

section \<open>The contract of a transaction source\<close>

text \<open>A query result lists exactly the rows of a map that satisfy a predicate, once each.\<close>

definition lists_rows :: "('v \<Rightarrow> 'k) \<Rightarrow> ('v \<Rightarrow> bool) \<Rightarrow> ('k, 'v) jsmap \<Rightarrow> 'v list result \<Rightarrow> bool" where
  "lists_rows key P m r \<longleftrightarrow> (\<exists>xs. r = Inr xs \<and> distinct (map key xs) \<and>
     set xs = {v \<in> set (jm_values m). P v})"

text \<open>
  \<open>content\<close> is the workspace a store holds, \<open>view\<close> the queries its transaction offers.
\<close>

lemma root_rows_set: "rows_set r k v = Inr r' \<Longrightarrow> root_rows r = Scoped g \<Longrightarrow> root_rows r' = Scoped g"
  by (cases r) auto

lemma find_keyed:
  assumes "keyed key m"
  shows "find (\<lambda>v. key v = k) (jm_values m) = jm_get m k"
proof (cases "jm_get m k")
  case None
  then have "\<forall>v \<in> set (jm_values m). key v \<noteq> k"
    using keyed_values_iff [OF assms] by fastforce
  with None show ?thesis by (simp add: find_absent)
next
  case (Some v)
  have "find (\<lambda>v. key v = k) (jm_values m) \<noteq> None"
    using jm_values_get [OF Some] keyed_get [OF assms Some] by (auto simp: find_None_iff)
  then obtain v' where v': "find (\<lambda>v. key v = k) (jm_values m) = Some v'" by auto
  then have "v' \<in> set (jm_values m)" "key v' = k" by (auto simp: find_Some_iff)
  then show ?thesis using keyed_values_iff [OF assms, of v'] v' Some by simp
qed

locale session_source =
  fixes ok :: "'db \<Rightarrow> bool"
    and content :: "'db \<Rightarrow> workspace"
    and view :: "'db \<Rightarrow> read_view"
  assumes content_keyed: "ok db \<Longrightarrow> ws_keyed (content db)"
    and command_row: "ok db \<Longrightarrow> rv_command (view db) k = Inr (jm_get (ws_commands (content db)) k)"
    and interaction_row:
      "ok db \<Longrightarrow> rv_interaction (view db) k = Inr (jm_get (ws_interactions (content db)) k)"
    and surface_row: "ok db \<Longrightarrow> rv_surface (view db) k = Inr (jm_get (ws_surfaces (content db)) k)"
    and delivery_row: "ok db \<Longrightarrow> rv_delivery (view db) k = Inr (jm_get (ws_deliveries (content db)) k)"
    and commands_states: "ok db \<Longrightarrow> lists_rows record_id (in_states tags) (ws_commands (content db))
      (rv_commandsInStates (view db) tags)"
    and commands_turn: "ok db \<Longrightarrow> lists_rows record_id (native_turn ses thread run req)
      (ws_commands (content db)) (rv_commandsForNativeTurn (view db) ses thread run req)"
    and interactions_command: "ok db \<Longrightarrow> lists_rows interactionId (for_command c)
      (ws_interactions (content db)) (rv_interactionsForCommand (view db) c)"
    and surfaces_interaction: "ok db \<Longrightarrow> lists_rows surfaceInstanceId (for_interaction i)
      (ws_surfaces (content db)) (rv_surfacesForInteraction (view db) i)"
    and deliveries_states: "ok db \<Longrightarrow> lists_rows operationId (in_statuses sts)
      (ws_deliveries (content db)) (rv_deliveriesInStates (view db) sts)"
    and event_row: "ok db \<Longrightarrow> rv_event (view db) e = Inr (find_event (content db) e)"
    and event_has: "ok db \<Longrightarrow> rv_hasEvent (view db) e = Inr (hasEvent (content db) e)"
    and attempt_has: "ok db \<Longrightarrow> rv_hasAttempt (view db) a = Inr (hasAttempt (content db) a)"
    and not_submitted_has: "ok db \<Longrightarrow> rv_hasNotSubmittedReconciliation (view db) k =
      Inr (hasNotSubmittedReconciliation (content db) k)"
begin

text \<open>The workspace a transaction over the store starts from: rows by key, no events.\<close>

definition store_transaction :: "'db \<Rightarrow> transaction" where
  "store_transaction db = (let v = view db; w = content db in
     \<lparr>tx_source = Some v, tx_session = ws_session w, tx_generations = ws_generations w,
      tx_commands = Scoped (\<lambda>k. readResult (rv_command v k)),
      tx_interactions = Scoped (\<lambda>k. readResult (rv_interaction v k)),
      tx_surfaces = Scoped (\<lambda>k. readResult (rv_surface v k)),
      tx_deliveries = Scoped (\<lambda>k. readResult (rv_delivery v k)),
      tx_events = []\<rparr>)"

text \<open>A transaction rooted in the store whose rows read like those of a memory workspace.\<close>

definition rooted :: "'db \<Rightarrow> transaction \<Rightarrow> bool" where
  "rooted db tx \<longleftrightarrow> tx_source tx = Some (view db) \<and>
     root_rows (tx_commands tx) = tx_commands (store_transaction db) \<and>
     root_rows (tx_interactions tx) = tx_interactions (store_transaction db) \<and>
     root_rows (tx_surfaces tx) = tx_surfaces (store_transaction db) \<and>
     root_rows (tx_deliveries tx) = tx_deliveries (store_transaction db) \<and>
     rows_keyed record_id (tx_commands tx) \<and> rows_keyed interactionId (tx_interactions tx) \<and>
     rows_keyed surfaceInstanceId (tx_surfaces tx) \<and> rows_keyed operationId (tx_deliveries tx)"

definition reads_like :: "transaction \<Rightarrow> workspace \<Rightarrow> bool" where
  "reads_like tx w \<longleftrightarrow> ws_keyed w \<and>
     (\<forall>k. rows_get (tx_commands tx) k = Inr (jm_get (ws_commands w) k)) \<and>
     (\<forall>k. rows_get (tx_interactions tx) k = Inr (jm_get (ws_interactions w) k)) \<and>
     (\<forall>k. rows_get (tx_surfaces tx) k = Inr (jm_get (ws_surfaces w) k)) \<and>
     (\<forall>k. rows_get (tx_deliveries tx) k = Inr (jm_get (ws_deliveries w) k))"

lemma content_keys:
  assumes "ok db"
  shows "keyed record_id (ws_commands (content db))" "keyed interactionId (ws_interactions (content db))"
    "keyed surfaceInstanceId (ws_surfaces (content db))" "keyed operationId (ws_deliveries (content db))"
  using content_keyed [OF assms] by (simp_all add: ws_keyed_def)

lemma view_rows_source:
  assumes listed: "lists_rows key P m (q v)" and km: "keyed key m" and kr: "rows_keyed key r"
    and root: "root_rows r = Scoped g" "\<And>k. g k = Inr (jm_get m k)"
    and kw: "keyed key n" and reads: "\<And>k. rows_get r k = Inr (jm_get n k)"
  shows "\<exists>xs. view_rows (Some v) q r key P = Inr xs \<and> set xs = set (filter P (jm_values n))"
proof -
  obtain base where base: "q v = Inr base" "distinct (map key base)"
    "set base = {v \<in> set (jm_values m). P v}"
    using listed by (auto simp: lists_rows_def)
  have "v \<in> set base \<longleftrightarrow> P v \<and> rows_get (root_rows r) (key v) = Inr (Some v)" for v
    using base(3) keyed_values_iff [OF km, of v] by (auto simp: root)
  from merge_rows_visible [OF kr base(2) this]
  have "set (merge_rows base (writes r) key P) = {v. P v \<and> rows_get r (key v) = Inr (Some v)}" .
  then show ?thesis
    using keyed_values_iff [OF kw] by (auto simp: view_rows_def readResult_def base(1) reads)
qed

lemma store_command_rows:
  assumes "ok db" "rooted db tx" "reads_like tx w"
    and listed: "lists_rows record_id P (ws_commands (content db)) (q (view db))"
  shows "\<exists>xs. view_rows (tx_source tx) q (tx_commands tx) record_id P = Inr xs \<and>
    set xs = set (filter P (jm_values (ws_commands w)))"
proof -
  have src: "tx_source tx = Some (view db)"
    and root: "root_rows (tx_commands tx) = Scoped (\<lambda>k. readResult (rv_command (view db) k))"
    and kr: "rows_keyed record_id (tx_commands tx)"
    using assms(2) by (simp_all add: rooted_def store_transaction_def Let_def)
  have reads: "rows_get (tx_commands tx) k = Inr (jm_get (ws_commands w) k)" and kw: "keyed record_id (ws_commands w)" for k
    using assms(3) by (simp_all add: reads_like_def ws_keyed_def)
  have row: "readResult (rv_command (view db) k) = Inr (jm_get (ws_commands (content db)) k)" for k
    using command_row [OF assms(1)] by (simp add: readResult_def)
  show ?thesis unfolding src
    by (rule view_rows_source [where q = q and m = "ws_commands (content db)",
        OF listed content_keys(1) [OF assms(1)] kr root row kw reads])
qed

lemma store_interaction_rows:
  assumes "ok db" "rooted db tx" "reads_like tx w"
    and listed: "lists_rows interactionId P (ws_interactions (content db)) (q (view db))"
  shows "\<exists>xs. view_rows (tx_source tx) q (tx_interactions tx) interactionId P = Inr xs \<and>
    set xs = set (filter P (jm_values (ws_interactions w)))"
proof -
  have src: "tx_source tx = Some (view db)"
    and root: "root_rows (tx_interactions tx) = Scoped (\<lambda>k. readResult (rv_interaction (view db) k))"
    and kr: "rows_keyed interactionId (tx_interactions tx)"
    using assms(2) by (simp_all add: rooted_def store_transaction_def Let_def)
  have reads: "rows_get (tx_interactions tx) k = Inr (jm_get (ws_interactions w) k)" and kw: "keyed interactionId (ws_interactions w)" for k
    using assms(3) by (simp_all add: reads_like_def ws_keyed_def)
  have row: "readResult (rv_interaction (view db) k) = Inr (jm_get (ws_interactions (content db)) k)" for k
    using interaction_row [OF assms(1)] by (simp add: readResult_def)
  show ?thesis unfolding src
    by (rule view_rows_source [where q = q and m = "ws_interactions (content db)",
        OF listed content_keys(2) [OF assms(1)] kr root row kw reads])
qed

lemma store_surface_rows:
  assumes "ok db" "rooted db tx" "reads_like tx w"
    and listed: "lists_rows surfaceInstanceId P (ws_surfaces (content db)) (q (view db))"
  shows "\<exists>xs. view_rows (tx_source tx) q (tx_surfaces tx) surfaceInstanceId P = Inr xs \<and>
    set xs = set (filter P (jm_values (ws_surfaces w)))"
proof -
  have src: "tx_source tx = Some (view db)"
    and root: "root_rows (tx_surfaces tx) = Scoped (\<lambda>k. readResult (rv_surface (view db) k))"
    and kr: "rows_keyed surfaceInstanceId (tx_surfaces tx)"
    using assms(2) by (simp_all add: rooted_def store_transaction_def Let_def)
  have reads: "rows_get (tx_surfaces tx) k = Inr (jm_get (ws_surfaces w) k)" and kw: "keyed surfaceInstanceId (ws_surfaces w)" for k
    using assms(3) by (simp_all add: reads_like_def ws_keyed_def)
  have row: "readResult (rv_surface (view db) k) = Inr (jm_get (ws_surfaces (content db)) k)" for k
    using surface_row [OF assms(1)] by (simp add: readResult_def)
  show ?thesis unfolding src
    by (rule view_rows_source [where q = q and m = "ws_surfaces (content db)",
        OF listed content_keys(3) [OF assms(1)] kr root row kw reads])
qed

lemma store_delivery_rows:
  assumes "ok db" "rooted db tx" "reads_like tx w"
    and listed: "lists_rows operationId P (ws_deliveries (content db)) (q (view db))"
  shows "\<exists>xs. view_rows (tx_source tx) q (tx_deliveries tx) operationId P = Inr xs \<and>
    set xs = set (filter P (jm_values (ws_deliveries w)))"
proof -
  have src: "tx_source tx = Some (view db)"
    and root: "root_rows (tx_deliveries tx) = Scoped (\<lambda>k. readResult (rv_delivery (view db) k))"
    and kr: "rows_keyed operationId (tx_deliveries tx)"
    using assms(2) by (simp_all add: rooted_def store_transaction_def Let_def)
  have reads: "rows_get (tx_deliveries tx) k = Inr (jm_get (ws_deliveries w) k)" and kw: "keyed operationId (ws_deliveries w)" for k
    using assms(3) by (simp_all add: reads_like_def ws_keyed_def)
  have row: "readResult (rv_delivery (view db) k) = Inr (jm_get (ws_deliveries (content db)) k)" for k
    using delivery_row [OF assms(1)] by (simp add: readResult_def)
  show ?thesis unfolding src
    by (rule view_rows_source [where q = q and m = "ws_deliveries (content db)",
        OF listed content_keys(4) [OF assms(1)] kr root row kw reads])
qed

text \<open>Over a store the queries answer what they answer on the materialised workspace.\<close>

lemma store_commandsInStates:
  assumes "ok db" "rooted db tx" "reads_like tx w"
  shows "\<exists>xs. view_commandsInStates tx tags = Inr xs \<and> set xs = set (commandsInStates w tags)"
  unfolding view_commandsInStates_def commandsInStates_def
  by (rule store_command_rows [OF assms]) (rule commands_states [OF assms(1)])

lemma store_commandsForNativeTurn:
  assumes "ok db" "rooted db tx" "reads_like tx w"
  shows "\<exists>xs. view_commandsForNativeTurn tx ses thread run req = Inr xs \<and> set xs = set (commandsForNativeTurn w ses thread run req)"
  unfolding view_commandsForNativeTurn_def commandsForNativeTurn_def
  by (rule store_command_rows [OF assms]) (rule commands_turn [OF assms(1)])

lemma store_interactionsForCommand:
  assumes "ok db" "rooted db tx" "reads_like tx w"
  shows "\<exists>xs. view_interactionsForCommand tx c = Inr xs \<and> set xs = set (interactionsForCommand w c)"
  unfolding view_interactionsForCommand_def interactionsForCommand_def
  by (rule store_interaction_rows [OF assms]) (rule interactions_command [OF assms(1)])

lemma store_surfacesForInteraction:
  assumes "ok db" "rooted db tx" "reads_like tx w"
  shows "\<exists>xs. view_surfacesForInteraction tx i = Inr xs \<and> set xs = set (surfacesForInteraction w i)"
  unfolding view_surfacesForInteraction_def surfacesForInteraction_def
  by (rule store_surface_rows [OF assms]) (rule surfaces_interaction [OF assms(1)])

lemma store_deliveriesInStates:
  assumes "ok db" "rooted db tx" "reads_like tx w"
  shows "\<exists>xs. view_deliveriesInStates tx sts = Inr xs \<and> set xs = set (deliveriesInStates w sts)"
  unfolding view_deliveriesInStates_def deliveriesInStates_def
  by (rule store_delivery_rows [OF assms]) (rule deliveries_states [OF assms(1)])

text \<open>A fresh fork of the store reads like its content, and writes keep the two in step.\<close>

lemma rooted_fork:
  assumes "ok db"
  shows "rooted db (forkState (store_transaction db))"
    and "reads_like (forkState (store_transaction db)) (content db)"
  using content_keyed [OF assms] command_row [OF assms] interaction_row [OF assms]
    surface_row [OF assms] delivery_row [OF assms] content_keys [OF assms]
  by (auto simp: rooted_def reads_like_def forkState_def store_transaction_def Let_def readResult_def
      jm_has_def dest: keyed_get)

lemma write_command:
  assumes "rooted db tx" "reads_like tx w" "writable (tx_commands tx)"
    and "rows_set (tx_commands tx) (record_id row) row = Inr r"
  shows "rooted db (tx\<lparr>tx_commands := r\<rparr>)"
    and "reads_like (tx\<lparr>tx_commands := r\<rparr>) (w\<lparr>ws_commands := jm_set (ws_commands w) (record_id row) row\<rparr>)"
  using assms root_rows_set [OF assms(4)] rows_keyed_set [where key = record_id, OF _ assms(4)] txn_rows.get_put [OF assms(3,4)]
  by (simp_all add: rooted_def reads_like_def ws_keyed_def keyed_set keyed_set [where key = record_id]
      store_transaction_def Let_def)

lemma write_interaction:
  assumes "rooted db tx" "reads_like tx w" "writable (tx_interactions tx)"
    and "rows_set (tx_interactions tx) (interactionId row) row = Inr r"
  shows "rooted db (tx\<lparr>tx_interactions := r\<rparr>)"
    and "reads_like (tx\<lparr>tx_interactions := r\<rparr>) (w\<lparr>ws_interactions := jm_set (ws_interactions w) (interactionId row) row\<rparr>)"
  using assms root_rows_set [OF assms(4)] rows_keyed_set [where key = interactionId, OF _ assms(4)] txn_rows.get_put [OF assms(3,4)]
  by (simp_all add: rooted_def reads_like_def ws_keyed_def keyed_set keyed_set [where key = record_id]
      store_transaction_def Let_def)

lemma write_surface:
  assumes "rooted db tx" "reads_like tx w" "writable (tx_surfaces tx)"
    and "rows_set (tx_surfaces tx) (surfaceInstanceId row) row = Inr r"
  shows "rooted db (tx\<lparr>tx_surfaces := r\<rparr>)"
    and "reads_like (tx\<lparr>tx_surfaces := r\<rparr>) (w\<lparr>ws_surfaces := jm_set (ws_surfaces w) (surfaceInstanceId row) row\<rparr>)"
  using assms root_rows_set [OF assms(4)] rows_keyed_set [where key = surfaceInstanceId, OF _ assms(4)] txn_rows.get_put [OF assms(3,4)]
  by (simp_all add: rooted_def reads_like_def ws_keyed_def keyed_set keyed_set [where key = record_id]
      store_transaction_def Let_def)

lemma write_delivery:
  assumes "rooted db tx" "reads_like tx w" "writable (tx_deliveries tx)"
    and "rows_set (tx_deliveries tx) (operationId row) row = Inr r"
  shows "rooted db (tx\<lparr>tx_deliveries := r\<rparr>)"
    and "reads_like (tx\<lparr>tx_deliveries := r\<rparr>) (w\<lparr>ws_deliveries := jm_set (ws_deliveries w) (operationId row) row\<rparr>)"
  using assms root_rows_set [OF assms(4)] rows_keyed_set [where key = operationId, OF _ assms(4)] txn_rows.get_put [OF assms(3,4)]
  by (simp_all add: rooted_def reads_like_def ws_keyed_def keyed_set keyed_set [where key = record_id]
      store_transaction_def Let_def)

text \<open>Event questions look at the pending events, then at the stored ones.\<close>

lemma store_events:
  assumes "ok db" "rooted db tx" "ws_events w = ws_events (content db) @ tx_events tx"
  shows "view_hasEvent tx e = Inr (hasEvent w e)"
    and "view_hasAttempt tx a = Inr (hasAttempt w a)"
    and "view_hasNotSubmittedReconciliation tx k = Inr (hasNotSubmittedReconciliation w k)"
  using assms event_has [OF assms(1)] attempt_has [OF assms(1)] not_submitted_has [OF assms(1)]
  by (auto simp: rooted_def view_hasEvent_def view_hasAttempt_def view_hasNotSubmittedReconciliation_def
      view_exists_def readResult_def hasEvent_def hasAttempt_def hasNotSubmittedReconciliation_def)

text \<open>
  The delta of a transaction, upserted over what the store holds, is the workspace the
  reducer computed.
\<close>

lemma delta_commands:
  assumes "ok db" "rooted db tx" "reads_like tx w"
  shows "jm_get (ws_commands w) k =
    (case find (\<lambda>c. record_id c = k) (sd_commands (transactionDelta before tx)) of
       Some c \<Rightarrow> Some c | None \<Rightarrow> jm_get (ws_commands (content db)) k)"
proof -
  have kr: "rows_keyed record_id (tx_commands tx)"
    and root: "root_rows (tx_commands tx) = Scoped (\<lambda>k. readResult (rv_command (view db) k))"
    using assms(2) by (simp_all add: rooted_def store_transaction_def Let_def)
  have "rows_get (tx_commands tx) k = Inr (jm_get (ws_commands w) k)"
    using assms(3) by (simp add: reads_like_def)
  then show ?thesis
    using rows_get_writes [OF rows_keyed_wf [OF kr], of k] command_row [OF assms(1), of k]
    by (auto simp: transactionDelta_def find_keyed [OF writes_keyed [OF kr]] root readResult_def
        split: option.splits)
qed

end

section \<open>The memory adapter as a source\<close>

text \<open>\<^verbatim>\<open>resultView\<close> over the queries of a materialised workspace.\<close>

definition memory_view :: "workspace \<Rightarrow> read_view" where
  "memory_view w = \<lparr>rv_command = \<lambda>k. Inr (jm_get (ws_commands w) k),
     rv_event = \<lambda>i. Inr (find_event w i),
     rv_interaction = \<lambda>k. Inr (jm_get (ws_interactions w) k),
     rv_surface = \<lambda>k. Inr (jm_get (ws_surfaces w) k),
     rv_delivery = \<lambda>k. Inr (jm_get (ws_deliveries w) k),
     rv_hasEvent = \<lambda>i. Inr (hasEvent w i),
     rv_hasAttempt = \<lambda>i. Inr (hasAttempt w i),
     rv_commandsInStates = \<lambda>tags. Inr (commandsInStates w tags),
     rv_commandsForNativeTurn = \<lambda>ses thread run req. Inr (commandsForNativeTurn w ses thread run req),
     rv_interactionForCallback = \<lambda>gen callback. Inr (interactionForCallback w gen callback),
     rv_interactionsForCommand = \<lambda>c. Inr (interactionsForCommand w c),
     rv_surfacesForInteraction = \<lambda>i. Inr (surfacesForInteraction w i),
     rv_deliveriesInStates = \<lambda>sts. Inr (deliveriesInStates w sts),
     rv_hasNotSubmittedReconciliation = \<lambda>c. Inr (hasNotSubmittedReconciliation w c)\<rparr>"

lemma lists_filter: "keyed key m \<Longrightarrow> lists_rows key P m (Inr (filter P (jm_values m)))"
  by (auto simp: lists_rows_def distinct_map_filter keyed_values_distinct)

interpretation memory_source: session_source ws_keyed "\<lambda>w. w" memory_view
  by unfold_locales
     (simp_all add: memory_view_def ws_keyed_def commandsInStates_def commandsForNativeTurn_def
       interactionsForCommand_def surfacesForInteraction_def deliveriesInStates_def lists_filter)

end
