(* ===== verification/Surface_Check.thy ===== *)
theory Surface_Check
  imports Session_Contexts
begin

text \<open>
  Validation of a recovery surface (\<^verbatim>\<open>a2ui.ts\<close>). The compiled A2UI message schema
  (\<^verbatim>\<open>validate-surface.ts\<close>, generated) is the parameter \<open>message_ok\<close>; everything the module
  itself decides is modelled: the closed catalog, the lifecycle of the message batch, the
  forbidden keys and paths, and the bounded walk from the root component.
\<close>

section \<open>JSON access\<close>

definition prop_of :: "json \<Rightarrow> string \<Rightarrow> json option" where
  "prop_of v k = (case v of JObj ms \<Rightarrow> map_of ms (utext_of k) | _ \<Rightarrow> None)"

fun truthy :: "json option \<Rightarrow> bool" where
  "truthy None = False"
| "truthy (Some JNull) = False"
| "truthy (Some (JBool b)) = b"
| "truthy (Some (JInt n)) = (n \<noteq> 0)"
| "truthy (Some (JStr t)) = (t \<noteq> [])"
| "truthy (Some _) = True"

fun is_array :: "json \<Rightarrow> bool" where
  "is_array (JArr xs) = True"
| "is_array _ = False"

definition json_text :: "string \<Rightarrow> json option" where
  "json_text s = Some (JStr (utext_of s))"

section \<open>Forbidden keys and paths\<close>

definition banned_keys :: "utext set" where
  "banned_keys = utext_of ` {''call'', ''functionCall'', ''__proto__'', ''prototype'', ''constructor''}"

definition banned_segments :: "utext set" where
  "banned_segments = utext_of ` {''__proto__'', ''constructor'', ''prototype''}"

text \<open>\<^verbatim>\<open>text.split("/")\<close>: always at least one segment.\<close>

fun split_slash :: "utext \<Rightarrow> utext list" where
  "split_slash [] = [[]]"
| "split_slash (c # cs) = (if c = 47 then [] # split_slash cs
     else (case split_slash cs of [] \<Rightarrow> [[c]] | s # ss \<Rightarrow> (c # s) # ss))"

fun bad_path :: "json \<Rightarrow> bool" where
  "bad_path (JStr t) = (t = [] \<or> hd t \<noteq> 47 \<or> list_ex (\<lambda>s. s \<in> banned_segments) (split_slash t))"
| "bad_path _ = False"

primrec safe_json :: "json \<Rightarrow> bool"
  and safe_items :: "json list \<Rightarrow> bool"
  and safe_members :: "(utext \<times> json) list \<Rightarrow> bool"
  and safe_member :: "utext \<times> json \<Rightarrow> bool" where
  "safe_json JNull = True"
| "safe_json (JBool b) = True"
| "safe_json (JInt n) = True"
| "safe_json (JDec t) = True"
| "safe_json JNonFinite = True"
| "safe_json (JStr t) = True"
| "safe_json (JArr xs) = safe_items xs"
| "safe_json (JObj ms) = safe_members ms"
| "safe_json JForeign = True"
| "safe_items [] = True"
| "safe_items (x # xs) = (safe_json x \<and> safe_items xs)"
| "safe_members [] = True"
| "safe_members (m # ms) = (safe_member m \<and> safe_members ms)"
| "safe_member (k, v) =
     (k \<notin> banned_keys \<and> \<not> (k = utext_of ''path'' \<and> bad_path v) \<and> safe_json v)"

section \<open>The message batch\<close>

type_synonym components = "(json option, json) jsmap"

record surface_scan =
  sn_created :: bool
  sn_active :: bool
  sn_components :: components

definition operations :: "string list" where
  "operations = [''createSurface'', ''updateComponents'', ''updateDataModel'', ''deleteSurface'']"

definition catalog_component :: "json \<Rightarrow> bool" where
  "catalog_component c = (prop_of c ''component'' \<in>
     json_text ` {''Text'', ''Column'', ''Button'', ''TextField''})"

text \<open>One component of an \<^verbatim>\<open>updateComponents\<close> message; \<open>ids\<close> are those already seen in it.\<close>

definition scan_component ::
  "json \<Rightarrow> json option list \<times> components \<Rightarrow> exit + (json option list \<times> components)" where
  "scan_component c acc = (case acc of (ids, comps) \<Rightarrow>
     if \<not> catalog_component c \<or> prop_of c ''id'' \<in> set ids \<or>
        (truthy (prop_of c ''children'') \<and> \<not> is_array (the (prop_of c ''children''))) \<or>
        prop_of c ''checks'' \<noteq> None
     then Inl Surface_error
     else Inr (prop_of c ''id'' # ids, jm_set comps (prop_of c ''id'') c))"

definition scan_components :: "json \<Rightarrow> surface_scan \<Rightarrow> exit + surface_scan" where
  "scan_components content scan = (case prop_of content ''components'' of
     Some (JArr cs) \<Rightarrow> and_then (loop_exit scan_component cs ([], sn_components scan))
       (\<lambda>(ids, comps). Inr (scan\<lparr>sn_components := comps\<rparr>))
   | _ \<Rightarrow> Inl Js_error)"

definition scan_message ::
  "(json \<Rightarrow> bool) \<Rightarrow> surface_state \<Rightarrow> json \<Rightarrow> surface_scan \<Rightarrow> exit + surface_scan" where
  "scan_message message_ok s m scan =
     (if \<not> message_ok m \<or> prop_of m ''version'' \<noteq> json_text ''v0.9.1'' \<or> \<not> safe_json m
      then Inl Surface_error
      else (case find (\<lambda>k. prop_of m k \<noteq> None) operations of
        None \<Rightarrow> Inl Js_error
      | Some k \<Rightarrow> let content = the (prop_of m k) in
          if prop_of content ''surfaceId'' \<noteq> json_text (surfaceId s) then Inl Surface_error
          else if k = ''createSurface'' then
            (if sn_created scan \<or> prop_of content ''catalogId'' \<noteq> json_text (catalogId s) \<or>
                prop_of content ''theme'' \<noteq> None \<or> prop_of content ''sendDataModel'' = Some (JBool True)
             then Inl Surface_error
             else Inr (scan\<lparr>sn_created := True, sn_active := True\<rparr>))
          else if \<not> sn_active scan then Inl Surface_error
          else if k = ''deleteSurface'' then Inr (scan\<lparr>sn_active := False\<rparr>)
          else if k = ''updateComponents'' then scan_components content scan
          else Inr scan))"

section \<open>The walk from the root\<close>

definition child_ids :: "json \<Rightarrow> json option list" where
  "child_ids node =
     (if truthy (prop_of node ''child'') then [prop_of node ''child''] else []) @
     (case prop_of node ''children'' of Some (JArr xs) \<Rightarrow> map Some xs | _ \<Rightarrow> [])"

text \<open>
  \<^verbatim>\<open>visit(id, ancestors)\<close> refuses more than 24 ancestors; \<open>n\<close> is the number of levels left,
  25 at the root, so the recursion is on the code's own bound.
\<close>

definition iterable_children :: "json \<Rightarrow> bool" where
  "iterable_children node = (case prop_of node ''children'' of
     Some (JBool b) \<Rightarrow> False | Some (JInt n) \<Rightarrow> False | _ \<Rightarrow> True)"

primrec visit :: "nat \<Rightarrow> components \<Rightarrow> json option list \<Rightarrow> json option \<Rightarrow> bool" where
  "visit 0 comps ancestors i = False"
| "visit (Suc n) comps ancestors i = (case jm_get comps i of
     None \<Rightarrow> False
   | Some node \<Rightarrow> i \<notin> set ancestors \<and> iterable_children node \<and>
       list_all (visit n comps (i # ancestors)) (child_ids node))"

definition validateSurface ::
  "digest \<Rightarrow> (json \<Rightarrow> bool) \<Rightarrow> limits \<Rightarrow> surface_state \<Rightarrow> exit + surface_state" where
  "validateSurface digest message_ok lim s =
     (case valid digest lim (Row_surface s) of
        Some d \<Rightarrow> Inl (Contract_error d)
      | None \<Rightarrow>
          if catalogId s \<noteq> ''urn:rss-mdm-agent:a2ui:interaction'' \<or> catalogVersion s \<noteq> ''1''
          then Inl Surface_error
          else and_then (loop_exit (scan_message message_ok s) (messages s)
                 \<lparr>sn_created = False, sn_active = False, sn_components = []\<rparr>) (\<lambda>scan.
            if \<not> sn_created scan \<or> sn_active scan \<noteq> (sf_status s \<noteq> Surface_deleted) then Inl Surface_error
            else if \<not> visit 25 (sn_components scan) [] (json_text ''root'') then Inl Surface_error
            else (case jm_get (sn_components scan) (json_text (sourceComponentId s)) of
              None \<Rightarrow> Inl Surface_error
            | Some source \<Rightarrow>
                if prop_of source ''component'' = json_text ''Button'' \<and>
                   Option.bind (Option.bind (prop_of source ''action'') (\<lambda>a. prop_of a ''event''))
                     (\<lambda>e. prop_of e ''name'') = json_text (eventName s)
                then Inr s else Inl Surface_error)))"

section \<open>What an accepted surface guarantees\<close>

text \<open>A path through the component graph, root last.\<close>

inductive component_path :: "components \<Rightarrow> json option \<Rightarrow> json option list \<Rightarrow> bool" for comps root where
  Root: "component_path comps root [root]"
| Child: "component_path comps root (i # up) \<Longrightarrow> jm_get comps i = Some node \<Longrightarrow> j \<in> set (child_ids node) \<Longrightarrow>
    component_path comps root (j # i # up)"

inductive_cases component_path_ConsE: "component_path comps root (j # up)"

lemma visit_child:
  assumes "visit (Suc n) comps ancestors i" "jm_get comps i = Some node" "j \<in> set (child_ids node)"
  shows "visit n comps (i # ancestors) j"
  using assms by (simp add: list_all_iff)

lemma visit_node: "visit n comps ancestors i \<Longrightarrow> (\<exists>m. n = Suc m) \<and> i \<notin> set ancestors \<and> jm_has comps i"
  by (cases n) (auto simp: jm_has_def split: option.splits)

text \<open>Every path from an accepted root has been visited with the levels it leaves.\<close>

lemma visit_path:
  assumes "component_path comps root path" "visit n comps [] root"
  shows "\<exists>m. m + length path = Suc n \<and> visit m comps (tl path) (hd path) \<and> distinct path"
  using assms
proof (induction rule: component_path.induct)
  case Root
  then show ?case by (intro exI [of _ n]) simp
next
  case (Child i up node j)
  then obtain m where m: "m + length (i # up) = Suc n" "visit m comps up i" "distinct (i # up)"
    by auto
  then obtain m' where m': "m = Suc m'" using visit_node by blast
  have v: "visit m' comps (i # up) j"
    by (rule visit_child) (use m m' Child in auto)
  show ?case
    by (rule exI [of _ m']) (use m m' v visit_node [OF v] in auto)
qed

lemma visit_bounded:
  assumes "visit n comps [] root" "component_path comps root path"
  shows "distinct path" "length path \<le> n" "list_all (jm_has comps) path"
proof -
  have short: "component_path comps root p \<Longrightarrow> length p \<le> n \<and> jm_has comps (hd p)" for p
    using visit_path [OF _ assms(1), of p] visit_node by fastforce
  show "distinct path" using visit_path [OF assms(2,1)] by blast
  show "length path \<le> n" using short [OF assms(2)] by simp
  show "list_all (jm_has comps) path"
    using assms(2)
  proof (induction rule: component_path.induct)
    case Root
    then show ?case using short [OF component_path.Root] by simp
  next
    case (Child i up node j)
    then show ?case using short [OF component_path.Child [OF Child.hyps]] by simp
  qed
qed

lemma scan_component_catalog:
  assumes "scan_component c (ids, comps) = Inr (ids', comps')"
    and "\<forall>v \<in> set (jm_values comps). catalog_component v"
    and "jm_wf comps"
  shows "(\<forall>v \<in> set (jm_values comps'). catalog_component v) \<and> jm_wf comps'"
  using assms
  by (auto simp: scan_component_def jm_values_mem split: if_splits)

lemma scan_components_catalog:
  assumes run: "scan_components content scan = Inr scan'"
    and inv: "\<forall>v \<in> set (jm_values (sn_components scan)). catalog_component v" "jm_wf (sn_components scan)"
  shows "(\<forall>v \<in> set (jm_values (sn_components scan')). catalog_component v) \<and> jm_wf (sn_components scan')"
proof -
  obtain cs ids comps where loop: "loop_exit scan_component cs ([], sn_components scan) = Inr (ids, comps)"
    and scan': "sn_components scan' = comps"
    using run by (auto simp: scan_components_def split: option.splits json.splits)
  have "case (ids, comps) of (ids, comps) \<Rightarrow>
      (\<forall>v \<in> set (jm_values comps). catalog_component v) \<and> jm_wf comps"
    by (rule loop_exit_invariant [OF loop, of "\<lambda>past acc. case acc of (ids, comps) \<Rightarrow>
          (\<forall>v \<in> set (jm_values comps). catalog_component v) \<and> jm_wf comps"])
       (use inv scan_component_catalog in auto)
  then show ?thesis by (simp add: scan')
qed

lemma scan_message_cases:
  assumes "scan_message message_ok s m scan = Inr scan'"
  shows "safe_json m \<and> (sn_components scan' = sn_components scan \<or>
    (\<exists>content. scan_components content scan = Inr scan'))"
  using assms
  by (auto simp: scan_message_def Let_def split: if_split_asm option.split_asm)

lemma scan_message_catalog:
  assumes "scan_message message_ok s m scan = Inr scan'"
    and "\<forall>v \<in> set (jm_values (sn_components scan)). catalog_component v" "jm_wf (sn_components scan)"
  shows "(\<forall>v \<in> set (jm_values (sn_components scan')). catalog_component v) \<and>
    jm_wf (sn_components scan') \<and> safe_json m"
  using scan_message_cases [OF assms(1)] assms(2,3) scan_components_catalog by auto

lemma validateSurface_Inr:
  assumes "validateSurface digest message_ok lim s = Inr t"
  obtains scan where "t = s" "valid digest lim (Row_surface s) = None"
    "loop_exit (scan_message message_ok s) (messages s)
       \<lparr>sn_created = False, sn_active = False, sn_components = []\<rparr> = Inr scan"
    "visit 25 (sn_components scan) [] (json_text ''root'')"
    "sn_active scan = (sf_status s \<noteq> Surface_deleted)"
  using assms
  by (auto simp: validateSurface_def split: option.splits if_splits)

lemma scan_catalog:
  assumes "loop_exit (scan_message message_ok s) ms
       \<lparr>sn_created = False, sn_active = False, sn_components = []\<rparr> = Inr scan"
  shows "(\<forall>v \<in> set (jm_values (sn_components scan)). catalog_component v) \<and>
    jm_wf (sn_components scan) \<and> list_all safe_json ms"
proof (rule loop_exit_invariant [OF assms, of "\<lambda>past scan. (\<forall>v \<in> set (jm_values (sn_components scan)).
    catalog_component v) \<and> jm_wf (sn_components scan) \<and> list_all safe_json past"], goal_cases)
  case 1
  then show ?case by (simp add: jm_values_def)
next
  case (2 past m t t')
  then show ?case using scan_message_catalog [OF 2(4)] by simp
qed

end
