(* ===== verification/Session_Rules.thy ===== *)
theory Session_Rules
  imports Session_View Surface_Check
begin

text \<open>
  What every transition of \<^verbatim>\<open>transitions.ts\<close> shares: the namespace key, settledness, the
  optimistic head check, the dispatch deadline, the staleness of controls, and the mapping of
  exceptions by \<^verbatim>\<open>guarded\<close>. \<open>env\<close> collects what the process supplies: the digest, the
  evidence filed by provider admission, and the compiled A2UI message schema.
\<close>

record env =
  env_digest :: digest
  env_evidence :: evidence_store
  env_message_ok :: "json \<Rightarrow> bool"

section \<open>Namespace keys\<close>

definition namespace_text :: "namespace \<Rightarrow> string" where
  "namespace_text n = ''[\"'' @ tenantId n @ ''\",\"'' @ principalId n @ ''\",\"'' @
     authorityId n @ ''\",\"'' @ ns_sessionId n @ ''\"]''"

text \<open>\<^verbatim>\<open>namespaceKey\<close>: identifiers need no escaping, so the JSON text is a concatenation.\<close>

definition namespaceKey :: "namespace \<Rightarrow> exit + string" where
  "namespaceKey n = (if schema_namespace n then Inr (namespace_text n) else Inl (Contract_error D_context))"

definition other_namespace :: "namespace \<Rightarrow> namespace \<Rightarrow> exit \<Rightarrow> exit option" where
  "other_namespace a b e = with_value (namespaceKey a) (\<lambda>x. with_value (namespaceKey b) (\<lambda>y. fail_if (x \<noteq> y) e))"

lemma quote_split:
  assumes "x @ CHR 0x22 # u = y @ CHR 0x22 # v" "CHR 0x22 \<notin> set x" "CHR 0x22 \<notin> set y"
  shows "x = y \<and> u = v"
  using assms by (auto simp: append_eq_append_conv2 append_eq_Cons_conv Cons_eq_append_conv)

lemma isId_no_quote: "isId s \<Longrightarrow> CHR 0x22 \<notin> set s"
  by (auto simp: isId_def id_char_def alphanumeric_def Let_def list_all_iff split: list.splits)

lemma namespace_text_inj:
  assumes "schema_namespace a" "schema_namespace b" "namespace_text a = namespace_text b"
  shows "a = b"
proof -
  note q = assms(1,2) [unfolded schema_namespace_def]
  from assms(3) have t: "tenantId a @ CHR 0x22 # ('','' @ CHR 0x22 # principalId a @ CHR 0x22 # ('','' @ CHR 0x22 #
      authorityId a @ CHR 0x22 # ('','' @ CHR 0x22 # ns_sessionId a @ CHR 0x22 # '']''))) =
    tenantId b @ CHR 0x22 # ('','' @ CHR 0x22 # principalId b @ CHR 0x22 # ('','' @ CHR 0x22 #
      authorityId b @ CHR 0x22 # ('','' @ CHR 0x22 # ns_sessionId b @ CHR 0x22 # '']'')))"
    by (simp add: namespace_text_def)
  from quote_split [OF t] q have 1: "tenantId a = tenantId b"
    and t: "principalId a @ CHR 0x22 # ('','' @ CHR 0x22 #
      authorityId a @ CHR 0x22 # ('','' @ CHR 0x22 # ns_sessionId a @ CHR 0x22 # '']'')) =
     principalId b @ CHR 0x22 # ('','' @ CHR 0x22 #
      authorityId b @ CHR 0x22 # ('','' @ CHR 0x22 # ns_sessionId b @ CHR 0x22 # '']''))"
    by (simp_all add: isId_no_quote)
  from quote_split [OF t] q have 2: "principalId a = principalId b"
    and t: "authorityId a @ CHR 0x22 # ('','' @ CHR 0x22 # ns_sessionId a @ CHR 0x22 # '']'') =
      authorityId b @ CHR 0x22 # ('','' @ CHR 0x22 # ns_sessionId b @ CHR 0x22 # '']'')"
    by (simp_all add: isId_no_quote)
  from quote_split [OF t] q have 3: "authorityId a = authorityId b"
    and t: "ns_sessionId a @ CHR 0x22 # '']'' = ns_sessionId b @ CHR 0x22 # '']''"
    by (simp_all add: isId_no_quote)
  from quote_split [OF t] q have "ns_sessionId a = ns_sessionId b"
    by (simp_all add: isId_no_quote)
  with 1 2 3 show ?thesis by (cases a; cases b) simp
qed

lemma other_namespace_None [simp]:
  "other_namespace a b e = None \<longleftrightarrow> schema_namespace a \<and> a = b"
  using namespace_text_inj [of a b]
  by (auto simp: other_namespace_def namespaceKey_def split: if_splits)

section \<open>Settledness and states\<close>

definition settled_state :: "state_tag \<Rightarrow> bool" where
  "settled_state t \<longleftrightarrow> t \<in> {T_terminal, T_invalidated, T_acknowledged, T_cancelled}"

definition isSettled :: "command_record \<Rightarrow> bool" where
  "isSettled c = settled_state (state_of c)"

text \<open>The unsettled states every scan of live work asks for.\<close>

definition live_states :: "state_tag list" where
  "live_states = [T_accepted, T_dispatching, T_running, T_uncertain]"

fun queue_next :: "input \<Rightarrow> bool" where
  "queue_next (Prompt t p tr h) = (p = Queue_next)"
| "queue_next _ = False"

fun is_prompt :: "input \<Rightarrow> bool" where
  "is_prompt (Prompt t p tr h) = True"
| "is_prompt _ = False"

lemma live_settled: "in_states live_states c \<longleftrightarrow> \<not> isSettled c"
  by (cases "cr_state c") (simp_all add: in_states_def live_states_def isSettled_def settled_state_def)

lemma unsettled_dispatch: "isSettled c \<longleftrightarrow> state_of c \<in> {T_terminal, T_invalidated, T_acknowledged, T_cancelled}"
  by (simp add: isSettled_def settled_state_def)

section \<open>Head check\<close>

text \<open>\<^verbatim>\<open>checkState\<close>; \<open>as_active\<close> is the caller's substitution of an active status.\<close>

definition checkState :: "session \<Rightarrow> bool \<Rightarrow> counter \<Rightarrow> id \<Rightarrow> exit option" where
  "checkState s as_active expectedRev gen = first_exit
     [fail_if (\<not> as_active \<and> status s \<noteq> Active) (failed Session_gone),
      with_value (activeStage s) (\<lambda>stage. fail_if (generation (stage_binding stage) \<noteq> gen) (failed Stale_binding)),
      fail_if (revision s \<noteq> expectedRev) (Failed (fail_with Revision_conflict Same_command))]"

lemma checkState_None:
  "checkState s as_active expectedRev gen = None \<longleftrightarrow> (as_active \<or> status s = Active) \<and> revision s = expectedRev \<and>
     (\<exists>stage. activeStage s = Inr stage \<and> generation (stage_binding stage) = gen)"
  by (auto simp: checkState_def)

section \<open>Deadlines and stale controls\<close>

definition dispatchDeadline :: "workspace \<Rightarrow> command_record \<Rightarrow> counter" where
  "dispatchDeadline w c =
     (if hasNotSubmittedReconciliation w (record_id c)
      then min (expiresAtMs (cr_command c)) (retryUntilMs (cr_receipt c))
      else expiresAtMs (cr_command c))"

fun input_generation :: "input \<Rightarrow> id option" where
  "input_generation (Prompt t p tr h) = None"
| "input_generation (Cancel tc g r) = Some g"
| "input_generation (Respond i g r a s) = Some g"

fun input_nativeRunId :: "input \<Rightarrow> id option" where
  "input_nativeRunId (Prompt t p tr h) = None"
| "input_nativeRunId (Cancel tc g r) = r"
| "input_nativeRunId (Respond i g r a s) = r"

definition running_turn :: "id option \<Rightarrow> command_record \<Rightarrow> bool" where
  "running_turn run row \<longleftrightarrow> state_of row = T_running \<and>
     (case dispatch row of Some d \<Rightarrow> da_nativeRunId d = run | None \<Rightarrow> False)"

definition cancels_undispatched :: "command_record list \<Rightarrow> input \<Rightarrow> bool" where
  "cancels_undispatched records i = (case i of
     Cancel tc g r \<Rightarrow> Option.bind (find (\<lambda>row. record_id row = tc) records) dispatch = None
   | _ \<Rightarrow> False)"

definition controlIsStale :: "session \<Rightarrow> command_record list \<Rightarrow> command \<Rightarrow> exit + bool" where
  "controlIsStale s records c = (case input_of c of
     Prompt t p tr h \<Rightarrow>
       if p \<noteq> Steer then Inr False
       else and_then (activeStage s) (\<lambda>stage.
         Inr (tr \<noteq> nativeRunId (stage_binding stage) \<or> \<not> list_ex (running_turn tr) records))
   | i \<Rightarrow> and_then (activeStage s) (\<lambda>stage.
       if input_generation i \<noteq> Some (generation (stage_binding stage)) then Inr True
       else if cancels_undispatched records i then Inr False
       else Inr (input_nativeRunId i \<noteq> nativeRunId (stage_binding stage))))"

lemma controlIsStale_queued [simp]:
  "queue_next (input_of c) \<Longrightarrow> controlIsStale s records c = Inr False"
  by (cases "input_of c") (auto simp: controlIsStale_def)

section \<open>Guarded execution\<close>

fun exit_failure :: "exit \<Rightarrow> failure" where
  "exit_failure (Failed f) = f"
| "exit_failure (Contract_error d) = fail_with (if d = D_limit then Limit_exceeded else Invalid_input) Never"
| "exit_failure Surface_error = fail_with Invalid_input Never"
| "exit_failure Js_error = fail_with Invalid_input Never"

definition guarded :: "exit + 'a \<Rightarrow> 'a result" where
  "guarded r = (case r of Inl e \<Rightarrow> Inl (exit_failure e) | Inr v \<Rightarrow> Inr v)"

lemma guarded_Inr [simp]: "guarded r = Inr v \<longleftrightarrow> r = Inr v"
  by (cases r) (simp_all add: guarded_def)

lemma guarded_Inl: "guarded r = Inl f \<longleftrightarrow> (\<exists>e. r = Inl e \<and> exit_failure e = f)"
  by (cases r) (simp_all add: guarded_def)

section \<open>Creation\<close>

definition createState :: "env \<Rightarrow> limits \<Rightarrow> session \<Rightarrow> workspace result" where
  "createState e lim s =
     (if valid (env_digest e) lim (Row_session s) \<noteq> None \<or> \<not> schema_namespace (ss_namespace s) \<or>
         revision s \<noteq> 0 \<or> lastSequence s \<noteq> 0 \<or> status s \<noteq> Active
      then Inl (fail_with Invalid_input Never)
      else Inr \<lparr>ws_session = s, ws_generations = remdups (map (\<lambda>stage. generation (stage_binding stage)) (stages s)),
        ws_commands = [], ws_events = [], ws_interactions = [], ws_deliveries = [], ws_surfaces = []\<rparr>)"

text \<open>\<^verbatim>\<open>Set.add\<close> on the generations.\<close>

definition add_generation :: "id \<Rightarrow> id list \<Rightarrow> id list" where
  "add_generation g gs = (if g \<in> set gs then gs else gs @ [g])"

end
