(* ===== verification/Commit_Commands.thy ===== *)
theory Commit_Commands
  imports Session_Rules
begin

text \<open>
  The first half of \<^verbatim>\<open>reduceCommit\<close> (\<^verbatim>\<open>transitions.ts\<close>): the head of the batch, the provider
  facts, the command loop, turn ownership and the movement of the binding. Each block of the
  body is a guard list in the source's order. The blocks run over \<open>st\<close>, the workspace the
  transition started from, and \<open>copy\<close>, the one it builds.
\<close>

record commit_batch =
  cb_providerFacts :: "fact_proof list"
  cb_nowMs :: "int option"
  cb_namespace :: namespace
  cb_expectedRevision :: counter
  cb_expectedGeneration :: id
  cb_session :: session
  cb_commands :: "command_record list"
  cb_events :: "event list"
  cb_interactions :: "interaction list"
  cb_deliveries :: "delivery list"
  cb_surfaces :: "surface_state list"

abbreviation invalid :: exit where "invalid \<equiv> failed Invalid_input"
abbreviation stale :: exit where "stale \<equiv> failed Stale_binding"
abbreviation conflict :: exit where "conflict \<equiv> failed Content_conflict"
abbreviation forbidden :: exit where "forbidden \<equiv> failed Permission_denied"

section \<open>Head of the batch\<close>

fun is_delivery_recorded :: "event_body \<Rightarrow> bool" where
  "is_delivery_recorded (Delivery_recorded opId t h r) = True"
| "is_delivery_recorded _ = False"

definition isDeliveryCommit :: "workspace \<Rightarrow> commit_batch \<Rightarrow> bool" where
  "isDeliveryCommit st b \<longleftrightarrow>
     cb_deliveries b \<noteq> [] \<and> cb_commands b = [] \<and> cb_interactions b = [] \<and> cb_surfaces b = [] \<and>
     cb_providerFacts b = [] \<and> list_all (\<lambda>e. is_delivery_recorded (body e)) (cb_events b) \<and>
     list_all (\<lambda>d. jm_has (ws_deliveries st) (operationId d)) (cb_deliveries b) \<and>
     (cb_session b)\<lparr>revision := revision (ws_session st), lastSequence := lastSequence (ws_session st)\<rparr>
       = ws_session st"

definition batch_rows :: "commit_batch \<Rightarrow> row list" where
  "batch_rows b = Row_session (cb_session b) # map Row_record (cb_commands b) @
     map Row_event (cb_events b) @ map Row_interaction (cb_interactions b) @
     map Row_delivery (cb_deliveries b) @ map Row_surface (cb_surfaces b)"

text \<open>Every row is validated; a contract error of any kind is \<^verbatim>\<open>invalid_input\<close> here.\<close>

definition rows_check :: "env \<Rightarrow> limits \<Rightarrow> commit_batch \<Rightarrow> exit option" where
  "rows_check e lim b = first_exit
     (map (\<lambda>row. fail_if (valid (env_digest e) lim row \<noteq> None) invalid) (batch_rows b))"

definition coordinates_check :: "workspace \<Rightarrow> commit_batch \<Rightarrow> bool \<Rightarrow> bool \<Rightarrow> exit option" where
  "coordinates_check st b deliveryOnly suspending = first_exit
     [other_namespace (ss_namespace (ws_session st)) (cb_namespace b) invalid,
      other_namespace (ss_namespace (cb_session b)) (cb_namespace b) invalid,
      fail_if (revision (cb_session b) \<noteq> revision (ws_session st) + 1) invalid,
      fail_if (lastSequence (cb_session b) \<noteq> lastSequence (ws_session st) + int (length (cb_events b))) invalid,
      fail_if (\<not> deliveryOnly \<and> \<not> suspending \<and> status (cb_session b) \<noteq> Active) invalid,
      fail_if (suspending \<and> status (cb_session b) \<noteq> status (ws_session st)) invalid]"

definition stage_check :: "workspace \<Rightarrow> commit_batch \<Rightarrow> context_stage \<Rightarrow> exit option" where
  "stage_check st b cur = first_exit
     [fail_if (freshContext (cb_session b) \<noteq> freshContext (ws_session st)) stale,
      fail_if (currentStageId (cb_session b) \<noteq> currentStageId (ws_session st)) stale,
      fail_if (selectedConnectionId (cb_session b) \<noteq> selectedConnectionId (ws_session st)) stale,
      fail_if (butlast (stages (cb_session b)) \<noteq> butlast (stages (ws_session st))) stale,
      with_value (activeStage (cb_session b)) (\<lambda>nxt. first_exit
        [fail_if (nxt\<lparr>stage_binding := stage_binding cur\<rparr> \<noteq> cur) stale,
         fail_if (providerIdentity (stage_binding nxt) \<noteq> providerIdentity (stage_binding cur)) stale,
         fail_if (stage_capabilities nxt \<noteq> stage_capabilities cur) stale])]"

section \<open>Provider facts\<close>

type_synonym facts = "(id, reconciliation) jsmap"

definition take_fact ::
  "env \<Rightarrow> workspace \<Rightarrow> fact_proof \<Rightarrow> facts \<Rightarrow> exit + facts" where
  "take_fact e st p facts = (case jm_get (ws_commands st) (pf_commandId p) of
     None \<Rightarrow> Inl forbidden
   | Some row \<Rightarrow> and_then (providerFactFor (env_evidence e) p (ws_session st) row) (\<lambda>r. case r of
       None \<Rightarrow> Inl forbidden
     | Some observation \<Rightarrow>
         if jm_has facts (pf_commandId p) then Inl invalid
         else Inr (jm_set facts (pf_commandId p) observation)))"

definition collect_facts :: "env \<Rightarrow> workspace \<Rightarrow> commit_batch \<Rightarrow> exit + facts" where
  "collect_facts e st b = loop_exit (take_fact e st) (cb_providerFacts b) []"

section \<open>One command of the batch\<close>

definition command_identity ::
  "workspace \<Rightarrow> commit_batch \<Rightarrow> bool \<Rightarrow> context_stage \<Rightarrow> id list \<Rightarrow> command_record \<Rightarrow> command_record option
     \<Rightarrow> exit option" where
  "command_identity st b accepting cur seen c old = first_exit
     [fail_if (Some (rc_stageId (cr_receipt c)) \<noteq> currentStageId (ws_session st)) stale,
      fail_if (record_id c \<in> set seen) invalid,
      other_namespace (rc_namespace (cr_receipt c)) (cb_namespace b) forbidden,
      fail_if (cmd_sessionId (cr_command c) \<noteq> ns_sessionId (cb_namespace b)) forbidden,
      (case old of None \<Rightarrow> None | Some c0 \<Rightarrow>
         fail_if (cr_receipt c0 \<noteq> cr_receipt c \<or> cr_command c0 \<noteq> cr_command c) conflict),
      (case old of None \<Rightarrow> None | Some c0 \<Rightarrow> fail_if (isSettled c0 \<and> c0 \<noteq> c) conflict),
      fail_if (old = None \<and> (\<not> accepting \<or> cr_state c \<noteq> Accepted \<or>
        acceptedRevision (cr_receipt c) \<noteq> revision (cb_session b))) invalid,
      (case dispatch c of None \<Rightarrow> None | Some d \<Rightarrow>
         fail_if (observerGeneration d \<noteq> cb_expectedGeneration b \<or>
           da_nativeThreadId d \<noteq> nativeThreadId (stage_binding cur)) stale)]"

text \<open>The \<^verbatim>\<open>reconciled\<close> events of a command.\<close>

definition reconciled_events :: "commit_batch \<Rightarrow> id \<Rightarrow> (dispatch_attempt \<times> resolution) list" where
  "reconciled_events b i = concat (map (\<lambda>e. if ev_commandId e = Some i
     then (case body e of Reconciled d r \<Rightarrow> [(d, r)] | _ \<Rightarrow> []) else []) (cb_events b))"

definition now_invalid :: "commit_batch \<Rightarrow> bool" where
  "now_invalid b = (case cb_nowMs b of None \<Rightarrow> True | Some n \<Rightarrow> \<not> is_safe_integer n)"

definition now_or_zero :: "commit_batch \<Rightarrow> int" where
  "now_or_zero b = (case cb_nowMs b of None \<Rightarrow> 0 | Some n \<Rightarrow> n)"

text \<open>The state a reconciliation status calls for, and whether the record carries it.\<close>

fun claimed_state :: "reconciliation_status \<Rightarrow> record_state \<Rightarrow> bool" where
  "claimed_state (Is_unknown c) s = (tag_of s = T_uncertain)"
| "claimed_state Is_submitted s = (tag_of s = T_dispatching)"
| "claimed_state Is_running s = (tag_of s = T_running)"
| "claimed_state (Is_terminal r) s = (tag_of s = T_terminal \<and> state_outcome s = Some r)"
| "claimed_state (Is_acknowledged a) s = (tag_of s = T_acknowledged)"
| "claimed_state _ s = False"

definition retry_eligible :: "commit_batch \<Rightarrow> command_record \<Rightarrow> failure option \<Rightarrow> bool" where
  "retry_eligible b c err \<longleftrightarrow>
     (case err of None \<Rightarrow> True | Some f \<Rightarrow> retry_of f \<noteq> Never) \<and> queue_next (input_of (cr_command c)) \<and>
     now_or_zero b \<le> min (expiresAtMs (cr_command c)) (retryUntilMs (cr_receipt c))"

definition resolution_body ::
  "commit_batch \<Rightarrow> context_stage \<Rightarrow> command_record \<Rightarrow> command_record \<Rightarrow> dispatch_attempt \<Rightarrow> reconciliation
     \<Rightarrow> exit option" where
  "resolution_body b cur c c0 d r = first_exit
     [fail_if (isSettled c0 \<or> rn_attemptId r \<noteq> attemptId d \<or>
        providerIdentity (rn_binding r) \<noteq> providerIdentity (stage_binding cur) \<or>
        nativeSessionId (rn_binding r) \<noteq> da_nativeSessionId d \<or>
        nativeThreadId (rn_binding r) \<noteq> da_nativeThreadId d \<or>
        \<not> keeps (da_nativeRunId d) (nativeRunId (rn_binding r)) \<or>
        \<not> keeps (da_nativeRequestId d) (nativeRequestId (rn_binding r))) stale,
      fail_if (case reconciled_events b (record_id c) of
        [(d', res)] \<Rightarrow> Some res \<noteq> status_resolution (rn_status r) \<or> d' \<noteq> d | _ \<Rightarrow> True) invalid,
      (case rn_status r of
        Is_not_submitted err \<Rightarrow> first_exit
          [fail_if (now_invalid b \<or> now_or_zero b < 0) invalid,
           fail_if (certainty_of d = Submitted) conflict,
           fail_if (state_of c \<noteq> (if retry_eligible b c err then T_accepted else T_invalidated) \<or>
             dispatch c \<noteq> None) invalid]
      | s \<Rightarrow> fail_if (\<not> claimed_state s (cr_state c)) invalid)]"

text \<open>Transitions of the lifecycle no provider fact stands behind.\<close>

fun local_step :: "state_tag \<Rightarrow> state_tag \<Rightarrow> bool" where
  "local_step T_accepted t = (t \<in> {T_dispatching, T_invalidated, T_cancelled, T_acknowledged})"
| "local_step T_dispatching t = (t \<in> {T_running, T_terminal, T_uncertain, T_acknowledged})"
| "local_step T_running t = (t \<in> {T_terminal, T_uncertain})"
| "local_step _ t = False"

definition resolution_check ::
  "commit_batch \<Rightarrow> context_stage \<Rightarrow> command_record \<Rightarrow> command_record option \<Rightarrow> reconciliation option
     \<Rightarrow> exit option" where
  "resolution_check b cur c old res = (case res of
     Some r \<Rightarrow>
       if is_observed (rn_status r) then
         (case old of None \<Rightarrow> None | Some c0 \<Rightarrow>
            fail_if (state_of c0 \<noteq> state_of c \<and> \<not> local_step (state_of c0) (state_of c)) conflict)
       else first_exit
         [fail_if (rn_status r = Is_submitted \<and> map_option state_of old = Some T_running) conflict,
          (case old of None \<Rightarrow> Some stale | Some c0 \<Rightarrow> (case dispatch c0 of
             None \<Rightarrow> Some stale | Some d \<Rightarrow> resolution_body b cur c c0 d r))]
   | None \<Rightarrow> (case old of None \<Rightarrow> None | Some c0 \<Rightarrow>
       fail_if (state_of c0 \<noteq> state_of c \<and> \<not> local_step (state_of c0) (state_of c)) conflict))"

definition is_not_submitted :: "reconciliation option \<Rightarrow> bool" where
  "is_not_submitted res = (case res of None \<Rightarrow> False | Some r \<Rightarrow>
     status_resolution (rn_status r) = Some R_not_submitted)"

text \<open>Two attempts of one record: coordinates only grow, certainty never falls back.\<close>

definition attempt_growth :: "dispatch_attempt \<Rightarrow> dispatch_attempt \<Rightarrow> exit option" where
  "attempt_growth d0 d = first_exit
     [fail_if (da_nativeThreadId d0 \<noteq> da_nativeThreadId d) stale,
      fail_if (\<not> attempt_keeps d0 d) stale,
      fail_if (certainty_of d0 = Submitted \<and> certainty_of d \<noteq> Submitted) conflict,
      fail_if (certainty_of d0 \<noteq> Intent \<and> certainty_of d = Intent) conflict]"

definition other_turn_open :: "workspace \<Rightarrow> id \<Rightarrow> bool" where
  "other_turn_open st i = list_ex (\<lambda>row. record_id row \<noteq> i \<and> is_prompt (input_of (cr_command row)) \<and>
     dispatch row \<noteq> None \<and> \<not> isSettled row) (commandsInStates st live_states)"

definition steer_target_open :: "workspace \<Rightarrow> id option \<Rightarrow> bool" where
  "steer_target_open st run = list_ex (\<lambda>row. queue_next (input_of (cr_command row)) \<and> \<not> isSettled row \<and>
     (case dispatch row of None \<Rightarrow> False | Some d \<Rightarrow> certainty_of d = Submitted \<and> da_nativeRunId d = run))
     (commandsInStates st live_states)"

definition first_dispatch ::
  "workspace \<Rightarrow> commit_batch \<Rightarrow> context_stage \<Rightarrow> id list \<Rightarrow> command_record \<Rightarrow> command_record option
     \<Rightarrow> dispatch_attempt \<Rightarrow> exit option" where
  "first_dispatch st b cur attempted c old d = first_exit
     [fail_if (map_option state_of old \<noteq> Some T_accepted \<or> state_of c \<noteq> T_dispatching \<or>
        certainty_of d \<noteq> Intent \<or> originGeneration d \<noteq> cb_expectedGeneration b \<or>
        da_nativeSessionId d \<noteq> nativeSessionId (stage_binding cur) \<or>
        attemptId d \<in> set attempted \<or> hasAttempt st (attemptId d)) invalid,
      fail_if (now_invalid b \<or> now_or_zero b < acceptedAtMs (cr_receipt c)) invalid,
      fail_if (now_or_zero b > dispatchDeadline st c) (failed Expired),
      fail_if (queue_next (input_of (cr_command c)) \<and> other_turn_open st (record_id c)) conflict,
      (case input_of (cr_command c) of
         Prompt t Steer tr h \<Rightarrow> fail_if
           (steer (stage_capabilities cur) \<noteq> Supported \<or> tr \<noteq> nativeRunId (stage_binding cur) \<or>
            da_nativeRunId d \<noteq> tr \<or> \<not> steer_target_open st tr) stale
       | _ \<Rightarrow> None)]"

definition dispatch_check ::
  "workspace \<Rightarrow> commit_batch \<Rightarrow> context_stage \<Rightarrow> id list \<Rightarrow> command_record \<Rightarrow> command_record option
     \<Rightarrow> reconciliation option \<Rightarrow> exit option" where
  "dispatch_check st b cur attempted c old res =
     (case (Option.bind old dispatch, dispatch c) of
        (Some d0, Some d) \<Rightarrow> attempt_growth d0 d
      | (None, Some d) \<Rightarrow> first_dispatch st b cur attempted c old d
      | (Some d0, None) \<Rightarrow> fail_if (\<not> is_not_submitted res) invalid
      | (None, None) \<Rightarrow> None)"

definition dispatch_events :: "commit_batch \<Rightarrow> id \<Rightarrow> dispatch_attempt list" where
  "dispatch_events b i = concat (map (\<lambda>e. if ev_commandId e = Some i
     then (case body e of Dispatch_reported d \<Rightarrow> [d] | _ \<Rightarrow> []) else []) (cb_events b))"

text \<open>A new or changed attempt is announced once; an unknown outcome names its correlation.\<close>

definition dispatch_witness :: "commit_batch \<Rightarrow> command_record \<Rightarrow> command_record option \<Rightarrow> exit option" where
  "dispatch_witness b c old = (case dispatch c of None \<Rightarrow> None | Some d \<Rightarrow> first_exit
     [fail_if (Option.bind old dispatch \<noteq> Some d \<and> dispatch_events b (record_id c) \<noteq> [d]) invalid,
      fail_if (certainty_of d = Unknown \<and> (correlationId d = None \<or> correlationId d = Some [])) invalid])"

definition submitted :: "command_record \<Rightarrow> bool" where
  "submitted c = (case dispatch c of None \<Rightarrow> False | Some d \<Rightarrow> certainty_of d = Submitted)"

definition was_in :: "state_tag \<Rightarrow> command_record option \<Rightarrow> bool" where
  "was_in t old = (map_option state_of old = Some t)"

definition proves_submission :: "reconciliation option \<Rightarrow> bool" where
  "proves_submission res = (case res of None \<Rightarrow> False | Some r \<Rightarrow>
     status_resolution (rn_status r) \<in> Some ` {R_submitted, R_running, R_terminal, R_acknowledged})"

text \<open>Running, terminal and submitted are claims only a provider fact can support.\<close>

definition provider_gate :: "command_record \<Rightarrow> command_record option \<Rightarrow> reconciliation option \<Rightarrow> exit option" where
  "provider_gate c old res = first_exit
     [fail_if ((state_of c = T_terminal \<and> \<not> was_in T_terminal old \<or>
         state_of c = T_running \<and> \<not> was_in T_running old \<or>
         submitted c \<and> \<not> (case old of None \<Rightarrow> False | Some c0 \<Rightarrow> submitted c0)) \<and> \<not> proves_submission res) forbidden,
      fail_if (state_of c = T_running \<and> \<not> submitted c) invalid]"

definition announced :: "commit_batch \<Rightarrow> id \<Rightarrow> (event_body \<Rightarrow> bool) \<Rightarrow> bool" where
  "announced b i P = list_ex (\<lambda>e. ev_commandId e = Some i \<and> P (body e)) (cb_events b)"

text \<open>The rows \<^verbatim>\<open>controlIsStale\<close> looks at: the running turns and the target of a cancel.\<close>

definition control_context :: "workspace \<Rightarrow> command \<Rightarrow> command_record list" where
  "control_context st c = commandsInStates st [T_running] @ (case input_of c of
     Cancel tc g r \<Rightarrow> (case jm_get (ws_commands st) tc of None \<Rightarrow> [] | Some row \<Rightarrow> [row])
   | _ \<Rightarrow> [])"

definition locally_invalid ::
  "workspace \<Rightarrow> commit_batch \<Rightarrow> command_record \<Rightarrow> command_record option \<Rightarrow> failure \<Rightarrow> exit + bool" where
  "locally_invalid st b c old f =
     (if \<not> was_in T_accepted old then Inr False
      else if code f = Expired then Inr (\<not> now_invalid b \<and> now_or_zero b > dispatchDeadline st c)
      else if code f = Stale_binding
      then controlIsStale (ws_session st) (control_context st (cr_command c)) (cr_command c)
      else Inr False)"

definition invalidated_check ::
  "workspace \<Rightarrow> commit_batch \<Rightarrow> command_record \<Rightarrow> command_record option \<Rightarrow> reconciliation option
     \<Rightarrow> exit option" where
  "invalidated_check st b c old res = (case cr_state c of
     Invalidated f \<Rightarrow> if was_in T_invalidated old then None else first_exit
       [fail_if (retry_of f \<noteq> Never \<or> code f \<notin> {Expired, Stale_binding, Unavailable}) invalid,
        (if is_not_submitted res then None
         else with_value (locally_invalid st b c old f) (\<lambda>ok. fail_if (\<not> ok) invalid)),
        fail_if (\<not> announced b (record_id c) (\<lambda>x. x = Invalidated_reported f)) invalid]
   | _ \<Rightarrow> None)"

definition batch_record :: "commit_batch \<Rightarrow> id \<Rightarrow> command_record option" where
  "batch_record b i = find (\<lambda>row. record_id row = i) (cb_commands b)"

definition cancelled_check :: "commit_batch \<Rightarrow> command_record \<Rightarrow> command_record option \<Rightarrow> exit option" where
  "cancelled_check b c old = (case cr_state c of
     Cancelled by_id \<Rightarrow> if was_in T_cancelled old then None else
       fail_if (\<not> was_in T_accepted old \<or> \<not> queue_next (input_of (cr_command c)) \<or>
         map_option cr_state (batch_record b by_id) \<noteq> Some (Acknowledged_queued (record_id c)) \<or>
         \<not> announced b (record_id c) (\<lambda>x. x = Cancelled_reported by_id)) invalid
   | _ \<Rightarrow> None)"

fun control_matches :: "input \<Rightarrow> control_ack \<Rightarrow> bool" where
  "control_matches (Prompt t p tr h) a = (p = Steer \<and> a = Ack_steer)"
| "control_matches (Cancel tc g r) a = (case a of Ack_cancel c \<Rightarrow> True | _ \<Rightarrow> False)"
| "control_matches (Respond i g r x s) a = (a = Ack_respond)"

definition acknowledged_check ::
  "commit_batch \<Rightarrow> command_record \<Rightarrow> command_record option \<Rightarrow> reconciliation option \<Rightarrow> exit option" where
  "acknowledged_check b c old res = (case cr_state c of
     Acknowledged_queued tgt \<Rightarrow> if was_in T_acknowledged old then None else first_exit
       [fail_if (\<not> was_in T_accepted old \<or>
          (case input_of (cr_command c) of
             Cancel tc g r \<Rightarrow> tc \<noteq> tgt \<or> g \<noteq> cb_expectedGeneration b | _ \<Rightarrow> True) \<or>
          map_option cr_state (batch_record b tgt) \<noteq> Some (Cancelled (record_id c))) invalid,
        fail_if (\<not> announced b (record_id c) (\<lambda>x. x = Acknowledged_reported (Queued_cancelled tgt))) invalid]
   | Acknowledged d a \<Rightarrow> if was_in T_acknowledged old then None else first_exit
       [fail_if (Option.bind old dispatch = None \<or> certainty_of d \<noteq> Submitted \<or>
          map_option rn_status res \<noteq> Some (Is_acknowledged a) \<or>
          \<not> control_matches (input_of (cr_command c)) a) invalid,
        fail_if (\<not> announced b (record_id c) (\<lambda>x. x = Acknowledged_reported (Control_ack a))) invalid]
   | _ \<Rightarrow> None)"

definition terminal_check :: "commit_batch \<Rightarrow> command_record \<Rightarrow> command_record option \<Rightarrow> exit option" where
  "terminal_check b c old = (case cr_state c of
     Terminal d r \<Rightarrow> if was_in T_terminal old then None else
       fail_if (\<not> queue_next (input_of (cr_command c)) \<or> Option.bind old dispatch = None \<or>
         certainty_of d \<noteq> Submitted \<or>
         \<not> list_ex (\<lambda>e. ev_commandId e = Some (record_id c) \<and> ev_attemptId e = Some (attemptId d) \<and>
              ev_generation e = observerGeneration d \<and> body e = Terminal_reported r) (cb_events b)) invalid
   | _ \<Rightarrow> None)"

definition status_witness ::
  "commit_batch \<Rightarrow> command_record \<Rightarrow> command_record option \<Rightarrow> reconciliation option \<Rightarrow> exit option" where
  "status_witness b c old res = fail_if
     (map_option state_of old \<noteq> Some (state_of c) \<and> \<not> isSettled c \<and>
      \<not> (state_of c = T_accepted \<and> is_not_submitted res) \<and>
      \<not> announced b (record_id c) (\<lambda>x. case x of
          Command_accepted cmd \<Rightarrow> old = None \<and> state_of c = T_accepted \<and> cmd = cr_command c
        | Status_changed s \<Rightarrow> live_tag s = state_of c
        | _ \<Rightarrow> False)) invalid"

text \<open>The body of the command loop; \<open>lp\<close> is the copy with the identifiers already seen.\<close>

record command_loop =
  lp_copy :: workspace
  lp_commandIds :: "id list"
  lp_attemptIds :: "id list"

definition command_checks ::
  "workspace \<Rightarrow> commit_batch \<Rightarrow> bool \<Rightarrow> context_stage \<Rightarrow> facts \<Rightarrow> command_loop \<Rightarrow> command_record
     \<Rightarrow> exit option" where
  "command_checks st b accepting cur facts lp c =
     (let old = jm_get (ws_commands st) (record_id c); res = jm_get facts (record_id c) in first_exit
       [command_identity st b accepting cur (lp_commandIds lp) c old,
        resolution_check b cur c old res,
        dispatch_check st b cur (lp_attemptIds lp) c old res,
        dispatch_witness b c old,
        provider_gate c old res,
        invalidated_check st b c old res,
        cancelled_check b c old,
        acknowledged_check b c old res,
        terminal_check b c old,
        status_witness b c old res])"

definition commit_command ::
  "workspace \<Rightarrow> commit_batch \<Rightarrow> bool \<Rightarrow> context_stage \<Rightarrow> facts \<Rightarrow> command_record \<Rightarrow> command_loop
     \<Rightarrow> exit + command_loop" where
  "commit_command st b accepting cur facts c lp =
     unless_exit (command_checks st b accepting cur facts lp c)
       (Inr \<lparr>lp_copy = (lp_copy lp)\<lparr>ws_commands := jm_set (ws_commands (lp_copy lp)) (record_id c) c\<rparr>,
             lp_commandIds = record_id c # lp_commandIds lp,
             lp_attemptIds = (case (Option.bind (jm_get (ws_commands st) (record_id c)) dispatch, dispatch c) of
                (None, Some d) \<Rightarrow> attemptId d # lp_attemptIds lp | _ \<Rightarrow> lp_attemptIds lp)\<rparr>)"

definition commit_commands ::
  "workspace \<Rightarrow> commit_batch \<Rightarrow> bool \<Rightarrow> context_stage \<Rightarrow> facts \<Rightarrow> exit + command_loop" where
  "commit_commands st b accepting cur facts = loop_exit (commit_command st b accepting cur facts)
     (cb_commands b) \<lparr>lp_copy = st, lp_commandIds = [], lp_attemptIds = []\<rparr>"

section \<open>Turn ownership and binding movement\<close>

definition facts_used :: "facts \<Rightarrow> id list \<Rightarrow> exit option" where
  "facts_used facts ids = fail_if (list_ex (\<lambda>i. i \<notin> set ids) (jm_keys facts)) invalid"

definition open_turn :: "command_record \<Rightarrow> bool" where
  "open_turn c \<longleftrightarrow> queue_next (input_of (cr_command c)) \<and> dispatch c \<noteq> None \<and> \<not> isSettled c"

definition single_turn :: "workspace \<Rightarrow> exit option" where
  "single_turn copy = fail_if (1 < length (filter open_turn (commandsInStates copy live_states))) conflict"

definition coordinatesMatch :: "command_record \<Rightarrow> binding \<Rightarrow> bool" where
  "coordinatesMatch c bd = (case dispatch c of None \<Rightarrow> False
   | Some d \<Rightarrow> da_nativeRunId d = nativeRunId bd \<and> da_nativeRequestId d = nativeRequestId bd)"

definition turn_records :: "workspace \<Rightarrow> binding \<Rightarrow> command_record list" where
  "turn_records w bd = commandsForNativeTurn w (Some (nativeSessionId bd)) (nativeThreadId bd)
     (nativeRunId bd) (nativeRequestId bd)"

definition takes_turn :: "facts \<Rightarrow> binding \<Rightarrow> command_record \<Rightarrow> bool" where
  "takes_turn facts bd c \<longleftrightarrow>
     (state_of c = T_dispatching \<or> state_of c = T_running \<or>
      state_of c = T_terminal \<and> (case jm_get facts (record_id c) of None \<Rightarrow> False
        | Some r \<Rightarrow> status_resolution (rn_status r) = Some R_terminal)) \<and>
     submitted c \<and> coordinatesMatch c bd"

definition owns_turn :: "binding \<Rightarrow> command_record \<Rightarrow> bool" where
  "owns_turn bd c = (case dispatch c of None \<Rightarrow> False
   | Some d \<Rightarrow> da_nativeSessionId d = nativeSessionId bd \<and> da_nativeThreadId d = nativeThreadId bd \<and>
       (if nativeRunId bd \<noteq> None then da_nativeRunId d = nativeRunId bd else coordinatesMatch c bd))"

definition binding_move :: "workspace \<Rightarrow> facts \<Rightarrow> binding \<Rightarrow> binding \<Rightarrow> exit option" where
  "binding_move copy facts old nxt =
     (if nativeRunId old = nativeRunId nxt \<and> nativeRequestId old = nativeRequestId nxt then None
      else let records = turn_records copy old @ turn_records copy nxt in
        if nativeRunId nxt \<noteq> None \<or> nativeRequestId nxt \<noteq> None
        then fail_if (\<not> list_ex (takes_turn facts nxt) records) stale
        else fail_if (filter (owns_turn old) records = [] \<or>
          list_ex (\<lambda>c. \<not> isSettled c \<and> state_of c \<noteq> T_accepted) (filter (owns_turn old) records)) stale)"

end
