(* ===== verification/Commit_Rows.thy ===== *)
theory Commit_Rows
  imports Commit_Commands
begin

text \<open>
  The second half of \<^verbatim>\<open>reduceCommit\<close>: the loops over events, interactions, deliveries and
  surfaces, the settle check and the answer fence.
\<close>

section \<open>Events\<close>

fun is_output :: "event_body \<Rightarrow> bool" where
  "is_output (Text m t) = True"
| "is_output (Tool_proposal p n a) = True"
| "is_output (Tool_result p d t) = True"
| "is_output (Surface_changed s) = True"
| "is_output _ = False"

fun is_invalidated_surface :: "event_body \<Rightarrow> bool" where
  "is_invalidated_surface (Surface_changed s) = (sf_status s = Surface_invalidated)"
| "is_invalidated_surface _ = False"

text \<open>Bodies that restate a command record of the same batch.\<close>

fun is_command_fact :: "event_body \<Rightarrow> bool" where
  "is_command_fact (Command_accepted c) = True"
| "is_command_fact (Dispatch_reported d) = True"
| "is_command_fact (Reconciled d r) = True"
| "is_command_fact (Invalidated_reported f) = True"
| "is_command_fact (Status_changed s) = True"
| "is_command_fact (Acknowledged_reported a) = True"
| "is_command_fact (Cancelled_reported c) = True"
| "is_command_fact _ = False"

fun is_acceptance :: "event_body \<Rightarrow> bool" where
  "is_acceptance (Command_accepted c) = True"
| "is_acceptance _ = False"

definition batch_delivery :: "commit_batch \<Rightarrow> id \<Rightarrow> delivery option" where
  "batch_delivery b i = find (\<lambda>d. operationId d = i) (cb_deliveries b)"

definition delivery_requested_check ::
  "workspace \<Rightarrow> commit_batch \<Rightarrow> event \<Rightarrow> command_record \<Rightarrow> id \<Rightarrow> id \<Rightarrow> exit option" where
  "delivery_requested_check st b ev source i tgt = (case batch_delivery b i of
     None \<Rightarrow> Some invalid
   | Some row \<Rightarrow> fail_if
       (jm_has (ws_deliveries st) (operationId row) \<or> dl_eventId row \<noteq> eventId ev \<or> target row \<noteq> tgt \<or>
        dl_status row \<noteq> Delivery_pending \<or> attempts row \<noteq> 0 \<or>
        \<not> is_prompt (input_of (cr_command source)) \<or> isSettled source \<or>
        map_option observerGeneration (dispatch source) \<noteq> Some (cb_expectedGeneration b)) invalid)"

definition delivery_recorded_check ::
  "workspace \<Rightarrow> commit_batch \<Rightarrow> event \<Rightarrow> id \<Rightarrow> id \<Rightarrow> string \<Rightarrow> exit option" where
  "delivery_recorded_check st b ev i tgt h = (case jm_get (ws_deliveries st) i of
     None \<Rightarrow> Some invalid
   | Some old \<Rightarrow> fail_if
       (dl_status old = Delivered \<or> dl_status old = Receipt_recorded \<or>
        map_option dl_status (batch_delivery b i) \<noteq> Some Receipt_recorded \<or>
        tgt \<noteq> target old \<or> h \<noteq> dl_contentHash old \<or>
        (case find_event st (dl_eventId old) of
           None \<Rightarrow> True
         | Some req \<Rightarrow> (case body req of Delivery_requested i' t n a \<Rightarrow> ev_commandId req \<noteq> ev_commandId ev
             | _ \<Rightarrow> True))) invalid)"

text \<open>\<open>source\<close> is the record in the copy, \<open>prior\<close> the one before the batch.\<close>

definition event_attempt_check ::
  "commit_batch \<Rightarrow> event \<Rightarrow> command_record \<Rightarrow> command_record option \<Rightarrow> exit option" where
  "event_attempt_check b ev source prior = (case ev_attemptId ev of None \<Rightarrow> None
   | Some a \<Rightarrow> (case (case dispatch source of Some d \<Rightarrow> Some d | None \<Rightarrow> Option.bind prior dispatch) of
       None \<Rightarrow> Some stale
     | Some d \<Rightarrow> fail_if (a \<noteq> attemptId d \<or> observerGeneration d \<noteq> cb_expectedGeneration b) stale))"

definition event_body_check ::
  "commit_batch \<Rightarrow> bool \<Rightarrow> facts \<Rightarrow> id list \<Rightarrow> event \<Rightarrow> id \<Rightarrow> command_record \<Rightarrow> command_record option
     \<Rightarrow> exit option" where
  "event_body_check b accepting facts ids ev cid source prior = (case body ev of
     Command_accepted cmd \<Rightarrow> fail_if
       (\<not> accepting \<or> prior \<noteq> None \<or> state_of source \<noteq> T_accepted \<or> cmd \<noteq> cr_command source \<or>
        length (filter (\<lambda>e. ev_commandId e = ev_commandId ev \<and> is_acceptance (body e)) (cb_events b)) \<noteq> 1) invalid
   | Status_changed s \<Rightarrow> fail_if (live_tag s \<noteq> state_of source) invalid
   | Dispatch_reported d \<Rightarrow> fail_if (dispatch source \<noteq> Some d) invalid
   | Reconciled d r \<Rightarrow> fail_if (\<not> jm_has facts cid) invalid
   | Invalidated_reported f \<Rightarrow> fail_if (cr_state source \<noteq> Invalidated f) invalid
   | Surface_changed s \<Rightarrow> fail_if (sf_status s = Surface_invalidated \<and>
       (\<not> isSettled source \<or> cid \<notin> set ids \<or>
        (case prior of None \<Rightarrow> False | Some c0 \<Rightarrow> isSettled c0))) invalid
   | Terminal_reported r \<Rightarrow> fail_if
       (state_outcome (cr_state source) \<noteq> Some r \<or> cid \<notin> set ids \<or>
        map_option state_of prior = Some T_terminal) invalid
   | _ \<Rightarrow> None)"

definition event_position ::
  "workspace \<Rightarrow> commit_batch \<Rightarrow> id list \<Rightarrow> nat \<Rightarrow> event \<Rightarrow> exit option" where
  "event_position st b seen i ev = first_exit
     [other_namespace (ev_namespace ev) (cb_namespace b) invalid,
      fail_if (ev_generation ev \<noteq> cb_expectedGeneration b) invalid,
      fail_if (sequence ev \<noteq> lastSequence (ws_session st) + int i + 1) invalid,
      fail_if (eventId ev \<in> set seen) invalid,
      fail_if (hasEvent st (eventId ev)) invalid]"

record event_loop =
  el_copy :: workspace
  el_index :: nat
  el_ids :: "id list"

definition event_checks ::
  "workspace \<Rightarrow> commit_batch \<Rightarrow> bool \<Rightarrow> facts \<Rightarrow> id list \<Rightarrow> event \<Rightarrow> event_loop \<Rightarrow> exit option" where
  "event_checks st b accepting facts ids ev lp = first_exit
     [event_position st b (el_ids lp) (el_index lp) ev,
      (case ev_commandId ev of None \<Rightarrow> Some invalid | Some cid \<Rightarrow>
       (case jm_get (ws_commands (el_copy lp)) cid of
         None \<Rightarrow> Some invalid
       | Some source \<Rightarrow> let prior = jm_get (ws_commands st) cid in first_exit
           [(case body ev of Delivery_requested i t n a \<Rightarrow> delivery_requested_check st b ev source i t | _ \<Rightarrow> None),
            (case body ev of Delivery_recorded i t h r \<Rightarrow> delivery_recorded_check st b ev i t h | _ \<Rightarrow> None),
            event_attempt_check b ev source prior,
            fail_if (is_output (body ev) \<and> isSettled source \<and> \<not> is_invalidated_surface (body ev)) conflict,
            fail_if (is_command_fact (body ev) \<and> cid \<notin> set ids) invalid,
            event_body_check b accepting facts ids ev cid source prior]))]"

definition commit_event ::
  "workspace \<Rightarrow> commit_batch \<Rightarrow> bool \<Rightarrow> facts \<Rightarrow> id list \<Rightarrow> event \<Rightarrow> event_loop \<Rightarrow> exit + event_loop" where
  "commit_event st b accepting facts ids ev lp =
     unless_exit (event_checks st b accepting facts ids ev lp)
       (Inr \<lparr>el_copy = (el_copy lp)\<lparr>ws_events := ws_events (el_copy lp) @ [ev]\<rparr>,
             el_index = Suc (el_index lp), el_ids = eventId ev # el_ids lp\<rparr>)"

definition commit_events ::
  "workspace \<Rightarrow> commit_batch \<Rightarrow> bool \<Rightarrow> facts \<Rightarrow> id list \<Rightarrow> workspace \<Rightarrow> exit + workspace" where
  "commit_events st b accepting facts ids copy = and_then
     (loop_exit (commit_event st b accepting facts ids) (cb_events b)
        \<lparr>el_copy = copy, el_index = 0, el_ids = []\<rparr>)
     (\<lambda>lp. Inr (el_copy lp))"

section \<open>Interactions\<close>

fun body_interactionId_of :: "event_body \<Rightarrow> id option" where
  "body_interactionId_of (Interaction_opened i r e l) = Some i"
| "body_interactionId_of (Interaction_answered i c) = Some i"
| "body_interactionId_of (Interaction_lapsed i) = Some i"
| "body_interactionId_of (Interaction_withdrawn i) = Some i"
| "body_interactionId_of _ = None"

definition interaction_events :: "commit_batch \<Rightarrow> id \<Rightarrow> event list" where
  "interaction_events b i = filter (\<lambda>e. body_interactionId_of (body e) = Some i) (cb_events b)"

text \<open>Everything but the status and the response must be unchanged.\<close>

definition interaction_identity :: "interaction \<Rightarrow> interaction" where
  "interaction_identity i = i\<lparr>ia_status := Pending, responseCommandId := None\<rparr>"

definition opened_once :: "commit_batch \<Rightarrow> interaction \<Rightarrow> bool" where
  "opened_once b row = (case interaction_events b (interactionId row) of
     [e] \<Rightarrow> ev_commandId e = Some (ia_commandId row) \<and> ev_generation e = ia_generation row \<and>
       (case body e of Interaction_opened i r x l \<Rightarrow> r = request row | _ \<Rightarrow> False)
   | _ \<Rightarrow> False)"

definition interaction_row_check ::
  "commit_batch \<Rightarrow> interaction \<Rightarrow> interaction option \<Rightarrow> command_record \<Rightarrow> exit option" where
  "interaction_row_check b row old source = (case old of
     Some o' \<Rightarrow> first_exit
       [fail_if (interaction_identity o' \<noteq> interaction_identity row) stale,
        fail_if (ia_status o' \<noteq> Pending \<and> o' \<noteq> row) (failed Already_answered)]
   | None \<Rightarrow> first_exit
       [fail_if (ia_status row \<noteq> Pending \<or> \<not> submitted source \<or>
          state_of source \<notin> {T_dispatching, T_running}) invalid,
        fail_if (\<not> opened_once b row) invalid])"

definition answered_check :: "workspace \<Rightarrow> interaction \<Rightarrow> exit option" where
  "answered_check copy row =
     (if ia_status row \<noteq> Answered then None
      else case Option.bind (responseCommandId row) (jm_get (ws_commands copy)) of
        None \<Rightarrow> Some invalid
      | Some response \<Rightarrow> (case input_of (cr_command response) of
          Respond i g r a s \<Rightarrow> fail_if (i \<noteq> interactionId row \<or> g \<noteq> ia_generation row \<or>
            r \<noteq> ia_nativeRunId row \<or> acceptedAtMs (cr_receipt response) > ia_expiresAtMs row) invalid
        | _ \<Rightarrow> Some invalid))"

definition interaction_checks ::
  "commit_batch \<Rightarrow> id list \<Rightarrow> workspace \<Rightarrow> interaction \<Rightarrow> exit option" where
  "interaction_checks b seen copy row =
     (let old = jm_get (ws_interactions copy) (interactionId row) in first_exit
       [fail_if (interactionId row \<in> set seen) invalid,
        other_namespace (ia_namespace row) (cb_namespace b) stale,
        fail_if (ia_generation row \<noteq> cb_expectedGeneration b) stale,
        (case jm_get (ws_commands copy) (ia_commandId row) of
           None \<Rightarrow> Some stale
         | Some source \<Rightarrow> (case dispatch source of
             None \<Rightarrow> Some stale
           | Some d \<Rightarrow> first_exit
               [fail_if (observerGeneration d \<noteq> ia_generation row \<or> da_nativeRunId d \<noteq> ia_nativeRunId row) stale,
                interaction_row_check b row old source])),
        (case interactionForCallback copy (ia_generation row) (nativeCallbackId row) of
           None \<Rightarrow> None
         | Some i \<Rightarrow> fail_if (interactionId i \<noteq> interactionId row) conflict),
        fail_if (map_option ia_status old = Some Pending \<and> ia_status row = Interaction_expired \<and>
          (now_invalid b \<or> now_or_zero b \<le> ia_expiresAtMs row)) invalid,
        answered_check copy row,
        fail_if ((case old of None \<Rightarrow> False | Some o' \<Rightarrow> ia_status o' \<noteq> ia_status row) \<and>
          \<not> list_ex (\<lambda>e. ev_commandId e = Some (ia_commandId row) \<and>
               body_interactionId_of (body e) = Some (interactionId row) \<and>
               body_interaction_status (body e) = Some (ia_status row)) (cb_events b)) invalid])"

definition commit_interaction ::
  "commit_batch \<Rightarrow> interaction \<Rightarrow> workspace \<times> id list \<Rightarrow> exit + workspace \<times> id list" where
  "commit_interaction b row acc = (case acc of (copy, seen) \<Rightarrow>
     unless_exit (interaction_checks b seen copy row)
       (Inr (copy\<lparr>ws_interactions := jm_set (ws_interactions copy) (interactionId row) row\<rparr>,
             interactionId row # seen)))"

definition commit_interactions :: "commit_batch \<Rightarrow> workspace \<Rightarrow> exit + workspace \<times> id list" where
  "commit_interactions b copy = loop_exit (commit_interaction b) (cb_interactions b) (copy, [])"

text \<open>Every interaction event agrees with the row the batch leaves behind.\<close>

definition interaction_event_check :: "workspace \<Rightarrow> workspace \<Rightarrow> id list \<Rightarrow> event \<Rightarrow> exit option" where
  "interaction_event_check st copy seen e = (case body_interactionId_of (body e) of
     None \<Rightarrow> None
   | Some i \<Rightarrow> (case jm_get (ws_interactions copy) i of
       None \<Rightarrow> Some invalid
     | Some row \<Rightarrow> first_exit
         [fail_if (Some (ia_commandId row) \<noteq> ev_commandId e \<or> ia_generation row \<noteq> ev_generation e \<or>
            body_interaction_status (body e) \<noteq> Some (ia_status row)) invalid,
          (case body e of
             Interaction_opened j r x l \<Rightarrow> fail_if
               (jm_has (ws_interactions st) (interactionId row) \<or> interactionId row \<notin> set seen \<or>
                r \<noteq> request row \<or> x \<noteq> ia_expiresAtMs row \<or> l \<noteq> callbackLifetime row) invalid
           | Interaction_answered j c \<Rightarrow> fail_if (Some c \<noteq> responseCommandId row) invalid
           | _ \<Rightarrow> None)]))"

definition interaction_events_check :: "workspace \<Rightarrow> commit_batch \<Rightarrow> workspace \<Rightarrow> id list \<Rightarrow> exit option" where
  "interaction_events_check st b copy seen =
     first_exit (map (interaction_event_check st copy seen) (cb_events b))"

section \<open>Deliveries\<close>

definition delivery_regresses :: "delivery \<Rightarrow> delivery \<Rightarrow> bool \<Rightarrow> bool" where
  "delivery_regresses old row requested \<longleftrightarrow>
     dl_contentHash old \<noteq> dl_contentHash row \<or> target old \<noteq> target row \<or> dl_eventId old \<noteq> dl_eventId row \<or>
     dl_retry old \<noteq> dl_retry row \<or>
     requested \<and> dl_status row = Delivered \<and> dl_status old \<noteq> Receipt_recorded \<and> dl_status old \<noteq> Delivered \<or>
     dl_status old = Receipt_recorded \<and> dl_status row \<notin> {Receipt_recorded, Delivered} \<or>
     attempts row < attempts old \<or>
     dl_status old = Delivered \<and> dl_status row \<noteq> Delivered"

definition delivery_checks ::
  "env \<Rightarrow> limits \<Rightarrow> commit_batch \<Rightarrow> id list \<Rightarrow> workspace \<Rightarrow> delivery \<Rightarrow> exit option" where
  "delivery_checks e lim b seen copy row = first_exit
     [fail_if (operationId row \<in> set seen) invalid,
      other_namespace (dl_namespace row) (cb_namespace b) invalid,
      (case find_event copy (dl_eventId row) of
         None \<Rightarrow> Some invalid
       | Some req \<Rightarrow> let old = jm_get (ws_deliveries copy) (operationId row) in first_exit
           [(case deliveryFingerprint (env_digest e) lim req (target row) of
               Inl d \<Rightarrow> Some (Contract_error d) | Inr h \<Rightarrow> fail_if (dl_contentHash row \<noteq> h) invalid),
            (case body req of
               Delivery_requested i t n a \<Rightarrow> fail_if
                 (i \<noteq> operationId row \<or> t \<noteq> target row \<or>
                  map_option dl_status old \<noteq> Some Receipt_recorded \<and> dl_status row = Receipt_recorded \<and>
                  \<not> list_ex (\<lambda>x. case body x of Delivery_recorded j t' h r \<Rightarrow> j = operationId row | _ \<Rightarrow> False)
                      (cb_events b)) invalid
             | _ \<Rightarrow> None),
            (case old of None \<Rightarrow> None | Some o' \<Rightarrow> fail_if (delivery_regresses o' row
               (case body req of Delivery_requested i t n a \<Rightarrow> True | _ \<Rightarrow> False)) conflict)])]"

definition commit_delivery ::
  "env \<Rightarrow> limits \<Rightarrow> commit_batch \<Rightarrow> delivery \<Rightarrow> workspace \<times> id list \<Rightarrow> exit + workspace \<times> id list" where
  "commit_delivery e lim b row acc = (case acc of (copy, seen) \<Rightarrow>
     unless_exit (delivery_checks e lim b seen copy row)
       (Inr (copy\<lparr>ws_deliveries := jm_set (ws_deliveries copy) (operationId row) row\<rparr>,
             operationId row # seen)))"

definition commit_deliveries :: "env \<Rightarrow> limits \<Rightarrow> commit_batch \<Rightarrow> workspace \<Rightarrow> exit + workspace" where
  "commit_deliveries e lim b copy = and_then
     (loop_exit (commit_delivery e lim b) (cb_deliveries b) (copy, [])) (\<lambda>(copy, seen). Inr copy)"

section \<open>Surfaces\<close>

definition surface_identity :: "surface_state \<Rightarrow> surface_state" where
  "surface_identity s = s\<lparr>sf_revision := 0, sf_status := Surface_active, messages := []\<rparr>"

definition surface_events :: "commit_batch \<Rightarrow> id \<Rightarrow> (surface_state \<times> id option) list" where
  "surface_events b i = concat (map (\<lambda>e. case body e of
     Surface_changed s \<Rightarrow> if surfaceInstanceId s = i then [(s, ev_commandId e)] else [] | _ \<Rightarrow> []) (cb_events b))"

definition surface_row_check :: "surface_state \<Rightarrow> surface_state option \<Rightarrow> interaction \<Rightarrow> exit option" where
  "surface_row_check row old i = (case old of
     Some o' \<Rightarrow> first_exit
       [fail_if (surface_identity o' \<noteq> surface_identity row) stale,
        fail_if (sf_status o' \<noteq> Surface_active \<or> sf_revision row \<noteq> sf_revision o' + 1)
          (Failed (fail_with Revision_conflict Same_command))]
   | None \<Rightarrow> fail_if (sf_status row \<noteq> Surface_active \<or> sf_revision row \<noteq> 0 \<or> ia_status i \<noteq> Pending) invalid)"

definition surface_checks ::
  "env \<Rightarrow> limits \<Rightarrow> commit_batch \<Rightarrow> id list \<Rightarrow> workspace \<Rightarrow> surface_state \<Rightarrow> exit option" where
  "surface_checks e lim b seen copy row =
     (let old = jm_get (ws_surfaces copy) (surfaceInstanceId row) in first_exit
       [(case validateSurface (env_digest e) (env_message_ok e) lim row of
           Inl x \<Rightarrow> Some invalid | Inr s \<Rightarrow> None),
        fail_if (surfaceInstanceId row \<in> set seen) invalid,
        other_namespace (sf_namespace row) (cb_namespace b) invalid,
        fail_if (sf_generation row \<noteq> cb_expectedGeneration b) invalid,
        (case jm_get (ws_interactions copy) (sf_interactionId row) of
           None \<Rightarrow> Some invalid
         | Some i \<Rightarrow> first_exit
             [fail_if (sf_generation row \<noteq> ia_generation i \<or> Some (sf_nativeRunId row) \<noteq> ia_nativeRunId i) invalid,
              surface_row_check row old i,
              fail_if (surface_events b (surfaceInstanceId row) \<noteq> [(row, Some (ia_commandId i))]) invalid,
              fail_if (sf_status row = Surface_invalidated \<and>
                (case (old, jm_get (ws_commands copy) (ia_commandId i)) of
                   (Some o', Some source) \<Rightarrow> \<not> isSettled source \<or> messages row \<noteq> messages o'
                 | _ \<Rightarrow> True)) invalid,
              fail_if (sf_status row = Surface_deleted \<and> ia_status i = Pending) invalid])])"

definition commit_surface ::
  "env \<Rightarrow> limits \<Rightarrow> commit_batch \<Rightarrow> surface_state \<Rightarrow> workspace \<times> id list \<Rightarrow> exit + workspace \<times> id list" where
  "commit_surface e lim b row acc = (case acc of (copy, seen) \<Rightarrow>
     unless_exit (surface_checks e lim b seen copy row)
       (Inr (copy\<lparr>ws_surfaces := jm_set (ws_surfaces copy) (surfaceInstanceId row) row\<rparr>,
             surfaceInstanceId row # seen)))"

definition commit_surfaces :: "env \<Rightarrow> limits \<Rightarrow> commit_batch \<Rightarrow> workspace \<Rightarrow> exit + workspace \<times> id list" where
  "commit_surfaces e lim b copy = loop_exit (commit_surface e lim b) (cb_surfaces b) (copy, [])"

definition surface_events_check :: "commit_batch \<Rightarrow> id list \<Rightarrow> exit option" where
  "surface_events_check b seen = first_exit (map (\<lambda>x. case body x of
     Surface_changed s \<Rightarrow> fail_if (surfaceInstanceId s \<notin> set seen) invalid | _ \<Rightarrow> None) (cb_events b))"

section \<open>Settling and answering\<close>

text \<open>A settled command leaves no pending interaction and no active surface behind.\<close>

definition settles_cleanly :: "workspace \<Rightarrow> id \<Rightarrow> bool" where
  "settles_cleanly copy c \<longleftrightarrow>
     \<not> list_ex (\<lambda>i. ia_commandId i = c \<and> ia_status i = Pending) (interactionsForCommand copy (Some c)) \<and>
     \<not> list_ex (\<lambda>i. list_ex (\<lambda>s. sf_status s = Surface_active \<and>
           map_option ia_commandId (jm_get (ws_interactions copy) (sf_interactionId s)) = Some c)
         (surfacesForInteraction copy (Some (interactionId i)))) (interactionsForCommand copy (Some c))"

definition settle_check :: "commit_batch \<Rightarrow> workspace \<Rightarrow> exit option" where
  "settle_check b copy = first_exit (map (\<lambda>c.
     fail_if (isSettled c \<and> \<not> settles_cleanly copy (record_id c)) invalid) (cb_commands b))"

definition surface_fence :: "workspace \<Rightarrow> interaction \<Rightarrow> surface_reference option \<Rightarrow> exit option" where
  "surface_fence copy i ref =
     fail_if ((surfacesForInteraction copy (Some (interactionId i)) \<noteq> [] \<or> ref \<noteq> None) \<and>
       (case ref of None \<Rightarrow> True | Some r \<Rightarrow> (case jm_get (ws_surfaces copy) (sr_instanceId r) of
          None \<Rightarrow> True
        | Some s \<Rightarrow> sf_status s \<noteq> Surface_active \<or> sf_interactionId s \<noteq> interactionId i \<or>
            sf_revision s \<noteq> sr_revision r))) stale"

definition answer_fence :: "commit_batch \<Rightarrow> workspace \<Rightarrow> exit option" where
  "answer_fence b copy = first_exit (map (\<lambda>i.
     if ia_status i \<noteq> Answered then None
     else case Option.bind (responseCommandId i) (jm_get (ws_commands copy)) of
       None \<Rightarrow> Some Js_error
     | Some response \<Rightarrow> (case input_of (cr_command response) of
         Respond j g r a s \<Rightarrow> surface_fence copy i s | _ \<Rightarrow> Some invalid)) (cb_interactions b))"

end
