(* ===== verification/Session_Commit.thy ===== *)
theory Session_Commit
  imports Commit_Rows
begin

text \<open>
  The commit transition: \<^verbatim>\<open>reduceCommit\<close> composed of its blocks, and \<^verbatim>\<open>commitSession\<close>, its
  guarded public face. The second half of the theory is what a successful commit guarantees
  about the workspace it returns.
\<close>

section \<open>The transition\<close>

text \<open>Everything after the head checks, from the fork to the new workspace.\<close>

definition commit_body ::
  "env \<Rightarrow> limits \<Rightarrow> workspace \<Rightarrow> commit_batch \<Rightarrow> bool \<Rightarrow> context_stage \<Rightarrow> facts \<Rightarrow> exit + workspace" where
  "commit_body e lim st b accepting cur facts =
     and_then (commit_commands st b accepting cur facts) (\<lambda>lp.
     unless_exit (first_exit
       [facts_used facts (lp_commandIds lp),
        single_turn (lp_copy lp),
        with_value (activeStage (cb_session b))
          (\<lambda>nxt. binding_move (lp_copy lp) facts (stage_binding cur) (stage_binding nxt))])
     (and_then (commit_events st b accepting facts (lp_commandIds lp) (lp_copy lp)) (\<lambda>copy1.
      and_then (commit_interactions b copy1) (\<lambda>(copy2, interactionIds).
      unless_exit (interaction_events_check st b copy2 interactionIds)
     (and_then (commit_deliveries e lim b copy2) (\<lambda>copy3.
      and_then (commit_surfaces e lim b copy3) (\<lambda>(copy4, surfaceIds).
      unless_exit (first_exit
       [surface_events_check b surfaceIds,
        settle_check b copy4,
        answer_fence b copy4])
     (Inr (copy4\<lparr>ws_session := cb_session b\<rparr>)))))))))"

definition reduceCommit ::
  "env \<Rightarrow> limits \<Rightarrow> workspace \<Rightarrow> commit_batch \<Rightarrow> bool \<Rightarrow> bool \<Rightarrow> exit + workspace" where
  "reduceCommit e lim st b accepting suspending =
     (let deliveryOnly = isDeliveryCommit st b in
      unless_exit (first_exit
        [checkState (ws_session st) (deliveryOnly \<or> suspending) (cb_expectedRevision b) (cb_expectedGeneration b),
         rows_check e lim b,
         coordinates_check st b deliveryOnly suspending])
      (and_then (activeStage (ws_session st)) (\<lambda>cur.
       unless_exit (stage_check st b cur)
      (and_then (collect_facts e st b) (\<lambda>facts.
       commit_body e lim st b accepting cur facts)))))"

definition commitSession :: "env \<Rightarrow> limits \<Rightarrow> workspace \<Rightarrow> commit_batch \<Rightarrow> workspace result" where
  "commitSession e lim st b = guarded (reduceCommit e lim st b False False)"

section \<open>Decomposition of a successful commit\<close>

text \<open>
  A successful commit has passed every block; this record-free statement of the run is the
  one elimination rule the proofs below use.
\<close>

definition commit_run ::
  "env \<Rightarrow> limits \<Rightarrow> workspace \<Rightarrow> commit_batch \<Rightarrow> bool \<Rightarrow> bool \<Rightarrow> context_stage \<Rightarrow> facts \<Rightarrow> command_loop
     \<Rightarrow> workspace \<Rightarrow> workspace \<Rightarrow> id list \<Rightarrow> workspace \<Rightarrow> workspace \<Rightarrow> id list \<Rightarrow> bool" where
  "commit_run e lim st b accepting suspending cur facts lp copy1 copy2 interactionIds copy3 copy4 surfaceIds \<longleftrightarrow>
     checkState (ws_session st) (isDeliveryCommit st b \<or> suspending) (cb_expectedRevision b) (cb_expectedGeneration b) = None \<and>
     rows_check e lim b = None \<and>
     coordinates_check st b (isDeliveryCommit st b) suspending = None \<and>
     activeStage (ws_session st) = Inr cur \<and>
     stage_check st b cur = None \<and>
     collect_facts e st b = Inr facts \<and>
     commit_commands st b accepting cur facts = Inr lp \<and>
     facts_used facts (lp_commandIds lp) = None \<and>
     single_turn (lp_copy lp) = None \<and>
     (\<exists>nxt. activeStage (cb_session b) = Inr nxt \<and>
        binding_move (lp_copy lp) facts (stage_binding cur) (stage_binding nxt) = None) \<and>
     commit_events st b accepting facts (lp_commandIds lp) (lp_copy lp) = Inr copy1 \<and>
     commit_interactions b copy1 = Inr (copy2, interactionIds) \<and>
     interaction_events_check st b copy2 interactionIds = None \<and>
     commit_deliveries e lim b copy2 = Inr copy3 \<and>
     commit_surfaces e lim b copy3 = Inr (copy4, surfaceIds) \<and>
     surface_events_check b surfaceIds = None \<and>
     settle_check b copy4 = None \<and>
     answer_fence b copy4 = None"

lemma reduceCommit_run:
  assumes "reduceCommit e lim st b accepting suspending = Inr st'"
  obtains cur facts lp copy1 copy2 interactionIds copy3 copy4 surfaceIds where
    "commit_run e lim st b accepting suspending cur facts lp copy1 copy2 interactionIds copy3 copy4 surfaceIds"
    "st' = copy4\<lparr>ws_session := cb_session b\<rparr>"
proof -
  obtain cur facts where head: "checkState (ws_session st) (isDeliveryCommit st b \<or> suspending)
        (cb_expectedRevision b) (cb_expectedGeneration b) = None" "rows_check e lim b = None"
      "coordinates_check st b (isDeliveryCommit st b) suspending = None"
      "activeStage (ws_session st) = Inr cur" "stage_check st b cur = None" "collect_facts e st b = Inr facts"
    and rest: "commit_body e lim st b accepting cur facts = Inr st'"
    using assms by (auto simp: reduceCommit_def Let_def)
  from rest obtain lp copy1 copy2 interactionIds copy3 copy4 surfaceIds where
    "commit_run e lim st b accepting suspending cur facts lp copy1 copy2 interactionIds copy3 copy4 surfaceIds"
    "st' = copy4\<lparr>ws_session := cb_session b\<rparr>"
    unfolding commit_body_def commit_run_def using head by auto
  then show ?thesis by (rule that)
qed

section \<open>Frames: what each loop leaves alone\<close>

lemma commit_commands_frame:
  assumes "commit_commands st b accepting cur facts = Inr lp"
  shows "ws_events (lp_copy lp) = ws_events st" "ws_interactions (lp_copy lp) = ws_interactions st"
    "ws_deliveries (lp_copy lp) = ws_deliveries st" "ws_surfaces (lp_copy lp) = ws_surfaces st"
    "ws_generations (lp_copy lp) = ws_generations st" "ws_session (lp_copy lp) = ws_session st"
    "ws_commands (lp_copy lp) = upsert record_id (cb_commands b) (ws_commands st)"
    "lp_commandIds lp = rev (map record_id (cb_commands b))"
  using loop_exit_invariant [OF assms [unfolded commit_commands_def], of "\<lambda>past lp.
      lp_copy lp = st\<lparr>ws_commands := upsert record_id past (ws_commands st)\<rparr> \<and>
      lp_commandIds lp = rev (map record_id past)"]
  by (auto simp: commit_command_def)

lemma commit_events_frame:
  assumes "commit_events st b accepting facts ids copy = Inr copy1"
  shows "copy1 = copy\<lparr>ws_events := ws_events copy @ cb_events b\<rparr>"
proof -
  obtain lp where lp: "loop_exit (commit_event st b accepting facts ids) (cb_events b)
        \<lparr>el_copy = copy, el_index = 0, el_ids = []\<rparr> = Inr lp" and c: "copy1 = el_copy lp"
    using assms by (auto simp: commit_events_def)
  have "el_copy lp = copy\<lparr>ws_events := ws_events copy @ cb_events b\<rparr>"
    by (rule loop_exit_invariant [OF lp, of "\<lambda>past lp. el_copy lp = copy\<lparr>ws_events := ws_events copy @ past\<rparr>"])
       (auto simp: commit_event_def)
  then show ?thesis by (simp add: c)
qed

text \<open>
  The three row loops have one shape: check a row against what is stored and seen so far,
  store it, remember its key.
\<close>

lemma row_loop:
  assumes run: "loop_exit f xs (s0, []) = Inr (s', ids)"
    and f: "\<And>x s seen. f x (s, seen) = unless_exit (chk seen s x) (Inr (upd x s, key x # seen))"
  shows "s' = fold upd xs s0" "ids = rev (map key xs)"
    and "past @ x # future = xs \<Longrightarrow> chk (rev (map key past)) (fold upd past s0) x = None"
proof -
  let ?I = "\<lambda>past acc. acc = (fold upd past s0, rev (map key past)) \<and>
    (\<forall>p x q. p @ x # q = past \<longrightarrow> chk (rev (map key p)) (fold upd p s0) x = None)"
  have "?I xs (s', ids)"
  proof (rule loop_exit_invariant [OF run, of ?I], goal_cases)
    case (2 past x t t')
    then have x: "chk (rev (map key past)) (fold upd past s0) x = None"
      and t': "t' = (upd x (fold upd past s0), key x # rev (map key past))"
      by (simp_all add: f)
    have "chk (rev (map key p)) (fold upd p s0) y = None" if p: "p @ y # q = past @ [x]" for p y q
    proof (cases q rule: rev_cases)
      case Nil
      then show ?thesis using p x by auto
    next
      case (snoc q' z)
      then have "p @ y # q' = past" using p by simp
      then show ?thesis using 2(3) by blast
    qed
    then show ?case using t' by simp
  qed simp
  then show "s' = fold upd xs s0" "ids = rev (map key xs)"
    "past @ x # future = xs \<Longrightarrow> chk (rev (map key past)) (fold upd past s0) x = None" by blast+
qed

lemma row_loop_distinct:
  assumes "\<And>past x future. past @ x # future = xs \<Longrightarrow> key x \<notin> key ` set past"
  shows "distinct (map key xs)"
  using assms
proof (induction xs rule: rev_induct)
  case (snoc x xs)
  have "key y \<notin> key ` set past" if "past @ y # future = xs" for past y future
    using snoc.prems [of "past" y "future @ [x]"] that by simp
  then show ?case using snoc.IH snoc.prems [of xs x "[]"] by auto
qed simp

lemma fold_interactions:
  "fold (\<lambda>i w. w\<lparr>ws_interactions := jm_set (ws_interactions w) (interactionId i) i\<rparr>) xs w =
     w\<lparr>ws_interactions := upsert interactionId xs (ws_interactions w)\<rparr>"
  by (induction xs arbitrary: w) (simp_all add: upsert_Cons)

lemma fold_deliveries:
  "fold (\<lambda>d w. w\<lparr>ws_deliveries := jm_set (ws_deliveries w) (operationId d) d\<rparr>) xs w =
     w\<lparr>ws_deliveries := upsert operationId xs (ws_deliveries w)\<rparr>"
  by (induction xs arbitrary: w) (simp_all add: upsert_Cons)

lemma fold_surfaces:
  "fold (\<lambda>s w. w\<lparr>ws_surfaces := jm_set (ws_surfaces w) (surfaceInstanceId s) s\<rparr>) xs w =
     w\<lparr>ws_surfaces := upsert surfaceInstanceId xs (ws_surfaces w)\<rparr>"
  by (induction xs arbitrary: w) (simp_all add: upsert_Cons)

lemma commit_interactions_loop:
  assumes "commit_interactions b copy = Inr (copy', ids)"
  shows "copy' = copy\<lparr>ws_interactions := upsert interactionId (cb_interactions b) (ws_interactions copy)\<rparr>"
    "ids = rev (map interactionId (cb_interactions b))"
    "past @ row # future = cb_interactions b \<Longrightarrow> interaction_checks b (rev (map interactionId past))
      (copy\<lparr>ws_interactions := upsert interactionId past (ws_interactions copy)\<rparr>) row = None"
  using row_loop [OF assms [unfolded commit_interactions_def], where chk = "interaction_checks b"
      and key = interactionId and upd = "\<lambda>i w. w\<lparr>ws_interactions := jm_set (ws_interactions w) (interactionId i) i\<rparr>"]
  by (simp_all add: commit_interaction_def fold_interactions)

lemma commit_deliveries_loop:
  assumes "commit_deliveries e lim b copy = Inr copy'"
  shows "copy' = copy\<lparr>ws_deliveries := upsert operationId (cb_deliveries b) (ws_deliveries copy)\<rparr>"
    "past @ row # future = cb_deliveries b \<Longrightarrow> delivery_checks e lim b (rev (map operationId past))
      (copy\<lparr>ws_deliveries := upsert operationId past (ws_deliveries copy)\<rparr>) row = None"
proof -
  obtain ids where "loop_exit (commit_delivery e lim b) (cb_deliveries b) (copy, []) = Inr (copy', ids)"
    using assms by (auto simp: commit_deliveries_def)
  from row_loop [OF this, where chk = "delivery_checks e lim b"
      and key = operationId and upd = "\<lambda>d w. w\<lparr>ws_deliveries := jm_set (ws_deliveries w) (operationId d) d\<rparr>"]
  show "copy' = copy\<lparr>ws_deliveries := upsert operationId (cb_deliveries b) (ws_deliveries copy)\<rparr>"
    "past @ row # future = cb_deliveries b \<Longrightarrow> delivery_checks e lim b (rev (map operationId past))
      (copy\<lparr>ws_deliveries := upsert operationId past (ws_deliveries copy)\<rparr>) row = None"
    by (simp_all add: commit_delivery_def fold_deliveries)
qed

lemma commit_surfaces_loop:
  assumes "commit_surfaces e lim b copy = Inr (copy', ids)"
  shows "copy' = copy\<lparr>ws_surfaces := upsert surfaceInstanceId (cb_surfaces b) (ws_surfaces copy)\<rparr>"
    "ids = rev (map surfaceInstanceId (cb_surfaces b))"
    "past @ row # future = cb_surfaces b \<Longrightarrow> surface_checks e lim b (rev (map surfaceInstanceId past))
      (copy\<lparr>ws_surfaces := upsert surfaceInstanceId past (ws_surfaces copy)\<rparr>) row = None"
  using row_loop [OF assms [unfolded commit_surfaces_def], where chk = "surface_checks e lim b"
      and key = surfaceInstanceId and upd = "\<lambda>s w. w\<lparr>ws_surfaces := jm_set (ws_surfaces w) (surfaceInstanceId s) s\<rparr>"]
  by (simp_all add: commit_surface_def fold_surfaces)

text \<open>
  The whole effect of a commit: the batch's rows upserted, its events appended, its session
  installed, and nothing else.
\<close>

definition applied :: "workspace \<Rightarrow> commit_batch \<Rightarrow> workspace" where
  "applied st b = \<lparr>ws_session = cb_session b, ws_generations = ws_generations st,
     ws_commands = upsert record_id (cb_commands b) (ws_commands st),
     ws_events = ws_events st @ cb_events b,
     ws_interactions = upsert interactionId (cb_interactions b) (ws_interactions st),
     ws_deliveries = upsert operationId (cb_deliveries b) (ws_deliveries st),
     ws_surfaces = upsert surfaceInstanceId (cb_surfaces b) (ws_surfaces st)\<rparr>"

lemma commit_run_applied:
  assumes run: "commit_run e lim st b accepting suspending cur facts lp copy1 copy2 is copy3 copy4 ss"
  shows "copy4\<lparr>ws_session := cb_session b\<rparr> = applied st b"
    and "ws_commands (lp_copy lp) = ws_commands (applied st b)" "ws_commands copy1 = ws_commands (applied st b)"
    "ws_commands copy2 = ws_commands (applied st b)" "ws_commands copy3 = ws_commands (applied st b)"
    "ws_commands copy4 = ws_commands (applied st b)"
    "ws_interactions copy2 = ws_interactions (applied st b)"
    "ws_interactions copy3 = ws_interactions (applied st b)" "ws_interactions copy4 = ws_interactions (applied st b)"
    "ws_surfaces copy4 = ws_surfaces (applied st b)"
    "ws_interactions copy1 = ws_interactions st" "ws_surfaces copy3 = ws_surfaces st"
    "ws_deliveries copy2 = ws_deliveries st" "ws_events copy2 = ws_events (applied st b)"
proof -
  note r = run [unfolded commit_run_def]
  have c: "commit_commands st b accepting cur facts = Inr lp" using r by blast
  have ev: "commit_events st b accepting facts (lp_commandIds lp) (lp_copy lp) = Inr copy1" using r by blast
  have i: "commit_interactions b copy1 = Inr (copy2, is)" using r by blast
  have d: "commit_deliveries e lim b copy2 = Inr copy3" using r by blast
  have s: "commit_surfaces e lim b copy3 = Inr (copy4, ss)" using r by blast
  note f = commit_commands_frame [OF c] commit_events_frame [OF ev] commit_interactions_loop(1) [OF i]
    commit_deliveries_loop(1) [OF d] commit_surfaces_loop(1) [OF s]
  show "copy4\<lparr>ws_session := cb_session b\<rparr> = applied st b"
    "ws_commands (lp_copy lp) = ws_commands (applied st b)" "ws_commands copy1 = ws_commands (applied st b)"
    "ws_commands copy2 = ws_commands (applied st b)" "ws_commands copy3 = ws_commands (applied st b)"
    "ws_commands copy4 = ws_commands (applied st b)"
    "ws_interactions copy2 = ws_interactions (applied st b)"
    "ws_interactions copy3 = ws_interactions (applied st b)" "ws_interactions copy4 = ws_interactions (applied st b)"
    "ws_surfaces copy4 = ws_surfaces (applied st b)"
    "ws_interactions copy1 = ws_interactions st" "ws_surfaces copy3 = ws_surfaces st"
    "ws_deliveries copy2 = ws_deliveries st" "ws_events copy2 = ws_events (applied st b)"
    using f by (simp_all add: applied_def)
qed

end
