(* ===== verification/Commit_Facts.thy ===== *)
theory Commit_Facts
  imports Session_Commit
begin

text \<open>
  What a successful commit says about each row of its batch: the checks of every loop
  iteration, restated over the batch, the workspace before and the workspace after.
\<close>

section \<open>Head\<close>

lemma run_head:
  assumes "commit_run e lim st b accepting suspending cur facts lp copy1 copy2 is copy3 copy4 ss"
  shows "activeStage (ws_session st) = Inr cur"
    "revision (ws_session st) = cb_expectedRevision b"
    "generation (stage_binding cur) = cb_expectedGeneration b"
    "cb_namespace b = ss_namespace (ws_session st)" "ss_namespace (cb_session b) = ss_namespace (ws_session st)"
    "schema_namespace (ss_namespace (ws_session st))"
    "revision (cb_session b) = revision (ws_session st) + 1"
    "lastSequence (cb_session b) = lastSequence (ws_session st) + int (length (cb_events b))"
    "schema_session (cb_session b)" "context_session (cb_session b)"
    "currentStageId (cb_session b) = currentStageId (ws_session st)"
    "selectedConnectionId (cb_session b) = selectedConnectionId (ws_session st)"
    "freshContext (cb_session b) = freshContext (ws_session st)"
    "butlast (stages (cb_session b)) = butlast (stages (ws_session st))"
    "collect_facts e st b = Inr facts" "commit_commands st b accepting cur facts = Inr lp"
proof -
  note r = assms [unfolded commit_run_def checkState_None]
  show "activeStage (ws_session st) = Inr cur" "collect_facts e st b = Inr facts"
    "commit_commands st b accepting cur facts = Inr lp" using r by blast+
  show "revision (ws_session st) = cb_expectedRevision b"
    "generation (stage_binding cur) = cb_expectedGeneration b" using r by auto
  have c: "coordinates_check st b (isDeliveryCommit st b) suspending = None" using r by blast
  show "cb_namespace b = ss_namespace (ws_session st)" "ss_namespace (cb_session b) = ss_namespace (ws_session st)"
    "schema_namespace (ss_namespace (ws_session st))"
    "revision (cb_session b) = revision (ws_session st) + 1"
    "lastSequence (cb_session b) = lastSequence (ws_session st) + int (length (cb_events b))"
    using c by (auto simp: coordinates_check_def)
  have "rows_check e lim b = None" using r by blast
  then have "valid (env_digest e) lim (Row_session (cb_session b)) = None"
    by (simp add: rows_check_def batch_rows_def)
  then show "schema_session (cb_session b)" "context_session (cb_session b)" by (auto simp: valid_None)
  have "stage_check st b cur = None" using r by blast
  then show "currentStageId (cb_session b) = currentStageId (ws_session st)"
    "selectedConnectionId (cb_session b) = selectedConnectionId (ws_session st)"
    "freshContext (cb_session b) = freshContext (ws_session st)"
    "butlast (stages (cb_session b)) = butlast (stages (ws_session st))"
    by (auto simp: stage_check_def)
qed

lemma run_status:
  assumes "commit_run e lim st b accepting suspending cur facts lp copy1 copy2 is copy3 copy4 ss"
  shows "status (cb_session b) = status (ws_session st)"
proof (cases "isDeliveryCommit st b")
  case True
  then have "(cb_session b)\<lparr>revision := revision (ws_session st), lastSequence := lastSequence (ws_session st)\<rparr> = ws_session st"
    by (simp add: isDeliveryCommit_def)
  from arg_cong [OF this, of status] show ?thesis by simp
next
  case False
  then show ?thesis
    using assms by (auto simp: commit_run_def checkState_None coordinates_check_def)
qed

lemma run_row_valid:
  assumes "commit_run e lim st b accepting suspending cur facts lp copy1 copy2 is copy3 copy4 ss"
    and "row \<in> set (batch_rows b)"
  shows "schema_row row" "checkContext (env_digest e) row"
proof -
  have "rows_check e lim b = None" using assms(1) by (simp add: commit_run_def)
  then have "valid (env_digest e) lim row = None" using assms(2) by (auto simp: rows_check_def)
  then show "schema_row row" "checkContext (env_digest e) row" by (auto simp: valid_None)
qed

section \<open>Facts\<close>

text \<open>Every collected fact was minted and matches the record it is used for.\<close>

lemma collect_facts_sound:
  assumes "collect_facts e st b = Inr facts" "jm_get facts i = Some r"
  shows "\<exists>p \<in> set (cb_providerFacts b). \<exists>row. pf_commandId p = i \<and> jm_get (ws_commands st) i = Some row \<and>
    providerFactFor (env_evidence e) p (ws_session st) row = Inr (Some r)"
proof -
  have "\<forall>i r. jm_get facts i = Some r \<longrightarrow> (\<exists>p \<in> set (cb_providerFacts b). \<exists>row. pf_commandId p = i \<and>
      jm_get (ws_commands st) i = Some row \<and> providerFactFor (env_evidence e) p (ws_session st) row = Inr (Some r))"
  proof (rule loop_exit_invariant [OF assms(1) [unfolded collect_facts_def], of "\<lambda>past facts.
      \<forall>i r. jm_get facts i = Some r \<longrightarrow> (\<exists>p \<in> set (cb_providerFacts b). \<exists>row. pf_commandId p = i \<and>
      jm_get (ws_commands st) i = Some row \<and> providerFactFor (env_evidence e) p (ws_session st) row = Inr (Some r))"],
      goal_cases)
    case (2 past p t t')
    obtain row r where "jm_get (ws_commands st) (pf_commandId p) = Some row"
      "providerFactFor (env_evidence e) p (ws_session st) row = Inr (Some r)"
      "t' = jm_set t (pf_commandId p) r"
      using 2(4) by (auto simp: take_fact_def split: option.splits if_splits)
    then show ?case using 2(2,3) by auto
  qed simp
  with assms(2) show ?thesis by blast
qed

section \<open>Commands\<close>

lemma run_commands:
  assumes "commit_commands st b accepting cur facts = Inr lp"
  shows "distinct (map record_id (cb_commands b))"
    and "c \<in> set (cb_commands b) \<Longrightarrow> \<exists>lp'. command_checks st b accepting cur facts lp' c = None"
proof -
  have "distinct (map record_id (cb_commands b)) \<and> lp_commandIds lp = rev (map record_id (cb_commands b)) \<and>
      (\<forall>c \<in> set (cb_commands b). \<exists>lp'. command_checks st b accepting cur facts lp' c = None)"
  proof (rule loop_exit_invariant [OF assms [unfolded commit_commands_def], of "\<lambda>past lp.
      distinct (map record_id past) \<and> lp_commandIds lp = rev (map record_id past) \<and>
      (\<forall>c \<in> set past. \<exists>lp'. command_checks st b accepting cur facts lp' c = None)"], goal_cases)
    case (2 past x t t')
    have x: "command_checks st b accepting cur facts t x = None"
      and t': "lp_commandIds t' = record_id x # lp_commandIds t"
      using 2(4) by (auto simp: commit_command_def)
    from x have "record_id x \<notin> set (lp_commandIds t)"
      by (simp add: command_checks_def command_identity_def Let_def)
    with 2(3) x t' show ?case by auto
  qed simp
  then show "distinct (map record_id (cb_commands b))"
    "c \<in> set (cb_commands b) \<Longrightarrow> \<exists>lp'. command_checks st b accepting cur facts lp' c = None" by auto
qed

text \<open>The checks of one command, with its predecessor and its fact named.\<close>

lemma run_command:
  assumes run: "commit_run e lim st b accepting suspending cur facts lp copy1 copy2 is copy3 copy4 ss"
    and c: "c \<in> set (cb_commands b)"
    and old: "old = jm_get (ws_commands st) (record_id c)" and res: "res = jm_get facts (record_id c)"
  obtains seen attempted where "command_identity st b accepting cur seen c old = None"
    "resolution_check b cur c old res = None" "dispatch_check st b cur attempted c old res = None"
    "dispatch_witness b c old = None" "provider_gate c old res = None"
    "invalidated_check st b c old res = None" "cancelled_check b c old = None"
    "acknowledged_check b c old res = None" "terminal_check b c old = None"
    "status_witness b c old res = None"
  using run_commands(2) [OF run_head(16) [OF run] c] old res
  by (auto simp: command_checks_def Let_def)

lemma run_commands_distinct:
  assumes "commit_run e lim st b accepting suspending cur facts lp copy1 copy2 is copy3 copy4 ss"
  shows "distinct (map record_id (cb_commands b))"
  by (rule run_commands(1) [OF run_head(16) [OF assms]])

text \<open>After the commit a command is the one of the batch, or the one there was.\<close>

lemma applied_command_cases:
  assumes "jm_get (ws_commands (applied st b)) k = Some c"
  obtains (new) "c \<in> set (cb_commands b)" "record_id c = k"
    | (kept) "k \<notin> record_id ` set (cb_commands b)" "jm_get (ws_commands st) k = Some c"
  using assms by (auto simp: applied_def elim: upsert_cases)

lemma applied_command_new:
  assumes "commit_run e lim st b accepting suspending cur facts lp copy1 copy2 is copy3 copy4 ss"
    and "c \<in> set (cb_commands b)"
  shows "jm_get (ws_commands (applied st b)) (record_id c) = Some c"
  using upsert_get [OF run_commands_distinct [OF assms(1)] assms(2)] by (simp add: applied_def)

section \<open>Events\<close>

lemma run_events:
  assumes "commit_events st b accepting facts ids copy = Inr copy1"
  shows "distinct (map eventId (cb_events b))"
    and "i < length (cb_events b) \<Longrightarrow> \<exists>lp. ws_commands (el_copy lp) = ws_commands copy \<and> el_index lp = i \<and>
      event_checks st b accepting facts ids (cb_events b ! i) lp = None"
proof -
  obtain lp where lp: "loop_exit (commit_event st b accepting facts ids) (cb_events b)
        \<lparr>el_copy = copy, el_index = 0, el_ids = []\<rparr> = Inr lp"
    using assms by (auto simp: commit_events_def)
  let ?I = "\<lambda>past lp. distinct (map eventId past) \<and> el_ids lp = rev (map eventId past) \<and>
    el_index lp = length past \<and> ws_commands (el_copy lp) = ws_commands copy \<and>
    (\<forall>i < length past. \<exists>lp. ws_commands (el_copy lp) = ws_commands copy \<and> el_index lp = i \<and>
      event_checks st b accepting facts ids (past ! i) lp = None)"
  have "?I (cb_events b) lp"
  proof (rule loop_exit_invariant [OF lp, of ?I], goal_cases)
    case (2 past x t t')
    have x: "event_checks st b accepting facts ids x t = None"
      and t': "t' = \<lparr>el_copy = (el_copy t)\<lparr>ws_events := ws_events (el_copy t) @ [x]\<rparr>,
             el_index = Suc (el_index t), el_ids = eventId x # el_ids t\<rparr>"
      using 2(4) by (auto simp: commit_event_def)
    from x have fresh: "eventId x \<notin> set (el_ids t)"
      by (simp add: event_checks_def event_position_def)
    have "\<exists>lp. ws_commands (el_copy lp) = ws_commands copy \<and> el_index lp = i \<and>
        event_checks st b accepting facts ids ((past @ [x]) ! i) lp = None" if i: "i < length (past @ [x])" for i
    proof (cases "i = length past")
      case True
      then show ?thesis using x 2(3) by (intro exI [of _ t]) simp
    next
      case False
      then have "i < length past" using i by simp
      then show ?thesis using 2(3) by (simp add: nth_append)
    qed
    then show ?case using 2(3) fresh t' by auto
  qed simp
  then show "distinct (map eventId (cb_events b))"
    "i < length (cb_events b) \<Longrightarrow> \<exists>lp. ws_commands (el_copy lp) = ws_commands copy \<and> el_index lp = i \<and>
      event_checks st b accepting facts ids (cb_events b ! i) lp = None" by auto
qed

lemma run_event:
  assumes run: "commit_run e lim st b accepting suspending cur facts lp copy1 copy2 is copy3 copy4 ss"
    and i: "i < length (cb_events b)"
  obtains cid source where "ev_commandId (cb_events b ! i) = Some cid"
    "jm_get (ws_commands (applied st b)) cid = Some source"
    "ev_namespace (cb_events b ! i) = ss_namespace (ws_session st)"
    "ev_generation (cb_events b ! i) = cb_expectedGeneration b"
    "sequence (cb_events b ! i) = lastSequence (ws_session st) + int i + 1"
    "\<not> hasEvent st (eventId (cb_events b ! i))"
    "event_body_check b accepting facts (lp_commandIds lp) (cb_events b ! i) cid source
       (jm_get (ws_commands st) cid) = None"
    "event_attempt_check b (cb_events b ! i) source (jm_get (ws_commands st) cid) = None"
    "is_output (body (cb_events b ! i)) \<Longrightarrow> isSettled source \<Longrightarrow> is_invalidated_surface (body (cb_events b ! i))"
    "is_command_fact (body (cb_events b ! i)) \<Longrightarrow> cid \<in> set (lp_commandIds lp)"
proof -
  have ev: "commit_events st b accepting facts (lp_commandIds lp) (lp_copy lp) = Inr copy1"
    using run by (simp add: commit_run_def)
  obtain el where el: "ws_commands (el_copy el) = ws_commands (lp_copy lp)" "el_index el = i"
    "event_checks st b accepting facts (lp_commandIds lp) (cb_events b ! i) el = None"
    using run_events(2) [OF ev i] by blast
  have cmds: "ws_commands (lp_copy lp) = ws_commands (applied st b)"
    using commit_run_applied(2) [OF run] .
  show ?thesis
    using el(3) run_head(4) [OF run] that
    by (auto simp: event_checks_def event_position_def el(1,2) cmds Let_def split: option.splits)
qed

lemma run_event_basic:
  assumes run: "commit_run e lim st b accepting suspending cur facts lp copy1 copy2 is copy3 copy4 ss"
    and x: "x \<in> set (cb_events b)"
  shows "\<not> hasEvent st (eventId x)" "ev_namespace x = ss_namespace (ws_session st)"
    "ev_generation x = cb_expectedGeneration b"
    "\<exists>c. ev_commandId x = Some c \<and> jm_has (ws_commands (applied st b)) c"
proof -
  obtain j where j: "j < length (cb_events b)" "cb_events b ! j = x" using x by (auto simp: in_set_conv_nth)
  have "\<not> hasEvent st (eventId x) \<and> ev_namespace x = ss_namespace (ws_session st) \<and>
    ev_generation x = cb_expectedGeneration b \<and>
    (\<exists>c. ev_commandId x = Some c \<and> jm_has (ws_commands (applied st b)) c)"
  proof (rule run_event [OF run j(1), unfolded j(2)])
    fix cid source
    assume "ev_commandId x = Some cid" "jm_get (ws_commands (applied st b)) cid = Some source"
      "ev_namespace x = ss_namespace (ws_session st)" "ev_generation x = cb_expectedGeneration b"
      "\<not> hasEvent st (eventId x)"
    then show ?thesis by (simp add: jm_get_has)
  qed
  then show "\<not> hasEvent st (eventId x)" "ev_namespace x = ss_namespace (ws_session st)"
    "ev_generation x = cb_expectedGeneration b"
    "\<exists>c. ev_commandId x = Some c \<and> jm_has (ws_commands (applied st b)) c" by simp_all
qed

lemma run_events_distinct:
  assumes "commit_run e lim st b accepting suspending cur facts lp copy1 copy2 is copy3 copy4 ss"
  shows "distinct (map eventId (cb_events b))"
  using assms by (auto simp: commit_run_def intro: run_events(1))

section \<open>Rows stored under distinct keys\<close>

lemma run_interactions_distinct:
  assumes "commit_interactions b copy = Inr (copy', ids)"
  shows "distinct (map interactionId (cb_interactions b))"
  by (rule row_loop_distinct)
     (drule commit_interactions_loop(3) [OF assms], auto simp: interaction_checks_def Let_def)

lemma run_deliveries_distinct:
  assumes "commit_deliveries e lim b copy = Inr copy'"
  shows "distinct (map operationId (cb_deliveries b))"
  by (rule row_loop_distinct)
     (drule commit_deliveries_loop(2) [OF assms], auto simp: delivery_checks_def Let_def)

lemma run_surfaces_distinct:
  assumes "commit_surfaces e lim b copy = Inr (copy', ids)"
  shows "distinct (map surfaceInstanceId (cb_surfaces b))"
  by (rule row_loop_distinct)
     (drule commit_surfaces_loop(3) [OF assms], auto simp: surface_checks_def Let_def)

end
