(* ===== verification/Session_Invariant.thy ===== *)
theory Session_Invariant
  imports Commit_Facts
begin

text \<open>
  The workspace invariant, and its preservation by a commit. The succession relations say
  how one record may follow another; the invariant links the five tables.
\<close>

section \<open>Succession\<close>

text \<open>
  A command keeps its content and receipt, a settled one is frozen, and a submission is
  permanent together with its attempt.
\<close>

definition record_succeeds :: "command_record \<Rightarrow> command_record \<Rightarrow> bool" where
  "record_succeeds c c' \<longleftrightarrow>
     cr_command c' = cr_command c \<and> cr_receipt c' = cr_receipt c \<and> (isSettled c \<longrightarrow> c' = c) \<and>
     (submitted c \<longrightarrow> submitted c' \<and> map_option attemptId (dispatch c') = map_option attemptId (dispatch c))"

definition interaction_succeeds :: "interaction \<Rightarrow> interaction \<Rightarrow> bool" where
  "interaction_succeeds i i' \<longleftrightarrow>
     interaction_identity i' = interaction_identity i \<and> (ia_status i \<noteq> Pending \<longrightarrow> i' = i)"

definition surface_succeeds :: "surface_state \<Rightarrow> surface_state \<Rightarrow> bool" where
  "surface_succeeds s s' \<longleftrightarrow>
     surface_identity s' = surface_identity s \<and> (sf_status s \<noteq> Surface_active \<longrightarrow> s' = s)"

text \<open>Every row of one table has a successor in the next.\<close>

definition table_succeeds :: "('v \<Rightarrow> 'v \<Rightarrow> bool) \<Rightarrow> ('k, 'v) jsmap \<Rightarrow> ('k, 'v) jsmap \<Rightarrow> bool" where
  "table_succeeds R m m' \<longleftrightarrow> (\<forall>k v. jm_get m k = Some v \<longrightarrow> (\<exists>v'. jm_get m' k = Some v' \<and> R v v'))"

definition ws_succeeds :: "workspace \<Rightarrow> workspace \<Rightarrow> bool" where
  "ws_succeeds w w' \<longleftrightarrow>
     table_succeeds record_succeeds (ws_commands w) (ws_commands w') \<and>
     table_succeeds interaction_succeeds (ws_interactions w) (ws_interactions w') \<and>
     table_succeeds surface_succeeds (ws_surfaces w) (ws_surfaces w') \<and>
     (\<exists>es. ws_events w' = ws_events w @ es) \<and>
     ss_namespace (ws_session w') = ss_namespace (ws_session w)"

lemma record_succeeds_refl [simp]: "record_succeeds c c"
  by (simp add: record_succeeds_def)

lemma interaction_succeeds_refl [simp]: "interaction_succeeds i i"
  by (simp add: interaction_succeeds_def)

lemma surface_succeeds_refl [simp]: "surface_succeeds s s"
  by (simp add: surface_succeeds_def)

lemma record_succeeds_trans:
  "record_succeeds a b \<Longrightarrow> record_succeeds b c \<Longrightarrow> record_succeeds a c"
  by (auto simp: record_succeeds_def)

lemma interaction_succeeds_trans:
  "interaction_succeeds a b \<Longrightarrow> interaction_succeeds b c \<Longrightarrow> interaction_succeeds a c"
  by (auto simp: interaction_succeeds_def)

lemma surface_succeeds_trans:
  "surface_succeeds a b \<Longrightarrow> surface_succeeds b c \<Longrightarrow> surface_succeeds a c"
  by (auto simp: surface_succeeds_def)

lemma table_succeeds_refl: "(\<And>v. R v v) \<Longrightarrow> table_succeeds R m m"
  by (simp add: table_succeeds_def)

lemma table_succeeds_trans:
  assumes "\<And>a b c. R a b \<Longrightarrow> R b c \<Longrightarrow> R a c"
    and "table_succeeds R m m'" "table_succeeds R m' m''"
  shows "table_succeeds R m m''"
  using assms unfolding table_succeeds_def by meson

lemma table_succeedsD:
  "table_succeeds R m m' \<Longrightarrow> jm_get m k = Some v \<Longrightarrow> \<exists>v'. jm_get m' k = Some v' \<and> R v v'"
  by (simp add: table_succeeds_def)

lemma ws_succeeds_refl [simp]: "ws_succeeds w w"
  by (simp add: ws_succeeds_def table_succeeds_refl)

lemma ws_succeeds_trans:
  assumes "ws_succeeds a b" "ws_succeeds b c"
  shows "ws_succeeds a c"
proof -
  obtain es fs where "ws_events b = ws_events a @ es" "ws_events c = ws_events b @ fs"
    using assms by (auto simp: ws_succeeds_def)
  then have "ws_events c = ws_events a @ (es @ fs)" by simp
  then have "\<exists>es. ws_events c = ws_events a @ es" ..
  then show ?thesis
    using assms table_succeeds_trans [OF record_succeeds_trans, where m = "ws_commands a" and m' = "ws_commands b" and m'' = "ws_commands c"]
      table_succeeds_trans [OF interaction_succeeds_trans, where m = "ws_interactions a" and m' = "ws_interactions b" and m'' = "ws_interactions c"]
      table_succeeds_trans [OF surface_succeeds_trans, where m = "ws_surfaces a" and m' = "ws_surfaces b" and m'' = "ws_surfaces c"]
    by (simp add: ws_succeeds_def)
qed

lemma interaction_identity_fields:
  assumes "interaction_identity i' = interaction_identity i"
  shows "ia_commandId i' = ia_commandId i" "interactionId i' = interactionId i"
    "ia_generation i' = ia_generation i" "nativeCallbackId i' = nativeCallbackId i"
    "ia_nativeRunId i' = ia_nativeRunId i"
  using arg_cong [OF assms, of ia_commandId] arg_cong [OF assms, of interactionId]
    arg_cong [OF assms, of ia_generation] arg_cong [OF assms, of nativeCallbackId]
    arg_cong [OF assms, of ia_nativeRunId]
  by (simp_all add: interaction_identity_def)

lemma surface_identity_fields:
  assumes "surface_identity s' = surface_identity s"
  shows "sf_interactionId s' = sf_interactionId s" "surfaceInstanceId s' = surfaceInstanceId s"
    "sf_generation s' = sf_generation s"
  using arg_cong [OF assms, of sf_interactionId] arg_cong [OF assms, of surfaceInstanceId]
    arg_cong [OF assms, of sf_generation]
  by (simp_all add: surface_identity_def)

section \<open>The invariant\<close>

definition events_ok :: "workspace \<Rightarrow> bool" where
  "events_ok w \<longleftrightarrow> lastSequence (ws_session w) = int (length (ws_events w)) \<and>
     (\<forall>i < length (ws_events w). sequence (ws_events w ! i) = int i + 1) \<and>
     (\<forall>ev \<in> set (ws_events w). ev_namespace ev = ss_namespace (ws_session w) \<and>
        (\<forall>c. ev_commandId ev = Some c \<longrightarrow> jm_has (ws_commands w) c))"

definition generations_ok :: "workspace \<Rightarrow> bool" where
  "generations_ok w \<longleftrightarrow>
     (\<forall>g \<in> set (stages (ws_session w)). generation (stage_binding g) \<in> set (ws_generations w))"

definition record_ok :: "command_record \<Rightarrow> bool" where
  "record_ok c \<longleftrightarrow> (state_of c \<in> {T_running, T_terminal} \<longrightarrow> submitted c)"

definition commands_ok :: "workspace \<Rightarrow> bool" where
  "commands_ok w \<longleftrightarrow> (\<forall>k c. jm_get (ws_commands w) k = Some c \<longrightarrow> record_ok c) \<and>
     length (filter open_turn (jm_values (ws_commands w))) \<le> 1"

text \<open>An interaction hangs off a submitted command, and is closed once that command settles.\<close>

definition interactions_ok :: "workspace \<Rightarrow> bool" where
  "interactions_ok w \<longleftrightarrow> (\<forall>k i. jm_get (ws_interactions w) k = Some i \<longrightarrow>
     (\<exists>c. jm_get (ws_commands w) (ia_commandId i) = Some c \<and> submitted c \<and>
        (isSettled c \<longrightarrow> ia_status i \<noteq> Pending)))"

definition callbacks_unique :: "(id, interaction) jsmap \<Rightarrow> bool" where
  "callbacks_unique m \<longleftrightarrow> (\<forall>k l i j. jm_get m k = Some i \<longrightarrow> jm_get m l = Some j \<longrightarrow>
     ia_generation i = ia_generation j \<longrightarrow> nativeCallbackId i = nativeCallbackId j \<longrightarrow> k = l)"

definition surfaces_ok :: "workspace \<Rightarrow> bool" where
  "surfaces_ok w \<longleftrightarrow> (\<forall>k s. jm_get (ws_surfaces w) k = Some s \<longrightarrow>
     (\<exists>i. jm_get (ws_interactions w) (sf_interactionId s) = Some i \<and>
        (\<forall>c. jm_get (ws_commands w) (ia_commandId i) = Some c \<longrightarrow> isSettled c \<longrightarrow>
          sf_status s \<noteq> Surface_active)))"

definition ws_inv :: "workspace \<Rightarrow> bool" where
  "ws_inv w \<longleftrightarrow> ws_keyed w \<and> schema_namespace (ss_namespace (ws_session w)) \<and>
     context_session (ws_session w) \<and> events_ok w \<and> generations_ok w \<and> commands_ok w \<and>
     interactions_ok w \<and> callbacks_unique (ws_interactions w) \<and> surfaces_ok w"

lemma interactions_okD:
  "interactions_ok w \<Longrightarrow> jm_get (ws_interactions w) k = Some i \<Longrightarrow>
     \<exists>c. jm_get (ws_commands w) (ia_commandId i) = Some c \<and> submitted c \<and> (isSettled c \<longrightarrow> ia_status i \<noteq> Pending)"
  unfolding interactions_ok_def by blast

lemma surfaces_okD:
  "surfaces_ok w \<Longrightarrow> jm_get (ws_surfaces w) k = Some s \<Longrightarrow>
     \<exists>i. jm_get (ws_interactions w) (sf_interactionId s) = Some i \<and>
       (\<forall>c. jm_get (ws_commands w) (ia_commandId i) = Some c \<longrightarrow> isSettled c \<longrightarrow> sf_status s \<noteq> Surface_active)"
  unfolding surfaces_ok_def by blast

section \<open>A commit is a succession\<close>

lemma is_not_submitted_iff:
  "is_not_submitted res \<longleftrightarrow> (\<exists>r err. res = Some r \<and> rn_status r = Is_not_submitted err)"
proof (cases res)
  case (Some r)
  then show ?thesis by (cases "rn_status r") (auto simp: is_not_submitted_def)
qed (simp add: is_not_submitted_def)

lemma run_record_succeeds:
  assumes run: "commit_run e lim st b accepting suspending cur facts lp copy1 copy2 is copy3 copy4 ss"
    and c: "c \<in> set (cb_commands b)" and old: "jm_get (ws_commands st) (record_id c) = Some c0"
  shows "record_succeeds c0 c"
proof -
  obtain seen attempted where
    ident: "command_identity st b accepting cur seen c (Some c0) = None" and
    resc: "resolution_check b cur c (Some c0) (jm_get facts (record_id c)) = None" and
    disp: "dispatch_check st b cur attempted c (Some c0) (jm_get facts (record_id c)) = None"
    using run_command [OF run c refl refl] old by metis
  have same: "cr_command c = cr_command c0" "cr_receipt c = cr_receipt c0" "isSettled c0 \<longrightarrow> c = c0"
    using ident by (auto simp: command_identity_def)
  have "submitted c \<and> map_option attemptId (dispatch c) = map_option attemptId (dispatch c0)"
    if s0: "submitted c0"
  proof -
    obtain d0 where d0: "dispatch c0 = Some d0" "certainty_of d0 = Submitted"
      using s0 by (auto simp: submitted_def split: option.splits)
    show ?thesis
    proof (cases "dispatch c")
      case None
      then have "is_not_submitted (jm_get facts (record_id c))"
        using disp d0 by (simp add: dispatch_check_def)
      then obtain r err where r: "jm_get facts (record_id c) = Some r" "rn_status r = Is_not_submitted err"
        by (auto simp: is_not_submitted_iff)
      then have False using resc d0 by (simp add: resolution_check_def resolution_body_def)
      then show ?thesis ..
    next
      case (Some d)
      then have "attempt_growth d0 d = None" using disp d0 by (simp add: dispatch_check_def)
      then show ?thesis using Some d0 by (simp add: attempt_growth_def attempt_keeps_def submitted_def)
    qed
  qed
  with same show ?thesis by (auto simp: record_succeeds_def)
qed

lemma run_table_commands:
  assumes run: "commit_run e lim st b accepting suspending cur facts lp copy1 copy2 is copy3 copy4 ss"
    and keyed: "ws_keyed st"
  shows "table_succeeds record_succeeds (ws_commands st) (ws_commands (applied st b))"
  unfolding table_succeeds_def
proof (intro allI impI)
  fix k c0 assume c0: "jm_get (ws_commands st) k = Some c0"
  show "\<exists>c. jm_get (ws_commands (applied st b)) k = Some c \<and> record_succeeds c0 c"
  proof (cases "k \<in> record_id ` set (cb_commands b)")
    case True
    then obtain c where c: "c \<in> set (cb_commands b)" "record_id c = k" by auto
    then show ?thesis
      using applied_command_new [OF run c(1)] run_record_succeeds [OF run c(1)] c0 by auto
  next
    case False
    then show ?thesis using c0 by (simp add: applied_def upsert_other)
  qed
qed

text \<open>An old interaction is either untouched or replaced by a row the loop accepted.\<close>

lemma run_interaction_row:
  assumes run: "commit_run e lim st b accepting suspending cur facts lp copy1 copy2 is copy3 copy4 ss"
    and i: "i \<in> set (cb_interactions b)"
  obtains source d where "jm_get (ws_commands (applied st b)) (ia_commandId i) = Some source"
    "dispatch source = Some d" "interaction_row_check b i (jm_get (ws_interactions st) (interactionId i)) source = None"
    "answered_check (applied st b) i = None"
    "ia_generation i = cb_expectedGeneration b"
proof -
  have loop: "commit_interactions b copy1 = Inr (copy2, is)" using run by (simp add: commit_run_def)
  obtain past ft where p: "past @ i # ft = cb_interactions b" using split_list [OF i] by metis
  have new: "interactionId i \<notin> interactionId ` set past"
    using run_interactions_distinct [OF loop] unfolding p [symmetric] by auto
  let ?c = "copy1\<lparr>ws_interactions := upsert interactionId past (ws_interactions copy1)\<rparr>"
  have chk: "interaction_checks b (rev (map interactionId past)) ?c i = None"
    by (rule commit_interactions_loop(3) [OF loop p])
  have cmds: "ws_commands copy1 = ws_commands (applied st b)" and ints: "ws_interactions copy1 = ws_interactions st"
    using commit_run_applied(3,11) [OF run] by simp_all
  have cmdc: "ws_commands ?c = ws_commands (applied st b)" by (simp add: cmds)
  have old: "jm_get (ws_interactions ?c) (interactionId i) = jm_get (ws_interactions st) (interactionId i)"
    using upsert_other [OF new, of "ws_interactions st"] by (simp add: ints)
  have ans: "answered_check ?c i = answered_check (applied st b) i"
    by (simp add: answered_check_def cmds)
  have gen: "ia_generation i = cb_expectedGeneration b" and a: "answered_check (applied st b) i = None"
    using chk unfolding interaction_checks_def Let_def ans by simp_all
  have "(case jm_get (ws_commands (applied st b)) (ia_commandId i) of None \<Rightarrow> Some stale
      | Some source \<Rightarrow> (case dispatch source of None \<Rightarrow> Some stale | Some d \<Rightarrow> first_exit
          [fail_if (observerGeneration d \<noteq> ia_generation i \<or> da_nativeRunId d \<noteq> ia_nativeRunId i) stale,
           interaction_row_check b i (jm_get (ws_interactions st) (interactionId i)) source])) = None"
    using chk unfolding interaction_checks_def Let_def old cmdc by simp
  then obtain source d where "jm_get (ws_commands (applied st b)) (ia_commandId i) = Some source"
    "dispatch source = Some d" "interaction_row_check b i (jm_get (ws_interactions st) (interactionId i)) source = None"
    by (auto split: option.splits)
  from that [OF this a gen] show ?thesis .
qed

lemma applied_interaction_new:
  assumes run: "commit_run e lim st b accepting suspending cur facts lp copy1 copy2 is copy3 copy4 ss"
    and "i \<in> set (cb_interactions b)"
  shows "jm_get (ws_interactions (applied st b)) (interactionId i) = Some i"
proof -
  have "commit_interactions b copy1 = Inr (copy2, is)" using run by (simp add: commit_run_def)
  from upsert_get [OF run_interactions_distinct [OF this] assms(2)] show ?thesis by (simp add: applied_def)
qed

lemma run_table_interactions:
  assumes run: "commit_run e lim st b accepting suspending cur facts lp copy1 copy2 is copy3 copy4 ss"
  shows "table_succeeds interaction_succeeds (ws_interactions st) (ws_interactions (applied st b))"
  unfolding table_succeeds_def
proof (intro allI impI)
  fix k i0 assume i0: "jm_get (ws_interactions st) k = Some i0"
  show "\<exists>i. jm_get (ws_interactions (applied st b)) k = Some i \<and> interaction_succeeds i0 i"
  proof (cases "k \<in> interactionId ` set (cb_interactions b)")
    case True
    then obtain i where i: "i \<in> set (cb_interactions b)" "interactionId i = k" by auto
    obtain source where "interaction_row_check b i (Some i0) source = None"
      using run_interaction_row [OF run i(1)] i0 i(2) by metis
    then have "interaction_succeeds i0 i"
      by (auto simp: interaction_row_check_def interaction_succeeds_def)
    then show ?thesis using applied_interaction_new [OF run i(1)] i(2) by auto
  next
    case False
    then show ?thesis using i0 by (simp add: applied_def upsert_other)
  qed
qed

lemma run_surface_row:
  assumes run: "commit_run e lim st b accepting suspending cur facts lp copy1 copy2 is copy3 copy4 ss"
    and s: "s \<in> set (cb_surfaces b)"
  obtains i where "jm_get (ws_interactions (applied st b)) (sf_interactionId s) = Some i"
    "surface_row_check s (jm_get (ws_surfaces st) (surfaceInstanceId s)) i = None"
    "validateSurface (env_digest e) (env_message_ok e) lim s \<in> range Inr"
    "sf_generation s = cb_expectedGeneration b"
proof -
  have loop: "commit_surfaces e lim b copy3 = Inr (copy4, ss)" using run by (simp add: commit_run_def)
  obtain past ft where p: "past @ s # ft = cb_surfaces b" using split_list [OF s] by metis
  have new: "surfaceInstanceId s \<notin> surfaceInstanceId ` set past"
    using run_surfaces_distinct [OF loop] unfolding p [symmetric] by auto
  let ?c = "copy3\<lparr>ws_surfaces := upsert surfaceInstanceId past (ws_surfaces copy3)\<rparr>"
  have chk: "surface_checks e lim b (rev (map surfaceInstanceId past)) ?c s = None"
    by (rule commit_surfaces_loop(3) [OF loop p])
  have ints: "ws_interactions copy3 = ws_interactions (applied st b)" and surfs: "ws_surfaces copy3 = ws_surfaces st"
    using commit_run_applied(8,12) [OF run] by simp_all
  have intc: "ws_interactions ?c = ws_interactions (applied st b)" by (simp add: ints)
  have old: "jm_get (ws_surfaces ?c) (surfaceInstanceId s) = jm_get (ws_surfaces st) (surfaceInstanceId s)"
    using upsert_other [OF new, of "ws_surfaces st"] by (simp add: surfs)
  have gen: "sf_generation s = cb_expectedGeneration b" and v: "(case validateSurface (env_digest e)
      (env_message_ok e) lim s of Inl x \<Rightarrow> Some invalid | Inr t \<Rightarrow> None) = None"
    using chk unfolding surface_checks_def Let_def by simp_all
  obtain i where i: "jm_get (ws_interactions (applied st b)) (sf_interactionId s) = Some i"
    using chk unfolding surface_checks_def Let_def
    unfolding intc by (cases "jm_get (ws_interactions (applied st b)) (sf_interactionId s)") simp_all
  have "surface_row_check s (jm_get (ws_surfaces st) (surfaceInstanceId s)) i = None"
    using chk unfolding surface_checks_def Let_def old intc i by simp
  moreover have "validateSurface (env_digest e) (env_message_ok e) lim s \<in> range Inr"
    using v by (cases "validateSurface (env_digest e) (env_message_ok e) lim s") auto
  ultimately show ?thesis using i gen that by blast
qed

lemma applied_surface_new:
  assumes run: "commit_run e lim st b accepting suspending cur facts lp copy1 copy2 is copy3 copy4 ss"
    and "s \<in> set (cb_surfaces b)"
  shows "jm_get (ws_surfaces (applied st b)) (surfaceInstanceId s) = Some s"
proof -
  have "commit_surfaces e lim b copy3 = Inr (copy4, ss)" using run by (simp add: commit_run_def)
  from upsert_get [OF run_surfaces_distinct [OF this] assms(2)] show ?thesis by (simp add: applied_def)
qed

lemma run_table_surfaces:
  assumes run: "commit_run e lim st b accepting suspending cur facts lp copy1 copy2 is copy3 copy4 ss"
  shows "table_succeeds surface_succeeds (ws_surfaces st) (ws_surfaces (applied st b))"
  unfolding table_succeeds_def
proof (intro allI impI)
  fix k s0 assume s0: "jm_get (ws_surfaces st) k = Some s0"
  show "\<exists>s. jm_get (ws_surfaces (applied st b)) k = Some s \<and> surface_succeeds s0 s"
  proof (cases "k \<in> surfaceInstanceId ` set (cb_surfaces b)")
    case True
    then obtain s where s: "s \<in> set (cb_surfaces b)" "surfaceInstanceId s = k" by auto
    obtain i where "surface_row_check s (Some s0) i = None"
      using run_surface_row [OF run s(1)] s0 s(2) by metis
    then have "surface_succeeds s0 s"
      by (auto simp: surface_row_check_def surface_succeeds_def)
    then show ?thesis using applied_surface_new [OF run s(1)] s(2) by auto
  next
    case False
    then show ?thesis using s0 by (simp add: applied_def upsert_other)
  qed
qed

lemma run_succeeds:
  assumes run: "commit_run e lim st b accepting suspending cur facts lp copy1 copy2 is copy3 copy4 ss"
    and "ws_keyed st"
  shows "ws_succeeds st (applied st b)"
  using run_table_commands [OF assms] run_table_interactions [OF run] run_table_surfaces [OF run]
    run_head(5) [OF run]
  by (simp add: ws_succeeds_def) (simp add: applied_def)

section \<open>The invariant across a commit\<close>

lemma applied_keyed: "ws_keyed st \<Longrightarrow> ws_keyed (applied st b)"
  by (simp add: ws_keyed_def applied_def upsert_keyed)

lemma applied_events_ok:
  assumes run: "commit_run e lim st b accepting suspending cur facts lp copy1 copy2 is copy3 copy4 ss"
    and ok: "events_ok st"
  shows "events_ok (applied st b)"
proof -
  let ?n = "length (ws_events st)" and ?w = "applied st b"
  have ev: "ws_events ?w = ws_events st @ cb_events b" and ses: "ws_session ?w = cb_session b"
    by (simp_all add: applied_def)
  have last: "lastSequence (ws_session st) = int ?n" using ok by (simp add: events_ok_def)
  have seq: "sequence (ws_events ?w ! i) = int i + 1" if "i < length (ws_events ?w)" for i
  proof (cases "i < ?n")
    case True
    then show ?thesis using ok by (simp add: events_ok_def ev nth_append)
  next
    case False
    then have "i - ?n < length (cb_events b)" using that by (simp add: ev)
    from run_event [OF run this] have "sequence (cb_events b ! (i - ?n)) = int ?n + int (i - ?n) + 1"
      by (metis last)
    then show ?thesis using False by (simp add: ev nth_append)
  qed
  have fresh: "ev_namespace x = ss_namespace (ws_session st)"
    "\<And>c. ev_commandId x = Some c \<Longrightarrow> jm_has (ws_commands ?w) c" if x: "x \<in> set (cb_events b)" for x
    using run_event_basic [OF run x] by auto
  have "jm_has (ws_commands ?w) c" if "jm_has (ws_commands st) c" for c
    using that by (simp add: applied_def upsert_has)
  then show ?thesis
    using seq ok fresh run_head(5,8) [OF run] unfolding events_ok_def [of ?w]
    by (auto simp: ev ses events_ok_def)
qed

text \<open>
  Distinct event identifiers are kept apart from the invariant: a commit preserves them
  outright, a handoff only as far as the digest separates its labels.
\<close>

definition event_ids_distinct :: "workspace \<Rightarrow> bool" where
  "event_ids_distinct w = distinct (map eventId (ws_events w))"

lemma applied_event_ids:
  assumes run: "commit_run e lim st b accepting suspending cur facts lp copy1 copy2 is copy3 copy4 ss"
    and ok: "event_ids_distinct st"
  shows "event_ids_distinct (applied st b)"
proof -
  have fresh: "\<forall>y \<in> set (ws_events st). eventId y \<noteq> eventId x" if x: "x \<in> set (cb_events b)" for x
    using run_event_basic(1) [OF run x] by (auto simp: hasEvent_def list_ex_iff)
  have "eventId ` set (ws_events st) \<inter> eventId ` set (cb_events b) = {}" using fresh by fastforce
  then show ?thesis
    using ok run_events_distinct [OF run] by (simp add: applied_def event_ids_distinct_def)
qed

lemma applied_generations_ok:
  assumes run: "commit_run e lim st b accepting suspending cur facts lp copy1 copy2 is copy3 copy4 ss"
    and ok: "generations_ok st"
  shows "generations_ok (applied st b)"
proof -
  have sc: "stage_check st b cur = None" using run by (simp add: commit_run_def)
  then obtain nxt where nxt: "activeStage (cb_session b) = Inr nxt"
    "providerIdentity (stage_binding nxt) = providerIdentity (stage_binding cur)"
    by (auto simp: stage_check_def)
  have gen: "generation (stage_binding nxt) = generation (stage_binding cur)"
    using arg_cong [OF nxt(2), of generation] by simp
  have last: "stages (cb_session b) \<noteq> []" "nxt = last (stages (cb_session b))"
    using activeStage_last [OF run_head(10) [OF run] nxt(1)] .
  have "generation (stage_binding g) \<in> set (ws_generations st)" if g: "g \<in> set (stages (cb_session b))" for g
  proof -
    have "stages (cb_session b) = butlast (stages (cb_session b)) @ [nxt]"
      using last by simp
    then have "g \<in> set (butlast (stages (cb_session b))) \<or> g = nxt"
      using g by (metis Un_iff empty_iff insert_iff list.set(1) list.set(2) set_append)
    then show ?thesis
      using ok activeStage_mem(1) [OF run_head(1) [OF run]] gen run_head(14) [OF run]
      by (auto simp: generations_ok_def dest: in_set_butlastD)
  qed
  then show ?thesis by (simp add: generations_ok_def applied_def)
qed

lemma applied_commands_ok:
  assumes run: "commit_run e lim st b accepting suspending cur facts lp copy1 copy2 is copy3 copy4 ss"
    and ok: "commands_ok st"
  shows "commands_ok (applied st b)"
proof -
  have "record_ok c" if k: "jm_get (ws_commands (applied st b)) k = Some c" for k c
    using k
  proof (cases rule: applied_command_cases)
    case new
    obtain seen attempted where
      ident: "command_identity st b accepting cur seen c (jm_get (ws_commands st) (record_id c)) = None" and
      gate: "provider_gate c (jm_get (ws_commands st) (record_id c)) (jm_get facts (record_id c)) = None" and
      trm: "terminal_check b c (jm_get (ws_commands st) (record_id c)) = None"
      using run_command [OF run new(1) refl refl] by metis
    show ?thesis
    proof (cases "cr_state c")
      case (Terminal d r)
      show ?thesis
      proof (cases "was_in T_terminal (jm_get (ws_commands st) (record_id c))")
        case True
        then obtain c0 where c0: "jm_get (ws_commands st) (record_id c) = Some c0" "state_of c0 = T_terminal"
          by (auto simp: was_in_def)
        then have "c0 = c" using ident by (auto simp: command_identity_def isSettled_def settled_state_def)
        then show ?thesis using ok c0 by (auto simp: commands_ok_def)
      next
        case False
        then show ?thesis using trm Terminal by (auto simp: terminal_check_def record_ok_def submitted_def)
      qed
    qed (use gate in \<open>auto simp: provider_gate_def record_ok_def\<close>)
  next
    case kept
    then show ?thesis using ok by (auto simp: commands_ok_def)
  qed
  moreover have "filter open_turn (jm_values (ws_commands (applied st b))) =
      filter open_turn (commandsInStates (lp_copy lp) live_states)"
    using commit_run_applied(2) [OF run]
    by (auto simp: commandsInStates_def live_settled open_turn_def intro!: filter_cong)
  moreover have "single_turn (lp_copy lp) = None" using run by (simp add: commit_run_def)
  ultimately show ?thesis by (auto simp: commands_ok_def single_turn_def)
qed

text \<open>What the settle check says about the tables it was run on.\<close>

lemma settles_cleanly_iff:
  assumes "ws_keyed w"
  shows "settles_cleanly w c \<longleftrightarrow>
    (\<forall>k i. jm_get (ws_interactions w) k = Some i \<longrightarrow> ia_commandId i = c \<longrightarrow> ia_status i \<noteq> Pending) \<and>
    (\<forall>k s i. jm_get (ws_surfaces w) k = Some s \<longrightarrow> jm_get (ws_interactions w) (sf_interactionId s) = Some i \<longrightarrow>
       ia_commandId i = c \<longrightarrow> sf_status s \<noteq> Surface_active)"
proof -
  have ik: "keyed interactionId (ws_interactions w)" and sk: "keyed surfaceInstanceId (ws_surfaces w)"
    using assms by (simp_all add: ws_keyed_def)
  then have wf: "jm_wf (ws_interactions w)" "jm_wf (ws_surfaces w)" by (simp_all add: keyed_def)
  show ?thesis
    unfolding settles_cleanly_def interactionsForCommand_def surfacesForInteraction_def
    by (auto simp: list_ex_iff for_command_def for_interaction_def jm_values_mem [OF wf(1)] jm_values_mem [OF wf(2)]
        dest: keyed_get [OF ik] keyed_get [OF sk]) (metis keyed_get [OF ik])+
qed

lemma run_settles:
  assumes run: "commit_run e lim st b accepting suspending cur facts lp copy1 copy2 is copy3 copy4 ss"
    and keyed: "ws_keyed st" and c: "c \<in> set (cb_commands b)" "isSettled c"
  shows "settles_cleanly (applied st b) (record_id c)"
proof -
  have "settle_check b copy4 = None" using run by (simp add: commit_run_def)
  then have "settles_cleanly copy4 (record_id c)" using c by (auto simp: settle_check_def)
  moreover have "settles_cleanly copy4 = settles_cleanly (applied st b)"
    using commit_run_applied(9,10) [OF run]
    by (auto simp: settles_cleanly_def interactionsForCommand_def surfacesForInteraction_def)
  ultimately show ?thesis by simp
qed

text \<open>A settled command that the batch does not mention was settled before.\<close>

lemma applied_settled_cases:
  assumes run: "commit_run e lim st b accepting suspending cur facts lp copy1 copy2 is copy3 copy4 ss"
    and keyed: "ws_keyed st" and c: "jm_get (ws_commands (applied st b)) k = Some c" "isSettled c"
  obtains (cleaned) "settles_cleanly (applied st b) k" | (before) "jm_get (ws_commands st) k = Some c"
  using c(1)
proof (cases rule: applied_command_cases)
  case new
  then show ?thesis using cleaned run_settles [OF run keyed new(1) c(2)] by simp
next
  case kept
  then show ?thesis using before by simp
qed

lemma applied_interactions_ok:
  assumes run: "commit_run e lim st b accepting suspending cur facts lp copy1 copy2 is copy3 copy4 ss"
    and keyed: "ws_keyed st" and ok: "interactions_ok st"
  shows "interactions_ok (applied st b)"
  unfolding interactions_ok_def
proof (intro allI impI)
  fix k i assume i: "jm_get (ws_interactions (applied st b)) k = Some i"
  note ak = applied_keyed [OF keyed, of b]
  have ik: "interactionId i = k" using ak i by (auto simp: ws_keyed_def dest: keyed_get)
  have carried: "\<exists>c'. jm_get (ws_commands (applied st b)) (ia_commandId i) = Some c' \<and> submitted c' \<and>
      (\<forall>c. jm_get (ws_commands st) (ia_commandId i) = Some c \<longrightarrow> isSettled c \<longrightarrow> ia_status i0 \<noteq> Pending)"
    if i0: "jm_get (ws_interactions st) k = Some i0" "ia_commandId i0 = ia_commandId i" for i0
  proof -
    obtain c where c: "jm_get (ws_commands st) (ia_commandId i) = Some c" "submitted c"
      "isSettled c \<longrightarrow> ia_status i0 \<noteq> Pending"
      using interactions_okD [OF ok i0(1)] i0(2) by auto
    obtain c' where "jm_get (ws_commands (applied st b)) (ia_commandId i) = Some c'" "record_succeeds c c'"
      using table_succeedsD [OF run_table_commands [OF run keyed] c(1)] by blast
    then show ?thesis using c by (auto simp: record_succeeds_def)
  qed
  have "\<exists>c. jm_get (ws_commands (applied st b)) (ia_commandId i) = Some c \<and> submitted c \<and>
      (\<forall>c0. jm_get (ws_commands st) (ia_commandId i) = Some c0 \<longrightarrow> c0 = c \<longrightarrow> isSettled c0 \<longrightarrow> ia_status i \<noteq> Pending)"
  proof (cases "i \<in> set (cb_interactions b)")
    case True
    obtain source d where source: "jm_get (ws_commands (applied st b)) (ia_commandId i) = Some source"
      and chk: "interaction_row_check b i (jm_get (ws_interactions st) (interactionId i)) source = None"
      using run_interaction_row [OF run True] by metis
    show ?thesis
    proof (cases "jm_get (ws_interactions st) k")
      case None
      then show ?thesis using chk source
        by (auto simp: ik interaction_row_check_def isSettled_def settled_state_def)
    next
      case (Some i0)
      then have id: "interaction_identity i0 = interaction_identity i"
        and st: "ia_status i0 \<noteq> Pending \<longrightarrow> i0 = i"
        using chk by (auto simp: ik interaction_row_check_def)
      show ?thesis using carried [OF Some interaction_identity_fields(1) [OF id]] st by auto
    qed
  next
    case False
    then have "jm_get (ws_interactions st) k = Some i"
      using i by (auto simp: applied_def elim: upsert_cases)
    from carried [OF this refl] show ?thesis by auto
  qed
  then obtain c where c: "jm_get (ws_commands (applied st b)) (ia_commandId i) = Some c" "submitted c"
    and before: "jm_get (ws_commands st) (ia_commandId i) = Some c \<Longrightarrow> isSettled c \<Longrightarrow> ia_status i \<noteq> Pending"
    by blast
  have "ia_status i \<noteq> Pending" if s: "isSettled c"
    using run keyed c(1) s
  proof (cases rule: applied_settled_cases)
    case cleaned
    then show ?thesis using i by (auto simp: settles_cleanly_iff [OF ak])
  qed (use before s in blast)
  then show "\<exists>c. jm_get (ws_commands (applied st b)) (ia_commandId i) = Some c \<and> submitted c \<and>
      (isSettled c \<longrightarrow> ia_status i \<noteq> Pending)" using c by blast
qed

lemma applied_surfaces_ok:
  assumes run: "commit_run e lim st b accepting suspending cur facts lp copy1 copy2 is copy3 copy4 ss"
    and keyed: "ws_keyed st" and oki: "interactions_ok st" and ok: "surfaces_ok st"
  shows "surfaces_ok (applied st b)"
  unfolding surfaces_ok_def
proof (intro allI impI)
  fix k s assume s: "jm_get (ws_surfaces (applied st b)) k = Some s"
  note ak = applied_keyed [OF keyed, of b]
  have sk: "surfaceInstanceId s = k" using ak s by (auto simp: ws_keyed_def dest: keyed_get)
  have carried: "\<exists>i. jm_get (ws_interactions (applied st b)) (sf_interactionId s) = Some i \<and>
      (\<forall>c. jm_get (ws_commands st) (ia_commandId i) = Some c \<longrightarrow> isSettled c \<longrightarrow> sf_status s0 \<noteq> Surface_active)"
    if s0: "jm_get (ws_surfaces st) k = Some s0" "sf_interactionId s0 = sf_interactionId s" for s0
  proof -
    obtain i0 where i0: "jm_get (ws_interactions st) (sf_interactionId s) = Some i0"
      "\<forall>c. jm_get (ws_commands st) (ia_commandId i0) = Some c \<longrightarrow> isSettled c \<longrightarrow> sf_status s0 \<noteq> Surface_active"
      using surfaces_okD [OF ok s0(1)] s0(2) by auto
    obtain i where "jm_get (ws_interactions (applied st b)) (sf_interactionId s) = Some i"
      "interaction_identity i = interaction_identity i0"
      using table_succeedsD [OF run_table_interactions [OF run] i0(1)] by (auto simp: interaction_succeeds_def)
    then show ?thesis using i0(2) interaction_identity_fields(1) [of i i0] by auto
  qed
  have "\<exists>i. jm_get (ws_interactions (applied st b)) (sf_interactionId s) = Some i \<and>
      (\<forall>c. jm_get (ws_commands st) (ia_commandId i) = Some c \<longrightarrow>
        jm_get (ws_commands (applied st b)) (ia_commandId i) = Some c \<longrightarrow> isSettled c \<longrightarrow> sf_status s \<noteq> Surface_active)"
  proof (cases "s \<in> set (cb_surfaces b)")
    case True
    obtain i where i: "jm_get (ws_interactions (applied st b)) (sf_interactionId s) = Some i"
      and chk: "surface_row_check s (jm_get (ws_surfaces st) (surfaceInstanceId s)) i = None"
      using run_surface_row [OF run True] by metis
    show ?thesis
    proof (cases "jm_get (ws_surfaces st) k")
      case None
      then have "ia_status i = Pending" using chk by (simp add: sk surface_row_check_def)
      then show ?thesis
        using applied_interactions_ok [OF run keyed oki] i by (fastforce simp: interactions_ok_def)
    next
      case (Some s0)
      then have id: "surface_identity s0 = surface_identity s" and st: "sf_status s0 = Surface_active"
        using chk by (auto simp: sk surface_row_check_def)
      show ?thesis using carried [OF Some surface_identity_fields(1) [OF id]] st by auto
    qed
  next
    case False
    then have "jm_get (ws_surfaces st) k = Some s"
      using s by (auto simp: applied_def elim: upsert_cases)
    from carried [OF this refl] show ?thesis by auto
  qed
  then obtain i where i: "jm_get (ws_interactions (applied st b)) (sf_interactionId s) = Some i"
    and before: "\<And>c. jm_get (ws_commands st) (ia_commandId i) = Some c \<Longrightarrow>
      jm_get (ws_commands (applied st b)) (ia_commandId i) = Some c \<Longrightarrow> isSettled c \<Longrightarrow> sf_status s \<noteq> Surface_active"
    by blast
  have "sf_status s \<noteq> Surface_active"
    if c: "jm_get (ws_commands (applied st b)) (ia_commandId i) = Some c" "isSettled c" for c
    using run keyed c
  proof (cases rule: applied_settled_cases)
    case cleaned
    then show ?thesis using s i by (auto simp: settles_cleanly_iff [OF ak])
  qed (use before c in blast)
  then show "\<exists>i. jm_get (ws_interactions (applied st b)) (sf_interactionId s) = Some i \<and>
      (\<forall>c. jm_get (ws_commands (applied st b)) (ia_commandId i) = Some c \<longrightarrow> isSettled c \<longrightarrow>
        sf_status s \<noteq> Surface_active)" using i by blast
qed

text \<open>The callback fence of one row keeps callbacks unique when the row is stored.\<close>

lemma callbacks_unique_set:
  assumes uniq: "callbacks_unique m" and keyed: "keyed interactionId m"
    and fence: "\<And>i. find (for_callback (ia_generation row) (nativeCallbackId row)) (jm_values m) = Some i \<Longrightarrow>
      interactionId i = interactionId row"
  shows "callbacks_unique (jm_set m (interactionId row) row)"
proof -
  have other: "k = interactionId row"
    if k: "jm_get m k = Some j" "ia_generation j = ia_generation row" "nativeCallbackId j = nativeCallbackId row" for k j
  proof -
    have mem: "j \<in> set (jm_values m)" by (rule jm_values_get [OF k(1)])
    obtain i where i: "find (for_callback (ia_generation row) (nativeCallbackId row)) (jm_values m) = Some i"
      using mem k by (cases "find (for_callback (ia_generation row) (nativeCallbackId row)) (jm_values m)")
        (auto simp: find_None_iff for_callback_def)
    then have "i \<in> set (jm_values m)" "for_callback (ia_generation row) (nativeCallbackId row) i"
      by (auto simp: find_Some_iff)
    then have "jm_get m (interactionId i) = Some i" "ia_generation i = ia_generation j"
      "nativeCallbackId i = nativeCallbackId j"
      using keyed_values_iff [OF keyed] k by (auto simp: for_callback_def)
    then have "k = interactionId i" using uniq k(1) by (metis callbacks_unique_def)
    then show ?thesis using fence [OF i] by simp
  qed
  show ?thesis
    unfolding callbacks_unique_def
  proof (intro allI impI)
    fix k l i j
    assume "jm_get (jm_set m (interactionId row) row) k = Some i" "jm_get (jm_set m (interactionId row) row) l = Some j"
      "ia_generation i = ia_generation j" "nativeCallbackId i = nativeCallbackId j"
    then show "k = l"
      using other [of k i] other [of l j] uniq by (auto simp: callbacks_unique_def split: if_splits)
  qed
qed

lemma applied_callbacks_unique:
  assumes run: "commit_run e lim st b accepting suspending cur facts lp copy1 copy2 is copy3 copy4 ss"
    and keyed: "ws_keyed st" and ok: "callbacks_unique (ws_interactions st)"
  shows "callbacks_unique (ws_interactions (applied st b))"
proof -
  have loop: "commit_interactions b copy1 = Inr (copy2, is)" using run by (simp add: commit_run_def)
  have ints: "ws_interactions copy1 = ws_interactions st" by (rule commit_run_applied(11) [OF run])
  have k0: "keyed interactionId (ws_interactions st)" using keyed by (simp add: ws_keyed_def)
  have "\<exists>ft. past @ ft = cb_interactions b \<Longrightarrow> callbacks_unique (upsert interactionId past (ws_interactions st))" for past
  proof (induction "past" rule: rev_induct)
    case Nil
    then show ?case using ok by simp
  next
    case (snoc x xs)
    then obtain ft where p: "xs @ x # ft = cb_interactions b" by auto
    let ?c = "copy1\<lparr>ws_interactions := upsert interactionId xs (ws_interactions copy1)\<rparr>"
    have "interaction_checks b (rev (map interactionId xs)) ?c x = None"
      by (rule commit_interactions_loop(3) [OF loop p])
    then have "interactionForCallback ?c (ia_generation x) (nativeCallbackId x) = Some i \<Longrightarrow>
        interactionId i = interactionId x" for i
      unfolding interaction_checks_def Let_def by simp
    then have fence: "find (for_callback (ia_generation x) (nativeCallbackId x))
        (jm_values (upsert interactionId xs (ws_interactions st))) = Some i \<Longrightarrow> interactionId i = interactionId x" for i
      by (simp add: interactionForCallback_def ints)
    show ?case
      unfolding upsert_snoc
      by (rule callbacks_unique_set [OF _ upsert_keyed [OF k0] fence]) (use snoc.IH p in auto)
  qed
  from this [of "cb_interactions b"] show ?thesis by (simp add: applied_def)
qed

text \<open>The invariant and the succession, together, for every accepted commit.\<close>

lemma reduceCommit_ok:
  assumes "reduceCommit e lim st b accepting suspending = Inr st'" "ws_inv st"
  shows "st' = applied st b" "ws_inv st'" "ws_succeeds st st'"
proof -
  obtain cur facts lp copy1 copy2 ixs copy3 copy4 ss where
    run: "commit_run e lim st b accepting suspending cur facts lp copy1 copy2 ixs copy3 copy4 ss"
    and st': "st' = copy4\<lparr>ws_session := cb_session b\<rparr>"
    using assms(1) by (rule reduceCommit_run)
  show eq: "st' = applied st b" using commit_run_applied(1) [OF run] st' by simp
  have inv: "ws_keyed st" "events_ok st" "generations_ok st" "commands_ok st" "interactions_ok st"
    "callbacks_unique (ws_interactions st)" "surfaces_ok st"
    using assms(2) by (simp_all add: ws_inv_def)
  show "ws_inv st'"
    using applied_keyed [OF inv(1), of b] applied_events_ok [OF run inv(2)] applied_generations_ok [OF run inv(3)]
      applied_commands_ok [OF run inv(4)] applied_interactions_ok [OF run inv(1,5)]
      applied_callbacks_unique [OF run inv(1,6)] applied_surfaces_ok [OF run inv(1,5,7)]
      run_head(5,6,10) [OF run]
    by (simp add: eq ws_inv_def) (simp add: applied_def)
  show "ws_succeeds st st'" using run_succeeds [OF run inv(1)] eq by simp
qed

lemma reduceCommit_event_ids:
  assumes "reduceCommit e lim st b accepting suspending = Inr st'" "event_ids_distinct st"
  shows "event_ids_distinct st'"
proof -
  obtain cur facts lp copy1 copy2 ixs copy3 copy4 ss where
    run: "commit_run e lim st b accepting suspending cur facts lp copy1 copy2 ixs copy3 copy4 ss"
    and st': "st' = copy4\<lparr>ws_session := cb_session b\<rparr>"
    using assms(1) by (rule reduceCommit_run)
  show ?thesis using applied_event_ids [OF run assms(2)] commit_run_applied(1) [OF run] st' by simp
qed

end
