(* ===== verification/Session_Transitions.thy ===== *)
theory Session_Transitions
  imports Session_Invariant
begin

text \<open>
  The remaining transitions of \<^verbatim>\<open>transitions.ts\<close>: acceptance, handoff (recovery and rebind),
  retirement, pruning, suspension, connection selection and stage activation.
\<close>

section \<open>Acceptance\<close>

record retention =
  retryWindowMs :: int
  receiptWindowMs :: int

record accept_input =
  ai_namespace :: namespace
  ai_command :: command
  ai_expectedRevision :: counter
  ai_expectedGeneration :: id
  ai_nowMs :: int
  ai_retention :: retention
  ai_eventId :: id

definition accept_head :: "env \<Rightarrow> limits \<Rightarrow> workspace \<Rightarrow> accept_input \<Rightarrow> exit option" where
  "accept_head e lim st inp = first_exit
     [fail_if (valid (env_digest e) lim (Row_command (ai_command inp)) \<noteq> None) invalid,
      fail_if (\<not> isId (ai_eventId inp)) invalid,
      fail_if (cmd_sessionId (ai_command inp) \<noteq> ns_sessionId (ai_namespace inp)) forbidden,
      fail_if (\<not> is_safe_integer (ai_nowMs inp) \<or> ai_nowMs inp < 0) invalid,
      other_namespace (ai_namespace inp) (ss_namespace (ws_session st)) forbidden]"

definition retention_invalid :: "retention \<Rightarrow> int \<Rightarrow> bool" where
  "retention_invalid r now \<longleftrightarrow>
     \<not> is_safe_integer (retryWindowMs r) \<or> retryWindowMs r < 1 \<or>
     \<not> is_safe_integer (receiptWindowMs r) \<or> receiptWindowMs r < retryWindowMs r \<or>
     \<not> is_safe_integer (now + receiptWindowMs r)"

definition accept_open :: "workspace \<Rightarrow> accept_input \<Rightarrow> bool \<Rightarrow> exit option" where
  "accept_open st inp suspending = first_exit
     [fail_if (status (ws_session st) \<noteq> Active \<and>
        \<not> (suspending \<and> status (ws_session st) = Recovery_required \<and>
           (case input_of (ai_command inp) of Cancel tc g r \<Rightarrow> True | _ \<Rightarrow> False))) (failed Session_gone),
      fail_if (currentStageId (ws_session st) = None \<or> currentStageId (ws_session st) = Some [])
        (failed Connection_required),
      fail_if (expiresAtMs (ai_command inp) < ai_nowMs inp) (failed Expired),
      fail_if (retention_invalid (ai_retention inp) (ai_nowMs inp)) invalid,
      checkState (ws_session st) suspending (ai_expectedRevision inp) (ai_expectedGeneration inp)]"

definition new_receipt :: "workspace \<Rightarrow> accept_input \<Rightarrow> context_stage \<Rightarrow> string \<Rightarrow> receipt" where
  "new_receipt st inp cur hash =
     \<lparr>rc_namespace = ai_namespace inp, rc_commandId = commandId (ai_command inp), contentHash = hash,
      acceptedAtMs = ai_nowMs inp,
      retryUntilMs = min (expiresAtMs (ai_command inp)) (ai_nowMs inp + retryWindowMs (ai_retention inp)),
      receiptUntilMs = ai_nowMs inp + receiptWindowMs (ai_retention inp),
      acceptedRevision = revision (ws_session st) + 1, rc_stageId = stageId cur\<rparr>"

text \<open>The interaction a response answers, or why it cannot; no interaction for other inputs.\<close>

definition respond_surface_check :: "workspace \<Rightarrow> id \<Rightarrow> surface_reference option \<Rightarrow> exit option" where
  "respond_surface_check st i ref =
     (if surfacesForInteraction st (Some i) = [] \<and> ref = None then None
      else case Option.bind ref (\<lambda>r. map_option (\<lambda>s. (r, s)) (jm_get (ws_surfaces st) (sr_instanceId r))) of
        None \<Rightarrow> Some stale
      | Some (r, s) \<Rightarrow> first_exit
          [fail_if (sf_interactionId s \<noteq> i \<or> sf_revision s \<noteq> sr_revision r) stale,
           fail_if (sf_status s \<noteq> Surface_active) (failed Unavailable)])"

definition respond_row :: "workspace \<Rightarrow> accept_input \<Rightarrow> exit + interaction list" where
  "respond_row st inp = (case input_of (ai_command inp) of
     Respond i g r a ref \<Rightarrow> unless_exit (respond_surface_check st i ref)
       (case jm_get (ws_interactions st) i of
          None \<Rightarrow> Inl (failed Unavailable)
        | Some ia \<Rightarrow> unless_exit (first_exit
            [fail_if (ia_status ia = Interaction_unavailable) (failed Unavailable),
             fail_if (ia_generation ia \<noteq> g \<or> g \<noteq> ai_expectedGeneration inp \<or> ia_nativeRunId ia \<noteq> r) stale,
             fail_if (ia_status ia = Answered) (failed Already_answered),
             fail_if (ia_status ia = Interaction_expired \<or> ia_expiresAtMs ia < ai_nowMs inp) (failed Expired)])
            (Inr [ia\<lparr>ia_status := Answered, responseCommandId := Some (commandId (ai_command inp))\<rparr>]))
   | _ \<Rightarrow> Inr [])"

text \<open>The event that answers an interaction names the attempt of its command.\<close>

definition answer_event :: "env \<Rightarrow> workspace \<Rightarrow> accept_input \<Rightarrow> interaction \<Rightarrow> exit + event" where
  "answer_event e st inp row = (case Option.bind (jm_get (ws_commands st) (ia_commandId row)) dispatch of
     None \<Rightarrow> Inl Js_error
   | Some d \<Rightarrow> Inr \<lparr>ev_namespace = ai_namespace inp,
       eventId = derived_id (env_digest e) (ai_eventId inp) ''answer-0'',
       sequence = lastSequence (ws_session st) + 2, ev_generation = ia_generation row,
       ev_commandId = Some (ia_commandId row), ev_attemptId = Some (attemptId d),
       body = Interaction_answered (interactionId row) (commandId (ai_command inp))\<rparr>)"

definition acceptance_event :: "workspace \<Rightarrow> accept_input \<Rightarrow> context_stage \<Rightarrow> event" where
  "acceptance_event st inp cur = \<lparr>ev_namespace = ai_namespace inp, eventId = ai_eventId inp,
     sequence = lastSequence (ws_session st) + 1, ev_generation = generation (stage_binding cur),
     ev_commandId = Some (commandId (ai_command inp)), ev_attemptId = None,
     body = Command_accepted (ai_command inp)\<rparr>"

definition accept_batch ::
  "workspace \<Rightarrow> accept_input \<Rightarrow> context_stage \<Rightarrow> string \<Rightarrow> interaction list \<Rightarrow> event list \<Rightarrow> commit_batch" where
  "accept_batch st inp cur hash answered answers =
     \<lparr>cb_providerFacts = [], cb_nowMs = None, cb_namespace = ai_namespace inp,
      cb_expectedRevision = ai_expectedRevision inp, cb_expectedGeneration = ai_expectedGeneration inp,
      cb_session = (ws_session st)\<lparr>revision := revision (ws_session st) + 1,
        lastSequence := lastSequence (ws_session st) + 1 + int (length answered)\<rparr>,
      cb_commands = [\<lparr>cr_command = ai_command inp, cr_receipt = new_receipt st inp cur hash, cr_state = Accepted\<rparr>],
      cb_events = acceptance_event st inp cur # answers,
      cb_interactions = answered, cb_deliveries = [], cb_surfaces = []\<rparr>"

definition accept_new ::
  "env \<Rightarrow> limits \<Rightarrow> workspace \<Rightarrow> accept_input \<Rightarrow> bool \<Rightarrow> string \<Rightarrow> exit + workspace \<times> receipt" where
  "accept_new e lim st inp suspending hash =
     unless_exit (accept_open st inp suspending)
       (and_then (activeStage (ws_session st)) (\<lambda>cur.
        and_then (respond_row st inp) (\<lambda>answered.
        and_then (case answered of [] \<Rightarrow> Inr [] | row # _ \<Rightarrow> and_then (answer_event e st inp row) (\<lambda>ev. Inr [ev])) (\<lambda>answers.
        and_then (reduceCommit e lim st (accept_batch st inp cur hash answered answers) True suspending) (\<lambda>st'.
          Inr (st', new_receipt st inp cur hash))))))"

definition reduceAcceptance ::
  "env \<Rightarrow> limits \<Rightarrow> workspace \<Rightarrow> accept_input \<Rightarrow> bool \<Rightarrow> exit + workspace \<times> receipt" where
  "reduceAcceptance e lim st inp suspending =
     unless_exit (accept_head e lim st inp)
       (case fingerprint (env_digest e) lim (ai_command inp) of
          Inl d \<Rightarrow> Inl (Contract_error d)
        | Inr hash \<Rightarrow> (case jm_get (ws_commands st) (commandId (ai_command inp)) of
            Some prior \<Rightarrow>
              if contentHash (cr_receipt prior) \<noteq> hash then Inl conflict
              else if ai_nowMs inp \<le> receiptUntilMs (cr_receipt prior) then Inr (st, cr_receipt prior)
              else Inl (failed Expired)
          | None \<Rightarrow> accept_new e lim st inp suspending hash))"

definition acceptCommand ::
  "env \<Rightarrow> limits \<Rightarrow> workspace \<Rightarrow> accept_input \<Rightarrow> (workspace \<times> receipt) result" where
  "acceptCommand e lim st inp = guarded (reduceAcceptance e lim st inp False)"

section \<open>Handoff\<close>

record recovery_input =
  ri_namespace :: namespace
  ri_expectedRevision :: counter
  ri_expectedGeneration :: id
  ri_eventId :: id

text \<open>The workspace under construction and the events appended so far.\<close>

type_synonym handoff = "workspace \<times> event list"

definition handoff_append ::
  "env \<Rightarrow> limits \<Rightarrow> workspace \<Rightarrow> recovery_input \<Rightarrow> id \<Rightarrow> id option \<Rightarrow> id option \<Rightarrow> event_body \<Rightarrow> string
     \<Rightarrow> handoff \<Rightarrow> exit + handoff" where
  "handoff_append e lim st inp gen cid aid bd label h = (case h of (copy, events) \<Rightarrow>
     (let ev = \<lparr>ev_namespace = ri_namespace inp, eventId = derived_id (env_digest e) (ri_eventId inp) label,
        sequence = lastSequence (ws_session st) + int (length events) + 1, ev_generation = gen,
        ev_commandId = cid, ev_attemptId = aid, body = bd\<rparr>
      in case valid (env_digest e) lim (Row_event ev) of
        Some d \<Rightarrow> Inl (Contract_error d)
      | None \<Rightarrow> if hasEvent st (eventId ev) then Inl (Contract_error D_context)
          else Inr (copy, events @ [ev])))"

definition handoff_command ::
  "env \<Rightarrow> limits \<Rightarrow> workspace \<Rightarrow> recovery_input \<Rightarrow> id \<Rightarrow> command_record \<Rightarrow> handoff \<Rightarrow> exit + handoff" where
  "handoff_command e lim st inp gen c h = (case h of (copy, events) \<Rightarrow>
     if isSettled c then Inr h
     else case dispatch c of
       Some d \<Rightarrow> let d' = d\<lparr>observerGeneration := gen\<rparr> in
         handoff_append e lim st inp gen (Some (record_id c)) (Some (attemptId d')) (Status_changed Live_uncertain)
           (''command-'' @ record_id c)
           (copy\<lparr>ws_commands := jm_set (ws_commands copy) (record_id c) (c\<lparr>cr_state := Uncertain d'\<rparr>)\<rparr>, events)
     | None \<Rightarrow>
         if queue_next (input_of (cr_command c)) then Inr h
         else let f = fail_with Stale_binding Never in
           handoff_append e lim st inp gen (Some (record_id c)) None (Invalidated_reported f)
             (''command-'' @ record_id c)
             (copy\<lparr>ws_commands := jm_set (ws_commands copy) (record_id c) (c\<lparr>cr_state := Invalidated f\<rparr>)\<rparr>, events))"

definition handoff_interaction ::
  "env \<Rightarrow> limits \<Rightarrow> workspace \<Rightarrow> recovery_input \<Rightarrow> id \<Rightarrow> interaction \<Rightarrow> handoff \<Rightarrow> exit + handoff" where
  "handoff_interaction e lim st inp gen row h = (case h of (copy, events) \<Rightarrow>
     if ia_status row \<noteq> Pending then Inr h
     else case Option.bind (jm_get (ws_commands copy) (ia_commandId row)) dispatch of
       None \<Rightarrow> Inl Js_error
     | Some d \<Rightarrow> handoff_append e lim st inp gen (Some (ia_commandId row)) (Some (attemptId d))
         (Interaction_withdrawn (interactionId row)) (''interaction-'' @ interactionId row)
         (copy\<lparr>ws_interactions := jm_set (ws_interactions copy) (interactionId row)
            (row\<lparr>ia_status := Interaction_unavailable\<rparr>)\<rparr>, events))"

definition handoff_surface ::
  "env \<Rightarrow> limits \<Rightarrow> workspace \<Rightarrow> recovery_input \<Rightarrow> id \<Rightarrow> surface_state \<Rightarrow> handoff \<Rightarrow> exit + handoff" where
  "handoff_surface e lim st inp gen row h = (case h of (copy, events) \<Rightarrow>
     if sf_status row \<noteq> Surface_active then Inr h
     else let nxt = row\<lparr>sf_status := Surface_invalidated, sf_revision := sf_revision row + 1\<rparr> in
       case valid (env_digest e) lim (Row_surface nxt) of
         Some d \<Rightarrow> Inl (Contract_error d)
       | None \<Rightarrow> (case jm_get (ws_interactions copy) (sf_interactionId row) of
           None \<Rightarrow> Inl Js_error
         | Some i \<Rightarrow> (case Option.bind (jm_get (ws_commands copy) (ia_commandId i)) dispatch of
             None \<Rightarrow> Inl Js_error
           | Some d \<Rightarrow> handoff_append e lim st inp gen (Some (ia_commandId i)) (Some (attemptId d))
               (Surface_changed nxt) (''surface-'' @ surfaceInstanceId row)
               (copy\<lparr>ws_surfaces := jm_set (ws_surfaces copy) (surfaceInstanceId row) nxt\<rparr>, events))))"

text \<open>
  The three sweeps: live commands become uncertain or invalid (unsent prompts stay queued),
  pending interactions unavailable, active surfaces invalidated.
\<close>

definition handoff_sweep ::
  "env \<Rightarrow> limits \<Rightarrow> workspace \<Rightarrow> recovery_input \<Rightarrow> id \<Rightarrow> event_body \<Rightarrow> exit + handoff" where
  "handoff_sweep e lim st inp gen opening =
     and_then (handoff_append e lim st inp gen None None opening ''rebind'' (st, [])) (\<lambda>h0.
     and_then (loop_exit (handoff_command e lim st inp gen) (commandsInStates st live_states) h0) (\<lambda>h1.
     and_then (loop_exit (handoff_interaction e lim st inp gen) (interactionsForCommand st None) h1) (\<lambda>h2.
     loop_exit (handoff_surface e lim st inp gen) (surfacesForInteraction st None) h2)))"

text \<open>Who takes over: the restored session, once its claim is checked, or nobody.\<close>

definition handoff_claim ::
  "workspace \<Rightarrow> candidate option \<Rightarrow> exit + provider_session option" where
  "handoff_claim st restored = (case restored of
     None \<Rightarrow> Inr None
   | Some Forged \<Rightarrow> Inl forbidden
   | Some (Admitted vs) \<Rightarrow> and_then (restores vs (ws_session st)) (\<lambda>ok.
       if \<not> ok then Inl forbidden
       else and_then (activeStage (ws_session st)) (\<lambda>cur.
         if generation (vs_binding vs) \<in> set (ws_generations st) \<or>
            continuation (stage_capabilities cur) \<noteq> Across_processes
         then Inl stale else Inr (Some vs))))"

definition handoff_finish ::
  "env \<Rightarrow> limits \<Rightarrow> binding \<Rightarrow> capabilities \<Rightarrow> bool \<Rightarrow> handoff \<Rightarrow> exit + workspace" where
  "handoff_finish e lim bd caps restored h = (case h of (copy, events) \<Rightarrow>
     and_then (replaceStage ((ws_session copy)\<lparr>status := (if restored then Active else Recovery_required),
         revision := revision (ws_session copy) + 1,
         lastSequence := lastSequence (ws_session copy) + int (length events)\<rparr>) (Some bd) (Some caps)) (\<lambda>s.
       case valid (env_digest e) lim (Row_session s) of
         Some d \<Rightarrow> Inl (Contract_error d)
       | None \<Rightarrow> Inr (copy\<lparr>ws_session := s, ws_events := ws_events copy @ events,
           ws_generations := add_generation (generation bd) (ws_generations copy)\<rparr>)))"

definition reduceHandoff ::
  "env \<Rightarrow> limits \<Rightarrow> workspace \<Rightarrow> recovery_input \<Rightarrow> candidate option \<Rightarrow> exit + workspace" where
  "reduceHandoff e lim st inp restored =
     unless_exit (first_exit
       [fail_if (\<not> isId (ri_eventId inp)) invalid,
        fail_if (status (ws_session st) = Retired) (failed Session_gone),
        checkState (ws_session st) True (ri_expectedRevision inp) (ri_expectedGeneration inp),
        other_namespace (ri_namespace inp) (ss_namespace (ws_session st)) forbidden])
     (and_then (handoff_claim st restored) (\<lambda>claim.
      and_then (activeStage (ws_session st)) (\<lambda>cur.
      let bd = (case claim of Some vs \<Rightarrow> vs_binding vs | None \<Rightarrow> stage_binding cur);
          caps = (case claim of Some vs \<Rightarrow> vs_capabilities vs | None \<Rightarrow> stage_capabilities cur);
          opening = (case claim of Some vs \<Rightarrow> Session_rebound (generation (stage_binding cur))
                     | None \<Rightarrow> Session_recovery_unavailable)
      in and_then (handoff_sweep e lim st inp (generation bd) opening)
           (handoff_finish e lim bd caps (claim \<noteq> None)))))"

definition rebindSession ::
  "env \<Rightarrow> limits \<Rightarrow> workspace \<Rightarrow> recovery_input \<Rightarrow> candidate \<Rightarrow> workspace result" where
  "rebindSession e lim st inp restored = guarded (reduceHandoff e lim st inp (Some restored))"

definition recoverUnavailable ::
  "env \<Rightarrow> limits \<Rightarrow> workspace \<Rightarrow> recovery_input \<Rightarrow> workspace result" where
  "recoverUnavailable e lim st inp = guarded (reduceHandoff e lim st inp None)"

section \<open>Retirement and pruning\<close>

definition undelivered :: "delivery_status list" where
  "undelivered = [Delivery_pending, Receipt_recorded, Delivery_reconciliation_required]"

definition unsettled_work :: "workspace \<Rightarrow> bool" where
  "unsettled_work st = list_ex (\<lambda>c. \<not> isSettled c) (commandsInStates st live_states)"

definition retire_blocked :: "workspace \<Rightarrow> bool" where
  "retire_blocked st \<longleftrightarrow> unsettled_work st \<or>
     list_ex (\<lambda>i. ia_status i = Pending) (interactionsForCommand st None) \<or>
     list_ex (\<lambda>d. dl_status d \<noteq> Delivered) (deliveriesInStates st undelivered)"

definition retirement_event :: "env \<Rightarrow> session \<Rightarrow> string \<Rightarrow> counter \<Rightarrow> id \<Rightarrow> event" where
  "retirement_event e s key revn gen = \<lparr>ev_namespace = ss_namespace s,
     eventId = derived_id (env_digest e) key (''retire-'' @ map char_of (json_int revn)),
     sequence = lastSequence s, ev_generation = gen, ev_commandId = None, ev_attemptId = None,
     body = Session_retired\<rparr>"

definition reduceRetirement ::
  "env \<Rightarrow> limits \<Rightarrow> workspace \<Rightarrow> counter \<Rightarrow> id \<Rightarrow> exit + workspace" where
  "reduceRetirement e lim st revn gen =
     unless_exit (first_exit
       [checkState (ws_session st) False revn gen,
        fail_if (retire_blocked st) (Failed (fail_with Reconciliation_required Reconcile_first))])
     (let s = (ws_session st)\<lparr>status := Retired, revision := revn + 1,
            lastSequence := lastSequence (ws_session st) + 1\<rparr>
      in and_then (namespaceKey (ss_namespace s)) (\<lambda>key.
        let ev = retirement_event e s key revn gen in
        case valid (env_digest e) lim (Row_session s) of
          Some d \<Rightarrow> Inl (Contract_error d)
        | None \<Rightarrow> (case valid (env_digest e) lim (Row_event ev) of
            Some d \<Rightarrow> Inl (Contract_error d)
          | None \<Rightarrow> Inr (st\<lparr>ws_session := s, ws_events := ws_events st @ [ev]\<rparr>))))"

definition retireSession ::
  "env \<Rightarrow> limits \<Rightarrow> workspace \<Rightarrow> counter \<Rightarrow> id \<Rightarrow> workspace result" where
  "retireSession e lim st revn gen = guarded (reduceRetirement e lim st revn gen)"

definition all_states :: "state_tag list" where
  "all_states = live_states @ [T_terminal, T_invalidated, T_cancelled, T_acknowledged]"

definition canPrune :: "workspace \<Rightarrow> int \<Rightarrow> bool" where
  "canPrune st now \<longleftrightarrow> is_safe_integer now \<and> 0 \<le> now \<and> status (ws_session st) = Retired \<and>
     list_all (\<lambda>c. receiptUntilMs (cr_receipt c) < now) (commandsInStates st all_states) \<and>
     list_all (\<lambda>d. dl_status d = Delivered) (deliveriesInStates st undelivered)"

section \<open>Suspension\<close>

record suspension_input =
  si_recovery :: recovery_input
  si_nowMs :: int
  si_retention :: retention

definition cancel_command :: "suspension_input \<Rightarrow> id \<Rightarrow> id \<Rightarrow> id \<Rightarrow> command" where
  "cancel_command inp cid tgt gen = \<lparr>cmd_sessionId = ns_sessionId (ri_namespace (si_recovery inp)),
     commandId = cid, expiresAtMs = si_nowMs inp + retryWindowMs (si_retention inp),
     input_of = Cancel tgt gen None\<rparr>"

definition suspend_accept ::
  "env \<Rightarrow> workspace \<Rightarrow> suspension_input \<Rightarrow> id \<Rightarrow> id \<Rightarrow> id \<Rightarrow> accept_input" where
  "suspend_accept e nxt inp gen cid tgt =
     \<lparr>ai_namespace = ri_namespace (si_recovery inp), ai_command = cancel_command inp cid tgt gen,
      ai_expectedRevision = revision (ws_session nxt), ai_expectedGeneration = gen,
      ai_nowMs = si_nowMs inp, ai_retention = si_retention inp,
      ai_eventId = derived_id (env_digest e) cid ''accepted''\<rparr>"

definition suspend_event ::
  "env \<Rightarrow> workspace \<Rightarrow> suspension_input \<Rightarrow> id \<Rightarrow> id \<Rightarrow> nat \<Rightarrow> id \<Rightarrow> event_body \<Rightarrow> event" where
  "suspend_event e nxt inp gen cid index target_id bd =
     \<lparr>ev_namespace = ri_namespace (si_recovery inp),
      eventId = derived_id (env_digest e) cid (map char_of (decimal index)),
      sequence = lastSequence (ws_session nxt) + int index + 1, ev_generation = gen,
      ev_commandId = Some target_id, ev_attemptId = None, body = bd\<rparr>"

definition suspend_batch ::
  "env \<Rightarrow> workspace \<Rightarrow> suspension_input \<Rightarrow> id \<Rightarrow> id \<Rightarrow> command_record \<Rightarrow> command_record \<Rightarrow> commit_batch" where
  "suspend_batch e nxt inp gen cid cancel tgt =
     \<lparr>cb_providerFacts = [], cb_nowMs = Some (si_nowMs inp), cb_namespace = ri_namespace (si_recovery inp),
      cb_expectedRevision = revision (ws_session nxt), cb_expectedGeneration = gen,
      cb_session = (ws_session nxt)\<lparr>revision := revision (ws_session nxt) + 1,
        lastSequence := lastSequence (ws_session nxt) + 2\<rparr>,
      cb_commands =
        [\<lparr>cr_command = cr_command cancel, cr_receipt = cr_receipt cancel,
          cr_state = Acknowledged_queued (record_id tgt)\<rparr>,
         \<lparr>cr_command = cr_command tgt, cr_receipt = cr_receipt tgt, cr_state = Cancelled cid\<rparr>],
      cb_events =
        [suspend_event e nxt inp gen cid 0 cid (Acknowledged_reported (Queued_cancelled (record_id tgt))),
         suspend_event e nxt inp gen cid 1 (record_id tgt) (Cancelled_reported cid)],
      cb_interactions = [], cb_deliveries = [], cb_surfaces = []\<rparr>"

text \<open>One queued prompt: accept a local cancel for it, then settle both in one commit.\<close>

definition suspend_target ::
  "env \<Rightarrow> limits \<Rightarrow> suspension_input \<Rightarrow> id \<Rightarrow> command_record \<Rightarrow> workspace \<Rightarrow> exit + workspace" where
  "suspend_target e lim inp gen tgt nxt =
     (if cr_state tgt \<noteq> Accepted \<or> \<not> queue_next (input_of (cr_command tgt)) then Inr nxt
      else let cid = derived_id (env_digest e) (ri_eventId (si_recovery inp)) (''cancel-'' @ record_id tgt) in
        and_then (reduceAcceptance e lim nxt (suspend_accept e nxt inp gen cid (record_id tgt)) True) (\<lambda>(nxt', r).
        case jm_get (ws_commands nxt') cid of
          None \<Rightarrow> Inl Js_error
        | Some cancel \<Rightarrow> reduceCommit e lim nxt' (suspend_batch e nxt' inp gen cid cancel tgt) False True))"

definition reduceSuspension ::
  "env \<Rightarrow> limits \<Rightarrow> workspace \<Rightarrow> suspension_input \<Rightarrow> exit + workspace" where
  "reduceSuspension e lim st inp =
     unless_exit (first_exit
       [other_namespace (ss_namespace (ws_session st)) (ri_namespace (si_recovery inp)) forbidden,
        fail_if (revision (ws_session st) \<noteq> ri_expectedRevision (si_recovery inp))
          (Failed (fail_with Revision_conflict Same_command))])
     (if status (ws_session st) = Retired \<or> currentStageId (ws_session st) = None \<or>
         currentStageId (ws_session st) = Some [] then Inr st
      else and_then (activeStage (ws_session st)) (\<lambda>cur.
        let gen = generation (stage_binding cur) in
        if gen \<noteq> ri_expectedGeneration (si_recovery inp) \<or> \<not> isId (ri_eventId (si_recovery inp)) then Inl stale
        else and_then (loop_exit (suspend_target e lim inp gen) (commandsInStates st [T_accepted]) st) (\<lambda>nxt.
          if status (ws_session nxt) = Active
          then reduceHandoff e lim nxt ((si_recovery inp)\<lparr>ri_expectedRevision := revision (ws_session nxt)\<rparr>) None
          else Inr nxt)))"

definition suspendSession ::
  "env \<Rightarrow> limits \<Rightarrow> workspace \<Rightarrow> suspension_input \<Rightarrow> workspace result" where
  "suspendSession e lim st inp = guarded (reduceSuspension e lim st inp)"

section \<open>Connection selection and stage activation\<close>

definition selectConnection ::
  "workspace \<Rightarrow> id \<Rightarrow> counter \<Rightarrow> bool \<Rightarrow> workspace result" where
  "selectConnection st connection revn fresh = guarded
     (unless_exit (first_exit
       [fail_if (\<not> isId connection) invalid,
        fail_if (status (ws_session st) = Retired) (failed Session_gone),
        fail_if (revision (ws_session st) \<noteq> revn) (Failed (fail_with Revision_conflict Same_command)),
        fail_if (fresh \<and> unsettled_work st) (failed Connection_switch_pending)])
     (if \<not> fresh \<and> selectedConnectionId (ws_session st) = Some connection then Inr st
      else Inr (st\<lparr>ws_session := (ws_session st)\<lparr>selectedConnectionId := Some connection, revision := revn + 1,
        freshContext := (fresh \<or> freshContext (ws_session st)),
        status := (if fresh then Active else status (ws_session st))\<rparr>\<rparr>)))"

record activation_input =
  xi_namespace :: namespace
  xi_expectedRevision :: counter
  xi_configRevision :: counter
  xi_opened :: candidate

definition withdraw_interactions :: "(id, interaction) jsmap \<Rightarrow> (id, interaction) jsmap" where
  "withdraw_interactions m = upsert interactionId
     (map (\<lambda>i. i\<lparr>ia_status := Interaction_unavailable\<rparr>) (filter (\<lambda>i. ia_status i = Pending) (jm_values m))) m"

definition withdraw_surfaces :: "(id, surface_state) jsmap \<Rightarrow> (id, surface_state) jsmap" where
  "withdraw_surfaces m = upsert surfaceInstanceId
     (map (\<lambda>s. s\<lparr>sf_status := Surface_invalidated\<rparr>) (filter (\<lambda>s. sf_status s = Surface_active) (jm_values m))) m"

definition activateStage :: "env \<Rightarrow> workspace \<Rightarrow> activation_input \<Rightarrow> workspace result" where
  "activateStage e st inp = guarded
     (unless_exit (first_exit
       [other_namespace (ss_namespace (ws_session st)) (xi_namespace inp) forbidden,
        fail_if (status (ws_session st) = Retired) (failed Session_gone),
        fail_if (revision (ws_session st) \<noteq> xi_expectedRevision inp)
          (Failed (fail_with Revision_conflict Same_command)),
        fail_if (case xi_opened inp of Forged \<Rightarrow> True | Admitted vs \<Rightarrow> \<not> opens vs (xi_namespace inp)) forbidden,
        fail_if (unsettled_work st) (failed Connection_switch_pending)])
     (case xi_opened inp of
        Forged \<Rightarrow> Inl forbidden
      | Admitted vs \<Rightarrow>
          if Some (cfg_id (config (vs_binding vs))) \<noteq> selectedConnectionId (ws_session st) \<or>
             generation (vs_binding vs) \<in> set (ws_generations st)
          then Inl stale
          else and_then (startStage ((ws_session st)\<lparr>status := Active, revision := revision (ws_session st) + 1\<rparr>)
              (providerStage (vs_binding vs) (vs_capabilities vs) (xi_configRevision inp))) (\<lambda>s.
            case valid (env_digest e) defaultLimits (Row_session s) of
              Some d \<Rightarrow> Inl (Contract_error d)
            | None \<Rightarrow> Inr (st\<lparr>ws_session := s,
                ws_generations := add_generation (generation (vs_binding vs)) (ws_generations st),
                ws_interactions := withdraw_interactions (ws_interactions st),
                ws_surfaces := withdraw_surfaces (ws_surfaces st)\<rparr>))))"

end
