(* ===== verification/Session_Sweep.thy ===== *)
theory Session_Sweep
  imports Session_Transitions
begin

text \<open>
  What the bulk updates do to a table: a loop that stores a changed row for some of the rows
  is a map over the table in place. The handoff and the stage activation are stated this way
  (\<open>reduceHandoff_effect\<close>), and their effect on the invariant follows row by row.
\<close>

section \<open>In-place maps\<close>

definition sweep :: "('v \<Rightarrow> 'v) \<Rightarrow> ('k, 'v) jsmap \<Rightarrow> ('k, 'v) jsmap" where
  "sweep g m = map (\<lambda>(k, v). (k, g v)) m"

lemma sweep_get [simp]: "jm_get (sweep g m) k = map_option g (jm_get m k)"
  by (induction m) (auto simp: sweep_def jm_get_def)

lemma sweep_values: "jm_values (sweep g m) = map g (jm_values m)"
  by (simp add: sweep_def jm_values_def comp_def case_prod_beta)

lemma sweep_keyed: "keyed key m \<Longrightarrow> (\<And>v. key (g v) = key v) \<Longrightarrow> keyed key (sweep g m)"
  by (auto simp: keyed_def sweep_def jm_wf_def comp_def case_prod_beta)

lemma jm_set_partial_sweep:
  assumes "keyed key m" "x \<in> set (jm_values m)"
  shows "jm_set (sweep h m) (key x) y = sweep (\<lambda>v. if v = x then y else h v) m"
  using assms
proof (induction m)
  case (Cons kv m)
  obtain k v where kv: "kv = (k, v)" by (cases kv)
  have k: "key v = k" and km: "keyed key m" and new: "k \<notin> fst ` set m"
    using Cons.prems(1) by (auto simp: kv keyed_def jm_wf_def)
  show ?case
  proof (cases "v = x")
    case True
    have "w \<noteq> x" if "(j, w) \<in> set m" for j w
      using that km new k True by (force simp: keyed_def)
    then show ?thesis using True k by (auto simp: kv sweep_def jm_set_def)
  next
    case False
    then have x: "x \<in> set (jm_values m)" using Cons.prems(2) by (simp add: kv jm_values_def)
    then have "key x \<in> fst ` set m" using km by (force simp: keyed_def jm_values_def)
    then have "key x \<noteq> k" using new by auto
    then show ?thesis using Cons.IH [OF km x] False by (simp add: kv sweep_def jm_set_def)
  qed
qed (simp add: jm_values_def)

lemma upsert_sweep:
  assumes "keyed key m" "set xs \<subseteq> set (jm_values m)" "\<And>v. key (g v) = key v"
  shows "upsert key (map g xs) m = sweep (\<lambda>v. if v \<in> set xs then g v else v) m"
  using assms(2)
proof (induction xs rule: rev_induct)
  case Nil
  then show ?case by (induction m) (auto simp: sweep_def)
next
  case (snoc x xs)
  have "upsert key (map g (xs @ [x])) m = jm_set (sweep (\<lambda>v. if v \<in> set xs then g v else v) m) (key x) (g x)"
    using snoc assms(3) by simp
  also have "\<dots> = sweep (\<lambda>v. if v = x then g x else if v \<in> set xs then g v else v) m"
    by (rule jm_set_partial_sweep [OF assms(1)]) (use snoc in simp)
  also have "\<dots> = sweep (\<lambda>v. if v \<in> set (xs @ [x]) then g v else v) m"
    by (rule arg_cong [of _ _ "\<lambda>g. sweep g m"]) auto
  finally show ?case .
qed

text \<open>Sweeping the rows that satisfy a test is sweeping all of them, when the others are fixed.\<close>

lemma upsert_filter_sweep:
  assumes "keyed key m" "\<And>v. key (g v) = key v" "\<And>v. \<not> P v \<Longrightarrow> g v = v"
  shows "upsert key (map g (filter P (jm_values m))) m = sweep g m"
proof -
  have "upsert key (map g (filter P (jm_values m))) m =
      sweep (\<lambda>v. if v \<in> set (filter P (jm_values m)) then g v else v) m"
    by (rule upsert_sweep [OF assms(1) _ assms(2)]) auto
  also have "\<dots> = sweep g m"
    using assms(3) by (force simp: sweep_def jm_values_def)
  finally show ?thesis .
qed

text \<open>The same for a loop that may exit and carries more than the table.\<close>

lemma sweep_loop:
  assumes run: "loop_exit f (filter P (jm_values m)) h0 = Inr h1" and start: "T h0 = m"
    and keyed: "keyed key m" and gkey: "\<And>v. key (g v) = key v" and fixed: "\<And>v. \<not> P v \<Longrightarrow> g v = v"
    and step: "\<And>x h h'. P x \<Longrightarrow> f x h = Inr h' \<Longrightarrow>
      T h' = jm_set (T h) (key x) (g x) \<or> T h' = T h \<and> g x = x"
  shows "T h1 = sweep g m"
proof -
  let ?xs = "filter P (jm_values m)"
  have "T h1 = upsert key (map g ?xs) m"
  proof (rule loop_exit_invariant [OF run, of "\<lambda>past h. T h = upsert key (map g past) m"], goal_cases)
    case (2 past x t t')
    have x: "P x" "x \<in> set (jm_values m)" using 2(2) by auto
    have part: "upsert key (map g past) m = sweep (\<lambda>v. if v \<in> set past then g v else v) m"
      by (rule upsert_sweep [OF keyed _ gkey]) (use 2(1) in auto)
    from step [OF x(1) 2(4)] show ?case
    proof
      assume "T t' = T t \<and> g x = x"
      moreover have "jm_get (T t) (key x) = Some x" if "g x = x"
        using keyed_values_iff [OF keyed, of x] x(2) that by (simp add: 2(3) part)
      ultimately show ?thesis using 2(3) by (simp add: gkey jm_set_same)
    qed (simp add: 2(3) gkey)
  qed (simp add: start)
  then show ?thesis using upsert_filter_sweep [OF keyed gkey fixed] by simp
qed

section \<open>The rows a handoff leaves\<close>

definition swept_command :: "id \<Rightarrow> command_record \<Rightarrow> command_record" where
  "swept_command gen c = (if isSettled c then c else case dispatch c of
     Some d \<Rightarrow> c\<lparr>cr_state := Uncertain (d\<lparr>observerGeneration := gen\<rparr>)\<rparr>
   | None \<Rightarrow> if queue_next (input_of (cr_command c)) then c
       else c\<lparr>cr_state := Invalidated (fail_with Stale_binding Never)\<rparr>)"

definition swept_interaction :: "interaction \<Rightarrow> interaction" where
  "swept_interaction i = (if ia_status i = Pending then i\<lparr>ia_status := Interaction_unavailable\<rparr> else i)"

definition swept_surface :: "surface_state \<Rightarrow> surface_state" where
  "swept_surface s = (if sf_status s = Surface_active
     then s\<lparr>sf_status := Surface_invalidated, sf_revision := sf_revision s + 1\<rparr> else s)"

lemma swept_keys [simp]:
  "cr_command (swept_command gen c) = cr_command c" "cr_receipt (swept_command gen c) = cr_receipt c"
  "interactionId (swept_interaction i) = interactionId i" "surfaceInstanceId (swept_surface s) = surfaceInstanceId s"
  by (simp_all add: swept_command_def swept_interaction_def swept_surface_def split: option.splits)

lemma swept_succeeds:
  "record_succeeds c (swept_command gen c)" "interaction_succeeds i (swept_interaction i)"
  "surface_succeeds s (swept_surface s)"
  by (auto simp: record_succeeds_def swept_command_def submitted_def interaction_succeeds_def
      swept_interaction_def interaction_identity_def surface_succeeds_def swept_surface_def
      surface_identity_def split: option.splits)

lemma swept_command_cases:
  "isSettled c \<Longrightarrow> swept_command gen c = c"
  "\<not> isSettled c \<Longrightarrow> dispatch c = Some d \<Longrightarrow> cr_state (swept_command gen c) = Uncertain (d\<lparr>observerGeneration := gen\<rparr>)"
  "\<not> isSettled c \<Longrightarrow> dispatch c = None \<Longrightarrow> queue_next (input_of (cr_command c)) \<Longrightarrow> swept_command gen c = c"
  "\<not> isSettled c \<Longrightarrow> dispatch c = None \<Longrightarrow> \<not> queue_next (input_of (cr_command c)) \<Longrightarrow>
     cr_state (swept_command gen c) = Invalidated (fail_with Stale_binding Never)"
  by (simp_all add: swept_command_def)

lemma swept_open_turn: "open_turn (swept_command gen c) \<Longrightarrow> open_turn c"
  by (auto simp: open_turn_def swept_command_def split: option.splits if_splits)

lemma swept_record_ok: "record_ok c \<Longrightarrow> record_ok (swept_command gen c)"
  by (auto simp: record_ok_def swept_command_def split: option.splits)

section \<open>The events of a handoff\<close>

definition handoff_events_ok :: "workspace \<Rightarrow> recovery_input \<Rightarrow> id \<Rightarrow> event list \<Rightarrow> bool" where
  "handoff_events_ok st inp gen events \<longleftrightarrow>
     (\<forall>i < length events. sequence (events ! i) = lastSequence (ws_session st) + int i + 1) \<and>
     (\<forall>ev \<in> set events. ev_namespace ev = ri_namespace inp \<and> ev_generation ev = gen \<and>
        \<not> hasEvent st (eventId ev) \<and> (\<forall>c. ev_commandId ev = Some c \<longrightarrow> jm_has (ws_commands st) c))"

lemma handoff_append_Inr:
  assumes "handoff_append e lim st inp gen cid aid bd label (copy, events) = Inr h"
  obtains ev where "h = (copy, events @ [ev])" "ev_namespace ev = ri_namespace inp" "ev_generation ev = gen"
    "sequence ev = lastSequence (ws_session st) + int (length events) + 1"
    "eventId ev = derived_id (env_digest e) (ri_eventId inp) label"
    "ev_commandId ev = cid" "body ev = bd" "\<not> hasEvent st (eventId ev)"
  using assms by (auto simp: handoff_append_def Let_def split: option.splits if_splits)

lemma handoff_append_ok:
  assumes app: "handoff_append e lim st inp gen cid aid bd label (copy, events) = Inr (copy', events')"
    and ok: "handoff_events_ok st inp gen events" and cid: "\<And>c. cid = Some c \<Longrightarrow> jm_has (ws_commands st) c"
  shows "copy' = copy" "handoff_events_ok st inp gen events'" "\<exists>ev. events' = events @ [ev]"
proof -
  obtain ev where ev: "(copy', events') = (copy, events @ [ev])" "ev_namespace ev = ri_namespace inp"
    "ev_generation ev = gen" "sequence ev = lastSequence (ws_session st) + int (length events) + 1"
    "ev_commandId ev = cid" "\<not> hasEvent st (eventId ev)"
    using handoff_append_Inr [OF app] by metis
  then show "copy' = copy" "\<exists>ev. events' = events @ [ev]" by simp_all
  have "events' = events @ [ev]" using ev(1) by simp
  then show "handoff_events_ok st inp gen events'"
    using ok ev cid by (auto simp: handoff_events_ok_def nth_append less_Suc_eq)
qed

lemma handoff_command_step:
  assumes step: "handoff_command e lim st inp gen c h = Inr h'" and live: "\<not> isSettled c"
  shows "ws_commands (fst h') = jm_set (ws_commands (fst h)) (record_id c) (swept_command gen c) \<or>
      ws_commands (fst h') = ws_commands (fst h) \<and> swept_command gen c = c"
    and "\<exists>m. fst h' = (fst h)\<lparr>ws_commands := m\<rparr>"
    and "handoff_events_ok st inp gen (snd h) \<Longrightarrow> jm_has (ws_commands st) (record_id c) \<Longrightarrow>
      handoff_events_ok st inp gen (snd h')"
proof -
  obtain copy events where h: "h = (copy, events)" by (cases h)
  obtain copy' events' where h': "h' = (copy', events')" by (cases h')
  have "(ws_commands copy' = jm_set (ws_commands copy) (record_id c) (swept_command gen c) \<or>
      ws_commands copy' = ws_commands copy \<and> swept_command gen c = c) \<and>
    (\<exists>m. copy' = copy\<lparr>ws_commands := m\<rparr>) \<and>
    (handoff_events_ok st inp gen events \<longrightarrow> jm_has (ws_commands st) (record_id c) \<longrightarrow>
      handoff_events_ok st inp gen events')"
  proof (cases "dispatch c")
    case None
    show ?thesis
    proof (cases "queue_next (input_of (cr_command c))")
      case True
      then have "copy' = copy" "events' = events"
        using step live None by (simp_all add: handoff_command_def h h')
      then show ?thesis using live None True by (auto simp: swept_command_def intro!: exI [of _ "ws_commands copy"])
    next
      case False
      let ?c = "copy\<lparr>ws_commands := jm_set (ws_commands copy) (record_id c) (swept_command gen c)\<rparr>"
      have "handoff_append e lim st inp gen (Some (record_id c)) None (Invalidated_reported (fail_with Stale_binding Never))
          (''command-'' @ record_id c) (?c, events) = Inr (copy', events')"
        using step live None False by (simp add: handoff_command_def swept_command_def h h' Let_def)
      note app = handoff_append_ok [OF this] handoff_append_Inr [OF this]
      have "copy' = ?c" using app(4) by fastforce
      then show ?thesis using app(2) by auto
    qed
  next
    case (Some d)
    let ?c = "copy\<lparr>ws_commands := jm_set (ws_commands copy) (record_id c) (swept_command gen c)\<rparr>"
    have "handoff_append e lim st inp gen (Some (record_id c)) (Some (attemptId d)) (Status_changed Live_uncertain)
          (''command-'' @ record_id c) (?c, events) = Inr (copy', events')"
      using step live Some by (simp add: handoff_command_def swept_command_def h h' Let_def)
    note app = handoff_append_ok [OF this] handoff_append_Inr [OF this]
    have "copy' = ?c" using app(4) by fastforce
    then show ?thesis using app(2) by auto
  qed
  then show "ws_commands (fst h') = jm_set (ws_commands (fst h)) (record_id c) (swept_command gen c) \<or>
      ws_commands (fst h') = ws_commands (fst h) \<and> swept_command gen c = c"
    "\<exists>m. fst h' = (fst h)\<lparr>ws_commands := m\<rparr>"
    "handoff_events_ok st inp gen (snd h) \<Longrightarrow> jm_has (ws_commands st) (record_id c) \<Longrightarrow>
      handoff_events_ok st inp gen (snd h')"
    by (simp_all add: h h')
qed

lemma handoff_interaction_step:
  assumes step: "handoff_interaction e lim st inp gen i h = Inr h'"
  shows "ws_interactions (fst h') = jm_set (ws_interactions (fst h)) (interactionId i) (swept_interaction i) \<or>
      ws_interactions (fst h') = ws_interactions (fst h) \<and> swept_interaction i = i"
    and "\<exists>m. fst h' = (fst h)\<lparr>ws_interactions := m\<rparr>"
    and "handoff_events_ok st inp gen (snd h) \<Longrightarrow> (\<And>c. jm_has (ws_commands (fst h)) c \<Longrightarrow> jm_has (ws_commands st) c) \<Longrightarrow>
      handoff_events_ok st inp gen (snd h')"
proof -
  obtain copy events where h: "h = (copy, events)" by (cases h)
  obtain copy' events' where h': "h' = (copy', events')" by (cases h')
  have "(ws_interactions copy' = jm_set (ws_interactions copy) (interactionId i) (swept_interaction i) \<or>
      ws_interactions copy' = ws_interactions copy \<and> swept_interaction i = i) \<and>
    (\<exists>m. copy' = copy\<lparr>ws_interactions := m\<rparr>) \<and>
    (handoff_events_ok st inp gen events \<longrightarrow> (\<forall>c. jm_has (ws_commands copy) c \<longrightarrow> jm_has (ws_commands st) c) \<longrightarrow>
      handoff_events_ok st inp gen events')"
  proof (cases "ia_status i = Pending")
    case True
    let ?c = "copy\<lparr>ws_interactions := jm_set (ws_interactions copy) (interactionId i) (swept_interaction i)\<rparr>"
    obtain d where d: "Option.bind (jm_get (ws_commands copy) (ia_commandId i)) dispatch = Some d"
      using step True by (auto simp: handoff_interaction_def h split: option.splits)
    then have cmd: "jm_has (ws_commands copy) (ia_commandId i)" by (auto simp: jm_has_get bind_eq_Some_conv)
    have "handoff_append e lim st inp gen (Some (ia_commandId i)) (Some (attemptId d))
         (Interaction_withdrawn (interactionId i)) (''interaction-'' @ interactionId i) (?c, events) = Inr (copy', events')"
      using step True by (simp add: handoff_interaction_def swept_interaction_def h h' d)
    note app = handoff_append_ok [OF this] handoff_append_Inr [OF this]
    have "copy' = ?c" using app(4) by fastforce
    then show ?thesis using app(2) cmd by auto
  next
    case False
    then have "copy' = copy" "events' = events"
      using step by (simp_all add: handoff_interaction_def h h')
    then show ?thesis using False by (auto simp: swept_interaction_def intro!: exI [of _ "ws_interactions copy"])
  qed
  then show "ws_interactions (fst h') = jm_set (ws_interactions (fst h)) (interactionId i) (swept_interaction i) \<or>
      ws_interactions (fst h') = ws_interactions (fst h) \<and> swept_interaction i = i"
    "\<exists>m. fst h' = (fst h)\<lparr>ws_interactions := m\<rparr>"
    "handoff_events_ok st inp gen (snd h) \<Longrightarrow> (\<And>c. jm_has (ws_commands (fst h)) c \<Longrightarrow> jm_has (ws_commands st) c) \<Longrightarrow>
      handoff_events_ok st inp gen (snd h')"
    by (simp_all add: h h')
qed

lemma handoff_surface_step:
  assumes step: "handoff_surface e lim st inp gen s h = Inr h'"
  shows "ws_surfaces (fst h') = jm_set (ws_surfaces (fst h)) (surfaceInstanceId s) (swept_surface s) \<or>
      ws_surfaces (fst h') = ws_surfaces (fst h) \<and> swept_surface s = s"
    and "\<exists>m. fst h' = (fst h)\<lparr>ws_surfaces := m\<rparr>"
    and "handoff_events_ok st inp gen (snd h) \<Longrightarrow> (\<And>c. jm_has (ws_commands (fst h)) c \<Longrightarrow> jm_has (ws_commands st) c) \<Longrightarrow>
      handoff_events_ok st inp gen (snd h')"
proof -
  obtain copy events where h: "h = (copy, events)" by (cases h)
  obtain copy' events' where h': "h' = (copy', events')" by (cases h')
  have "(ws_surfaces copy' = jm_set (ws_surfaces copy) (surfaceInstanceId s) (swept_surface s) \<or>
      ws_surfaces copy' = ws_surfaces copy \<and> swept_surface s = s) \<and>
    (\<exists>m. copy' = copy\<lparr>ws_surfaces := m\<rparr>) \<and>
    (handoff_events_ok st inp gen events \<longrightarrow> (\<forall>c. jm_has (ws_commands copy) c \<longrightarrow> jm_has (ws_commands st) c) \<longrightarrow>
      handoff_events_ok st inp gen events')"
  proof (cases "sf_status s = Surface_active")
    case True
    let ?c = "copy\<lparr>ws_surfaces := jm_set (ws_surfaces copy) (surfaceInstanceId s) (swept_surface s)\<rparr>"
    obtain i d where i: "jm_get (ws_interactions copy) (sf_interactionId s) = Some i"
      and d: "Option.bind (jm_get (ws_commands copy) (ia_commandId i)) dispatch = Some d"
      using step True by (auto simp: handoff_surface_def h Let_def split: option.splits)
    then have cmd: "jm_has (ws_commands copy) (ia_commandId i)" by (auto simp: jm_has_get bind_eq_Some_conv)
    have "handoff_append e lim st inp gen (Some (ia_commandId i)) (Some (attemptId d))
         (Surface_changed (swept_surface s)) (''surface-'' @ surfaceInstanceId s) (?c, events) = Inr (copy', events')"
      using step True by (simp add: handoff_surface_def swept_surface_def h h' i d Let_def split: option.splits)
    note app = handoff_append_ok [OF this] handoff_append_Inr [OF this]
    have "copy' = ?c" using app(4) by fastforce
    then show ?thesis using app(2) cmd by auto
  next
    case False
    then have "copy' = copy" "events' = events"
      using step by (simp_all add: handoff_surface_def h h')
    then show ?thesis using False by (auto simp: swept_surface_def intro!: exI [of _ "ws_surfaces copy"])
  qed
  then show "ws_surfaces (fst h') = jm_set (ws_surfaces (fst h)) (surfaceInstanceId s) (swept_surface s) \<or>
      ws_surfaces (fst h') = ws_surfaces (fst h) \<and> swept_surface s = s"
    "\<exists>m. fst h' = (fst h)\<lparr>ws_surfaces := m\<rparr>"
    "handoff_events_ok st inp gen (snd h) \<Longrightarrow> (\<And>c. jm_has (ws_commands (fst h)) c \<Longrightarrow> jm_has (ws_commands st) c) \<Longrightarrow>
      handoff_events_ok st inp gen (snd h')"
    by (simp_all add: h h')
qed

section \<open>The effect of a handoff\<close>

definition swept :: "id \<Rightarrow> workspace \<Rightarrow> workspace" where
  "swept gen st = st\<lparr>ws_commands := sweep (swept_command gen) (ws_commands st),
     ws_interactions := sweep swept_interaction (ws_interactions st),
     ws_surfaces := sweep swept_surface (ws_surfaces st)\<rparr>"

lemma swept_frame [simp]:
  "ws_session (swept gen st) = ws_session st" "ws_events (swept gen st) = ws_events st"
  "ws_generations (swept gen st) = ws_generations st" "ws_deliveries (swept gen st) = ws_deliveries st"
  by (simp_all add: swept_def)

lemma sweep_has [simp]: "jm_has (sweep g m) k \<longleftrightarrow> jm_has m k"
  by (simp add: jm_has_def)

lemma handoff_sweep_effect:
  assumes run: "handoff_sweep e lim st inp gen opening = Inr (copy, events)" and keyed: "ws_keyed st"
  shows "copy = swept gen st" "handoff_events_ok st inp gen events"
proof -
  have kc: "keyed record_id (ws_commands st)" and ki: "keyed interactionId (ws_interactions st)"
    and ks: "keyed surfaceInstanceId (ws_surfaces st)" using keyed by (simp_all add: ws_keyed_def)
  obtain h0 h1 h2 where r0: "handoff_append e lim st inp gen None None opening ''rebind'' (st, []) = Inr h0"
    and r1: "loop_exit (handoff_command e lim st inp gen) (filter (in_states live_states) (jm_values (ws_commands st))) h0 = Inr h1"
    and r2: "loop_exit (handoff_interaction e lim st inp gen) (filter (for_command None) (jm_values (ws_interactions st))) h1 = Inr h2"
    and r3: "loop_exit (handoff_surface e lim st inp gen) (filter (for_interaction None) (jm_values (ws_surfaces st))) h2 = Inr (copy, events)"
    using run by (auto simp: handoff_sweep_def commandsInStates_def interactionsForCommand_def surfacesForInteraction_def)
  obtain events0 where h0: "h0 = (st, events0)" "handoff_events_ok st inp gen events0"
    using handoff_append_ok [of e lim st inp gen None None "opening" "''rebind''" st "[]"] r0
    by (cases h0) (auto simp: handoff_events_ok_def)
  have c1: "ws_commands (fst h1) = sweep (swept_command gen) (ws_commands st)"
    by (rule sweep_loop [where T = "\<lambda>h. ws_commands (fst h)", OF r1 _ kc])
       (use handoff_command_step(1) in \<open>auto simp: h0 live_settled swept_command_cases\<close>)
  have f1: "(\<exists>m. fst h1 = st\<lparr>ws_commands := m\<rparr>) \<and> handoff_events_ok st inp gen (snd h1)"
  proof (rule loop_exit_invariant [OF r1, of "\<lambda>past h. (\<exists>m. fst h = st\<lparr>ws_commands := m\<rparr>) \<and> handoff_events_ok st inp gen (snd h)"], goal_cases)
    case (2 past x t t')
    then have "\<not> isSettled x" "jm_has (ws_commands st) (record_id x)"
      using keyed_values_iff [OF kc, of x] by (auto simp: live_settled jm_has_def)
    then show ?case using handoff_command_step(2,3) [OF 2(4)] 2(3) by auto
  qed (auto simp: h0 intro: exI [of _ "ws_commands st"])
  then have e1: "fst h1 = st\<lparr>ws_commands := sweep (swept_command gen) (ws_commands st)\<rparr>" using c1 by auto
  have i2: "ws_interactions (fst h2) = sweep swept_interaction (ws_interactions st)"
    by (rule sweep_loop [where T = "\<lambda>h. ws_interactions (fst h)", OF r2 _ ki])
       (use handoff_interaction_step(1) in \<open>auto simp: e1 for_command_def\<close>)
  have f2: "(\<exists>m. fst h2 = (fst h1)\<lparr>ws_interactions := m\<rparr>) \<and> handoff_events_ok st inp gen (snd h2)"
  proof (rule loop_exit_invariant [OF r2, of "\<lambda>past h. (\<exists>m. fst h = (fst h1)\<lparr>ws_interactions := m\<rparr>) \<and> handoff_events_ok st inp gen (snd h)"], goal_cases)
    case (2 past x t t')
    have "jm_has (ws_commands (fst t)) c \<Longrightarrow> jm_has (ws_commands st) c" for c using 2(3) by (auto simp: e1)
    then show ?case using handoff_interaction_step(2,3) [OF 2(4)] 2(3) by auto
  qed (use f1 in \<open>auto intro: exI [of _ "ws_interactions (fst h1)"]\<close>)
  then have e2: "fst h2 = (fst h1)\<lparr>ws_interactions := sweep swept_interaction (ws_interactions st)\<rparr>" using i2 by auto
  have s3: "ws_surfaces (fst (copy, events)) = sweep swept_surface (ws_surfaces st)"
    by (rule sweep_loop [where T = "\<lambda>h. ws_surfaces (fst h)", OF r3 _ ks])
       (use handoff_surface_step(1) in \<open>auto simp: e1 e2 for_interaction_def\<close>)
  have f3: "(\<exists>m. fst (copy, events) = (fst h2)\<lparr>ws_surfaces := m\<rparr>) \<and> handoff_events_ok st inp gen (snd (copy, events))"
  proof (rule loop_exit_invariant [OF r3, of "\<lambda>past h. (\<exists>m. fst h = (fst h2)\<lparr>ws_surfaces := m\<rparr>) \<and> handoff_events_ok st inp gen (snd h)"], goal_cases)
    case (2 past x t t')
    have "jm_has (ws_commands (fst t)) c \<Longrightarrow> jm_has (ws_commands st) c" for c using 2(3) by (auto simp: e1 e2)
    then show ?case using handoff_surface_step(2,3) [OF 2(4)] 2(3) by auto
  qed (use f2 in \<open>auto intro: exI [of _ "ws_surfaces (fst h2)"]\<close>)
  then show "copy = swept gen st" "handoff_events_ok st inp gen events"
    using s3 by (auto simp: e1 e2 swept_def)
qed

text \<open>A handoff is a sweep, its events appended, and the session moved to the claimed binding.\<close>

lemma reduceHandoff_effect:
  assumes run: "reduceHandoff e lim st inp restored = Inr st'" and keyed: "ws_keyed st"
  obtains claim cur bd caps s events where "handoff_claim st restored = Inr claim"
    "activeStage (ws_session st) = Inr cur"
    "bd = (case claim of Some vs \<Rightarrow> vs_binding vs | None \<Rightarrow> stage_binding cur)"
    "replaceStage ((ws_session st)\<lparr>status := (if claim \<noteq> None then Active else Recovery_required),
       revision := revision (ws_session st) + 1,
       lastSequence := lastSequence (ws_session st) + int (length events)\<rparr>) (Some bd) (Some caps) = Inr s"
    "context_session s" "schema_session s" "handoff_events_ok st inp (generation bd) events"
    "st' = (swept (generation bd) st)\<lparr>ws_session := s, ws_events := ws_events st @ events,
       ws_generations := add_generation (generation bd) (ws_generations st)\<rparr>"
    "ri_namespace inp = ss_namespace (ws_session st)"
    "caps = (case claim of Some vs \<Rightarrow> vs_capabilities vs | None \<Rightarrow> stage_capabilities cur)"
    "ri_expectedRevision inp = revision (ws_session st)" "status (ws_session st) \<noteq> Retired"
proof -
  obtain claim cur where claim: "handoff_claim st restored = Inr claim" "activeStage (ws_session st) = Inr cur"
    and ns: "ri_namespace inp = ss_namespace (ws_session st)"
    and head: "ri_expectedRevision inp = revision (ws_session st)" "status (ws_session st) \<noteq> Retired"
    and rest: "(let bd = (case claim of Some vs \<Rightarrow> vs_binding vs | None \<Rightarrow> stage_binding cur);
          caps = (case claim of Some vs \<Rightarrow> vs_capabilities vs | None \<Rightarrow> stage_capabilities cur);
          opening = (case claim of Some vs \<Rightarrow> Session_rebound (generation (stage_binding cur))
                     | None \<Rightarrow> Session_recovery_unavailable)
      in and_then (handoff_sweep e lim st inp (generation bd) opening)
           (handoff_finish e lim bd caps (claim \<noteq> None))) = Inr st'"
    using run by (auto simp: reduceHandoff_def checkState_None)
  define bd where "bd = (case claim of Some vs \<Rightarrow> vs_binding vs | None \<Rightarrow> stage_binding cur)"
  define caps where "caps = (case claim of Some vs \<Rightarrow> vs_capabilities vs | None \<Rightarrow> stage_capabilities cur)"
  from rest obtain op_body copy events where
    sw: "handoff_sweep e lim st inp (generation bd) op_body = Inr (copy, events)"
    and fin: "handoff_finish e lim bd caps (claim \<noteq> None) (copy, events) = Inr st'"
    unfolding Let_def and_then_Inr bd_def caps_def by (metis surj_pair)
  note eff = handoff_sweep_effect [OF sw keyed]
  from fin obtain s where rs: "replaceStage ((ws_session copy)\<lparr>status := (if claim \<noteq> None then Active else Recovery_required),
       revision := revision (ws_session copy) + 1,
       lastSequence := lastSequence (ws_session copy) + int (length events)\<rparr>) (Some bd) (Some caps) = Inr s"
    and v: "valid (env_digest e) lim (Row_session s) = None"
    and st': "st' = copy\<lparr>ws_session := s, ws_events := ws_events copy @ events,
           ws_generations := add_generation (generation bd) (ws_generations copy)\<rparr>"
    by (auto simp: handoff_finish_def split: option.splits)
  have same: "ws_session copy = ws_session st" "ws_events copy = ws_events st" "ws_generations copy = ws_generations st"
    by (simp_all add: eff(1) swept_def)
  show ?thesis
    by (rule that [OF claim bd_def rs [unfolded same] _ _ eff(2) _ ns caps_def head])
       (use v in \<open>auto simp: valid_None st' same eff(1)\<close>)
qed

section \<open>The invariant across a sweep\<close>

text \<open>
  Any workspace that carries swept tables, appended events of its own namespace and a session
  that keeps the namespace and counts the events, is again well formed.
\<close>

lemma swept_tables_ok:
  assumes inv: "ws_inv st"
  shows "ws_keyed (swept gen st)" "commands_ok (swept gen st)" "interactions_ok (swept gen st)"
    "callbacks_unique (ws_interactions (swept gen st))" "surfaces_ok (swept gen st)"
proof -
  note i = inv [unfolded ws_inv_def]
  show "ws_keyed (swept gen st)"
    using i by (simp add: swept_def ws_keyed_def sweep_keyed)
  have "length (filter open_turn (map (swept_command gen) xs)) \<le> length (filter open_turn xs)" for xs
    by (induction xs) (auto dest: swept_open_turn)
  then show "commands_ok (swept gen st)"
    using i by (auto simp: commands_ok_def swept_def sweep_values swept_record_ok intro: order_trans)
  have sub: "submitted c \<Longrightarrow> submitted (swept_command gen c)" for c
    using swept_succeeds(1) [of c gen] by (simp add: record_succeeds_def)
  show "interactions_ok (swept gen st)"
    unfolding interactions_ok_def
  proof (intro allI impI)
    fix k i' assume "jm_get (ws_interactions (swept gen st)) k = Some i'"
    then obtain i where ii: "jm_get (ws_interactions st) k = Some i" "i' = swept_interaction i"
      by (auto simp: swept_def)
    obtain c where "jm_get (ws_commands st) (ia_commandId i) = Some c" "submitted c"
      using interactions_okD [OF _ ii(1)] i by auto
    then show "\<exists>c. jm_get (ws_commands (swept gen st)) (ia_commandId i') = Some c \<and> submitted c \<and>
        (isSettled c \<longrightarrow> ia_status i' \<noteq> Pending)"
      using sub by (auto simp: swept_def ii(2) swept_interaction_def)
  qed
  show "callbacks_unique (ws_interactions (swept gen st))"
    using i unfolding callbacks_unique_def
    by (auto simp: swept_def swept_interaction_def split: if_splits)
  show "surfaces_ok (swept gen st)"
    unfolding surfaces_ok_def
  proof (intro allI impI)
    fix k s' assume "jm_get (ws_surfaces (swept gen st)) k = Some s'"
    then obtain s where ss: "jm_get (ws_surfaces st) k = Some s" "s' = swept_surface s"
      by (auto simp: swept_def)
    then show "\<exists>i. jm_get (ws_interactions (swept gen st)) (sf_interactionId s') = Some i \<and>
        (\<forall>c. jm_get (ws_commands (swept gen st)) (ia_commandId i) = Some c \<longrightarrow> isSettled c \<longrightarrow> sf_status s' \<noteq> Surface_active)"
      using surfaces_okD [OF _ ss(1)] i by (auto simp: swept_def swept_surface_def)
  qed
qed

lemma swept_ws_succeeds:
  "table_succeeds record_succeeds (ws_commands st) (ws_commands (swept gen st))"
  "table_succeeds interaction_succeeds (ws_interactions st) (ws_interactions (swept gen st))"
  "table_succeeds surface_succeeds (ws_surfaces st) (ws_surfaces (swept gen st))"
  by (auto simp: table_succeeds_def swept_def swept_succeeds)

end
