(* ===== verification/Session_Reach.thy ===== *)
theory Session_Reach
  imports Session_Sweep
begin

text \<open>
  The transitions as one step relation, and the invariant over every reachable workspace.
  Each lemma \<open>t_ok\<close> says of one transition that a successful run keeps the invariant and
  relates the workspaces before and after by succession.
\<close>

definition preserves :: "workspace \<Rightarrow> workspace \<Rightarrow> bool" where
  "preserves st st' \<longleftrightarrow> (ws_inv st \<longrightarrow> ws_inv st' \<and> ws_succeeds st st')"

lemma preserves_refl [simp]: "preserves st st"
  by (simp add: preserves_def)

lemma preserves_trans: "preserves a b \<Longrightarrow> preserves b c \<Longrightarrow> preserves a c"
  by (auto simp: preserves_def intro: ws_succeeds_trans)

lemma commit_ok: "reduceCommit e lim st b accepting suspending = Inr st' \<Longrightarrow> preserves st st'"
  using reduceCommit_ok by (auto simp: preserves_def)

section \<open>Each transition\<close>

lemma createState_ok:
  assumes "createState e lim s = Inr st"
  shows "ws_inv st"
proof -
  have v: "schema_namespace (ss_namespace s)" "context_session s" "lastSequence s = 0"
    and st: "st = \<lparr>ws_session = s, ws_generations = remdups (map (\<lambda>stage. generation (stage_binding stage)) (stages s)),
        ws_commands = [], ws_events = [], ws_interactions = [], ws_deliveries = [], ws_surfaces = []\<rparr>"
    using assms by (auto simp: createState_def valid_None split: if_splits)
  show ?thesis
    using v by (simp add: st ws_inv_def ws_keyed_def events_ok_def generations_ok_def commands_ok_def
        interactions_ok_def callbacks_unique_def surfaces_ok_def jm_values_def)
qed

lemma acceptance_cases:
  assumes "reduceAcceptance e lim st inp suspending = Inr (st', r)"
  obtains (replay) prior where "st' = st" "jm_get (ws_commands st) (commandId (ai_command inp)) = Some prior"
      "r = cr_receipt prior" "contentHash r = env_digest e (json_of_command (ai_command inp))"
      "ai_nowMs inp \<le> receiptUntilMs r"
    | (fresh) cur answered answers where "jm_get (ws_commands st) (commandId (ai_command inp)) = None"
      "activeStage (ws_session st) = Inr cur"
      "r = new_receipt st inp cur (env_digest e (json_of_command (ai_command inp)))"
      "reduceCommit e lim st (accept_batch st inp cur (env_digest e (json_of_command (ai_command inp))) answered answers)
         True suspending = Inr st'"
      "respond_row st inp = Inr answered" "accept_open st inp suspending = None"
proof -
  have fp: "fingerprint (env_digest e) lim (ai_command inp) = Inr (env_digest e (json_of_command (ai_command inp)))"
    using assms by (auto simp: reduceAcceptance_def accept_head_def fingerprint_def)
  show ?thesis
  proof (cases "jm_get (ws_commands st) (commandId (ai_command inp))")
    case None
    then show ?thesis
      using assms fresh by (auto simp: reduceAcceptance_def fp accept_new_def)
  next
    case (Some prior)
    then show ?thesis
      using assms replay [OF _ Some] by (auto simp: reduceAcceptance_def fp split: if_splits)
  qed
qed

lemma acceptance_ok: "reduceAcceptance e lim st inp suspending = Inr (st', r) \<Longrightarrow> preserves st st'"
  by (erule acceptance_cases) (auto intro: commit_ok)

lemma replaceStage_stages:
  assumes "replaceStage s (Some b) (Some c) = Inr t"
  shows "\<forall>g \<in> set (stages t). stage_binding g = b \<or> g \<in> set (stages s)"
    and "ss_namespace t = ss_namespace s" "lastSequence t = lastSequence s" "revision t = revision s"
    "status t = status s" "selectedConnectionId t = selectedConnectionId s"
    "map stageId (stages t) = map stageId (stages s)"
  using assms by (auto simp: replaceStage_def)

lemma handoff_ok:
  assumes run: "reduceHandoff e lim st inp restored = Inr st'"
  shows "preserves st st'"
  unfolding preserves_def
proof
  assume inv: "ws_inv st"
  then have keyed: "ws_keyed st" by (simp add: ws_inv_def)
  show "ws_inv st' \<and> ws_succeeds st st'"
    using reduceHandoff_effect [OF run keyed]
  proof cases
    case (1 claim cur bd caps s events)
    note rs = replaceStage_stages [OF 1(4)]
    have ns: "ss_namespace s = ss_namespace (ws_session st)"
      and last: "lastSequence s = int (length (ws_events st @ events))"
      using rs(2,3) inv by (simp_all add: ws_inv_def events_ok_def)
    have "events_ok st'"
      using inv 1(7,9) last ns
      by (auto simp: 1(8) ws_inv_def events_ok_def handoff_events_ok_def nth_append swept_def)
    moreover have "generations_ok st'"
      using inv rs(1) by (auto simp: 1(8) ws_inv_def generations_ok_def add_generation_def)
    moreover have "ws_keyed st'" "commands_ok st'" "interactions_ok st'"
      "callbacks_unique (ws_interactions st')" "surfaces_ok st'"
      using swept_tables_ok [OF inv, of "generation bd"]
      by (simp_all add: 1(8) ws_keyed_def commands_ok_def interactions_ok_def surfaces_ok_def)
    moreover have "schema_namespace (ss_namespace s)" using inv by (simp add: ns ws_inv_def)
    ultimately have "ws_inv st'" using 1(5) by (simp add: ws_inv_def) (simp add: 1(8))
    moreover have "ws_succeeds st st'"
      using swept_ws_succeeds [of st "generation bd"] ns by (simp add: ws_succeeds_def 1(8))
    ultimately show ?thesis by simp
  qed
qed

text \<open>A transition that touches neither tables nor events keeps what it does not mention.\<close>

lemma head_only_ok:
  assumes "ws_inv st" "ss_namespace s = ss_namespace (ws_session st)" "context_session s"
    and "lastSequence s = lastSequence (ws_session st) + int (length es)"
    and "\<And>i. i < length es \<Longrightarrow> sequence (es ! i) = lastSequence (ws_session st) + int i + 1"
    and "\<And>ev. ev \<in> set es \<Longrightarrow> ev_namespace ev = ss_namespace (ws_session st) \<and> ev_commandId ev = None"
    and "stages s = stages (ws_session st)"
  shows "ws_inv (st\<lparr>ws_session := s, ws_events := ws_events st @ es\<rparr>)"
    and "ws_succeeds st (st\<lparr>ws_session := s, ws_events := ws_events st @ es\<rparr>)"
  using assms
  by (auto simp: ws_inv_def ws_keyed_def events_ok_def generations_ok_def commands_ok_def interactions_ok_def
      surfaces_ok_def nth_append ws_succeeds_def table_succeeds_refl)

lemma retirement_ok:
  assumes run: "reduceRetirement e lim st revn gen = Inr st'"
  shows "preserves st st'"
  unfolding preserves_def
proof
  assume inv: "ws_inv st"
  define s where "s = (ws_session st)\<lparr>status := Retired, revision := revn + 1,
            lastSequence := lastSequence (ws_session st) + 1\<rparr>"
  obtain key where st': "st' = st\<lparr>ws_session := s, ws_events := ws_events st @ [retirement_event e s key revn gen]\<rparr>"
    using run by (auto simp: reduceRetirement_def Let_def s_def split: option.splits)
  have "context_session s" using inv by (simp add: ws_inv_def context_session_def s_def)
  then show "ws_inv st' \<and> ws_succeeds st st'"
    unfolding st' using head_only_ok [OF inv, of s "[retirement_event e s key revn gen]"]
    by (auto simp: s_def retirement_event_def)
qed

lemma selection_ok:
  assumes "selectConnection st connection revn fresh = Inr st'"
  shows "preserves st st'"
  unfolding preserves_def
proof
  assume inv: "ws_inv st"
  show "ws_inv st' \<and> ws_succeeds st st'"
  proof (cases "st' = st")
    case False
    then obtain s where s: "st' = st\<lparr>ws_session := s\<rparr>" "ss_namespace s = ss_namespace (ws_session st)"
      "lastSequence s = lastSequence (ws_session st)" "stages s = stages (ws_session st)"
      "currentStageId s = currentStageId (ws_session st)"
      using assms by (auto simp: selectConnection_def split: if_splits)
    have "context_session s" using inv s(4,5) by (simp add: ws_inv_def context_session_def)
    then show ?thesis using head_only_ok [OF inv s(2), of "[]"] s by simp
  qed (use inv in simp)
qed

lemma unsettled_work_iff:
  "ws_keyed st \<Longrightarrow> unsettled_work st \<longleftrightarrow> (\<exists>k c. jm_get (ws_commands st) k = Some c \<and> \<not> isSettled c)"
  by (auto simp: unsettled_work_def commandsInStates_def list_ex_iff live_settled ws_keyed_def keyed_def jm_values_mem)

text \<open>
  Once every command is settled the invariant leaves nothing pending or active, so the
  withdrawals of a stage activation are the identity on well-formed workspaces.
\<close>

lemma nothing_to_withdraw:
  assumes inv: "ws_inv st" and idle: "\<not> unsettled_work st"
  shows "withdraw_interactions (ws_interactions st) = ws_interactions st"
    and "withdraw_surfaces (ws_surfaces st) = ws_surfaces st"
proof -
  have keyed: "ws_keyed st" and io: "interactions_ok st" and so: "surfaces_ok st"
    using inv by (simp_all add: ws_inv_def)
  have wf: "jm_wf (ws_interactions st)" "jm_wf (ws_surfaces st)"
    using keyed by (simp_all add: ws_keyed_def keyed_def)
  have settled: "isSettled c" if "jm_get (ws_commands st) k = Some c" for k c
    using idle that by (auto simp: unsettled_work_iff [OF keyed])
  have "ia_status i \<noteq> Pending" if "jm_get (ws_interactions st) k = Some i" for k i
    using interactions_okD [OF io that] settled by blast
  then have "filter (\<lambda>i. ia_status i = Pending) (jm_values (ws_interactions st)) = []"
    by (auto simp: filter_empty_conv jm_values_mem [OF wf(1)])
  then show "withdraw_interactions (ws_interactions st) = ws_interactions st"
    by (simp add: withdraw_interactions_def)
  have "sf_status s \<noteq> Surface_active" if s: "jm_get (ws_surfaces st) k = Some s" for k s
  proof -
    obtain i where i: "jm_get (ws_interactions st) (sf_interactionId s) = Some i"
      "\<forall>c. jm_get (ws_commands st) (ia_commandId i) = Some c \<longrightarrow> isSettled c \<longrightarrow> sf_status s \<noteq> Surface_active"
      using surfaces_okD [OF so s] by blast
    then show ?thesis using interactions_okD [OF io i(1)] settled by blast
  qed
  then have "filter (\<lambda>s. sf_status s = Surface_active) (jm_values (ws_surfaces st)) = []"
    by (auto simp: filter_empty_conv jm_values_mem [OF wf(2)])
  then show "withdraw_surfaces (ws_surfaces st) = ws_surfaces st"
    by (simp add: withdraw_surfaces_def)
qed

lemma activation_run:
  assumes "activateStage e st inp = Inr st'"
  obtains vs s where "xi_opened inp = Admitted vs" "opens vs (xi_namespace inp)"
    "xi_namespace inp = ss_namespace (ws_session st)" "status (ws_session st) \<noteq> Retired"
    "\<not> unsettled_work st" "generation (vs_binding vs) \<notin> set (ws_generations st)"
    "revision (ws_session st) = xi_expectedRevision inp"
    "selectedConnectionId (ws_session st) = Some (cfg_id (config (vs_binding vs)))"
    "startStage ((ws_session st)\<lparr>status := Active, revision := revision (ws_session st) + 1\<rparr>)
      (providerStage (vs_binding vs) (vs_capabilities vs) (xi_configRevision inp)) = Inr s"
    "valid (env_digest e) defaultLimits (Row_session s) = None"
    "st' = st\<lparr>ws_session := s,
       ws_generations := add_generation (generation (vs_binding vs)) (ws_generations st),
       ws_interactions := withdraw_interactions (ws_interactions st),
       ws_surfaces := withdraw_surfaces (ws_surfaces st)\<rparr>"
proof (cases "xi_opened inp")
  case Forged
  then show ?thesis using assms by (simp add: activateStage_def)
next
  case (Admitted vs)
  have "\<exists>s. startStage ((ws_session st)\<lparr>status := Active, revision := revision (ws_session st) + 1\<rparr>)
      (providerStage (vs_binding vs) (vs_capabilities vs) (xi_configRevision inp)) = Inr s \<and>
    valid (env_digest e) defaultLimits (Row_session s) = None \<and>
    st' = st\<lparr>ws_session := s,
       ws_generations := add_generation (generation (vs_binding vs)) (ws_generations st),
       ws_interactions := withdraw_interactions (ws_interactions st),
       ws_surfaces := withdraw_surfaces (ws_surfaces st)\<rparr>"
    using assms by (auto simp add: activateStage_def Admitted split: if_splits option.splits)
  then obtain s where s: "startStage ((ws_session st)\<lparr>status := Active, revision := revision (ws_session st) + 1\<rparr>)
      (providerStage (vs_binding vs) (vs_capabilities vs) (xi_configRevision inp)) = Inr s"
    "valid (env_digest e) defaultLimits (Row_session s) = None"
    "st' = st\<lparr>ws_session := s,
       ws_generations := add_generation (generation (vs_binding vs)) (ws_generations st),
       ws_interactions := withdraw_interactions (ws_interactions st),
       ws_surfaces := withdraw_surfaces (ws_surfaces st)\<rparr>"
    by blast
  show ?thesis
    by (rule that [OF Admitted _ _ _ _ _ _ _ s])
       (use assms in \<open>simp_all add: activateStage_def Admitted split: if_splits\<close>)
qed

lemma activation_ok:
  assumes run: "activateStage e st inp = Inr st'"
  shows "preserves st st'"
  unfolding preserves_def
proof
  assume inv: "ws_inv st"
  show "ws_inv st' \<and> ws_succeeds st st'"
    using run
  proof (rule activation_run)
    fix vs s
    assume idle: "\<not> unsettled_work st"
      and start: "startStage ((ws_session st)\<lparr>status := Active, revision := revision (ws_session st) + 1\<rparr>)
        (providerStage (vs_binding vs) (vs_capabilities vs) (xi_configRevision inp)) = Inr s"
      and v: "valid (env_digest e) defaultLimits (Row_session s) = None"
      and st': "st' = st\<lparr>ws_session := s,
       ws_generations := add_generation (generation (vs_binding vs)) (ws_generations st),
       ws_interactions := withdraw_interactions (ws_interactions st),
       ws_surfaces := withdraw_surfaces (ws_surfaces st)\<rparr>"
    have same: "st' = st\<lparr>ws_session := s,
       ws_generations := add_generation (generation (vs_binding vs)) (ws_generations st)\<rparr>"
      by (simp add: st' nothing_to_withdraw [OF inv idle])
    have s: "ss_namespace s = ss_namespace (ws_session st)" "lastSequence s = lastSequence (ws_session st)"
      "stages s = stages (ws_session st) @ [providerStage (vs_binding vs) (vs_capabilities vs) (xi_configRevision inp)]"
      using start by (auto simp: startStage_def split: if_splits)
    have "context_session s" using v by (simp add: valid_None)
    then show ?thesis
      using inv s unfolding same
      by (auto simp: ws_inv_def ws_keyed_def events_ok_def generations_ok_def commands_ok_def interactions_ok_def
        surfaces_ok_def add_generation_def providerStage_def ws_succeeds_def table_succeeds_refl)
  qed
qed

lemma suspend_target_ok:
  assumes "suspend_target e lim inp gen tgt nxt = Inr nxt'"
  shows "preserves nxt nxt'"
  using assms
  by (auto simp: suspend_target_def Let_def split: if_splits option.splits
      intro: preserves_trans [OF acceptance_ok commit_ok])

lemma suspension_ok:
  assumes run: "reduceSuspension e lim st inp = Inr st'"
  shows "preserves st st'"
proof (cases "st' = st")
  case False
  then obtain gen nxt where loop: "loop_exit (suspend_target e lim inp gen) (commandsInStates st [T_accepted]) st = Inr nxt"
    and rest: "st' = nxt \<or> (\<exists>r. reduceHandoff e lim nxt r None = Inr st')"
    using run by (auto simp: reduceSuspension_def Let_def split: if_splits)
  have "preserves st nxt"
    by (rule loop_exit_invariant [OF loop, of "\<lambda>past w. preserves st w"])
       (auto intro: preserves_trans suspend_target_ok)
  then show ?thesis using rest by (auto intro: preserves_trans handoff_ok)
qed simp

section \<open>The step relation\<close>

text \<open>
  One transition of a session, under any process environment: evidence accumulates between
  steps, and the limits are the caller's.
\<close>

inductive session_step :: "workspace \<Rightarrow> workspace \<Rightarrow> bool" where
  Accept: "acceptCommand e lim st inp = Inr (st', r) \<Longrightarrow> session_step st st'"
| Commit: "commitSession e lim st b = Inr st' \<Longrightarrow> session_step st st'"
| Rebind: "rebindSession e lim st ri restored = Inr st' \<Longrightarrow> session_step st st'"
| Recover: "recoverUnavailable e lim st ri = Inr st' \<Longrightarrow> session_step st st'"
| Retire: "retireSession e lim st revn gen = Inr st' \<Longrightarrow> session_step st st'"
| Suspend: "suspendSession e lim st si = Inr st' \<Longrightarrow> session_step st st'"
| Select: "selectConnection st connection revn fresh = Inr st' \<Longrightarrow> session_step st st'"
| Activate: "activateStage e st xi = Inr st' \<Longrightarrow> session_step st st'"

inductive reachable :: "workspace \<Rightarrow> bool" where
  Created: "createState e lim s = Inr st \<Longrightarrow> reachable st"
| Stepped: "reachable st \<Longrightarrow> session_step st st' \<Longrightarrow> reachable st'"

inductive_cases session_stepE: "session_step st st'"

lemmas step_entry_defs = acceptCommand_def commitSession_def rebindSession_def recoverUnavailable_def
  retireSession_def suspendSession_def

lemma step_ok: "session_step st st' \<Longrightarrow> preserves st st'"
proof (induction rule: session_step.induct)
  case (Accept e lim st inp st' r)
  then show ?case by (auto simp: step_entry_defs intro: acceptance_ok)
next
  case (Commit e lim st b st')
  then show ?case by (auto simp: step_entry_defs intro: commit_ok)
next
  case (Rebind e lim st ri restored st')
  then show ?case by (auto simp: step_entry_defs intro: handoff_ok)
next
  case (Recover e lim st ri st')
  then show ?case by (auto simp: step_entry_defs intro: handoff_ok)
next
  case (Retire e lim st revn gen st')
  then show ?case by (auto simp: step_entry_defs intro: retirement_ok)
next
  case (Suspend e lim st si st')
  then show ?case by (auto simp: step_entry_defs intro: suspension_ok)
next
  case (Select st connection revn fresh st')
  then show ?case by (rule selection_ok)
next
  case (Activate e st xi st')
  then show ?case by (rule activation_ok)
qed

lemma reachable_inv: "reachable st \<Longrightarrow> ws_inv st"
proof (induction rule: reachable.induct)
  case (Created e lim s st)
  then show ?case by (rule createState_ok)
next
  case (Stepped st st')
  then show ?case using step_ok by (auto simp: preserves_def)
qed

lemma steps_ok:
  assumes "session_step\<^sup>*\<^sup>* st st'"
  shows "preserves st st'"
  using assms by (induction rule: rtranclp_induct) (auto intro: preserves_trans step_ok)

section \<open>Retirement is final\<close>

lemma acceptance_status:
  assumes "reduceAcceptance e lim st inp suspending = Inr (st', r)"
  shows "status (ws_session st') = status (ws_session st)"
  using assms
proof (cases rule: acceptance_cases)
  case (fresh cur answered answers)
  from fresh(4) show ?thesis
  proof (rule reduceCommit_run)
    fix cur' facts lp copy1 copy2 ixs copy3 copy4 ss
    assume run: "commit_run e lim st (accept_batch st inp cur (env_digest e (json_of_command (ai_command inp))) answered answers)
      True suspending cur' facts lp copy1 copy2 ixs copy3 copy4 ss"
      and "st' = copy4\<lparr>ws_session := cb_session (accept_batch st inp cur
        (env_digest e (json_of_command (ai_command inp))) answered answers)\<rparr>"
    then show ?thesis using run_status [OF run] by simp
  qed
qed simp

lemma commit_status:
  assumes "reduceCommit e lim st b accepting suspending = Inr st'"
  shows "status (ws_session st') = status (ws_session st)"
  using assms
proof (rule reduceCommit_run)
  fix cur facts lp copy1 copy2 ixs copy3 copy4 ss
  assume run: "commit_run e lim st b accepting suspending cur facts lp copy1 copy2 ixs copy3 copy4 ss"
    and "st' = copy4\<lparr>ws_session := cb_session b\<rparr>"
  then show ?thesis using run_status [OF run] by simp
qed

lemma retired_step:
  assumes "session_step st st'" "status (ws_session st) = Retired"
  shows "status (ws_session st') = Retired"
  using assms
proof (induction rule: session_step.induct)
  case (Accept e lim st inp st' r)
  then show ?case using acceptance_status by (auto simp: step_entry_defs)
next
  case (Commit e lim st b st')
  then show ?case using commit_status by (auto simp: step_entry_defs)
next
  case (Rebind e lim st ri restored st')
  then show ?case by (simp add: step_entry_defs reduceHandoff_def)
next
  case (Recover e lim st ri st')
  then show ?case by (simp add: step_entry_defs reduceHandoff_def)
next
  case (Retire e lim st revn gen st')
  then show ?case by (simp add: step_entry_defs reduceRetirement_def checkState_None)
next
  case (Suspend e lim st si st')
  then show ?case by (simp add: step_entry_defs reduceSuspension_def)
next
  case (Select st connection revn fresh st')
  then show ?case by (simp add: selectConnection_def)
next
  case (Activate e st xi st')
  then show ?case by (auto elim: activation_run)
qed

end
