(* ===== verification/Session_Demo.thy ===== *)
theory Session_Demo
  imports Session_Reach
begin

text \<open>
  A concrete session for the witnesses: one connection, one prompt, and the rows of its life.
  The first part bounds the measures of a row from the lengths of its strings, so that the
  validation of a closed row evaluates without printing it.
\<close>

section \<open>Cheap validation of closed rows\<close>

primrec jsize :: "json \<Rightarrow> int"
  and size_items :: "json list \<Rightarrow> int"
  and size_members :: "(utext \<times> json) list \<Rightarrow> int"
  and size_member :: "utext \<times> json \<Rightarrow> int"
where
  "jsize JNull = 4"
| "jsize (JBool b) = 5"
| "jsize (JInt n) = byteLength (json_int n)"
| "jsize (JDec t) = byteLength t"
| "jsize JNonFinite = 0"
| "jsize (JStr s) = 2 + 24 * int (length s)"
| "jsize (JArr xs) = 2 + size_items xs"
| "jsize (JObj ms) = 2 + size_members ms"
| "jsize JForeign = 0"
| "size_items [] = 0"
| "size_items (x # xs) = 1 + jsize x + size_items xs"
| "size_members [] = 0"
| "size_members (m # ms) = 1 + size_member m + size_members ms"
| "size_member (k, v) = 3 + 24 * int (length k) + jsize v"

lemma utf8_char_le: "utf8_char c \<le> 4"
  by (simp add: utf8_char_def)

lemma text_size: "byteLength s \<le> 4 * int (length s)"
proof (induction s)
  case (Cons c s)
  then show ?case using utf8_char_le [of c] by (simp add: byteLength_Cons)
qed simp

lemma quote_size: "byteLength (json_quote s) \<le> 2 + 24 * int (length s)"
proof -
  have escape: "byteLength (json_escape c) \<le> 24" for c
    using text_size [of "json_escape c"] by (auto simp: json_escape_def split: if_splits)
  have "byteLength (concat (map json_escape s)) \<le> 24 * int (length s)"
  proof (induction s)
    case (Cons c s)
    then show ?case using escape [of c] by simp
  qed simp
  then show ?thesis by (simp add: json_quote_def byteLength_Cons utf8_char_def)
qed

lemma print_size:
  "bytes_of (json_parts v) \<le> jsize v"
  "bytes_of (parts_items xs isfirst) \<le> size_items xs"
  "bytes_of (parts_member m) \<le> size_member m"
  "bytes_of (parts_members ms isfirst) \<le> size_members ms"
  apply (induction v and xs and m and ms arbitrary: and isfirst and and isfirst
    rule: json_nodes.induct nodes_items.induct nodes_member.induct nodes_members.induct)
  subgoal by (simp add: utext_of_def byteLength_Cons utf8_char_def)
  subgoal by (simp add: utext_of_def byteLength_Cons utf8_char_def)
  subgoal by simp
  subgoal by simp
  subgoal by simp
  subgoal by (simp add: quote_size)
  subgoal by (simp add: byteLength_Cons utf8_char_def)
  subgoal by (simp add: byteLength_Cons utf8_char_def)
  subgoal by simp
  subgoal by simp
  subgoal by (simp add: byteLength_Cons utf8_char_def add_mono)
  subgoal for k v using quote_size [of k] by (simp add: byteLength_Cons utf8_char_def)
  subgoal by simp
  subgoal by (simp add: byteLength_Cons utf8_char_def add_mono)
  done

lemma text_le_size:
  "json_clean v \<Longrightarrow> Json_Codec.json_text v \<le> jsize v" "clean_items xs \<Longrightarrow> text_items xs \<le> size_items xs"
  "clean_member m \<Longrightarrow> text_member m \<le> size_member m" "clean_members ms \<Longrightarrow> text_members ms \<le> size_members ms"
  apply (induction v and xs and m and ms
    rule: json_nodes.induct nodes_items.induct nodes_member.induct nodes_members.induct)
  subgoal by simp
  subgoal by simp
  subgoal by simp
  subgoal by simp
  subgoal by simp
  subgoal for s using text_size [of s] by simp
  subgoal by simp
  subgoal by simp
  subgoal by simp
  subgoal by simp
  subgoal by simp
  subgoal for k v using text_size [of k] by simp
  subgoal by simp
  subgoal by simp
  done

text \<open>Enough for a closed row to fit the default limits.\<close>

lemma fits_by_size:
  assumes "json_clean v" "json_depth v \<le> 32" "json_nodes v \<le> 16384" "jsize v \<le> 131072"
  shows "fits defaultLimits v"
  using assms print_size(1) [of v] text_le_size(1) [of v]
  by (simp add: fits_def defaultLimits_def json_print_def byteLength_concat)

lemma utext_of_facts [simp]:
  "length (utext_of s) = length s" "unicode (utext_of s)"
proof -
  have "\<not> 55296 \<le> (of_char c :: nat)" for c using nat_of_char_less_256 [of c] by linarith
  then show "unicode (utext_of s)" by (simp add: unicode_def utext_of_def list_all_iff)
qed (simp add: utext_of_def)

section \<open>The demonstration session\<close>

named_theorems demo_defs \<open>the rows of the demonstration session\<close>

text \<open>A computable digest: one content hash, and identifiers that keep the label they derive from.\<close>

definition demo_digest :: digest where
  "demo_digest j = (case j of JArr [a, JStr t] \<Rightarrow> CHR ''d'' # map char_of t
     | _ \<Rightarrow> replicate 64 (CHR ''a''))"

definition demo_ns :: namespace where [demo_defs]:
  "demo_ns = \<lparr>tenantId = ''t1'', principalId = ''u1'', authorityId = ''a1'', ns_sessionId = ''s1''\<rparr>"

definition demo_binding :: binding where [demo_defs]:
  "demo_binding = \<lparr>provider = ''pv'', providerVersion = ''1'', adapterVersion = ''1'', generation = ''g1'',
     nativeSessionId = ''n1'', config = \<lparr>cfg_id = ''c1'', cfg_revision = ''r1''\<rparr>, nativeRunId = None,
     nativeRequestId = None, workspaceId = ''w1'', nativeThreadId = None\<rparr>"

definition demo_capabilities :: capabilities where [demo_defs]:
  "demo_capabilities = \<lparr>continuation = Across_processes, cancellation = Terminal_acknowledged, tools = Tools_disabled,
     steer = Unsupported, fork = Unsupported, subagent = Unsupported, terminal_capability = Unsupported,
     structuredQuestion = Unsupported, multimodal = Unsupported\<rparr>"

definition demo_session :: "counter \<Rightarrow> counter \<Rightarrow> session" where [demo_defs]:
  "demo_session r n = \<lparr>ss_namespace = demo_ns, revision = r, lastSequence = n, status = Active,
     selectedConnectionId = Some ''c1'', currentStageId = Some ''g1'',
     stages = [providerStage demo_binding demo_capabilities 1], freshContext = False, presentation = None\<rparr>"

definition demo_prompt :: command where [demo_defs]:
  "demo_prompt = \<lparr>cmd_sessionId = ''s1'', commandId = ''p1'', expiresAtMs = 1000,
     input_of = Prompt (utext_of ''hi'') Queue_next None None\<rparr>"

definition demo_receipt :: receipt where [demo_defs]:
  "demo_receipt = \<lparr>rc_namespace = demo_ns, rc_commandId = ''p1'', contentHash = replicate 64 (CHR ''a''),
     acceptedAtMs = 0, retryUntilMs = 100, receiptUntilMs = 200, acceptedRevision = 1, rc_stageId = ''g1''\<rparr>"

definition demo_record :: "record_state \<Rightarrow> command_record" where [demo_defs]:
  "demo_record s = \<lparr>cr_command = demo_prompt, cr_receipt = demo_receipt, cr_state = s\<rparr>"

definition demo_attempt :: "certainty \<Rightarrow> dispatch_attempt" where [demo_defs]:
  "demo_attempt c = \<lparr>da_nativeSessionId = ''n1'', da_nativeRunId = None, da_nativeRequestId = None,
     certainty_of = c, attemptId = ''x1'', originGeneration = ''g1'', observerGeneration = ''g1'',
     correlationId = None, da_nativeThreadId = None\<rparr>"

definition demo_event :: "id \<Rightarrow> counter \<Rightarrow> id option \<Rightarrow> event_body \<Rightarrow> event" where [demo_defs]:
  "demo_event i n a b = \<lparr>ev_namespace = demo_ns, eventId = i, sequence = n, ev_generation = ''g1'',
     ev_commandId = Some ''p1'', ev_attemptId = a, body = b\<rparr>"

definition demo_observation :: reconciliation where [demo_defs]:
  "demo_observation = \<lparr>rn_commandId = ''p1'', rn_attemptId = ''x1'', rn_binding = demo_binding,
     rn_status = Is_terminal Completed, rn_extra = []\<rparr>"

definition demo_evidence :: evidence where [demo_defs]:
  "demo_evidence = \<lparr>ed_namespace = demo_ns, ed_binding = demo_binding,
     ed_record = demo_record (Dispatching (demo_attempt Intent)), ed_observation = demo_observation\<rparr>"

definition demo_env :: env where [demo_defs]:
  "demo_env = \<lparr>env_digest = demo_digest, env_evidence = [demo_evidence], env_message_ok = (\<lambda>j. True)\<rparr>"

definition demo_accept :: accept_input where [demo_defs]:
  "demo_accept = \<lparr>ai_namespace = demo_ns, ai_command = demo_prompt, ai_expectedRevision = 0,
     ai_expectedGeneration = ''g1'', ai_nowMs = 0, ai_retention = \<lparr>retryWindowMs = 100, receiptWindowMs = 200\<rparr>,
     ai_eventId = ''e1''\<rparr>"

definition demo_created :: workspace where [demo_defs]:
  "demo_created = \<lparr>ws_session = demo_session 0 0, ws_generations = [''g1''], ws_commands = [], ws_events = [],
     ws_interactions = [], ws_deliveries = [], ws_surfaces = []\<rparr>"

definition demo_accepted :: workspace where [demo_defs]:
  "demo_accepted = demo_created\<lparr>ws_session := demo_session 1 1, ws_commands := [(''p1'', demo_record Accepted)],
     ws_events := [demo_event ''e1'' 1 None (Command_accepted demo_prompt)]\<rparr>"

definition demo_dispatch :: commit_batch where [demo_defs]:
  "demo_dispatch = \<lparr>cb_providerFacts = [], cb_nowMs = Some 5, cb_namespace = demo_ns, cb_expectedRevision = 1,
     cb_expectedGeneration = ''g1'', cb_session = demo_session 2 3,
     cb_commands = [demo_record (Dispatching (demo_attempt Intent))],
     cb_events = [demo_event ''e2'' 2 (Some ''x1'') (Dispatch_reported (demo_attempt Intent)),
                  demo_event ''e3'' 3 (Some ''x1'') (Status_changed Live_dispatching)],
     cb_interactions = [], cb_deliveries = [], cb_surfaces = []\<rparr>"

definition demo_dispatching :: workspace where [demo_defs]:
  "demo_dispatching = applied demo_accepted demo_dispatch"

definition demo_terminal :: commit_batch where [demo_defs]:
  "demo_terminal = \<lparr>cb_providerFacts = [\<lparr>pf_token = 0, pf_commandId = ''p1''\<rparr>], cb_nowMs = Some 9,
     cb_namespace = demo_ns, cb_expectedRevision = 2, cb_expectedGeneration = ''g1'', cb_session = demo_session 3 6,
     cb_commands = [demo_record (Terminal (demo_attempt Submitted) Completed)],
     cb_events = [demo_event ''e4'' 4 (Some ''x1'') (Reconciled (demo_attempt Intent) R_terminal),
                  demo_event ''e5'' 5 (Some ''x1'') (Dispatch_reported (demo_attempt Submitted)),
                  demo_event ''e6'' 6 (Some ''x1'') (Terminal_reported Completed)],
     cb_interactions = [], cb_deliveries = [], cb_surfaces = []\<rparr>"

definition demo_finished :: workspace where [demo_defs]:
  "demo_finished = applied demo_dispatching demo_terminal"

section \<open>Every row of the demonstration is valid\<close>

declare json_of_session_def [row_eval] json_of_namespace_def [row_eval] json_of_stage_def [row_eval]
  json_of_binding_def [row_eval] json_of_capabilities_def [row_eval] json_of_record_def [row_eval]
  json_of_command_def [row_eval] json_of_receipt_def [row_eval] json_of_dispatch_def [row_eval]
  json_of_event_def [row_eval] header_def [row_eval] obj_def [row_eval] jid_def [row_eval]
  providerStage_def [row_eval]

lemmas schema_eval = schema_session_def schema_namespace_def schema_stage_def schema_binding_def schema_command_def
  schema_record_def schema_receipt_def schema_dispatch_def schema_event_def opt_ok_def isCounter_def max_safe_def
  context_session_def context_command_def context_record_def context_receipt_def context_event_def
  demo_digest_def

lemma default_limits_legal [simp]: "checkLimits defaultLimits = None"
  by (simp add: checkLimits_None defaultLimits_def max_safe_def)

lemma demo_ids [simp]: "isId ''s1''" "isId ''t1''" "isId ''u1''" "isId ''a1''" "isId ''g1''" "isId ''c1''" "isId ''r1''"
  "isId ''w1''" "isId ''n1''" "isId ''pv''" "isId ''1''" "isId ''p1''" "isId ''x1''"
  "isId ''e1''" "isId ''e2''" "isId ''e3''" "isId ''e4''" "isId ''e5''" "isId ''e6''"
  by (simp_all add: isId_def id_char_def alphanumeric_def Let_def)

lemma demo_hash [simp]: "isHash (replicate 64 (CHR ''a''))"
  by (simp add: isHash_def Let_def list_all_length)

lemma row_validI:
  assumes "json_clean (json_of_row row)" "json_depth (json_of_row row) \<le> 32" "json_nodes (json_of_row row) \<le> 16384"
    "jsize (json_of_row row) \<le> 131072" "schema_row row" "checkContext dg row"
  shows "valid dg defaultLimits row = None"
  using assms fits_by_size by (simp add: valid_None)

lemma demo_session_valid:
  assumes "0 \<le> r" "r \<le> 9" "0 \<le> n" "n \<le> 9"
  shows "valid demo_digest defaultLimits (Row_session (demo_session r n)) = None"
  using assms by (intro row_validI)
   (simp_all add: demo_defs row_eval is_safe_integer_def max_safe_def json_int_def decimal.simps
      byteLength_Cons utf8_char_def schema_eval)

lemma demo_record_valid:
  "s \<in> {Accepted, Dispatching (demo_attempt Intent), Terminal (demo_attempt Submitted) Completed} \<Longrightarrow>
   valid demo_digest defaultLimits (Row_record (demo_record s)) = None"
  by (intro row_validI)
   (auto simp: demo_defs row_eval is_safe_integer_def max_safe_def json_int_def decimal.simps
      byteLength_Cons utf8_char_def schema_eval)

lemma demo_command_valid:
  "valid demo_digest defaultLimits (Row_command demo_prompt) = None"
  by (intro row_validI)
   (auto simp: demo_defs row_eval is_safe_integer_def max_safe_def json_int_def decimal.simps
      byteLength_Cons utf8_char_def schema_eval)

lemma demo_event_valid:
  "valid demo_digest defaultLimits (Row_event (demo_event ''e1'' 1 None (Command_accepted demo_prompt))) = None"
  "valid demo_digest defaultLimits (Row_event (demo_event ''e2'' 2 (Some ''x1'') (Dispatch_reported (demo_attempt Intent)))) = None"
  "valid demo_digest defaultLimits (Row_event (demo_event ''e3'' 3 (Some ''x1'') (Status_changed Live_dispatching))) = None"
  "valid demo_digest defaultLimits (Row_event (demo_event ''e4'' 4 (Some ''x1'') (Reconciled (demo_attempt Intent) R_terminal))) = None"
  "valid demo_digest defaultLimits (Row_event (demo_event ''e5'' 5 (Some ''x1'') (Dispatch_reported (demo_attempt Submitted)))) = None"
  "valid demo_digest defaultLimits (Row_event (demo_event ''e6'' 6 (Some ''x1'') (Terminal_reported Completed))) = None"
  by (intro row_validI; simp add: demo_defs row_eval is_safe_integer_def max_safe_def json_int_def decimal.simps
      byteLength_Cons utf8_char_def schema_eval)+

section \<open>Its transitions, evaluated\<close>

lemma demo_prior [simp]: "schema_namespace demo_ns"
  by (simp add: demo_defs schema_namespace_def)

lemma demo_create: "createState demo_env defaultLimits (demo_session 0 0) = Inr demo_created"
proof -
  have "valid (env_digest demo_env) defaultLimits (Row_session (demo_session 0 0)) = None"
    using demo_session_valid [of 0 0] by (simp add: demo_env_def)
  then show ?thesis by (simp add: createState_def) (simp add: demo_defs schema_namespace_def providerStage_def)
qed

lemma demo_active: "activeStage (demo_session r n) = Inr (providerStage demo_binding demo_capabilities 1)"
  by (simp add: activeStage_def demo_session_def providerStage_def demo_binding_def)

lemma demo_env_sel [simp]: "env_digest demo_env = demo_digest" "env_evidence demo_env = [demo_evidence]"
  by (simp_all add: demo_env_def)

lemma demo_session_sel [simp]: "revision (demo_session r n) = r" "lastSequence (demo_session r n) = n"
  "ss_namespace (demo_session r n) = demo_ns" "status (demo_session r n) = Active"
  "currentStageId (demo_session r n) = Some ''g1''"
  by (simp_all add: demo_session_def)

lemmas commit_eval = reduceCommit_def commit_body_def commit_commands_def commit_command_def command_checks_def
  command_identity_def resolution_check_def resolution_body_def dispatch_check_def first_dispatch_def attempt_growth_def
  dispatch_witness_def provider_gate_def invalidated_check_def cancelled_check_def acknowledged_check_def
  terminal_check_def status_witness_def facts_used_def single_turn_def binding_move_def
  collect_facts_def take_fact_def commit_events_def commit_event_def event_checks_def event_position_def
  event_body_check_def event_attempt_check_def commit_interactions_def interaction_events_check_def
  commit_deliveries_def commit_surfaces_def surface_events_check_def settle_check_def answer_fence_def
  interaction_event_check_def surface_events_def settles_cleanly_def interactionsForCommand_def surfacesForInteraction_def submitted_def was_in_def announced_def dispatch_events_def now_invalid_def now_or_zero_def
  other_turn_open_def dispatchDeadline_def reconciled_events_def proves_submission_def is_not_submitted_def
  isSettled_def settled_state_def

lemma demo_stage_sel [simp]: "generation demo_binding = ''g1''" "nativeThreadId demo_binding = None"
   "nativeSessionId demo_binding = ''n1''"
  by (simp_all add: demo_binding_def)

lemma reduceCommitI:
  assumes "activeStage (ws_session st) = Inr cur" "activeStage (cb_session b) = Inr nxt"
    "status (ws_session st) = Active" "status (cb_session b) = Active"
    "revision (ws_session st) = cb_expectedRevision b" "generation (stage_binding cur) = cb_expectedGeneration b"
    "rows_check e lim b = None" "schema_namespace (cb_namespace b)"
    "ss_namespace (ws_session st) = cb_namespace b" "ss_namespace (cb_session b) = cb_namespace b"
    "revision (cb_session b) = revision (ws_session st) + 1"
    "lastSequence (cb_session b) = lastSequence (ws_session st) + int (length (cb_events b))"
    "stage_check st b cur = None" "collect_facts e st b = Inr facts"
    "commit_body e lim st b accepting cur facts = Inr st'"
  shows "reduceCommit e lim st b accepting False = Inr st'"
  using assms by (simp add: reduceCommit_def Let_def checkState_None coordinates_check_def)

lemma other_namespace_self: "schema_namespace n \<Longrightarrow> other_namespace n n x = None"
  by simp

lemmas demo_eval = fail_if_def first_exit.simps other_namespace_self schema_namespace_def unless_exit_def demo_defs providerStage_def activeStage_def is_safe_integer_def max_safe_def applied_def upsert_def
  attempt_keeps_def keeps_def hasNotSubmittedReconciliation_def hasAttempt_def commandsInStates_def in_states_def live_states_def
  jm_values_def jm_get_def jm_set_def jm_has_def jm_keys_def hasEvent_def commit_eval Let_def stage_check_def

abbreviation "demo_stage \<equiv> providerStage demo_binding demo_capabilities 1"

lemma demo_dispatch_body: "commit_body demo_env defaultLimits demo_accepted demo_dispatch False demo_stage [] = Inr demo_dispatching"
  by (simp add: demo_eval)

lemma demo_dispatch_run: "reduceCommit demo_env defaultLimits demo_accepted demo_dispatch False False = Inr demo_dispatching"
proof (rule reduceCommitI [OF _ _ _ _ _ _ _ _ _ _ _ _ _ _ demo_dispatch_body])
  show "rows_check demo_env defaultLimits demo_dispatch = None"
    using demo_session_valid [of 2 3] demo_record_valid demo_event_valid
    by (simp add: rows_check_def batch_rows_def demo_dispatch_def)
qed (simp_all add: demo_eval schema_namespace_def)

lemma demo_accept_run: "acceptCommand demo_env defaultLimits demo_created demo_accept = Inr (demo_accepted, demo_receipt)"
proof -
  have body: "commit_body demo_env defaultLimits demo_created
      (accept_batch demo_created demo_accept demo_stage (replicate 64 (CHR ''a'')) [] []) True demo_stage [] = Inr demo_accepted"
    by (simp add: accept_batch_def acceptance_event_def new_receipt_def demo_accept_def demo_eval)
  have "reduceCommit demo_env defaultLimits demo_created
      (accept_batch demo_created demo_accept demo_stage (replicate 64 (CHR ''a'')) [] []) True False = Inr demo_accepted"
  proof (rule reduceCommitI [OF _ _ _ _ _ _ _ _ _ _ _ _ _ _ body])
    have "batch_rows (accept_batch demo_created demo_accept demo_stage (replicate 64 (CHR ''a'')) [] []) =
      [Row_session (demo_session 1 1), Row_record (demo_record Accepted),
       Row_event (demo_event ''e1'' 1 None (Command_accepted demo_prompt))]"
      by (simp add: batch_rows_def accept_batch_def acceptance_event_def new_receipt_def demo_accept_def demo_defs providerStage_def)
    then show "rows_check demo_env defaultLimits
       (accept_batch demo_created demo_accept demo_stage (replicate 64 (CHR ''a'')) [] []) = None"
      using demo_session_valid [of 1 1] demo_record_valid demo_event_valid by (simp add: rows_check_def)
  qed (simp_all add: accept_batch_def acceptance_event_def new_receipt_def demo_accept_def demo_eval)
  moreover have "fingerprint demo_digest defaultLimits demo_prompt = Inr (replicate 64 (CHR ''a''))"
    using demo_command_valid by (simp add: fingerprint_def demo_digest_def json_of_command_def obj_def)
  moreover have "new_receipt demo_created demo_accept demo_stage (replicate 64 (CHR ''a'')) = demo_receipt"
    by (simp add: new_receipt_def demo_accept_def demo_eval)
  moreover have "ai_command demo_accept = demo_prompt" by (simp add: demo_accept_def)
  moreover have "accept_open demo_created demo_accept False = None"
    by (simp add: accept_open_def retention_invalid_def checkState_None demo_accept_def) (simp add: demo_eval)
  moreover have "respond_row demo_created demo_accept = Inr []"
    by (simp add: respond_row_def demo_accept_def demo_prompt_def)
  moreover have "accept_head demo_env defaultLimits demo_created demo_accept = None"
    using demo_command_valid by (simp add: accept_head_def demo_accept_def) (simp add: demo_eval)
  moreover have "activeStage (ws_session demo_created) = Inr demo_stage" by (simp add: demo_created_def demo_active)
  moreover have "ws_commands demo_created = []" by (simp add: demo_created_def)
  ultimately show ?thesis
    by (simp add: acceptCommand_def reduceAcceptance_def accept_new_def)
qed

lemma demo_terminal_facts: "collect_facts demo_env demo_dispatching demo_terminal = Inr [(''p1'', demo_observation)]"
  by (simp add: demo_eval providerFactFor_def find_evidence_def evidence_matches_def providerIdentity_def)

lemma demo_terminal_body: "commit_body demo_env defaultLimits demo_dispatching demo_terminal False demo_stage
    [(''p1'', demo_observation)] = Inr demo_finished"
  by (simp add: demo_eval providerIdentity_def)

lemma demo_terminal_run: "reduceCommit demo_env defaultLimits demo_dispatching demo_terminal False False = Inr demo_finished"
proof (rule reduceCommitI [OF _ _ _ _ _ _ _ _ _ _ _ _ _ demo_terminal_facts demo_terminal_body])
  show "rows_check demo_env defaultLimits demo_terminal = None"
    using demo_session_valid [of 3 6] demo_record_valid demo_event_valid
    by (simp add: rows_check_def batch_rows_def demo_terminal_def)
qed (simp_all add: demo_eval schema_namespace_def providerIdentity_def)

lemma demo_mint:
  "mint demo_digest \<lparr>vs_namespace = demo_ns, vs_binding = demo_binding, vs_port = 0, vs_capabilities = demo_capabilities,
      vs_tools = None, vs_previous = None\<rparr> (demo_session 2 3) (demo_record (Dispatching (demo_attempt Intent)))
      demo_observation [] = (Inr \<lparr>pf_token = 0, pf_commandId = ''p1''\<rparr>, [demo_evidence])"
proof -
  have lim: "mint_limits = defaultLimits" by (simp add: mint_limits_def defaultLimits_def)
  have "replaceStage (demo_session 2 3) (Some demo_binding) None = Inr (demo_session 2 3)"
    by (simp add: replaceStage_def demo_active) (simp add: demo_session_def providerStage_def)
  moreover have "mint_row (demo_session 2 3) demo_binding (demo_record (Dispatching (demo_attempt Intent))) (demo_attempt Intent)
     (Is_terminal Completed) = Some (Row_record (demo_record (Terminal (demo_attempt Submitted) Completed)))"
    by (simp add: demo_record_def submitted_attempt_def demo_attempt_def)
  moreover have "boundedJson defaultLimits (json_of_reconciliation demo_observation) = Inr (json_print (json_of_reconciliation demo_observation))"
    unfolding boundedJson_Inr
    by (simp, rule fits_by_size)
       (simp_all add: json_of_reconciliation_def demo_defs row_eval)
  moreover have "mint_coordinates \<lparr>vs_namespace = demo_ns, vs_binding = demo_binding, vs_port = 0, vs_capabilities = demo_capabilities,
      vs_tools = None, vs_previous = None\<rparr> (demo_session 2 3) demo_binding (demo_record (Dispatching (demo_attempt Intent)))
      (demo_attempt Intent) demo_observation"
    by (simp add: mint_coordinates_def) (simp add: demo_defs)
  moreover have "stage_binding demo_stage = demo_binding" by (simp add: providerStage_def)
  moreover have "providerIdentity demo_binding = demo_binding" by (simp add: providerIdentity_def demo_binding_def)
  moreover have "rn_binding demo_observation = demo_binding" "rn_status demo_observation = Is_terminal Completed"
    "rn_extra demo_observation = []" "rn_commandId demo_observation = ''p1''"
    by (simp_all add: demo_observation_def)
  moreover have "state_dispatch (cr_state (demo_record (Dispatching (demo_attempt Intent)))) = Some (demo_attempt Intent)"
    by (simp add: demo_record_def)
  ultimately show ?thesis
    using demo_session_valid [of 2 3] demo_record_valid
    by (simp add: mint_def mint_evidence_def demo_active lim exact_keys_def demo_evidence_def)
qed

lemma demo_dispatching_simp: "demo_dispatching = \<lparr>ws_session = demo_session 2 3, ws_generations = [''g1''],
   ws_commands = [(''p1'', demo_record (Dispatching (demo_attempt Intent)))],
   ws_events = [demo_event ''e1'' 1 None (Command_accepted demo_prompt),
      demo_event ''e2'' 2 (Some ''x1'') (Dispatch_reported (demo_attempt Intent)),
      demo_event ''e3'' 3 (Some ''x1'') (Status_changed Live_dispatching)],
   ws_interactions = [], ws_deliveries = [], ws_surfaces = []\<rparr>"
  by (simp add: demo_dispatching_def demo_accepted_def demo_created_def demo_dispatch_def
     applied_def upsert_def demo_record_def demo_prompt_def jm_set_def)

lemma demo_finished_simp: "demo_finished = \<lparr>ws_session = demo_session 3 6, ws_generations = [''g1''],
   ws_commands = [(''p1'', demo_record (Terminal (demo_attempt Submitted) Completed))],
   ws_events = [demo_event ''e1'' 1 None (Command_accepted demo_prompt),
      demo_event ''e2'' 2 (Some ''x1'') (Dispatch_reported (demo_attempt Intent)),
      demo_event ''e3'' 3 (Some ''x1'') (Status_changed Live_dispatching),
      demo_event ''e4'' 4 (Some ''x1'') (Reconciled (demo_attempt Intent) R_terminal),
      demo_event ''e5'' 5 (Some ''x1'') (Dispatch_reported (demo_attempt Submitted)),
      demo_event ''e6'' 6 (Some ''x1'') (Terminal_reported Completed)],
   ws_interactions = [], ws_deliveries = [], ws_surfaces = []\<rparr>"
  by (simp add: demo_finished_def demo_dispatching_def demo_accepted_def demo_created_def demo_dispatch_def
     demo_terminal_def applied_def upsert_def demo_record_def demo_prompt_def jm_set_def)

text \<open>The session after retirement.\<close>

definition demo_retired :: workspace where
  "demo_retired = demo_finished\<lparr>ws_session := (demo_session 4 7)\<lparr>status := Retired\<rparr>,
     ws_events := ws_events demo_finished @ [\<lparr>ev_namespace = demo_ns, eventId = ''dretire-3'', sequence = 7, ev_generation = ''g1'',
       ev_commandId = None, ev_attemptId = None, body = Session_retired\<rparr>]\<rparr>"

lemma print_three: "map char_of (json_int 3) = ''3''"
proof -
  have "char_of (51 :: nat) = CHR ''3''"
    by (rule of_char_eqI [where ?'a = nat]) simp
  then show ?thesis by (simp add: json_int_def decimal.simps)
qed

lemma demo_derive: "derived_id demo_digest s label = CHR ''d'' # label"
  by (simp add: derived_id_def demo_digest_def jid_def utext_of_def o_def)

lemma demo_ids_retired: "isId ''dretire-3''"
  by (simp_all add: isId_def id_char_def alphanumeric_def Let_def)

lemma demo_retire_run: "retireSession demo_env defaultLimits demo_finished 3 ''g1'' = Inr demo_retired"
proof -
  have s: "ws_session demo_finished = demo_session 3 6" by (simp add: demo_finished_simp)
  have head: "demo_session 3 6\<lparr>status := Retired, revision := 4, lastSequence := 7\<rparr> = demo_session 4 7\<lparr>status := Retired\<rparr>"
    by (simp add: demo_session_def)
  have ev: "retirement_event demo_env ((demo_session 4 7)\<lparr>status := Retired\<rparr>) k 3 ''g1'' =
     \<lparr>ev_namespace = demo_ns, eventId = ''dretire-3'', sequence = 7, ev_generation = ''g1'',
       ev_commandId = None, ev_attemptId = None, body = Session_retired\<rparr>" for k
    by (simp add: retirement_event_def demo_derive print_three)
  have v: "valid demo_digest defaultLimits (Row_event \<lparr>ev_namespace = demo_ns, eventId = ''dretire-3'', sequence = 7, ev_generation = ''g1'',
       ev_commandId = None, ev_attemptId = None, body = Session_retired\<rparr>) = None"
    by (intro row_validI; simp add: demo_defs row_eval demo_ids_retired is_safe_integer_def max_safe_def json_int_def decimal.simps
      byteLength_Cons utf8_char_def schema_eval)
  have w: "valid demo_digest defaultLimits (Row_session ((demo_session 4 7)\<lparr>status := Retired\<rparr>)) = None"
    by (intro row_validI; simp add: demo_defs row_eval is_safe_integer_def max_safe_def json_int_def decimal.simps
      byteLength_Cons utf8_char_def schema_eval)
  have "\<not> retire_blocked demo_finished"
    by (simp add: retire_blocked_def unsettled_work_def demo_finished_simp commandsInStates_def in_states_def live_states_def
      jm_values_def interactionsForCommand_def deliveriesInStates_def demo_record_def)
  moreover have "checkState (ws_session demo_finished) False 3 ''g1'' = None"
    by (simp add: checkState_None demo_finished_simp demo_active) (simp add: demo_defs providerStage_def)
  ultimately show ?thesis
    using v w by (simp add: retireSession_def reduceRetirement_def Let_def s head ev namespaceKey_def demo_retired_def)
qed
end
