(* ===== verification/Session_Demo_Handoff.thy ===== *)
theory Session_Demo_Handoff
  imports Session_Demo
begin

text \<open>
  The demonstration session in trouble: its provider is lost while the prompt is in flight
  (\<^verbatim>\<open>recoverUnavailable\<close>), or a second stage takes over once the first is done
  (\<^verbatim>\<open>activateStage\<close>).
\<close>

section \<open>Recovery while a turn is in flight\<close>

definition demo_lost :: recovery_input where
  "demo_lost = \<lparr>ri_namespace = demo_ns, ri_expectedRevision = 2, ri_expectedGeneration = ''g1'', ri_eventId = ''e7''\<rparr>"

definition demo_lost_event :: event where
  "demo_lost_event = (demo_event ''drebind'' 4 None Session_recovery_unavailable)\<lparr>ev_commandId := None\<rparr>"

definition demo_uncertain_event :: event where
  "demo_uncertain_event = demo_event ''dcommand-p1'' 5 (Some ''x1'') (Status_changed Live_uncertain)"

definition demo_recovering :: workspace where
  "demo_recovering = demo_dispatching\<lparr>ws_session := (demo_session 3 5)\<lparr>status := Recovery_required\<rparr>,
     ws_commands := [(''p1'', demo_record (Uncertain (demo_attempt Intent)))],
     ws_events := ws_events demo_dispatching @ [demo_lost_event, demo_uncertain_event]\<rparr>"

lemma demo_handoff_ids [simp]: "isId ''e7''" "isId ''drebind''" "isId ''dcommand-p1''" "isId ''g2''"
  by (simp_all add: isId_def id_char_def alphanumeric_def Let_def)

lemmas demo_row_eval = demo_defs row_eval is_safe_integer_def max_safe_def json_int_def decimal.simps
  byteLength_Cons utf8_char_def schema_eval

lemma demo_handoff_valid:
  "valid demo_digest defaultLimits (Row_event demo_lost_event) = None"
  "valid demo_digest defaultLimits (Row_event demo_uncertain_event) = None"
  "valid demo_digest defaultLimits (Row_session ((demo_session 3 5)\<lparr>status := Recovery_required\<rparr>)) = None"
  by (intro row_validI; simp add: demo_row_eval demo_lost_event_def demo_uncertain_event_def)+

lemma demo_appends:
  "handoff_append demo_env defaultLimits demo_dispatching demo_lost ''g1'' None None
     Session_recovery_unavailable ''rebind'' (w, []) = Inr (w, [demo_lost_event])"
  "handoff_append demo_env defaultLimits demo_dispatching demo_lost ''g1'' (Some ''p1'') (Some ''x1'')
     (Status_changed Live_uncertain) ''command-p1'' (w, [demo_lost_event]) = Inr (w, [demo_lost_event, demo_uncertain_event])"
proof -
  have ev: "\<lparr>ev_namespace = ri_namespace demo_lost, eventId = derived_id demo_digest (ri_eventId demo_lost) ''rebind'',
        sequence = lastSequence (ws_session demo_dispatching) + 1, ev_generation = ''g1'',
        ev_commandId = None, ev_attemptId = None, body = Session_recovery_unavailable\<rparr> = demo_lost_event"
    "\<lparr>ev_namespace = ri_namespace demo_lost, eventId = derived_id demo_digest (ri_eventId demo_lost) ''command-p1'',
        sequence = 2 + lastSequence (ws_session demo_dispatching), ev_generation = ''g1'',
        ev_commandId = Some ''p1'', ev_attemptId = Some ''x1'', body = Status_changed Live_uncertain\<rparr> = demo_uncertain_event"
    by (simp_all add: demo_lost_def demo_derive demo_dispatching_simp demo_lost_event_def demo_uncertain_event_def demo_event_def)
  have fresh: "\<not> hasEvent demo_dispatching (eventId demo_lost_event)" "\<not> hasEvent demo_dispatching (eventId demo_uncertain_event)"
    by (simp_all add: hasEvent_def demo_dispatching_simp demo_lost_event_def demo_uncertain_event_def demo_event_def)
  show "handoff_append demo_env defaultLimits demo_dispatching demo_lost ''g1'' None None
     Session_recovery_unavailable ''rebind'' (w, []) = Inr (w, [demo_lost_event])"
    using demo_handoff_valid(1) fresh(1) by (simp add: handoff_append_def Let_def ev)
  show "handoff_append demo_env defaultLimits demo_dispatching demo_lost ''g1'' (Some ''p1'') (Some ''x1'')
     (Status_changed Live_uncertain) ''command-p1'' (w, [demo_lost_event]) = Inr (w, [demo_lost_event, demo_uncertain_event])"
    using demo_handoff_valid(2) fresh(2) by (simp add: handoff_append_def Let_def ev)
qed

lemma demo_sweep: "handoff_sweep demo_env defaultLimits demo_dispatching demo_lost ''g1'' Session_recovery_unavailable =
  Inr (demo_dispatching\<lparr>ws_commands := [(''p1'', demo_record (Uncertain (demo_attempt Intent)))]\<rparr>,
       [demo_lost_event, demo_uncertain_event])"
proof -
  let ?c = "demo_record (Dispatching (demo_attempt Intent))"
  have "commandsInStates demo_dispatching live_states = [?c]"
    by (simp add: commandsInStates_def in_states_def live_states_def jm_values_def demo_dispatching_simp demo_record_def)
  moreover have "handoff_command demo_env defaultLimits demo_dispatching demo_lost ''g1'' ?c (demo_dispatching, [demo_lost_event]) =
      Inr (demo_dispatching\<lparr>ws_commands := [(''p1'', demo_record (Uncertain (demo_attempt Intent)))]\<rparr>,
           [demo_lost_event, demo_uncertain_event])"
  proof -
    have "isSettled ?c = False" "dispatch ?c = Some (demo_attempt Intent)" "record_id ?c = ''p1''"
      "?c\<lparr>cr_state := Uncertain (demo_attempt Intent)\<rparr> = demo_record (Uncertain (demo_attempt Intent))"
      by (simp_all add: isSettled_def settled_state_def demo_record_def demo_prompt_def)
    moreover have "(demo_attempt Intent)\<lparr>observerGeneration := ''g1''\<rparr> = demo_attempt Intent" "attemptId (demo_attempt Intent) = ''x1''"
      by (simp_all add: demo_attempt_def)
    moreover have "jm_set (ws_commands demo_dispatching) ''p1'' v = [(''p1'', v)]" for v
      by (simp add: demo_dispatching_simp jm_set_def)
    ultimately show ?thesis by (simp add: handoff_command_def demo_appends)
  qed
  moreover have "interactionsForCommand demo_dispatching None = []" "surfacesForInteraction demo_dispatching None = []"
    by (simp_all add: interactionsForCommand_def surfacesForInteraction_def jm_values_def demo_dispatching_simp)
  ultimately show ?thesis by (simp add: handoff_sweep_def demo_appends)
qed

lemma demo_recover_run: "recoverUnavailable demo_env defaultLimits demo_dispatching demo_lost = Inr demo_recovering"
proof -
  have s: "ws_session demo_dispatching = demo_session 2 3" "ws_generations demo_dispatching = [''g1'']"
    by (simp_all add: demo_dispatching_simp)
  have "replaceStage (demo_session 2 3\<lparr>status := Recovery_required, revision := 3, lastSequence := 5\<rparr>)
      (Some demo_binding) (Some demo_capabilities) = Inr ((demo_session 3 5)\<lparr>status := Recovery_required\<rparr>)"
    by (simp add: replaceStage_def activeStage_def demo_session_def providerStage_def demo_binding_def)
  moreover have "checkState (demo_session 2 3) True 2 ''g1'' = None"
    by (simp add: checkState_None demo_active) (simp add: providerStage_def)
  moreover have "stage_binding demo_stage = demo_binding" "stage_capabilities demo_stage = demo_capabilities"
    by (simp_all add: providerStage_def)
  moreover have "ri_namespace demo_lost = demo_ns" "isId (ri_eventId demo_lost)" "ri_expectedRevision demo_lost = 2"
    "ri_expectedGeneration demo_lost = ''g1''"
    by (simp_all add: demo_lost_def)
  ultimately show ?thesis
    using demo_sweep demo_handoff_valid(3)
    by (simp add: recoverUnavailable_def reduceHandoff_def handoff_claim_def demo_active s handoff_finish_def
        demo_recovering_def add_generation_def)
qed

section \<open>A second stage\<close>

definition demo_binding_next :: binding where
  "demo_binding_next = demo_binding\<lparr>generation := ''g2''\<rparr>"

definition demo_activation :: activation_input where
  "demo_activation = \<lparr>xi_namespace = demo_ns, xi_expectedRevision = 3, xi_configRevision = 2,
     xi_opened = Admitted \<lparr>vs_namespace = demo_ns, vs_binding = demo_binding_next, vs_port = 1,
       vs_capabilities = demo_capabilities, vs_tools = None, vs_previous = None\<rparr>\<rparr>"

abbreviation "demo_stage_next \<equiv> providerStage demo_binding_next demo_capabilities 2"

definition demo_second_session :: session where
  "demo_second_session = (demo_session 4 6)\<lparr>currentStageId := Some ''g2'', stages := [demo_stage, demo_stage_next]\<rparr>"

definition demo_activated :: workspace where
  "demo_activated = demo_finished\<lparr>ws_session := demo_second_session, ws_generations := [''g1'', ''g2'']\<rparr>"

lemma demo_second_valid: "valid demo_digest defaultLimits (Row_session demo_second_session) = None"
  by (intro row_validI; simp add: demo_row_eval demo_second_session_def demo_binding_next_def)

lemma demo_activate_run: "activateStage demo_env demo_finished demo_activation = Inr demo_activated"
proof -
  have s: "ws_session demo_finished = demo_session 3 6" "ws_generations demo_finished = [''g1'']"
    "ws_interactions demo_finished = []" "ws_surfaces demo_finished = []"
    by (simp_all add: demo_finished_simp)
  have "startStage (demo_session 3 6\<lparr>status := Active, revision := 4\<rparr>) demo_stage_next = Inr demo_second_session"
    by (simp add: startStage_def demo_second_session_def demo_session_def providerStage_def demo_binding_next_def demo_binding_def)
  moreover have "\<not> unsettled_work demo_finished"
    by (simp add: unsettled_work_def commandsInStates_def in_states_def live_states_def jm_values_def demo_finished_simp
        demo_record_def)
  moreover have "generation demo_binding_next = ''g2''" "cfg_id (config demo_binding_next) = ''c1''"
    by (simp_all add: demo_binding_next_def demo_binding_def)
  moreover have "selectedConnectionId (demo_session 3 6) = Some ''c1''" by (simp add: demo_session_def)
  ultimately show ?thesis
    using demo_second_valid
    by (simp add: activateStage_def demo_activation_def opens_def s demo_activated_def add_generation_def
        withdraw_interactions_def withdraw_surfaces_def upsert_def jm_values_def)
qed

end
