(* ===== verification/Wire_Decode.thy ===== *)
theory Wire_Decode
  imports Wire_Codec
begin

text \<open>
  The whole of \<^verbatim>\<open>decode\<close> of \<^verbatim>\<open>codec.ts\<close> on a string source, for the eight durable kinds of record: the
  bounded scan, the parse, the schema version, the schema and the context. The compiled schema
  validator (\<^verbatim>\<open>validate-record.ts\<close>, generated) is a parameter together with the cast that follows it.
\<close>

text \<open>\<^verbatim>\<open>valid(value)\<close> and \<^verbatim>\<open>value as WireRecord\<close>: the record a schema-valid document denotes.\<close>

type_synonym validator = "json \<Rightarrow> row option"

text \<open>\<^verbatim>\<open>"schemaVersion" in value && value.schemaVersion !== 1\<close> for a parsed document.\<close>

definition other_version :: "json \<Rightarrow> bool" where
  "other_version v = (case v of
     JObj ms \<Rightarrow> (case map_of ms (utext_of ''schemaVersion'') of None \<Rightarrow> False | Some x \<Rightarrow> x \<noteq> JInt 1)
   | _ \<Rightarrow> False)"

definition decode :: "parser \<Rightarrow> validator \<Rightarrow> digest \<Rightarrow> limits \<Rightarrow> utext \<Rightarrow> diagnostic + row" where
  "decode parser validate digest lim source =
     and_then (decode_text parser lim source) (\<lambda>v.
       unless_exit (fail_if (other_version v) D_version)
         (case validate v of
            None \<Rightarrow> Inl D_schema
          | Some row \<Rightarrow> unless_exit (fail_if (\<not> checkContext digest row) D_context) (Inr row)))"

lemma utext_of_eq: "utext_of s = utext_of t \<longleftrightarrow> s = t"
  by (auto simp: utext_of_def inj_on_def inj_map_eq_map)

text \<open>Every durable row carries version 1.\<close>

lemma header_version [simp]: "\<not> other_version (obj (header k @ kvs))"
  by (simp add: other_version_def obj_def header_def)

lemma row_version [simp]: "\<not> other_version (json_of_row row)"
  by (cases row) (simp_all add: json_of_command_def json_of_receipt_def json_of_record_def json_of_event_def
      json_of_session_def json_of_interaction_def json_of_delivery_def json_of_surface_def)

text \<open>What a decoded document has passed, and what it denotes.\<close>

lemma decode_Inr:
  "decode parser validate digest lim s = Inr row \<longleftrightarrow>
     (\<exists>v. decode_text parser lim s = Inr v \<and> \<not> other_version v \<and> validate v = Some row \<and> checkContext digest row)"
  by (auto simp: decode_def split: option.splits)

lemma decode_serialised:
  assumes "json_wf (json_of_row row)" "dec_ok (json_of_row row)"
    and parser: "parser (json_print (json_of_row row)) = (visit_events (json_of_row row), Some (json_of_row row))"
    and validate: "validate (json_of_row row) = (if schema_row row then Some row else None)"
  shows "and_then (boundedJson lim (json_of_row row)) (decode parser validate digest lim) =
    (case valid digest lim row of None \<Rightarrow> Inr row | Some d \<Rightarrow> Inl d)"
proof (cases "boundedJson lim (json_of_row row)")
  case (Inr s)
  then have s: "s = json_print (json_of_row row)" by (simp add: boundedJson_Inr)
  have "decode_text parser lim s = Inr (json_of_row row)"
    by (rule decode_boundedJson [OF Inr assms(1,2)]) (simp add: s parser)
  then show ?thesis by (simp add: Inr decode_def validate valid_def unless_exit_def fail_if_def)
qed (simp add: valid_def)

end
