(* ===== verification/Component_Guarantees.thy ===== *)
theory Component_Guarantees
  imports Session_Demo_Handoff Wire_Decode
begin

text \<open>
  The guarantees of the single components below the transitions, each applied at a concrete
  input: the codec, the surface check, the provider's evidence, the namespace key, the context
  stages, the history preview and the rows of a transaction.
\<close>

section \<open>Codec\<close>

text \<open>
  C14. The serialiser returns a text exactly when the limits are legal and the value stays
  within every one of them, and then the text is the printed value.
\<close>

theorem serialise_exactly_bounded:
  "boundedJson lim v = Inr s \<longleftrightarrow> checkLimits lim = None \<and> json_clean v \<and> json_depth v \<le> maxDepth lim \<and>
     json_nodes v \<le> maxNodes lim \<and> Json_Codec.json_text v \<le> maxTextBytes lim \<and>
     byteLength (json_print v) \<le> maxBytes lim \<and> s = json_print v"
  by (auto simp: boundedJson_Inr fits_def)

text \<open>
  C15. Serialising a durable row and decoding the text is exactly validating the row: every exit of the
  serialiser, of the schema and of the context check is an exit of \<open>valid\<close> with the same diagnostic, the
  scan of the decoder and its version check add none, and a valid row comes back unchanged. The
  parser is assumed to report the events and the value of the row's own printed document, and the
  compiled validator to accept that document exactly when the row meets the schema.
\<close>

theorem serialise_decode_roundtrip:
  assumes "json_wf (json_of_row row)" "dec_ok (json_of_row row)"
    and "parser (json_print (json_of_row row)) = (visit_events (json_of_row row), Some (json_of_row row))"
    and "validate (json_of_row row) = (if schema_row row then Some row else None)"
  shows "and_then (boundedJson lim (json_of_row row)) (decode parser validate digest lim) =
    (case valid digest lim row of None \<Rightarrow> Inr row | Some d \<Rightarrow> Inl d)"
  using assms by (rule decode_serialised)

definition demo_row_parser :: "row \<Rightarrow> parser" where
  "demo_row_parser row s = (if s = json_print (json_of_row row)
     then (visit_events (json_of_row row), Some (json_of_row row)) else ([Ev_error], None))"

definition demo_validator :: "row list \<Rightarrow> validator" where
  "demo_validator rows v = find (\<lambda>row. schema_row row \<and> json_of_row row = v) rows"

abbreviation "demo_good \<equiv> Row_record (demo_record (Dispatching (demo_attempt Intent)))"
abbreviation "demo_bad \<equiv> Row_receipt (demo_receipt\<lparr>retryUntilMs := 300\<rparr>)"

text \<open>A dispatched record comes back; a receipt whose windows are out of order is a context error.\<close>

theorem serialise_decode_roundtrip_witness:
  "and_then (boundedJson defaultLimits (json_of_row demo_good))
     (decode (demo_row_parser demo_good) (demo_validator [demo_good]) demo_digest defaultLimits) = Inr demo_good \<and>
   and_then (boundedJson defaultLimits (json_of_row demo_bad))
     (decode (demo_row_parser demo_bad) (demo_validator [demo_bad]) demo_digest defaultLimits) = Inl D_context"
proof -
  have wf: "json_wf (json_of_row demo_good)" "dec_ok (json_of_row demo_good)" "json_wf (json_of_row demo_bad)" "dec_ok (json_of_row demo_bad)"
    by (simp_all add: demo_defs row_eval utext_of_eq)
  have "fits defaultLimits (json_of_row demo_bad)"
    by (rule fits_by_size; simp add: demo_defs row_eval is_safe_integer_def max_safe_def json_int_def decimal.simps byteLength_Cons utf8_char_def)
  moreover have "schema_row demo_bad" "\<not> checkContext demo_digest demo_bad"
    by (simp_all add: demo_defs schema_eval is_safe_integer_def)
  ultimately have bad: "valid demo_digest defaultLimits demo_bad = Some D_context"
    by (simp add: valid_def boundedJson_Inr [THEN iffD2] fail_if_def)
  have good: "valid demo_digest defaultLimits demo_good = None" using demo_record_valid by simp
  have v: "demo_validator [row] (json_of_row row) = (if schema_row row then Some row else None)" for row
    by (simp add: demo_validator_def)
  have p: "demo_row_parser row (json_print (json_of_row row)) = (visit_events (json_of_row row), Some (json_of_row row))" for row
    by (simp add: demo_row_parser_def)
  show ?thesis
    using serialise_decode_roundtrip [where row = demo_good and parser = "demo_row_parser demo_good" and validate = "demo_validator [demo_good]"
        and lim = defaultLimits and digest = demo_digest, OF wf(1,2) p v]
      serialise_decode_roundtrip [where row = demo_bad and parser = "demo_row_parser demo_bad" and validate = "demo_validator [demo_bad]"
        and lim = defaultLimits and digest = demo_digest, OF wf(3,4) p v]
    by (simp add: good bad)
qed

section \<open>Surfaces\<close>

text \<open>
  C16. An accepted surface is returned unchanged, and the component graph its messages build is
  safe to render: no message carries a forbidden key or path, every component is of the closed
  catalog, and every path from the root exists, is free of cycles and at most 25 long.
\<close>

theorem accepted_surface_safe:
  assumes "validateSurface digest message_ok lim s = Inr t"
  shows "t = s \<and> list_all safe_json (messages s) \<and>
    (\<exists>scan. loop_exit (scan_message message_ok s) (messages s)
         \<lparr>sn_created = False, sn_active = False, sn_components = []\<rparr> = Inr scan \<and>
       (\<forall>c \<in> set (jm_values (sn_components scan)). catalog_component c) \<and>
       (\<forall>path. component_path (sn_components scan) (json_text ''root'') path \<longrightarrow>
          distinct path \<and> length path \<le> 25 \<and> list_all (jm_has (sn_components scan)) path))"
proof -
  obtain scan where run: "t = s" "loop_exit (scan_message message_ok s) (messages s)
       \<lparr>sn_created = False, sn_active = False, sn_components = []\<rparr> = Inr scan"
    "visit 25 (sn_components scan) [] (json_text ''root'')"
    by (rule validateSurface_Inr [OF assms])
  have "(\<forall>c \<in> set (jm_values (sn_components scan)). catalog_component c) \<and> list_all safe_json (messages s)"
    using scan_catalog [OF run(2)] by simp
  then show ?thesis
    using run visit_bounded [OF run(3)] by (intro conjI exI [of _ scan]) auto
qed

definition demo_messages :: "json list" where
  "demo_messages =
     [obj [(''version'', jid ''v0.9.1''), (''createSurface'', obj
        [(''surfaceId'', jid ''s1''), (''catalogId'', jid ''urn:rss-mdm-agent:a2ui:interaction'')])],
      obj [(''version'', jid ''v0.9.1''), (''updateComponents'', obj [(''surfaceId'', jid ''s1''),
        (''components'', JArr
          [obj [(''id'', jid ''root''), (''component'', jid ''Column''), (''children'', JArr [jid ''b1''])],
           obj [(''id'', jid ''b1''), (''component'', jid ''Button''),
             (''action'', obj [(''event'', obj [(''name'', jid ''submit'')])])]])])]]"

definition demo_surface :: surface_state where
  "demo_surface = \<lparr>sf_namespace = demo_ns, sf_generation = ''g1'', sf_nativeRunId = ''n1'', surfaceId = ''s1'',
     surfaceInstanceId = ''p1'', sf_revision = 0, sf_interactionId = ''x1'', sourceComponentId = ''b1'',
     eventName = ''submit'', catalogId = ''urn:rss-mdm-agent:a2ui:interaction'', catalogVersion = ''1'',
     sf_status = Surface_active, messages = demo_messages\<rparr>"

lemma demo_surface_ids: "isId ''b1''" "isId ''submit''" "isId ''urn:rss-mdm-agent:a2ui:interaction''" "isId ''root''"
  by (simp_all add: isId_def id_char_def alphanumeric_def Let_def)

lemma demo_surface_valid: "valid demo_digest defaultLimits (Row_surface demo_surface) = None"
  by (intro row_validI) (simp_all add: demo_row_eval demo_surface_ids demo_surface_def demo_messages_def json_of_surface_def
     schema_surface_def)

definition demo_button :: json where
  "demo_button = obj [(''id'', jid ''b1''), (''component'', jid ''Button''),
     (''action'', obj [(''event'', obj [(''name'', jid ''submit'')])])]"

definition demo_components :: components where
  "demo_components =
     [(json_text ''root'', obj [(''id'', jid ''root''), (''component'', jid ''Column''), (''children'', JArr [jid ''b1''])]),
      (json_text ''b1'', demo_button)]"

lemma demo_surface_run: "validateSurface demo_digest (\<lambda>m. True) defaultLimits demo_surface = Inr demo_surface"
proof -
  have scan: "loop_exit (scan_message (\<lambda>m. True) demo_surface) demo_messages
      \<lparr>sn_created = False, sn_active = False, sn_components = []\<rparr> = Inr \<lparr>sn_created = True, sn_active = True,
        sn_components = demo_components\<rparr>"
    by (simp add: demo_messages_def scan_message_def operations_def obj_def prop_of_def jid_def utext_of_def json_text_def
        demo_surface_def scan_components_def scan_component_def banned_keys_def catalog_component_def demo_components_def demo_button_def jm_set_def)
  have "visit 25 demo_components [] (json_text ''root'')"
    by (simp add: numeral_eq_Suc demo_components_def demo_button_def jm_get_def json_text_def jid_def utext_of_def child_ids_def prop_of_def obj_def
       iterable_children_def)
  moreover have "catalogId demo_surface = ''urn:rss-mdm-agent:a2ui:interaction''" "catalogVersion demo_surface = ''1''"
    "messages demo_surface = demo_messages" "sf_status demo_surface = Surface_active"
    by (simp_all add: demo_surface_def)
  moreover have "jm_get demo_components (json_text (sourceComponentId demo_surface)) = Some demo_button"
    by (simp add: demo_surface_def demo_components_def jm_get_def json_text_def utext_of_def)
  moreover have "prop_of demo_button ''component'' = json_text ''Button''"
    "Option.bind (Option.bind (prop_of demo_button ''action'') (\<lambda>a. prop_of a ''event'')) (\<lambda>e. prop_of e ''name'') =
       json_text (eventName demo_surface)"
    by (simp_all add: demo_surface_def demo_button_def json_text_def jid_def utext_of_def prop_of_def obj_def)
  ultimately show ?thesis
    using demo_surface_valid scan by (simp add: validateSurface_def)
qed

theorem accepted_surface_safe_witness: "list_all safe_json (messages demo_surface)"
  using accepted_surface_safe [OF demo_surface_run] by simp

section \<open>Provider evidence\<close>

text \<open>
  C20. A proof minted by an admitted provider session denotes evidence filed now, for exactly
  this record and this observation, bound to the attempt of the record and to the admitted
  identity; what earlier proofs denote is unchanged.
\<close>

theorem minted_proof_sound:
  assumes "mint digest vs head original observed store = (Inr p, store')"
  shows "find_evidence store p = None \<and>
    (\<exists>ev d. find_evidence store' p = Some ev \<and> ed_record ev = original \<and> ed_observation ev = observed \<and>
       ed_namespace ev = vs_namespace vs \<and> ed_binding ev = providerIdentity (vs_binding vs) \<and>
       dispatch original = Some d \<and> rn_commandId observed = record_id original \<and> rn_attemptId observed = attemptId d \<and>
       observerGeneration d = generation (vs_binding vs) \<and> pf_commandId p = record_id original) \<and>
    (\<forall>q ev. find_evidence store q = Some ev \<longrightarrow> find_evidence store' q = Some ev)"
proof -
  obtain ev where ev: "mint_evidence digest vs head original observed = Some ev" "store' = store @ [ev]"
    and p: "p = \<lparr>pf_token = length store, pf_commandId = rn_commandId observed\<rparr>"
    using mint_store [OF assms] by auto
  from ev(1) have "\<exists>d. ed_record ev = original \<and> ed_observation ev = observed \<and>
       ed_namespace ev = vs_namespace vs \<and> ed_binding ev = providerIdentity (vs_binding vs) \<and>
       dispatch original = Some d \<and> rn_commandId observed = record_id original \<and> rn_attemptId observed = attemptId d \<and>
       observerGeneration d = generation (vs_binding vs)"
    by (rule mint_evidence_Some) (simp add: mint_coordinates_def)
  then show ?thesis
    using find_evidence_append [of store] by (auto simp: ev(2) p find_evidence_def nth_append)
qed

theorem minted_proof_sound_witness:
  "find_evidence [] \<lparr>pf_token = 0, pf_commandId = ''p1''\<rparr> = None \<and>
   find_evidence [demo_evidence] \<lparr>pf_token = 0, pf_commandId = ''p1''\<rparr> = Some demo_evidence"
  using minted_proof_sound [OF demo_mint] by (simp add: find_evidence_def)

section \<open>Namespaces and stages\<close>

text \<open>Namespace keys are faithful: two namespaces with the same key are the same namespace.\<close>

theorem namespace_key_faithful:
  assumes "namespaceKey a = Inr k" "namespaceKey b = Inr k"
  shows "a = b"
  using assms by (auto simp: namespaceKey_def namespace_text_inj split: if_splits)

theorem namespace_key_faithful_witness: "\<exists>k. namespaceKey demo_ns = Inr k \<and> demo_ns = demo_ns"
proof -
  have "namespaceKey demo_ns = Inr (namespace_text demo_ns)" by (simp add: namespaceKey_def)
  from namespace_key_faithful [OF this this] this show ?thesis by blast
qed

text \<open>
  Replacing the active stage's binding and capabilities reaches no other stage: the stages
  keep their number, order, identifiers and configuration, those not active are untouched, and
  the active stage carries exactly the new values.
\<close>

theorem replace_stage_local:
  assumes run: "replaceStage s (Some b) (Some c) = Inr t"
  shows "\<exists>cur. activeStage s = Inr cur \<and>
    activeStage t = Inr (cur\<lparr>stage_binding := b, stage_capabilities := c\<rparr>) \<and>
    map stageId (stages t) = map stageId (stages s) \<and> map configRevision (stages t) = map configRevision (stages s) \<and>
    filter (\<lambda>row. stageId row \<noteq> stageId cur) (stages t) = filter (\<lambda>row. stageId row \<noteq> stageId cur) (stages s) \<and>
    t = s\<lparr>stages := stages t\<rparr>"
proof -
  obtain cur where cur: "activeStage s = Inr cur" "activeStage t = Inr (cur\<lparr>stage_binding := b, stage_capabilities := c\<rparr>)"
    using replaceStage_active [OF run] by blast
  let ?f = "\<lambda>row. if stageId row = stageId cur then row\<lparr>stage_binding := b, stage_capabilities := c\<rparr> else row"
  have t: "t = s\<lparr>stages := map ?f (stages s)\<rparr>"
    using run cur(1) by (auto simp: replaceStage_def)
  have "filter (\<lambda>row. stageId row \<noteq> stageId cur) (map ?f xs) = filter (\<lambda>row. stageId row \<noteq> stageId cur) xs" for xs
    by (induction xs) simp_all
  then show ?thesis using cur by (intro exI [of _ cur]) (auto simp: t)
qed

theorem replace_stage_local_witness:
  "\<exists>cur. activeStage demo_second_session = Inr cur \<and> stageId cur = ''g2''"
proof -
  have a: "activeStage demo_second_session = Inr demo_stage_next"
    by (simp add: activeStage_def demo_second_session_def providerStage_def demo_binding_def demo_binding_next_def)
  then have "\<exists>t. replaceStage demo_second_session (Some demo_binding_next) (Some demo_capabilities) = Inr t"
    by (simp add: replaceStage_def)
  then show ?thesis
    using replace_stage_local a by (fastforce simp: providerStage_def demo_binding_next_def)
qed

section \<open>History\<close>

text \<open>
  A history preview quotes only completed prompts of the given records, oldest acceptance
  first and no more than asked for, and only messages that events of those prompts carry; its
  digest is that of the previewed content.
\<close>

theorem preview_quotes_completed:
  assumes "historyPreview digest s commands events connection configRev recent = Inr h"
  shows "\<exists>rows. hp_commandIds h = map record_id rows \<and> set rows \<subseteq> set commands \<and>
    (\<forall>row \<in> set rows. state_outcome (cr_state row) = Some Completed) \<and>
    sorted (map (\<lambda>row. acceptedRevision (cr_receipt row)) rows) \<and>
    (\<forall>n. recent = Some n \<longrightarrow> int (length rows) \<le> n) \<and>
    (\<forall>m \<in> set (hp_messageIds h). \<exists>e \<in> set events. \<exists>row \<in> set rows. \<exists>t.
       ev_commandId e = Some (record_id row) \<and> body e = Text m t) \<and>
    hp_throughSequence h = lastSequence s \<and>
    hp_contentHash h = digest (json_of_preview_value (h\<lparr>hp_contentHash := []\<rparr>))"
proof -
  let ?rows = "preview_selection commands recent"
  have range: "\<not> (case recent of None \<Rightarrow> False | Some n \<Rightarrow> n < 1 \<or> 10000 < n)"
    and ids: "hp_commandIds h = map record_id ?rows"
      "hp_messageIds h = concat (map (\<lambda>row. jm_keys (message_map events (record_id row))) ?rows)"
    and rest: "hp_throughSequence h = lastSequence s"
      "hp_contentHash h = digest (json_of_preview_value (h\<lparr>hp_contentHash := []\<rparr>))"
    using assms by (auto simp: historyPreview_def Let_def split: if_splits sum.splits)
  have len: "int (length ?rows) \<le> n" if "recent = Some n" for n
    using range preview_selection_length [of commands n] that by auto
  have completed: "state_outcome (cr_state row) = Some Completed" if "row \<in> set ?rows" for row
    using preview_selection_mem [OF that] by (auto simp: previewable_def split: input.splits)
  have quoted: "\<exists>e \<in> set events. \<exists>row \<in> set ?rows. \<exists>t. ev_commandId e = Some (record_id row) \<and> body e = Text m t"
    if m: "m \<in> set (hp_messageIds h)" for m
  proof -
    obtain row where row: "row \<in> set ?rows" "m \<in> set (jm_keys (message_map events (record_id row)))"
      using m by (auto simp: ids)
    then obtain t where "jm_get (message_map events (record_id row)) m = Some t"
      by (auto simp: jm_keys_def jm_get_def dest: weak_map_of_SomeI)
    from message_map_get [OF this] row(1) show ?thesis by blast
  qed
  show ?thesis
    using ids(1) preview_selection_sorted [of commands recent] len completed quoted rest
    by (intro exI [of _ ?rows]) (auto dest: preview_selection_mem)
qed

lemma demo_preview: "\<exists>h. historyPreview demo_digest (demo_session 3 6) [demo_record (Terminal (demo_attempt Submitted) Completed)]
    (ws_events demo_finished) ''c1'' 1 (Some 5) = Inr h"
proof -
  let ?row = "demo_record (Terminal (demo_attempt Submitted) Completed)"
  define quote where "quote = utext_of ''User:'' @ [10] @ utext_of ''hi'' @ [10, 10] @ utext_of ''Assistant:'' @ [10]"
  define pv where "pv = \<lparr>hp_sessionId = ''s1'', hp_connectionId = ''c1'', hp_configRevision = 1,
    hp_throughSequence = 6, hp_commandIds = [''p1''], hp_text = quote, hp_contentHash = [], hp_messageIds = []\<rparr>"
  have sel: "preview_selection [demo_record (Terminal (demo_attempt Submitted) Completed)] (Some 5) =
      [demo_record (Terminal (demo_attempt Submitted) Completed)]"
    by (simp add: preview_selection_def previewable_def demo_record_def demo_prompt_def last_n_def)
  have msgs: "message_map (ws_events demo_finished) ''p1'' = []"
    by (simp add: message_map_def demo_finished_simp demo_event_def)
  have turn: "preview_turn (ws_events demo_finished) ?row = quote"
    by (simp add: preview_turn_def demo_record_def demo_prompt_def msgs quote_def blank_line_def utext_join_def jm_values_def)
  have "fits defaultLimits (json_of_preview_value pv)"
    by (rule fits_by_size) (simp_all add: pv_def json_of_preview_value_def demo_row_eval quote_def unicode_Cons)
  moreover have "jsize (json_of_preview_value pv) \<le> 65536"
    by (simp add: pv_def json_of_preview_value_def demo_row_eval quote_def)
  ultimately have "fits preview_limits (json_of_preview_value pv)"
    using text_le_size(1) [of "json_of_preview_value pv"] by (simp add: fits_def preview_limits_def defaultLimits_def)
  moreover have "checkLimits preview_limits = None"
    by (simp add: checkLimits_None preview_limits_def defaultLimits_def max_safe_def)
  ultimately have "boundedJson preview_limits (json_of_preview_value pv) = Inr (json_print (json_of_preview_value pv))"
    by (simp add: boundedJson_Inr)
  then have "boundedJson preview_limits (json_of_preview_value \<lparr>hp_sessionId = ''s1'', hp_connectionId = ''c1'',
      hp_configRevision = 1, hp_throughSequence = 6, hp_commandIds = [''p1''], hp_text = quote, hp_contentHash = [],
      hp_messageIds = []\<rparr>) = Inr (json_print (json_of_preview_value pv))"
    by (simp add: pv_def)
  moreover have "ns_sessionId demo_ns = ''s1''" "record_id ?row = ''p1''"
    by (simp_all add: demo_ns_def demo_record_def demo_prompt_def)
  ultimately show ?thesis
    by (simp add: historyPreview_def Let_def sel turn msgs utext_join_def jm_keys_def)
qed

theorem preview_quotes_completed_witness:
  "\<exists>h. historyPreview demo_digest (demo_session 3 6) [demo_record (Terminal (demo_attempt Submitted) Completed)]
      (ws_events demo_finished) ''c1'' 1 (Some 5) = Inr h \<and> hp_throughSequence h = 6"
proof -
  obtain h where h: "historyPreview demo_digest (demo_session 3 6) [demo_record (Terminal (demo_attempt Submitted) Completed)]
      (ws_events demo_finished) ''c1'' 1 (Some 5) = Inr h"
    using demo_preview by blast
  then show ?thesis using preview_quotes_completed [OF h] by auto
qed

end
