(* ===== verification/Session_Suspension.thy ===== *)
theory Session_Suspension
  imports Session_Reach
begin

text \<open>
  What handoff and suspension leave behind. A handoff withdraws all open interactions and
  surfaces and makes every dispatched, unsettled command uncertain; only unsent prompts keep
  waiting. Suspension first cancels those, one local cancel per prompt, so that after it
  nothing is queued at all.
\<close>

section \<open>After a handoff\<close>

definition queued :: "command_record \<Rightarrow> bool" where
  "queued c \<longleftrightarrow> cr_state c = Accepted \<and> queue_next (input_of (cr_command c))"

lemma undispatched_accepted: "dispatch c = None \<Longrightarrow> \<not> isSettled c \<Longrightarrow> cr_state c = Accepted"
  by (cases "cr_state c") (simp_all add: isSettled_def settled_state_def)

lemma swept_closed: "ia_status (swept_interaction i) \<noteq> Pending" "sf_status (swept_surface s) \<noteq> Surface_active"
  by (simp_all add: swept_interaction_def swept_surface_def)

lemma handoff_leaves:
  assumes red: "reduceHandoff e lim st inp restored = Inr st'" and keyed: "ws_keyed st"
  shows "jm_get (ws_interactions st') k = Some i \<Longrightarrow> ia_status i \<noteq> Pending"
    and "jm_get (ws_surfaces st') k = Some s \<Longrightarrow> sf_status s \<noteq> Surface_active"
    and "jm_get (ws_commands st') k = Some c \<Longrightarrow>
      isSettled c \<or> state_of c = T_uncertain \<or> queued c \<and> jm_get (ws_commands st) k = Some c"
proof -
  obtain g where st': "ws_interactions st' = sweep swept_interaction (ws_interactions st)"
      "ws_surfaces st' = sweep swept_surface (ws_surfaces st)"
      "ws_commands st' = sweep (swept_command g) (ws_commands st)"
    by (rule reduceHandoff_effect [OF red keyed]) (simp add: swept_def)
  show "ia_status i \<noteq> Pending" if "jm_get (ws_interactions st') k = Some i" for i
    using that swept_closed(1) unfolding st'(1) sweep_get map_option_eq_Some by metis
  show "sf_status s \<noteq> Surface_active" if "jm_get (ws_surfaces st') k = Some s" for s
    using that swept_closed(2) unfolding st'(2) sweep_get map_option_eq_Some by metis
  have step: "isSettled (swept_command g c) \<or> state_of (swept_command g c) = T_uncertain \<or>
      queued (swept_command g c) \<and> swept_command g c = c" for c
    using undispatched_accepted [of c]
    by (cases "isSettled c"; cases "dispatch c"; cases "queue_next (input_of (cr_command c))")
       (simp_all add: swept_command_def queued_def, simp_all add: isSettled_def settled_state_def)
  show "isSettled c \<or> state_of c = T_uncertain \<or> queued c \<and> jm_get (ws_commands st) k = Some c"
    if "jm_get (ws_commands st') k = Some c" for c
    using that step unfolding st'(3) sweep_get map_option_eq_Some by metis
qed

section \<open>Suspension drains the queue\<close>

text \<open>Every queued prompt of a workspace is among the given rows, under its own key.\<close>

definition queue_within :: "workspace \<Rightarrow> command_record set \<Rightarrow> bool" where
  "queue_within st cs \<longleftrightarrow> (\<forall>k c. jm_get (ws_commands st) k = Some c \<longrightarrow> queued c \<longrightarrow> c \<in> cs)"

lemma reduceCommit_applied: "reduceCommit e lim st b accepting suspending = Inr st' \<Longrightarrow> st' = applied st b"
  by (erule reduceCommit_run) (simp add: commit_run_applied(1))

text \<open>A cancel is never queued itself, so accepting one leaves the queue alone.\<close>

lemma accept_cancel_queue:
  assumes "reduceAcceptance e lim st inp suspending = Inr (st', r)" "input_of (ai_command inp) = Cancel tc g rn"
    and "queue_within st cs"
  shows "queue_within st' cs"
  using assms(1)
proof (cases rule: acceptance_cases)
  case (replay prior)
  then show ?thesis using assms(3) by simp
next
  case (fresh cur answered answers)
  from reduceCommit_applied [OF fresh(4)] show ?thesis
    using assms(2,3) by (auto simp: queue_within_def queued_def applied_def accept_batch_def upsert_Cons split: if_splits)
qed

lemma suspend_target_queue:
  assumes run: "suspend_target e lim inp gen tgt nxt = Inr nxt'" and keyed: "ws_keyed nxt"
    and within: "queue_within nxt (insert tgt cs)" and others: "\<And>c. c \<in> cs \<Longrightarrow> record_id c \<noteq> record_id tgt"
  shows "queue_within nxt' cs"
proof (cases "queued tgt")
  case False
  then have "nxt' = nxt" using run by (auto simp: suspend_target_def queued_def)
  moreover have "queue_within nxt cs"
    using within False by (auto simp: queue_within_def)
  ultimately show ?thesis by simp
next
  case True
  let ?cid = "derived_id (env_digest e) (ri_eventId (si_recovery inp)) (''cancel-'' @ record_id tgt)"
  let ?acc = "suspend_accept e nxt inp gen ?cid (record_id tgt)"
  obtain mid r cancel where acc: "reduceAcceptance e lim nxt ?acc True = Inr (mid, r)"
    and commit: "reduceCommit e lim mid (suspend_batch e mid inp gen ?cid cancel tgt) False True = Inr nxt'"
    using run True by (auto simp: suspend_target_def queued_def Let_def split: option.splits)
  have mid: "queue_within mid (insert tgt cs)"
    by (rule accept_cancel_queue [OF acc _ within]) (simp add: suspend_accept_def cancel_command_def)
  have key: "keyed record_id (ws_commands mid)"
  proof -
    have "ws_keyed mid"
      using acc keyed by (cases rule: acceptance_cases)
        (auto dest!: reduceCommit_applied simp: applied_def ws_keyed_def intro: upsert_keyed)
    then show ?thesis by (simp add: ws_keyed_def)
  qed
  have "c \<in> cs" if get: "jm_get (ws_commands nxt') k = Some c" and q: "queued c" for k c
  proof -
    have "k \<noteq> record_id tgt" and "jm_get (ws_commands mid) k = Some c"
      using get q reduceCommit_applied [OF commit]
      by (auto simp: applied_def suspend_batch_def upsert_Cons queued_def split: if_splits)
    moreover from this have "c \<in> insert tgt cs" "record_id c = k"
      using mid q keyed_get [OF key] by (auto simp: queue_within_def)
    ultimately show ?thesis by auto
  qed
  then show ?thesis by (auto simp: queue_within_def)
qed

text \<open>The whole loop: nothing stays queued.\<close>

lemma suspend_loop_queue:
  assumes run: "loop_exit (suspend_target e lim inp gen) (commandsInStates st [T_accepted]) st = Inr nxt"
    and inv: "ws_inv st"
  shows "queue_within nxt {} \<and> ws_inv nxt"
proof -
  let ?rows = "commandsInStates st [T_accepted]"
  have keyed: "keyed record_id (ws_commands st)" using inv by (simp add: ws_inv_def ws_keyed_def)
  have inj: "c = d" if "c \<in> set ?rows" "d \<in> set ?rows" "record_id c = record_id d" for c d
    using that keyed_values_iff [OF keyed, of c] keyed_values_iff [OF keyed, of d] by (simp add: commandsInStates_def)
  have start: "queue_within st (set ?rows)"
    using jm_values_get by (fastforce simp: queue_within_def queued_def commandsInStates_def in_states_def)
  have "queue_within nxt (set ?rows - set ?rows) \<and> ws_inv nxt"
  proof (rule loop_exit_invariant [OF run, of "\<lambda>past t. queue_within t (set ?rows - set past) \<and> ws_inv t"], goal_cases)
    case 1
    then show ?case using start inv by simp
  next
    case (2 past x t t')
    have "queue_within t (insert x (set ?rows - set (past @ [x])))"
      using 2(2,3) by (auto simp: queue_within_def)
    moreover have "record_id c \<noteq> record_id x" if "c \<in> set ?rows - set (past @ [x])" for c
      using inj [of c x] that 2(2) by auto
    moreover have "ws_keyed t" using 2(3) by (simp add: ws_inv_def)
    ultimately have "queue_within t' (set ?rows - set (past @ [x]))"
      by (intro suspend_target_queue [OF 2(4)])
    moreover have "ws_inv t'" using suspend_target_ok [OF 2(4)] 2(3) by (simp add: preserves_def)
    ultimately show ?case by simp
  qed
  then show ?thesis by simp
qed

lemma suspend_target_status: "suspend_target e lim inp gen tgt nxt = Inr nxt' \<Longrightarrow>
    status (ws_session nxt') = status (ws_session nxt)"
  by (auto simp: suspend_target_def Let_def acceptance_status commit_status split: if_splits option.splits)

lemma suspension_leaves:
  assumes run: "reduceSuspension e lim st inp = Inr st'" and inv: "ws_inv st"
    and open_session: "status (ws_session st) \<noteq> Retired" "currentStageId (ws_session st) \<notin> {None, Some []}"
  shows "status (ws_session st') = Recovery_required"
    and "jm_get (ws_commands st') k = Some c \<Longrightarrow> \<not> queued c"
    and "status (ws_session st) = Active \<Longrightarrow> jm_get (ws_commands st') k = Some c \<Longrightarrow> isSettled c \<or> state_of c = T_uncertain"
proof -
  obtain gen nxt where loop: "loop_exit (suspend_target e lim inp gen) (commandsInStates st [T_accepted]) st = Inr nxt"
    and rest: "if status (ws_session nxt) = Active
      then reduceHandoff e lim nxt ((si_recovery inp)\<lparr>ri_expectedRevision := revision (ws_session nxt)\<rparr>) None = Inr st'
      else st' = nxt"
    using run open_session by (auto simp: reduceSuspension_def Let_def split: if_splits)
  have drained: "queue_within nxt {}" and inv': "ws_inv nxt" using suspend_loop_queue [OF loop inv] by auto
  have st: "status (ws_session nxt) = status (ws_session st)"
    by (rule loop_exit_invariant [OF loop, of "\<lambda>past t. status (ws_session t) = status (ws_session st)"])
       (simp_all add: suspend_target_status)
  have keyed: "ws_keyed nxt" using inv' by (simp add: ws_inv_def)
  have recovering: "status (ws_session st') = Recovery_required" if h: "reduceHandoff e lim nxt r None = Inr st'" for r
    by (rule reduceHandoff_effect [OF h keyed]) (auto simp: handoff_claim_def replaceStage_def)
  show "status (ws_session st') = Recovery_required"
    using rest recovering st open_session(1) by (cases "status (ws_session st)") auto
  show "\<not> queued c" if "jm_get (ws_commands st') k = Some c"
    using rest drained that handoff_leaves(3) [OF _ keyed, of e lim
      "(si_recovery inp)\<lparr>ri_expectedRevision := revision (ws_session nxt)\<rparr>" None st' k c]
    by (auto simp: queue_within_def queued_def isSettled_def settled_state_def split: if_splits)
  show "isSettled c \<or> state_of c = T_uncertain" if "status (ws_session st) = Active" "jm_get (ws_commands st') k = Some c"
    using rest drained st that handoff_leaves(3) [OF _ keyed, of e lim _ None st' k c]
    by (auto simp: queue_within_def)
qed

end
