(* ===== verification/Connections.thy ===== *)
theory Connections
  imports Session_Rules
begin

text \<open>
  Saved connections and user preferences (\<^verbatim>\<open>connections.ts\<close>): the append-only revisions of a
  connection, the merge of a preferences patch, the record a saved draft becomes. What the
  platform decides about a text is a parameter: \<open>url_ok\<close> for the URL check (\<^verbatim>\<open>new URL\<close> and
  the tests of its parts), \<open>control_char\<close> for the class \<^verbatim>\<open>\p{Cc}\<close>.
\<close>

section \<open>Records\<close>

datatype provider_kind = Codex | Claude | Deepseek

datatype profile = Conversation | Controlled_tools

datatype connection_status = Unverified | Ready | Deleted

datatype credential_type = Api_key | Auth_token

datatype connection_source =
    Custom_api utext utext "credential_type option"
  | Existing_config "utext option" "utext option"

datatype test_stage =
  At_host | At_configuration | At_authentication | At_provider | At_capability | At_quota | At_timeout | At_cleanup

datatype connection_test = Test_passed counter | Test_failed counter test_stage failure

fun testedRevision :: "connection_test \<Rightarrow> counter" where
  "testedRevision (Test_passed n) = n"
| "testedRevision (Test_failed n s f) = n"

text \<open>A presentation is an open object: the name and whatever else the caller stored.\<close>

record connection =
  cn_id :: id
  cn_provider :: provider_kind
  cn_revision :: counter
  cn_profile :: profile
  cn_status :: connection_status
  cn_source :: connection_source
  cn_lastTest :: "connection_test option"
  cn_name :: utext
  cn_presentation :: "(utext \<times> json) list"

record connection_draft =
  cd_id :: id
  cd_provider :: provider_kind
  cd_profile :: profile
  cd_source :: connection_source
  cd_name :: utext
  cd_presentation :: "(utext \<times> json) list"

record user_preferences =
  defaultConnectionId :: "id option"
  selectedSessionId :: "id option"
  up_presentation :: "(utext, json) jsmap option"

datatype preference_change = Set_preference id | Clear_preference

record preferences_patch =
  patch_default :: "preference_change option"
  patch_selected :: "preference_change option"
  patch_presentation :: "(utext, json) jsmap option"

section \<open>JSON form and schema\<close>

fun provider_text :: "provider_kind \<Rightarrow> string" where
  "provider_text Codex = ''codex''"
| "provider_text Claude = ''claude''"
| "provider_text Deepseek = ''deepseek''"

fun profile_text :: "profile \<Rightarrow> string" where
  "profile_text Conversation = ''conversation''"
| "profile_text Controlled_tools = ''controlled_tools''"

fun connection_status_text :: "connection_status \<Rightarrow> string" where
  "connection_status_text Unverified = ''unverified''"
| "connection_status_text Ready = ''ready''"
| "connection_status_text Deleted = ''deleted''"

fun credential_text :: "credential_type \<Rightarrow> string" where
  "credential_text Api_key = ''api_key''"
| "credential_text Auth_token = ''auth_token''"

fun test_stage_text :: "test_stage \<Rightarrow> string" where
  "test_stage_text At_host = ''host''"
| "test_stage_text At_configuration = ''configuration''"
| "test_stage_text At_authentication = ''authentication''"
| "test_stage_text At_provider = ''provider''"
| "test_stage_text At_capability = ''capability''"
| "test_stage_text At_quota = ''quota''"
| "test_stage_text At_timeout = ''timeout''"
| "test_stage_text At_cleanup = ''cleanup''"

fun json_of_source :: "connection_source \<Rightarrow> json" where
  "json_of_source (Custom_api u m c) = obj ([(''type'', jid ''custom_api''), (''apiUrl'', JStr u), (''model'', JStr m)] @
     opt_member ''credentialType'' (\<lambda>c. jid (credential_text c)) c)"
| "json_of_source (Existing_config d m) = obj ((''type'', jid ''existing_config'') #
     opt_member ''directory'' JStr d @ opt_member ''model'' JStr m)"

fun json_of_test :: "connection_test \<Rightarrow> json" where
  "json_of_test (Test_passed n) = obj [(''outcome'', jid ''passed''), (''testedRevision'', JInt n)]"
| "json_of_test (Test_failed n s f) = obj [(''outcome'', jid ''failed''), (''testedRevision'', JInt n),
     (''stage'', jid (test_stage_text s)), (''failure'', json_of_failure f)]"

definition json_of_presentation :: "utext \<Rightarrow> (utext \<times> json) list \<Rightarrow> json" where
  "json_of_presentation name rest = JObj ((utext_of ''name'', JStr name) # rest)"

text \<open>A stored connection without a test has \<^verbatim>\<open>lastTest: null\<close>.\<close>

definition json_of_connection :: "connection \<Rightarrow> json" where
  "json_of_connection c = obj (header ''connection'' @
     [(''connectionId'', jid (cn_id c)), (''provider'', jid (provider_text (cn_provider c))),
      (''configRevision'', JInt (cn_revision c)), (''profile'', jid (profile_text (cn_profile c))),
      (''status'', jid (connection_status_text (cn_status c))), (''source'', json_of_source (cn_source c)),
      (''lastTest'', case cn_lastTest c of None \<Rightarrow> JNull | Some t \<Rightarrow> json_of_test t),
      (''presentation'', json_of_presentation (cn_name c) (cn_presentation c))])"

fun json_of_change :: "preference_change \<Rightarrow> json" where
  "json_of_change (Set_preference i) = obj [(''set'', jid i)]"
| "json_of_change Clear_preference = obj [(''clear'', JBool True)]"

definition json_of_patch :: "preferences_patch \<Rightarrow> json" where
  "json_of_patch p = obj (header ''preferencesRequest'' @ [(''patch'', obj (
     opt_member ''defaultConnectionId'' json_of_change (patch_default p) @
     opt_member ''selectedSessionId'' json_of_change (patch_selected p) @
     opt_member ''presentation'' JObj (patch_presentation p)))])"

definition json_of_preferences :: "user_preferences \<Rightarrow> json" where
  "json_of_preferences u = obj (header ''userPreferences'' @
     opt_member ''defaultConnectionId'' jid (defaultConnectionId u) @
     opt_member ''selectedSessionId'' jid (selectedSessionId u) @
     opt_member ''presentation'' JObj (up_presentation u))"

definition json_of_save_request :: "connection_draft \<Rightarrow> counter option \<Rightarrow> json" where
  "json_of_save_request d expected = obj (header ''saveConnectionRequest'' @
     [(''connection'', obj [(''connectionId'', jid (cd_id d)), (''provider'', jid (provider_text (cd_provider d))),
        (''profile'', jid (profile_text (cd_profile d))), (''source'', json_of_source (cd_source d)),
        (''presentation'', json_of_presentation (cd_name d) (cd_presentation d))]),
      (''expectedRevision'', case expected of None \<Rightarrow> JNull | Some n \<Rightarrow> JInt n)])"

definition bounded_text :: "nat \<Rightarrow> utext \<Rightarrow> bool" where
  "bounded_text n t \<longleftrightarrow> 1 \<le> length t \<and> length t \<le> n"

fun schema_source :: "connection_source \<Rightarrow> bool" where
  "schema_source (Custom_api u m c) \<longleftrightarrow> bounded_text 2048 u \<and> bounded_text 256 m"
| "schema_source (Existing_config d m) \<longleftrightarrow> opt_ok (bounded_text 32768) d \<and> opt_ok (bounded_text 256) m"

definition schema_connection :: "connection \<Rightarrow> bool" where
  "schema_connection c \<longleftrightarrow> isId (cn_id c) \<and> isCounter (cn_revision c) \<and> schema_source (cn_source c) \<and>
     opt_ok (\<lambda>t. isCounter (testedRevision t)) (cn_lastTest c) \<and> bounded_text 64 (cn_name c)"

fun schema_change :: "preference_change \<Rightarrow> bool" where
  "schema_change (Set_preference i) = isId i"
| "schema_change Clear_preference = True"

definition schema_patch :: "preferences_patch \<Rightarrow> bool" where
  "schema_patch p \<longleftrightarrow> opt_ok schema_change (patch_default p) \<and> opt_ok schema_change (patch_selected p)"

definition schema_preferences :: "user_preferences \<Rightarrow> bool" where
  "schema_preferences u \<longleftrightarrow> opt_ok isId (defaultConnectionId u) \<and> opt_ok isId (selectedSessionId u)"

definition schema_draft :: "connection_draft \<Rightarrow> counter option \<Rightarrow> bool" where
  "schema_draft d expected \<longleftrightarrow> isId (cd_id d) \<and> schema_source (cd_source d) \<and> bounded_text 64 (cd_name d) \<and>
     opt_ok isCounter expected"

text \<open>\<^verbatim>\<open>decode(boundedJson(value))\<close> on a record with the given schema.\<close>

definition reencodes :: "json \<Rightarrow> bool \<Rightarrow> bool" where
  "reencodes j schema \<longleftrightarrow> (case boundedJson defaultLimits j of Inl d \<Rightarrow> False | Inr t \<Rightarrow> True) \<and> schema"

section \<open>Operations\<close>

definition emptyPreferences :: user_preferences where
  "emptyPreferences = \<lparr>defaultConnectionId = None, selectedSessionId = None, up_presentation = None\<rparr>"

text \<open>White space of \<^verbatim>\<open>String.prototype.trim\<close>.\<close>

definition white_space :: "utext \<Rightarrow> bool" where
  "white_space t \<longleftrightarrow> list_all (\<lambda>c. c \<in> set ([9, 10, 11, 12, 13, 32, 160, 5760, 8232, 8233, 8239, 8287, 12288, 65279] @ [8192..<8203])) t"

definition invalid_connection :: "'a result" where
  "invalid_connection = Inl (fail_with Invalid_input Never)"

definition connectionRevision ::
  "(utext \<Rightarrow> bool) \<Rightarrow> (nat \<Rightarrow> bool) \<Rightarrow> connection \<Rightarrow> connection option \<Rightarrow> counter option \<Rightarrow> connection result" where
  "connectionRevision url_ok control_char nxt previous expected =
     (if \<not> reencodes (json_of_connection nxt) (schema_connection nxt) then invalid_connection
      else if map_option cn_revision previous \<noteq> expected then Inl (fail_with Revision_conflict Never)
      else if map_option cn_status previous = Some Deleted \<or>
         cn_revision nxt \<noteq> (case previous of Some p \<Rightarrow> cn_revision p | None \<Rightarrow> 0) + 1 then invalid_connection
      else if white_space (cn_name nxt) \<or> list_ex control_char (cn_name nxt) then invalid_connection
      else case cn_source nxt of
        Custom_api url model c \<Rightarrow>
          if \<not> url_ok url \<or> white_space model then invalid_connection else Inr nxt
      | Existing_config d m \<Rightarrow>
          if cn_provider nxt = Deepseek then invalid_connection else Inr nxt)"

text \<open>\<^verbatim>\<open>{ ...current, ...patch }\<close> on open objects, and the two independent selections.\<close>

definition merge_objects :: "(utext, json) jsmap option \<Rightarrow> (utext, json) jsmap \<Rightarrow> (utext, json) jsmap" where
  "merge_objects old new = fold (\<lambda>(k, v) m. jm_set m k v) new (case old of None \<Rightarrow> [] | Some m \<Rightarrow> m)"

fun apply_change :: "preference_change option \<Rightarrow> id option \<Rightarrow> id option" where
  "apply_change None old = old"
| "apply_change (Some (Set_preference i)) old = Some i"
| "apply_change (Some Clear_preference) old = None"

definition mergePreferences :: "user_preferences \<Rightarrow> preferences_patch \<Rightarrow> user_preferences result" where
  "mergePreferences current patch =
     (if \<not> reencodes (json_of_patch patch) (schema_patch patch) then invalid_connection
      else Inr \<lparr>defaultConnectionId = apply_change (patch_default patch) (defaultConnectionId current),
        selectedSessionId = apply_change (patch_selected patch) (selectedSessionId current),
        up_presentation = (case patch_presentation patch of
          None \<Rightarrow> up_presentation current | Some p \<Rightarrow> Some (merge_objects (up_presentation current) p))\<rparr>)"

definition savedDraft :: "connection_draft \<Rightarrow> counter option \<Rightarrow> connection result" where
  "savedDraft d expected =
     (if \<not> reencodes (json_of_save_request d expected) (schema_draft d expected) then invalid_connection
      else Inr \<lparr>cn_id = cd_id d, cn_provider = cd_provider d,
        cn_revision = (case expected of Some n \<Rightarrow> n | None \<Rightarrow> 0) + 1, cn_profile = cd_profile d,
        cn_status = Unverified, cn_source = cd_source d, cn_lastTest = None, cn_name = cd_name d,
        cn_presentation = cd_presentation d\<rparr>)"

section \<open>Facts\<close>

lemma connectionRevision_Inr:
  assumes "connectionRevision url_ok cc nxt previous expected = Inr c"
  shows "c = nxt" "map_option cn_revision previous = expected"
    "cn_revision nxt = (case expected of Some n \<Rightarrow> n | None \<Rightarrow> 0) + 1"
    "map_option cn_status previous \<noteq> Some Deleted" "schema_connection nxt"
  using assms
  by (auto simp: connectionRevision_def invalid_connection_def reencodes_def split: if_splits connection_source.splits option.splits)

text \<open>A saved draft fits the revision it was drafted against.\<close>

lemma savedDraft_next:
  assumes "savedDraft d expected = Inr c" "connectionRevision url_ok cc c previous expected = Inr c'"
  shows "c' = c \<and> cn_status c = Unverified \<and> cn_lastTest c = None"
  using assms connectionRevision_Inr(1) [OF assms(2)]
  by (auto simp: savedDraft_def invalid_connection_def split: if_splits)

lemma merge_objects_get:
  "jm_get (merge_objects old new) k =
     (case map_of (rev new) k of Some v \<Rightarrow> Some v | None \<Rightarrow> Option.bind old (\<lambda>m. jm_get m k))"
  unfolding merge_objects_def jm_get_fold_set by (cases old) (simp_all add: jm_get_def split: option.splits)

end
