(* ===== verification/Sqlite_Tables.thy ===== *)
theory Sqlite_Tables
  imports Connections
begin

text \<open>
  The durable store (\<^verbatim>\<open>ai-store-sqlite/src/index.ts\<close>, \<^verbatim>\<open>schema.ts\<close>): its tables, the scoped
  queries of a transaction and the write of a delta. A stored row is the record it was
  serialised from; \<open>decode_row\<close> is the re-validation every read makes, and the size of a row is
  that of its printed JSON. SQL leaves the order of a scoped query open; the model returns the
  rows in table order, and the facts about queries are about sets. What the declared keys,
  unique constraints and foreign keys refuse is \<open>constraint_failed\<close>; the columns they are
  declared on are generated from the JSON of the row, so they are read off the record.
\<close>

section \<open>Tables\<close>

type_synonym 'v table = "(namespace \<times> id, 'v) jsmap"

record caller =
  ca_tenantId :: id
  ca_principalId :: id
  ca_authorityId :: id

text \<open>A worker launch (\<^verbatim>\<open>ai-host/src/launch-fence.ts\<close>): reserved, or registered with the process it runs in.\<close>

datatype process_scope =
    Process_group int
  | Job_object string int

record worker_launch =
  wl_namespace :: namespace
  wl_launchId :: id
  wl_artifact :: utext
  wl_runtimeDigest :: string
  wl_scope :: "process_scope option"

record database =
  db_sessions :: "(namespace, session) jsmap"
  db_generations :: "(namespace \<times> id) list"
  db_commands :: "command_record table"
  db_events :: "event table"
  db_interactions :: "interaction table"
  db_surfaces :: "surface_state table"
  db_deliveries :: "delivery table"
  db_tombstones :: "namespace list"
  db_connections :: "(caller \<times> id \<times> counter, connection \<times> nat list option) jsmap"
  db_preferences :: "(caller, user_preferences) jsmap"
  db_launches :: "(namespace, worker_launch) jsmap"

record bounds =
  maxSessionRecords :: int
  maxSessionBytes :: int
  maxBatchRecords :: int
  maxQueryBytes :: int

text \<open>\<^verbatim>\<open>WHERE tenant_id=? AND principal_id=? AND authority_id=? AND session_id=?\<close>\<close>

definition scoped :: "namespace \<Rightarrow> 'v table \<Rightarrow> (id, 'v) jsmap" where
  "scoped n t = map (\<lambda>((m, k), v). (k, v)) (filter (\<lambda>((m, k), v). m = n) t)"

definition scoped_generations :: "namespace \<Rightarrow> database \<Rightarrow> id list" where
  "scoped_generations n db = map snd (filter (\<lambda>(m, g). m = n) (db_generations db))"

text \<open>The rows of one session, as \<^verbatim>\<open>#state\<close> loads them.\<close>

definition content :: "database \<Rightarrow> namespace \<Rightarrow> session \<Rightarrow> workspace" where
  "content db n s = \<lparr>ws_session = s, ws_generations = scoped_generations n db,
     ws_commands = scoped n (db_commands db), ws_events = sort_key sequence (jm_values (scoped n (db_events db))),
     ws_interactions = scoped n (db_interactions db), ws_deliveries = scoped n (db_deliveries db),
     ws_surfaces = scoped n (db_surfaces db)\<rparr>"

section \<open>Reading\<close>

definition corrupt :: failure where
  "corrupt = fail_with Storage_corrupt Never"

text \<open>\<^verbatim>\<open>#decode\<close>: a limit is reported as such, anything else as corruption.\<close>

definition decode_row :: "env \<Rightarrow> row \<Rightarrow> failure option" where
  "decode_row e row = (case valid (env_digest e) defaultLimits row of
     None \<Rightarrow> None
   | Some d \<Rightarrow> Some (if d = D_limit then fail_with Limit_exceeded Never else corrupt))"

text \<open>The check of one row read: it decodes, and its own key is the key it is stored under.\<close>

definition check_row ::
  "env \<Rightarrow> ('v \<Rightarrow> row) \<Rightarrow> ('v \<Rightarrow> id) \<Rightarrow> ('v \<Rightarrow> namespace) \<Rightarrow> namespace \<Rightarrow> id \<times> 'v \<Rightarrow> failure option" where
  "check_row e as_row key ns n kv = (case kv of (k, v) \<Rightarrow> first_exit
     [decode_row e (as_row v), fail_if (key v \<noteq> k \<or> ns v \<noteq> n) corrupt])"

definition read_rows ::
  "env \<Rightarrow> ('v \<Rightarrow> row) \<Rightarrow> ('v \<Rightarrow> id) \<Rightarrow> ('v \<Rightarrow> namespace) \<Rightarrow> namespace \<Rightarrow> 'v table \<Rightarrow> (id \<times> 'v \<Rightarrow> bool)
     \<Rightarrow> 'v list result" where
  "read_rows e as_row key ns n t P = (let rows = filter P (scoped n t) in
     case first_exit (map (check_row e as_row key ns n) rows) of
       Some f \<Rightarrow> Inl f | None \<Rightarrow> Inr (map snd rows))"

definition read_one :: "'v list result \<Rightarrow> 'v option result" where
  "read_one r = and_then r (\<lambda>rows. Inr (case rows of [] \<Rightarrow> None | v # _ \<Rightarrow> Some v))"

abbreviation "read_commands e n db \<equiv> read_rows e Row_record record_id (\<lambda>c. rc_namespace (cr_receipt c)) n (db_commands db)"
abbreviation "read_events e n db \<equiv> read_rows e Row_event eventId ev_namespace n (db_events db)"
abbreviation "read_interactions e n db \<equiv> read_rows e Row_interaction interactionId ia_namespace n (db_interactions db)"
abbreviation "read_surfaces e n db \<equiv> read_rows e Row_surface surfaceInstanceId sf_namespace n (db_surfaces db)"
abbreviation "read_deliveries e n db \<equiv> read_rows e Row_delivery operationId dl_namespace n (db_deliveries db)"

text \<open>An \<^verbatim>\<open>IN ()\<close> over no values is never asked.\<close>

definition sqlite_view :: "env \<Rightarrow> database \<Rightarrow> namespace \<Rightarrow> read_view" where
  "sqlite_view e db n = \<lparr>rv_command = \<lambda>k. read_one (read_commands e n db (\<lambda>(i, c). i = k)),
     rv_event = \<lambda>k. read_one (read_events e n db (\<lambda>(i, ev). i = k)),
     rv_interaction = \<lambda>k. read_one (read_interactions e n db (\<lambda>(i, x). i = k)),
     rv_surface = \<lambda>k. read_one (read_surfaces e n db (\<lambda>(i, s). i = k)),
     rv_delivery = \<lambda>k. read_one (read_deliveries e n db (\<lambda>(i, d). i = k)),
     rv_hasEvent = \<lambda>k. Inr (list_ex (\<lambda>(i, ev). i = k) (scoped n (db_events db))),
     rv_hasAttempt = \<lambda>a. Inr (list_ex (\<lambda>(i, ev). ev_attemptId ev = Some a) (scoped n (db_events db))),
     rv_commandsInStates = \<lambda>tags. if tags = [] then Inr [] else read_commands e n db (\<lambda>(i, c). in_states tags c),
     rv_commandsForNativeTurn = \<lambda>ses thread run req. read_commands e n db (\<lambda>(i, c). native_turn ses thread run req c),
     rv_interactionForCallback = \<lambda>gen callback. read_one (read_interactions e n db (\<lambda>(i, x). for_callback gen callback x)),
     rv_interactionsForCommand = \<lambda>c. read_interactions e n db (\<lambda>(i, x). for_command c x),
     rv_surfacesForInteraction = \<lambda>c. read_surfaces e n db (\<lambda>(i, s). for_interaction c s),
     rv_deliveriesInStates = \<lambda>sts. if sts = [] then Inr [] else read_deliveries e n db (\<lambda>(i, d). in_statuses sts d),
     rv_hasNotSubmittedReconciliation = \<lambda>c. Inr (list_ex (\<lambda>(i, ev). not_submitted_for c ev) (scoped n (db_events db)))\<rparr>"

definition scope_failure :: failure where
  "scope_failure = fail_with Invalid_input Never"

definition read_session :: "env \<Rightarrow> database \<Rightarrow> namespace \<Rightarrow> session result" where
  "read_session e db n =
     (if \<not> schema_namespace n then Inl scope_failure
      else case jm_get (db_sessions db) n of
        None \<Rightarrow> Inl (fail_with Session_gone Never)
      | Some s \<Rightarrow> (case decode_row e (Row_session s) of
          Some f \<Rightarrow> Inl f
        | None \<Rightarrow> if ss_namespace s \<noteq> n then Inl corrupt else Inr s))"

text \<open>The active stage's generation must be on record.\<close>

definition stage_recorded :: "database \<Rightarrow> namespace \<Rightarrow> session \<Rightarrow> failure option" where
  "stage_recorded db n s = (if currentStageId s = None \<or> currentStageId s = Some [] then None
     else case activeStage s of
       Inl x \<Rightarrow> Some (exit_failure x)
     | Inr stage \<Rightarrow> fail_if (generation (stage_binding stage) \<notin> set (scoped_generations n db)) corrupt)"

definition load_state :: "env \<Rightarrow> database \<Rightarrow> namespace \<Rightarrow> workspace result" where
  "load_state e db n = and_then (read_session e db n) (\<lambda>s.
     case stage_recorded db n s of Some f \<Rightarrow> Inl f | None \<Rightarrow> Inr (content db n s))"

section \<open>Writing\<close>

definition constraint_failed :: failure where
  "constraint_failed = fail_with Unavailable Never"

definition limit_failure :: failure where
  "limit_failure = fail_with Limit_exceeded Never"

definition row_bytes :: "row \<Rightarrow> int" where
  "row_bytes row = byteLength (json_print (json_of_row row))"

text \<open>The printed row, or the failure its serialisation is reported as.\<close>

definition serialised :: "row \<Rightarrow> int result" where
  "serialised row = (case boundedJson defaultLimits (json_of_row row) of
     Inl d \<Rightarrow> Inl (exit_failure (Contract_error d)) | Inr t \<Rightarrow> Inr (byteLength t))"

definition table_size :: "('v \<Rightarrow> row) \<Rightarrow> (id, 'v) jsmap \<Rightarrow> int \<times> int" where
  "table_size as_row m = (int (length m), sum_list (map (\<lambda>(k, v). row_bytes (as_row v)) m))"

definition id_bytes :: "id list \<Rightarrow> int" where
  "id_bytes gs = sum_list (map (\<lambda>g. int (length g)) gs)"

text \<open>
  The rows a transaction writes. The overlay of the code may also hold rows it rewrote
  unchanged; writing those neither changes the tables nor the totals below.
\<close>

definition changed :: "('k, 'v) jsmap \<Rightarrow> ('k, 'v) jsmap \<Rightarrow> 'v list" where
  "changed before after = map snd (filter (\<lambda>(k, v). jm_get before k \<noteq> Some v) after)"

text \<open>Counting one table of the delta: new rows add a record, replaced ones a difference.\<close>

definition grow ::
  "('v \<Rightarrow> row) \<Rightarrow> ('v \<Rightarrow> id) \<Rightarrow> (id, 'v) jsmap \<Rightarrow> 'v list \<Rightarrow> int \<times> int \<Rightarrow> failure + int \<times> int" where
  "grow as_row key stored rows = loop_exit (\<lambda>v (count, bytes).
     and_then (serialised (as_row v)) (\<lambda>size.
       Inr (case jm_get stored (key v) of
         Some old \<Rightarrow> (count, bytes + size - row_bytes (as_row old))
       | None \<Rightarrow> (count + 1, bytes + size)))) rows"

definition new_generations :: "workspace \<Rightarrow> workspace \<Rightarrow> id list" where
  "new_generations before after = filter (\<lambda>g. g \<notin> set (ws_generations before)) (ws_generations after)"

definition new_events :: "workspace \<Rightarrow> workspace \<Rightarrow> event list" where
  "new_events before after = drop (length (ws_events before)) (ws_events after)"

definition totals :: "database \<Rightarrow> namespace \<Rightarrow> (int \<times> int) list" where
  "totals db n = [table_size Row_record (scoped n (db_commands db)), table_size Row_event (scoped n (db_events db)),
     table_size Row_interaction (scoped n (db_interactions db)), table_size Row_surface (scoped n (db_surfaces db)),
     table_size Row_delivery (scoped n (db_deliveries db)),
     (int (length (scoped_generations n db)), id_bytes (scoped_generations n db))]"

definition size_check :: "bounds \<Rightarrow> database \<Rightarrow> namespace \<Rightarrow> workspace \<Rightarrow> workspace \<Rightarrow> failure option" where
  "size_check bd db n before after =
     (case and_then (serialised (Row_session (ws_session after))) (\<lambda>head.
        let sums = totals db n in
        and_then (grow Row_record record_id (scoped n (db_commands db)) (changed (ws_commands before) (ws_commands after))
          (1 + sum_list (map fst sums), head + sum_list (map snd sums))) (\<lambda>acc.
        and_then (grow Row_event eventId (scoped n (db_events db)) (new_events before after) acc) (\<lambda>acc.
        and_then (grow Row_interaction interactionId (scoped n (db_interactions db))
          (changed (ws_interactions before) (ws_interactions after)) acc) (\<lambda>acc.
        and_then (grow Row_surface surfaceInstanceId (scoped n (db_surfaces db))
          (changed (ws_surfaces before) (ws_surfaces after)) acc) (\<lambda>acc.
        and_then (grow Row_delivery operationId (scoped n (db_deliveries db))
          (changed (ws_deliveries before) (ws_deliveries after)) acc) (\<lambda>(count, bytes).
        let gs = new_generations before after in
        if count + int (length gs) > maxSessionRecords bd \<or> bytes + id_bytes gs > maxSessionBytes bd
        then Inl limit_failure else Inr ()))))))
      of Inl f \<Rightarrow> Some f | Inr u \<Rightarrow> None)"

text \<open>One statement each, refused by the table's keys.\<close>

definition put_generation :: "namespace \<Rightarrow> id \<Rightarrow> database \<Rightarrow> failure + database" where
  "put_generation n g db = (if (n, g) \<in> set (db_generations db) then Inl constraint_failed
     else Inr (db\<lparr>db_generations := db_generations db @ [(n, g)]\<rparr>))"

definition put_command :: "namespace \<Rightarrow> command_record \<Rightarrow> database \<Rightarrow> failure + database" where
  "put_command n c db =
     (if (case dispatch c of Some d \<Rightarrow> observerGeneration d \<notin> set (scoped_generations n db) | None \<Rightarrow> False)
      then Inl constraint_failed
      else Inr (db\<lparr>db_commands := jm_set (db_commands db) (n, record_id c) c\<rparr>))"

definition put_event :: "namespace \<Rightarrow> event \<Rightarrow> database \<Rightarrow> failure + database" where
  "put_event n ev db =
     (if jm_has (db_events db) (n, eventId ev) \<or>
         list_ex (\<lambda>x. sequence x = sequence ev) (jm_values (scoped n (db_events db))) \<or>
         (case ev_commandId ev of Some c \<Rightarrow> \<not> jm_has (db_commands db) (n, c) | None \<Rightarrow> False) \<or>
         ev_generation ev \<notin> set (scoped_generations n db)
      then Inl constraint_failed
      else Inr (db\<lparr>db_events := jm_set (db_events db) (n, eventId ev) ev\<rparr>))"

definition put_interaction :: "namespace \<Rightarrow> interaction \<Rightarrow> database \<Rightarrow> failure + database" where
  "put_interaction n i db =
     (if \<not> jm_has (db_commands db) (n, ia_commandId i) \<or>
         (case responseCommandId i of Some c \<Rightarrow> \<not> jm_has (db_commands db) (n, c) | None \<Rightarrow> False) \<or>
         ia_generation i \<notin> set (scoped_generations n db) \<or>
         list_ex (\<lambda>x. interactionId x \<noteq> interactionId i \<and> for_callback (ia_generation i) (nativeCallbackId i) x)
           (jm_values (scoped n (db_interactions db)))
      then Inl constraint_failed
      else Inr (db\<lparr>db_interactions := jm_set (db_interactions db) (n, interactionId i) i\<rparr>))"

definition put_surface :: "namespace \<Rightarrow> surface_state \<Rightarrow> database \<Rightarrow> failure + database" where
  "put_surface n s db =
     (if \<not> jm_has (db_interactions db) (n, sf_interactionId s) \<or> sf_generation s \<notin> set (scoped_generations n db)
      then Inl constraint_failed
      else Inr (db\<lparr>db_surfaces := jm_set (db_surfaces db) (n, surfaceInstanceId s) s\<rparr>))"

definition put_delivery :: "namespace \<Rightarrow> delivery \<Rightarrow> database \<Rightarrow> failure + database" where
  "put_delivery n d db =
     (if \<not> jm_has (db_events db) (n, dl_eventId d) then Inl constraint_failed
      else Inr (db\<lparr>db_deliveries := jm_set (db_deliveries db) (n, operationId d) d\<rparr>))"

text \<open>
  The session row comes last, as a compare-and-set on the revision and on the generation of
  the last stage, which are generated columns of the stored session.
\<close>

definition generation_column :: "session \<Rightarrow> id option" where
  "generation_column s = (if currentStageId s = None then None
     else map_option (\<lambda>stage. generation (stage_binding stage)) (if stages s = [] then None else Some (last (stages s))))"

definition expected_generation :: "session \<Rightarrow> failure + id option" where
  "expected_generation s = (if currentStageId s = None \<or> currentStageId s = Some [] then Inr None
     else case activeStage s of
       Inl x \<Rightarrow> Inl (exit_failure x)
     | Inr stage \<Rightarrow> Inr (Some (generation (stage_binding stage))))"

definition put_session :: "namespace \<Rightarrow> session \<Rightarrow> session \<Rightarrow> database \<Rightarrow> failure + database" where
  "put_session n before after db = and_then (expected_generation before) (\<lambda>g.
     case jm_get (db_sessions db) n of
       Some s \<Rightarrow> if revision s = revision before \<and> generation_column s = g
         then Inr (db\<lparr>db_sessions := jm_set (db_sessions db) n after\<rparr>)
         else Inl (fail_with Stale_binding Never)
     | None \<Rightarrow> Inl (fail_with Stale_binding Never))"

definition save :: "bounds \<Rightarrow> workspace \<Rightarrow> workspace \<Rightarrow> database \<Rightarrow> failure + database" where
  "save bd before after db = (let n = ss_namespace (ws_session after) in
     unless_exit (first_exit [fail_if (\<not> schema_namespace n) scope_failure, size_check bd db n before after])
      (and_then (loop_exit (put_generation n) (new_generations before after) db) (\<lambda>db.
       and_then (loop_exit (put_command n) (changed (ws_commands before) (ws_commands after)) db) (\<lambda>db.
       and_then (loop_exit (put_event n) (new_events before after) db) (\<lambda>db.
       and_then (loop_exit (put_interaction n) (changed (ws_interactions before) (ws_interactions after)) db) (\<lambda>db.
       and_then (loop_exit (put_surface n) (changed (ws_surfaces before) (ws_surfaces after)) db) (\<lambda>db.
       and_then (loop_exit (put_delivery n) (changed (ws_deliveries before) (ws_deliveries after)) db) (\<lambda>db.
         put_session n (ws_session before) (ws_session after) db))))))))"

end
