(* ===== verification/Sqlite_Facts.thy ===== *)
theory Sqlite_Facts
  imports Sqlite_Tables Session_Suspension "HOL-Library.Multiset"
begin

text \<open>
  What the tables guarantee: the scoped queries answer like the workspace the session's rows
  make up (the second interpretation of \<open>session_source\<close>), and saving a delta turns those rows
  into exactly the workspace a reducer computed, leaving every other session alone.
\<close>

section \<open>Scoped rows\<close>

lemma scoped_Cons: "scoped n (((m, k), v) # t) = (if m = n then (k, v) # scoped n t else scoped n t)"
  by (simp add: scoped_def)

lemma scoped_Nil [simp]: "scoped n [] = []"
  by (simp add: scoped_def)

lemma scoped_get: "jm_get (scoped n t) k = jm_get t (n, k)"
  by (induction t) (auto simp: scoped_Cons jm_get_def split: prod.splits)

lemma scoped_has: "jm_has (scoped n t) k = jm_has t (n, k)"
  by (simp add: jm_has_def scoped_get)

lemma scoped_set: "scoped n (jm_set t (m, k) v) = (if m = n then jm_set (scoped n t) k v else scoped n t)"
  by (induction t) (auto simp: scoped_Cons jm_set_def split: prod.splits)

lemma scoped_wf: "jm_wf t \<Longrightarrow> jm_wf (scoped n t)"
proof (induction t)
  case (Cons x t)
  obtain m k v where x: "x = ((m, k), v)" by (metis surj_pair)
  have "jm_get t (m, k) = None" and wf: "jm_wf t"
    using Cons.prems by (auto simp: x jm_wf_def jm_get_def map_of_eq_None_iff)
  then have "jm_get (scoped m t) k = None" by (simp add: scoped_get)
  then show ?case
    using Cons.IH [OF wf] by (auto simp: x scoped_Cons jm_wf_def jm_get_def map_of_eq_None_iff)
qed simp

section \<open>The store as a transaction source\<close>

text \<open>The rows of a session are sound when each decodes and is filed under its own key.\<close>

definition sound_rows :: "env \<Rightarrow> ('v \<Rightarrow> row) \<Rightarrow> ('v \<Rightarrow> id) \<Rightarrow> ('v \<Rightarrow> namespace) \<Rightarrow> namespace \<Rightarrow> 'v table \<Rightarrow> bool" where
  "sound_rows e as_row key ns n t \<longleftrightarrow> jm_wf (scoped n t) \<and>
     list_all (\<lambda>kv. check_row e as_row key ns n kv = None) (scoped n t)"

definition sound_session :: "env \<times> database \<times> namespace \<times> session \<Rightarrow> bool" where
  "sound_session s = (case s of (e, db, n, ses) \<Rightarrow>
     sound_rows e Row_record record_id (\<lambda>c. rc_namespace (cr_receipt c)) n (db_commands db) \<and>
     sound_rows e Row_event eventId ev_namespace n (db_events db) \<and>
     sound_rows e Row_interaction interactionId ia_namespace n (db_interactions db) \<and>
     sound_rows e Row_surface surfaceInstanceId sf_namespace n (db_surfaces db) \<and>
     sound_rows e Row_delivery operationId dl_namespace n (db_deliveries db))"

lemma sound_keyed: "sound_rows e as_row key ns n t \<Longrightarrow> keyed key (scoped n t)"
  by (auto simp: sound_rows_def keyed_def check_row_def list_all_iff)

lemma read_sound:
  assumes "sound_rows e as_row key ns n t"
  shows "read_rows e as_row key ns n t P = Inr (map snd (filter P (scoped n t)))"
proof -
  have "first_exit (map (check_row e as_row key ns n) (filter P (scoped n t))) = None"
    using assms by (auto simp: first_exit_None sound_rows_def list_all_iff)
  then show ?thesis by (simp only: read_rows_def Let_def option.case)
qed

lemma read_key:
  assumes "sound_rows e as_row key ns n t"
  shows "read_one (read_rows e as_row key ns n t (\<lambda>(i, v). i = k)) = Inr (jm_get (scoped n t) k)"
proof -
  have "(case map snd (filter (\<lambda>(i, v). i = k) m) of [] \<Rightarrow> None | v # x \<Rightarrow> Some v) = jm_get m k"
    for m :: "(id \<times> 'a) list"
    by (induction m) (auto simp: jm_get_def)
  then show ?thesis by (simp add: read_sound [OF assms] read_one_def)
qed

lemma filter_snd: "map snd (filter (\<lambda>(i, v). P v) m) = filter P (jm_values m)"
  by (induction m) (auto simp: jm_values_def)

lemma read_lists:
  assumes "sound_rows e as_row key ns n t"
  shows "lists_rows key P (scoped n t) (read_rows e as_row key ns n t (\<lambda>(i, v). P v))"
  using lists_filter [OF sound_keyed [OF assms]] by (simp add: read_sound [OF assms] filter_snd)

lemma find_SomeD: "find P xs = Some x \<Longrightarrow> x \<in> set xs \<and> P x"
  by (induction xs) (auto split: if_splits)

lemma find_keyed_permuted:
  assumes "keyed key m" "set xs = set (jm_values m)"
  shows "find (\<lambda>v. key v = k) xs = jm_get m k"
proof (cases "find (\<lambda>v. key v = k) xs")
  case None
  then have "\<forall>v \<in> set (jm_values m). key v \<noteq> k" by (auto simp: find_None_iff assms(2) [symmetric])
  then have "jm_get m k = None"
    using keyed_get [OF assms(1)] jm_values_get by (metis not_Some_eq)
  with None show ?thesis by simp
next
  case (Some v)
  then have "v \<in> set (jm_values m)" "key v = k" using find_SomeD [OF Some] assms(2) by auto
  then show ?thesis using keyed_values_iff [OF assms(1)] Some by simp
qed

lemma find_event_key:
  assumes "sound_rows e Row_event eventId ev_namespace n t"
  shows "find (\<lambda>ev. eventId ev = k) (sort_key sequence (jm_values (scoped n t))) = jm_get (scoped n t) k"
  by (rule find_keyed_permuted [OF sound_keyed [OF assms]]) simp

lemma has_key: "list_ex (\<lambda>(i, v). i = k) m = jm_has m k"
  by (induction m) (auto simp: jm_has_def jm_get_def)

lemma stored_event_has:
  assumes "sound_rows e Row_event eventId ev_namespace n t"
  shows "list_ex (\<lambda>(i, ev). i = k) (scoped n t) = list_ex (\<lambda>ev. eventId ev = k) (jm_values (scoped n t))"
proof -
  have "jm_has (scoped n t) k \<longleftrightarrow> find (\<lambda>ev. eventId ev = k) (jm_values (scoped n t)) \<noteq> None"
    by (simp add: find_keyed_permuted [OF sound_keyed [OF assms] refl] jm_has_def)
  also have "\<dots> \<longleftrightarrow> (\<exists>v \<in> set (jm_values (scoped n t)). eventId v = k)"
    by (simp only: find_None_iff not_not) blast
  finally have "jm_has (scoped n t) k \<longleftrightarrow> (\<exists>v \<in> set (jm_values (scoped n t)). eventId v = k)" .
  then show ?thesis unfolding has_key by (simp only: list_ex_iff)
qed

lemma stored_event_ex: "list_ex (\<lambda>(i, ev). P ev) m = list_ex P (sort_key f (jm_values m))"
  by (force simp: list_ex_iff jm_values_def)

lemma lists_none: "lists_rows key (\<lambda>v. False) m (Inr [])"
  by (simp add: lists_rows_def)

lemmas view_eval = sqlite_view_def content_def read_key read_lists stored_event_ex stored_event_has

interpretation sqlite_source: session_source sound_session
  "\<lambda>(e, db, n, ses). content db n ses" "\<lambda>(e, db, n, ses). sqlite_view e db n"
proof (unfold_locales, goal_cases)
  case (1 s)
  then show ?case by (cases s) (auto simp: sound_session_def content_def ws_keyed_def intro: sound_keyed)
next
  case (2 s k)
  then show ?case by (cases s) (simp add: sound_session_def view_eval)
next
  case (3 s k)
  then show ?case by (cases s) (simp add: sound_session_def view_eval)
next
  case (4 s k)
  then show ?case by (cases s) (simp add: sound_session_def view_eval)
next
  case (5 s k)
  then show ?case by (cases s) (simp add: sound_session_def view_eval)
next
  case (6 s tags)
  then show ?case
    by (cases s; cases "tags = []") (simp_all add: sound_session_def view_eval in_states_def [abs_def] lists_none)
next
  case (7 s)
  then show ?case by (cases s) (simp add: sound_session_def view_eval)
next
  case (8 s c)
  then show ?case by (cases s) (simp add: sound_session_def view_eval)
next
  case (9 s i)
  then show ?case by (cases s) (simp add: sound_session_def view_eval)
next
  case (10 s sts)
  then show ?case
    by (cases s; cases "sts = []") (simp_all add: sound_session_def view_eval in_statuses_def [abs_def] lists_none)
next
  case (11 s k)
  then show ?case
    by (cases s) (simp add: sound_session_def view_eval find_event_def, rule find_event_key [symmetric], blast)
next
  case (12 s k)
  then show ?case
    by (cases s) (auto simp: sound_session_def sqlite_view_def content_def hasEvent_def list_ex_iff dest!: stored_event_has)
next
  case (13 s a)
  then show ?case by (cases s) (simp add: view_eval hasAttempt_def)
next
  case (14 s k)
  then show ?case by (cases s) (simp add: view_eval hasNotSubmittedReconciliation_def)
qed

section \<open>Writing back what changed\<close>

text \<open>A table a reducer grew: old keys in place, new keys at the end.\<close>

definition extends :: "('k, 'v) jsmap \<Rightarrow> ('k, 'v) jsmap \<Rightarrow> bool" where
  "extends m m' \<longleftrightarrow> (\<exists>ks. map fst m' = map fst m @ ks)"

lemma extends_refl [simp]: "extends m m"
  by (simp add: extends_def)

lemma extends_trans: "extends l m \<Longrightarrow> extends m n \<Longrightarrow> extends l n"
  by (auto simp: extends_def)

lemma keys_set: "map fst (jm_set m k v) = (if jm_has m k then map fst m else map fst m @ [k])"
  using jm_set_present [of m k _ v] jm_set_absent [of m k v] by (auto simp: jm_has_get jm_keys_def jm_has_def)

lemma extends_set: "extends m (jm_set m k v)"
  by (simp add: extends_def keys_set)

lemma extends_upsert: "extends m (upsert key xs m)"
proof (induction xs rule: rev_induct)
  case (snoc x xs)
  then show ?case by (auto intro: extends_trans extends_set)
qed simp

lemma extends_sweep: "extends m (sweep g m)"
  by (simp add: extends_def sweep_def comp_def case_prod_beta)

lemma keys_upsert:
  "distinct (map key xs) \<Longrightarrow>
   map fst (upsert key xs m) = map fst m @ filter (\<lambda>k. \<not> jm_has m k) (map key xs)"
proof (induction xs arbitrary: m)
  case (Cons x xs)
  have "filter (\<lambda>k. \<not> (k = key x \<or> jm_has m k)) (map key xs) = filter (\<lambda>k. \<not> jm_has m k) (map key xs)"
    using Cons.prems by (intro filter_cong) (auto simp: image_iff)
  then show ?case
    using Cons.IH [of "jm_set m (key x) x"] Cons.prems by (simp add: upsert_Cons keys_set)
qed simp

lemma jm_eqI:
  assumes "map fst m = map fst m'" "jm_wf m" "\<And>k. jm_get m k = jm_get m' k"
  shows "m = m'"
  using assms
proof (induction m arbitrary: m')
  case (Cons x m)
  obtain k v where x: "x = (k, v)" by (cases x)
  obtain v' n where m': "m' = (k, v') # n" and keys: "map fst m = map fst n"
    using Cons.prems(1) by (cases m') (auto simp: x)
  have fresh: "k \<notin> set (map fst m)" "k \<notin> set (map fst n)" and wf: "jm_wf m"
    using Cons.prems(2) keys by (auto simp: x jm_wf_def)
  have "v' = v" using Cons.prems(3) [of k] by (simp add: x m' jm_get_def)
  moreover have "jm_get m j = jm_get n j" for j
    using Cons.prems(3) [of j] fresh map_of_eq_None_iff [of m k] map_of_eq_None_iff [of n k]
    by (cases "j = k") (auto simp: x m' jm_get_def)
  ultimately show ?case using Cons.IH [OF keys wf] by (simp add: x m')
qed simp

lemma upsert_wf: "jm_wf m \<Longrightarrow> jm_wf (upsert key xs m)"
  by (induction xs arbitrary: m) (auto simp: upsert_Cons)

text \<open>Upserting the changed rows over the old table gives the new one, row for row.\<close>

lemma upsert_changed:
  assumes ext: "extends before after" and kb: "jm_wf before" and ka: "keyed key after"
  shows "upsert key (changed before after) before = after"
proof (rule jm_eqI)
  let ?diff = "filter (\<lambda>(k, v). jm_get before k \<noteq> Some v) after"
  have wf: "jm_wf after" using ka by (simp add: keyed_def)
  have keys: "map key (changed before after) = map fst ?diff"
    using ka by (auto simp: changed_def keyed_def)
  have dist: "distinct (map key (changed before after))"
    unfolding keys using wf by (auto simp: jm_wf_def distinct_map_filter)
  obtain ks where ks: "map fst after = map fst before @ ks" using ext by (auto simp: extends_def)
  have "filter (\<lambda>k. \<not> jm_has before k) (map fst ?diff) = filter (\<lambda>k. \<not> jm_has before k) (map fst after)"
    by (induction after) (auto simp: jm_has_def)
  also have "\<dots> = ks"
  proof -
    have "k \<notin> set (map fst before)" if "k \<in> set ks" for k
      using wf ks that by (auto simp: jm_wf_def)
    then have "filter (\<lambda>k. \<not> jm_has before k) ks = ks"
      by (auto intro!: filter_True simp: jm_has_def jm_get_def map_of_eq_None_iff)
    moreover have "filter (\<lambda>k. \<not> jm_has before k) (map fst before) = []"
      by (auto simp: filter_empty_conv jm_has_def jm_get_def map_of_eq_None_iff)
    ultimately show ?thesis by (simp add: ks)
  qed
  finally show "map fst (upsert key (changed before after) before) = map fst after"
    using keys_upsert [OF dist, of before] keys ks by simp
  show "jm_wf (upsert key (changed before after) before)"
    by (rule upsert_wf [OF kb])
  fix k
  show "jm_get (upsert key (changed before after) before) k = jm_get after k"
  proof (cases "k \<in> key ` set (changed before after)")
    case True
    then obtain v where v: "v \<in> set (changed before after)" "key v = k" by auto
    then have "jm_get after k = Some v"
      using ka by (auto simp: changed_def keyed_def jm_mem_get [OF wf, symmetric])
    then show ?thesis using upsert_get [OF dist v(1), of before] v(2) by simp
  next
    case False
    then have same: "jm_get after k = Some v \<Longrightarrow> jm_get before k = Some v" for v
      using ka jm_get_mem [of after k v] by (force simp: changed_def keyed_def)
    moreover have "jm_get before k \<noteq> None \<Longrightarrow> jm_get after k \<noteq> None"
      using arg_cong [OF ks, of set] unfolding jm_get_def map_of_eq_None_iff by auto
    ultimately have "jm_get before k = jm_get after k" by (metis not_None_eq)
    then show ?thesis by (simp add: upsert_other [OF False])
  qed
qed

section \<open>The effect of a save\<close>

definition table_put :: "('v \<Rightarrow> id) \<Rightarrow> namespace \<Rightarrow> 'v list \<Rightarrow> 'v table \<Rightarrow> 'v table" where
  "table_put key n xs t = fold (\<lambda>x t. jm_set t (n, key x) x) xs t"

lemma table_put_simps [simp]:
  "table_put key n [] t = t" "table_put key n (x # xs) t = table_put key n xs (jm_set t (n, key x) x)"
  by (simp_all add: table_put_def)

lemma scoped_put:
  "scoped m (table_put key n xs t) = (if m = n then upsert key xs (scoped n t) else scoped m t)"
  by (induction xs arbitrary: t) (auto simp: scoped_set upsert_Cons)

text \<open>A loop whose body, when it succeeds, is a known update is the fold of that update.\<close>

lemma loop_exit_fold:
  assumes "loop_exit f xs s = Inr s'" "\<And>x s s'. f x s = Inr s' \<Longrightarrow> s' = g x s"
  shows "s' = fold g xs s"
  using assms(1) by (induction xs arbitrary: s) (auto dest: assms(2) split: sum.splits)

lemma put_commands: "loop_exit (put_command n) xs db = Inr db' \<Longrightarrow>
    db' = db\<lparr>db_commands := table_put record_id n xs (db_commands db)\<rparr>"
proof (induction xs arbitrary: db)
  case (Cons x xs)
  then show ?case by (force simp: put_command_def split: sum.splits if_splits)
qed simp

lemma put_interactions: "loop_exit (put_interaction n) xs db = Inr db' \<Longrightarrow>
    db' = db\<lparr>db_interactions := table_put interactionId n xs (db_interactions db)\<rparr>"
proof (induction xs arbitrary: db)
  case (Cons x xs)
  then show ?case by (force simp: put_interaction_def split: sum.splits if_splits)
qed simp

lemma put_surfaces: "loop_exit (put_surface n) xs db = Inr db' \<Longrightarrow>
    db' = db\<lparr>db_surfaces := table_put surfaceInstanceId n xs (db_surfaces db)\<rparr>"
proof (induction xs arbitrary: db)
  case (Cons x xs)
  then show ?case by (force simp: put_surface_def split: sum.splits if_splits)
qed simp

lemma put_deliveries: "loop_exit (put_delivery n) xs db = Inr db' \<Longrightarrow>
    db' = db\<lparr>db_deliveries := table_put operationId n xs (db_deliveries db)\<rparr>"
proof (induction xs arbitrary: db)
  case (Cons x xs)
  then show ?case by (force simp: put_delivery_def split: sum.splits if_splits)
qed simp

lemma put_generations: "loop_exit (put_generation n) xs db = Inr db' \<Longrightarrow>
    db' = db\<lparr>db_generations := db_generations db @ map (Pair n) xs\<rparr>"
proof (induction xs arbitrary: db)
  case (Cons x xs)
  then show ?case by (force simp: put_generation_def split: sum.splits if_splits)
qed simp

lemma put_events: "loop_exit (put_event n) xs db = Inr db' \<Longrightarrow>
    db' = db\<lparr>db_events := db_events db @ map (\<lambda>ev. ((n, eventId ev), ev)) xs\<rparr>"
proof (induction xs arbitrary: db)
  case (Cons x xs)
  then obtain mid where mid: "put_event n x db = Inr mid" "loop_exit (put_event n) xs mid = Inr db'"
    by (auto split: sum.splits)
  have "mid = db\<lparr>db_events := db_events db @ [((n, eventId x), x)]\<rparr>"
    using mid(1) by (auto simp: put_event_def jm_set_absent jm_has_def split: if_splits)
  then show ?case using Cons.IH [OF mid(2)] by simp
qed simp

lemma save_effect:
  assumes "save bd before after db = Inr db'" "n = ss_namespace (ws_session after)"
  shows "db' = db\<lparr>db_sessions := jm_set (db_sessions db) n (ws_session after),
    db_generations := db_generations db @ map (Pair n) (new_generations before after),
    db_commands := table_put record_id n (changed (ws_commands before) (ws_commands after)) (db_commands db),
    db_events := db_events db @ map (\<lambda>ev. ((n, eventId ev), ev)) (new_events before after),
    db_interactions := table_put interactionId n (changed (ws_interactions before) (ws_interactions after)) (db_interactions db),
    db_surfaces := table_put surfaceInstanceId n (changed (ws_surfaces before) (ws_surfaces after)) (db_surfaces db),
    db_deliveries := table_put operationId n (changed (ws_deliveries before) (ws_deliveries after)) (db_deliveries db)\<rparr>"
    and "\<exists>s. jm_get (db_sessions db) n = Some s \<and> revision s = revision (ws_session before)"
    and "schema_namespace n"
proof -
  obtain d1 d2 d3 d4 d5 d6 where d: "loop_exit (put_generation n) (new_generations before after) db = Inr d1"
    "loop_exit (put_command n) (changed (ws_commands before) (ws_commands after)) d1 = Inr d2"
    "loop_exit (put_event n) (new_events before after) d2 = Inr d3"
    "loop_exit (put_interaction n) (changed (ws_interactions before) (ws_interactions after)) d3 = Inr d4"
    "loop_exit (put_surface n) (changed (ws_surfaces before) (ws_surfaces after)) d4 = Inr d5"
    "loop_exit (put_delivery n) (changed (ws_deliveries before) (ws_deliveries after)) d5 = Inr d6"
    "put_session n (ws_session before) (ws_session after) d6 = Inr db'" "schema_namespace n"
    using assms by (auto simp: save_def Let_def)
  have d6: "d6 = db\<lparr>db_generations := db_generations db @ map (Pair n) (new_generations before after),
    db_commands := table_put record_id n (changed (ws_commands before) (ws_commands after)) (db_commands db),
    db_events := db_events db @ map (\<lambda>ev. ((n, eventId ev), ev)) (new_events before after),
    db_interactions := table_put interactionId n (changed (ws_interactions before) (ws_interactions after)) (db_interactions db),
    db_surfaces := table_put surfaceInstanceId n (changed (ws_surfaces before) (ws_surfaces after)) (db_surfaces db),
    db_deliveries := table_put operationId n (changed (ws_deliveries before) (ws_deliveries after)) (db_deliveries db)\<rparr>"
    using put_generations [OF d(1)] put_commands [OF d(2)] put_events [OF d(3)] put_interactions [OF d(4)]
      put_surfaces [OF d(5)] put_deliveries [OF d(6)] by simp
  obtain s where s: "jm_get (db_sessions d6) n = Some s" "revision s = revision (ws_session before)"
    "db' = d6\<lparr>db_sessions := jm_set (db_sessions d6) n (ws_session after)\<rparr>"
    using d(7) by (auto simp: put_session_def split: option.splits if_splits)
  show "db' = db\<lparr>db_sessions := jm_set (db_sessions db) n (ws_session after),
    db_generations := db_generations db @ map (Pair n) (new_generations before after),
    db_commands := table_put record_id n (changed (ws_commands before) (ws_commands after)) (db_commands db),
    db_events := db_events db @ map (\<lambda>ev. ((n, eventId ev), ev)) (new_events before after),
    db_interactions := table_put interactionId n (changed (ws_interactions before) (ws_interactions after)) (db_interactions db),
    db_surfaces := table_put surfaceInstanceId n (changed (ws_surfaces before) (ws_surfaces after)) (db_surfaces db),
    db_deliveries := table_put operationId n (changed (ws_deliveries before) (ws_deliveries after)) (db_deliveries db)\<rparr>"
    using s(3) by (simp add: d6)
  show "\<exists>s. jm_get (db_sessions db) n = Some s \<and> revision s = revision (ws_session before)"
    using s(1,2) by (simp add: d6)
  show "schema_namespace n" by (rule d(8))
qed

text \<open>The event table stays keyed: an event is only ever inserted under a free key.\<close>

lemma save_events_wf:
  assumes "save bd before after db = Inr db'" "jm_wf (db_events db)"
  shows "jm_wf (db_events db')"
proof -
  let ?n = "ss_namespace (ws_session after)"
  obtain d1 d2 d3 where d: "loop_exit (put_generation ?n) (new_generations before after) db = Inr d1"
    "loop_exit (put_command ?n) (changed (ws_commands before) (ws_commands after)) d1 = Inr d2"
    "loop_exit (put_event ?n) (new_events before after) d2 = Inr d3"
    using assms(1) by (auto simp: save_def Let_def)
  have ev: "db_events d2 = db_events db"
    using put_generations [OF d(1)] put_commands [OF d(2)] by simp
  have "jm_wf (db_events d3)"
    by (rule loop_exit_invariant [OF d(3), of "\<lambda>past t. jm_wf (db_events t)"])
       (auto simp: ev assms(2) put_event_def split: if_splits)
  moreover have "db_events d3 = db_events db @ map (\<lambda>ev. ((?n, eventId ev), ev)) (new_events before after)"
    using put_events [OF d(3)] ev by simp
  ultimately show ?thesis using save_effect(1) [OF assms(1) refl] by simp
qed

section \<open>Saving a reducer's result\<close>

text \<open>What every reducer does to the workspace it is given, table by table.\<close>

definition grows :: "workspace \<Rightarrow> workspace \<Rightarrow> bool" where
  "grows w w' \<longleftrightarrow> extends (ws_commands w) (ws_commands w') \<and> extends (ws_interactions w) (ws_interactions w') \<and>
     extends (ws_surfaces w) (ws_surfaces w') \<and> extends (ws_deliveries w) (ws_deliveries w') \<and>
     (\<exists>es. ws_events w' = ws_events w @ es) \<and>
     ws_generations w' = ws_generations w @ new_generations w w' \<and>
     ss_namespace (ws_session w') = ss_namespace (ws_session w)"

lemma stable_sort_append:
  assumes "sorted (map f (sort_key f xs @ ys))"
  shows "sort_key f (xs @ ys) = sort_key f xs @ ys"
proof (rule properties_for_sort_key)
  show "mset (sort_key f xs @ ys) = mset (xs @ ys)" by simp
  show "filter (\<lambda>x. f k = f x) (sort_key f xs @ ys) = filter (\<lambda>x. f k = f x) (xs @ ys)" if "k \<in> set (sort_key f xs @ ys)" for k
    using sort_key_stable [of f "f k" xs] by (simp add: eq_commute [of "f k"])
  show "sorted (map f (sort_key f xs @ ys))" by (rule assms)
qed

lemma scoped_append: "scoped m (t @ u) = scoped m t @ scoped m u"
  by (simp add: scoped_def)

lemma scoped_rows_of: "scoped m (map (\<lambda>v. ((n, key v), v)) xs) = (if m = n then map (\<lambda>v. (key v, v)) xs else [])"
  by (induction xs) (auto simp: scoped_Cons)

text \<open>
  The refinement at the heart of the store: after a save the rows of the session are, row for
  row, the workspace the reducer returned; the rows of every other session are untouched.
\<close>

lemma save_content:
  assumes save: "save bd (content db n s) after db = Inr db'" and n: "ss_namespace (ws_session after) = n"
    and grown: "grows (content db n s) after" and keyed: "ws_keyed after" "ws_keyed (content db n s)"
    and order: "sorted (map sequence (ws_events after))"
  shows "content db' n (ws_session after) = after"
    and "db_sessions db' = jm_set (db_sessions db) n (ws_session after)"
    and "m \<noteq> n \<Longrightarrow> content db' m s' = content db m s'"
    and "db_tombstones db' = db_tombstones db" "db_connections db' = db_connections db" "db_preferences db' = db_preferences db"
    "db_launches db' = db_launches db"
proof -
  let ?before = "content db n s"
  note eff = save_effect(1) [OF save n [symmetric]]
  have before: "ws_commands ?before = scoped n (db_commands db)" "ws_interactions ?before = scoped n (db_interactions db)"
    "ws_surfaces ?before = scoped n (db_surfaces db)" "ws_deliveries ?before = scoped n (db_deliveries db)"
    "ws_events ?before = sort_key sequence (jm_values (scoped n (db_events db)))"
    "ws_generations ?before = scoped_generations n db"
    by (simp_all add: content_def)
  have up: "upsert record_id (changed (ws_commands ?before) (ws_commands after)) (scoped n (db_commands db)) = ws_commands after"
    "upsert interactionId (changed (ws_interactions ?before) (ws_interactions after)) (scoped n (db_interactions db)) = ws_interactions after"
    "upsert surfaceInstanceId (changed (ws_surfaces ?before) (ws_surfaces after)) (scoped n (db_surfaces db)) = ws_surfaces after"
    "upsert operationId (changed (ws_deliveries ?before) (ws_deliveries after)) (scoped n (db_deliveries db)) = ws_deliveries after"
    using upsert_changed [of "ws_commands ?before" "ws_commands after" record_id]
      upsert_changed [of "ws_interactions ?before" "ws_interactions after" interactionId]
      upsert_changed [of "ws_surfaces ?before" "ws_surfaces after" surfaceInstanceId]
      upsert_changed [of "ws_deliveries ?before" "ws_deliveries after" operationId]
      grown keyed by (simp_all add: grows_def ws_keyed_def keyed_def before)
  obtain es where es: "ws_events after = ws_events ?before @ es" using grown by (auto simp: grows_def)
  have new: "new_events ?before after = es" by (simp add: new_events_def es)
  have "sort_key sequence (jm_values (scoped n (db_events db)) @ es) = ws_events after"
    using stable_sort_append [of sequence "jm_values (scoped n (db_events db))" es] order es by (simp add: before)
  then have events: "sort_key sequence (jm_values (scoped n (db_events db'))) = ws_events after"
    by (simp add: eff new scoped_append scoped_rows_of jm_values_def comp_def)
  have gens: "scoped_generations n db' = ws_generations after"
    using grown by (simp add: eff grows_def before scoped_generations_def filter_empty_conv comp_def)
  show "content db' n (ws_session after) = after"
    using up events gens by (simp add: content_def eff scoped_put)
  show "db_sessions db' = jm_set (db_sessions db) n (ws_session after)" "db_tombstones db' = db_tombstones db"
    "db_connections db' = db_connections db" "db_preferences db' = db_preferences db"
    "db_launches db' = db_launches db"
    by (simp_all add: eff)
  assume m: "m \<noteq> n"
  then have "scoped_generations m db' = scoped_generations m db"
    by (auto simp: eff scoped_generations_def filter_empty_conv)
  then show "content db' m s' = content db m s'"
    using m by (simp add: content_def eff scoped_put scoped_append scoped_rows_of)
qed

end
