(* ===== verification/Session_Growth.thy ===== *)
theory Session_Growth
  imports Sqlite_Facts
begin

text \<open>
  Every transition grows its workspace: rows keep their place, new rows, events and
  generations come at the end. This is what makes writing back the difference exact.
\<close>

lemma grows_refl: "grows w w"
  by (simp add: grows_def new_generations_def)

lemma new_generations_trans:
  assumes "ws_generations b = ws_generations a @ new_generations a b" "ws_generations c = ws_generations b @ new_generations b c"
  shows "ws_generations c = ws_generations a @ new_generations a c"
proof -
  have "filter (\<lambda>g. g \<notin> set (ws_generations a)) (new_generations a b) = new_generations a b"
    by (simp add: new_generations_def)
  moreover have "filter (\<lambda>g. g \<notin> set (ws_generations a)) (new_generations b c) = new_generations b c"
  proof -
    have "set (ws_generations a) \<subseteq> set (ws_generations b)" by (subst assms(1)) auto
    then show ?thesis by (auto simp: new_generations_def intro!: filter_cong)
  qed
  moreover have "filter (\<lambda>g. g \<notin> set (ws_generations a)) (ws_generations a) = []"
    by (simp add: filter_empty_conv)
  ultimately have "new_generations a c = new_generations a b @ new_generations b c"
    using assms by (simp add: new_generations_def [of a c])
  then show ?thesis using assms by simp
qed

lemma grows_trans: "grows a b \<Longrightarrow> grows b c \<Longrightarrow> grows a c"
  using new_generations_trans [of b a c] by (auto simp: grows_def intro: extends_trans)

lemma add_generation_new:
  assumes "ws_generations w' = add_generation g (ws_generations w)"
  shows "ws_generations w' = ws_generations w @ new_generations w w'"
  using assms by (auto simp: add_generation_def new_generations_def filter_empty_conv)

lemma same_generations:
  "ws_generations w' = ws_generations w \<Longrightarrow> ws_generations w' = ws_generations w @ new_generations w w'"
  by (simp add: new_generations_def)

text \<open>Growth from a well-formed workspace.\<close>

definition grows_ok :: "workspace \<Rightarrow> workspace \<Rightarrow> bool" where
  "grows_ok w w' \<longleftrightarrow> (ws_inv w \<longrightarrow> grows w w')"

lemma grows_ok_refl [simp]: "grows_ok w w"
  by (simp add: grows_ok_def grows_refl)

lemma grows_ok_trans: "preserves a b \<Longrightarrow> grows_ok a b \<Longrightarrow> grows_ok b c \<Longrightarrow> grows_ok a c"
  by (auto simp: grows_ok_def preserves_def intro: grows_trans)

lemma grows_okI:
  assumes "preserves w w'"
    and "ws_inv w \<Longrightarrow> extends (ws_commands w) (ws_commands w') \<and> extends (ws_interactions w) (ws_interactions w') \<and>
      extends (ws_surfaces w) (ws_surfaces w') \<and> extends (ws_deliveries w) (ws_deliveries w') \<and>
      ws_generations w' = ws_generations w @ new_generations w w'"
  shows "grows_ok w w'"
  using assms by (auto simp: grows_ok_def grows_def preserves_def ws_succeeds_def)

lemma head_grows:
  assumes "preserves w w'" "w' = w\<lparr>ws_session := s, ws_events := es\<rparr>"
  shows "grows_ok w w'"
  by (rule grows_okI [OF assms(1)]) (simp add: assms(2) new_generations_def)

lemma commit_grows:
  assumes "reduceCommit e lim st b accepting suspending = Inr st'"
  shows "grows_ok st st'"
proof (rule grows_okI [OF commit_ok [OF assms]])
  have "st' = applied st b" by (rule reduceCommit_applied [OF assms])
  then show "extends (ws_commands st) (ws_commands st') \<and> extends (ws_interactions st) (ws_interactions st') \<and>
      extends (ws_surfaces st) (ws_surfaces st') \<and> extends (ws_deliveries st) (ws_deliveries st') \<and>
      ws_generations st' = ws_generations st @ new_generations st st'"
    by (simp add: applied_def extends_upsert new_generations_def)
qed

lemma acceptance_grows:
  assumes "reduceAcceptance e lim st inp suspending = Inr (st', r)"
  shows "grows_ok st st'"
  using assms by (cases rule: acceptance_cases) (auto intro: commit_grows)

lemma handoff_grows:
  assumes "reduceHandoff e lim st inp restored = Inr st'"
  shows "grows_ok st st'"
proof (rule grows_okI [OF handoff_ok [OF assms]])
  assume "ws_inv st"
  then have "ws_keyed st" by (simp add: ws_inv_def)
  from reduceHandoff_effect [OF assms this]
  obtain g s events where st': "st' = (swept g st)\<lparr>ws_session := s, ws_events := ws_events st @ events,
       ws_generations := add_generation g (ws_generations st)\<rparr>"
    by blast
  then show "extends (ws_commands st) (ws_commands st') \<and> extends (ws_interactions st) (ws_interactions st') \<and>
      extends (ws_surfaces st) (ws_surfaces st') \<and> extends (ws_deliveries st) (ws_deliveries st') \<and>
      ws_generations st' = ws_generations st @ new_generations st st'"
    using add_generation_new [of st' g st] by (simp add: swept_def extends_sweep)
qed

lemma suspend_target_grows:
  assumes "suspend_target e lim inp gen tgt nxt = Inr nxt'"
  shows "grows_ok nxt nxt'"
  using assms
  by (auto simp: suspend_target_def Let_def split: if_splits option.splits
      intro: grows_ok_trans [OF acceptance_ok acceptance_grows commit_grows])

lemma suspension_grows:
  assumes run: "reduceSuspension e lim st inp = Inr st'"
  shows "grows_ok st st'"
proof (cases "st' = st")
  case False
  then obtain gen nxt where loop: "loop_exit (suspend_target e lim inp gen) (commandsInStates st [T_accepted]) st = Inr nxt"
    and rest: "st' = nxt \<or> (\<exists>r. reduceHandoff e lim nxt r None = Inr st')"
    using run by (auto simp: reduceSuspension_def Let_def split: if_splits)
  have "preserves st nxt \<and> grows_ok st nxt"
    by (rule loop_exit_invariant [OF loop, of "\<lambda>past w. preserves st w \<and> grows_ok st w"])
       (auto intro: preserves_trans suspend_target_ok grows_ok_trans suspend_target_grows)
  then show ?thesis using rest by (auto intro: grows_ok_trans handoff_grows)
qed simp

lemma step_grows: "session_step st st' \<Longrightarrow> grows_ok st st'"
proof (induction rule: session_step.induct)
  case (Accept e lim st inp st' r)
  then show ?case by (auto simp: step_entry_defs intro: acceptance_grows)
next
  case (Commit e lim st b st')
  then show ?case by (auto simp: step_entry_defs intro: commit_grows)
next
  case (Rebind e lim st ri restored st')
  then show ?case by (auto simp: step_entry_defs intro: handoff_grows)
next
  case (Recover e lim st ri st')
  then show ?case by (auto simp: step_entry_defs intro: handoff_grows)
next
  case (Retire e lim st revn gen st')
  then have "st' = st\<lparr>ws_session := ws_session st', ws_events := ws_events st'\<rparr>"
    by (auto simp: step_entry_defs reduceRetirement_def Let_def split: option.splits)
  then show ?case by (rule head_grows [OF step_ok [OF session_step.Retire [OF Retire]]])
next
  case (Suspend e lim st si st')
  then show ?case by (auto simp: step_entry_defs intro: suspension_grows)
next
  case (Select st connection revn fresh st')
  then have "st' = st\<lparr>ws_session := ws_session st', ws_events := ws_events st'\<rparr>"
    by (auto simp: selectConnection_def split: if_splits)
  then show ?case by (rule head_grows [OF step_ok [OF session_step.Select [OF Select]]])
next
  case (Activate e st xi st')
  have "grows_ok st st'" if g: "ws_generations st' = add_generation g (ws_generations st)"
      "ws_interactions st' = withdraw_interactions (ws_interactions st)"
      "ws_surfaces st' = withdraw_surfaces (ws_surfaces st)" "ws_commands st' = ws_commands st"
      "ws_deliveries st' = ws_deliveries st" for g
    using add_generation_new [OF g(1)]
    by (intro grows_okI [OF step_ok [OF session_step.Activate [OF Activate]]])
       (simp add: g(2-5) withdraw_interactions_def withdraw_surfaces_def extends_upsert)
  note grown = this
  from Activate show ?case by (rule activation_run) (rule grown, simp_all)
qed

end
