(* ===== verification/Sqlite_Store.thy ===== *)
theory Sqlite_Store
  imports Session_Growth "HOL-Library.List_Lexorder" "HOL-Library.Char_ord"
begin

text \<open>
  The operations of the durable store (\<^verbatim>\<open>SqliteSessionStore\<close>): a transaction around each
  reducer, the ownership of generations by this process, pruning with tombstones, and the
  scoped reads. What the store holds is always what the session transitions can reach.
\<close>

section \<open>Store, query, transaction\<close>

record store =
  st_db :: database
  st_owned :: "(string, id) jsmap"
  st_closing :: bool
  st_closed :: bool

definition unavailable :: failure where
  "unavailable = fail_with Unavailable Never"

definition query :: "store \<Rightarrow> 'a result \<Rightarrow> 'a result" where
  "query st r = (if st_closing st \<or> st_closed st then Inl unavailable else r)"

text \<open>\<^verbatim>\<open>#transaction\<close>: committed when the action succeeds, rolled back otherwise.\<close>

definition transact :: "store \<Rightarrow> (database \<Rightarrow> failure + 'a \<times> database) \<Rightarrow> 'a result \<times> store" where
  "transact st act = (case query st (act (st_db st)) of
     Inl f \<Rightarrow> (Inl f, st) | Inr (v, db) \<Rightarrow> (Inr v, st\<lparr>st_db := db\<rparr>))"

definition own :: "namespace \<Rightarrow> id \<Rightarrow> store \<Rightarrow> store" where
  "own n g st = st\<lparr>st_owned := jm_set (st_owned st) (namespace_text n) g\<rparr>"

definition disown :: "namespace \<Rightarrow> store \<Rightarrow> store" where
  "disown n st = st\<lparr>st_owned := jm_delete (st_owned st) (namespace_text n)\<rparr>"

definition active_generation :: "session \<Rightarrow> failure + id" where
  "active_generation s = (case activeStage s of
     Inl x \<Rightarrow> Inl (exit_failure x) | Inr stage \<Rightarrow> Inr (generation (stage_binding stage)))"

text \<open>\<^verbatim>\<open>#writable\<close>: this process owns the active generation.\<close>

definition writable_session :: "store \<Rightarrow> session \<Rightarrow> failure option" where
  "writable_session st s = with_value (active_generation s) (\<lambda>g.
     fail_if (jm_get (st_owned st) (namespace_text (ss_namespace s)) \<noteq> Some g) (fail_with Stale_binding Never))"

section \<open>Operations on one session\<close>

definition has_stage :: "session \<Rightarrow> bool" where
  "has_stage s \<longleftrightarrow> currentStageId s \<noteq> None \<and> currentStageId s \<noteq> Some []"

definition insert_session :: "session \<Rightarrow> database \<Rightarrow> failure + unit \<times> database" where
  "insert_session s db =
     (if jm_has (db_sessions db) (ss_namespace s) \<or> ss_namespace s \<in> set (db_tombstones db)
      then Inl (fail_with Content_conflict Never)
      else let db' = db\<lparr>db_sessions := jm_set (db_sessions db) (ss_namespace s) s\<rparr> in
        if has_stage s then and_then (active_generation s) (\<lambda>g.
          and_then (put_generation (ss_namespace s) g db') (\<lambda>db''. Inr ((), db'')))
        else Inr ((), db'))"

definition create_action :: "env \<Rightarrow> bounds \<Rightarrow> session \<Rightarrow> database \<Rightarrow> failure + unit \<times> database" where
  "create_action e bd s db = and_then (createState e defaultLimits s) (\<lambda>w.
     and_then (serialised (Row_session s)) (\<lambda>size.
       if 1 + int (length (ws_generations w)) > maxSessionRecords bd \<or>
          size + id_bytes (ws_generations w) > maxSessionBytes bd then Inl limit_failure
       else insert_session s db))"

definition store_create :: "env \<Rightarrow> bounds \<Rightarrow> session \<Rightarrow> store \<Rightarrow> unit result \<times> store" where
  "store_create e bd s st = (case transact st (create_action e bd s) of
     (Inr u, st') \<Rightarrow> (Inr (), if has_stage s
        then (case active_generation s of Inr g \<Rightarrow> own (ss_namespace s) g st' | Inl f \<Rightarrow> st') else st')
   | (Inl f, st') \<Rightarrow> (Inl f, st'))"

definition store_accept :: "env \<Rightarrow> bounds \<Rightarrow> accept_input \<Rightarrow> store \<Rightarrow> receipt result \<times> store" where
  "store_accept e bd inp st = transact st (\<lambda>db.
     and_then (load_state e db (ai_namespace inp)) (\<lambda>before.
     and_then (acceptCommand e defaultLimits before inp) (\<lambda>(after, r).
       if after = before then Inr (r, db)
       else unless_exit (writable_session st (ws_session before))
         (and_then (save bd before after db) (\<lambda>db'. Inr (r, db'))))))"

definition batch_size :: "commit_batch \<Rightarrow> int" where
  "batch_size b = int (length (cb_commands b) + length (cb_events b) + length (cb_interactions b) +
     length (cb_surfaces b) + length (cb_deliveries b) + length (cb_providerFacts b))"

definition store_commit :: "env \<Rightarrow> bounds \<Rightarrow> commit_batch \<Rightarrow> store \<Rightarrow> unit result \<times> store" where
  "store_commit e bd b st = transact st (\<lambda>db.
     if batch_size b > maxBatchRecords bd then Inl limit_failure
     else and_then (load_state e db (cb_namespace b)) (\<lambda>before.
       unless_exit (if isDeliveryCommit before b then None else writable_session st (ws_session before))
         (and_then (commitSession e defaultLimits before b) (\<lambda>after.
          and_then (save bd before after db) (\<lambda>db'. Inr ((), db'))))))"

text \<open>The transitions that return the new session share one shape.\<close>

definition reduce_session ::
  "env \<Rightarrow> bounds \<Rightarrow> namespace \<Rightarrow> (workspace \<Rightarrow> workspace result) \<Rightarrow> store \<Rightarrow> session result \<times> store" where
  "reduce_session e bd n reducer st = transact st (\<lambda>db.
     and_then (load_state e db n) (\<lambda>before.
     and_then (reducer before) (\<lambda>after.
     and_then (save bd before after db) (\<lambda>db'. Inr (ws_session after, db')))))"

definition own_active :: "namespace \<Rightarrow> session result \<times> store \<Rightarrow> session result \<times> store" where
  "own_active n r = (case r of
     (Inr s, st) \<Rightarrow> (case active_generation s of Inr g \<Rightarrow> (Inr s, own n g st) | Inl f \<Rightarrow> (Inr s, st))
   | (Inl f, st) \<Rightarrow> (Inl f, st))"

definition release :: "namespace \<Rightarrow> 'a result \<times> store \<Rightarrow> 'a result \<times> store" where
  "release n r = (case r of (Inr v, st) \<Rightarrow> (Inr v, disown n st) | (Inl f, st) \<Rightarrow> (Inl f, st))"

definition store_rebind ::
  "env \<Rightarrow> bounds \<Rightarrow> recovery_input \<Rightarrow> candidate \<Rightarrow> store \<Rightarrow> session result \<times> store" where
  "store_rebind e bd inp restored st = own_active (ri_namespace inp)
     (reduce_session e bd (ri_namespace inp) (\<lambda>w. rebindSession e defaultLimits w inp restored) st)"

definition store_activateStage :: "env \<Rightarrow> bounds \<Rightarrow> activation_input \<Rightarrow> store \<Rightarrow> session result \<times> store" where
  "store_activateStage e bd inp st = own_active (xi_namespace inp)
     (reduce_session e bd (xi_namespace inp) (\<lambda>w. activateStage e w inp) st)"

definition store_suspend :: "env \<Rightarrow> bounds \<Rightarrow> suspension_input \<Rightarrow> store \<Rightarrow> session result \<times> store" where
  "store_suspend e bd inp st = release (ri_namespace (si_recovery inp))
     (reduce_session e bd (ri_namespace (si_recovery inp)) (\<lambda>w. suspendSession e defaultLimits w inp) st)"

definition store_recoverUnavailable :: "env \<Rightarrow> bounds \<Rightarrow> recovery_input \<Rightarrow> store \<Rightarrow> session result \<times> store" where
  "store_recoverUnavailable e bd inp st = release (ri_namespace inp)
     (reduce_session e bd (ri_namespace inp) (\<lambda>w. recoverUnavailable e defaultLimits w inp) st)"

definition store_retire ::
  "env \<Rightarrow> bounds \<Rightarrow> namespace \<Rightarrow> counter \<Rightarrow> id \<Rightarrow> store \<Rightarrow> unit result \<times> store" where
  "store_retire e bd n revn gen st = release n (transact st (\<lambda>db.
     and_then (load_state e db n) (\<lambda>before.
     unless_exit (writable_session st (ws_session before))
       (and_then (retireSession e defaultLimits before revn gen) (\<lambda>after.
        and_then (save bd before after db) (\<lambda>db'. Inr ((), db')))))))"

section \<open>Pruning\<close>

definition prunable :: "int \<Rightarrow> database \<Rightarrow> namespace \<times> session \<Rightarrow> bool" where
  "prunable now db ns = (case ns of (n, s) \<Rightarrow> status s = Retired \<and>
     list_all (\<lambda>c. receiptUntilMs (cr_receipt c) < now) (jm_values (scoped n (db_commands db))) \<and>
     list_all (\<lambda>d. dl_status d = Delivered) (jm_values (scoped n (db_deliveries db))))"

definition drop_scope :: "namespace \<Rightarrow> 'v table \<Rightarrow> 'v table" where
  "drop_scope n t = filter (\<lambda>((m, k), v). m \<noteq> n) t"

definition prune_one :: "namespace \<Rightarrow> database \<Rightarrow> failure + database" where
  "prune_one n db = (if n \<in> set (db_tombstones db) then Inl constraint_failed
     else Inr (db\<lparr>db_tombstones := db_tombstones db @ [n],
       db_deliveries := drop_scope n (db_deliveries db), db_surfaces := drop_scope n (db_surfaces db),
       db_interactions := drop_scope n (db_interactions db), db_events := drop_scope n (db_events db),
       db_commands := drop_scope n (db_commands db),
       db_generations := filter (\<lambda>(m, g). m \<noteq> n) (db_generations db),
       db_sessions := jm_delete (db_sessions db) n\<rparr>))"

definition store_pruneRetired :: "bounds \<Rightarrow> int \<Rightarrow> store \<Rightarrow> int result \<times> store" where
  "store_pruneRetired bd now st = transact st (\<lambda>db.
     if \<not> isCounter now then Inl (fail_with Invalid_input Never)
     else let rows = take (nat (maxBatchRecords bd)) (map fst (filter (prunable now db) (db_sessions db))) in
       and_then (loop_exit prune_one rows db) (\<lambda>db'. Inr (int (length rows), db')))"

section \<open>Reads\<close>

definition query_limits :: "bounds \<Rightarrow> limits" where
  "query_limits bd = Limits (maxQueryBytes bd) (maxQueryBytes bd) 64 1000000"

definition bounded_answer :: "bounds \<Rightarrow> json \<Rightarrow> 'a \<Rightarrow> 'a result" where
  "bounded_answer bd j v = (case boundedJson (query_limits bd) j of
     Inl d \<Rightarrow> Inl (exit_failure (Contract_error d)) | Inr t \<Rightarrow> Inr v)"

definition answer_row :: "bounds \<Rightarrow> env \<Rightarrow> ('v \<Rightarrow> row) \<Rightarrow> 'v \<Rightarrow> 'v result" where
  "answer_row bd e as_row v = (case decode_row e (as_row v) of
     Some f \<Rightarrow> Inl f | None \<Rightarrow> bounded_answer bd (json_of_row (as_row v)) v)"

definition store_session :: "env \<Rightarrow> bounds \<Rightarrow> namespace \<Rightarrow> store \<Rightarrow> session result" where
  "store_session e bd n st = query st (and_then (read_session e (st_db st) n) (\<lambda>s.
     bounded_answer bd (json_of_session s) s))"

definition store_command :: "env \<Rightarrow> bounds \<Rightarrow> namespace \<Rightarrow> id \<Rightarrow> store \<Rightarrow> command_record result" where
  "store_command e bd n i st = query st (and_then (read_session e (st_db st) n) (\<lambda>s.
     if \<not> isId i then Inl (fail_with Invalid_input Never)
     else case jm_get (db_commands (st_db st)) (n, i) of
       None \<Rightarrow> Inl unavailable | Some c \<Rightarrow> answer_row bd e Row_record c))"

definition store_surface :: "env \<Rightarrow> bounds \<Rightarrow> namespace \<Rightarrow> id \<Rightarrow> store \<Rightarrow> surface_state result" where
  "store_surface e bd n i st = query st (and_then (read_session e (st_db st) n) (\<lambda>s.
     if status s \<noteq> Active then Inl (fail_with Session_gone Never)
     else if \<not> isId i then Inl (fail_with Invalid_input Never)
     else case jm_get (db_surfaces (st_db st)) (n, i) of
       None \<Rightarrow> Inl (fail_with Stale_binding Never) | Some x \<Rightarrow> answer_row bd e Row_surface x))"

definition store_delivery ::
  "env \<Rightarrow> bounds \<Rightarrow> namespace \<Rightarrow> id \<Rightarrow> store \<Rightarrow> (delivery \<times> event) option result" where
  "store_delivery e bd n i st = query st (and_then (read_session e (st_db st) n) (\<lambda>s.
     if \<not> isId i then Inl (fail_with Invalid_input Never)
     else case jm_get (db_deliveries (st_db st)) (n, i) of
       None \<Rightarrow> Inr None
     | Some d \<Rightarrow> (case decode_row e (Row_delivery d) of
         Some f \<Rightarrow> Inl f
       | None \<Rightarrow> (case jm_get (db_events (st_db st)) (n, dl_eventId d) of
           None \<Rightarrow> Inl (fail_with Invalid_input Never)
         | Some ev \<Rightarrow> (case decode_row e (Row_event ev) of
             Some f \<Rightarrow> Inl f
           | None \<Rightarrow> bounded_answer bd (obj [(''delivery'', json_of_delivery d), (''event'', json_of_event ev)])
               (Some (d, ev)))))))"

text \<open>Rows of a query whose total size is within the query budget.\<close>

definition sized_rows :: "bounds \<Rightarrow> ('v \<Rightarrow> row) \<Rightarrow> 'v list \<Rightarrow> 'v list result" where
  "sized_rows bd as_row rows =
     (if sum_list (map (\<lambda>v. row_bytes (as_row v)) rows) > maxQueryBytes bd then Inl limit_failure else Inr rows)"

definition store_events ::
  "env \<Rightarrow> bounds \<Rightarrow> namespace \<Rightarrow> counter \<Rightarrow> int \<Rightarrow> store \<Rightarrow> event list result" where
  "store_events e bd n after lim st = query st (and_then (read_session e (st_db st) n) (\<lambda>s.
     if \<not> isCounter after \<or> after > lastSequence s then Inl (fail_with Cursor_expired Never)
     else if \<not> is_safe_integer lim \<or> lim < 1 \<or> lim > 1024 then Inl (fail_with Invalid_input Never)
     else and_then (sized_rows bd Row_event (take (nat lim)
         (filter (\<lambda>ev. sequence ev > after) (sort_key sequence (jm_values (scoped n (db_events (st_db st)))))))) (\<lambda>rows.
       case first_exit (map (\<lambda>ev. decode_row e (Row_event ev)) rows) of
         Some f \<Rightarrow> Inl f
       | None \<Rightarrow> bounded_answer bd (JArr (map json_of_event rows)) rows)))"

section \<open>Opening and closing\<close>

text \<open>
  \<^verbatim>\<open>#state\<close> with full validation: the size limits, every row decoded, the event sequence
  without gaps, the active generation on record. Rows come in the order of their identifiers.
\<close>

definition by_id :: "(id, 'v) jsmap \<Rightarrow> (id, 'v) jsmap" where
  "by_id m = sort_key fst m"

definition full_rows ::
  "env \<Rightarrow> ('v \<Rightarrow> row) \<Rightarrow> ('v \<Rightarrow> id) \<Rightarrow> ('v \<Rightarrow> namespace) \<Rightarrow> namespace \<Rightarrow> (id, 'v) jsmap \<Rightarrow> (id, 'v) jsmap result" where
  "full_rows e as_row key ns n m = (case first_exit (map (check_row e as_row key ns n) m) of
     Some f \<Rightarrow> Inl f | None \<Rightarrow> Inr m)"

definition contiguous :: "session \<Rightarrow> event list \<Rightarrow> bool" where
  "contiguous s evs \<longleftrightarrow> int (length evs) = lastSequence s \<and>
     list_all (\<lambda>(i, ev). sequence ev = int i + 1) (enumerate 0 evs)"

definition full_state :: "env \<Rightarrow> bounds \<Rightarrow> database \<Rightarrow> namespace \<Rightarrow> workspace result" where
  "full_state e bd db n = and_then (read_session e db n) (\<lambda>s.
     if sum_list (map fst (totals db n)) + 1 > maxSessionRecords bd \<or>
        sum_list (map snd (totals db n)) + row_bytes (Row_session s) > maxSessionBytes bd then Inl limit_failure
     else
       and_then (full_rows e Row_record record_id (\<lambda>c. rc_namespace (cr_receipt c)) n (by_id (scoped n (db_commands db)))) (\<lambda>commands.
       and_then (full_rows e Row_event eventId ev_namespace n
         (sort_key (\<lambda>(i, ev). sequence ev) (scoped n (db_events db)))) (\<lambda>events.
       and_then (full_rows e Row_interaction interactionId ia_namespace n (by_id (scoped n (db_interactions db)))) (\<lambda>interactions.
       and_then (full_rows e Row_surface surfaceInstanceId sf_namespace n (by_id (scoped n (db_surfaces db)))) (\<lambda>surfaces.
       and_then (full_rows e Row_delivery operationId dl_namespace n (by_id (scoped n (db_deliveries db)))) (\<lambda>deliveries.
         unless_exit (first_exit [fail_if (\<not> contiguous s (jm_values events)) corrupt, stage_recorded db n s])
           (Inr \<lparr>ws_session = s, ws_generations = scoped_generations n db, ws_commands = commands,
             ws_events = jm_values events, ws_interactions = interactions, ws_deliveries = deliveries,
             ws_surfaces = surfaces\<rparr>)))))))"

text \<open>
  The constructor: complete validation of every session before admission; nothing is owned.
  The files, locks and pragmas of \<^verbatim>\<open>openSqliteStore\<close> are outside the model.
\<close>

definition store_open :: "env \<Rightarrow> bounds \<Rightarrow> database \<Rightarrow> store result" where
  "store_open e bd db = and_then (loop_exit (\<lambda>(n, s) u.
       case decode_row e (Row_session s) of
         Some f \<Rightarrow> Inl f
       | None \<Rightarrow> and_then (full_state e bd db (ss_namespace s)) (\<lambda>w. Inr u)) (db_sessions db) ())
     (\<lambda>_. Inr \<lparr>st_db = db, st_owned = [], st_closing = False, st_closed = False\<rparr>)"

text \<open>\<open>closes\<close> is the outcome of the native close, \<open>signalled\<close> that the budget carries a signal.\<close>

definition store_close :: "int \<Rightarrow> bool \<Rightarrow> bool \<Rightarrow> unit result \<Rightarrow> store \<Rightarrow> unit result \<times> store" where
  "store_close timeoutMs signalled aborted closes st =
     (if st_closed st then (Inr (), st)
      else let st' = st\<lparr>st_closing := True\<rparr> in
        if \<not> is_safe_integer timeoutMs \<or> timeoutMs < 1 \<or> 2147483647 < timeoutMs \<or> \<not> signalled
        then (Inl (fail_with Invalid_input Never), st')
        else if aborted then (Inl (fail_with Unavailable Same_command), st')
        else case closes of
          Inl f \<Rightarrow> (Inl f, st')
        | Inr u \<Rightarrow> (Inr (), st'\<lparr>st_closed := True, st_owned := []\<rparr>))"

section \<open>Rows of a complete load\<close>

lemma sort_values:
  fixes f :: "'b \<Rightarrow> 'c :: linorder" and m :: "('a \<times> 'b) list"
  shows "map snd (sort_key (\<lambda>(i, v). f v) m) = sort_key f (map snd m)"
proof -
  have "map snd (insort_key (\<lambda>(i, v). f v) x xs) = insort_key f (snd x) (map snd xs)" for x :: "'a \<times> 'b" and xs
    by (induction xs) (auto split: prod.splits)
  then show ?thesis by (induction m) auto
qed

lemma by_id_get: "jm_wf m \<Longrightarrow> jm_get (by_id m) k = jm_get m k"
proof -
  assume wf: "jm_wf m"
  have "jm_wf (by_id m)"
    using wf by (simp add: jm_wf_def by_id_def distinct_map)
  moreover have "set (by_id m) = set m" by (simp add: by_id_def)
  ultimately have "jm_get (by_id m) k = Some v \<longleftrightarrow> jm_get m k = Some v" for v
    using wf jm_mem_get by metis
  then show ?thesis by (metis option.exhaust)
qed

lemma full_rows_Inr: "full_rows e as_row key ns n m = Inr m' \<longleftrightarrow>
    m' = m \<and> (\<forall>kv \<in> set m. check_row e as_row key ns n kv = None)"
  by (auto simp: full_rows_def split: option.splits dest!: first_exit_Some_mem) (metis option.exhaust)

end
