(* ===== verification/Sqlite_Connections.thy ===== *)
theory Sqlite_Connections
  imports Sqlite_Store
begin

text \<open>
  Connections, preferences, connection selection and worker launches in the durable store
  (\<^verbatim>\<open>SqliteSessionStore\<close>). Connections are revisions under (caller, identifier, revision);
  a stored secret sits beside the revision it was saved with.
\<close>

section \<open>Connections\<close>

definition caller_of :: "namespace \<Rightarrow> caller" where
  "caller_of n = \<lparr>ca_tenantId = tenantId n, ca_principalId = principalId n, ca_authorityId = authorityId n\<rparr>"

definition valid_caller :: "caller \<Rightarrow> bool" where
  "valid_caller c \<longleftrightarrow> isId (ca_tenantId c) \<and> isId (ca_principalId c) \<and> isId (ca_authorityId c)"

definition decode_json :: "json \<Rightarrow> bool \<Rightarrow> failure option" where
  "decode_json j schema = (case boundedJson defaultLimits j of
     Inl d \<Rightarrow> Some (if d = D_limit then limit_failure else corrupt)
   | Inr t \<Rightarrow> fail_if (\<not> schema) corrupt)"

definition decode_connection :: "connection \<Rightarrow> failure option" where
  "decode_connection c = decode_json (json_of_connection c) (schema_connection c)"

text \<open>The revisions of one connection, oldest first, with their secrets.\<close>

definition revisions :: "database \<Rightarrow> caller \<Rightarrow> id \<Rightarrow> (counter \<times> connection \<times> nat list option) list" where
  "revisions db ca i = sort_key fst (map (\<lambda>((c, j, r), v). (r, v))
     (filter (\<lambda>((c, j, r), v). c = ca \<and> j = i) (db_connections db)))"

definition last_of :: "'a list \<Rightarrow> 'a option" where
  "last_of xs = (if xs = [] then None else Some (last xs))"

definition find_connection ::
  "database \<Rightarrow> caller \<Rightarrow> id \<Rightarrow> counter option \<Rightarrow> failure + connection option" where
  "find_connection db ca i rvn =
     (if \<not> isId i \<or> \<not> opt_ok isCounter rvn \<or> \<not> valid_caller ca then Inl scope_failure
      else case (case rvn of
          None \<Rightarrow> (case last_of (revisions db ca i) of None \<Rightarrow> None | Some (r, c, s) \<Rightarrow> Some c)
        | Some r \<Rightarrow> map_option fst (jm_get (db_connections db) (ca, i, r))) of
        None \<Rightarrow> Inr None
      | Some c \<Rightarrow> (case decode_connection c of Some f \<Rightarrow> Inl f | None \<Rightarrow> Inr (Some c)))"

text \<open>The latest revision of every connection of a caller, by identifier.\<close>

definition connection_ids :: "database \<Rightarrow> caller \<Rightarrow> id list" where
  "connection_ids db ca = sorted_list_of_set (set (map (\<lambda>((c, j, r), v). j)
     (filter (\<lambda>((c, j, r), v). c = ca) (db_connections db))))"

definition list_connections :: "bounds \<Rightarrow> database \<Rightarrow> caller \<Rightarrow> failure + connection list" where
  "list_connections bd db ca =
     (if \<not> valid_caller ca then Inl scope_failure
      else let rows = concat (map (\<lambda>i. case last_of (revisions db ca i) of None \<Rightarrow> [] | Some (r, c, s) \<Rightarrow> [c])
          (connection_ids db ca)) in
        if sum_list (map (\<lambda>c. byteLength (json_print (json_of_connection c))) rows) > maxQueryBytes bd then Inl limit_failure
        else case first_exit (map decode_connection rows) of Some f \<Rightarrow> Inl f | None \<Rightarrow> Inr rows)"

definition store_connections :: "bounds \<Rightarrow> caller \<Rightarrow> store \<Rightarrow> connection list result" where
  "store_connections bd ca st = query st (and_then (list_connections bd (st_db st) ca) (\<lambda>rows.
     let live = filter (\<lambda>c. cn_status c \<noteq> Deleted) rows in
     bounded_answer bd (JArr (map json_of_connection live)) live))"

definition store_connection :: "caller \<Rightarrow> id \<Rightarrow> counter option \<Rightarrow> store \<Rightarrow> connection result" where
  "store_connection ca i rvn st = query st (and_then (find_connection (st_db st) ca i rvn) (\<lambda>c.
     case c of None \<Rightarrow> Inl (fail_with Connection_required Never) | Some c \<Rightarrow> Inr c))"

section \<open>Preferences\<close>

definition read_preferences :: "database \<Rightarrow> caller \<Rightarrow> failure + user_preferences" where
  "read_preferences db ca =
     (if \<not> valid_caller ca then Inl scope_failure
      else case jm_get (db_preferences db) ca of
        None \<Rightarrow> Inr emptyPreferences
      | Some u \<Rightarrow> (case decode_json (json_of_preferences u) (schema_preferences u) of
          Some f \<Rightarrow> Inl f | None \<Rightarrow> Inr u))"

definition put_preferences :: "caller \<Rightarrow> user_preferences \<Rightarrow> database \<Rightarrow> failure + database" where
  "put_preferences ca u db = (case boundedJson defaultLimits (json_of_preferences u) of
     Inl d \<Rightarrow> Inl (exit_failure (Contract_error d))
   | Inr t \<Rightarrow> Inr (db\<lparr>db_preferences := jm_set (db_preferences db) ca u\<rparr>))"

definition store_preferences :: "caller \<Rightarrow> store \<Rightarrow> user_preferences result" where
  "store_preferences ca st = query st (read_preferences (st_db st) ca)"

definition connection_ready :: "database \<Rightarrow> caller \<Rightarrow> id \<Rightarrow> failure + bool" where
  "connection_ready db ca i = and_then (find_connection db ca i None) (\<lambda>c. Inr (map_option cn_status c = Some Ready))"

definition session_of :: "caller \<Rightarrow> id \<Rightarrow> namespace" where
  "session_of ca i = \<lparr>tenantId = ca_tenantId ca, principalId = ca_principalId ca, authorityId = ca_authorityId ca, ns_sessionId = i\<rparr>"

text \<open>An empty identifier is no selection (the code tests truthiness).\<close>

definition chosen :: "id option \<Rightarrow> id option" where
  "chosen i = (if i = Some [] then None else i)"

definition store_savePreferences ::
  "env \<Rightarrow> caller \<Rightarrow> preferences_patch \<Rightarrow> store \<Rightarrow> user_preferences result \<times> store" where
  "store_savePreferences e ca patch st = transact st (\<lambda>db.
     and_then (read_preferences db ca) (\<lambda>old.
     and_then (mergePreferences old patch) (\<lambda>u.
     and_then (case chosen (defaultConnectionId u) of None \<Rightarrow> Inr True | Some i \<Rightarrow> connection_ready db ca i) (\<lambda>ready.
       if \<not> ready then Inl (fail_with Connection_required Never)
       else and_then (case chosen (selectedSessionId u) of None \<Rightarrow> Inr ()
           | Some i \<Rightarrow> and_then (read_session e db (session_of ca i)) (\<lambda>s. Inr ())) (\<lambda>_.
         and_then (put_preferences ca u db) (\<lambda>db'. Inr (u, db')))))))"

section \<open>Saving a connection\<close>

definition secret_refused :: "connection \<Rightarrow> nat list option \<Rightarrow> bool" where
  "secret_refused nxt secret = (case secret of
     None \<Rightarrow> False
   | Some bytes \<Rightarrow> length bytes < 29 \<or> 16412 < length bytes \<or>
       (case cn_source nxt of Custom_api u m c \<Rightarrow> False | Existing_config d m \<Rightarrow> True) \<or> cn_status nxt = Deleted)"

text \<open>The default connection follows the first connection that gets ready and forgets one that leaves.\<close>

definition adjust_default :: "connection \<Rightarrow> connection list \<Rightarrow> user_preferences \<Rightarrow> user_preferences" where
  "adjust_default nxt rows u =
     (let u1 = (if cn_status nxt = Ready \<and> chosen (defaultConnectionId u) = None \<and> \<not> list_ex (\<lambda>c. cn_status c = Ready) rows
        then u\<lparr>defaultConnectionId := Some (cn_id nxt)\<rparr> else u)
      in if cn_status nxt \<noteq> Ready \<and> defaultConnectionId u1 = Some (cn_id nxt) then u1\<lparr>defaultConnectionId := None\<rparr> else u1)"

definition put_connection :: "caller \<Rightarrow> connection \<Rightarrow> nat list option \<Rightarrow> database \<Rightarrow> failure + database" where
  "put_connection ca nxt secret db =
     (if jm_has (db_connections db) (ca, cn_id nxt, cn_revision nxt) then Inl constraint_failed
      else Inr (db\<lparr>db_connections := jm_set (db_connections db) (ca, cn_id nxt, cn_revision nxt) (nxt, secret)\<rparr>))"

definition wipe_secrets :: "caller \<Rightarrow> id \<Rightarrow> database \<Rightarrow> database" where
  "wipe_secrets ca i db = db\<lparr>db_connections := map (\<lambda>((c, j, r), (row, s)).
     ((c, j, r), (row, if c = ca \<and> j = i then None else s))) (db_connections db)\<rparr>"

definition wipe_deleted :: "caller \<Rightarrow> connection \<Rightarrow> database \<Rightarrow> database" where
  "wipe_deleted ca nxt db = (if cn_status nxt = Deleted then wipe_secrets ca (cn_id nxt) db else db)"

definition store_saveConnection ::
  "(utext \<Rightarrow> bool) \<Rightarrow> (nat \<Rightarrow> bool) \<Rightarrow> bounds \<Rightarrow> caller \<Rightarrow> connection \<Rightarrow> counter option \<Rightarrow> nat list option \<Rightarrow> store
     \<Rightarrow> connection result \<times> store" where
  "store_saveConnection url_ok control_char bd ca nxt expected secret st = transact st (\<lambda>db.
     if secret_refused nxt secret then invalid_connection
     else and_then (find_connection db ca (cn_id nxt) None) (\<lambda>previous.
       and_then (connectionRevision url_ok control_char nxt previous expected) (\<lambda>checked.
       and_then (list_connections bd db ca) (\<lambda>rows.
         if previous = None \<and> 128 \<le> length rows then Inl limit_failure
         else and_then (read_preferences db ca) (\<lambda>prefs.
           and_then (put_connection ca nxt secret db) (\<lambda>db1.
           and_then (put_preferences ca (adjust_default nxt rows prefs) (wipe_deleted ca nxt db1)) (\<lambda>db2.
             Inr (checked, db2))))))))"

definition store_recordConnectionTest ::
  "caller \<Rightarrow> id \<Rightarrow> counter \<Rightarrow> connection_test \<Rightarrow> store \<Rightarrow> connection result \<times> store" where
  "store_recordConnectionTest ca i expected result st = transact st (\<lambda>db.
     and_then (find_connection db ca i None) (\<lambda>current.
       case current of
         None \<Rightarrow> Inl (fail_with Revision_conflict Never)
       | Some c \<Rightarrow>
           if cn_revision c \<noteq> expected \<or> cn_status c = Deleted then Inl (fail_with Revision_conflict Never)
           else let nxt = c\<lparr>cn_lastTest := Some result\<rparr> in
             if \<not> reencodes (json_of_connection nxt) (schema_connection nxt) \<or> testedRevision result \<noteq> expected
             then invalid_connection
             else (case jm_get (db_connections db) (ca, i, expected) of
                 None \<Rightarrow> Inr (nxt, db)
               | Some (old, secret) \<Rightarrow> Inr (nxt, db\<lparr>db_connections :=
                   jm_set (db_connections db) (ca, i, expected) (nxt, secret)\<rparr>))))"

definition store_encryptedSecret ::
  "caller \<Rightarrow> id \<Rightarrow> counter \<Rightarrow> store \<Rightarrow> nat list option result" where
  "store_encryptedSecret ca i rvn st = query st (
     and_then (find_connection (st_db st) ca i None) (\<lambda>current.
     if (case current of None \<Rightarrow> True | Some c \<Rightarrow> cn_status c = Deleted) then Inl (fail_with Connection_required Never)
     else and_then (find_connection (st_db st) ca i (Some rvn)) (\<lambda>row.
       case row of
         None \<Rightarrow> Inl (fail_with Connection_required Never)
       | Some c \<Rightarrow> Inr (Option.bind (jm_get (db_connections (st_db st)) (ca, i, rvn)) snd))))"

definition store_hasSecrets :: "store \<Rightarrow> bool result" where
  "store_hasSecrets st = query st (Inr (list_ex (\<lambda>(k, (c, s)). s \<noteq> None) (db_connections (st_db st))))"

section \<open>Selecting a connection for a session\<close>

definition store_selectConnection ::
  "env \<Rightarrow> bounds \<Rightarrow> namespace \<Rightarrow> id \<Rightarrow> counter \<Rightarrow> bool \<Rightarrow> store \<Rightarrow> session result \<times> store" where
  "store_selectConnection e bd n connection revn fresh st = transact st (\<lambda>db.
     and_then (connection_ready db (caller_of n) connection) (\<lambda>ready.
       if \<not> ready then Inl (fail_with Connection_required Never)
       else and_then (load_state e db n) (\<lambda>before.
         and_then (selectConnection before connection revn fresh) (\<lambda>after.
           if after = before then Inr (ws_session after, db)
           else and_then (save bd before after db) (\<lambda>db'. Inr (ws_session after, db'))))))"

section \<open>Worker launches\<close>

text \<open>\<^verbatim>\<open>^Local\\rss-mdm-worker-[a-f0-9-]{36}$\<close>\<close>

definition worker_object :: "string \<Rightarrow> bool" where
  "worker_object t = (let p = ''Local'' @ [char_of (92 :: nat)] @ ''rss-mdm-worker-'' in
     take (length p) t = p \<and> length (drop (length p) t) = 36 \<and>
     list_all (\<lambda>c. c \<in> set ''abcdef0123456789-'') (drop (length p) t))"

fun validScope :: "process_scope \<Rightarrow> bool" where
  "validScope (Process_group root) \<longleftrightarrow> 1 < root \<and> root \<le> 2147483647"
| "validScope (Job_object name ses) \<longleftrightarrow> 0 \<le> ses \<and> ses \<le> 4294967295 \<and> worker_object name"

text \<open>\<^verbatim>\<open>String.length\<close> counts UTF-16 units.\<close>

definition utf16_length :: "utext \<Rightarrow> nat" where
  "utf16_length t = sum_list (map (\<lambda>c. if 65535 < c then 2 else 1) t)"

definition validLaunch :: "worker_launch \<Rightarrow> bool" where
  "validLaunch l \<longleftrightarrow> schema_namespace (wl_namespace l) \<and> isId (wl_launchId l) \<and> isHash (wl_runtimeDigest l) \<and>
     wl_artifact l \<noteq> [] \<and> utf16_length (wl_artifact l) \<le> 4096 \<and> opt_ok validScope (wl_scope l)"

definition store_reserveLaunch :: "worker_launch \<Rightarrow> store \<Rightarrow> unit result \<times> store" where
  "store_reserveLaunch l st = transact st (\<lambda>db.
     if \<not> validLaunch l then Inl scope_failure
     else if wl_scope l \<noteq> None then Inl (fail_with Invalid_input Never)
     else if 128 \<le> length (db_launches db) then Inl limit_failure
     else if jm_has (db_launches db) (wl_namespace l) then Inl (fail_with Content_conflict Never)
     else if list_ex (\<lambda>(n, x). wl_launchId x = wl_launchId l) (db_launches db) then Inl constraint_failed
     else Inr ((), db\<lparr>db_launches := jm_set (db_launches db) (wl_namespace l) l\<rparr>))"

definition find_launch :: "database \<Rightarrow> namespace \<Rightarrow> id \<Rightarrow> worker_launch option" where
  "find_launch db n i = (case jm_get (db_launches db) n of
     Some l \<Rightarrow> if wl_launchId l = i then Some l else None | None \<Rightarrow> None)"

definition store_registerLaunch :: "namespace \<Rightarrow> id \<Rightarrow> process_scope \<Rightarrow> store \<Rightarrow> unit result \<times> store" where
  "store_registerLaunch n i sc st = transact st (\<lambda>db.
     if \<not> schema_namespace n then Inl scope_failure
     else case find_launch db n i of
       None \<Rightarrow> Inl (fail_with Stale_binding Never)
     | Some old \<Rightarrow>
         if wl_scope old \<noteq> None then Inl (fail_with Content_conflict Never)
         else let nxt = old\<lparr>wl_scope := Some sc\<rparr> in
           if \<not> validLaunch nxt then Inl scope_failure
           else Inr ((), db\<lparr>db_launches := jm_set (db_launches db) n nxt\<rparr>))"

definition store_releaseLaunch :: "namespace \<Rightarrow> id \<Rightarrow> store \<Rightarrow> unit result \<times> store" where
  "store_releaseLaunch n i st = transact st (\<lambda>db.
     if \<not> schema_namespace n then Inl scope_failure
     else if find_launch db n i = None then Inl (fail_with Stale_binding Never)
     else Inr ((), db\<lparr>db_launches := jm_delete (db_launches db) n\<rparr>))"

definition store_launches :: "store \<Rightarrow> worker_launch list result" where
  "store_launches st = query st
     (let rows = take 129 (sort_key wl_launchId (jm_values (db_launches (st_db st)))) in
      if 128 < length rows then Inl limit_failure
      else if list_all validLaunch rows then Inr rows else Inl scope_failure)"

end
