(* ===== verification/Store_Reach.thy ===== *)
theory Store_Reach
  imports Sqlite_Connections
begin

text \<open>
  The invariant of the database: every stored session, with its rows, is a workspace the
  session transitions can reach; rows exist only for stored sessions; a tombstone excludes a
  session. Every store operation preserves it, whatever its outcome.
\<close>

definition no_rows :: "database \<Rightarrow> namespace \<Rightarrow> bool" where
  "no_rows db n \<longleftrightarrow> scoped n (db_commands db) = [] \<and> scoped n (db_events db) = [] \<and>
     scoped n (db_interactions db) = [] \<and> scoped n (db_surfaces db) = [] \<and> scoped n (db_deliveries db) = [] \<and>
     scoped_generations n db = []"

definition store_inv :: "database \<Rightarrow> bool" where
  "store_inv db \<longleftrightarrow> jm_wf (db_sessions db) \<and> jm_wf (db_events db) \<and>
     (\<forall>n s. jm_get (db_sessions db) n = Some s \<longrightarrow>
        ss_namespace s = n \<and> n \<notin> set (db_tombstones db) \<and> reachable (content db n s)) \<and>
     (\<forall>n. jm_get (db_sessions db) n = None \<longrightarrow> no_rows db n)"

lemma content_session [simp]: "ws_session (content db n s) = s"
  by (simp add: content_def)

lemma no_rows_content:
  "no_rows db n \<longleftrightarrow> (\<exists>s. content db n s = \<lparr>ws_session = s, ws_generations = [], ws_commands = [], ws_events = [],
     ws_interactions = [], ws_deliveries = [], ws_surfaces = []\<rparr>)"
proof -
  have "sort_key sequence (jm_values m) = [] \<longleftrightarrow> m = []" for m :: "(id, event) jsmap"
    by (metis jm_values_def map_is_Nil_conv set_empty set_sort)
  then show ?thesis by (auto simp: no_rows_def content_def)
qed

lemma content_inj: "content db n s = content db' n s' \<Longrightarrow> content db n t = content db' n t"
  by (simp add: content_def)

lemma load_content:
  assumes "load_state e db n = Inr w"
  obtains s where "jm_get (db_sessions db) n = Some s" "w = content db n s" "ss_namespace s = n"
  using assms by (auto simp: load_state_def read_session_def split: if_splits option.splits)

lemma events_sorted: "events_ok w \<Longrightarrow> sorted (map sequence (ws_events w))"
  by (auto simp: events_ok_def sorted_iff_nth_mono)

text \<open>
  A session transition between load and save: the rows of the session become the transition's
  result, everything else stays, and the invariant survives.
\<close>

lemma save_step:
  assumes inv: "store_inv db" and load: "load_state e db n = Inr before"
    and step: "session_step before after" and save: "save bd before after db = Inr db'"
  shows "store_inv db'" and "jm_get (db_sessions db') n = Some (ws_session after)"
    and "content db' n (ws_session after) = after"
    and "m \<noteq> n \<Longrightarrow> jm_get (db_sessions db') m = jm_get (db_sessions db) m \<and> content db' m t = content db m t"
    and "db_tombstones db' = db_tombstones db"
proof -
  obtain s where s: "jm_get (db_sessions db) n = Some s" and before: "before = content db n s" and ns: "ss_namespace s = n"
    by (rule load_content [OF load])
  have reach: "reachable before" using inv s by (simp add: store_inv_def before)
  then have winv: "ws_inv before" and reach': "reachable after"
    using step by (auto intro: reachable_inv Stepped)
  have winv': "ws_inv after" by (rule reachable_inv [OF reach'])
  have grown: "grows before after" using step_grows [OF step] winv by (simp add: grows_ok_def)
  have n: "ss_namespace (ws_session after) = n" using grown by (simp add: grows_def before ns)
  have order: "sorted (map sequence (ws_events after))" using winv' by (simp add: ws_inv_def events_sorted)
  note saved = save_content [OF save [unfolded before] n grown [unfolded before] _ _ order]
  have keyed: "ws_keyed after" "ws_keyed (content db n s)" using winv winv' by (simp_all add: ws_inv_def before)
  note saved = saved [OF keyed]
  show content: "content db' n (ws_session after) = after" by (rule saved(1))
  show head: "jm_get (db_sessions db') n = Some (ws_session after)" by (simp add: saved(2))
  show other: "jm_get (db_sessions db') m = jm_get (db_sessions db) m \<and> content db' m t = content db m t" if "m \<noteq> n" for m t
    using that saved(3) by (simp add: saved(2))
  show tomb: "db_tombstones db' = db_tombstones db" by (rule saved(4))
  have "no_rows db' m" if "jm_get (db_sessions db') m = None" for m
  proof -
    have "m \<noteq> n" using that head by auto
    then have "no_rows db m" "content db' m t = content db m t" for t
      using that other inv by (simp_all add: store_inv_def)
    then show ?thesis by (simp add: no_rows_content)
  qed
  moreover have "ss_namespace t = m \<and> m \<notin> set (db_tombstones db') \<and> reachable (content db' m t)"
    if "jm_get (db_sessions db') m = Some t" for m t
  proof (cases "m = n")
    case True
    then show ?thesis
      using that head content reach' n inv s by (auto simp: store_inv_def tomb)
  next
    case False
    then show ?thesis using that other [OF False] inv by (simp add: store_inv_def tomb)
  qed
  moreover have "jm_wf (db_sessions db')" using inv by (simp add: store_inv_def saved(2))
  moreover have "jm_wf (db_events db')" using inv save_events_wf [OF save] by (simp add: store_inv_def)
  ultimately show "store_inv db'" unfolding store_inv_def by blast
qed

section \<open>Operations preserve the invariant\<close>

lemma transact_cases:
  assumes "transact st act = (r, st')"
  obtains (failed) f where "r = Inl f" "st' = st"
    | (committed) v db where "r = Inr v" "act (st_db st) = Inr (v, db)" "st' = st\<lparr>st_db := db\<rparr>"
proof (cases "query st (act (st_db st))")
  case (Inl f)
  then show ?thesis using assms by (intro failed [of f]) (simp_all add: transact_def)
next
  case (Inr vd)
  obtain v db where vd: "vd = (v, db)" by (cases vd)
  have "act (st_db st) = Inr (v, db)" using Inr by (simp add: query_def vd split: if_splits)
  then show ?thesis using assms Inr by (intro committed [of v db]) (simp_all add: transact_def vd)
qed

lemma own_active_db: "own_active n (r, st) = (r', st') \<Longrightarrow> st_db st' = st_db st"
  by (auto simp: own_active_def own_def split: sum.splits)

lemma release_db: "release n (r, st) = (r', st') \<Longrightarrow> st_db st' = st_db st"
  by (auto simp: release_def disown_def split: sum.splits)

section \<open>The abstract store\<close>

text \<open>
  What the store promises: a map from namespaces to session workspaces, that grows by created
  sessions, moves by session transitions and shrinks by pruning, and a set of spent namespaces.
\<close>

definition session_at :: "database \<Rightarrow> namespace \<Rightarrow> workspace option" where
  "session_at db n = map_option (content db n) (jm_get (db_sessions db) n)"

record spec =
  sp_sessions :: "namespace \<Rightarrow> workspace option"
  sp_spent :: "namespace set"

definition abs_store :: "database \<Rightarrow> spec" where
  "abs_store db = \<lparr>sp_sessions = session_at db, sp_spent = set (db_tombstones db)\<rparr>"

definition expired_at :: "int \<Rightarrow> workspace \<Rightarrow> bool" where
  "expired_at now w \<longleftrightarrow> status (ws_session w) = Retired \<and>
     list_all (\<lambda>c. receiptUntilMs (cr_receipt c) < now) (jm_values (ws_commands w)) \<and>
     list_all (\<lambda>d. dl_status d = Delivered) (jm_values (ws_deliveries w))"

inductive spec_step :: "spec \<Rightarrow> spec \<Rightarrow> bool" where
  Spec_create: "createState e lim s = Inr w \<Longrightarrow> ss_namespace s = n \<Longrightarrow>
    sp_sessions sp n = None \<Longrightarrow> n \<notin> sp_spent sp \<Longrightarrow>
    spec_step sp (sp\<lparr>sp_sessions := (sp_sessions sp)(n \<mapsto> w)\<rparr>)"
| Spec_move: "sp_sessions sp n = Some w \<Longrightarrow> session_step w w' \<Longrightarrow>
    spec_step sp (sp\<lparr>sp_sessions := (sp_sessions sp)(n \<mapsto> w')\<rparr>)"
| Spec_prune: "sp_sessions sp n = Some w \<Longrightarrow> expired_at now w \<Longrightarrow>
    spec_step sp (sp\<lparr>sp_sessions := (sp_sessions sp)(n := None), sp_spent := insert n (sp_spent sp)\<rparr>)"

text \<open>One operation preserves the invariant and is a run of the abstract store.\<close>

definition store_ok :: "database \<Rightarrow> database \<Rightarrow> bool" where
  "store_ok db db' \<longleftrightarrow> (store_inv db \<longrightarrow> store_inv db' \<and> spec_step\<^sup>*\<^sup>* (abs_store db) (abs_store db'))"

lemma store_ok_refl [simp]: "store_ok db db"
  by (simp add: store_ok_def)

lemma store_ok_trans: "store_ok a b \<Longrightarrow> store_ok b c \<Longrightarrow> store_ok a c"
  by (auto simp: store_ok_def intro: rtranclp_trans)

text \<open>A saved transition is one move of one session.\<close>

lemma save_session_at:
  assumes inv: "store_inv db" and load: "load_state e db n = Inr before"
    and step: "session_step before after" and save: "save bd before after db = Inr db'"
  shows "session_at db n = Some before" "session_at db' = (session_at db)(n \<mapsto> after)"
    "db_tombstones db' = db_tombstones db"
proof -
  note saved = save_step [OF inv load step save]
  show "session_at db n = Some before" by (rule load_content [OF load]) (simp add: session_at_def)
  have "session_at db' m = session_at db m" if "m \<noteq> n" for m
    using saved(4) [OF that] by (cases "jm_get (db_sessions db) m") (simp_all add: session_at_def)
  then show "session_at db' = (session_at db)(n \<mapsto> after)"
    by (auto simp: fun_eq_iff session_at_def saved(2,3))
  show "db_tombstones db' = db_tombstones db" by (rule saved(5))
qed

lemma saved_ok:
  assumes "load_state e db n = Inr before" "session_step before after" "save bd before after db = Inr db'"
  shows "store_ok db db'"
proof (unfold store_ok_def, intro impI conjI)
  assume inv: "store_inv db"
  show "store_inv db'" by (rule save_step(1) [OF inv assms])
  note at = save_session_at [OF inv assms]
  have "abs_store db' = abs_store db\<lparr>sp_sessions := (sp_sessions (abs_store db))(n \<mapsto> after)\<rparr>"
    by (simp add: abs_store_def at)
  then have "spec_step (abs_store db) (abs_store db')"
    using Spec_move [of "abs_store db" n before after] at(1) assms(2) by (simp add: abs_store_def)
  then show "spec_step\<^sup>*\<^sup>* (abs_store db) (abs_store db')" by blast
qed

lemma reduce_session_ok:
  assumes run: "reduce_session e bd n reducer st = (r, st')"
    and step: "\<And>w w'. reducer w = Inr w' \<Longrightarrow> session_step w w'"
  shows "store_ok (st_db st) (st_db st')"
  using run unfolding reduce_session_def
proof (cases rule: transact_cases)
  case (committed v db)
  then obtain before after where "load_state e (st_db st) n = Inr before" "reducer before = Inr after"
    "save bd before after (st_db st) = Inr db"
    by auto
  then show ?thesis using saved_ok [OF _ step] by (auto simp: committed(3))
qed simp

lemma accept_store_ok:
  assumes "store_accept e bd inp st = (r, st')"
  shows "store_ok (st_db st) (st_db st')"
  using assms unfolding store_accept_def
proof (cases rule: transact_cases)
  case (committed v db)
  then obtain before after rc where l: "load_state e (st_db st) (ai_namespace inp) = Inr before"
    and a: "acceptCommand e defaultLimits before inp = Inr (after, rc)"
    and d: "db = st_db st \<or> save bd before after (st_db st) = Inr db"
    by (auto split: if_splits)
  show ?thesis
    using d by (rule disjE) (simp_all add: committed(3) saved_ok [OF l Accept [OF a]])
qed simp

lemma commit_store_ok:
  assumes "store_commit e bd b st = (r, st')"
  shows "store_ok (st_db st) (st_db st')"
  using assms unfolding store_commit_def
proof (cases rule: transact_cases)
  case (committed v db)
  then obtain before after where l: "load_state e (st_db st) (cb_namespace b) = Inr before"
    and a: "commitSession e defaultLimits before b = Inr after" and d: "save bd before after (st_db st) = Inr db"
    by (auto split: if_splits)
  show ?thesis using saved_ok [OF l Commit [OF a] d] by (simp add: committed(3))
qed simp

lemma retire_store_ok:
  assumes "store_retire e bd n revn gen st = (r, st')"
  shows "store_ok (st_db st) (st_db st')"
proof -
  obtain r0 st0 where run: "transact st (\<lambda>db. and_then (load_state e db n) (\<lambda>before.
     unless_exit (writable_session st (ws_session before)) (and_then (retireSession e defaultLimits before revn gen) (\<lambda>after.
        and_then (save bd before after db) (\<lambda>db'. Inr ((), db')))))) = (r0, st0)"
    by (rule prod.exhaust) (rule that)
  then have db: "st_db st' = st_db st0" using assms release_db by (simp add: store_retire_def)
  from run show ?thesis
  proof (cases rule: transact_cases)
    case (committed v db)
    then obtain before after where l: "load_state e (st_db st) n = Inr before"
      and a: "retireSession e defaultLimits before revn gen = Inr after" and d: "save bd before after (st_db st) = Inr db"
      by auto
    show ?thesis using saved_ok [OF l Retire [OF a] d] by (simp add: committed(3) \<open>st_db st' = st_db st0\<close>)
  qed (simp add: db)
qed

lemma session_store_ok:
  assumes "reduce_session e bd n reducer st = (r0, st0)" "st_db st' = st_db st0"
    and "\<And>w w'. reducer w = Inr w' \<Longrightarrow> session_step w w'"
  shows "store_ok (st_db st) (st_db st')"
  using reduce_session_ok [OF assms(1,3)] by (simp add: assms(2))

lemma rebind_store_ok: "store_rebind e bd inp restored st = (r, st') \<Longrightarrow> store_ok (st_db st) (st_db st')"
  by (cases "reduce_session e bd (ri_namespace inp) (\<lambda>w. rebindSession e defaultLimits w inp restored) st")
     (auto simp: store_rebind_def intro: session_store_ok own_active_db Rebind)

lemma activate_store_ok: "store_activateStage e bd inp st = (r, st') \<Longrightarrow> store_ok (st_db st) (st_db st')"
  by (cases "reduce_session e bd (xi_namespace inp) (\<lambda>w. activateStage e w inp) st")
     (auto simp: store_activateStage_def intro: session_store_ok own_active_db Activate)

lemma suspend_store_ok: "store_suspend e bd inp st = (r, st') \<Longrightarrow> store_ok (st_db st) (st_db st')"
  by (cases "reduce_session e bd (ri_namespace (si_recovery inp)) (\<lambda>w. suspendSession e defaultLimits w inp) st")
     (auto simp: store_suspend_def intro: session_store_ok release_db Suspend)

lemma recover_store_ok: "store_recoverUnavailable e bd inp st = (r, st') \<Longrightarrow> store_ok (st_db st) (st_db st')"
  by (cases "reduce_session e bd (ri_namespace inp) (\<lambda>w. recoverUnavailable e defaultLimits w inp) st")
     (auto simp: store_recoverUnavailable_def intro: session_store_ok release_db Recover)

text \<open>Connections, preferences and launches are other tables.\<close>

lemma store_ok_eqs:
  assumes "db_sessions db' = db_sessions db" "db_generations db' = db_generations db" "db_commands db' = db_commands db"
    "db_events db' = db_events db" "db_interactions db' = db_interactions db" "db_surfaces db' = db_surfaces db"
    "db_deliveries db' = db_deliveries db" "db_tombstones db' = db_tombstones db"
  shows "store_ok db db'"
proof -
  have "content db' = content db" and "no_rows db' = no_rows db"
    using assms by (simp_all add: content_def no_rows_def scoped_generations_def fun_eq_iff)
  then have "store_inv db' \<longleftrightarrow> store_inv db" "abs_store db' = abs_store db"
    using assms by (simp_all add: store_inv_def abs_store_def session_at_def [abs_def])
  then show ?thesis by (simp add: store_ok_def)
qed

lemma put_preferences_eqs:
  "put_preferences ca u db = Inr db' \<Longrightarrow> \<exists>y. db' = db\<lparr>db_preferences := y\<rparr>"
  by (auto simp: put_preferences_def split: sum.splits)

lemma savePreferences_store_ok:
  assumes "store_savePreferences e ca patch st = (r, st')"
  shows "store_ok (st_db st) (st_db st')"
  using assms unfolding store_savePreferences_def
proof (cases rule: transact_cases)
  case (committed v db)
  then obtain u where "put_preferences ca u (st_db st) = Inr db" by (auto split: if_splits)
  from put_preferences_eqs [OF this] show ?thesis by (auto simp: committed(3) intro: store_ok_eqs)
qed simp

lemma put_connection_eqs: "put_connection ca nxt secret db = Inr db' \<Longrightarrow>
    \<not> jm_has (db_connections db) (ca, cn_id nxt, cn_revision nxt) \<and>
    db' = db\<lparr>db_connections := jm_set (db_connections db) (ca, cn_id nxt, cn_revision nxt) (nxt, secret)\<rparr>"
  by (auto simp: put_connection_def split: if_splits)

text \<open>What a successful save of a connection did.\<close>

lemma saveConnection_run:
  assumes "store_saveConnection url_ok cc bd ca nxt expected secret st = (Inr c, st')"
  obtains previous db1 y where "c = nxt" "\<not> secret_refused nxt secret"
    "find_connection (st_db st) ca (cn_id nxt) None = Inr previous"
    "connectionRevision url_ok cc nxt previous expected = Inr nxt"
    "\<not> jm_has (db_connections (st_db st)) (ca, cn_id nxt, cn_revision nxt)"
    "db1 = (st_db st)\<lparr>db_connections := jm_set (db_connections (st_db st)) (ca, cn_id nxt, cn_revision nxt) (nxt, secret)\<rparr>"
    "st_db st' = (wipe_deleted ca nxt db1)\<lparr>db_preferences := y\<rparr>"
  using assms unfolding store_saveConnection_def
proof (cases rule: transact_cases)
  case (committed v db)
  from committed(2) obtain previous rows prefs db1 where run: "\<not> secret_refused nxt secret"
    "find_connection (st_db st) ca (cn_id nxt) None = Inr previous"
    "connectionRevision url_ok cc nxt previous expected = Inr v"
    "put_connection ca nxt secret (st_db st) = Inr db1"
    "put_preferences ca (adjust_default nxt rows prefs) (wipe_deleted ca nxt db1) = Inr db"
    by (auto simp: Let_def invalid_connection_def split: if_splits)
  have v: "v = nxt" by (rule connectionRevision_Inr(1) [OF run(3)])
  obtain y where "db = (wipe_deleted ca nxt db1)\<lparr>db_preferences := y\<rparr>"
    using put_preferences_eqs [OF run(5)] by blast
  then show ?thesis
    using that [of previous db1 y] run put_connection_eqs [OF run(4)] committed(1,3) v by simp
qed simp

lemma saveConnection_store_ok:
  assumes "store_saveConnection url_ok cc bd ca nxt expected secret st = (r, st')"
  shows "store_ok (st_db st) (st_db st')"
proof (cases r)
  case (Inl f)
  from assms [unfolded store_saveConnection_def] show ?thesis
    by (cases rule: transact_cases) (simp_all add: Inl)
next
  case (Inr c)
  show ?thesis
    by (rule saveConnection_run [OF assms [unfolded Inr]]) (rule store_ok_eqs, simp_all add: wipe_deleted_def wipe_secrets_def)
qed

lemma recordTest_run:
  assumes "store_recordConnectionTest ca i expected result st = (Inr c', st')"
  obtains c where "find_connection (st_db st) ca i None = Inr (Some c)" "cn_revision c = expected" "cn_status c \<noteq> Deleted"
    "c' = c\<lparr>cn_lastTest := Some result\<rparr>" "testedRevision result = expected"
    "st_db st' = st_db st \<or> (\<exists>old secret. jm_get (db_connections (st_db st)) (ca, i, expected) = Some (old, secret) \<and>
       st_db st' = (st_db st)\<lparr>db_connections := jm_set (db_connections (st_db st)) (ca, i, expected) (c', secret)\<rparr>)"
  using assms unfolding store_recordConnectionTest_def
proof (cases rule: transact_cases)
  case (committed v db)
  from committed(2) obtain c where c: "find_connection (st_db st) ca i None = Inr (Some c)" "cn_revision c = expected"
    "cn_status c \<noteq> Deleted" "testedRevision result = expected"
    and upd: "(case jm_get (db_connections (st_db st)) (ca, i, expected) of
                 None \<Rightarrow> Inr (c\<lparr>cn_lastTest := Some result\<rparr>, st_db st)
               | Some (old, secret) \<Rightarrow> Inr (c\<lparr>cn_lastTest := Some result\<rparr>, (st_db st)\<lparr>db_connections :=
                   jm_set (db_connections (st_db st)) (ca, i, expected) (c\<lparr>cn_lastTest := Some result\<rparr>, secret)\<rparr>)) =
         (Inr (v, db) :: failure + connection \<times> database)"
    by (cases "find_connection (st_db st) ca i None")
       (auto simp: Let_def invalid_connection_def split: if_splits option.splits)
  show ?thesis
    by (rule that [OF c(1-3) _ c(4)]) (use upd committed(1,3) in \<open>auto split: option.splits\<close>)
qed simp

lemma recordTest_store_ok:
  assumes "store_recordConnectionTest ca i expected result st = (r, st')"
  shows "store_ok (st_db st) (st_db st')"
proof (cases r)
  case (Inl f)
  from assms [unfolded store_recordConnectionTest_def] show ?thesis
    by (cases rule: transact_cases) (simp_all add: Inl)
next
  case (Inr c)
  show ?thesis
    by (rule recordTest_run [OF assms [unfolded Inr]]) (rule store_ok_eqs; auto)
qed

lemma launch_store_ok:
  "store_reserveLaunch l st = (r, st') \<Longrightarrow> store_ok (st_db st) (st_db st')"
  "store_registerLaunch n i sc st = (r, st') \<Longrightarrow> store_ok (st_db st) (st_db st')"
  "store_releaseLaunch n i st = (r, st') \<Longrightarrow> store_ok (st_db st) (st_db st')"
proof -
  assume "store_reserveLaunch l st = (r, st')"
  then show "store_ok (st_db st) (st_db st')" unfolding store_reserveLaunch_def
    by (cases rule: transact_cases) (auto intro!: store_ok_eqs split: if_splits)
next
  assume "store_registerLaunch n i sc st = (r, st')"
  then show "store_ok (st_db st) (st_db st')" unfolding store_registerLaunch_def
    by (cases rule: transact_cases) (auto simp: Let_def intro!: store_ok_eqs split: if_splits option.splits)
next
  assume "store_releaseLaunch n i st = (r, st')"
  then show "store_ok (st_db st) (st_db st')" unfolding store_releaseLaunch_def
    by (cases rule: transact_cases) (auto intro!: store_ok_eqs split: if_splits)
qed

lemma select_store_ok:
  assumes "store_selectConnection e bd n connection revn fresh st = (r, st')"
  shows "store_ok (st_db st) (st_db st')"
  using assms unfolding store_selectConnection_def
proof (cases rule: transact_cases)
  case (committed v db)
  obtain ready where "connection_ready (st_db st) (caller_of n) connection = Inr ready"
    using committed(2) by (cases "connection_ready (st_db st) (caller_of n) connection") simp_all
  with committed(2) have "and_then (load_state e (st_db st) n) (\<lambda>before.
      and_then (selectConnection before connection revn fresh) (\<lambda>after.
        if after = before then Inr (ws_session after, st_db st)
        else and_then (save bd before after (st_db st)) (\<lambda>db'. Inr (ws_session after, db')))) = Inr (v, db)"
    by (cases ready) (simp_all only: and_then_simps not_True_eq_False not_False_eq_True if_True if_False sum.distinct)
  then obtain before after where l: "load_state e (st_db st) n = Inr before"
    and a: "selectConnection before connection revn fresh = Inr after"
    and rest: "(if after = before then Inr (ws_session after, st_db st)
        else and_then (save bd before after (st_db st)) (\<lambda>db'. Inr (ws_session after, db'))) = Inr (v, db)"
    unfolding and_then_Inr by blast
  have d: "db = st_db st \<or> save bd before after (st_db st) = Inr db"
    using rest by (simp split: if_splits)
  show ?thesis
    using d by (rule disjE) (simp_all add: committed(3) saved_ok [OF l Select [OF a]])
qed simp

section \<open>Creation\<close>

text \<open>
  Creation files one session without rows. Only the active stage's generation is recorded, so
  a session created with several stages would lose the generations of the earlier ones; the
  host creates sessions without a stage.
\<close>

lemma has_stage_stages:
  assumes "context_session s" "schema_session s" "length (stages s) \<le> 1"
  shows "if has_stage s then \<exists>g. stages s = [g] \<and> active_generation s = Inr (generation (stage_binding g)) else stages s = []"
proof (cases "stages s")
  case Nil
  then show ?thesis using assms(1) by (simp add: context_session_def has_stage_def)
next
  case (Cons g gs)
  then have one: "stages s = [g]" using assms(3) by simp
  then have cur: "currentStageId s = Some (stageId g)" using assms(1) by (simp add: context_session_def)
  have "stageId g \<noteq> []" using assms(2) by (auto simp: schema_session_def one schema_stage_def isId_nonempty)
  then show ?thesis by (simp add: one cur has_stage_def active_generation_def activeStage_def)
qed

lemma insert_session_run:
  assumes "insert_session s db = Inr (u, db')" "context_session s" "schema_session s" "length (stages s) \<le> 1"
  shows "jm_get (db_sessions db) (ss_namespace s) = None" "ss_namespace s \<notin> set (db_tombstones db)"
    "db' = db\<lparr>db_sessions := jm_set (db_sessions db) (ss_namespace s) s, db_generations := db_generations db @
       map (Pair (ss_namespace s)) (map (\<lambda>g. generation (stage_binding g)) (stages s))\<rparr>"
  using assms(1) has_stage_stages [OF assms(2-4)]
  by (auto simp: insert_session_def jm_has_def put_generation_def Let_def split: if_splits)

lemma create_run:
  assumes "store_create e bd s st = (Inr u, st')" "length (stages s) \<le> 1"
  obtains w where "createState e defaultLimits s = Inr w"
    "jm_get (db_sessions (st_db st)) (ss_namespace s) = None" "ss_namespace s \<notin> set (db_tombstones (st_db st))"
    "st_db st' = (st_db st)\<lparr>db_sessions := jm_set (db_sessions (st_db st)) (ss_namespace s) s,
       db_generations := db_generations (st_db st) @ map (Pair (ss_namespace s)) (ws_generations w)\<rparr>"
proof -
  obtain r0 st0 where tr: "transact st (create_action e bd s) = (r0, st0)" by (rule prod.exhaust) (rule that)
  have fin: "r0 = Inr ()" "st_db st' = st_db st0"
    using assms(1) by (auto simp: store_create_def tr own_def split: sum.splits if_splits)
  from tr show ?thesis
  proof (cases rule: transact_cases)
    case failed
    then show ?thesis using fin by simp
  next
    case (committed v db)
    then obtain w where w: "createState e defaultLimits s = Inr w" and ins: "insert_session s (st_db st) = Inr (v, db)"
      by (auto simp: create_action_def split: if_splits)
    have ok: "context_session s" "schema_session s"
      and gens: "ws_generations w = remdups (map (\<lambda>stage. generation (stage_binding stage)) (stages s))"
      using w by (auto simp: createState_def valid_None split: if_splits)
    have "length (map (\<lambda>stage. generation (stage_binding stage)) (stages s)) \<le> 1" using assms(2) by simp
    then have one: "ws_generations w = map (\<lambda>stage. generation (stage_binding stage)) (stages s)"
      unfolding gens by (cases "stages s") auto
    note run = insert_session_run [OF ins ok assms(2)]
    show ?thesis by (rule that [OF w run(1,2)]) (simp add: fin(2) committed(3) run(3) one)
  qed
qed

end
