(* ===== verification/Store_Steps.thy ===== *)
theory Store_Steps
  imports Store_Reach
begin

text \<open>
  Creation and pruning preserve the database invariant too; the step relation of the whole
  store, the states it reaches from the empty database, and what follows: every stored session
  is a reachable workspace.
\<close>

section \<open>Creation\<close>

lemma no_rows_sessions [simp]: "no_rows (db\<lparr>db_sessions := x\<rparr>) n = no_rows db n"
  by (simp add: no_rows_def scoped_generations_def)

lemma create_store_ok:
  assumes "store_create e bd s st = (r, st')" "length (stages s) \<le> 1"
  shows "store_ok (st_db st) (st_db st')"
proof (cases r)
  case (Inl f)
  then have "st_db st' = st_db st"
    using assms(1) by (auto simp: store_create_def transact_def split: sum.splits)
  then show ?thesis by simp
next
  case (Inr u)
  let ?db = "st_db st" and ?db' = "st_db st'" and ?n = "ss_namespace s"
  obtain w where w: "createState e defaultLimits s = Inr w"
    and fresh: "jm_get (db_sessions ?db) ?n = None" "?n \<notin> set (db_tombstones ?db)"
    and db': "?db' = ?db\<lparr>db_sessions := jm_set (db_sessions ?db) ?n s,
       db_generations := db_generations ?db @ map (Pair ?n) (ws_generations w)\<rparr>"
    by (rule create_run [OF assms(1) [unfolded Inr] assms(2)])
  have gens: "scoped_generations m ?db' = scoped_generations m ?db @ (if m = ?n then ws_generations w else [])" for m
    by (simp add: db' scoped_generations_def filter_map comp_def)
  have other: "content ?db' m t = content ?db m t" if "m \<noteq> ?n" for m t
    using that by (simp add: content_def gens) (simp add: db')
  have sessions: "jm_get (db_sessions ?db') m = (if m = ?n then Some s else jm_get (db_sessions ?db) m)" for m
    by (simp add: db')
  have tomb: "db_tombstones ?db' = db_tombstones ?db" by (simp add: db')
  have empty: "content ?db' ?n s = w" if "no_rows ?db ?n"
  proof -
    have "content ?db' ?n s = \<lparr>ws_session = s, ws_generations = ws_generations w, ws_commands = [], ws_events = [],
        ws_interactions = [], ws_deliveries = [], ws_surfaces = []\<rparr>"
      using that by (simp add: content_def gens) (simp add: db' no_rows_def jm_values_def)
    also have "\<dots> = w" using w by (auto simp: createState_def split: if_splits)
    finally show ?thesis .
  qed
  show ?thesis
  proof (unfold store_ok_def, intro impI conjI)
    assume inv: "store_inv ?db"
    have none: "no_rows ?db ?n" using inv fresh(1) by (simp add: store_inv_def)
    have new: "reachable (content ?db' ?n s)" using Created [OF w] by (simp add: empty [OF none])
    have "no_rows ?db' m" if "jm_get (db_sessions ?db') m = None" for m
      using inv that other by (auto simp: store_inv_def sessions no_rows_content split: if_splits)
    moreover have "jm_wf (db_sessions ?db')" "jm_wf (db_events ?db')" using inv by (simp_all add: store_inv_def db')
    ultimately show "store_inv ?db'"
      using inv new fresh(2) by (auto simp: store_inv_def sessions tomb other)
    have "session_at ?db' m = ((session_at ?db)(?n \<mapsto> w)) m" for m
      by (cases "m = ?n"; cases "jm_get (db_sessions ?db) m") (simp_all add: session_at_def sessions empty [OF none] other)
    then have "session_at ?db' = (session_at ?db)(?n \<mapsto> w)" by (rule ext)
    then have "abs_store ?db' = abs_store ?db\<lparr>sp_sessions := (sp_sessions (abs_store ?db))(?n \<mapsto> w)\<rparr>"
      by (simp add: abs_store_def tomb)
    then have "spec_step (abs_store ?db) (abs_store ?db')"
      using Spec_create [OF w refl, of "abs_store ?db"] fresh by (simp add: abs_store_def session_at_def)
    then show "spec_step\<^sup>*\<^sup>* (abs_store ?db) (abs_store ?db')" by blast
  qed
qed

section \<open>Pruning\<close>

lemma scoped_drop: "scoped m (drop_scope n t) = (if m = n then [] else scoped m t)"
  by (induction t) (auto simp: drop_scope_def scoped_Cons split: prod.splits)

lemma drop_generations: "filter (\<lambda>(i, g). i = m) (filter (\<lambda>(i, g). i \<noteq> n) gs) =
    (if m = n then [] else filter (\<lambda>(i, g). i = m) gs)"
  by (induction gs) auto

lemma prune_one_step:
  assumes "prune_one n db = Inr db'"
  shows "n \<notin> set (db_tombstones db)" "db_tombstones db' = db_tombstones db @ [n]"
    "session_at db' = (session_at db)(n := None)"
    "store_inv db \<Longrightarrow> store_inv db'"
proof -
  show new: "n \<notin> set (db_tombstones db)" and tomb: "db_tombstones db' = db_tombstones db @ [n]"
    using assms by (auto simp: prune_one_def split: if_splits)
  have ses: "db_sessions db' = jm_delete (db_sessions db) n"
    using assms by (auto simp: prune_one_def split: if_splits)
  have gens: "scoped_generations m db' = (if m = n then [] else scoped_generations m db)" for m
    using assms by (auto simp: prune_one_def scoped_generations_def drop_generations simp del: filter_filter split: if_splits)
  have none: "no_rows db' n"
    using assms gens by (auto simp: prune_one_def no_rows_def scoped_drop split: if_splits)
  have other: "content db' m t = content db m t" if "m \<noteq> n" for m t
    using that gens [of m] assms by (auto simp: prune_one_def content_def scoped_drop split: if_splits)
  have get: "jm_get (db_sessions db') m = (if m = n then None else jm_get (db_sessions db) m)" for m
    by (simp add: ses jm_get_delete)
  have kept: "no_rows db' m" if "m \<noteq> n" "no_rows db m" for m
    using that other by (simp add: no_rows_content)
  have "session_at db' m = ((session_at db)(n := None)) m" for m
    by (cases "jm_get (db_sessions db) m") (simp_all add: session_at_def get other)
  then show "session_at db' = (session_at db)(n := None)" by (rule ext)
  assume inv: "store_inv db"
  have "ss_namespace s = m \<and> m \<notin> set (db_tombstones db') \<and> reachable (content db' m s)"
    if "jm_get (db_sessions db') m = Some s" for m s
    using that inv new by (auto simp: get tomb other store_inv_def split: if_splits)
  moreover have "no_rows db' m" if "jm_get (db_sessions db') m = None" for m
    using that inv none kept by (cases "m = n") (auto simp: get store_inv_def)
  moreover have "jm_wf (db_sessions db')" using inv by (simp add: store_inv_def ses jm_wf_delete)
  moreover have "jm_wf (db_events db')"
    using inv assms by (auto simp: store_inv_def prune_one_def drop_scope_def jm_wf_def distinct_map_filter split: if_splits)
  ultimately show "store_inv db'" unfolding store_inv_def by blast
qed

lemma prune_one_store_ok:
  assumes "prune_one n db = Inr db'" "session_at db n = Some w" "expired_at now w"
  shows "store_ok db db'"
proof -
  note step = prune_one_step [OF assms(1)]
  have "abs_store db' = abs_store db\<lparr>sp_sessions := (sp_sessions (abs_store db))(n := None),
      sp_spent := insert n (sp_spent (abs_store db))\<rparr>"
    by (simp add: abs_store_def step(2,3))
  then have "spec_step (abs_store db) (abs_store db')"
    using Spec_prune [of "abs_store db" n w now] assms(2,3) by (simp add: abs_store_def)
  then show ?thesis using step(4) by (auto simp: store_ok_def)
qed

lemma prunable_expired:
  assumes "(n, s) \<in> set (db_sessions db)" "prunable now db (n, s)" "store_inv db"
  shows "\<exists>w. session_at db n = Some w \<and> expired_at now w"
  using assms by (auto simp: store_inv_def jm_mem_get session_at_def expired_at_def prunable_def content_def)

lemma prune_run_ok:
  assumes "loop_exit prune_one rows db = Inr db'"
    and "\<And>n. n \<in> set rows \<Longrightarrow> \<exists>w. session_at db n = Some w \<and> expired_at now w"
  shows "store_ok db db' \<and> (\<forall>m. m \<notin> set rows \<longrightarrow> session_at db' m = session_at db m) \<and>
    db_tombstones db' = db_tombstones db @ rows \<and> (\<forall>n \<in> set rows. session_at db' n = None)"
proof (rule loop_exit_invariant [OF assms(1), of "\<lambda>past w. store_ok db w \<and>
    (\<forall>m. m \<notin> set past \<longrightarrow> session_at w m = session_at db m) \<and> db_tombstones w = db_tombstones db @ past \<and>
    (\<forall>n \<in> set past. session_at w n = None)"], goal_cases)
  case (2 past n t t')
  note step = prune_one_step [OF 2(4)]
  have "n \<notin> set past" using step(1) 2(3) by auto
  moreover obtain w where "session_at db n = Some w" "expired_at now w" using assms(2) 2(2) by blast
  ultimately have "store_ok t t'" using 2(3) by (intro prune_one_store_ok [OF 2(4)]) auto
  then have "store_ok db t'" using 2(3) store_ok_trans by blast
  then show ?case using step(2,3) 2(3) by auto
qed simp

lemma prune_run:
  assumes "store_pruneRetired bd now st = (r, st')"
  obtains (failed) f where "r = Inl f" "st' = st"
    | (pruned) rows where "r = Inr (int (length rows))" "loop_exit prune_one rows (st_db st) = Inr (st_db st')"
      "rows = take (nat (maxBatchRecords bd)) (map fst (filter (prunable now (st_db st)) (db_sessions (st_db st))))"
  using assms unfolding store_pruneRetired_def
proof (cases rule: transact_cases)
  case failed
  then show ?thesis using that(1) by blast
next
  case (committed v db)
  then show ?thesis using that(2) by (auto simp: Let_def split: if_splits)
qed

lemma prune_targets:
  assumes "n \<in> set (take k (map fst (filter (prunable now db) (db_sessions db))))" "store_inv db"
  shows "\<exists>w. session_at db n = Some w \<and> expired_at now w"
  using assms(1) prunable_expired [OF _ _ assms(2)] by (fastforce dest!: in_set_takeD)

lemma prune_store_ok:
  assumes "store_pruneRetired bd now st = (r, st')"
  shows "store_ok (st_db st) (st_db st')"
proof (cases "store_inv (st_db st)")
  case True
  from assms show ?thesis
  proof (cases rule: prune_run)
    case (pruned rows)
    then show ?thesis using prune_run_ok [OF pruned(2)] prune_targets [OF _ True] by blast
  qed simp
qed (simp add: store_ok_def)

section \<open>The store as a machine\<close>

text \<open>
  One write by some caller, with any outcome; the store also closes. A process may stop at any
  point and another open the database: a transaction is committed or leaves no trace. The relation
  is given the sessions that are created: \<^verbatim>\<open>create\<close> of a session with several stages records the
  generation of the active one only, so the stored session would not be the created workspace
  (\<open>staged_creation_loses_generation\<close>). The host creates sessions without stages (\<^verbatim>\<open>productSession\<close>);
  \<open>single_stage\<close> is what the theorems about stored sessions require of a creation.
\<close>

inductive store_write_of :: "(session \<Rightarrow> bool) \<Rightarrow> store \<Rightarrow> store \<Rightarrow> bool" for creates :: "session \<Rightarrow> bool" where
  Store_create: "store_create e bd s st = (r, st') \<Longrightarrow> creates s \<Longrightarrow> store_write_of creates st st'"
| Store_accept: "store_accept e bd inp st = (a, st') \<Longrightarrow> store_write_of creates st st'"
| Store_commit: "store_commit e bd b st = (r, st') \<Longrightarrow> store_write_of creates st st'"
| Store_rebind: "store_rebind e bd ri restored st = (x, st') \<Longrightarrow> store_write_of creates st st'"
| Store_activate: "store_activateStage e bd xi st = (x, st') \<Longrightarrow> store_write_of creates st st'"
| Store_suspend: "store_suspend e bd si st = (x, st') \<Longrightarrow> store_write_of creates st st'"
| Store_recover: "store_recoverUnavailable e bd ri st = (x, st') \<Longrightarrow> store_write_of creates st st'"
| Store_retire: "store_retire e bd n revn gen st = (r, st') \<Longrightarrow> store_write_of creates st st'"
| Store_select: "store_selectConnection e bd n i revn fresh st = (x, st') \<Longrightarrow> store_write_of creates st st'"
| Store_prune: "store_pruneRetired bd now st = (k, st') \<Longrightarrow> store_write_of creates st st'"
| Store_preferences: "store_savePreferences e ca patch st = (u, st') \<Longrightarrow> store_write_of creates st st'"
| Store_connection: "store_saveConnection url_ok cc bd ca nxt expected secret st = (c, st') \<Longrightarrow> store_write_of creates st st'"
| Store_test: "store_recordConnectionTest ca i expected result st = (c, st') \<Longrightarrow> store_write_of creates st st'"
| Store_reserve: "store_reserveLaunch l st = (r, st') \<Longrightarrow> store_write_of creates st st'"
| Store_register: "store_registerLaunch n i sc st = (r, st') \<Longrightarrow> store_write_of creates st st'"
| Store_release: "store_releaseLaunch n i st = (r, st') \<Longrightarrow> store_write_of creates st st'"

inductive store_step_of :: "(session \<Rightarrow> bool) \<Rightarrow> store \<Rightarrow> store \<Rightarrow> bool" for creates :: "session \<Rightarrow> bool" where
  Store_write: "store_write_of creates st st' \<Longrightarrow> store_step_of creates st st'"
| Store_close: "store_close ms signalled aborted closes st = (r, st') \<Longrightarrow> store_step_of creates st st'"
| Store_restart: "store_open e bd (st_db st) = Inr st' \<Longrightarrow> store_step_of creates st st'"

definition single_stage :: "session \<Rightarrow> bool" where
  "single_stage s \<longleftrightarrow> length (stages s) \<le> 1"

abbreviation "store_write \<equiv> store_write_of single_stage"
abbreviation "store_step \<equiv> store_step_of single_stage"

definition empty_database :: database where
  "empty_database = \<lparr>db_sessions = [], db_generations = [], db_commands = [], db_events = [], db_interactions = [],
     db_surfaces = [], db_deliveries = [], db_tombstones = [], db_connections = [], db_preferences = [], db_launches = []\<rparr>"

definition empty_store :: store where
  "empty_store = \<lparr>st_db = empty_database, st_owned = [], st_closing = False, st_closed = False\<rparr>"

inductive reachable_store_of :: "(session \<Rightarrow> bool) \<Rightarrow> store \<Rightarrow> bool" for creates :: "session \<Rightarrow> bool" where
  Fresh_store: "reachable_store_of creates empty_store"
| Next_store: "reachable_store_of creates st \<Longrightarrow> store_step_of creates st st' \<Longrightarrow> reachable_store_of creates st'"

abbreviation "reachable_store \<equiv> reachable_store_of single_stage"

text \<open>A smaller set of creations gives fewer runs.\<close>

lemma store_write_mono:
  assumes "store_write_of P st st'" "\<forall>s. P s \<longrightarrow> Q s"
  shows "store_write_of Q st st'"
  using assms by (induction rule: store_write_of.induct) (blast intro: store_write_of.intros)+

lemma store_step_mono:
  assumes "store_step_of P st st'" "\<forall>s. P s \<longrightarrow> Q s"
  shows "store_step_of Q st st'"
  using assms by (induction rule: store_step_of.induct) (blast intro: store_step_of.intros store_write_mono)+

lemma reachable_store_mono:
  assumes "reachable_store_of P st" "\<forall>s. P s \<longrightarrow> Q s"
  shows "reachable_store_of Q st"
  using assms by (induction rule: reachable_store_of.induct) (blast intro: reachable_store_of.intros store_step_mono)+

lemma close_db: "store_close ms signalled aborted closes st = (r, st') \<Longrightarrow> st_db st' = st_db st"
  by (auto simp: store_close_def Let_def split: if_splits sum.splits)

lemma open_db: "store_open e bd db = Inr st \<Longrightarrow> st = \<lparr>st_db = db, st_owned = [], st_closing = False, st_closed = False\<rparr>"
  by (simp add: store_open_def)

lemma write_store_ok: "store_write st st' \<Longrightarrow> store_ok (st_db st) (st_db st')"
  by (induction rule: store_write_of.induct) (simp_all add: single_stage_def create_store_ok accept_store_ok commit_store_ok rebind_store_ok
      activate_store_ok suspend_store_ok recover_store_ok retire_store_ok select_store_ok prune_store_ok
      savePreferences_store_ok saveConnection_store_ok recordTest_store_ok launch_store_ok)

lemma step_store_ok: "store_step st st' \<Longrightarrow> store_ok (st_db st) (st_db st')"
proof (induction rule: store_step_of.induct)
  case (Store_close ms signalled aborted closes st r st')
  then show ?case by (simp add: close_db)
next
  case (Store_restart e bd st st')
  have "st_db st' = st_db st" using open_db [OF Store_restart] by simp
  then show ?case by simp
qed (rule write_store_ok)

lemma empty_inv: "store_inv empty_database"
  by (simp add: store_inv_def empty_database_def no_rows_def scoped_generations_def)

lemma reachable_store_inv: "reachable_store st \<Longrightarrow> store_inv (st_db st)"
proof (induction rule: reachable_store_of.induct)
  case Fresh_store
  then show ?case by (simp add: empty_store_def empty_inv)
next
  case (Next_store st st')
  then show ?case using step_store_ok by (simp add: store_ok_def)
qed

lemma reachable_store_rtrancl: "reachable_store st \<Longrightarrow> store_step\<^sup>*\<^sup>* st st' \<Longrightarrow> reachable_store st'"
  by (rotate_tac, induction rule: rtranclp_induct) (auto intro: Next_store)

end
