(* ===== verification/Store_Demo.thy ===== *)
theory Store_Demo
  imports Store_Steps Session_Demo_Handoff
begin

text \<open>
  The demonstration session in the durable store: created, one prompt accepted and dispatched;
  and, on another path, retired and pruned.
\<close>

definition demo_bounds :: bounds where
  "demo_bounds = \<lparr>maxSessionRecords = 1000, maxSessionBytes = 1000000000, maxBatchRecords = 100, maxQueryBytes = 1000000\<rparr>"

lemma demo_bounds_sel [simp]: "maxSessionRecords demo_bounds = 1000" "maxSessionBytes demo_bounds = 1000000000"
  "maxBatchRecords demo_bounds = 100" "maxQueryBytes demo_bounds = 1000000"
  by (simp_all add: demo_bounds_def)

text \<open>The size of a valid row.\<close>

lemma row_size:
  assumes "valid dg defaultLimits row = None"
  shows "serialised row = Inr (row_bytes row)" "0 \<le> row_bytes row" "row_bytes row \<le> 262144"
proof -
  have f: "fits defaultLimits (json_of_row row)" using assms by (simp add: valid_None)
  then have "boundedJson defaultLimits (json_of_row row) = Inr (json_print (json_of_row row))"
    by (simp add: boundedJson_Inr)
  then show "serialised row = Inr (row_bytes row)" by (simp add: serialised_def row_bytes_def)
  show "0 \<le> row_bytes row" by (simp add: row_bytes_def byteLength_nonneg)
  show "row_bytes row \<le> 262144" using f by (simp add: fits_def defaultLimits_def row_bytes_def)
qed

lemmas demo_serialised = demo_session_valid [THEN row_size(1)] demo_record_valid [THEN row_size(1)]
  demo_event_valid [THEN row_size(1)]

section \<open>Creation and acceptance\<close>

definition demo_db_created :: database where
  "demo_db_created = empty_database\<lparr>db_sessions := [(demo_ns, demo_session 0 0)], db_generations := [(demo_ns, ''g1'')]\<rparr>"

definition demo_db_accepted :: database where
  "demo_db_accepted = empty_database\<lparr>db_sessions := [(demo_ns, demo_session 1 1)], db_generations := [(demo_ns, ''g1'')],
     db_commands := [((demo_ns, ''p1''), demo_record Accepted)],
     db_events := [((demo_ns, ''e1''), demo_event ''e1'' 1 None (Command_accepted demo_prompt))]\<rparr>"

definition demo_store :: "database \<Rightarrow> store" where
  "demo_store db = \<lparr>st_db = db, st_owned = [(namespace_text demo_ns, ''g1'')], st_closing = False, st_closed = False\<rparr>"

lemma demo_generation: "active_generation (demo_session r n) = Inr ''g1''"
  by (simp add: active_generation_def demo_active) (simp add: providerStage_def)

lemma demo_create_store: "store_create demo_env demo_bounds (demo_session 0 0) empty_store = (Inr (), demo_store demo_db_created)"
proof -
  have "insert_session (demo_session 0 0) empty_database = Inr ((), demo_db_created)"
    by (simp add: insert_session_def empty_database_def demo_db_created_def jm_has_def has_stage_def demo_generation
        put_generation_def jm_set_def)
  moreover have "serialised (Row_session (demo_session 0 0)) = Inr (row_bytes (Row_session (demo_session 0 0)))"
    "row_bytes (Row_session (demo_session 0 0)) \<le> 262144"
    by (simp_all add: demo_serialised demo_session_valid [THEN row_size(3)])
  ultimately have "create_action demo_env demo_bounds (demo_session 0 0) empty_database = Inr ((), demo_db_created)"
    using demo_create by (simp add: create_action_def demo_created_def id_bytes_def)
  then show ?thesis
    by (simp add: store_create_def transact_def query_def empty_store_def has_stage_def demo_generation own_def jm_set_def demo_store_def)
qed

lemma demo_content: "content demo_db_created demo_ns (demo_session 0 0) = demo_created"
  "content demo_db_accepted demo_ns (demo_session 1 1) = demo_accepted"
  by (simp_all add: content_def demo_db_created_def demo_db_accepted_def empty_database_def scoped_generations_def scoped_Cons
      demo_created_def demo_accepted_def jm_values_def)

lemma load_stateI:
  assumes "jm_get (db_sessions db) n = Some s" "decode_row e (Row_session s) = None" "ss_namespace s = n"
    "schema_namespace n" "active_generation s = Inr g" "g \<in> set (scoped_generations n db)"
  shows "load_state e db n = Inr (content db n s)"
proof -
  have "read_session e db n = Inr s" using assms(1-4) by (simp add: read_session_def)
  moreover have "stage_recorded db n s = None"
    using assms(5,6) by (auto simp: stage_recorded_def active_generation_def split: sum.splits)
  ultimately show ?thesis by (simp add: load_state_def)
qed

lemma demo_decode:
  assumes "0 \<le> r" "r \<le> 9" "0 \<le> n" "n \<le> 9"
  shows "decode_row demo_env (Row_session (demo_session r n)) = None"
  using demo_session_valid [OF assms] by (simp add: decode_row_def)

lemma demo_load: "load_state demo_env demo_db_created demo_ns = Inr demo_created"
  "load_state demo_env demo_db_accepted demo_ns = Inr demo_accepted"
  unfolding demo_content [symmetric]
  by (rule load_stateI [where g = "''g1''"];
      simp add: demo_decode demo_generation demo_db_created_def demo_db_accepted_def jm_get_def scoped_generations_def)+

text \<open>Saving a transition that adds one event and rewrites one command.\<close>

lemma demo_save_accepted: "save demo_bounds demo_created demo_accepted demo_db_created = Inr demo_db_accepted"
proof -
  let ?c = "demo_record Accepted" and ?ev = "demo_event ''e1'' 1 None (Command_accepted demo_prompt)"
  have delta: "new_generations demo_created demo_accepted = []" "new_events demo_created demo_accepted = [?ev]"
    "changed (ws_commands demo_created) (ws_commands demo_accepted) = [?c]"
    "changed (ws_interactions demo_created) (ws_interactions demo_accepted) = []"
    "changed (ws_surfaces demo_created) (ws_surfaces demo_accepted) = []"
    "changed (ws_deliveries demo_created) (ws_deliveries demo_accepted) = []"
    by (simp_all add: new_generations_def new_events_def changed_def demo_accepted_def demo_created_def jm_get_def)
  have rows: "ws_session demo_created = demo_session 0 0" "ws_session demo_accepted = demo_session 1 1"
    by (simp_all add: demo_created_def demo_accepted_def)
  have tables: "scoped demo_ns (db_commands demo_db_created) = []" "scoped demo_ns (db_events demo_db_created) = []"
    "scoped demo_ns (db_interactions demo_db_created) = []" "scoped demo_ns (db_surfaces demo_db_created) = []"
    "scoped demo_ns (db_deliveries demo_db_created) = []" "scoped_generations demo_ns demo_db_created = [''g1'']"
    by (simp_all add: demo_db_created_def empty_database_def scoped_generations_def)
  have "size_check demo_bounds demo_db_created demo_ns demo_created demo_accepted = None"
    using demo_session_valid [of 1 1, THEN row_size(3)] demo_record_valid [of Accepted, THEN row_size(3)]
      demo_event_valid(1) [THEN row_size(3)]
    by (simp add: size_check_def delta rows totals_def tables table_size_def id_bytes_def grow_def Let_def jm_get_def
        demo_serialised)
  moreover have "dispatch ?c = None" "record_id ?c = ''p1''" by (simp_all add: demo_record_def demo_prompt_def)
  moreover have "ev_commandId ?ev = Some ''p1''" "eventId ?ev = ''e1''" "ev_generation ?ev = ''g1''" "sequence ?ev = 1"
    by (simp_all add: demo_event_def)
  moreover have "generation_column (demo_session 0 0) = Some ''g1''" "expected_generation (demo_session 0 0) = Inr (Some ''g1'')"
    by (simp_all add: generation_column_def expected_generation_def demo_active)
       (simp_all add: demo_session_def providerStage_def)
  ultimately show ?thesis
    by (simp add: save_def Let_def rows delta put_command_def put_event_def put_session_def)
       (simp add: demo_db_created_def demo_db_accepted_def empty_database_def jm_set_def jm_get_def jm_has_def
          jm_values_def scoped_generations_def)
qed

lemma demo_writable: "writable_session (demo_store db) (demo_session r n) = None"
  by (simp add: writable_session_def demo_generation demo_store_def jm_get_def)

lemma demo_accept_store: "store_accept demo_env demo_bounds demo_accept (demo_store demo_db_created) =
    (Inr demo_receipt, demo_store demo_db_accepted)"
proof -
  have "ai_namespace demo_accept = demo_ns" by (simp add: demo_accept_def)
  moreover have "demo_accepted \<noteq> demo_created" by (simp add: demo_accepted_def demo_created_def)
  moreover have "ws_session demo_created = demo_session 0 0" by (simp add: demo_created_def)
  ultimately show ?thesis
    using demo_writable [of demo_db_created 0 0]
    by (simp add: store_accept_def transact_def query_def demo_store_def demo_load demo_accept_run demo_save_accepted)
qed

lemma demo_reachable: "reachable_store (demo_store demo_db_created)" "reachable_store (demo_store demo_db_accepted)"
proof -
  have "single_stage (demo_session 0 0)" by (simp add: single_stage_def demo_session_def)
  then show c: "reachable_store (demo_store demo_db_created)"
    using Store_write [OF Store_create [OF demo_create_store]] Fresh_store Next_store by blast
  then show "reachable_store (demo_store demo_db_accepted)"
    using Store_write [OF Store_accept [OF demo_accept_store]] Next_store by blast
qed

lemma demo_at: "session_at demo_db_created demo_ns = Some demo_created" "session_at demo_db_accepted demo_ns = Some demo_accepted"
  by (simp_all add: session_at_def demo_content [symmetric])
     (simp_all add: demo_db_created_def demo_db_accepted_def jm_get_def)

section \<open>A commit\<close>

definition demo_db_dispatching :: database where
  "demo_db_dispatching = empty_database\<lparr>db_sessions := [(demo_ns, demo_session 2 3)], db_generations := [(demo_ns, ''g1'')],
     db_commands := [((demo_ns, ''p1''), demo_record (Dispatching (demo_attempt Intent)))],
     db_events := [((demo_ns, ''e1''), demo_event ''e1'' 1 None (Command_accepted demo_prompt)),
       ((demo_ns, ''e2''), demo_event ''e2'' 2 (Some ''x1'') (Dispatch_reported (demo_attempt Intent))),
       ((demo_ns, ''e3''), demo_event ''e3'' 3 (Some ''x1'') (Status_changed Live_dispatching))]\<rparr>"

lemma demo_save_dispatching: "save demo_bounds demo_accepted demo_dispatching demo_db_accepted = Inr demo_db_dispatching"
proof -
  let ?a = "demo_record Accepted" and ?c = "demo_record (Dispatching (demo_attempt Intent))"
    and ?e1 = "demo_event ''e1'' 1 None (Command_accepted demo_prompt)"
    and ?e2 = "demo_event ''e2'' 2 (Some ''x1'') (Dispatch_reported (demo_attempt Intent))"
    and ?e3 = "demo_event ''e3'' 3 (Some ''x1'') (Status_changed Live_dispatching)"
  have differ: "?a \<noteq> ?c" by (simp add: demo_record_def)
  have id: "record_id ?c = ''p1''" "dispatch ?c = Some (demo_attempt Intent)" "observerGeneration (demo_attempt Intent) = ''g1''"
    by (simp_all add: demo_record_def demo_prompt_def demo_attempt_def)
  have ev: "ev_commandId (demo_event i n a y) = Some ''p1''" "eventId (demo_event i n a y) = i"
    "ev_generation (demo_event i n a y) = ''g1''" "sequence (demo_event i n a y) = n" for i n a y
    by (simp_all add: demo_event_def)
  have delta: "new_generations demo_accepted demo_dispatching = []" "new_events demo_accepted demo_dispatching = [?e2, ?e3]"
    "changed (ws_commands demo_accepted) (ws_commands demo_dispatching) = [?c]"
    "changed (ws_interactions demo_accepted) (ws_interactions demo_dispatching) = []"
    "changed (ws_surfaces demo_accepted) (ws_surfaces demo_dispatching) = []"
    "changed (ws_deliveries demo_accepted) (ws_deliveries demo_dispatching) = []"
    using differ by (simp_all add: new_generations_def new_events_def changed_def demo_dispatching_simp demo_accepted_def
        demo_created_def jm_get_def)
  have rows: "ws_session demo_accepted = demo_session 1 1" "ws_session demo_dispatching = demo_session 2 3"
    by (simp_all add: demo_accepted_def demo_dispatching_simp)
  have tables: "scoped demo_ns (db_commands demo_db_accepted) = [(''p1'', ?a)]"
    "scoped demo_ns (db_events demo_db_accepted) = [(''e1'', ?e1)]"
    "scoped demo_ns (db_interactions demo_db_accepted) = []" "scoped demo_ns (db_surfaces demo_db_accepted) = []"
    "scoped demo_ns (db_deliveries demo_db_accepted) = []" "scoped_generations demo_ns demo_db_accepted = [''g1'']"
    by (simp_all add: demo_db_accepted_def empty_database_def scoped_generations_def scoped_Cons)
  have "size_check demo_bounds demo_db_accepted demo_ns demo_accepted demo_dispatching = None"
    using demo_session_valid [of 2 3, THEN row_size(3)] demo_record_valid [of "Dispatching (demo_attempt Intent)", THEN row_size(3)]
      demo_record_valid [of Accepted, THEN row_size(2)] demo_event_valid [THEN row_size(3)]
    by (simp add: size_check_def delta rows totals_def tables table_size_def id_bytes_def grow_def Let_def jm_get_def
        demo_serialised id ev)
  moreover have "generation_column (demo_session 1 1) = Some ''g1''" "expected_generation (demo_session 1 1) = Inr (Some ''g1'')"
    by (simp_all add: generation_column_def expected_generation_def demo_active)
       (simp_all add: demo_session_def providerStage_def)
  ultimately show ?thesis
    by (simp add: save_def Let_def rows delta put_command_def put_event_def put_session_def id ev)
       (simp add: demo_db_accepted_def demo_db_dispatching_def empty_database_def jm_set_def jm_get_def jm_has_def
          jm_values_def scoped_generations_def scoped_Cons ev)
qed

lemma demo_commit_store: "store_commit demo_env demo_bounds demo_dispatch (demo_store demo_db_accepted) =
    (Inr (), demo_store demo_db_dispatching)"
proof -
  have "cb_namespace demo_dispatch = demo_ns" "batch_size demo_dispatch = 3"
    by (simp_all add: demo_dispatch_def batch_size_def)
  moreover have "ws_session demo_accepted = demo_session 1 1" by (simp add: demo_accepted_def)
  moreover have "commitSession demo_env defaultLimits demo_accepted demo_dispatch = Inr demo_dispatching"
    by (simp add: commitSession_def demo_dispatch_run)
  moreover have "\<not> isDeliveryCommit demo_accepted demo_dispatch" by (simp add: isDeliveryCommit_def demo_dispatch_def)
  ultimately show ?thesis
    using demo_writable [of demo_db_accepted 1 1]
    by (simp add: store_commit_def transact_def query_def demo_store_def demo_load demo_save_dispatching)
qed

section \<open>Recovery\<close>

definition demo_db_recovering :: database where
  "demo_db_recovering = demo_db_dispatching\<lparr>db_sessions := [(demo_ns, (demo_session 3 5)\<lparr>status := Recovery_required\<rparr>)],
     db_commands := [((demo_ns, ''p1''), demo_record (Uncertain (demo_attempt Intent)))],
     db_events := db_events demo_db_dispatching @ [((demo_ns, ''drebind''), demo_lost_event),
       ((demo_ns, ''dcommand-p1''), demo_uncertain_event)]\<rparr>"

lemma demo_event_sel: "ev_commandId (demo_event i n a y) = Some ''p1''" "eventId (demo_event i n a y) = i"
  "ev_generation (demo_event i n a y) = ''g1''" "sequence (demo_event i n a y) = n"
  by (simp_all add: demo_event_def)

lemma demo_handoff_sel: "eventId demo_lost_event = ''drebind''" "sequence demo_lost_event = 4"
  "ev_commandId demo_lost_event = None" "ev_generation demo_lost_event = ''g1''"
  "eventId demo_uncertain_event = ''dcommand-p1''" "sequence demo_uncertain_event = 5"
  "ev_commandId demo_uncertain_event = Some ''p1''" "ev_generation demo_uncertain_event = ''g1''"
  by (simp_all add: demo_lost_event_def demo_uncertain_event_def demo_event_def)

lemma demo_dispatching_content: "content demo_db_dispatching demo_ns (demo_session 2 3) = demo_dispatching"
  by (simp add: content_def demo_db_dispatching_def empty_database_def scoped_generations_def scoped_Cons
      demo_dispatching_simp jm_values_def demo_event_sel)

lemma demo_dispatching_load: "load_state demo_env demo_db_dispatching demo_ns = Inr demo_dispatching"
  unfolding demo_dispatching_content [symmetric]
  by (rule load_stateI [where g = "''g1''"];
      simp add: demo_decode demo_generation demo_db_dispatching_def jm_get_def scoped_generations_def)

lemma demo_uncertain_valid: "valid demo_digest defaultLimits (Row_record (demo_record (Uncertain (demo_attempt Intent)))) = None"
  by (intro row_validI; simp add: demo_row_eval)

lemma demo_save_recovering: "save demo_bounds demo_dispatching demo_recovering demo_db_dispatching = Inr demo_db_recovering"
proof -
  let ?a = "demo_record (Dispatching (demo_attempt Intent))" and ?c = "demo_record (Uncertain (demo_attempt Intent))"
    and ?s = "(demo_session 3 5)\<lparr>status := Recovery_required\<rparr>"
  have differ: "?a \<noteq> ?c" by (simp add: demo_record_def)
  have id: "record_id ?c = ''p1''" "dispatch ?c = Some (demo_attempt Intent)" "observerGeneration (demo_attempt Intent) = ''g1''"
    "ss_namespace ?s = demo_ns"
    by (simp_all add: demo_record_def demo_prompt_def demo_attempt_def)
  have delta: "new_generations demo_dispatching demo_recovering = []"
    "new_events demo_dispatching demo_recovering = [demo_lost_event, demo_uncertain_event]"
    "changed (ws_commands demo_dispatching) (ws_commands demo_recovering) = [?c]"
    "changed (ws_interactions demo_dispatching) (ws_interactions demo_recovering) = []"
    "changed (ws_surfaces demo_dispatching) (ws_surfaces demo_recovering) = []"
    "changed (ws_deliveries demo_dispatching) (ws_deliveries demo_recovering) = []"
    using differ by (simp_all add: new_generations_def new_events_def changed_def demo_recovering_def demo_dispatching_simp jm_get_def)
  have rows: "ws_session demo_dispatching = demo_session 2 3" "ws_session demo_recovering = ?s"
    by (simp_all add: demo_recovering_def demo_dispatching_simp)
  have tables: "scoped demo_ns (db_commands demo_db_dispatching) = [(''p1'', ?a)]"
    "jm_get (scoped demo_ns (db_events demo_db_dispatching)) ''drebind'' = None"
    "jm_get (scoped demo_ns (db_events demo_db_dispatching)) ''dcommand-p1'' = None"
    "scoped demo_ns (db_events demo_db_dispatching) =
       [(''e1'', demo_event ''e1'' 1 None (Command_accepted demo_prompt)),
        (''e2'', demo_event ''e2'' 2 (Some ''x1'') (Dispatch_reported (demo_attempt Intent))),
        (''e3'', demo_event ''e3'' 3 (Some ''x1'') (Status_changed Live_dispatching))]"
    "scoped demo_ns (db_interactions demo_db_dispatching) = []" "scoped demo_ns (db_surfaces demo_db_dispatching) = []"
    "scoped demo_ns (db_deliveries demo_db_dispatching) = []" "scoped_generations demo_ns demo_db_dispatching = [''g1'']"
    by (simp_all add: demo_db_dispatching_def empty_database_def scoped_generations_def scoped_Cons jm_get_def)
  have "size_check demo_bounds demo_db_dispatching demo_ns demo_dispatching demo_recovering = None"
    using demo_handoff_valid [THEN row_size(3)] demo_uncertain_valid [THEN row_size(3)]
      demo_record_valid [of "Dispatching (demo_attempt Intent)", THEN row_size(2)] demo_event_valid [THEN row_size(3)]
    by (simp add: size_check_def delta rows totals_def tables table_size_def id_bytes_def grow_def Let_def jm_get_def
        demo_handoff_valid [THEN row_size(1)] demo_uncertain_valid [THEN row_size(1)] id demo_handoff_sel)
  moreover have "generation_column (demo_session 2 3) = Some ''g1''" "expected_generation (demo_session 2 3) = Inr (Some ''g1'')"
    by (simp_all add: generation_column_def expected_generation_def demo_active)
       (simp_all add: demo_session_def providerStage_def)
  ultimately show ?thesis
    by (simp add: save_def Let_def rows delta put_command_def put_event_def put_session_def id demo_handoff_sel)
       (simp add: demo_db_dispatching_def demo_db_recovering_def empty_database_def jm_set_def jm_get_def jm_has_def
          jm_values_def scoped_generations_def scoped_Cons demo_event_sel demo_handoff_sel)
qed

lemma demo_recover_store: "store_recoverUnavailable demo_env demo_bounds demo_lost (demo_store demo_db_dispatching) =
    (Inr (ws_session demo_recovering), demo_store demo_db_recovering\<lparr>st_owned := []\<rparr>)"
proof -
  have "ri_namespace demo_lost = demo_ns" by (simp add: demo_lost_def)
  then show ?thesis
    by (simp add: store_recoverUnavailable_def reduce_session_def transact_def query_def demo_store_def
        demo_dispatching_load demo_recover_run demo_save_recovering release_def disown_def jm_delete_def)
qed

lemma demo_reachable_dispatching: "reachable_store (demo_store demo_db_dispatching)"
  using demo_reachable(2) Store_write [OF Store_commit [OF demo_commit_store]] Next_store by blast

section \<open>Retirement and pruning\<close>

definition demo_gone_event :: event where
  "demo_gone_event = (demo_event ''dretire-0'' 1 None Session_retired)\<lparr>ev_commandId := None\<rparr>"

definition demo_gone_session :: session where
  "demo_gone_session = (demo_session 1 1)\<lparr>status := Retired\<rparr>"

definition demo_gone :: workspace where
  "demo_gone = demo_created\<lparr>ws_session := demo_gone_session, ws_events := [demo_gone_event]\<rparr>"

definition demo_db_gone :: database where
  "demo_db_gone = demo_db_created\<lparr>db_sessions := [(demo_ns, demo_gone_session)],
     db_events := [((demo_ns, ''dretire-0''), demo_gone_event)]\<rparr>"

definition demo_db_pruned :: database where
  "demo_db_pruned = empty_database\<lparr>db_tombstones := [demo_ns]\<rparr>"

lemma demo_gone_valid:
  "valid demo_digest defaultLimits (Row_event demo_gone_event) = None"
  "valid demo_digest defaultLimits (Row_session demo_gone_session) = None"
proof -
  have "isId ''dretire-0''" by (simp add: isId_def id_char_def alphanumeric_def Let_def)
  then show "valid demo_digest defaultLimits (Row_event demo_gone_event) = None"
    "valid demo_digest defaultLimits (Row_session demo_gone_session) = None"
    by (intro row_validI; simp add: demo_row_eval demo_gone_event_def demo_gone_session_def)+
qed

lemma print_zero: "map char_of (json_int 0) = ''0''"
proof -
  have "char_of (48 :: nat) = CHR ''0''"
    by (rule of_char_eqI [where ?'a = nat]) simp
  then show ?thesis by (simp add: json_int_def decimal.simps)
qed

lemma demo_gone_run: "retireSession demo_env defaultLimits demo_created 0 ''g1'' = Inr demo_gone"
proof -
  have s: "ws_session demo_created = demo_session 0 0" by (simp add: demo_created_def)
  have head: "demo_session 0 0\<lparr>status := Retired, revision := 1, lastSequence := 1\<rparr> = demo_gone_session"
    by (simp add: demo_gone_session_def demo_session_def)
  have ev: "retirement_event demo_env demo_gone_session k 0 ''g1'' = demo_gone_event" for k
    by (simp add: retirement_event_def demo_derive print_zero demo_gone_event_def demo_event_def demo_gone_session_def)
  have "\<not> retire_blocked demo_created"
    by (simp add: retire_blocked_def unsettled_work_def demo_created_def commandsInStates_def jm_values_def
        interactionsForCommand_def deliveriesInStates_def)
  moreover have "checkState (ws_session demo_created) False 0 ''g1'' = None"
    by (simp add: checkState_None s demo_active) (simp add: demo_defs providerStage_def)
  ultimately show ?thesis
    using demo_gone_valid
    by (simp add: retireSession_def reduceRetirement_def Let_def s head ev namespaceKey_def demo_gone_def)
       (simp add: demo_gone_session_def demo_created_def)
qed

lemma demo_save_gone: "save demo_bounds demo_created demo_gone demo_db_created = Inr demo_db_gone"
proof -
  have delta: "new_generations demo_created demo_gone = []" "new_events demo_created demo_gone = [demo_gone_event]"
    "changed (ws_commands demo_created) (ws_commands demo_gone) = []"
    "changed (ws_interactions demo_created) (ws_interactions demo_gone) = []"
    "changed (ws_surfaces demo_created) (ws_surfaces demo_gone) = []"
    "changed (ws_deliveries demo_created) (ws_deliveries demo_gone) = []"
    by (simp_all add: new_generations_def new_events_def changed_def demo_gone_def demo_created_def)
  have rows: "ws_session demo_created = demo_session 0 0" "ws_session demo_gone = demo_gone_session"
    "ss_namespace demo_gone_session = demo_ns"
    by (simp_all add: demo_created_def demo_gone_def demo_gone_session_def)
  have tables: "scoped demo_ns (db_commands demo_db_created) = []" "scoped demo_ns (db_events demo_db_created) = []"
    "scoped demo_ns (db_interactions demo_db_created) = []" "scoped demo_ns (db_surfaces demo_db_created) = []"
    "scoped demo_ns (db_deliveries demo_db_created) = []" "scoped_generations demo_ns demo_db_created = [''g1'']"
    by (simp_all add: demo_db_created_def empty_database_def scoped_generations_def)
  have "size_check demo_bounds demo_db_created demo_ns demo_created demo_gone = None"
    using demo_gone_valid [THEN row_size(3)]
    by (simp add: size_check_def delta rows totals_def tables table_size_def id_bytes_def grow_def Let_def jm_get_def
        demo_gone_valid [THEN row_size(1)])
  moreover have "ev_commandId demo_gone_event = None" "eventId demo_gone_event = ''dretire-0''"
    "ev_generation demo_gone_event = ''g1''" "sequence demo_gone_event = 1"
    by (simp_all add: demo_gone_event_def demo_event_def)
  moreover have "generation_column (demo_session 0 0) = Some ''g1''" "expected_generation (demo_session 0 0) = Inr (Some ''g1'')"
    by (simp_all add: generation_column_def expected_generation_def demo_active)
       (simp_all add: demo_session_def providerStage_def)
  ultimately show ?thesis
    by (simp add: save_def Let_def rows delta put_event_def put_session_def)
       (simp add: demo_db_created_def demo_db_gone_def empty_database_def jm_set_def jm_get_def jm_has_def
          jm_values_def scoped_generations_def)
qed

definition demo_store_gone :: store where
  "demo_store_gone = (demo_store demo_db_gone)\<lparr>st_owned := []\<rparr>"

definition demo_store_pruned :: store where
  "demo_store_pruned = (demo_store demo_db_pruned)\<lparr>st_owned := []\<rparr>"

lemma demo_retire_store: "store_retire demo_env demo_bounds demo_ns 0 ''g1'' (demo_store demo_db_created) = (Inr (), demo_store_gone)"
proof -
  have "ws_session demo_created = demo_session 0 0" by (simp add: demo_created_def)
  then have "transact (demo_store demo_db_created) (\<lambda>db. and_then (load_state demo_env db demo_ns) (\<lambda>before.
       unless_exit (writable_session (demo_store demo_db_created) (ws_session before))
         (and_then (retireSession demo_env defaultLimits before 0 ''g1'') (\<lambda>after.
          and_then (save demo_bounds before after db) (\<lambda>db'. Inr ((), db')))))) = (Inr (), demo_store demo_db_gone)"
    using demo_writable [of demo_db_created 0 0]
    by (simp add: transact_def query_def demo_store_def demo_load demo_gone_run demo_save_gone)
  then show ?thesis
    by (simp add: store_retire_def release_def disown_def demo_store_gone_def demo_store_def jm_delete_def)
qed

lemma demo_prune_store: "store_pruneRetired demo_bounds 0 demo_store_gone = (Inr 1, demo_store_pruned)"
proof -
  have "db_sessions demo_db_gone = [(demo_ns, demo_gone_session)]" by (simp add: demo_db_gone_def)
  moreover have "prunable 0 demo_db_gone (demo_ns, demo_gone_session)"
    by (simp add: prunable_def demo_gone_session_def demo_db_gone_def demo_db_created_def empty_database_def jm_values_def)
  moreover have "prune_one demo_ns demo_db_gone = Inr demo_db_pruned"
    by (simp add: prune_one_def demo_db_gone_def demo_db_created_def empty_database_def demo_db_pruned_def drop_scope_def
        jm_delete_def)
  ultimately show ?thesis
    by (simp add: store_pruneRetired_def transact_def query_def demo_store_gone_def demo_store_pruned_def demo_store_def
        isCounter_def max_safe_def)
qed

lemma demo_reachable_gone: "reachable_store demo_store_gone" "reachable_store demo_store_pruned"
proof -
  show g: "reachable_store demo_store_gone"
    using demo_reachable(1) Store_write [OF Store_retire [OF demo_retire_store]] Next_store by blast
  show "reachable_store demo_store_pruned"
    using g Store_write [OF Store_prune [OF demo_prune_store]] Next_store by blast
qed

end
