(* ===== verification/Store_Overlay.thy ===== *)
theory Store_Overlay
  imports Store_Demo
begin

text \<open>
  The lazy workspace of a database transaction (\<^verbatim>\<open>#transactionState\<close>): rows are fetched by
  key, queries run in SQL, and what a reducer writes stays in an overlay until it is saved. Any
  sequence of a reducer's writes to any of the tables is visible to every query at once, and the
  delta handed to the save is what was written.
\<close>

definition sqlite_transaction :: "env \<Rightarrow> database \<Rightarrow> namespace \<Rightarrow> session \<Rightarrow> transaction" where
  "sqlite_transaction e db n s = (let v = sqlite_view e db n in
     \<lparr>tx_source = Some v, tx_session = s, tx_generations = scoped_generations n db,
      tx_commands = Scoped (\<lambda>k. readResult (rv_command v k)),
      tx_interactions = Scoped (\<lambda>k. readResult (rv_interaction v k)),
      tx_surfaces = Scoped (\<lambda>k. readResult (rv_surface v k)),
      tx_deliveries = Scoped (\<lambda>k. readResult (rv_delivery v k)),
      tx_events = []\<rparr>)"

section \<open>A reducer's writes\<close>

text \<open>One write to the copy, or one more fork of it.\<close>

datatype pending =
    Put_command command_record
  | Put_interaction interaction
  | Put_surface surface_state
  | Put_delivery delivery
  | Append_event event
  | Fork_again

primrec perform :: "pending \<Rightarrow> transaction \<Rightarrow> row_error + transaction" where
  "perform (Put_command c) tx = and_then (rows_set (tx_commands tx) (record_id c) c) (\<lambda>r. Inr (tx\<lparr>tx_commands := r\<rparr>))"
| "perform (Put_interaction i) tx = and_then (rows_set (tx_interactions tx) (interactionId i) i) (\<lambda>r. Inr (tx\<lparr>tx_interactions := r\<rparr>))"
| "perform (Put_surface s) tx = and_then (rows_set (tx_surfaces tx) (surfaceInstanceId s) s) (\<lambda>r. Inr (tx\<lparr>tx_surfaces := r\<rparr>))"
| "perform (Put_delivery d) tx = and_then (rows_set (tx_deliveries tx) (operationId d) d) (\<lambda>r. Inr (tx\<lparr>tx_deliveries := r\<rparr>))"
| "perform (Append_event ev) tx = Inr (tx\<lparr>tx_events := tx_events tx @ [ev]\<rparr>)"
| "perform Fork_again tx = Inr (forkState tx)"

definition perform_all :: "pending list \<Rightarrow> transaction \<Rightarrow> row_error + transaction" where
  "perform_all = loop_exit perform"

text \<open>The same writes made directly in the rows of a materialised workspace.\<close>

primrec write_through :: "pending \<Rightarrow> workspace \<Rightarrow> workspace" where
  "write_through (Put_command c) w = w\<lparr>ws_commands := jm_set (ws_commands w) (record_id c) c\<rparr>"
| "write_through (Put_interaction i) w = w\<lparr>ws_interactions := jm_set (ws_interactions w) (interactionId i) i\<rparr>"
| "write_through (Put_surface s) w = w\<lparr>ws_surfaces := jm_set (ws_surfaces w) (surfaceInstanceId s) s\<rparr>"
| "write_through (Put_delivery d) w = w\<lparr>ws_deliveries := jm_set (ws_deliveries w) (operationId d) d\<rparr>"
| "write_through (Append_event ev) w = w\<lparr>ws_events := ws_events w @ [ev]\<rparr>"
| "write_through Fork_again w = w"

definition writable_rows :: "transaction \<Rightarrow> bool" where
  "writable_rows tx \<longleftrightarrow> writable (tx_commands tx) \<and> writable (tx_interactions tx) \<and>
     writable (tx_surfaces tx) \<and> writable (tx_deliveries tx)"

lemma sqlite_transaction_source:
  "sqlite_transaction e db n s = sqlite_source.store_transaction (e, db, n, s)"
  unfolding sqlite_source.store_transaction_def sqlite_transaction_def Let_def by (simp add: content_def)

section \<open>What a transaction over a source shows\<close>

context session_source begin

text \<open>A transaction and the workspace it stands for, after the same writes.\<close>

definition tracks :: "'db \<Rightarrow> transaction \<Rightarrow> workspace \<Rightarrow> bool" where
  "tracks db tx w \<longleftrightarrow> rooted db tx \<and> reads_like tx w \<and> writable_rows tx \<and>
     ws_events w = ws_events (content db) @ tx_events tx"

lemma tracks_fork: "ok db \<Longrightarrow> tracks db (forkState (store_transaction db)) (content db)"
  using rooted_fork by (simp add: tracks_def) (simp add: writable_rows_def forkState_def store_transaction_def Let_def)

lemma fork_tracks: "tracks db tx w \<Longrightarrow> tracks db (forkState tx) w"
  by (auto simp: tracks_def rooted_def reads_like_def writable_rows_def forkState_def jm_has_def keyed_def jm_wf_def
      dest: rows_keyed_wf)

lemma perform_tracks:
  assumes "tracks db tx w"
  shows "\<exists>tx'. perform p tx = Inr tx' \<and> tracks db tx' (write_through p w)"
proof (cases p)
  case (Put_command c)
  obtain r where r: "rows_set (tx_commands tx) (record_id c) c = Inr r" "writable r"
    using txn_rows.put_ok [of "tx_commands tx" "record_id c" c] assms by (auto simp: tracks_def writable_rows_def)
  then show ?thesis
    using assms write_command [of db tx w c r] by (simp add: Put_command tracks_def writable_rows_def)
next
  case (Put_interaction i)
  obtain r where r: "rows_set (tx_interactions tx) (interactionId i) i = Inr r" "writable r"
    using txn_rows.put_ok [of "tx_interactions tx" "interactionId i" i] assms by (auto simp: tracks_def writable_rows_def)
  then show ?thesis
    using assms write_interaction [of db tx w i r] by (simp add: Put_interaction tracks_def writable_rows_def)
next
  case (Put_surface s)
  obtain r where r: "rows_set (tx_surfaces tx) (surfaceInstanceId s) s = Inr r" "writable r"
    using txn_rows.put_ok [of "tx_surfaces tx" "surfaceInstanceId s" s] assms by (auto simp: tracks_def writable_rows_def)
  then show ?thesis
    using assms write_surface [of db tx w s r] by (simp add: Put_surface tracks_def writable_rows_def)
next
  case (Put_delivery d)
  obtain r where r: "rows_set (tx_deliveries tx) (operationId d) d = Inr r" "writable r"
    using txn_rows.put_ok [of "tx_deliveries tx" "operationId d" d] assms by (auto simp: tracks_def writable_rows_def)
  then show ?thesis
    using assms write_delivery [of db tx w d r] by (simp add: Put_delivery tracks_def writable_rows_def)
next
  case (Append_event ev)
  then show ?thesis
    using assms by (simp add: tracks_def rooted_def reads_like_def writable_rows_def ws_keyed_def)
next
  case Fork_again
  then show ?thesis using fork_tracks [OF assms] by simp
qed

lemma perform_all_tracks:
  "tracks db tx w \<Longrightarrow> \<exists>tx'. perform_all ps tx = Inr tx' \<and> tracks db tx' (fold write_through ps w)"
proof (induction ps arbitrary: tx w)
  case (Cons p ps)
  obtain t where t: "perform p tx = Inr t" "tracks db t (write_through p w)"
    using perform_tracks [OF Cons.prems] by blast
  then show ?case using Cons.IH [OF t(2)] by (simp add: perform_all_def)
qed (simp add: perform_all_def)

text \<open>The rows of a delta, over the rows of the source.\<close>

lemma delta_rows:
  assumes "rows_keyed key r" "root_rows r = Scoped g" "\<And>k. g k = Inr (jm_get m k)"
    and "\<And>k. rows_get r k = Inr (jm_get n k)"
  shows "jm_get n k = (case find (\<lambda>v. key v = k) (jm_values (writes r)) of Some v \<Rightarrow> Some v | None \<Rightarrow> jm_get m k)"
  using rows_get_writes [OF rows_keyed_wf [OF assms(1)], of k] find_keyed [OF writes_keyed [OF assms(1)]]
  by (auto simp: assms(2-4) split: option.splits)

lemma delta_tables:
  assumes "ok db" "tracks db tx w" "delta = transactionDelta (store_transaction db) tx"
  shows "jm_get (ws_commands w) k = (case find (\<lambda>v. record_id v = k) (sd_commands delta) of
      Some v \<Rightarrow> Some v | None \<Rightarrow> jm_get (ws_commands (content db)) k)"
    and "jm_get (ws_interactions w) k = (case find (\<lambda>v. interactionId v = k) (sd_interactions delta) of
      Some v \<Rightarrow> Some v | None \<Rightarrow> jm_get (ws_interactions (content db)) k)"
    and "jm_get (ws_surfaces w) k = (case find (\<lambda>v. surfaceInstanceId v = k) (sd_surfaces delta) of
      Some v \<Rightarrow> Some v | None \<Rightarrow> jm_get (ws_surfaces (content db)) k)"
    and "jm_get (ws_deliveries w) k = (case find (\<lambda>v. operationId v = k) (sd_deliveries delta) of
      Some v \<Rightarrow> Some v | None \<Rightarrow> jm_get (ws_deliveries (content db)) k)"
    and "ws_events w = ws_events (content db) @ sd_events delta"
proof -
  have r: "rooted db tx" "reads_like tx w" using assms(2) by (simp_all add: tracks_def)
  note c = r [unfolded rooted_def reads_like_def store_transaction_def Let_def, simplified]
  have row: "readResult (rv_command (view db) k) = Inr (jm_get (ws_commands (content db)) k)"
    "readResult (rv_interaction (view db) k) = Inr (jm_get (ws_interactions (content db)) k)"
    "readResult (rv_surface (view db) k) = Inr (jm_get (ws_surfaces (content db)) k)"
    "readResult (rv_delivery (view db) k) = Inr (jm_get (ws_deliveries (content db)) k)" for k
    using command_row interaction_row surface_row delivery_row assms(1) by (simp_all add: readResult_def)
  show "jm_get (ws_commands w) k = (case find (\<lambda>v. record_id v = k) (sd_commands delta) of
      Some v \<Rightarrow> Some v | None \<Rightarrow> jm_get (ws_commands (content db)) k)"
    unfolding assms(3) transactionDelta_def session_delta.select_convs
    by (rule delta_rows) (use c row in auto)
  show "jm_get (ws_interactions w) k = (case find (\<lambda>v. interactionId v = k) (sd_interactions delta) of
      Some v \<Rightarrow> Some v | None \<Rightarrow> jm_get (ws_interactions (content db)) k)"
    unfolding assms(3) transactionDelta_def session_delta.select_convs
    by (rule delta_rows) (use c row in auto)
  show "jm_get (ws_surfaces w) k = (case find (\<lambda>v. surfaceInstanceId v = k) (sd_surfaces delta) of
      Some v \<Rightarrow> Some v | None \<Rightarrow> jm_get (ws_surfaces (content db)) k)"
    unfolding assms(3) transactionDelta_def session_delta.select_convs
    by (rule delta_rows) (use c row in auto)
  show "jm_get (ws_deliveries w) k = (case find (\<lambda>v. operationId v = k) (sd_deliveries delta) of
      Some v \<Rightarrow> Some v | None \<Rightarrow> jm_get (ws_deliveries (content db)) k)"
    unfolding assms(3) transactionDelta_def session_delta.select_convs
    by (rule delta_rows) (use c row in auto)
  show "ws_events w = ws_events (content db) @ sd_events delta"
    using assms(2) by (simp add: assms(3) transactionDelta_def tracks_def store_transaction_def Let_def)
qed

text \<open>A pending event is found before a stored one of the same identifier.\<close>

lemma view_event_tracks:
  assumes "ok db" "tracks db tx w"
  shows "view_event tx i = Inr (find (\<lambda>e. eventId e = i) (tx_events tx @ ws_events (content db)))"
proof -
  have "tx_source tx = Some (view db)" using assms(2) by (simp add: tracks_def rooted_def)
  then show ?thesis
    using event_row [OF assms(1), of i]
    by (auto simp: view_event_def find_append readResult_def find_event_def split: option.splits)
qed

end

section \<open>Callbacks\<close>

text \<open>
  The stored interactions of one callback: at most one row, as callback identifiers are unique per
  generation in a reachable session.
\<close>

lemma unique_filter:
  assumes "distinct xs" "\<And>x y. x \<in> set xs \<Longrightarrow> y \<in> set xs \<Longrightarrow> P x \<Longrightarrow> P y \<Longrightarrow> x = y"
  shows "filter P xs = (case find P xs of None \<Rightarrow> [] | Some x \<Rightarrow> [x])"
  using assms
proof (induction xs)
  case (Cons a xs)
  show ?case
  proof (cases "P a")
    case True
    then have "filter P xs = []" using Cons.prems by (auto simp: filter_empty_conv)
    then show ?thesis using True by simp
  next
    case False
    then show ?thesis using Cons by simp
  qed
qed simp

lemma callback_listed:
  assumes sound: "sound_session (e, db, n, s)" and unique: "callbacks_unique (ws_interactions (content db n s))"
  shows "lists_rows interactionId (for_callback g cb) (ws_interactions (content db n s))
    (and_then (rv_interactionForCallback (sqlite_view e db n) g cb) (\<lambda>old. Inr (case old of Some i \<Rightarrow> [i] | None \<Rightarrow> [])))"
proof -
  let ?m = "scoped n (db_interactions db)"
  have rows: "sound_rows e Row_interaction interactionId ia_namespace n (db_interactions db)"
    using sound by (simp add: sound_session_def)
  have m: "ws_interactions (content db n s) = ?m" by (simp add: content_def)
  have k: "keyed interactionId ?m" by (rule sound_keyed [OF rows])
  have "filter (for_callback g cb) (jm_values ?m) =
      (case find (for_callback g cb) (jm_values ?m) of None \<Rightarrow> [] | Some x \<Rightarrow> [x])"
  proof (rule unique_filter)
    show "distinct (jm_values ?m)" using keyed_values_distinct [OF k] by (simp add: distinct_map)
    fix x y assume "x \<in> set (jm_values ?m)" "y \<in> set (jm_values ?m)" "for_callback g cb x" "for_callback g cb y"
    then show "x = y"
      using unique keyed_values_iff [OF k] unfolding callbacks_unique_def m for_callback_def by (metis option.inject)
  qed
  moreover have "(case filter (for_callback g cb) (jm_values ?m) of [] \<Rightarrow> None | v # x \<Rightarrow> Some v) =
      find (for_callback g cb) (jm_values ?m)" by (rule head_filter)
  ultimately have eq: "and_then (rv_interactionForCallback (sqlite_view e db n) g cb)
      (\<lambda>old. Inr (case old of Some i \<Rightarrow> [i] | None \<Rightarrow> [])) = Inr (filter (for_callback g cb) (jm_values ?m))"
    by (simp add: sqlite_view_def read_one_def read_sound [OF rows] filter_snd split: option.splits)
  show ?thesis unfolding m eq by (rule lists_filter [OF k])
qed

lemma view_callback:
  assumes sound: "sound_session (e, db, n, s)" and unique: "callbacks_unique (ws_interactions (content db n s))"
    and t: "sqlite_source.tracks (e, db, n, s) tx w"
  shows "\<exists>r. view_interactionForCallback tx g cb = Inr r \<and> (r = None \<longleftrightarrow> interactionForCallback w g cb = None) \<and>
    (\<forall>i. r = Some i \<longrightarrow> i \<in> set (jm_values (ws_interactions w)) \<and> for_callback g cb i)"
proof -
  have r: "sqlite_source.rooted (e, db, n, s) tx" "sqlite_source.reads_like tx w"
    using t by (simp_all add: sqlite_source.tracks_def)
  obtain xs where xs: "view_rows (tx_source tx) (\<lambda>v. and_then (rv_interactionForCallback v g cb)
      (\<lambda>old. Inr (case old of Some i \<Rightarrow> [i] | None \<Rightarrow> []))) (tx_interactions tx) interactionId (for_callback g cb) = Inr xs"
    "set xs = set (filter (for_callback g cb) (jm_values (ws_interactions w)))"
    using sqlite_source.store_interaction_rows [OF sound r, of "for_callback g cb"
        "\<lambda>v. and_then (rv_interactionForCallback v g cb) (\<lambda>old. Inr (case old of Some i \<Rightarrow> [i] | None \<Rightarrow> []))"]
      callback_listed [OF sound unique] by auto
  have "interactionForCallback w g cb = None \<longleftrightarrow> set xs = {}"
    by (auto simp: xs(2) interactionForCallback_def find_None_iff)
  then show ?thesis
    using xs by (cases xs) (auto simp: view_interactionForCallback_def)
qed

section \<open>The guarantee\<close>

text \<open>
  C38. Inside a transaction over the database, after any sequence of writes to commands, interactions,
  surfaces, deliveries and events, of further forks too, every query of the reducer answers as over the
  stored session with the same writes made in place: rows by key, events by identifier (a pending one
  first), commands by state and by native turn, interactions by command and by callback, surfaces by
  interaction, deliveries by state, and the tests for events, attempts and unsubmitted reconciliations;
  list queries list the same rows. The delta handed to the save, put over the stored rows, is that workspace.
\<close>

theorem pending_writes_visible:
  assumes sound: "sound_session (e, db, n, s)" and reach: "reachable (content db n s)"
    and w: "w = fold write_through ps (content db n s)"
  shows "\<exists>tx. perform_all ps (forkState (sqlite_transaction e db n s)) = Inr tx \<and>
    (\<forall>k. rows_get (tx_commands tx) k = Inr (jm_get (ws_commands w) k) \<and>
       rows_get (tx_interactions tx) k = Inr (jm_get (ws_interactions w) k) \<and>
       rows_get (tx_surfaces tx) k = Inr (jm_get (ws_surfaces w) k) \<and>
       rows_get (tx_deliveries tx) k = Inr (jm_get (ws_deliveries w) k)) \<and>
    (\<forall>i. view_event tx i = Inr (find (\<lambda>e. eventId e = i) (tx_events tx @ ws_events (content db n s))) \<and>
       view_hasEvent tx i = Inr (hasEvent w i) \<and> view_hasAttempt tx i = Inr (hasAttempt w i) \<and>
       view_hasNotSubmittedReconciliation tx i = Inr (hasNotSubmittedReconciliation w i)) \<and>
    (\<forall>tags. \<exists>xs. view_commandsInStates tx tags = Inr xs \<and> set xs = set (commandsInStates w tags)) \<and>
    (\<forall>ses thread run req. \<exists>xs. view_commandsForNativeTurn tx ses thread run req = Inr xs \<and>
       set xs = set (commandsForNativeTurn w ses thread run req)) \<and>
    (\<forall>g cb. \<exists>r. view_interactionForCallback tx g cb = Inr r \<and> (r = None \<longleftrightarrow> interactionForCallback w g cb = None) \<and>
       (\<forall>i. r = Some i \<longrightarrow> i \<in> set (jm_values (ws_interactions w)) \<and> for_callback g cb i)) \<and>
    (\<forall>c. \<exists>xs. view_interactionsForCommand tx c = Inr xs \<and> set xs = set (interactionsForCommand w c)) \<and>
    (\<forall>i. \<exists>xs. view_surfacesForInteraction tx i = Inr xs \<and> set xs = set (surfacesForInteraction w i)) \<and>
    (\<forall>sts. \<exists>xs. view_deliveriesInStates tx sts = Inr xs \<and> set xs = set (deliveriesInStates w sts)) \<and>
    (let delta = transactionDelta (sqlite_transaction e db n s) tx; old = content db n s in
     ws_events w = ws_events old @ sd_events delta \<and>
     (\<forall>k. jm_get (ws_commands w) k = (case find (\<lambda>v. record_id v = k) (sd_commands delta) of
            Some v \<Rightarrow> Some v | None \<Rightarrow> jm_get (ws_commands old) k) \<and>
          jm_get (ws_interactions w) k = (case find (\<lambda>v. interactionId v = k) (sd_interactions delta) of
            Some v \<Rightarrow> Some v | None \<Rightarrow> jm_get (ws_interactions old) k) \<and>
          jm_get (ws_surfaces w) k = (case find (\<lambda>v. surfaceInstanceId v = k) (sd_surfaces delta) of
            Some v \<Rightarrow> Some v | None \<Rightarrow> jm_get (ws_surfaces old) k) \<and>
          jm_get (ws_deliveries w) k = (case find (\<lambda>v. operationId v = k) (sd_deliveries delta) of
            Some v \<Rightarrow> Some v | None \<Rightarrow> jm_get (ws_deliveries old) k)))"
proof -
  let ?src = "(e, db, n, s)"
  have unique: "callbacks_unique (ws_interactions (content db n s))"
    using reachable_inv [OF reach] by (simp add: ws_inv_def)
  obtain tx where run: "perform_all ps (forkState (sqlite_transaction e db n s)) = Inr tx"
    and t: "sqlite_source.tracks ?src tx w"
    using sqlite_source.perform_all_tracks [OF sqlite_source.tracks_fork [OF sound], of ps]
    unfolding sqlite_transaction_source w by auto
  have r: "sqlite_source.rooted ?src tx" and like: "sqlite_source.reads_like tx w"
    and events: "ws_events w = ws_events (case ?src of (e, db, n, ses) \<Rightarrow> content db n ses) @ tx_events tx"
    using t by (simp_all add: sqlite_source.tracks_def)
  note delta = sqlite_source.delta_tables [OF sound t refl, folded sqlite_transaction_source, unfolded prod.case]
  have rows: "\<forall>k. rows_get (tx_commands tx) k = Inr (jm_get (ws_commands w) k) \<and>
       rows_get (tx_interactions tx) k = Inr (jm_get (ws_interactions w) k) \<and>
       rows_get (tx_surfaces tx) k = Inr (jm_get (ws_surfaces w) k) \<and>
       rows_get (tx_deliveries tx) k = Inr (jm_get (ws_deliveries w) k)"
    using like by (simp add: sqlite_source.reads_like_def)
  show ?thesis
    using run rows sqlite_source.view_event_tracks [OF sound t, unfolded prod.case]
      sqlite_source.store_events [OF sound r events]
      sqlite_source.store_commandsInStates [OF sound r like] sqlite_source.store_commandsForNativeTurn [OF sound r like]
      view_callback [OF sound unique t] sqlite_source.store_interactionsForCommand [OF sound r like]
      sqlite_source.store_surfacesForInteraction [OF sound r like] sqlite_source.store_deliveriesInStates [OF sound r like] delta
    unfolding Let_def by (intro exI [of _ tx] conjI allI) blast+
qed

text \<open>The acceptance of the demonstration's prompt and a fork of the result, seen through the queries.\<close>

theorem pending_writes_visible_witness:
  "\<exists>tx. perform_all [Put_command (demo_record Accepted), Append_event (demo_event ''e1'' 1 None (Command_accepted demo_prompt)), Fork_again]
       (forkState (sqlite_transaction demo_env demo_db_created demo_ns (demo_session 0 0))) = Inr tx \<and>
     (\<exists>xs. view_commandsInStates tx [T_accepted] = Inr xs \<and> set xs = {demo_record Accepted}) \<and>
     view_hasEvent tx ''e1'' = Inr True \<and> view_hasEvent tx ''e2'' = Inr False"
proof -
  define ps where "ps = [Put_command (demo_record Accepted), Append_event (demo_event ''e1'' 1 None (Command_accepted demo_prompt)), Fork_again]"
  define w where "w = fold write_through ps (content demo_db_created demo_ns (demo_session 0 0))"
  have sound: "sound_session (demo_env, demo_db_created, demo_ns, demo_session 0 0)"
    by (simp add: sound_session_def sound_rows_def demo_db_created_def empty_database_def)
  have reach: "reachable (content demo_db_created demo_ns (demo_session 0 0))"
    using Created [OF demo_create] by (simp add: demo_content)
  have "commandsInStates w [T_accepted] = [demo_record Accepted]"
    by (simp add: w_def ps_def demo_content demo_created_def jm_set_def commandsInStates_def in_states_def jm_values_def
        demo_record_def demo_prompt_def)
  moreover have "hasEvent w ''e1''" "\<not> hasEvent w ''e2''"
    by (simp_all add: w_def ps_def demo_content demo_created_def hasEvent_def demo_event_def)
  moreover obtain tx where tx: "perform_all ps (forkState (sqlite_transaction demo_env demo_db_created demo_ns (demo_session 0 0))) = Inr tx"
    "\<forall>tags. \<exists>xs. view_commandsInStates tx tags = Inr xs \<and> set xs = set (commandsInStates w tags)"
    "\<forall>i. view_hasEvent tx i = Inr (hasEvent w i)"
    using pending_writes_visible [OF sound reach w_def] by (elim exE conjE) blast
  ultimately have "\<exists>xs. view_commandsInStates tx [T_accepted] = Inr xs \<and> set xs = {demo_record Accepted}"
    "view_hasEvent tx ''e1'' = Inr True" "view_hasEvent tx ''e2'' = Inr False"
    by (fastforce, simp_all)
  then show ?thesis using tx(1) unfolding ps_def by blast
qed

end
