(* ===== verification/Store_Guarantees.thy ===== *)
theory Store_Guarantees
  imports Store_Demo
begin

text \<open>
  What the durable store guarantees: it refines the abstract store, operations are atomic,
  a process writes only what it owns, a namespace is spent once pruned, and a cold start admits
  only databases every row of which validates.
\<close>

section \<open>Refinement and atomicity\<close>

text \<open>
  C21. Every operation of the store, with any outcome, is a run of the abstract store: a map of
  session workspaces that grows by creations, moves by session transitions and shrinks by
  pruning expired retired sessions, whose namespaces stay spent. This is so as long as the sessions
  that are created have at most one stage, as the host's have; a creation with several stages is
  stored without the generations of the earlier ones (\<open>staged_creation_loses_generation\<close>).
\<close>

theorem store_refines:
  assumes "\<forall>s. creates s \<longrightarrow> length (stages s) \<le> 1"
    and "reachable_store_of creates st" "store_step_of creates st st'"
  shows "spec_step\<^sup>*\<^sup>* (abs_store (st_db st)) (abs_store (st_db st'))"
proof -
  have single: "\<forall>s. creates s \<longrightarrow> single_stage s" using assms(1) by (simp add: single_stage_def)
  show ?thesis
    using step_store_ok [OF store_step_mono [OF assms(3) single]]
      reachable_store_inv [OF reachable_store_mono [OF assms(2) single]] by (simp add: store_ok_def)
qed

theorem store_refines_witness:
  "spec_step\<^sup>*\<^sup>* (abs_store demo_db_created) (abs_store demo_db_accepted)"
  using store_refines [OF _ demo_reachable(1) Store_write [OF Store_accept [OF demo_accept_store]]]
  by (simp add: demo_store_def single_stage_def)

text \<open>
  C22. Whatever a store whose sessions were created with at most one stage has been through, restarts
  included, the rows stored for a session are a workspace its transitions can reach, filed under the
  session's own namespace: what holds of reachable workspaces holds of the tables.
\<close>

theorem stored_sessions_reachable:
  assumes "\<forall>s. creates s \<longrightarrow> length (stages s) \<le> 1"
    and "reachable_store_of creates st" "session_at (st_db st) n = Some w"
  shows "reachable w \<and> ss_namespace (ws_session w) = n \<and> n \<notin> set (db_tombstones (st_db st))"
proof -
  have single: "\<forall>s. creates s \<longrightarrow> single_stage s" using assms(1) by (simp add: single_stage_def)
  show ?thesis
    using reachable_store_inv [OF reachable_store_mono [OF assms(2) single]] assms(3) by (auto simp: session_at_def store_inv_def)
qed

theorem stored_sessions_reachable_witness:
  "reachable demo_accepted \<and> ss_namespace (ws_session demo_accepted) = demo_ns"
  using stored_sessions_reachable [OF _ demo_reachable(2), of demo_ns demo_accepted] demo_at(2)
  by (simp add: demo_store_def single_stage_def)

text \<open>
  The premise on creations is needed: a session created with two stages is stored, answered with
  success, and its workspace has lost the first stage's generation, so that no transition reaches it.
\<close>

definition demo_staged :: session where
  "demo_staged = (demo_session 0 0)\<lparr>currentStageId := Some ''g2'', stages := [demo_stage, demo_stage_next]\<rparr>"

lemma demo_staged_valid: "valid demo_digest defaultLimits (Row_session demo_staged) = None"
  by (intro row_validI; simp add: demo_row_eval demo_staged_def demo_binding_next_def)

lemma demo_staged_active: "activeStage demo_staged = Inr demo_stage_next"
  by (simp add: activeStage_def demo_staged_def demo_session_def providerStage_def demo_binding_next_def demo_binding_def)

theorem staged_creation_loses_generation:
  "\<exists>st' w. store_create demo_env demo_bounds demo_staged empty_store = (Inr (), st') \<and>
     session_at (st_db st') demo_ns = Some w \<and> stages (ws_session w) = [demo_stage, demo_stage_next] \<and>
     ws_generations w = [''g2''] \<and> \<not> reachable w"
proof -
  let ?db = "empty_database\<lparr>db_sessions := [(demo_ns, demo_staged)], db_generations := [(demo_ns, ''g2'')]\<rparr>"
  have sel: "ss_namespace demo_staged = demo_ns" "revision demo_staged = 0" "lastSequence demo_staged = 0" "status demo_staged = Active"
    "currentStageId demo_staged = Some ''g2''" "stages demo_staged = [demo_stage, demo_stage_next]"
    by (simp_all add: demo_staged_def)
  have gens: "generation (stage_binding demo_stage) = ''g1''" "generation (stage_binding demo_stage_next) = ''g2''"
    by (simp_all add: providerStage_def demo_binding_next_def)
  have "insert_session demo_staged empty_database = Inr ((), ?db)"
    by (simp add: insert_session_def empty_database_def jm_has_def has_stage_def active_generation_def demo_staged_active gens sel
        put_generation_def jm_set_def)
  moreover have "createState demo_env defaultLimits demo_staged = Inr \<lparr>ws_session = demo_staged, ws_generations = [''g1'', ''g2''],
      ws_commands = [], ws_events = [], ws_interactions = [], ws_deliveries = [], ws_surfaces = []\<rparr>"
    using demo_staged_valid by (simp add: createState_def sel gens)
  ultimately have "create_action demo_env demo_bounds demo_staged empty_database = Inr ((), ?db)"
    using demo_staged_valid [THEN row_size(1)] demo_staged_valid [THEN row_size(3)]
    by (simp add: create_action_def id_bytes_def)
  then have run: "store_create demo_env demo_bounds demo_staged empty_store =
      (Inr (), \<lparr>st_db = ?db, st_owned = [(namespace_text demo_ns, ''g2'')], st_closing = False, st_closed = False\<rparr>)"
    by (simp add: store_create_def transact_def query_def empty_store_def has_stage_def active_generation_def demo_staged_active
        gens sel own_def jm_set_def)
  let ?w = "content ?db demo_ns demo_staged"
  have w: "session_at ?db demo_ns = Some ?w" "ws_session ?w = demo_staged" "ws_generations ?w = [''g2'']"
    by (simp_all add: session_at_def jm_get_def content_def scoped_generations_def)
  have "\<not> generations_ok ?w" by (simp add: generations_ok_def w sel gens)
  then have "\<not> reachable ?w" using reachable_inv by (auto simp: ws_inv_def)
  then show ?thesis using run w sel by auto
qed

text \<open>
  C23. A commit is all or nothing: refused, the store is as before; accepted, the session's rows
  become exactly the reducer's result, every other session keeps its rows, and ownership
  does not move.
\<close>

theorem commit_is_atomic:
  assumes "reachable_store st" "store_commit e bd b st = (r, st')"
  shows "case r of Inl f \<Rightarrow> st' = st
    | Inr u \<Rightarrow> \<exists>before after. session_at (st_db st) (cb_namespace b) = Some before \<and>
        commitSession e defaultLimits before b = Inr after \<and>
        session_at (st_db st') = (session_at (st_db st))(cb_namespace b \<mapsto> after) \<and> st_owned st' = st_owned st"
  using assms(2) unfolding store_commit_def
proof (cases rule: transact_cases)
  case (committed v db)
  then obtain before after where l: "load_state e (st_db st) (cb_namespace b) = Inr before"
    and a: "commitSession e defaultLimits before b = Inr after" and d: "save bd before after (st_db st) = Inr db"
    by (auto split: if_splits)
  show ?thesis
    using save_session_at [OF reachable_store_inv [OF assms(1)] l Commit [OF a] d] a committed(1,3) by auto
qed simp

theorem commit_is_atomic_witness:
  "\<exists>before after. commitSession demo_env defaultLimits before demo_dispatch = Inr after \<and>
     session_at demo_db_accepted demo_ns = Some before \<and>
     session_at demo_db_dispatching = (session_at demo_db_accepted)(demo_ns \<mapsto> after)"
proof -
  have "cb_namespace demo_dispatch = demo_ns" by (simp add: demo_dispatch_def)
  then show ?thesis
    using commit_is_atomic [OF demo_reachable(2) demo_commit_store] by (auto simp: demo_store_def)
qed

text \<open>
  C24. An acceptance either fails and changes nothing, or returns the receipt the reducer made of
  the stored session; a replayed command is answered without a write, and a new one is filed only
  by the process that owns the session's active generation.
\<close>

theorem acceptance_is_durable:
  assumes "reachable_store st" "store_accept e bd inp st = (r, st')"
  shows "case r of Inl f \<Rightarrow> st' = st
    | Inr receipt \<Rightarrow> \<exists>before after. session_at (st_db st) (ai_namespace inp) = Some before \<and>
        acceptCommand e defaultLimits before inp = Inr (after, receipt) \<and>
        session_at (st_db st') = (session_at (st_db st))(ai_namespace inp \<mapsto> after) \<and>
        (if after = before then st' = st else writable_session st (ws_session before) = None)"
  using assms(2) unfolding store_accept_def
proof (cases rule: transact_cases)
  case (committed v db)
  then obtain before after where l: "load_state e (st_db st) (ai_namespace inp) = Inr before"
    and a: "acceptCommand e defaultLimits before inp = Inr (after, v)"
    and d: "if after = before then db = st_db st
      else writable_session st (ws_session before) = None \<and> save bd before after (st_db st) = Inr db"
    by (auto split: if_splits)
  have at: "session_at (st_db st) (ai_namespace inp) = Some before"
    by (rule load_content [OF l]) (simp add: session_at_def)
  show ?thesis
  proof (cases "after = before")
    case True
    then show ?thesis using d a at committed(1,3) by (auto simp: fun_upd_idem)
  next
    case False
    then show ?thesis
      using save_session_at [OF reachable_store_inv [OF assms(1)] l Accept [OF a]] d a committed(1,3) by auto
  qed
qed simp

theorem acceptance_is_durable_witness:
  "session_at demo_db_accepted = (session_at demo_db_created)(demo_ns \<mapsto> demo_accepted)"
proof -
  have "ai_namespace demo_accept = demo_ns" by (simp add: demo_accept_def)
  then show ?thesis
    using acceptance_is_durable [OF demo_reachable(1) demo_accept_store] demo_at(1) demo_accept_run
    by (auto simp: demo_store_def)
qed

section \<open>Ownership\<close>

lemma load_session_at:
  assumes "load_state e db n = Inr w"
  shows "session_at db n = Some w \<and> ss_namespace (ws_session w) = n"
  by (rule load_content [OF assms]) (simp add: session_at_def)






abbreviation "unowned n st \<equiv> jm_get (st_owned st) (namespace_text n) = None"











lemma demo_open: "store_open demo_env demo_bounds demo_db_created = Inr (demo_store demo_db_created\<lparr>st_owned := []\<rparr>)"
proof -
  have read: "read_session demo_env demo_db_created demo_ns = Inr (demo_session 0 0)"
    by (simp add: read_session_def demo_decode demo_db_created_def jm_get_def)
  have recorded: "stage_recorded demo_db_created demo_ns (demo_session 0 0) = None"
    by (simp add: stage_recorded_def demo_active scoped_generations_def demo_db_created_def) (simp add: providerStage_def)
  have tables: "scoped demo_ns (db_commands demo_db_created) = []" "scoped demo_ns (db_events demo_db_created) = []"
    "scoped demo_ns (db_interactions demo_db_created) = []" "scoped demo_ns (db_surfaces demo_db_created) = []"
    "scoped demo_ns (db_deliveries demo_db_created) = []" "scoped_generations demo_ns demo_db_created = [''g1'']"
    by (simp_all add: demo_db_created_def empty_database_def scoped_generations_def)
  have "\<exists>w. full_state demo_env demo_bounds demo_db_created demo_ns = Inr w"
    using demo_session_valid [of 0 0, THEN row_size(3)]
    by (simp add: full_state_def read recorded tables totals_def table_size_def id_bytes_def full_rows_def by_id_def
        contiguous_def jm_values_def)
  moreover have "db_sessions demo_db_created = [(demo_ns, demo_session 0 0)]" by (simp add: demo_db_created_def)
  ultimately show ?thesis
    by (auto simp: store_open_def demo_decode demo_store_def)
qed





text \<open>
  Recovery hands a session back: its rows become the reducer's result, and this process
  no longer owns it, so that a later commit from here is refused.
\<close>

theorem recovery_hands_over:
  assumes "reachable_store st" "store_recoverUnavailable e bd ri st = (Inr s, st')"
  shows "\<exists>before after. session_at (st_db st) (ri_namespace ri) = Some before \<and>
    recoverUnavailable e defaultLimits before ri = Inr after \<and> s = ws_session after \<and>
    session_at (st_db st') = (session_at (st_db st))(ri_namespace ri \<mapsto> after) \<and>
    jm_get (st_owned st') (namespace_text (ri_namespace ri)) = None"
proof -
  let ?n = "ri_namespace ri"
  obtain st0 where run: "reduce_session e bd ?n (\<lambda>w. recoverUnavailable e defaultLimits w ri) st = (Inr s, st0)"
    and st': "st' = disown ?n st0"
    using assms(2) by (cases "reduce_session e bd ?n (\<lambda>w. recoverUnavailable e defaultLimits w ri) st")
      (auto simp: store_recoverUnavailable_def release_def split: sum.splits)
  from run show ?thesis unfolding reduce_session_def
  proof (cases rule: transact_cases)
    case (committed v db)
    then obtain before after where l: "load_state e (st_db st) ?n = Inr before"
      and a: "recoverUnavailable e defaultLimits before ri = Inr after" and d: "save bd before after (st_db st) = Inr db"
      and v: "v = ws_session after"
      by auto
    show ?thesis
      using save_session_at [OF reachable_store_inv [OF assms(1)] l Recover [OF a] d] a committed(1,3) v
      by (auto simp: st' disown_def jm_get_delete)
  qed simp
qed

theorem recovery_hands_over_witness:
  "session_at demo_db_recovering = (session_at demo_db_dispatching)(demo_ns \<mapsto> demo_recovering)"
proof -
  have "session_at demo_db_dispatching demo_ns = Some demo_dispatching" "ri_namespace demo_lost = demo_ns"
    using load_session_at [OF demo_dispatching_load] by (simp_all add: demo_lost_def)
  then show ?thesis
    using recovery_hands_over [OF demo_reachable_dispatching demo_recover_store] demo_recover_run
    by (auto simp: demo_store_def)
qed

section \<open>Pruning\<close>

text \<open>
  C35. A pruned namespace is spent: whatever happens to the store afterwards, restarts and
  attempts to create it again included, no session is ever stored under it.
\<close>

theorem spent_forever:
  assumes "reachable_store st" "n \<in> set (db_tombstones (st_db st))" "store_step\<^sup>*\<^sup>* st st'"
  shows "session_at (st_db st') n = None"
proof -
  have spent: "sp_spent sp \<subseteq> sp_spent sp'" if "spec_step\<^sup>*\<^sup>* sp sp'" for sp sp'
    using that by (induction rule: rtranclp_induct) (auto elim!: spec_step.cases)
  have "reachable_store t \<and> n \<in> set (db_tombstones (st_db t))" if "store_step\<^sup>*\<^sup>* st t" for t
    using that
  proof (induction rule: rtranclp_induct)
    case base
    then show ?case using assms by simp
  next
    case (step t u)
    then show ?case
      using spent step_store_ok [OF step(2)] reachable_store_inv Next_store
      by (fastforce simp: store_ok_def abs_store_def)
  qed
  from this [OF assms(3)] show ?thesis
    using reachable_store_inv [of st'] by (cases "jm_get (db_sessions (st_db st')) n") (auto simp: store_inv_def session_at_def)
qed

theorem spent_forever_witness: "session_at demo_db_pruned demo_ns = None"
proof -
  have "demo_ns \<in> set (db_tombstones (st_db demo_store_pruned))"
    by (simp add: demo_store_pruned_def demo_store_def demo_db_pruned_def)
  then show ?thesis
    using spent_forever [OF demo_reachable_gone(2) _ rtranclp.rtrancl_refl]
    by (simp add: demo_store_pruned_def demo_store_def)
qed

lemma prune_frame:
  assumes "loop_exit prune_one rows db = Inr db'"
  shows "db_connections db' = db_connections db \<and> db_preferences db' = db_preferences db \<and> db_launches db' = db_launches db"
  by (rule loop_exit_invariant [OF assms, of "\<lambda>past w. db_connections w = db_connections db \<and>
      db_preferences w = db_preferences db \<and> db_launches w = db_launches db"])
    (auto simp: prune_one_def split: if_splits)

lemma expired_prunable:
  assumes "session_at db n = Some w" "expired_at now w"
  shows "n \<in> set (map fst (filter (prunable now db) (db_sessions db)))"
  using assms by (force simp: session_at_def expired_at_def prunable_def content_def dest: jm_get_mem)

text \<open>
  C36. Pruning deletes only sessions that are retired, whose receipts have all expired and whose
  deliveries are all done, and all of them unless its batch is full; it records each as spent, leaves no
  row of it in any table, and reports their number. Every other session keeps its rows, and connections,
  preferences, launches, ownership and the closing flags stay as they were. A failed pruning changes
  nothing.
\<close>

theorem pruning_is_exact:
  assumes "reachable_store st" "store_pruneRetired bd now st = (r, st')"
  shows "case r of Inl f \<Rightarrow> st' = st
    | Inr k \<Rightarrow> \<exists>gone. k = int (length gone) \<and> db_tombstones (st_db st') = db_tombstones (st_db st) @ gone \<and>
        (\<forall>n \<in> set gone. session_at (st_db st') n = None \<and> no_rows (st_db st') n \<and>
           (\<exists>w. session_at (st_db st) n = Some w \<and> expired_at now w)) \<and>
        (\<forall>n w. session_at (st_db st) n = Some w \<and> expired_at now w \<and> n \<notin> set gone \<longrightarrow> k = max 0 (maxBatchRecords bd)) \<and>
        (\<forall>n. n \<notin> set gone \<longrightarrow> session_at (st_db st') n = session_at (st_db st) n) \<and>
        db_connections (st_db st') = db_connections (st_db st) \<and> db_preferences (st_db st') = db_preferences (st_db st) \<and>
        db_launches (st_db st') = db_launches (st_db st) \<and> st' = st\<lparr>st_db := st_db st'\<rparr>"
  using assms(2)
proof (cases rule: prune_run)
  case (pruned rows)
  have inv: "store_inv (st_db st)" by (rule reachable_store_inv [OF assms(1)])
  note targets = prune_targets [OF _ inv]
  have exp: "\<And>n. n \<in> set rows \<Longrightarrow> \<exists>w. session_at (st_db st) n = Some w \<and> expired_at now w"
    unfolding pruned(3) by (rule targets)
  note run = prune_run_ok [OF pruned(2) exp]
  have inv': "store_inv (st_db st')" using run inv by (simp add: store_ok_def)
  have rest: "st' = st\<lparr>st_db := st_db st'\<rparr>"
    using assms(2) unfolding store_pruneRetired_def by (cases rule: transact_cases) simp_all
  have full: "int (length rows) = max 0 (maxBatchRecords bd)"
    if "session_at (st_db st) n = Some w \<and> expired_at now w \<and> n \<notin> set rows" for n w
  proof -
    let ?all = "map fst (filter (prunable now (st_db st)) (db_sessions (st_db st)))"
    have "take (nat (maxBatchRecords bd)) ?all \<noteq> ?all"
      using expired_prunable [of "st_db st" n w now] that unfolding pruned(3) by metis
    then have "nat (maxBatchRecords bd) < length ?all" by (metis leI take_all)
    then show ?thesis unfolding pruned(3) by simp
  qed
  have gone: "no_rows (st_db st') n" if "n \<in> set rows" for n
    using inv' run that by (auto simp: store_inv_def session_at_def)
  show ?thesis
    unfolding pruned(1) sum.case
    by (intro exI [of _ rows] conjI allI impI ballI; (rule refl)?) (use run exp gone full prune_frame [OF pruned(2)] rest in auto)
qed simp

theorem pruning_is_exact_witness:
  "\<exists>gone. length gone = 1 \<and> db_tombstones demo_db_pruned = gone \<and> st_owned demo_store_pruned = st_owned demo_store_gone"
proof -
  have "st_owned demo_store_pruned = st_owned demo_store_gone \<and>
      (\<exists>gone. length gone = 1 \<and> db_tombstones (st_db demo_store_pruned) = db_tombstones (st_db demo_store_gone) @ gone)"
    using pruning_is_exact [OF demo_reachable_gone(1) demo_prune_store] by (force dest: arg_cong [where f = st_owned])
  then show ?thesis
    by (simp add: demo_store_pruned_def demo_store_gone_def demo_store_def demo_db_gone_def demo_db_created_def empty_database_def)
qed

section \<open>Cold start\<close>

lemma open_full_state:
  assumes "loop_exit (\<lambda>(n, s) u. case decode_row e (Row_session s) of Some f \<Rightarrow> Inl f
       | None \<Rightarrow> and_then (full_state e bd db (ss_namespace s)) (\<lambda>w. Inr u)) xs u = Inr u'" "(n, s) \<in> set xs"
  shows "\<exists>w. full_state e bd db (ss_namespace s) = Inr w"
  using assms by (induction xs arbitrary: u) (auto split: sum.splits option.splits)

text \<open>
  C37. A database is opened only when every row of every session decodes, under its own key and
  namespace; the complete load of a session then agrees with the scoped reads of a
  transaction: the same session, events in order, and the same row under every key.
\<close>

theorem cold_start_validates:
  assumes "reachable_store st" "store_open e bd (st_db st) = Inr st'" "session_at (st_db st) n = Some w"
  shows "\<exists>w'. full_state e bd (st_db st) n = Inr w' \<and> ws_session w' = ws_session w \<and> ws_events w' = ws_events w \<and>
    ws_generations w' = ws_generations w \<and>
    jm_get (ws_commands w') = jm_get (ws_commands w) \<and> jm_get (ws_interactions w') = jm_get (ws_interactions w) \<and>
    jm_get (ws_surfaces w') = jm_get (ws_surfaces w) \<and> jm_get (ws_deliveries w') = jm_get (ws_deliveries w) \<and>
    sound_session (e, st_db st, n, ws_session w)"
proof -
  let ?db = "st_db st"
  have inv: "store_inv ?db" by (rule reachable_store_inv [OF assms(1)])
  obtain s where s: "jm_get (db_sessions ?db) n = Some s" and w: "w = content ?db n s"
    using assms(3) by (auto simp: session_at_def)
  have ns: "ss_namespace s = n" "reachable w" using inv s by (auto simp: store_inv_def w)
  have keyed: "jm_wf (ws_commands w)" "jm_wf (ws_interactions w)" "jm_wf (ws_surfaces w)" "jm_wf (ws_deliveries w)"
    using reachable_inv [OF ns(2)] by (auto simp: ws_inv_def ws_keyed_def keyed_def)
  obtain w' where w': "full_state e bd ?db n = Inr w'"
  proof -
    obtain u where "loop_exit (\<lambda>(n, s) u. case decode_row e (Row_session s) of Some f \<Rightarrow> Inl f
       | None \<Rightarrow> and_then (full_state e bd ?db (ss_namespace s)) (\<lambda>w. Inr u)) (db_sessions ?db) () = Inr u"
      using assms(2) unfolding store_open_def and_then_Inr by blast
    from open_full_state [OF this jm_get_mem [OF s]] show ?thesis using that ns(1) by auto
  qed
  then have ses: "read_session e ?db n = Inr (ws_session w')" by (auto simp: full_state_def split: if_splits)
  then have same: "ws_session w' = s" using s by (auto simp: read_session_def split: if_splits option.splits)
  have rows: "ws_events w' = ws_events w" "ws_generations w' = ws_generations w"
    "ws_commands w' = by_id (ws_commands w)" "ws_interactions w' = by_id (ws_interactions w)"
    "ws_surfaces w' = by_id (ws_surfaces w)" "ws_deliveries w' = by_id (ws_deliveries w)"
    using w' by (auto simp: full_state_def full_rows_Inr w content_def jm_values_def sort_values split: if_splits)
  have "sound_session (e, ?db, n, s)"
    using w' keyed inv scoped_wf [of "db_events ?db" n]
    by (auto simp: sound_session_def sound_rows_def full_state_def full_rows_Inr by_id_def list_all_iff w content_def
        store_inv_def split: if_splits)
  then show ?thesis
    using w' same rows keyed by (intro exI [of _ w']) (simp add: by_id_get fun_eq_iff w)
qed

theorem cold_start_validates_witness:
  "\<exists>w'. full_state demo_env demo_bounds demo_db_created demo_ns = Inr w' \<and> ws_session w' = demo_session 0 0"
  using cold_start_validates [OF demo_reachable(1), of demo_env demo_bounds _ demo_ns demo_created] demo_open demo_at(1)
  by (auto simp: demo_store_def demo_created_def)

end
