(* ===== verification/Connection_History.thy ===== *)
theory Connection_History
  imports Store_Demo
begin

text \<open>
  The history of connections in the durable store: for every caller and connection the stored
  revisions are 1 to some latest one, only the latest can be a deletion, and a deletion leaves no
  secret behind. No other operation of the store touches this table.
\<close>

section \<open>The invariant\<close>

definition conn_get :: "database \<Rightarrow> caller \<Rightarrow> id \<Rightarrow> counter \<Rightarrow> (connection \<times> nat list option) option" where
  "conn_get db ca i r = jm_get (db_connections db) (ca, i, r)"

definition secret_fits :: "connection \<Rightarrow> nat list option \<Rightarrow> bool" where
  "secret_fits c secret = (case secret of
     None \<Rightarrow> True
   | Some bytes \<Rightarrow> 29 \<le> length bytes \<and> length bytes \<le> 16412 \<and>
       (case cn_source c of Custom_api u m k \<Rightarrow> True | Existing_config d m \<Rightarrow> False))"

definition conn_inv :: "database \<Rightarrow> bool" where
  "conn_inv db \<longleftrightarrow> jm_wf (db_connections db) \<and>
     (\<forall>ca i r c s. conn_get db ca i r = Some (c, s) \<longrightarrow>
        cn_id c = i \<and> cn_revision c = r \<and> 1 \<le> r \<and> secret_fits c s \<and>
        (\<forall>q. 1 \<le> q \<and> q < r \<longrightarrow> (\<exists>c' s'. conn_get db ca i q = Some (c', s') \<and> cn_status c' \<noteq> Deleted)) \<and>
        (cn_status c = Deleted \<longrightarrow> (\<forall>q c' s'. conn_get db ca i q = Some (c', s') \<longrightarrow> s' = None)))"

lemma revisions_set: "set (revisions db ca i) = {(r, v). ((ca, i, r), v) \<in> set (db_connections db)}"
  by (force simp: revisions_def)

lemma revisions_sorted: "sorted (map fst (revisions db ca i))"
  by (simp add: revisions_def)

lemma sorted_le_last: "sorted xs \<Longrightarrow> (x :: int) \<in> set xs \<Longrightarrow> x \<le> last xs"
  by (induction xs) auto

text \<open>The latest revision is the greatest.\<close>

lemma find_latest:
  assumes "find_connection db ca i None = Inr previous" "conn_inv db"
  shows "case previous of
      None \<Rightarrow> \<forall>r. conn_get db ca i r = None
    | Some p \<Rightarrow> (\<exists>s. conn_get db ca i (cn_revision p) = Some (p, s)) \<and>
        (\<forall>r. conn_get db ca i r \<noteq> None \<longrightarrow> r \<le> cn_revision p)"
proof -
  let ?rs = "revisions db ca i"
  have mem: "conn_get db ca i r = Some v \<longleftrightarrow> (r, v) \<in> set ?rs" for r v
    using assms(2) by (simp add: conn_get_def revisions_set conn_inv_def jm_mem_get)
  show ?thesis
  proof (cases "?rs = []")
    case True
    then have "previous = None"
      using assms(1) by (auto simp: find_connection_def last_of_def split: if_splits)
    moreover have "conn_get db ca i r = None" for r
      using mem [of r] True by (cases "conn_get db ca i r") auto
    ultimately show ?thesis by simp
  next
    case False
    obtain r c s where l: "last ?rs = (r, c, s)" by (metis surj_pair)
    then have prev: "previous = Some c"
      using assms(1) False by (auto simp: find_connection_def last_of_def split: if_splits option.splits)
    have "(r, c, s) \<in> set ?rs" using l False last_in_set by metis
    then have get: "conn_get db ca i r = Some (c, s)" by (simp add: mem)
    then have "cn_revision c = r" using assms(2) by (simp add: conn_inv_def)
    moreover have "q \<le> r" if q: "conn_get db ca i q \<noteq> None" for q
    proof -
      obtain v where "(q, v) \<in> set ?rs" using q mem [of q] by (cases "conn_get db ca i q") auto
      then have "q \<in> set (map fst ?rs)" by force
      moreover have "last (map fst ?rs) = r" using l False by (simp add: last_map)
      ultimately show ?thesis
        using sorted_le_last [OF revisions_sorted [of db ca i]] by metis
    qed
    ultimately show ?thesis using get prev by auto
  qed
qed

lemma wiped_get: "conn_get (wipe_secrets ca i db) c j r =
    map_option (\<lambda>(row, s). (row, if c = ca \<and> j = i then None else s)) (conn_get db c j r)"
proof -
  have "jm_get (map (\<lambda>((c, j, r), (row, s)). ((c, j, r), (row, if c = ca \<and> j = i then None else s))) m) (c, j, r) =
      map_option (\<lambda>(row, s). (row, if c = ca \<and> j = i then None else s)) (jm_get m (c, j, r))"
    for m :: "(caller \<times> id \<times> counter, connection \<times> nat list option) jsmap"
    by (induction m) (auto simp: jm_get_def)
  then show ?thesis by (simp add: conn_get_def wipe_secrets_def)
qed

lemma wiped_wf: "jm_wf (db_connections (wipe_secrets ca i db)) \<longleftrightarrow> jm_wf (db_connections db)"
proof -
  have "map fst (map (\<lambda>((c, j, r), (row, s)). ((c, j, r), (row, if c = ca \<and> j = i then None else s))) m) = map fst m"
    for m :: "(caller \<times> id \<times> counter, connection \<times> nat list option) jsmap"
    by (induction m) auto
  then show ?thesis by (simp add: jm_wf_def wipe_secrets_def del: map_map)
qed

section \<open>Saving a revision\<close>

lemma save_connection_inv:
  assumes run: "store_saveConnection url_ok cc bd ca nxt expected secret st = (r, st')" and inv: "conn_inv (st_db st)"
  shows "conn_inv (st_db st')"
proof (cases r)
  case (Inl f)
  from run [unfolded store_saveConnection_def] show ?thesis
    by (cases rule: transact_cases) (simp_all add: Inl inv)
next
  case (Inr c)
  let ?db = "st_db st" and ?i = "cn_id nxt" and ?r = "cn_revision nxt"
  obtain previous db1 y where fits: "\<not> secret_refused nxt secret"
    and prev: "find_connection ?db ca ?i None = Inr previous"
    and rev: "connectionRevision url_ok cc nxt previous expected = Inr nxt"
    and new: "\<not> jm_has (db_connections ?db) (ca, ?i, ?r)"
    and db1: "db1 = ?db\<lparr>db_connections := jm_set (db_connections ?db) (ca, ?i, ?r) (nxt, secret)\<rparr>"
    and db': "st_db st' = (wipe_deleted ca nxt db1)\<lparr>db_preferences := y\<rparr>"
    by (rule saveConnection_run [OF run [unfolded Inr]]) (rule that)
  have get1: "conn_get db1 c j q = (if c = ca \<and> j = ?i \<and> q = ?r then Some (nxt, secret) else conn_get ?db c j q)" for c j q
    by (simp add: db1 conn_get_def)
  have get: "conn_get (st_db st') c j q = (if cn_status nxt = Deleted \<and> c = ca \<and> j = ?i
      then map_option (\<lambda>(row, s). (row, None)) (conn_get db1 c j q) else conn_get db1 c j q)" for c j q
  proof -
    have "conn_get (st_db st') c j q = conn_get (wipe_deleted ca nxt db1) c j q" by (simp add: db' conn_get_def)
    then show ?thesis
      by (cases "conn_get db1 c j q") (auto simp: wipe_deleted_def wiped_get)
  qed
  note latest = find_latest [OF prev inv]
  have r: "?r = (case previous of Some p \<Rightarrow> cn_revision p | None \<Rightarrow> 0) + 1"
    using connectionRevision_Inr(2,3) [OF rev] by (auto split: option.splits)
  have live: "\<not> (\<exists>p. previous = Some p \<and> cn_status p = Deleted)"
    using connectionRevision_Inr(4) [OF rev] by auto
  have stored: "cn_id c = j \<and> cn_revision c = q \<and> 1 \<le> q \<and> secret_fits c s \<and>
      (\<forall>p. 1 \<le> p \<and> p < q \<longrightarrow> (\<exists>c' s'. conn_get ?db x j p = Some (c', s') \<and> cn_status c' \<noteq> Deleted)) \<and>
      (cn_status c = Deleted \<longrightarrow> (\<forall>p c' s'. conn_get ?db x j p = Some (c', s') \<longrightarrow> s' = None))"
    if "conn_get ?db x j q = Some (c, s)" for x j q c s
    using inv that by (simp add: conn_inv_def)
  have older: "q < ?r \<and> cn_status c \<noteq> Deleted" if g: "conn_get ?db ca ?i q = Some (c, s)" for q c s
  proof (cases previous)
    case None
    then show ?thesis using latest g by simp
  next
    case (Some p)
    then obtain t where p: "conn_get ?db ca ?i (cn_revision p) = Some (p, t)" and le: "q \<le> cn_revision p"
      using latest g by auto
    have "cn_status c \<noteq> Deleted"
    proof (cases "q = cn_revision p")
      case True
      then show ?thesis using p g live Some by auto
    next
      case False
      then have "\<exists>c' s'. conn_get ?db ca ?i q = Some (c', s') \<and> cn_status c' \<noteq> Deleted"
        using stored [OF p] stored [OF g] le by auto
      then show ?thesis using g by simp
    qed
    then show ?thesis using le r Some by simp
  qed
  have present: "\<exists>c s. conn_get ?db ca ?i q = Some (c, s)" if q: "1 \<le> q" "q < ?r" for q
  proof (cases previous)
    case None
    then show ?thesis using r q by simp
  next
    case (Some p)
    then obtain t where p: "conn_get ?db ca ?i (cn_revision p) = Some (p, t)" using latest by auto
    then show ?thesis using stored [OF p] q r Some by (cases "q = cn_revision p") auto
  qed
  have positive: "1 \<le> ?r"
  proof (cases previous)
    case (Some p)
    then obtain t where "conn_get ?db ca ?i (cn_revision p) = Some (p, t)" using latest by auto
    from stored [OF this] show ?thesis using r Some by simp
  qed (simp add: r)
  have fit: "secret_fits nxt secret" and clean: "cn_status nxt = Deleted \<Longrightarrow> secret = None"
    using fits by (auto simp: secret_refused_def secret_fits_def split: option.splits connection_source.splits)
  have "cn_id c = j \<and> cn_revision c = q \<and> 1 \<le> q \<and> secret_fits c s \<and>
      (\<forall>p. 1 \<le> p \<and> p < q \<longrightarrow> (\<exists>c' s'. conn_get (st_db st') x j p = Some (c', s') \<and> cn_status c' \<noteq> Deleted)) \<and>
      (cn_status c = Deleted \<longrightarrow> (\<forall>p c' s'. conn_get (st_db st') x j p = Some (c', s') \<longrightarrow> s' = None))"
    if g: "conn_get (st_db st') x j q = Some (c, s)" for x j q c s
  proof (cases "x = ca \<and> j = ?i")
    case False
    then have "conn_get (st_db st') x j p = conn_get ?db x j p" for p by (auto simp: get get1)
    then show ?thesis using stored g by simp
  next
    case True
    have row: "\<exists>s. conn_get (st_db st') ca ?i p = Some (c', s)" if "conn_get ?db ca ?i p = Some (c', t)" "p < ?r" for p c' t
      using that by (simp add: get get1)
    have below: "\<exists>c' s'. conn_get (st_db st') ca ?i p = Some (c', s') \<and> cn_status c' \<noteq> Deleted" if "1 \<le> p" "p < ?r" for p
      using present [OF that] older row that by blast
    have wiped: "s' = None" if "cn_status nxt = Deleted" "conn_get (st_db st') ca ?i p = Some (c', s')" for p c' s'
      using that by (auto simp: get)
    show ?thesis
    proof (cases "q = ?r")
      case eq: True
      then have "c = nxt" "s = secret \<or> s = None" using g True by (auto simp: get get1 split: if_splits)
      then show ?thesis using True eq fit below wiped positive by (auto simp: secret_fits_def)
    next
      case False
      then obtain t where t: "conn_get ?db ca ?i q = Some (c, t)" and s: "s = t \<or> s = None"
        using g True by (auto simp: get get1 split: if_splits)
      then show ?thesis
        using stored [OF t] older [OF t] below True by (auto simp: secret_fits_def)
    qed
  qed
  moreover have "jm_wf (db_connections (st_db st'))"
    using inv by (simp add: db' wipe_deleted_def wiped_wf) (simp add: db1 conn_inv_def)
  ultimately show ?thesis unfolding conn_inv_def by blast
qed

lemma record_test_inv:
  assumes run: "store_recordConnectionTest ca i expected result st = (r, st')" and inv: "conn_inv (st_db st)"
  shows "conn_inv (st_db st')"
proof (cases r)
  case (Inl f)
  from run [unfolded store_recordConnectionTest_def] show ?thesis
    by (cases rule: transact_cases) (simp_all add: Inl inv)
next
  case (Inr c')
  let ?db = "st_db st"
  obtain c where c: "find_connection ?db ca i None = Inr (Some c)" "cn_revision c = expected" "cn_status c \<noteq> Deleted"
    "c' = c\<lparr>cn_lastTest := Some result\<rparr>"
    and upd: "st_db st' = ?db \<or> (\<exists>old secret. jm_get (db_connections ?db) (ca, i, expected) = Some (old, secret) \<and>
       st_db st' = ?db\<lparr>db_connections := jm_set (db_connections ?db) (ca, i, expected) (c', secret)\<rparr>)"
    by (rule recordTest_run [OF run [unfolded Inr]]) (rule that)
  from upd show ?thesis
  proof
    assume "st_db st' = ?db"
    then show ?thesis using inv by simp
  next
    assume "\<exists>old secret. jm_get (db_connections ?db) (ca, i, expected) = Some (old, secret) \<and>
       st_db st' = ?db\<lparr>db_connections := jm_set (db_connections ?db) (ca, i, expected) (c', secret)\<rparr>"
    then obtain old secret where old: "conn_get ?db ca i expected = Some (old, secret)"
      and db': "st_db st' = ?db\<lparr>db_connections := jm_set (db_connections ?db) (ca, i, expected) (c', secret)\<rparr>"
      by (auto simp: conn_get_def)
    have get: "conn_get (st_db st') x j q = (if x = ca \<and> j = i \<and> q = expected then Some (c', secret) else conn_get ?db x j q)"
      for x j q
      by (simp add: db' conn_get_def)
    have "old = c" using find_latest [OF c(1) inv] old c(2) by auto
    then have same: "cn_id c' = cn_id old" "cn_revision c' = cn_revision old" "cn_status c' = cn_status old"
      "secret_fits c' t = secret_fits old t" for t
      by (simp_all add: c(4) secret_fits_def split: option.split)
    have stored: "cn_id c = j \<and> cn_revision c = q \<and> 1 \<le> q \<and> secret_fits c s \<and>
        (\<forall>p. 1 \<le> p \<and> p < q \<longrightarrow> (\<exists>c' s'. conn_get ?db x j p = Some (c', s') \<and> cn_status c' \<noteq> Deleted)) \<and>
        (cn_status c = Deleted \<longrightarrow> (\<forall>p c' s'. conn_get ?db x j p = Some (c', s') \<longrightarrow> s' = None))"
      if "conn_get ?db x j q = Some (c, s)" for x j q c s
      using inv that by (simp add: conn_inv_def)
    have origin: "\<exists>c0. conn_get ?db x j q = Some (c0, s) \<and> cn_id c = cn_id c0 \<and> cn_revision c = cn_revision c0 \<and>
        cn_status c = cn_status c0 \<and> secret_fits c s = secret_fits c0 s"
      if "conn_get (st_db st') x j q = Some (c, s)" for x j q c s
      using that old same by (auto simp: get split: if_splits)
    have forth: "\<exists>c. conn_get (st_db st') x j q = Some (c, s) \<and> cn_status c = cn_status c0"
      if "conn_get ?db x j q = Some (c0, s)" for x j q c0 s
      using that old same by (auto simp: get)
    have "cn_id c = j \<and> cn_revision c = q \<and> 1 \<le> q \<and> secret_fits c s \<and>
        (\<forall>p. 1 \<le> p \<and> p < q \<longrightarrow> (\<exists>c' s'. conn_get (st_db st') x j p = Some (c', s') \<and> cn_status c' \<noteq> Deleted)) \<and>
        (cn_status c = Deleted \<longrightarrow> (\<forall>p c' s'. conn_get (st_db st') x j p = Some (c', s') \<longrightarrow> s' = None))"
      if g: "conn_get (st_db st') x j q = Some (c, s)" for x j q c s
    proof -
      obtain c0 where c0: "conn_get ?db x j q = Some (c0, s)" "cn_id c = cn_id c0" "cn_revision c = cn_revision c0"
        "cn_status c = cn_status c0" "secret_fits c s = secret_fits c0 s"
        using origin [OF g] by blast
      have "\<exists>c' s'. conn_get (st_db st') x j p = Some (c', s') \<and> cn_status c' \<noteq> Deleted" if "1 \<le> p" "p < q" for p
        using stored [OF c0(1)] that forth by metis
      moreover have "s' = None" if "cn_status c = Deleted" "conn_get (st_db st') x j p = Some (c', s')" for p c' s'
        using stored [OF c0(1)] that(1) c0(4) origin [OF that(2)] by metis
      ultimately show ?thesis using stored [OF c0(1)] c0(2-5) by simp
    qed
    moreover have "jm_wf (db_connections (st_db st'))" using inv by (simp add: db' conn_inv_def)
    ultimately show ?thesis unfolding conn_inv_def by blast
  qed
qed

section \<open>No other operation touches connections\<close>

lemma save_connections: "save bd before after db = Inr db' \<Longrightarrow> db_connections db' = db_connections db"
  using save_effect(1) [OF _ refl] by fastforce

lemma reduce_connections:
  assumes "reduce_session e bd n reducer st = (r, st')"
  shows "db_connections (st_db st') = db_connections (st_db st)"
  using assms unfolding reduce_session_def
  by (cases rule: transact_cases) (auto dest!: save_connections)

lemma conn_inv_same: "db_connections db' = db_connections db \<Longrightarrow> conn_inv db \<Longrightarrow> conn_inv db'"
  by (simp add: conn_inv_def conn_get_def)

lemma accept_connections:
  assumes "store_accept e bd inp st = (r, st')"
  shows "db_connections (st_db st') = db_connections (st_db st)"
  using assms unfolding store_accept_def
  by (cases rule: transact_cases) (auto dest!: save_connections split: if_splits)

lemma commit_connections:
  assumes "store_commit e bd b st = (r, st')"
  shows "db_connections (st_db st') = db_connections (st_db st)"
  using assms unfolding store_commit_def
  by (cases rule: transact_cases) (auto dest!: save_connections split: if_splits)

lemma create_connections:
  assumes "store_create e bd s st = (r, st')" "length (stages s) \<le> 1"
  shows "db_connections (st_db st') = db_connections (st_db st)"
proof (cases r)
  case (Inl f)
  then show ?thesis using assms(1) by (auto simp: store_create_def transact_def split: sum.splits)
next
  case (Inr u)
  show ?thesis by (rule create_run [OF assms(1) [unfolded Inr] assms(2)]) simp
qed

lemma retire_connections:
  assumes "store_retire e bd n revn gen st = (r, st')"
  shows "db_connections (st_db st') = db_connections (st_db st)"
proof -
  obtain r0 st0 where run: "transact st (\<lambda>db. and_then (load_state e db n) (\<lambda>before.
     unless_exit (writable_session st (ws_session before)) (and_then (retireSession e defaultLimits before revn gen) (\<lambda>after.
        and_then (save bd before after db) (\<lambda>db'. Inr ((), db')))))) = (r0, st0)"
    by (rule prod.exhaust) (rule that)
  then have "st_db st' = st_db st0" using assms release_db by (simp add: store_retire_def)
  with run show ?thesis by (cases rule: transact_cases) (auto dest!: save_connections)
qed

lemma select_connections:
  assumes "store_selectConnection e bd n i revn fresh st = (r, st')"
  shows "db_connections (st_db st') = db_connections (st_db st)"
  using assms unfolding store_selectConnection_def
proof (cases rule: transact_cases)
  case (committed v db)
  obtain ready where "connection_ready (st_db st) (caller_of n) i = Inr ready"
    using committed(2) by (cases "connection_ready (st_db st) (caller_of n) i") simp_all
  with committed(2) have "and_then (load_state e (st_db st) n) (\<lambda>before.
      and_then (selectConnection before i revn fresh) (\<lambda>after.
        if after = before then Inr (ws_session after, st_db st)
        else and_then (save bd before after (st_db st)) (\<lambda>db'. Inr (ws_session after, db')))) = Inr (v, db)"
    by (cases ready) (simp_all only: and_then_simps not_True_eq_False not_False_eq_True if_True if_False sum.distinct)
  then obtain before after where
    rest: "(if after = before then Inr (ws_session after, st_db st)
        else and_then (save bd before after (st_db st)) (\<lambda>db'. Inr (ws_session after, db'))) = Inr (v, db)"
    unfolding and_then_Inr by blast
  show ?thesis using rest by (auto simp: committed(3) dest!: save_connections split: if_splits)
qed simp

lemma prune_connections:
  assumes "store_pruneRetired bd now st = (r, st')"
  shows "db_connections (st_db st') = db_connections (st_db st)"
  using assms
proof (cases rule: prune_run)
  case (pruned rows)
  show ?thesis
    by (rule loop_exit_invariant [OF pruned(2), of "\<lambda>past t. db_connections t = db_connections (st_db st)"])
       (auto simp: prune_one_def split: if_splits)
qed simp

lemma other_connections:
  "store_savePreferences e ca patch st = (u, st') \<Longrightarrow> db_connections (st_db st') = db_connections (st_db st)"
  "store_reserveLaunch l st = (r, st') \<Longrightarrow> db_connections (st_db st') = db_connections (st_db st)"
  "store_registerLaunch n i sc st = (r, st') \<Longrightarrow> db_connections (st_db st') = db_connections (st_db st)"
  "store_releaseLaunch n i st = (r, st') \<Longrightarrow> db_connections (st_db st') = db_connections (st_db st)"
proof -
  assume "store_savePreferences e ca patch st = (u, st')"
  then show "db_connections (st_db st') = db_connections (st_db st)" unfolding store_savePreferences_def
  proof (cases rule: transact_cases)
    case (committed v db)
    then obtain p where "put_preferences ca p (st_db st) = Inr db" by (auto split: if_splits)
    from put_preferences_eqs [OF this] show ?thesis by (auto simp: committed(3))
  qed simp
next
  assume "store_reserveLaunch l st = (r, st')"
  then show "db_connections (st_db st') = db_connections (st_db st)" unfolding store_reserveLaunch_def
    by (cases rule: transact_cases) (auto split: if_splits)
next
  assume "store_registerLaunch n i sc st = (r, st')"
  then show "db_connections (st_db st') = db_connections (st_db st)" unfolding store_registerLaunch_def
    by (cases rule: transact_cases) (auto simp: Let_def split: if_splits option.splits)
next
  assume "store_releaseLaunch n i st = (r, st')"
  then show "db_connections (st_db st') = db_connections (st_db st)" unfolding store_releaseLaunch_def
    by (cases rule: transact_cases) (auto split: if_splits)
qed

lemma handover_connections:
  "store_rebind e bd ri restored st = (x, st') \<Longrightarrow> db_connections (st_db st') = db_connections (st_db st)"
  "store_activateStage e bd xi st = (x, st') \<Longrightarrow> db_connections (st_db st') = db_connections (st_db st)"
  "store_suspend e bd si st = (x, st') \<Longrightarrow> db_connections (st_db st') = db_connections (st_db st)"
  "store_recoverUnavailable e bd ri st = (x, st') \<Longrightarrow> db_connections (st_db st') = db_connections (st_db st)"
  unfolding store_rebind_def store_activateStage_def store_suspend_def store_recoverUnavailable_def
  by (metis own_active_db release_db reduce_connections surj_pair)+

lemma write_conn_inv: "store_write st st' \<Longrightarrow> conn_inv (st_db st) \<Longrightarrow> conn_inv (st_db st')"
proof (induction rule: store_write_of.induct)
  case (Store_connection url_ok cc bd ca nxt expected secret st c st')
  then show ?case by (rule save_connection_inv)
next
  case (Store_test ca i expected result st c st')
  then show ?case by (rule record_test_inv)
qed (simp_all only: single_stage_def conn_inv_same accept_connections commit_connections create_connections retire_connections select_connections
      prune_connections other_connections handover_connections)

lemma step_conn_inv: "store_step st st' \<Longrightarrow> conn_inv (st_db st) \<Longrightarrow> conn_inv (st_db st')"
proof (induction rule: store_step_of.induct)
  case (Store_write st st')
  then show ?case by (rule write_conn_inv)
next
  case (Store_restart e bd st st')
  have "st_db st' = st_db st" using open_db [OF Store_restart(1)] by simp
  then show ?case using Store_restart(2) by simp
qed (simp_all only: conn_inv_same close_db)

end
