(* ===== verification/Connection_Guarantees.thy ===== *)
theory Connection_Guarantees
  imports Connection_History
begin

text \<open>
  What the durable store guarantees of connections: a gapless history, optimistic saving, and the
  finality of a deletion; with a demonstration connection that is saved and deleted.
\<close>

section \<open>A demonstration connection\<close>

definition demo_caller :: caller where
  "demo_caller = \<lparr>ca_tenantId = ''t1'', ca_principalId = ''u1'', ca_authorityId = ''a1''\<rparr>"

definition demo_connection :: "counter \<Rightarrow> connection_status \<Rightarrow> connection" where
  "demo_connection r st = \<lparr>cn_id = ''c1'', cn_provider = Codex, cn_revision = r, cn_profile = Conversation, cn_status = st,
     cn_source = Custom_api (utext_of ''u'') (utext_of ''m'') None, cn_lastTest = None, cn_name = utext_of ''n'',
     cn_presentation = []\<rparr>"

definition demo_secret :: "nat list" where
  "demo_secret = replicate 29 0"

definition demo_conn_store :: store where
  "demo_conn_store = empty_store\<lparr>st_db := empty_database\<lparr>
     db_connections := [((demo_caller, ''c1'', 1), (demo_connection 1 Ready, Some demo_secret))],
     db_preferences := [(demo_caller, emptyPreferences\<lparr>defaultConnectionId := Some ''c1''\<rparr>)]\<rparr>\<rparr>"

definition demo_conn_gone :: store where
  "demo_conn_gone = empty_store\<lparr>st_db := empty_database\<lparr>
     db_connections := [((demo_caller, ''c1'', 1), (demo_connection 1 Ready, None)),
                        ((demo_caller, ''c1'', 2), (demo_connection 2 Deleted, None))],
     db_preferences := [(demo_caller, emptyPreferences)]\<rparr>\<rparr>"

lemma demo_conn_sel [simp]: "cn_id (demo_connection r s) = ''c1''" "cn_revision (demo_connection r s) = r"
  "cn_status (demo_connection r s) = s" "cn_source (demo_connection r s) = Custom_api (utext_of ''u'') (utext_of ''m'') None"
  "cn_name (demo_connection r s) = utext_of ''n''"
  by (simp_all add: demo_connection_def)

lemma demo_caller_valid [simp]: "valid_caller demo_caller"
  by (simp add: valid_caller_def demo_caller_def)

lemma demo_conn_fits:
  "fits defaultLimits (json_of_connection (demo_connection 1 Ready))"
  "fits defaultLimits (json_of_connection (demo_connection 2 Deleted))"
  by (rule fits_by_size; simp add: json_of_connection_def demo_connection_def json_of_presentation_def row_eval
      is_safe_integer_def max_safe_def json_int_def decimal.simps byteLength_Cons utf8_char_def)+

lemma demo_conn_json:
  assumes "c \<in> {demo_connection 1 Ready, demo_connection 2 Deleted}"
  shows "boundedJson defaultLimits (json_of_connection c) = Inr (json_print (json_of_connection c))"
    "schema_connection c" "byteLength (json_print (json_of_connection c)) \<le> 262144" "decode_connection c = None"
proof -
  have fit: "fits defaultLimits (json_of_connection c)" using assms demo_conn_fits by auto
  then show json: "boundedJson defaultLimits (json_of_connection c) = Inr (json_print (json_of_connection c))"
    by (simp add: boundedJson_Inr)
  show "byteLength (json_print (json_of_connection c)) \<le> 262144"
    using fit by (simp add: fits_def defaultLimits_def)
  show schema: "schema_connection c"
    using assms by (auto simp: schema_connection_def bounded_text_def demo_connection_def opt_ok_def isCounter_def max_safe_def)
  show "decode_connection c = None" by (simp add: decode_connection_def decode_json_def json schema)
qed

lemma demo_revision:
  "connectionRevision (\<lambda>u. True) (\<lambda>c. False) (demo_connection 1 Ready) None None = Inr (demo_connection 1 Ready)"
  "connectionRevision (\<lambda>u. True) (\<lambda>c. False) (demo_connection 2 Deleted) (Some (demo_connection 1 Ready)) (Some 1) =
     Inr (demo_connection 2 Deleted)"
proof -
  have "\<not> white_space (utext_of ''n'')" "\<not> white_space (utext_of ''m'')"
    by (simp_all add: white_space_def utext_of_def)
  then show "connectionRevision (\<lambda>u. True) (\<lambda>c. False) (demo_connection 1 Ready) None None = Inr (demo_connection 1 Ready)"
    "connectionRevision (\<lambda>u. True) (\<lambda>c. False) (demo_connection 2 Deleted) (Some (demo_connection 1 Ready)) (Some 1) =
     Inr (demo_connection 2 Deleted)"
    by (simp_all add: connectionRevision_def reencodes_def demo_conn_json list_ex_iff)
qed

lemma demo_preferences:
  "boundedJson defaultLimits (json_of_preferences emptyPreferences) = Inr (json_print (json_of_preferences emptyPreferences))"
  "boundedJson defaultLimits (json_of_preferences (emptyPreferences\<lparr>defaultConnectionId := Some ''c1''\<rparr>)) =
     Inr (json_print (json_of_preferences (emptyPreferences\<lparr>defaultConnectionId := Some ''c1''\<rparr>)))"
proof -
  have "fits defaultLimits (json_of_preferences emptyPreferences)"
    "fits defaultLimits (json_of_preferences (emptyPreferences\<lparr>defaultConnectionId := Some ''c1''\<rparr>))"
    by (rule fits_by_size; simp add: json_of_preferences_def emptyPreferences_def row_eval is_safe_integer_def max_safe_def
        json_int_def decimal.simps byteLength_Cons utf8_char_def)+
  then show "boundedJson defaultLimits (json_of_preferences emptyPreferences) = Inr (json_print (json_of_preferences emptyPreferences))"
    "boundedJson defaultLimits (json_of_preferences (emptyPreferences\<lparr>defaultConnectionId := Some ''c1''\<rparr>)) =
     Inr (json_print (json_of_preferences (emptyPreferences\<lparr>defaultConnectionId := Some ''c1''\<rparr>)))"
    by (simp_all add: boundedJson_Inr)
qed

lemma demo_save_first: "store_saveConnection (\<lambda>u. True) (\<lambda>c. False) demo_bounds demo_caller (demo_connection 1 Ready) None
    (Some demo_secret) empty_store = (Inr (demo_connection 1 Ready), demo_conn_store)"
proof -
  let ?c = "demo_connection 1 Ready"
  have "find_connection empty_database demo_caller ''c1'' None = Inr None"
    by (simp add: find_connection_def revisions_def last_of_def empty_database_def opt_ok_def)
  moreover have "list_connections demo_bounds empty_database demo_caller = Inr []"
    by (simp add: list_connections_def connection_ids_def empty_database_def)
  moreover have "read_preferences empty_database demo_caller = Inr emptyPreferences"
    by (simp add: read_preferences_def empty_database_def)
  moreover have "adjust_default ?c [] emptyPreferences = emptyPreferences\<lparr>defaultConnectionId := Some ''c1''\<rparr>"
    by (simp add: adjust_default_def emptyPreferences_def chosen_def)
  moreover have "\<not> secret_refused ?c (Some demo_secret)" by (simp add: secret_refused_def demo_secret_def)
  ultimately show ?thesis
    by (simp add: store_saveConnection_def transact_def query_def empty_store_def demo_revision put_connection_def
        wipe_deleted_def put_preferences_def demo_preferences)
       (simp add: empty_database_def jm_has_def jm_get_def jm_set_def demo_conn_store_def empty_store_def)
qed

lemma demo_reachable_conn: "reachable_store demo_conn_store"
  using Fresh_store Store_write [OF Store_connection [OF demo_save_first]] Next_store by blast

lemma demo_save_second: "store_saveConnection (\<lambda>u. True) (\<lambda>c. False) demo_bounds demo_caller (demo_connection 2 Deleted) (Some 1)
    None demo_conn_store = (Inr (demo_connection 2 Deleted), demo_conn_gone)"
proof -
  let ?c = "demo_connection 2 Deleted" and ?db = "st_db demo_conn_store" and ?u = "emptyPreferences\<lparr>defaultConnectionId := Some ''c1''\<rparr>"
  have revs: "revisions ?db demo_caller ''c1'' = [(1, demo_connection 1 Ready, Some demo_secret)]"
    by (simp add: revisions_def demo_conn_store_def)
  have "find_connection ?db demo_caller ''c1'' None = Inr (Some (demo_connection 1 Ready))"
    by (simp add: find_connection_def revs last_of_def opt_ok_def demo_conn_json)
  moreover have "list_connections demo_bounds ?db demo_caller = Inr [demo_connection 1 Ready]"
  proof -
    have "connection_ids ?db demo_caller = [''c1'']" by (simp add: connection_ids_def demo_conn_store_def)
    then show ?thesis
      using demo_conn_json(3) [of "demo_connection 1 Ready"]
      by (simp add: list_connections_def revs last_of_def demo_conn_json(4) Let_def)
  qed
  moreover have "read_preferences ?db demo_caller = Inr ?u"
  proof -
    have "schema_preferences ?u" by (simp add: schema_preferences_def emptyPreferences_def opt_ok_def)
    then show ?thesis
      by (simp add: read_preferences_def demo_conn_store_def jm_get_def decode_json_def demo_preferences fail_if_def)
  qed
  moreover have "adjust_default ?c [demo_connection 1 Ready] ?u = emptyPreferences"
    by (simp add: adjust_default_def emptyPreferences_def chosen_def)
  moreover have "\<not> secret_refused ?c None" by (simp add: secret_refused_def)
  moreover have "\<not> jm_has (db_connections ?db) (demo_caller, ''c1'', 2)"
    by (simp add: demo_conn_store_def jm_has_def jm_get_def)
  ultimately show ?thesis
    by (simp add: store_saveConnection_def transact_def query_def demo_revision put_connection_def
        wipe_deleted_def put_preferences_def demo_preferences)
       (simp add: demo_conn_store_def empty_store_def empty_database_def jm_set_def wipe_secrets_def demo_conn_gone_def)
qed

lemma demo_reachable_gone_conn: "reachable_store demo_conn_gone"
  using demo_reachable_conn Store_write [OF Store_connection [OF demo_save_second]] Next_store by blast

section \<open>The guarantees\<close>

lemma reachable_conn_inv: "reachable_store st \<Longrightarrow> conn_inv (st_db st)"
proof (induction rule: reachable_store_of.induct)
  case Fresh_store
  show ?case by (simp add: conn_inv_def conn_get_def empty_store_def empty_database_def)
next
  case (Next_store st st')
  then show ?case using step_conn_inv by blast
qed

text \<open>
  C39. The stored history of a connection has no gaps: every revision is filed under its own
  identifier and number, all earlier ones are present and none of them is a deletion, a stored
  secret has an admissible size and belongs to a custom endpoint, and once a connection
  is deleted none of its revisions holds a secret.
\<close>

theorem connection_history:
  assumes "reachable_store st" "conn_get (st_db st) ca i r = Some (c, s)"
  shows "cn_id c = i \<and> cn_revision c = r \<and> 1 \<le> r \<and> secret_fits c s \<and>
    (\<forall>q. 1 \<le> q \<and> q < r \<longrightarrow> (\<exists>c' s'. conn_get (st_db st) ca i q = Some (c', s') \<and> cn_status c' \<noteq> Deleted)) \<and>
    (cn_status c = Deleted \<longrightarrow> (\<forall>q c' s'. conn_get (st_db st) ca i q = Some (c', s') \<longrightarrow> s' = None))"
  using reachable_conn_inv [OF assms(1)] assms(2) by (simp add: conn_inv_def)

theorem connection_history_witness:
  "\<exists>c'. conn_get (st_db demo_conn_gone) demo_caller ''c1'' 1 = Some (c', None) \<and> cn_status c' \<noteq> Deleted"
proof -
  have "conn_get (st_db demo_conn_gone) demo_caller ''c1'' 2 = Some (demo_connection 2 Deleted, None)"
    by (simp add: conn_get_def demo_conn_gone_def jm_get_def)
  then have "\<exists>c' s'. conn_get (st_db demo_conn_gone) demo_caller ''c1'' 1 = Some (c', s') \<and> cn_status c' \<noteq> Deleted"
    "\<forall>q c' s'. conn_get (st_db demo_conn_gone) demo_caller ''c1'' q = Some (c', s') \<longrightarrow> s' = None"
    using connection_history [OF demo_reachable_gone_conn, of demo_caller "''c1''" 2 "demo_connection 2 Deleted" None] by auto
  then show ?thesis by blast
qed

text \<open>
  C40. A deletion is final: from then on the connection cannot be saved again under any revision,
  its tests cannot be recorded, no secret of it is handed out, and each attempt leaves the store
  as it was.
\<close>

theorem deletion_is_final:
  assumes "find_connection (st_db st) ca i None = Inr (Some c)" "cn_status c = Deleted" "cn_id nxt = i"
  shows "(\<exists>f. store_saveConnection url_ok cc bd ca nxt expected secret st = (Inl f, st)) \<and>
    (\<exists>f. store_recordConnectionTest ca i revn result st = (Inl f, st)) \<and>
    (\<exists>f. store_encryptedSecret ca i revn st = Inl f)"
proof -
  have "\<exists>f. store_saveConnection url_ok cc bd ca nxt expected secret st = (Inl f, st)"
  proof (cases "store_saveConnection url_ok cc bd ca nxt expected secret st")
    case (Pair r st')
    show ?thesis
    proof (cases r)
      case (Inl f)
      from Pair [unfolded store_saveConnection_def] have "st' = st"
        by (cases rule: transact_cases) (simp_all add: Inl)
      then show ?thesis using Pair Inl by simp
    next
      case (Inr x)
      have False
        by (rule saveConnection_run [OF Pair [unfolded Inr]])
           (use assms connectionRevision_Inr(4) in fastforce)
      then show ?thesis ..
    qed
  qed
  moreover have "\<exists>f. store_recordConnectionTest ca i revn result st = (Inl f, st)"
  proof (cases "store_recordConnectionTest ca i revn result st")
    case (Pair r st')
    show ?thesis
    proof (cases r)
      case (Inl f)
      from Pair [unfolded store_recordConnectionTest_def] have "st' = st"
        by (cases rule: transact_cases) (simp_all add: Inl)
      then show ?thesis using Pair Inl by simp
    next
      case (Inr x)
      have False by (rule recordTest_run [OF Pair [unfolded Inr]]) (use assms(1,2) in simp)
      then show ?thesis ..
    qed
  qed
  moreover have "\<exists>f. store_encryptedSecret ca i revn st = Inl f"
    using assms(1,2) by (simp add: store_encryptedSecret_def query_def)
  ultimately show ?thesis by blast
qed

theorem deletion_is_final_witness:
  "\<exists>f. store_encryptedSecret demo_caller ''c1'' 1 demo_conn_gone = Inl f"
proof -
  have "revisions (st_db demo_conn_gone) demo_caller ''c1'' =
      [(1, demo_connection 1 Ready, None), (2, demo_connection 2 Deleted, None)]"
    by (simp add: revisions_def demo_conn_gone_def)
  then have "find_connection (st_db demo_conn_gone) demo_caller ''c1'' None = Inr (Some (demo_connection 2 Deleted))"
    by (simp add: find_connection_def last_of_def opt_ok_def demo_conn_json)
  then show ?thesis
    using deletion_is_final [of demo_conn_gone demo_caller "''c1''" "demo_connection 2 Deleted"
        "demo_connection 2 Deleted"] by simp
qed

lemma find_stored:
  assumes inv: "conn_inv db" and get: "conn_get db ca i r = Some (c, s)"
    and top: "\<And>q. conn_get db ca i q \<noteq> None \<Longrightarrow> q \<le> r"
    and ok: "isId i" "valid_caller ca" "decode_connection c = None"
  shows "find_connection db ca i None = Inr (Some c)"
proof -
  let ?rs = "revisions db ca i"
  have mem: "conn_get db ca i r = Some v \<longleftrightarrow> (r, v) \<in> set ?rs" for r v
    using inv by (simp add: conn_get_def revisions_set conn_inv_def jm_mem_get)
  have r: "(r, c, s) \<in> set ?rs" using get mem by blast
  then have ne: "?rs \<noteq> []" by auto
  obtain q d t where l: "last ?rs = (q, d, t)" by (metis surj_pair)
  have q: "(q, d, t) \<in> set ?rs" using l ne last_in_set by metis
  have "q \<le> r" using top [of q] q mem [of q] by fastforce
  moreover have "r \<le> q"
  proof -
    have "r \<in> set (map fst ?rs)" using r by force
    moreover have "last (map fst ?rs) = q" using l ne by (simp add: last_map)
    ultimately show ?thesis using sorted_le_last [OF revisions_sorted [of db ca i]] by metis
  qed
  ultimately have "q = r" by simp
  then have "d = c" using q mem get by (metis Pair_inject option.inject)
  then show ?thesis using l ne ok by (simp add: find_connection_def last_of_def opt_ok_def)
qed

text \<open>
  Saving is optimistic: it succeeds only against the latest stored revision, then that
  revision is the one every later read returns, and no other connection of any caller changes.
\<close>

theorem save_is_optimistic:
  assumes "reachable_store st"
    and run: "store_saveConnection url_ok cc bd ca nxt expected secret st = (Inr c, st')"
  shows "c = nxt \<and>
    (\<exists>previous. find_connection (st_db st) ca (cn_id nxt) None = Inr previous \<and> expected = map_option cn_revision previous) \<and>
    find_connection (st_db st') ca (cn_id nxt) None = Inr (Some nxt) \<and>
    (\<forall>ca' j q. (ca', j) \<noteq> (ca, cn_id nxt) \<longrightarrow> conn_get (st_db st') ca' j q = conn_get (st_db st) ca' j q)"
proof -
  let ?db = "st_db st" and ?i = "cn_id nxt" and ?r = "cn_revision nxt"
  have inv: "conn_inv ?db" by (rule reachable_conn_inv [OF assms(1)])
  obtain previous db1 y where c: "c = nxt"
    and prev: "find_connection ?db ca ?i None = Inr previous"
    and rev: "connectionRevision url_ok cc nxt previous expected = Inr nxt"
    and db1: "db1 = ?db\<lparr>db_connections := jm_set (db_connections ?db) (ca, ?i, ?r) (nxt, secret)\<rparr>"
    and db': "st_db st' = (wipe_deleted ca nxt db1)\<lparr>db_preferences := y\<rparr>"
    by (rule saveConnection_run [OF run]) (rule that)
  have get1: "conn_get db1 x j q = (if x = ca \<and> j = ?i \<and> q = ?r then Some (nxt, secret) else conn_get ?db x j q)" for x j q
    by (simp add: db1 conn_get_def)
  have get: "conn_get (st_db st') x j q = (if cn_status nxt = Deleted \<and> x = ca \<and> j = ?i
      then map_option (\<lambda>(row, s). (row, None)) (conn_get db1 x j q) else conn_get db1 x j q)" for x j q
  proof -
    have "conn_get (st_db st') x j q = conn_get (wipe_deleted ca nxt db1) x j q" by (simp add: db' conn_get_def)
    then show ?thesis by (cases "conn_get db1 x j q") (auto simp: wipe_deleted_def wiped_get)
  qed
  have r: "?r = (case previous of Some p \<Rightarrow> cn_revision p | None \<Rightarrow> 0) + 1"
    using connectionRevision_Inr(2,3) [OF rev] by (auto split: option.splits)
  have top: "q \<le> ?r" if "conn_get (st_db st') ca ?i q \<noteq> None" for q
  proof (cases "q = ?r")
    case False
    then have "conn_get ?db ca ?i q \<noteq> None" using that by (auto simp: get get1 split: if_splits)
    then show ?thesis using find_latest [OF prev inv] r by (cases previous) fastforce+
  qed simp
  have caller: "valid_caller ca" using prev by (auto simp: find_connection_def split: if_splits)
  obtain t where "conn_get (st_db st') ca ?i ?r = Some (nxt, t)"
    by (cases "cn_status nxt = Deleted") (auto simp: get get1)
  moreover have "decode_connection nxt = None"
    using rev by (auto simp: connectionRevision_def reencodes_def invalid_connection_def decode_connection_def decode_json_def
        fail_if_def split: if_splits sum.splits)
  moreover have "isId ?i" using connectionRevision_Inr(5) [OF rev] by (simp add: schema_connection_def)
  ultimately have "find_connection (st_db st') ca ?i None = Inr (Some nxt)"
    using find_stored [OF save_connection_inv [OF run inv] _ top _ caller] by blast
  then show ?thesis
    using c prev connectionRevision_Inr(2) [OF rev] by (auto simp: get get1)
qed

theorem save_is_optimistic_witness:
  "find_connection (st_db demo_conn_gone) demo_caller ''c1'' None = Inr (Some (demo_connection 2 Deleted))"
  using save_is_optimistic [OF demo_reachable_conn demo_save_second] by simp

end
