(* ===== verification/Read_Views.thy ===== *)
theory Read_Views
  imports Wire_Codec
begin

text \<open>
  The paged read views of \<^verbatim>\<open>ai-contract/src/read-views.ts\<close>. A first page captures an
  immutable value; continuation tokens address it until it expires. \<open>uuid k\<close> is the \<open>k\<close>-th
  identifier the process draws from \<^verbatim>\<open>crypto.randomUUID\<close>, \<open>now\<close> the clock's reading and
  \<open>captured\<close> the outcome of the capture callback, which runs only on a first page. The captured
  value is immutable in HOL, so \<^verbatim>\<open>structuredClone\<close> has no counterpart. An exception that leaves
  a method is the failure its caller reports for it. The numbers of a \<^verbatim>\<open>PageQuery\<close> are integral.
\<close>

section \<open>State\<close>

record page_query =
  pq_limit :: int
  pq_continuation :: "id option"

record 'a view_entry =
  vw_scope :: string
  vw_expires :: int
  vw_limit :: int
  vw_value :: 'a
  vw_bytes :: int
  vw_continued :: bool

record view_token =
  tk_id :: id
  tk_offset :: nat
  tk_index :: nat

record 'a read_views =
  vs_views :: "(id, 'a view_entry) jsmap"
  vs_retained :: int
  vs_tokens :: "(id, view_token) jsmap"
  vs_drawn :: nat \<comment> \<open>identifiers drawn so far\<close>

text \<open>What \<^verbatim>\<open>read\<close> returns: the view, the position in it and its value.\<close>

record 'a view_position =
  vp_id :: id
  vp_offset :: nat
  vp_index :: nat
  vp_value :: 'a

definition no_views :: "'a read_views" where
  "no_views = \<lparr>vs_views = [], vs_retained = 0, vs_tokens = [], vs_drawn = 0\<rparr>"

definition view_limits :: limits where
  "view_limits = Limits 16777216 16777216 64 1048576"

text \<open>The truth of an optional string.\<close>

fun truthy_text :: "string option \<Rightarrow> bool" where
  "truthy_text None = False"
| "truthy_text (Some s) = (s \<noteq> [])"

section \<open>Operations\<close>

definition view_bytes :: "'a read_views \<Rightarrow> int" where
  "view_bytes vs = sum_list (map vw_bytes (jm_values (vs_views vs)))"

definition expired_view :: "int \<Rightarrow> id \<times> 'a view_entry \<Rightarrow> bool" where
  "expired_view now kv \<longleftrightarrow> vw_expires (snd kv) < now"

definition live_tokens :: "(id, 'a view_entry) jsmap \<Rightarrow> (id, view_token) jsmap \<Rightarrow> (id, view_token) jsmap" where
  "live_tokens views toks = filter (\<lambda>(t, row). jm_has views (tk_id row)) toks"

definition sweep_views :: "int \<Rightarrow> 'a read_views \<Rightarrow> 'a read_views" where
  "sweep_views now vs = (let kept = filter (\<lambda>kv. \<not> expired_view now kv) (vs_views vs) in
     vs\<lparr>vs_views := kept,
        vs_retained := vs_retained vs - sum_list (map (vw_bytes \<circ> snd) (filter (expired_view now) (vs_views vs))),
        vs_tokens := live_tokens kept (vs_tokens vs)\<rparr>)"

definition continue_view :: "string \<Rightarrow> int \<Rightarrow> id \<Rightarrow> 'a read_views \<Rightarrow> 'a view_position result" where
  "continue_view scope limit token vs = (case jm_get (vs_tokens vs) token of
     None \<Rightarrow> Inl (fail_with Cursor_expired Never)
   | Some row \<Rightarrow> (case jm_get (vs_views vs) (tk_id row) of
       None \<Rightarrow> Inl (fail_with Cursor_expired Never)
     | Some view \<Rightarrow> if vw_scope view \<noteq> scope \<or> vw_limit view \<noteq> limit then Inl (fail_with Cursor_expired Never)
         else Inr \<lparr>vp_id = tk_id row, vp_offset = tk_offset row, vp_index = tk_index row, vp_value = vw_value view\<rparr>))"

definition capture_view ::
  "(nat \<Rightarrow> id) \<Rightarrow> (exit \<Rightarrow> failure) \<Rightarrow> ('a \<Rightarrow> json) \<Rightarrow> int \<Rightarrow> int \<Rightarrow> string \<Rightarrow> int \<Rightarrow> 'a result \<Rightarrow> 'a read_views
     \<Rightarrow> 'a view_position result \<times> 'a read_views" where
  "capture_view uuid thrown as_json ttl now scope limit captured vs =
     (if 128 \<le> length (vs_views vs) then (Inl (fail_with Limit_exceeded Never), vs)
      else let i = uuid (vs_drawn vs); drawn = vs\<lparr>vs_drawn := Suc (vs_drawn vs)\<rparr> in
        case captured of
          Inl f \<Rightarrow> (Inl f, drawn)
        | Inr v \<Rightarrow> (case boundedJson view_limits (as_json v) of
            Inl d \<Rightarrow> (Inl (if d = D_limit then fail_with Limit_exceeded Never else thrown (Contract_error d)), drawn)
          | Inr text \<Rightarrow> let bytes = byteLength text in
              if 16777216 < vs_retained vs + bytes then (Inl (fail_with Limit_exceeded Never), drawn)
              else (Inr \<lparr>vp_id = i, vp_offset = 0, vp_index = 0, vp_value = v\<rparr>,
                drawn\<lparr>vs_retained := vs_retained vs + bytes,
                  vs_views := jm_set (vs_views vs) i \<lparr>vw_scope = scope, vw_expires = now + ttl, vw_limit = limit,
                    vw_value = v, vw_bytes = bytes, vw_continued = False\<rparr>\<rparr>)))"

definition views_read ::
  "(nat \<Rightarrow> id) \<Rightarrow> (exit \<Rightarrow> failure) \<Rightarrow> ('a \<Rightarrow> json) \<Rightarrow> int \<Rightarrow> int \<Rightarrow> string \<Rightarrow> page_query \<Rightarrow> 'a result \<Rightarrow> 'a read_views
     \<Rightarrow> 'a view_position result \<times> 'a read_views" where
  "views_read uuid thrown as_json ttl now scope q captured vs =
     (if \<not> is_safe_integer (pq_limit q) \<or> pq_limit q < 1 \<or> 256 < pq_limit q
      then (Inl (fail_with Invalid_input Never), vs)
      else let swept = sweep_views now vs in
        if truthy_text (pq_continuation q)
        then (continue_view scope (pq_limit q) (the (pq_continuation q)) swept, swept)
        else capture_view uuid thrown as_json ttl now scope (pq_limit q) captured swept)"

text \<open>\<^verbatim>\<open>next\<close>: a position already handed out keeps its token.\<close>

definition next_token :: "(nat \<Rightarrow> id) \<Rightarrow> id \<Rightarrow> nat \<Rightarrow> nat \<Rightarrow> 'a read_views \<Rightarrow> id \<times> 'a read_views" where
  "next_token uuid i offset index vs =
     (let row = \<lparr>tk_id = i, tk_offset = offset, tk_index = index\<rparr> in
      case find (\<lambda>(t, r). r = row) (vs_tokens vs) of
        Some (t, r) \<Rightarrow> (t, vs)
      | None \<Rightarrow> let t = uuid (vs_drawn vs) in
          (t, vs\<lparr>vs_tokens := jm_set (vs_tokens vs) t row, vs_drawn := Suc (vs_drawn vs)\<rparr>))"

definition finish_view :: "id \<Rightarrow> bool \<Rightarrow> 'a read_views \<Rightarrow> 'a read_views" where
  "finish_view i more_pages vs = (case jm_get (vs_views vs) i of
     None \<Rightarrow> vs
   | Some view \<Rightarrow>
       if vw_continued view \<or> more_pages
       then vs\<lparr>vs_views := jm_set (vs_views vs) i (view\<lparr>vw_continued := True\<rparr>)\<rparr>
       else vs\<lparr>vs_retained := vs_retained vs - vw_bytes view, vs_views := jm_delete (vs_views vs) i,
              vs_tokens := filter (\<lambda>(t, row). tk_id row \<noteq> i) (vs_tokens vs)\<rparr>)"

definition clear_views :: "'a read_views \<Rightarrow> 'a read_views" where
  "clear_views vs = vs\<lparr>vs_retained := 0, vs_views := [], vs_tokens := []\<rparr>"

text \<open>The optional \<^verbatim>\<open>next\<close> of a page: a token when records remain after \<open>offset\<close>.\<close>

definition rest_token ::
  "(nat \<Rightarrow> id) \<Rightarrow> id \<Rightarrow> nat \<Rightarrow> nat \<Rightarrow> nat \<Rightarrow> 'a read_views \<Rightarrow> id option \<times> 'a read_views" where
  "rest_token uuid i len offset index vs =
     (if offset < len then (case next_token uuid i offset index vs of (t, vs') \<Rightarrow> (Some t, vs')) else (None, vs))"

text \<open>
  The page loop both readers share: the largest prefix, halving, whose page fits the caller's
  limits. \<open>build\<close> builds the page from its records and its continuation.
\<close>

function fit_page ::
  "(nat \<Rightarrow> id) \<Rightarrow> limits \<Rightarrow> ('p \<Rightarrow> json) \<Rightarrow> ('r list \<Rightarrow> id option \<Rightarrow> 'p) \<Rightarrow> 'r list \<Rightarrow> id \<Rightarrow> nat \<Rightarrow> nat \<Rightarrow> nat
     \<Rightarrow> 'a read_views \<Rightarrow> 'p result \<times> 'a read_views" where
  "fit_page uuid lim as_json build rows i offset index count vs =
     (case rest_token uuid i (length rows) (offset + count) (index + 1) vs of (nxt, vs') \<Rightarrow>
      (let page = build (take count (drop offset rows)) nxt in
      case boundedJson lim (as_json page) of
        Inr s \<Rightarrow> (Inr page, finish_view i (truthy_text nxt) vs')
      | Inl d \<Rightarrow> if count \<le> 1 then (Inl (fail_with Limit_exceeded Never), finish_view i False vs')
          else fit_page uuid lim as_json build rows i offset index (count div 2) vs'))"
  by pat_completeness auto
termination
  by (relation "measure (\<lambda>(uuid, lim, as_json, build, rows, i, offset, index, count, vs). count)") auto

declare fit_page.simps [simp del]

text \<open>\<open>cast\<close> reads the captured value as what the caller captured; a value of another kind has no records.\<close>

definition page_of ::
  "(nat \<Rightarrow> id) \<Rightarrow> limits \<Rightarrow> ('p \<Rightarrow> json) \<Rightarrow> ('a view_position \<Rightarrow> 'r list \<Rightarrow> id option \<Rightarrow> 'p) \<Rightarrow> ('a \<Rightarrow> failure + 'r list)
     \<Rightarrow> page_query \<Rightarrow> 'a view_position result \<times> 'a read_views \<Rightarrow> 'p result \<times> 'a read_views" where
  "page_of uuid lim as_json build cast q r = (case r of
     (Inl f, vs) \<Rightarrow> (Inl f, vs)
   | (Inr p, vs) \<Rightarrow> (case cast (vp_value p) of
       Inl f \<Rightarrow> (Inl f, vs)
     | Inr rows \<Rightarrow>
         if length rows < vp_offset p then (Inl (fail_with Cursor_expired Never), vs)
         else fit_page uuid lim as_json (build p) rows (vp_id p) (vp_offset p) (vp_index p)
           (nat (min (pq_limit q) (int (length rows - vp_offset p)))) vs))"

section \<open>Invariant\<close>

text \<open>
  At most 128 views are retained, their recorded sizes add up to the running total, which stays
  within the budget, and every token addresses a retained view.
\<close>

definition views_inv :: "(nat \<Rightarrow> id) \<Rightarrow> 'a read_views \<Rightarrow> bool" where
  "views_inv uuid vs \<longleftrightarrow> jm_wf (vs_views vs) \<and> jm_wf (vs_tokens vs) \<and>
     length (vs_views vs) \<le> 128 \<and> vs_retained vs = view_bytes vs \<and> vs_retained vs \<le> 16777216 \<and>
     (\<forall>v \<in> set (jm_values (vs_views vs)). 0 \<le> vw_bytes v \<and> 1 \<le> vw_limit v \<and> vw_limit v \<le> 256) \<and>
     set (jm_keys (vs_views vs)) \<union> set (jm_keys (vs_tokens vs)) \<subseteq> uuid ` {..<vs_drawn vs} \<and>
     (\<forall>row \<in> set (jm_values (vs_tokens vs)). jm_has (vs_views vs) (tk_id row))"

lemma jm_has_keys: "jm_has m k \<longleftrightarrow> k \<in> set (jm_keys m)"
  by (induction m) (auto simp: jm_has_def jm_get_def jm_keys_def)

lemma jm_keys_filter: "set (jm_keys (filter P m)) \<subseteq> set (jm_keys m)"
  by (auto simp: jm_keys_def)

lemma jm_values_filter: "set (jm_values (filter P m)) \<subseteq> set (jm_values m)"
  by (auto simp: jm_values_def)

lemma jm_wf_filter: "jm_wf m \<Longrightarrow> jm_wf (filter P m)"
  unfolding jm_wf_def by (induction m) auto

lemma jm_get_filter: "jm_wf m \<Longrightarrow> jm_get (filter P m) k = Some v \<longleftrightarrow> jm_get m k = Some v \<and> P (k, v)"
  by (auto simp: jm_mem_get [symmetric] jm_wf_filter)

lemma jm_delete_filter: "jm_delete m k = filter (\<lambda>kv. fst kv \<noteq> k) m"
  by (induction m) (auto simp: jm_delete_def)

lemma sum_partition: "sum_list (map f xs) = sum_list (map f (filter P xs)) + sum_list (map f (filter (\<lambda>x. \<not> P x) xs))"
  for f :: "'b \<Rightarrow> int"
  by (induction xs) auto

lemma sum_filter_le: "\<forall>x \<in> set xs. 0 \<le> f x \<Longrightarrow> sum_list (map f (filter P xs)) \<le> sum_list (map f xs)"
  for f :: "'b \<Rightarrow> int"
  by (induction xs) auto

lemma view_bytes_map: "view_bytes vs = sum_list (map (vw_bytes \<circ> snd) (vs_views vs))"
  by (simp add: view_bytes_def jm_values_def comp_def)

text \<open>Keeping a selection of views, with the tokens that address them, keeps the invariant.\<close>

lemma keep_views_inv:
  assumes inv: "views_inv uuid vs"
    and views: "vs_views vs' = filter P (vs_views vs)"
    and toks: "vs_tokens vs' = filter Q (vs_tokens vs)"
    and live: "\<And>t row. (t, row) \<in> set (vs_tokens vs') \<Longrightarrow> jm_has (vs_views vs') (tk_id row)"
    and drawn: "vs_drawn vs' = vs_drawn vs"
    and bytes: "vs_retained vs' = view_bytes vs'"
  shows "views_inv uuid vs'"
proof -
  have nonneg: "\<forall>kv \<in> set (vs_views vs). 0 \<le> (vw_bytes \<circ> snd) kv"
    using inv by (force simp: views_inv_def jm_values_def)
  have "view_bytes vs' \<le> view_bytes vs"
    unfolding view_bytes_map views by (rule sum_filter_le [OF nonneg])
  then have "vs_retained vs' \<le> 16777216" using inv by (simp add: views_inv_def bytes)
  moreover have "length (vs_views vs') \<le> 128"
    using inv unfolding views_inv_def views by (meson le_trans length_filter_le)
  moreover have "\<forall>row \<in> set (jm_values (vs_tokens vs')). jm_has (vs_views vs') (tk_id row)"
    using live by (auto simp: jm_values_def)
  ultimately show ?thesis
    using inv jm_keys_filter [of P "vs_views vs"] jm_keys_filter [of Q "vs_tokens vs"]
      jm_values_filter [of P "vs_views vs"] bytes
    unfolding views_inv_def views toks drawn by (auto simp: jm_wf_filter)
qed

lemma sweep_inv: "views_inv uuid vs \<Longrightarrow> views_inv uuid (sweep_views now vs)"
proof (rule keep_views_inv [of uuid vs _ "\<lambda>kv. \<not> expired_view now kv"])
  assume inv: "views_inv uuid vs"
  show "vs_retained (sweep_views now vs) = view_bytes (sweep_views now vs)"
    using inv sum_partition [of "vw_bytes \<circ> snd" "vs_views vs" "expired_view now"]
    by (simp add: views_inv_def sweep_views_def Let_def view_bytes_map)
qed (auto simp: sweep_views_def Let_def live_tokens_def)

text \<open>The first \<open>n\<close> identifiers drawn are distinct and well formed.\<close>

definition id_supply :: "(nat \<Rightarrow> id) \<Rightarrow> nat \<Rightarrow> bool" where
  "id_supply uuid n \<longleftrightarrow> inj_on uuid {..<n} \<and> (\<forall>k<n. isId (uuid k))"

lemma fresh_draw:
  assumes "id_supply uuid n" "views_inv uuid vs" "vs_drawn vs < n"
  shows "jm_get (vs_views vs) (uuid (vs_drawn vs)) = None" "jm_get (vs_tokens vs) (uuid (vs_drawn vs)) = None"
proof -
  have "uuid (vs_drawn vs) \<notin> uuid ` {..<vs_drawn vs}" 
    using assms(1,3) unfolding id_supply_def inj_on_def by fastforce
  then have "\<not> jm_has (vs_views vs) (uuid (vs_drawn vs))" "\<not> jm_has (vs_tokens vs) (uuid (vs_drawn vs))"
    using assms(2) by (auto simp: views_inv_def jm_has_keys)
  then show "jm_get (vs_views vs) (uuid (vs_drawn vs)) = None" "jm_get (vs_tokens vs) (uuid (vs_drawn vs)) = None"
    by (simp_all add: jm_has_def)
qed

lemma draw_inv: "views_inv uuid vs \<Longrightarrow> views_inv uuid (vs\<lparr>vs_drawn := Suc (vs_drawn vs)\<rparr>)"
  by (auto simp: views_inv_def view_bytes_def lessThan_Suc)

text \<open>A capture that is retained, and one that is refused.\<close>

lemma capture_cases:
  assumes "capture_view uuid thrown as_json ttl now scope limit captured vs = (r, vs')"
  obtains (refused) f where "r = Inl f" "vs' = vs \<or> vs' = vs\<lparr>vs_drawn := Suc (vs_drawn vs)\<rparr>"
    | (retained) v s where "captured = Inr v" "boundedJson view_limits (as_json v) = Inr s"
        "length (vs_views vs) < 128" "vs_retained vs + byteLength s \<le> 16777216"
        "r = Inr \<lparr>vp_id = uuid (vs_drawn vs), vp_offset = 0, vp_index = 0, vp_value = v\<rparr>"
        "vs' = vs\<lparr>vs_drawn := Suc (vs_drawn vs), vs_retained := vs_retained vs + byteLength s,
           vs_views := jm_set (vs_views vs) (uuid (vs_drawn vs)) \<lparr>vw_scope = scope, vw_expires = now + ttl,
             vw_limit = limit, vw_value = v, vw_bytes = byteLength s, vw_continued = False\<rparr>\<rparr>"
proof (cases r)
  case (Inl f)
  with assms show ?thesis
    by (intro refused) (auto simp: capture_view_def Let_def split: if_splits sum.splits)
next
  case (Inr p)
  with assms show ?thesis
  proof (cases captured)
    case (Inr v)
    with assms \<open>r = Inr p\<close> show ?thesis
      by (cases "boundedJson view_limits (as_json v)")
        (auto simp: capture_view_def Let_def intro: retained split: if_splits)
  qed (auto simp: capture_view_def Let_def split: if_splits)
qed

lemma jm_add_entry:
  assumes "jm_get m k = None"
  shows "length (jm_set m k v) = Suc (length m)" "set (jm_values (jm_set m k v)) = insert v (set (jm_values m))"
    "sum_list (map f (jm_values (jm_set m k v))) = sum_list (map f (jm_values m)) + (f v :: int)"
  using assms by (auto simp: jm_set_absent jm_values_def)

lemma jm_replace_entry:
  assumes "jm_get m k = Some w"
  shows "length (jm_set m k v) = length m" "set (jm_values (jm_set m k v)) \<subseteq> insert v (set (jm_values m))"
    "f v = f w \<Longrightarrow> sum_list (map f (jm_values (jm_set m k v))) = (sum_list (map f (jm_values m)) :: int)"
  using assms by (induction m) (auto simp: jm_get_def jm_set_def jm_values_def split: if_splits)

lemma jm_delete_entry:
  assumes "jm_wf m" "jm_get m k = Some w"
  shows "sum_list (map f (jm_values (jm_delete m k))) = sum_list (map f (jm_values m)) - (f w :: int)"
  using assms
proof (induction m)
  case (Cons kv m)
  obtain j v where kv: "kv = (j, v)" by (cases kv)
  show ?case
  proof (cases "j = k")
    case True
    then have "filter (\<lambda>kv. fst kv \<noteq> k) m = m"
      using Cons.prems(1) by (auto simp: jm_wf_def kv filter_id_conv)
    then show ?thesis using True Cons.prems(2) by (simp add: jm_delete_filter jm_values_def kv jm_get_def)
  next
    case False
    then show ?thesis using Cons by (simp add: jm_delete_filter jm_values_def kv jm_get_def jm_wf_def)
  qed
qed simp

lemma capture_inv:
  assumes inj: "id_supply uuid n" and inv: "views_inv uuid vs" and lim: "1 \<le> limit" "limit \<le> 256"
    and run: "capture_view uuid thrown as_json ttl now scope limit captured vs = (r, vs')"
    and drawn: "vs_drawn vs' \<le> n"
  shows "views_inv uuid vs'"
  using run
proof (cases rule: capture_cases)
  case (refused f)
  then show ?thesis using inv draw_inv [OF inv] by auto
next
  case (retained v s)
  show ?thesis
    using inv retained(3,4) lim drawn
    by (auto simp: retained(6) views_inv_def view_bytes_def jm_add_entry [OF fresh_draw(1) [OF inj inv]]
        jm_keys_set lessThan_Suc)
qed

lemma views_read_cases:
  assumes "views_read uuid thrown as_json ttl now scope q captured vs = (r, vs')"
  obtains (invalid) "r = Inl (fail_with Invalid_input Never)" "vs' = vs"
    | (later) "truthy_text (pq_continuation q)" "vs' = sweep_views now vs"
        "r = continue_view scope (pq_limit q) (the (pq_continuation q)) (sweep_views now vs)"
    | (initial) "\<not> truthy_text (pq_continuation q)" "1 \<le> pq_limit q" "pq_limit q \<le> 256"
        "capture_view uuid thrown as_json ttl now scope (pq_limit q) captured (sweep_views now vs) = (r, vs')"
proof (cases "\<not> is_safe_integer (pq_limit q) \<or> pq_limit q < 1 \<or> 256 < pq_limit q")
  case True
  then show ?thesis using assms by (intro invalid) (auto simp: views_read_def)
next
  case False
  then show ?thesis
    using assms by (cases "truthy_text (pq_continuation q)") (auto simp: views_read_def Let_def intro: later initial)
qed

lemma read_inv:
  assumes "id_supply uuid n" "views_inv uuid vs" "views_read uuid thrown as_json ttl now scope q captured vs = (r, vs')"
    "vs_drawn vs' \<le> n"
  shows "views_inv uuid vs'"
  using assms(3)
proof (cases rule: views_read_cases)
  case initial
  then show ?thesis by (intro capture_inv [OF assms(1) sweep_inv [OF assms(2)] _ _ _ assms(4)])
qed (simp_all add: assms(2) sweep_inv)

lemma next_inv:
  assumes "id_supply uuid n" "views_inv uuid vs" "jm_has (vs_views vs) i" "next_token uuid i offset index vs = (t, vs')"
    "vs_drawn vs' \<le> n"
  shows "views_inv uuid vs'"
  using assms(2-5)
  by (auto simp: next_token_def Let_def views_inv_def view_bytes_def jm_add_entry [OF fresh_draw(2) [OF assms(1,2)]]
      jm_keys_set lessThan_Suc split: option.splits)

lemma finish_inv:
  assumes inv: "views_inv uuid vs"
  shows "views_inv uuid (finish_view i more_pages vs)"
proof (cases "jm_get (vs_views vs) i")
  case None
  then show ?thesis using inv by (simp add: finish_view_def)
next
  case (Some view)
  note old = jm_values_get [OF Some]
  show ?thesis
  proof (cases "vw_continued view \<or> more_pages")
    case True
    let ?v = "view\<lparr>vw_continued := True\<rparr>"
    let ?m = "jm_set (vs_views vs) i ?v"
    have m: "finish_view i more_pages vs = vs\<lparr>vs_views := ?m\<rparr>" using True by (simp add: finish_view_def Some)
    have keys: "jm_keys ?m = jm_keys (vs_views vs)" by (rule jm_set_present [OF Some])
    have has: "jm_has ?m k = jm_has (vs_views vs) k" for k by (simp only: jm_has_keys keys)
    have "0 \<le> vw_bytes ?v \<and> 1 \<le> vw_limit ?v \<and> vw_limit ?v \<le> 256" using inv old by (simp add: views_inv_def)
    then have "\<forall>v \<in> set (jm_values ?m). 0 \<le> vw_bytes v \<and> 1 \<le> vw_limit v \<and> vw_limit v \<le> 256"
      using inv jm_replace_entry(2) [OF Some, of ?v] unfolding views_inv_def by blast
    then show ?thesis
      using inv jm_replace_entry(3) [OF Some, of vw_bytes ?v]
      unfolding m views_inv_def view_bytes_def by (simp add: keys has jm_replace_entry(1) [OF Some] del: jm_has_set)
  next
    case False
    let ?vs = "finish_view i more_pages vs"
    have vs: "?vs = vs\<lparr>vs_retained := vs_retained vs - vw_bytes view, vs_views := jm_delete (vs_views vs) i,
        vs_tokens := filter (\<lambda>(t, row). tk_id row \<noteq> i) (vs_tokens vs)\<rparr>"
      using False by (simp add: finish_view_def Some)
    show ?thesis
    proof (rule keep_views_inv [OF inv])
      show "vs_views ?vs = filter (\<lambda>kv. fst kv \<noteq> i) (vs_views vs)" by (simp add: vs jm_delete_filter)
      show "vs_tokens ?vs = filter (\<lambda>(t, row). tk_id row \<noteq> i) (vs_tokens vs)" by (simp add: vs)
      show "jm_has (vs_views ?vs) (tk_id row)" if "(t, row) \<in> set (vs_tokens ?vs)" for t row
        using that inv by (auto simp: vs views_inv_def jm_has_def jm_get_delete jm_values_def)
      show "vs_retained ?vs = view_bytes ?vs"
        using inv jm_delete_entry [OF _ Some, of vw_bytes] by (simp add: vs view_bytes_def views_inv_def)
    qed (simp add: vs)
  qed
qed

end
