(* ===== verification/View_Paging.thy ===== *)
theory View_Paging
  imports Read_Views
begin

text \<open>
  Facts about paging: an issued continuation stays valid, with the same captured value, until
  its view expires, whatever else is read meanwhile; a page takes a prefix of what is left and
  hands out the token of the rest; following the tokens yields every captured record once.
\<close>

section \<open>Issued continuations are kept\<close>

definition keeps_views :: "int \<Rightarrow> 'a read_views \<Rightarrow> 'a read_views \<Rightarrow> bool" where
  "keeps_views until vs vs' \<longleftrightarrow> (\<forall>i view. jm_get (vs_views vs) i = Some view \<longrightarrow> vw_continued view \<longrightarrow> until \<le> vw_expires view \<longrightarrow>
     jm_get (vs_views vs') i = Some view \<and>
     (\<forall>t row. jm_get (vs_tokens vs) t = Some row \<longrightarrow> tk_id row = i \<longrightarrow> jm_get (vs_tokens vs') t = Some row))"

lemma keeps_views_refl [simp]: "keeps_views until vs vs"
  by (simp add: keeps_views_def)

lemma keeps_views_trans: "keeps_views until a b \<Longrightarrow> keeps_views until b c \<Longrightarrow> keeps_views until a c"
  unfolding keeps_views_def by blast

lemma sweep_keeps: "views_inv uuid vs \<Longrightarrow> now \<le> until \<Longrightarrow> keeps_views until vs (sweep_views now vs)"
  by (auto simp: keeps_views_def sweep_views_def Let_def live_tokens_def jm_get_filter views_inv_def expired_view_def
      jm_has_def)

lemma capture_keeps:
  assumes "id_supply uuid n" "views_inv uuid vs" "vs_drawn vs' \<le> n"
    "capture_view uuid thrown as_json ttl now scope limit captured vs = (r, vs')"
  shows "keeps_views until vs vs'"
  using assms(4)
proof (cases rule: capture_cases)
  case (retained v s)
  then show ?thesis using fresh_draw [OF assms(1,2)] assms(3) by (auto simp: keeps_views_def)
qed (auto simp: keeps_views_def)

lemma read_keeps:
  assumes "id_supply uuid n" "views_inv uuid vs" "vs_drawn vs' \<le> n" "now \<le> until"
    "views_read uuid thrown as_json ttl now scope q captured vs = (r, vs')"
  shows "keeps_views until vs vs'"
  using assms(5)
proof (cases rule: views_read_cases)
  case initial
  then show ?thesis
    using keeps_views_trans [OF sweep_keeps [OF assms(2,4)]] capture_keeps [OF assms(1) sweep_inv [OF assms(2)] assms(3)] by blast
qed (simp_all add: sweep_keeps [OF assms(2,4)])

lemma next_keeps:
  assumes "id_supply uuid n" "views_inv uuid vs" "vs_drawn vs' \<le> n" "next_token uuid i offset index vs = (t, vs')"
  shows "keeps_views until vs vs'"
  using assms(3,4) fresh_draw(2) [OF assms(1,2)]
  by (auto simp: keeps_views_def next_token_def Let_def split: option.splits)

lemma finish_keeps:
  assumes "views_inv uuid vs"
  shows "keeps_views until vs (finish_view i more_pages vs)"
  using assms
  by (auto simp: keeps_views_def finish_view_def views_inv_def jm_get_delete jm_get_filter split: option.splits)

text \<open>What the users of the views do to them while the clock stays at or before \<open>until\<close>.\<close>

inductive views_step :: "(nat \<Rightarrow> id) \<Rightarrow> int \<Rightarrow> 'a read_views \<Rightarrow> 'a read_views \<Rightarrow> bool" for uuid until where
  Step_read: "views_read uuid thrown as_json ttl now scope q captured vs = (r, vs') \<Longrightarrow> now \<le> until \<Longrightarrow>
    views_step uuid until vs vs'"
| Step_next: "jm_has (vs_views vs) i \<Longrightarrow> next_token uuid i offset index vs = (t, vs') \<Longrightarrow> views_step uuid until vs vs'"
| Step_finish: "views_step uuid until vs (finish_view i more_pages vs)"

lemma capture_drawn: "capture_view uuid thrown as_json ttl now scope limit captured vs = (r, vs') \<Longrightarrow> vs_drawn vs \<le> vs_drawn vs'"
  by (erule capture_cases) auto

lemma read_drawn: "views_read uuid thrown as_json ttl now scope q captured vs = (r, vs') \<Longrightarrow> vs_drawn vs \<le> vs_drawn vs'"
  by (erule views_read_cases) (auto dest: capture_drawn simp: sweep_views_def Let_def)

lemma next_drawn: "next_token uuid i offset index vs = (t, vs') \<Longrightarrow> vs_drawn vs \<le> vs_drawn vs'"
  by (auto simp: next_token_def Let_def split: option.splits)

lemma finish_drawn [simp]: "vs_drawn (finish_view i more_pages vs) = vs_drawn vs"
  by (simp add: finish_view_def split: option.split)

lemma views_step_drawn: "views_step uuid until vs vs' \<Longrightarrow> vs_drawn vs \<le> vs_drawn vs'"
  by (erule views_step.cases) (auto dest: read_drawn next_drawn)

lemma views_run_keeps:
  assumes "id_supply uuid n" "(views_step uuid until)\<^sup>*\<^sup>* vs vs'" "views_inv uuid vs" "vs_drawn vs' \<le> n"
  shows "views_inv uuid vs' \<and> keeps_views until vs vs'"
  using assms(2-4)
proof (induction rule: rtranclp_induct)
  case base
  then show ?case by simp
next
  case (step b c)
  have inv: "views_inv uuid b" and keeps: "keeps_views until vs b"
    using step views_step_drawn [OF step(2)] by simp_all
  from step(2) step(5) show ?case
    by (cases rule: views_step.cases)
      (auto intro: read_inv [OF assms(1) inv] next_inv [OF assms(1) inv] finish_inv [OF inv]
        keeps_views_trans [OF keeps] read_keeps [OF assms(1) inv] next_keeps [OF assms(1) inv] finish_keeps [OF inv])
qed

section \<open>One page\<close>

lemma next_token_get:
  assumes "id_supply uuid n" "views_inv uuid vs" "vs_drawn vs' \<le> n" "next_token uuid i offset index vs = (t, vs')"
  shows "jm_get (vs_tokens vs') t = Some \<lparr>tk_id = i, tk_offset = offset, tk_index = index\<rparr>" "vs_views vs' = vs_views vs"
    "t \<in> uuid ` {..<n}"
proof -
  let ?row = "\<lparr>tk_id = i, tk_offset = offset, tk_index = index\<rparr>"
  have wf: "jm_wf (vs_tokens vs)" and keys: "set (jm_keys (vs_tokens vs)) \<subseteq> uuid ` {..<vs_drawn vs}"
    using assms(2) by (simp_all add: views_inv_def)
  have "jm_get (vs_tokens vs') t = Some ?row \<and> vs_views vs' = vs_views vs \<and> t \<in> uuid ` {..<n}"
  proof (cases "find (\<lambda>(t, r). r = ?row) (vs_tokens vs)")
    case None
    then show ?thesis using assms(3,4) by (auto simp: next_token_def Let_def)
  next
    case (Some kv)
    obtain u r where "kv = (u, r)" by (cases kv)
    with Some have "(u, ?row) \<in> set (vs_tokens vs)" "kv = (u, ?row)" by (auto simp: find_Some_iff dest: nth_mem [of _ "vs_tokens vs"])
    then have kv: "kv \<in> set (vs_tokens vs)" "kv = (t, ?row)" "vs' = vs"
      using assms(4) Some by (auto simp: next_token_def Let_def)
    then have "t \<in> set (jm_keys (vs_tokens vs))" by (force simp: jm_keys_def)
    then show ?thesis using kv wf keys assms(3) by (auto simp: jm_mem_get)
  qed
  then show "jm_get (vs_tokens vs') t = Some ?row" "vs_views vs' = vs_views vs" "t \<in> uuid ` {..<n}" by simp_all
qed

text \<open>The continuations a page may carry.\<close>

definition may_follow :: "(nat \<Rightarrow> id) \<Rightarrow> nat \<Rightarrow> id option set" where
  "may_follow uuid n = insert None (Some ` uuid ` {..<n})"

text \<open>
  A page the loop returns is a prefix of the \<open>count\<close> records at \<open>offset\<close>, not empty unless none
  is left, with a token for the rest when there is a rest; the view is then retained.
\<close>

definition paged ::
  "(nat \<Rightarrow> id) \<Rightarrow> nat \<Rightarrow> limits \<Rightarrow> ('p \<Rightarrow> json) \<Rightarrow> ('r list \<Rightarrow> id option \<Rightarrow> 'p) \<Rightarrow> 'r list \<Rightarrow> id \<Rightarrow> nat \<Rightarrow> nat
     \<Rightarrow> 'a view_entry \<Rightarrow> nat \<Rightarrow> id option \<Rightarrow> 'p \<Rightarrow> 'a read_views \<Rightarrow> bool" where
  "paged uuid n lim as_json build rows i offset index view k nxt page vs \<longleftrightarrow>
     page = build (take k (drop offset rows)) nxt \<and> checkLimits lim = None \<and> fits lim (as_json page) \<and>
     nxt \<in> may_follow uuid n \<and>
     (case nxt of None \<Rightarrow> offset + k = length rows
      | Some t \<Rightarrow> offset + k < length rows \<and> t \<noteq> [] \<and>
          jm_get (vs_tokens vs) t = Some \<lparr>tk_id = i, tk_offset = offset + k, tk_index = index + 1\<rparr> \<and>
          jm_get (vs_views vs) i = Some (view\<lparr>vw_continued := True\<rparr>))"

lemma finish_get:
  assumes "jm_get (vs_views vs) i = Some view"
  shows "jm_get (vs_views (finish_view i True vs)) i = Some (view\<lparr>vw_continued := True\<rparr>)"
    "vs_tokens (finish_view i True vs) = vs_tokens vs"
  using assms by (simp_all add: finish_view_def)

lemma id_supply_nonempty: "id_supply uuid n \<Longrightarrow> t \<in> uuid ` {..<n} \<Longrightarrow> t \<noteq> []"
  by (auto simp: id_supply_def dest: isId_nonempty)

lemma rest_token_run:
  assumes "id_supply uuid n" "views_inv uuid vs" "jm_get (vs_views vs) i = Some view" "vs_drawn vs' \<le> n"
    "rest_token uuid i len offset index vs = (nxt, vs')"
  shows "(views_step uuid until)\<^sup>*\<^sup>* vs vs'" "views_inv uuid vs'" "jm_get (vs_views vs') i = Some view"
    "if len \<le> offset then nxt = None else \<exists>t. nxt = Some t \<and> t \<noteq> [] \<and> t \<in> uuid ` {..<n} \<and>
       jm_get (vs_tokens vs') t = Some \<lparr>tk_id = i, tk_offset = offset, tk_index = index\<rparr>"
proof -
  have "(views_step uuid until)\<^sup>*\<^sup>* vs vs' \<and> views_inv uuid vs' \<and> jm_get (vs_views vs') i = Some view \<and>
    (if len \<le> offset then nxt = None else \<exists>t. nxt = Some t \<and> t \<noteq> [] \<and> t \<in> uuid ` {..<n} \<and>
       jm_get (vs_tokens vs') t = Some \<lparr>tk_id = i, tk_offset = offset, tk_index = index\<rparr>)"
  proof (cases "offset < len")
    case False
    then show ?thesis using assms by (simp add: rest_token_def)
  next
    case True
    then obtain t where t: "next_token uuid i offset index vs = (t, vs')" "nxt = Some t"
      using assms(5) by (auto simp: rest_token_def split: prod.splits)
    have has: "jm_has (vs_views vs) i" using assms(3) by (simp add: jm_has_def)
    note get = next_token_get [OF assms(1,2,4) t(1)]
    have "t \<noteq> []" by (rule id_supply_nonempty [OF assms(1) get(3)])
    then show ?thesis
      using True t(2) get assms(3) Step_next [OF has t(1)] next_inv [OF assms(1,2) has t(1) assms(4)] by auto
  qed
  then show "(views_step uuid until)\<^sup>*\<^sup>* vs vs'" "views_inv uuid vs'" "jm_get (vs_views vs') i = Some view"
    "if len \<le> offset then nxt = None else \<exists>t. nxt = Some t \<and> t \<noteq> [] \<and> t \<in> uuid ` {..<n} \<and>
       jm_get (vs_tokens vs') t = Some \<lparr>tk_id = i, tk_offset = offset, tk_index = index\<rparr>" by blast+
qed

lemma rest_drawn: "rest_token uuid i len offset index vs = (nxt, vs') \<Longrightarrow> vs_drawn vs \<le> vs_drawn vs'"
  by (auto simp: rest_token_def dest: next_drawn split: if_splits prod.splits)

text \<open>One round of the loop.\<close>

lemma fit_page_cases:
  assumes "fit_page uuid lim as_json build rows i offset index count vs = (r, vs')"
  obtains (fits) nxt vs1 where "rest_token uuid i (length rows) (offset + count) (index + 1) vs = (nxt, vs1)"
        "r = Inr (build (take count (drop offset rows)) nxt)" "vs' = finish_view i (truthy_text nxt) vs1"
        "checkLimits lim = None \<and> fits lim (as_json (build (take count (drop offset rows)) nxt))"
    | (stuck) nxt vs1 d where "rest_token uuid i (length rows) (offset + count) (index + 1) vs = (nxt, vs1)"
        "count \<le> 1" "boundedJson lim (as_json (build (take count (drop offset rows)) nxt)) = Inl d"
        "r = Inl (fail_with Limit_exceeded Never)" "vs' = finish_view i False vs1"
    | (halve) nxt vs1 where "rest_token uuid i (length rows) (offset + count) (index + 1) vs = (nxt, vs1)"
        "1 < count" "fit_page uuid lim as_json build rows i offset index (count div 2) vs1 = (r, vs')"
proof -
  obtain nxt vs1 where step: "rest_token uuid i (length rows) (offset + count) (index + 1) vs = (nxt, vs1)"
    by (metis surj_pair)
  show ?thesis
  proof (cases "boundedJson lim (as_json (build (take count (drop offset rows)) nxt))")
    case (Inl d)
    then show ?thesis
      using assms step stuck [OF step _ Inl] halve [OF step]
      unfolding fit_page.simps [of uuid lim as_json build rows i offset index count vs]
      by (cases "count \<le> 1") simp_all
  next
    case (Inr s)
    then show ?thesis
      using assms step fits [OF step] boundedJson_Inr [THEN iffD1, OF Inr]
      unfolding fit_page.simps [of uuid lim as_json build rows i offset index count vs] by simp
  qed
qed

lemma fit_page_drawn:
  "fit_page uuid lim as_json build rows i offset index count vs = (r, vs') \<Longrightarrow> vs_drawn vs \<le> vs_drawn vs'"
proof (induction count arbitrary: vs rule: less_induct)
  case (less count)
  from less.prems show ?case
  proof (cases rule: fit_page_cases)
    case (halve nxt vs1)
    then show ?thesis using less.IH [of "count div 2" vs1] rest_drawn by fastforce
  qed (auto dest: rest_drawn)
qed

lemma fit_page_run:
  assumes "id_supply uuid n" "views_inv uuid vs" "jm_get (vs_views vs) i = Some view" "vs_drawn vs' \<le> n"
    "offset + count \<le> length rows" "fit_page uuid lim as_json build rows i offset index count vs = (r, vs')"
  shows "(views_step uuid until)\<^sup>*\<^sup>* vs vs' \<and>
    (\<forall>page. r = Inr page \<longrightarrow> (\<exists>k \<le> count. \<exists>nxt. (0 < count \<longrightarrow> 0 < k) \<and>
      paged uuid n lim as_json build rows i offset index view k nxt page vs'))"
  using assms(2,3,5,6)
proof (induction count arbitrary: vs rule: less_induct)
  case (less count)
  note inv = less.prems(1) and view = less.prems(2)
  have fin: "(views_step uuid until)\<^sup>*\<^sup>* vs (finish_view i b vs1)" if "(views_step uuid until)\<^sup>*\<^sup>* vs vs1" for b vs1
    using that Step_finish by (rule rtranclp.rtrancl_into_rtrancl)
  from less.prems(4) show ?case
  proof (cases rule: fit_page_cases)
    case (fits nxt vs1)
    have d: "vs_drawn vs1 \<le> n" using fits(3) assms(4) by simp
    note rest = rest_token_run [OF assms(1) inv view d fits(1)]
    have "paged uuid n lim as_json build rows i offset index view count nxt (build (take count (drop offset rows)) nxt) vs'"
      using rest(4) less.prems(3) finish_get [OF rest(3)] fits(4)
      by (auto simp: paged_def fits(3) may_follow_def split: if_splits)
    then show ?thesis using fin [OF rest(1)] fits(2,3) by auto
  next
    case (stuck nxt vs1 d)
    have d: "vs_drawn vs1 \<le> n" using stuck(5) assms(4) by simp
    show ?thesis using fin [OF rest_token_run(1) [OF assms(1) inv view d stuck(1)]] stuck(4,5) by simp
  next
    case (halve nxt vs1)
    have d: "vs_drawn vs1 \<le> n" using fit_page_drawn [OF halve(3)] assms(4) by simp
    note rest = rest_token_run [OF assms(1) inv view d halve(1)]
    have "offset + count div 2 \<le> length rows" using less.prems(3) by linarith
    from less.IH [OF _ rest(2,3) this halve(3)] halve(2) rest(1)
    show ?thesis by (auto intro: rtranclp_trans) (metis div_le_dividend le_trans div_greater_zero_iff Suc_leI numeral_2_eq_2)
  qed
qed

text \<open>A page of these records fits, whichever token it carries.\<close>

definition page_fits :: "(nat \<Rightarrow> id) \<Rightarrow> nat \<Rightarrow> limits \<Rightarrow> ('p \<Rightarrow> json) \<Rightarrow> ('r list \<Rightarrow> id option \<Rightarrow> 'p) \<Rightarrow> 'r list \<Rightarrow> bool" where
  "page_fits uuid n lim as_json build rows \<longleftrightarrow>
     (\<forall>nxt \<in> may_follow uuid n. checkLimits lim = None \<and> fits lim (as_json (build rows nxt)))"

text \<open>When every single record fits a page of its own, the loop ends with a page.\<close>

lemma fit_page_returns:
  assumes "id_supply uuid n" "views_inv uuid vs" "jm_get (vs_views vs) i = Some view" "vs_drawn vs' \<le> n"
    "offset + count \<le> length rows" "0 < count \<or> offset = length rows"
    "page_fits uuid n lim as_json build (take 1 (drop offset rows))"
    "fit_page uuid lim as_json build rows i offset index count vs = (r, vs')"
  shows "\<exists>page. r = Inr page"
  using assms(2,3,5,6,8)
proof (induction count arbitrary: vs rule: less_induct)
  case (less count)
  note inv = less.prems(1) and view = less.prems(2)
  from less.prems(5) show ?case
  proof (cases rule: fit_page_cases)
    case (stuck nxt vs1 d)
    have "vs_drawn vs1 \<le> n" using stuck(5) assms(4) by simp
    from rest_token_run(4) [OF assms(1) inv view this stuck(1)]
    have nxt: "nxt \<in> may_follow uuid n" by (auto simp: may_follow_def split: if_splits)
    have "take count (drop offset rows) = take 1 (drop offset rows)"
      using stuck(2) less.prems(3,4) by (cases count) auto
    with nxt assms(7) have "boundedJson lim (as_json (build (take count (drop offset rows)) nxt)) =
        Inr (json_print (as_json (build (take count (drop offset rows)) nxt)))"
      by (simp add: page_fits_def boundedJson_Inr)
    then show ?thesis using stuck(3) by simp
  next
    case (halve nxt vs1)
    have d: "vs_drawn vs1 \<le> n" using fit_page_drawn [OF halve(3)] assms(4) by simp
    note rest = rest_token_run [OF assms(1) inv view d halve(1)]
    have "offset + count div 2 \<le> length rows" "0 < count div 2" using less.prems(3) halve(2) by linarith+
    with less.IH [OF _ rest(2,3) _ _ halve(3)] halve(2) show ?thesis by auto
  qed simp
qed

section \<open>A page request\<close>

text \<open>
  The position a read hands to the page loop addresses a retained view that does not expire
  before \<open>until\<close>, within its records.
\<close>

definition positioned :: "int \<Rightarrow> 'a \<Rightarrow> ('a \<Rightarrow> 'r list) \<Rightarrow> int \<Rightarrow> string \<Rightarrow> id \<Rightarrow> nat \<Rightarrow> nat \<Rightarrow> 'a read_views \<Rightarrow> bool" where
  "positioned until v rows limit scope i offset index vs \<longleftrightarrow> offset \<le> length (rows v) \<and>
     (\<exists>view. jm_get (vs_views vs) i = Some view \<and> vw_value view = v \<and> vw_scope view = scope \<and>
        vw_limit view = limit \<and> until \<le> vw_expires view)"

definition resumable ::
  "int \<Rightarrow> 'a \<Rightarrow> ('a \<Rightarrow> 'r list) \<Rightarrow> int \<Rightarrow> string \<Rightarrow> id \<Rightarrow> nat \<Rightarrow> nat \<Rightarrow> id \<Rightarrow> 'a read_views \<Rightarrow> bool" where
  "resumable until v rows limit scope i offset index token vs \<longleftrightarrow> token \<noteq> [] \<and>
     jm_get (vs_tokens vs) token = Some \<lparr>tk_id = i, tk_offset = offset, tk_index = index\<rparr> \<and>
     offset \<le> length (rows v) \<and>
     (\<exists>view. jm_get (vs_views vs) i = Some view \<and> vw_continued view \<and> vw_value view = v \<and> vw_scope view = scope \<and>
        vw_limit view = limit \<and> until \<le> vw_expires view)"

lemma resumable_keeps: "resumable until v rows limit scope i offset index t vs \<Longrightarrow> keeps_views until vs vs' \<Longrightarrow>
    resumable until v rows limit scope i offset index t vs'"
  unfolding resumable_def keeps_views_def by fastforce

text \<open>The page of the \<open>k\<close> records at a position, and what the state keeps for the rest.\<close>

definition page_at ::
  "(nat \<Rightarrow> id) \<Rightarrow> nat \<Rightarrow> limits \<Rightarrow> ('p \<Rightarrow> json) \<Rightarrow> int \<Rightarrow> 'a \<Rightarrow> ('a \<Rightarrow> 'r list) \<Rightarrow> int \<Rightarrow> string
     \<Rightarrow> ('a view_position \<Rightarrow> 'r list \<Rightarrow> id option \<Rightarrow> 'p) \<Rightarrow> id \<Rightarrow> nat \<Rightarrow> nat \<Rightarrow> nat \<Rightarrow> id option \<Rightarrow> 'p \<Rightarrow> 'a read_views \<Rightarrow> bool" where
  "page_at uuid n lim as_json until v rows limit scope build i offset index k nxt page vs \<longleftrightarrow>
     page = build \<lparr>vp_id = i, vp_offset = offset, vp_index = index, vp_value = v\<rparr> (take k (drop offset (rows v))) nxt \<and>
     checkLimits lim = None \<and> fits lim (as_json page) \<and> i \<in> uuid ` {..<n} \<and> nxt \<in> may_follow uuid n \<and>
     offset + k \<le> length (rows v) \<and> (0 < k \<or> offset = length (rows v)) \<and>
     (case nxt of None \<Rightarrow> offset + k = length (rows v)
      | Some t \<Rightarrow> offset + k < length (rows v) \<and> resumable until v rows limit scope i (offset + k) (index + 1) t vs)"

lemma positioned_page:
  assumes "id_supply uuid n" "views_inv uuid vs" "vs_drawn vs' \<le> n" "1 \<le> pq_limit q"
    "positioned until v rows (pq_limit q) scope i offset index vs"
    "page_of uuid lim as_json build cast q (Inr \<lparr>vp_id = i, vp_offset = offset, vp_index = index, vp_value = v\<rparr>, vs) = (r, vs')"
    and cast: "cast v = Inr (rows v)"
  shows "(views_step uuid until)\<^sup>*\<^sup>* vs vs'"
    "r = Inr page \<Longrightarrow> \<exists>k nxt. page_at uuid n lim as_json until v rows (pq_limit q) scope build i offset index k nxt page vs'"
    "page_fits uuid n lim as_json (build \<lparr>vp_id = i, vp_offset = offset, vp_index = index, vp_value = v\<rparr>)
       (take 1 (drop offset (rows v))) \<Longrightarrow> \<exists>page. r = Inr page"
proof -
  let ?p = "\<lparr>vp_id = i, vp_offset = offset, vp_index = index, vp_value = v\<rparr>"
  let ?count = "nat (min (pq_limit q) (int (length (rows v) - offset)))"
  obtain view where off: "offset \<le> length (rows v)" and view: "jm_get (vs_views vs) i = Some view"
    and vw: "vw_value view = v" "vw_scope view = scope" "vw_limit view = pq_limit q" "until \<le> vw_expires view"
    using assms(5) by (auto simp: positioned_def)
  have run: "fit_page uuid lim as_json (build ?p) (rows v) i offset index ?count vs = (r, vs')"
    using assms(6) off by (simp add: page_of_def cast)
  have count: "offset + ?count \<le> length (rows v)" "0 < ?count \<or> offset = length (rows v)"
    using assms(4) off by auto
  note run' = fit_page_run [OF assms(1,2) view assms(3) count(1) run, of until]
  show "(views_step uuid until)\<^sup>*\<^sup>* vs vs'" using run' by blast
  show "\<exists>page. r = Inr page" if "page_fits uuid n lim as_json (build ?p) (take 1 (drop offset (rows v)))"
    by (rule fit_page_returns [OF assms(1,2) view assms(3) count that run])
  show "\<exists>k nxt. page_at uuid n lim as_json until v rows (pq_limit q) scope build i offset index k nxt page vs'" if "r = Inr page"
  proof -
    obtain k nxt where k: "k \<le> ?count" "0 < ?count \<longrightarrow> 0 < k"
      and pg: "paged uuid n lim as_json (build ?p) (rows v) i offset index view k nxt page vs'"
      using run' \<open>r = Inr page\<close> by blast
    have pos: "offset + k \<le> length (rows v)" "0 < k \<or> offset = length (rows v)" using k count by auto
    have "i \<in> set (jm_keys (vs_views vs))" using view by (simp add: jm_has_keys [symmetric] jm_has_def)
    then have "i \<in> uuid ` {..<n}"
      using assms(2,3) fit_page_drawn [OF run] by (fastforce simp: views_inv_def)
    then have "page_at uuid n lim as_json until v rows (pq_limit q) scope build i offset index k nxt page vs'"
      using pg pos vw by (auto simp: page_at_def paged_def resumable_def split: option.splits)
    then show ?thesis by blast
  qed
qed

lemma sweep_step: "views_read uuid thrown as_json ttl now scope q captured vs = (r, vs') \<Longrightarrow> now \<le> until \<Longrightarrow>
    (views_step uuid until)\<^sup>*\<^sup>* vs vs'"
  using Step_read by blast

text \<open>A continuation issued earlier is found again, whatever happened in between.\<close>

lemma later_read:
  assumes "views_inv uuid vs" "now \<le> until" "resumable until v rows (pq_limit q) scope i offset index t vs"
    "pq_continuation q = Some t" "views_read uuid thrown as_json ttl now scope q captured vs = (r, vs')"
  shows "r = Inr \<lparr>vp_id = i, vp_offset = offset, vp_index = index, vp_value = v\<rparr> \<and>
    positioned until v rows (pq_limit q) scope i offset index vs' \<and> views_inv uuid vs' \<and> 1 \<le> pq_limit q"
proof -
  obtain view where view: "jm_get (vs_views vs) i = Some view" "vw_limit view = pq_limit q" and t: "t \<noteq> []"
    using assms(3) by (auto simp: resumable_def)
  have lim: "1 \<le> pq_limit q" "pq_limit q \<le> 256"
    using assms(1) jm_values_get [OF view(1)] view(2) by (auto simp: views_inv_def)
  then have vs': "vs' = sweep_views now vs" "r = continue_view scope (pq_limit q) t (sweep_views now vs)"
    using assms(4,5) t by (auto simp: views_read_def Let_def is_safe_integer_def max_safe_def)
  have "resumable until v rows (pq_limit q) scope i offset index t (sweep_views now vs)"
    by (rule resumable_keeps [OF assms(3) sweep_keeps [OF assms(1,2)]])
  then show ?thesis
    using sweep_inv [OF assms(1)] lim by (auto simp: vs' resumable_def continue_view_def positioned_def)
qed

lemma first_read:
  assumes "id_supply uuid n" "views_inv uuid vs" "vs_drawn vs' \<le> n" "until \<le> now + ttl" "\<not> truthy_text (pq_continuation q)"
    "views_read uuid thrown as_json ttl now scope q captured vs = (Inr p, vs')"
  shows "\<exists>i v. captured = Inr v \<and> p = \<lparr>vp_id = i, vp_offset = 0, vp_index = 0, vp_value = v\<rparr> \<and>
    positioned until v rows (pq_limit q) scope i 0 0 vs' \<and> views_inv uuid vs' \<and> 1 \<le> pq_limit q"
  using assms(6)
proof (cases rule: views_read_cases)
  case initial
  have inv: "views_inv uuid vs'" by (rule read_inv [OF assms(1,2,6,3)])
  from initial(4) show ?thesis
  proof (cases rule: capture_cases)
    case (retained v s)
    then show ?thesis using inv initial(2) assms(4) by (simp add: positioned_def)
  qed simp
qed (use assms(5) in simp_all)

section \<open>Following the continuations\<close>

text \<open>
  A reader asks for pages until one has no continuation; \<open>visit\<close> is what it does with a page, at
  most \<open>fuel\<close> of them.
\<close>

fun fetch ::
  "'e \<Rightarrow> ('p \<Rightarrow> id option) \<Rightarrow> (id option \<Rightarrow> 's \<Rightarrow> ('e + 'p) \<times> 's) \<Rightarrow> ('p \<Rightarrow> 'c \<Rightarrow> 'e + 'c) \<Rightarrow> nat
     \<Rightarrow> id option \<Rightarrow> 'c \<Rightarrow> 's \<Rightarrow> ('e + 'c) \<times> 's" where
  "fetch overrun nextOf ask visit 0 cont c s = (Inl overrun, s)"
| "fetch overrun nextOf ask visit (Suc fuel) cont c s =
     (case ask cont s of
        (Inl e, s') \<Rightarrow> (Inl e, s')
      | (Inr page, s') \<Rightarrow> (case visit page c of
          Inl e \<Rightarrow> (Inl e, s')
        | Inr c' \<Rightarrow> if truthy_text (nextOf page) then fetch overrun nextOf ask visit fuel (nextOf page) c' s' else (Inr c', s')))"

text \<open>
  What such a reader relies on. At most \<open>left\<close> more requests are needed at a position of the source;
  a request there is refused, or its page is handled and either was the last or leads to a position
  with less left. \<open>within\<close> bounds what the source may have spent when the reader stops.
\<close>

locale paged_source =
  fixes nextOf :: "'p \<Rightarrow> id option" and ask :: "id option \<Rightarrow> 's \<Rightarrow> ('e + 'p) \<times> 's" and handle :: "'p \<Rightarrow> 'c \<Rightarrow> 'e + 'c"
    and within :: "'s \<Rightarrow> bool" and position :: "nat \<Rightarrow> id option \<Rightarrow> 'c \<Rightarrow> 's \<Rightarrow> bool"
    and refused :: "'e \<Rightarrow> bool" and complete :: "'c \<Rightarrow> bool"
  assumes within_before: "ask cont s = (r, s') \<Longrightarrow> within s' \<Longrightarrow> within s"
    and requests_left: "position left cont c s \<Longrightarrow> 0 < left"
    and progress: "position left cont c s \<Longrightarrow> ask cont s = (r, s') \<Longrightarrow> within s' \<Longrightarrow>
      (\<exists>e. r = Inl e \<and> refused e) \<or> (\<exists>page c'. r = Inr page \<and> handle page c = Inr c' \<and>
        (if truthy_text (nextOf page) then \<exists>left'<left. position left' (nextOf page) c' s' else complete c'))"
begin

lemma fetch_within: "fetch overrun nextOf ask handle fuel cont c s = (r, s') \<Longrightarrow> within s' \<Longrightarrow> within s"
proof (induction fuel arbitrary: cont c s)
  case (Suc fuel)
  obtain x s1 where x: "ask cont s = (x, s1)" by (metis surj_pair)
  then have "within s1" using Suc by (auto split: sum.splits if_splits)
  then show ?case using within_before x by blast
qed simp

lemma fetch_ends:
  "position left cont c s \<Longrightarrow> left \<le> fuel \<Longrightarrow> fetch overrun nextOf ask handle fuel cont c s = (r, s') \<Longrightarrow> within s' \<Longrightarrow>
    (\<exists>e. r = Inl e \<and> refused e) \<or> (\<exists>c'. r = Inr c' \<and> complete c')"
proof (induction fuel arbitrary: left cont c s)
  case 0
  then show ?case using requests_left by fastforce
next
  case (Suc fuel)
  obtain x s1 where x: "ask cont s = (x, s1)" by (metis surj_pair)
  have "within s1" using Suc.prems(3,4) x fetch_within by (auto split: sum.splits if_splits)
  from progress [OF Suc.prems(1) x this] show ?case
  proof (elim disjE exE conjE)
    fix page c' assume page: "x = Inr page" "handle page c = Inr c'"
      "if truthy_text (nextOf page) then \<exists>left'<left. position left' (nextOf page) c' s1 else complete c'"
    then show ?thesis using Suc x by (cases "truthy_text (nextOf page)") (auto simp: less_Suc_eq_le dest: order.strict_trans2)
  qed (use Suc.prems(3) x in auto)
qed

end

text \<open>
  Every request is answered from the views, after anything their other users may have done, and
  within the lifetime of what was captured; a success reaches the reader. \<open>good\<close> holds of captures.
\<close>

definition answers ::
  "(nat \<Rightarrow> id) \<Rightarrow> nat \<Rightarrow> int \<Rightarrow> int \<Rightarrow> string \<Rightarrow> int \<Rightarrow> limits \<Rightarrow> ('p \<Rightarrow> json) \<Rightarrow> ('a view_position \<Rightarrow> 'r list \<Rightarrow> id option \<Rightarrow> 'p)
     \<Rightarrow> ('a \<Rightarrow> failure + 'r list) \<Rightarrow> ('a \<Rightarrow> bool) \<Rightarrow> ('s \<Rightarrow> 'a read_views) \<Rightarrow> (id option \<Rightarrow> 's \<Rightarrow> ('e + 'p) \<times> 's) \<Rightarrow> bool" where
  "answers uuid n until ttl scope limit lim as_json build cast good viewsOf ask \<longleftrightarrow>
     (\<forall>cont s r s'. ask cont s = (r, s') \<longrightarrow> vs_drawn (viewsOf s) \<le> vs_drawn (viewsOf s') \<and>
       (views_inv uuid (viewsOf s) \<longrightarrow> vs_drawn (viewsOf s') \<le> n \<longrightarrow>
        (\<exists>vs now thrown value_json captured result. (views_step uuid until)\<^sup>*\<^sup>* (viewsOf s) vs \<and> now \<le> until \<and> until \<le> now + ttl \<and>
          (\<forall>v. captured = Inr v \<longrightarrow> good v) \<and>
          page_of uuid lim as_json build cast \<lparr>pq_limit = limit, pq_continuation = cont\<rparr>
            (views_read uuid thrown value_json ttl now scope \<lparr>pq_limit = limit, pq_continuation = cont\<rparr> captured vs)
            = (result, viewsOf s') \<and>
          (\<forall>page. (result = Inr page) = (r = Inr page)))))"

text \<open>One request for the rest of a view.\<close>

lemma page_of_drawn: "page_of uuid lim as_json build cast q (x, vs) = (r, vs') \<Longrightarrow> vs_drawn vs \<le> vs_drawn vs'"
  by (auto simp: page_of_def dest: fit_page_drawn split: sum.splits if_splits)

lemma read_page_drawn:
  assumes "page_of uuid lim as_json build cast q (views_read uuid thrown value_json ttl now scope q' captured vs) = (r, vs')"
  shows "vs_drawn vs \<le> vs_drawn vs'"
proof -
  obtain x vs1 where x: "views_read uuid thrown value_json ttl now scope q' captured vs = (x, vs1)" by (metis surj_pair)
  show ?thesis using read_drawn [OF x] page_of_drawn [OF assms [unfolded x]] by simp
qed

lemma run_drawn: "(views_step uuid until)\<^sup>*\<^sup>* vs vs' \<Longrightarrow> vs_drawn vs \<le> vs_drawn vs'"
  by (induction rule: rtranclp_induct) (auto dest: views_step_drawn)

lemma answers_run:
  assumes "answers uuid n until ttl scope limit lim as_json build cast good viewsOf ask" "ask cont s = (r, s')"
  shows "vs_drawn (viewsOf s) \<le> vs_drawn (viewsOf s')"
  using assms by (simp add: answers_def)

lemma answersD:
  assumes "answers uuid n until ttl scope limit lim as_json build cast good viewsOf ask" "views_inv uuid (viewsOf s)"
    "ask cont s = (r, s')" "vs_drawn (viewsOf s') \<le> n"
  obtains vs now thrown value_json captured result where "(views_step uuid until)\<^sup>*\<^sup>* (viewsOf s) vs" "now \<le> until" "until \<le> now + ttl"
    "\<forall>v. captured = Inr v \<longrightarrow> good v"
    "page_of uuid lim as_json build cast \<lparr>pq_limit = limit, pq_continuation = cont\<rparr>
      (views_read uuid thrown value_json ttl now scope \<lparr>pq_limit = limit, pq_continuation = cont\<rparr> captured vs) = (result, viewsOf s')"
    "\<forall>page. (result = Inr page) = (r = Inr page)"
proof -
  have "\<exists>vs now thrown value_json captured result. (views_step uuid until)\<^sup>*\<^sup>* (viewsOf s) vs \<and> now \<le> until \<and> until \<le> now + ttl \<and>
      (\<forall>v. captured = Inr v \<longrightarrow> good v) \<and>
      page_of uuid lim as_json build cast \<lparr>pq_limit = limit, pq_continuation = cont\<rparr>
        (views_read uuid thrown value_json ttl now scope \<lparr>pq_limit = limit, pq_continuation = cont\<rparr> captured vs) = (result, viewsOf s') \<and>
      (\<forall>page. (result = Inr page) = (r = Inr page))"
    using assms(1) [unfolded answers_def, rule_format, OF assms(3)] assms(2,4) by blast
  then show ?thesis by (elim exE conjE) (rule that)
qed

text \<open>A page asked for with a continuation, and a first page.\<close>

lemma later_page:
  assumes "id_supply uuid n" "views_inv uuid vs" "now \<le> until" "resumable until v rows limit scope i offset index t vs"
    "page_of uuid lim as_json build cast \<lparr>pq_limit = limit, pq_continuation = Some t\<rparr>
       (views_read uuid thrown value_json ttl now scope \<lparr>pq_limit = limit, pq_continuation = Some t\<rparr> captured vs) = (r, vs')"
    "vs_drawn vs' \<le> n"
    "page_fits uuid n lim as_json (build \<lparr>vp_id = i, vp_offset = offset, vp_index = index, vp_value = v\<rparr>)
       (take 1 (drop offset (rows v)))"
    and cast: "cast v = Inr (rows v)"
  shows "views_inv uuid vs' \<and> (\<exists>page k nxt. r = Inr page \<and>
    page_at uuid n lim as_json until v rows limit scope build i offset index k nxt page vs')"
proof -
  let ?q = "\<lparr>pq_limit = limit, pq_continuation = Some t\<rparr>"
  obtain x vs2 where x: "views_read uuid thrown value_json ttl now scope ?q captured vs = (x, vs2)" by (metis surj_pair)
  have d2: "vs_drawn vs2 \<le> n" using page_of_drawn assms(5,6) x by (metis le_trans)
  have res: "resumable until v rows (pq_limit ?q) scope i offset index t vs" using assms(4) by simp
  note at = later_read [OF assms(2,3) res _ x, simplified]
  have pos: "positioned until v rows (pq_limit ?q) scope i offset index vs2" "views_inv uuid vs2" "1 \<le> pq_limit ?q"
    using at by simp_all
  have page: "page_of uuid lim as_json build cast ?q (Inr \<lparr>vp_id = i, vp_offset = offset, vp_index = index, vp_value = v\<rparr>, vs2) =
      (r, vs')" using assms(5) x at by simp
  note out = positioned_page [OF assms(1) pos(2) assms(6) pos(3,1) page cast]
  obtain pg where pg: "r = Inr pg" using out(3) assms(7) by blast
  show ?thesis
    using out(2) [OF pg] views_run_keeps [OF assms(1) out(1) pos(2) assms(6)] pg by auto
qed

lemma first_page:
  assumes "id_supply uuid n" "views_inv uuid vs" "until \<le> now + ttl" "\<not> truthy_text (pq_continuation q)"
    "page_of uuid lim as_json build cast q (views_read uuid thrown value_json ttl now scope q captured vs) = (Inr page, vs')"
    "vs_drawn vs' \<le> n"
    and cast: "\<And>v. captured = Inr v \<Longrightarrow> cast v = Inr (rows v)"
  shows "views_inv uuid vs' \<and> (\<exists>v i k nxt. captured = Inr v \<and>
    page_at uuid n lim as_json until v rows (pq_limit q) scope build i 0 0 k nxt page vs')"
proof -
  obtain x vs2 where x: "views_read uuid thrown value_json ttl now scope q captured vs = (x, vs2)" by (metis surj_pair)
  have d2: "vs_drawn vs2 \<le> n" using page_of_drawn assms(5,6) x by (metis le_trans)
  obtain p where p: "x = Inr p" using assms(5) x by (cases x) (auto simp: page_of_def)
  obtain i v where at: "captured = Inr v" "p = \<lparr>vp_id = i, vp_offset = 0, vp_index = 0, vp_value = v\<rparr>"
      "positioned until v rows (pq_limit q) scope i 0 0 vs2" "views_inv uuid vs2" "1 \<le> pq_limit q"
    using first_read [OF assms(1,2) d2 assms(3,4) x [unfolded p], of rows] by auto
  have page: "page_of uuid lim as_json build cast q (Inr \<lparr>vp_id = i, vp_offset = 0, vp_index = 0, vp_value = v\<rparr>, vs2) =
      (Inr page, vs')" using assms(5) x at p by simp
  note out = positioned_page [OF assms(1) at(4) assms(6) at(5,3) page cast [OF at(1)]]
  show ?thesis
    using out(2) [OF refl] views_run_keeps [OF assms(1) out(1) at(4) assms(6)] at(1) by auto
qed

lemma answered_later:
  assumes "id_supply uuid n" "answers uuid n until ttl scope limit lim as_json build cast good viewsOf ask"
    "views_inv uuid (viewsOf s)" "resumable until v rows limit scope i offset index t (viewsOf s)"
    "ask (Some t) s = (r, s')" "vs_drawn (viewsOf s') \<le> n"
    "page_fits uuid n lim as_json (build \<lparr>vp_id = i, vp_offset = offset, vp_index = index, vp_value = v\<rparr>)
       (take 1 (drop offset (rows v)))"
    and cast: "cast v = Inr (rows v)"
  shows "views_inv uuid (viewsOf s') \<and> (\<exists>page k nxt. r = Inr page \<and>
    page_at uuid n lim as_json until v rows limit scope build i offset index k nxt page (viewsOf s'))"
proof -
  let ?q = "\<lparr>pq_limit = limit, pq_continuation = Some t\<rparr>"
  obtain vs now thrown value_json captured result where run: "(views_step uuid until)\<^sup>*\<^sup>* (viewsOf s) vs" and now: "now \<le> until"
    and page: "page_of uuid lim as_json build cast ?q (views_read uuid thrown value_json ttl now scope ?q captured vs) = (result, viewsOf s')"
    and r: "\<forall>page. (result = Inr page) = (r = Inr page)"
    by (rule answersD [OF assms(2,3,5,6)])
  have d: "vs_drawn vs \<le> n" using read_page_drawn [OF page] assms(6) by simp
  note here = views_run_keeps [OF assms(1) run assms(3) d]
  from later_page [OF assms(1) conjunct1 [OF here] now resumable_keeps [OF assms(4) conjunct2 [OF here]] page assms(6,7) cast]
  show ?thesis using r by auto
qed

lemma answered_first:
  assumes "id_supply uuid n" "answers uuid n until ttl scope limit lim as_json build cast good viewsOf ask"
    "views_inv uuid (viewsOf s)" "ask None s = (r, s')" "vs_drawn (viewsOf s') \<le> n" "r = Inr page"
    and cast: "\<And>v. good v \<Longrightarrow> cast v = Inr (rows v)"
  shows "views_inv uuid (viewsOf s') \<and> (\<exists>v i k nxt. good v \<and>
    page_at uuid n lim as_json until v rows limit scope build i 0 0 k nxt page (viewsOf s'))"
proof -
  let ?q = "\<lparr>pq_limit = limit, pq_continuation = None\<rparr>"
  obtain vs now thrown value_json captured result where run: "(views_step uuid until)\<^sup>*\<^sup>* (viewsOf s) vs"
    and now: "until \<le> now + ttl" and good: "\<forall>v. captured = Inr v \<longrightarrow> good v"
    and page: "page_of uuid lim as_json build cast ?q (views_read uuid thrown value_json ttl now scope ?q captured vs) = (result, viewsOf s')"
    and r: "\<forall>pg. (result = Inr pg) = (r = Inr pg)"
    by (rule answersD [OF assms(2-5)])
  have d: "vs_drawn vs \<le> n" using read_page_drawn [OF page] assms(5) by simp
  have inv: "views_inv uuid vs" using views_run_keeps [OF assms(1) run assms(3) d] by simp
  have res: "result = Inr page" using r assms(6) by blast
  have "\<not> truthy_text (pq_continuation ?q)" by simp
  from first_page [OF assms(1) inv now this page [unfolded res] assms(5) cast [OF good [rule_format]]]
  show ?thesis using good by auto
qed

text \<open>
  What a reader keeps while it visits the pages: \<open>C i offset index c\<close> after the records before
  \<open>offset\<close>. Every page cut from the value advances it.
\<close>

definition visits ::
  "(nat \<Rightarrow> id) \<Rightarrow> nat \<Rightarrow> limits \<Rightarrow> ('p \<Rightarrow> json) \<Rightarrow> ('a view_position \<Rightarrow> 'r list \<Rightarrow> id option \<Rightarrow> 'p) \<Rightarrow> 'r list
     \<Rightarrow> ('p \<Rightarrow> 'c \<Rightarrow> 'e + 'c) \<Rightarrow> (id \<Rightarrow> nat \<Rightarrow> nat \<Rightarrow> 'c \<Rightarrow> bool) \<Rightarrow> 'a \<Rightarrow> bool" where
  "visits uuid n lim as_json build rows visit C v \<longleftrightarrow> (\<forall>i offset index k nxt c page.
     C i offset index c \<longrightarrow> index \<le> offset \<longrightarrow> offset + k \<le> length rows \<longrightarrow> i \<in> uuid ` {..<n} \<longrightarrow> nxt \<in> may_follow uuid n \<longrightarrow>
     page = build \<lparr>vp_id = i, vp_offset = offset, vp_index = index, vp_value = v\<rparr> (take k (drop offset rows)) nxt \<longrightarrow>
     checkLimits lim = None \<longrightarrow> fits lim (as_json page) \<longrightarrow>
     (\<exists>c'. visit page c = Inr c' \<and> C i (offset + k) (index + 1) c'))"

definition each_fits ::
  "(nat \<Rightarrow> id) \<Rightarrow> nat \<Rightarrow> limits \<Rightarrow> ('p \<Rightarrow> json) \<Rightarrow> ('a view_position \<Rightarrow> 'r list \<Rightarrow> id option \<Rightarrow> 'p) \<Rightarrow> 'r list \<Rightarrow> 'a \<Rightarrow> bool" where
  "each_fits uuid n lim as_json build rows v \<longleftrightarrow> (\<forall>i \<in> uuid ` {..<n}. \<forall>offset \<le> length rows. \<forall>index \<le> length rows.
     page_fits uuid n lim as_json (build \<lparr>vp_id = i, vp_offset = offset, vp_index = index, vp_value = v\<rparr>) (take 1 (drop offset rows)))"

text \<open>
  The rest of a view is fetched to its end: every request is answered with at least one record,
  so as many requests as records remain are enough.
\<close>

definition view_reader ::
  "(nat \<Rightarrow> id) \<Rightarrow> nat \<Rightarrow> int \<Rightarrow> int \<Rightarrow> string \<Rightarrow> int \<Rightarrow> limits \<Rightarrow> ('p \<Rightarrow> json) \<Rightarrow> ('a view_position \<Rightarrow> 'r list \<Rightarrow> id option \<Rightarrow> 'p)
     \<Rightarrow> ('a \<Rightarrow> failure + 'r list) \<Rightarrow> ('a \<Rightarrow> bool) \<Rightarrow> ('s \<Rightarrow> 'a read_views) \<Rightarrow> ('p \<Rightarrow> id option) \<Rightarrow> ('a \<Rightarrow> 'r list)
     \<Rightarrow> (id option \<Rightarrow> 's \<Rightarrow> ('e + 'p) \<times> 's) \<Rightarrow> ('p \<Rightarrow> 'c \<Rightarrow> 'e + 'c) \<Rightarrow> (id \<Rightarrow> nat \<Rightarrow> nat \<Rightarrow> 'c \<Rightarrow> bool) \<Rightarrow> 'a \<Rightarrow> bool" where
  "view_reader uuid n until ttl scope limit lim as_json build cast good viewsOf nextOf rows ask visit C v \<longleftrightarrow>
     id_supply uuid n \<and> answers uuid n until ttl scope limit lim as_json build cast good viewsOf ask \<and>
     visits uuid n lim as_json build (rows v) visit C v \<and> each_fits uuid n lim as_json build (rows v) v \<and>
     (\<forall>p rs nxt. nextOf (build p rs nxt) = nxt) \<and> cast v = Inr (rows v)"

definition rest_at ::
  "(nat \<Rightarrow> id) \<Rightarrow> nat \<Rightarrow> int \<Rightarrow> string \<Rightarrow> int \<Rightarrow> ('s \<Rightarrow> 'a read_views) \<Rightarrow> ('a \<Rightarrow> 'r list) \<Rightarrow> (id \<Rightarrow> nat \<Rightarrow> nat \<Rightarrow> 'c \<Rightarrow> bool) \<Rightarrow> 'a \<Rightarrow> id
     \<Rightarrow> nat \<Rightarrow> id option \<Rightarrow> 'c \<Rightarrow> 's \<Rightarrow> bool" where
  "rest_at uuid n until scope limit viewsOf rows C v i left cont c s \<longleftrightarrow> (\<exists>t offset index. cont = Some t \<and>
     left = length (rows v) - offset \<and> offset < length (rows v) \<and> index \<le> offset \<and> i \<in> uuid ` {..<n} \<and>
     views_inv uuid (viewsOf s) \<and> resumable until v rows limit scope i offset index t (viewsOf s) \<and> C i offset index c)"

lemma rest_progress:
  assumes reader: "view_reader uuid n until ttl scope limit lim as_json build cast good viewsOf nextOf rows ask visit C v"
    and at: "rest_at uuid n until scope limit viewsOf rows C v i left cont c s"
    and x: "ask cont s = (r, s')" and drawn: "vs_drawn (viewsOf s') \<le> n"
  shows "\<exists>page c'. r = Inr page \<and> visit page c = Inr c' \<and>
    (if truthy_text (nextOf page) then \<exists>left'<left. rest_at uuid n until scope limit viewsOf rows C v i left' (nextOf page) c' s'
     else \<exists>m>0. C i (length (rows v)) m c')"
proof -
  from reader have ids: "id_supply uuid n" and ans: "answers uuid n until ttl scope limit lim as_json build cast good viewsOf ask"
    and vis: "visits uuid n lim as_json build (rows v) visit C v" and each: "each_fits uuid n lim as_json build (rows v) v"
    and nextOf: "\<And>p rs nxt. nextOf (build p rs nxt) = nxt" and cast: "cast v = Inr (rows v)" by (simp_all add: view_reader_def)
  from at obtain t offset index where cont: "cont = Some t" and left: "left = length (rows v) - offset"
    and offset: "offset < length (rows v)" "index \<le> offset" and i: "i \<in> uuid ` {..<n}" and inv: "views_inv uuid (viewsOf s)"
    and res: "resumable until v rows limit scope i offset index t (viewsOf s)" and C: "C i offset index c" unfolding rest_at_def by blast
  have "page_fits uuid n lim as_json (build \<lparr>vp_id = i, vp_offset = offset, vp_index = index, vp_value = v\<rparr>) (take 1 (drop offset (rows v)))"
    using each i offset unfolding each_fits_def by (meson le_trans less_imp_le)
  from answered_later [OF ids ans inv res x [unfolded cont] drawn this cast]
  obtain page k nxt where inv': "views_inv uuid (viewsOf s')" and r: "r = Inr page"
    and page: "page_at uuid n lim as_json until v rows limit scope build i offset index k nxt page (viewsOf s')" by blast
  have pg: "page = build \<lparr>vp_id = i, vp_offset = offset, vp_index = index, vp_value = v\<rparr> (take k (drop offset (rows v))) nxt"
    "offset + k \<le> length (rows v)" "0 < k" "nxt \<in> may_follow uuid n" "checkLimits lim = None" "fits lim (as_json page)"
    using page offset(1) unfolding page_at_def by (blast, blast, force, blast, blast, blast)
  then obtain c' where c': "visit page c = Inr c'" "C i (offset + k) (index + 1) c'"
    using vis i C offset(2) unfolding visits_def by meson
  have nx: "nextOf page = nxt" by (simp add: pg(1) nextOf)
  have "if truthy_text nxt then \<exists>left'<left. rest_at uuid n until scope limit viewsOf rows C v i left' nxt c' s'
     else \<exists>m>0. C i (length (rows v)) m c'"
  proof (cases nxt)
    case None
    then have "offset + k = length (rows v)" using page by (simp add: page_at_def)
    then show ?thesis using c'(2) None by auto
  next
    case (Some t')
    then have t': "offset + k < length (rows v)" "resumable until v rows limit scope i (offset + k) (index + 1) t' (viewsOf s')"
      using page by (simp_all add: page_at_def)
    have "index + 1 \<le> offset + k" using offset(2) pg(3) by simp
    then have "rest_at uuid n until scope limit viewsOf rows C v i (length (rows v) - (offset + k)) nxt c' s'"
      unfolding rest_at_def using Some t' c'(2) i inv' by blast
    moreover have "length (rows v) - (offset + k) < left" using left t'(1) pg(3) by simp
    ultimately show ?thesis using Some t'(2) by (auto simp: resumable_def)
  qed
  then show ?thesis using r c'(1) nx by auto
qed

interpretation view_rest: paged_source nextOf ask visit
    "\<lambda>s. answers uuid n until ttl scope limit lim as_json build cast good viewsOf ask \<longrightarrow> vs_drawn (viewsOf s) \<le> n"
    "\<lambda>left cont c s. view_reader uuid n until ttl scope limit lim as_json build cast good viewsOf nextOf rows ask visit C v \<and>
       rest_at uuid n until scope limit viewsOf rows C v i left cont c s"
    "\<lambda>e. False" "\<lambda>c. \<exists>m>0. C i (length (rows v)) m c"
  for nextOf :: "'p \<Rightarrow> id option" and ask :: "id option \<Rightarrow> 's \<Rightarrow> ('e + 'p) \<times> 's" and visit :: "'p \<Rightarrow> 'c \<Rightarrow> 'e + 'c"
    and uuid n until ttl scope limit lim as_json build cast good viewsOf and rows :: "'a \<Rightarrow> 'r list" and C v i
proof
  fix cont s r s'
  assume "ask cont s = (r, s')" "answers uuid n until ttl scope limit lim as_json build cast good viewsOf ask \<longrightarrow> vs_drawn (viewsOf s') \<le> n"
  then show "answers uuid n until ttl scope limit lim as_json build cast good viewsOf ask \<longrightarrow> vs_drawn (viewsOf s) \<le> n"
    using answers_run order_trans by metis
next
  fix left cont c s r s'
  assume at: "view_reader uuid n until ttl scope limit lim as_json build cast good viewsOf nextOf rows ask visit C v \<and>
      rest_at uuid n until scope limit viewsOf rows C v i left cont c s"
    and "ask cont s = (r, s')" "answers uuid n until ttl scope limit lim as_json build cast good viewsOf ask \<longrightarrow> vs_drawn (viewsOf s') \<le> n"
  moreover have "answers uuid n until ttl scope limit lim as_json build cast good viewsOf ask" using at by (simp add: view_reader_def)
  ultimately have "\<exists>page c'. r = Inr page \<and> visit page c = Inr c' \<and>
      (if truthy_text (nextOf page) then \<exists>left'<left. rest_at uuid n until scope limit viewsOf rows C v i left' (nextOf page) c' s'
       else \<exists>m>0. C i (length (rows v)) m c')"
    by (intro rest_progress [OF conjunct1 [OF at] conjunct2 [OF at]]) simp_all
  then show "(\<exists>e. r = Inl e \<and> False) \<or> (\<exists>page c'. r = Inr page \<and> visit page c = Inr c' \<and>
      (if truthy_text (nextOf page) then \<exists>left'<left. view_reader uuid n until ttl scope limit lim as_json build cast good viewsOf nextOf rows ask visit C v \<and>
          rest_at uuid n until scope limit viewsOf rows C v i left' (nextOf page) c' s'
       else \<exists>m>0. C i (length (rows v)) m c'))"
    by (simp only: conjunct1 [OF at] simp_thms)
qed (auto simp: rest_at_def)

text \<open>
  A reader whose first request is answered fetches everything the capture held, in at most one
  request more than it has records.
\<close>

lemma fetch_all:
  assumes "id_supply uuid n" "answers uuid n until ttl scope limit lim as_json build cast good viewsOf ask"
    "\<And>v. good v \<Longrightarrow> visits uuid n lim as_json build (rows v) visit (C v) v \<and>
       each_fits uuid n lim as_json build (rows v) v \<and> cast v = Inr (rows v) \<and> (\<forall>i. C v i 0 0 c) \<and> length (rows v) \<le> fuel"
    "\<And>p rs nxt. nextOf (build p rs nxt) = nxt" "vs_drawn (viewsOf s') \<le> n"
    "views_inv uuid (viewsOf s)" "ask None s = (Inr page, s1)"
    "fetch overrun nextOf ask visit (Suc fuel) None c s = (r, s')"
  shows "\<exists>v i m c'. good v \<and> r = Inr c' \<and> 0 < m \<and> C v i (length (rows v)) m c'"
proof -
  have d: "vs_drawn (viewsOf s1) \<le> n"
  proof (cases "\<exists>c'. visit page c = Inr c' \<and> truthy_text (nextOf page)")
    case True
    then obtain c' where "fetch overrun nextOf ask visit fuel (nextOf page) c' s1 = (r, s')"
      using assms(7,8) by auto
    then show ?thesis using view_rest.fetch_within assms(2,5) by fastforce
  next
    case False
    then have "s1 = s'" using assms(7,8) by (auto split: sum.splits if_splits)
    then show ?thesis using assms(5) by simp
  qed
  from answered_first [OF assms(1,2,6,7) d refl, of rows] assms(3) obtain v i k nxt where inv: "views_inv uuid (viewsOf s1)" and good: "good v"
    and pa: "page_at uuid n lim as_json until v rows limit scope build i 0 0 k nxt page (viewsOf s1)" by blast
  have pg: "page = build \<lparr>vp_id = i, vp_offset = 0, vp_index = 0, vp_value = v\<rparr> (take k (drop 0 (rows v))) nxt"
    "0 + k \<le> length (rows v)" "i \<in> uuid ` {..<n}" "nxt \<in> may_follow uuid n" "checkLimits lim = None" "fits lim (as_json page)"
    using pa unfolding page_at_def by blast+
  have vis: "visits uuid n lim as_json build (rows v) visit (C v) v" and each: "each_fits uuid n lim as_json build (rows v) v"
    and start: "C v i 0 0 c" and fuel: "length (rows v) \<le> fuel" and cast: "cast v = Inr (rows v)" using assms(3) [OF good] by blast+
  obtain c' where c': "visit page c = Inr c'" "C v i (0 + k) (0 + 1) c'"
    using vis start pg unfolding visits_def by (meson le_refl)
  have nx: "nextOf page = nxt" by (simp add: pg(1) assms(4))
  show ?thesis
  proof (cases nxt)
    case None
    have "k = length (rows v)" using pa None by (simp add: page_at_def)
    moreover have "r = Inr c'" using assms(7,8) c'(1) nx None by simp
    ultimately show ?thesis using c'(2) good by auto
  next
    case (Some t)
    then have t: "k < length (rows v)" "resumable until v rows limit scope i k 1 t (viewsOf s1)"
      and k: "0 < k" using pa by (auto simp: page_at_def)
    have fetch: "fetch overrun nextOf ask visit fuel (Some t) c' s1 = (r, s')"
      using assms(7,8) c'(1) nx Some t(2) by (simp add: resumable_def)
    have reader: "view_reader uuid n until ttl scope limit lim as_json build cast good viewsOf nextOf rows ask visit (C v) v"
      unfolding view_reader_def using assms(1,2,4) vis each cast by blast
    have "rest_at uuid n until scope limit viewsOf rows (C v) v i (length (rows v) - k) (Some t) c' s1"
      unfolding rest_at_def using inv t c'(2) k pg(3) by (intro exI [of _ t] exI [of _ k] exI [of _ 1]) simp
    from view_rest.fetch_ends [OF conjI [OF reader this] _ fetch]
    have "\<exists>c' m. r = Inr c' \<and> 0 < m \<and> C v i (length (rows v)) m c'" using assms(5) fuel by auto
    then show ?thesis using good by blast
  qed
qed

end
