(* ===== verification/Snapshot_Pages.thy ===== *)
theory Snapshot_Pages
  imports View_Paging Session_Rules "HOL-Library.List_Lexorder" "HOL-Library.Char_ord" "HOL-Library.Product_Lexorder"
begin

text \<open>
  The two paged projections of \<^verbatim>\<open>ai-contract/src/read-views.ts\<close>: the snapshot of one session and
  the recent sessions of a caller, with the summary a session is listed by. Both are captured
  into the same \<^verbatim>\<open>ReadViews\<close>, whose values are untyped; reading one kind as the other is the
  error the language raises for it.
\<close>

section \<open>Snapshot pages\<close>

datatype snapshot_record =
    Snap_event event
  | Snap_command command_record
  | Snap_interaction interaction
  | Snap_surface surface_state

record snapshot_page =
  sn_snapshotId :: id
  sn_pageIndex :: counter
  sn_session :: session
  sn_cursor :: counter
  sn_events :: "event list"
  sn_commands :: "command_record list"
  sn_interactions :: "interaction list"
  sn_surfaces :: "surface_state list"
  sn_next :: "id option"

record session_item =
  li_namespace :: namespace
  li_status :: session_status
  li_lastActivityAtMs :: counter
  li_presentation :: "(utext \<times> json) list"

record session_page =
  sg_items :: "session_item list"
  sg_next :: "id option"

datatype view_value =
    Snapshot_value (held_session: session) (held_records: "snapshot_record list")
  | Sessions_value (held_items: "session_item list")

fun json_of_snapshot_record :: "snapshot_record \<Rightarrow> json" where
  "json_of_snapshot_record (Snap_event ev) = json_of_event ev"
| "json_of_snapshot_record (Snap_command c) = json_of_record c"
| "json_of_snapshot_record (Snap_interaction i) = json_of_interaction i"
| "json_of_snapshot_record (Snap_surface s) = json_of_surface s"

definition json_of_item :: "session_item \<Rightarrow> json" where
  "json_of_item i = obj [(''namespace'', json_of_namespace (li_namespace i)),
     (''status'', jid (session_status_text (li_status i))), (''presentation'', JObj (li_presentation i)),
     (''lastActivityAtMs'', JInt (li_lastActivityAtMs i))]"

fun json_of_view_value :: "view_value \<Rightarrow> json" where
  "json_of_view_value (Snapshot_value s rs) =
     obj [(''session'', json_of_session s), (''records'', JArr (map json_of_snapshot_record rs))]"
| "json_of_view_value (Sessions_value items) = JArr (map json_of_item items)"

definition json_of_snapshot_page :: "snapshot_page \<Rightarrow> json" where
  "json_of_snapshot_page p = obj (header ''snapshotPage'' @
     [(''snapshotId'', jid (sn_snapshotId p)), (''pageIndex'', JInt (sn_pageIndex p)),
      (''session'', json_of_session (sn_session p)), (''cursor'', JInt (sn_cursor p)),
      (''events'', JArr (map json_of_event (sn_events p))), (''commands'', JArr (map json_of_record (sn_commands p))),
      (''interactions'', JArr (map json_of_interaction (sn_interactions p))),
      (''surfaces'', JArr (map json_of_surface (sn_surfaces p)))] @ opt_member ''next'' jid (sn_next p))"

definition json_of_session_page :: "session_page \<Rightarrow> json" where
  "json_of_session_page p = obj (header ''sessionPage'' @
     [(''items'', JArr (map json_of_item (sg_items p)))] @ opt_member ''next'' jid (sg_next p))"

text \<open>The four filters by \<^verbatim>\<open>kind\<close>.\<close>

fun event_of :: "snapshot_record \<Rightarrow> event option" where
  "event_of (Snap_event ev) = Some ev" | "event_of _ = None"

fun command_of :: "snapshot_record \<Rightarrow> command_record option" where
  "command_of (Snap_command c) = Some c" | "command_of _ = None"

fun interaction_of :: "snapshot_record \<Rightarrow> interaction option" where
  "interaction_of (Snap_interaction i) = Some i" | "interaction_of _ = None"

fun surface_of :: "snapshot_record \<Rightarrow> surface_state option" where
  "surface_of (Snap_surface s) = Some s" | "surface_of _ = None"

definition build_snapshot :: "view_value view_position \<Rightarrow> snapshot_record list \<Rightarrow> id option \<Rightarrow> snapshot_page" where
  "build_snapshot p records nxt = \<lparr>sn_snapshotId = vp_id p, sn_pageIndex = int (vp_index p),
     sn_session = held_session (vp_value p), sn_cursor = lastSequence (held_session (vp_value p)),
     sn_events = List.map_filter event_of records, sn_commands = List.map_filter command_of records,
     sn_interactions = List.map_filter interaction_of records, sn_surfaces = List.map_filter surface_of records,
     sn_next = nxt\<rparr>"

definition snapshot_rows :: "(exit \<Rightarrow> failure) \<Rightarrow> view_value \<Rightarrow> failure + snapshot_record list" where
  "snapshot_rows thrown v = (case v of Snapshot_value s rs \<Rightarrow> Inr rs | Sessions_value items \<Rightarrow> Inl (thrown Js_error))"

definition readSnapshotPage ::
  "(nat \<Rightarrow> id) \<Rightarrow> (exit \<Rightarrow> failure) \<Rightarrow> int \<Rightarrow> int \<Rightarrow> string \<Rightarrow> page_query \<Rightarrow> (session \<times> snapshot_record list) result \<Rightarrow> limits
     \<Rightarrow> view_value read_views \<Rightarrow> snapshot_page result \<times> view_value read_views" where
  "readSnapshotPage uuid thrown ttl now scope q captured lim vs =
     page_of uuid lim json_of_snapshot_page build_snapshot (snapshot_rows thrown) q
       (views_read uuid thrown json_of_view_value ttl now scope q
         (and_then captured (\<lambda>(s, rs). Inr (Snapshot_value s rs))) vs)"

section \<open>Session pages\<close>

definition build_sessions :: "view_value view_position \<Rightarrow> session_item list \<Rightarrow> id option \<Rightarrow> session_page" where
  "build_sessions p items nxt = \<lparr>sg_items = items, sg_next = nxt\<rparr>"

definition session_rows :: "(exit \<Rightarrow> failure) \<Rightarrow> view_value \<Rightarrow> failure + session_item list" where
  "session_rows thrown v = (case v of Sessions_value items \<Rightarrow> Inr items | Snapshot_value s rs \<Rightarrow> Inl (thrown Js_error))"

text \<open>Recent activity first, ties by identifier.\<close>

definition recent_order :: "session_item \<Rightarrow> int \<times> string" where
  "recent_order i = (- li_lastActivityAtMs i, ns_sessionId (li_namespace i))"

definition readSessionPage ::
  "(nat \<Rightarrow> id) \<Rightarrow> (exit \<Rightarrow> failure) \<Rightarrow> int \<Rightarrow> int \<Rightarrow> string \<Rightarrow> page_query \<Rightarrow> session_item list result \<Rightarrow> limits
     \<Rightarrow> view_value read_views \<Rightarrow> session_page result \<times> view_value read_views" where
  "readSessionPage uuid thrown ttl now scope q captured lim vs =
     page_of uuid lim json_of_session_page build_sessions (session_rows thrown) q
       (views_read uuid thrown json_of_view_value ttl now scope q
         (and_then captured (\<lambda>items. Inr (Sessions_value (sort_key recent_order items)))) vs)"

section \<open>The summary of a session\<close>

text \<open>The characters \<^verbatim>\<open>\s\<close> matches and \<^verbatim>\<open>trim\<close> removes.\<close>

definition js_space :: "nat \<Rightarrow> bool" where
  "js_space c \<longleftrightarrow> 9 \<le> c \<and> c \<le> 13 \<or> 8192 \<le> c \<and> c \<le> 8202 \<or> c \<in> {32, 160, 5760, 8232, 8233, 8239, 8287, 12288, 65279}"

text \<open>\<open>inside\<close> a run of white space, of which the first character has been replaced.\<close>

primrec collapse_space :: "bool \<Rightarrow> utext \<Rightarrow> utext" where
  "collapse_space inside [] = []"
| "collapse_space inside (c # cs) =
     (if js_space c then (if inside then collapse_space True cs else 32 # collapse_space True cs)
      else c # collapse_space False cs)"

definition js_trim :: "utext \<Rightarrow> utext" where
  "js_trim t = rev (dropWhile js_space (rev (dropWhile js_space t)))"

definition untitled :: utext where
  "untitled = [26032, 23545, 35805]"

definition session_title :: "utext \<Rightarrow> utext" where
  "session_title t = (case take 32 (js_trim (collapse_space False t)) of [] \<Rightarrow> untitled | c # cs \<Rightarrow> c # cs)"

fun input_prompt :: "input \<Rightarrow> utext" where
  "input_prompt (Prompt t p tr h) = t"
| "input_prompt _ = []"

text \<open>The members an object spreads; the schema makes a presentation an object.\<close>

fun spread_members :: "json option \<Rightarrow> (utext \<times> json) list" where
  "spread_members (Some (JObj ms)) = ms"
| "spread_members _ = []"

definition first_prompt :: "command_record list \<Rightarrow> utext" where
  "first_prompt commands = (case sort_key (\<lambda>c. acceptedRevision (cr_receipt c))
       (filter (\<lambda>c. is_prompt (input_of (cr_command c))) commands) of
     [] \<Rightarrow> [] | c # cs \<Rightarrow> input_prompt (input_of (cr_command c)))"

definition sessionListItem :: "session \<Rightarrow> command_record list \<Rightarrow> session_item" where
  "sessionListItem s commands = \<lparr>li_namespace = ss_namespace s, li_status = status s,
     li_lastActivityAtMs = fold (\<lambda>c latest. max latest (acceptedAtMs (cr_receipt c))) commands 0,
     li_presentation = jm_set (spread_members (presentation s)) (utext_of ''title'')
       (JStr (session_title (first_prompt commands)))\<rparr>"

section \<open>Facts\<close>

text \<open>Pages of a snapshot put together are the snapshot.\<close>

lemma map_filter_append: "List.map_filter f (xs @ ys) = List.map_filter f xs @ List.map_filter f ys"
  by (simp add: List.map_filter_def)

lemma build_snapshot_next [simp]: "sn_next (build_snapshot p rs nxt) = nxt"
  by (simp add: build_snapshot_def)

lemma build_sessions_next [simp]: "sg_next (build_sessions p rs nxt) = nxt"
  by (simp add: build_sessions_def)

lemma js_space_32: "js_space 32"
  by (simp add: js_space_def)

text \<open>A title is never empty, has at most 32 characters, no white space around it or runs of it.\<close>

lemma collapse_False: "c \<notin> set t \<Longrightarrow> c \<noteq> 32 \<Longrightarrow> c \<notin> set (collapse_space b t)"
  by (induction t arbitrary: b) auto

lemma collapse_space_only: "js_space c \<Longrightarrow> c \<in> set (collapse_space b t) \<Longrightarrow> c = 32"
  by (induction t arbitrary: b) (auto split: if_splits)

primrec no_runs :: "bool \<Rightarrow> utext \<Rightarrow> bool" where
  "no_runs after [] = True"
| "no_runs after (c # cs) = (\<not> (after \<and> js_space c) \<and> no_runs (js_space c) cs)"

lemma collapse_no_runs: "no_runs b (collapse_space b t)"
  by (induction t arbitrary: b) (auto simp: js_space_32)

lemma no_runs_weaken: "no_runs b t \<Longrightarrow> no_runs False t"
  by (cases t) auto

lemma no_runs_dropWhile: "no_runs b t \<Longrightarrow> no_runs False (dropWhile P t)"
  by (induction t arbitrary: b) (auto dest: no_runs_weaken)

lemma no_runs_append: "no_runs b (xs @ ys) \<Longrightarrow> no_runs b xs"
  by (induction xs arbitrary: b) auto

lemma no_runs_take: "no_runs b t \<Longrightarrow> no_runs b (take n t)"
  by (metis append_take_drop_id no_runs_append)

lemma dropWhile_rev_prefix: "\<exists>ys. xs = rev (dropWhile P (rev xs)) @ ys"
  by (metis rev_append rev_rev_ident takeWhile_dropWhile_id)

lemma no_runs_trim: "no_runs b t \<Longrightarrow> no_runs False (js_trim t)"
  unfolding js_trim_def using no_runs_dropWhile dropWhile_rev_prefix no_runs_append by metis

lemma title_no_runs: "no_runs False (session_title t)"
proof -
  have "no_runs False (take 32 (js_trim (collapse_space False t)))"
    by (rule no_runs_take [OF no_runs_trim [OF collapse_no_runs]])
  then show ?thesis by (auto simp: session_title_def untitled_def js_space_def split: list.split)
qed

lemma title_length: "1 \<le> length (session_title t) \<and> length (session_title t) \<le> 32"
proof (cases "take 32 (js_trim (collapse_space False t))")
  case (Cons c cs)
  then have "length (c # cs) \<le> 32" by (metis length_take min.cobounded2)
  then show ?thesis by (simp add: session_title_def Cons)
qed (simp add: session_title_def untitled_def)

end
