(* ===== verification/Client_Projection.thy ===== *)
theory Client_Projection
  imports Snapshot_Pages
begin

text \<open>
  The client's projection of one session (\<^verbatim>\<open>ai-client/src/projection.ts\<close>): the view a user
  interface shows, rebuilt from a snapshot and moved by live updates. An object the source keys
  by strings is an insertion-ordered map; a position of the timeline is kept doubled, so the
  half positions of transient text are the odd numbers. A thrown \<^verbatim>\<open>ClientError\<close> or surface
  error is a value; every throw of \<^verbatim>\<open>event\<close> precedes its writes, so no partial view escapes.
\<close>

section \<open>State\<close>

datatype client_error =
    Resync_required
  | Invalid_response
  | Rejected_row exit

datatype connection_state = Attached | Detached | Resync

datatype item_kind = Item_prompt | Item_message | Item_tool | Item_interaction | Item_surface | Item_delivery

record timeline_item =
  ti_kind :: item_kind
  ti_key :: string
  ti_position :: int \<comment> \<open>twice \<^verbatim>\<open>sequence\<close>\<close>

record command_view =
  cv_command :: command
  cv_state :: state_tag
  cv_dispatch :: "dispatch_attempt option"
  cv_outcome :: "outcome option"
  cv_failure :: "failure option"
  cv_acknowledgement :: "acknowledgement option"
  cv_cancelledBy :: "id option"
  cv_cancelDispatched :: "confirmation option"

record message_view =
  mv_commandId :: id
  mv_text :: utext
  mv_stable :: bool

record interaction_view =
  iv_commandId :: id
  iv_nativeRunId :: "id option"
  iv_status :: interaction_status
  iv_request :: json
  iv_expiresAtMs :: counter
  iv_callbackLifetime :: callback_lifetime
  iv_responseCommandId :: "id option"
  iv_generation :: id

record delivery_view =
  yv_commandId :: id
  yv_name :: id
  yv_arguments :: json
  yv_recorded :: bool

datatype tool_status = Tool_pending | Tool_completed | Tool_failed

record tool_view =
  ov_commandId :: id
  ov_proposalId :: id
  ov_name :: id
  ov_arguments :: json
  ov_status :: tool_status
  ov_result :: "(disposition \<times> utext) option"

record session_view =
  cl_namespace :: namespace
  cl_generation :: id
  cl_stageId :: "id option"
  cl_connectionPending :: bool
  cl_selectedConnectionId :: "id option"
  cl_cursor :: counter
  cl_capabilities :: capabilities
  cl_sessionStatus :: session_status
  cl_timeline :: "timeline_item list"
  cl_connection :: connection_state
  cl_commands :: "(id, command_view) jsmap"
  cl_messages :: "(string, message_view) jsmap"
  cl_interactions :: "(id, interaction_view) jsmap"
  cl_surfaces :: "(id, surface_state) jsmap"
  cl_deliveries :: "(id, delivery_view) jsmap"
  cl_tools :: "(string, tool_view) jsmap"

text \<open>A string member copied only when it is not empty.\<close>

definition nonempty_member :: "id option \<Rightarrow> id option" where
  "nonempty_member x = (if x = Some [] then None else x)"

definition projectInteraction :: "interaction \<Rightarrow> interaction_view" where
  "projectInteraction row = \<lparr>iv_commandId = ia_commandId row, iv_nativeRunId = nonempty_member (ia_nativeRunId row),
     iv_status = ia_status row, iv_request = request row, iv_expiresAtMs = ia_expiresAtMs row,
     iv_callbackLifetime = callbackLifetime row, iv_responseCommandId = nonempty_member (responseCommandId row),
     iv_generation = ia_generation row\<rparr>"

text \<open>\<^verbatim>\<open>JSON.stringify([command, message])\<close>: identifiers need no escaping.\<close>

definition messageKey :: "id \<Rightarrow> id \<Rightarrow> string" where
  "messageKey c m = ''[\"'' @ c @ ''\",\"'' @ m @ ''\"]''"

definition no_capabilities :: capabilities where
  "no_capabilities = \<lparr>continuation = Continuation_unknown, cancellation = Cancellation_unknown, tools = Tools_disabled,
     steer = Capability_unknown, fork = Capability_unknown, subagent = Capability_unknown,
     terminal_capability = Capability_unknown, structuredQuestion = Capability_unknown, multimodal = Capability_unknown\<rparr>"

definition emptyView :: "session \<Rightarrow> counter \<Rightarrow> client_error + session_view" where
  "emptyView s cur =
     (let view = \<lambda>gen pending caps. \<lparr>cl_namespace = ss_namespace s, cl_generation = gen, cl_stageId = currentStageId s,
        cl_connectionPending = pending, cl_selectedConnectionId = selectedConnectionId s, cl_cursor = cur,
        cl_capabilities = caps, cl_sessionStatus = status s, cl_timeline = [], cl_connection = Detached,
        cl_commands = [], cl_messages = [], cl_interactions = [], cl_surfaces = [], cl_deliveries = [], cl_tools = []\<rparr> in
      if nonempty_member (currentStageId s) = None then Inr (view [] (freshContext s) no_capabilities)
      else (case activeStage s of
        Inl x \<Rightarrow> Inl (Rejected_row x)
      | Inr stage \<Rightarrow> Inr (view (generation (stage_binding stage))
          (freshContext s \<or> selectedConnectionId s \<noteq> Some (connectionId stage)) (stage_capabilities stage))))"

section \<open>The timeline\<close>

definition is_item :: "item_kind \<Rightarrow> string \<Rightarrow> timeline_item \<Rightarrow> bool" where
  "is_item kind key t \<longleftrightarrow> ti_kind t = kind \<and> ti_key t = key"

text \<open>The first item of that kind and key, moved when its position is transient; else a new one.\<close>

primrec place_item :: "item_kind \<Rightarrow> string \<Rightarrow> int \<Rightarrow> timeline_item list \<Rightarrow> timeline_item list" where
  "place_item kind key pos [] = [\<lparr>ti_kind = kind, ti_key = key, ti_position = pos\<rparr>]"
| "place_item kind key pos (t # ts) =
     (if is_item kind key t then (if odd (ti_position t) then t\<lparr>ti_position := pos\<rparr> else t) # ts
      else t # place_item kind key pos ts)"

definition order_item :: "item_kind \<Rightarrow> string \<Rightarrow> int \<Rightarrow> session_view \<Rightarrow> session_view" where
  "order_item kind key pos view = view\<lparr>cl_timeline := sort_key ti_position (place_item kind key pos (cl_timeline view))\<rparr>"

section \<open>Projecting one event\<close>

abbreviation set_command_view :: "id \<Rightarrow> command_view \<Rightarrow> session_view \<Rightarrow> session_view" where
  "set_command_view c row view \<equiv> view\<lparr>cl_commands := jm_set (cl_commands view) c row\<rparr>"

definition new_command :: "command \<Rightarrow> command_view" where
  "new_command c = \<lparr>cv_command = c, cv_state = T_accepted, cv_dispatch = None, cv_outcome = None, cv_failure = None,
     cv_acknowledgement = None, cv_cancelledBy = None, cv_cancelDispatched = None\<rparr>"

definition view_settled :: "command_view \<Rightarrow> bool" where
  "view_settled c = settled_state (cv_state c)"

text \<open>The transient text of a settled command disappears, with its place in the timeline.\<close>

definition transient_of :: "id \<Rightarrow> string \<times> message_view \<Rightarrow> bool" where
  "transient_of c kv \<longleftrightarrow> mv_commandId (snd kv) = c \<and> \<not> mv_stable (snd kv)"

definition drop_transient :: "id \<Rightarrow> session_view \<Rightarrow> session_view" where
  "drop_transient c view = (let gone = map fst (filter (transient_of c) (cl_messages view)) in
     view\<lparr>cl_messages := filter (\<lambda>kv. \<not> transient_of c kv) (cl_messages view),
          cl_timeline := filter (\<lambda>t. ti_kind t \<noteq> Item_message \<or> ti_key t \<notin> set gone) (cl_timeline view)\<rparr>)"

fun settle_view :: "event_body \<Rightarrow> command_view \<Rightarrow> command_view" where
  "settle_view (Acknowledged_reported a) c = c\<lparr>cv_state := T_acknowledged, cv_acknowledgement := Some a\<rparr>"
| "settle_view (Cancelled_reported i) c = c\<lparr>cv_state := T_cancelled, cv_cancelledBy := Some i\<rparr>"
| "settle_view (Terminal_reported r) c = c\<lparr>cv_state := T_terminal, cv_outcome := Some r\<rparr>"
| "settle_view (Invalidated_reported f) c = c\<lparr>cv_state := T_invalidated, cv_failure := Some f\<rparr>"
| "settle_view _ c = c"

definition project_settled :: "id \<Rightarrow> command_view \<Rightarrow> event_body \<Rightarrow> session_view \<Rightarrow> session_view" where
  "project_settled c row bd view =
     (if view_settled row then view else drop_transient c (set_command_view c (settle_view bd row) view))"

definition rust_execution :: id where
  "rust_execution = ''rust-execution''"

definition open_interaction :: "event \<Rightarrow> id \<Rightarrow> command_view \<Rightarrow> id \<Rightarrow> json \<Rightarrow> counter \<Rightarrow> callback_lifetime
     \<Rightarrow> session_view \<Rightarrow> client_error + session_view" where
  "open_interaction ev c row i req expires life view = (case cv_dispatch row of
     None \<Rightarrow> Inl Resync_required
   | Some d \<Rightarrow> if view_settled row \<or> Some (attemptId d) \<noteq> ev_attemptId ev then Inl Resync_required
       else Inr (order_item Item_interaction i (2 * sequence ev) (view\<lparr>cl_interactions := jm_set (cl_interactions view) i
         \<lparr>iv_commandId = c, iv_nativeRunId = nonempty_member (da_nativeRunId d), iv_status = Pending, iv_request = req,
          iv_expiresAtMs = expires, iv_callbackLifetime = life, iv_responseCommandId = None, iv_generation = ev_generation ev\<rparr>\<rparr>)))"

definition update_interaction ::
  "id \<Rightarrow> (interaction_view \<Rightarrow> interaction_view) \<Rightarrow> session_view \<Rightarrow> client_error + session_view" where
  "update_interaction i f view = (case jm_get (cl_interactions view) i of
     None \<Rightarrow> Inl Resync_required
   | Some row \<Rightarrow> Inr (view\<lparr>cl_interactions := jm_set (cl_interactions view) i (f row)\<rparr>))"

definition withdraw_pending :: "id \<Rightarrow> session_view \<Rightarrow> session_view" where
  "withdraw_pending i view = (case jm_get (cl_interactions view) i of
     None \<Rightarrow> view
   | Some row \<Rightarrow> if iv_status row = Pending
       then view\<lparr>cl_interactions := jm_set (cl_interactions view) i (row\<lparr>iv_status := Interaction_unavailable\<rparr>)\<rparr> else view)"

definition accessLimits :: limits where
  "accessLimits = Limits 262144 131072 32 16384"

definition client_surface :: "env \<Rightarrow> surface_state \<Rightarrow> client_error + surface_state" where
  "client_surface e s = (case validateSurface (env_digest e) (env_message_ok e) accessLimits s of
     Inl x \<Rightarrow> Inl (Rejected_row x) | Inr s' \<Rightarrow> Inr s')"

definition project_surface :: "env \<Rightarrow> counter \<Rightarrow> surface_state \<Rightarrow> session_view \<Rightarrow> client_error + session_view" where
  "project_surface e pos raw view = and_then (client_surface e raw) (\<lambda>s.
     if (case jm_get (cl_surfaces view) (surfaceInstanceId s) of None \<Rightarrow> False
         | Some prior \<Rightarrow> sf_status prior \<noteq> Surface_active \<or> sf_revision s \<noteq> sf_revision prior + 1)
     then Inl Resync_required
     else let view' = order_item Item_surface (surfaceInstanceId s) (2 * pos)
              (view\<lparr>cl_surfaces := jm_set (cl_surfaces view) (surfaceInstanceId s) s\<rparr>) in
       Inr (if sf_status s \<noteq> Surface_active then withdraw_pending (sf_interactionId s) view' else view'))"

text \<open>A body about a known command.\<close>

definition project_body :: "env \<Rightarrow> event \<Rightarrow> id \<Rightarrow> command_view \<Rightarrow> session_view \<Rightarrow> client_error + session_view" where
  "project_body e ev c row view = (case body ev of
     Terminal_reported r \<Rightarrow> Inr (project_settled c row (body ev) view)
   | Invalidated_reported f \<Rightarrow> Inr (project_settled c row (body ev) view)
   | Acknowledged_reported a \<Rightarrow> Inr (project_settled c row (body ev) view)
   | Cancelled_reported i \<Rightarrow> Inr (project_settled c row (body ev) view)
   | Status_changed s \<Rightarrow> Inr (if view_settled row then view else set_command_view c (row\<lparr>cv_state := live_tag s\<rparr>) view)
   | Dispatch_reported d \<Rightarrow> Inr (if view_settled row then view else set_command_view c (row\<lparr>cv_dispatch := Some d\<rparr>) view)
   | Reconciled d r \<Rightarrow> Inr (if view_settled row then view
       else set_command_view c (if r = R_not_submitted then row\<lparr>cv_state := T_accepted, cv_dispatch := None\<rparr>
         else row\<lparr>cv_dispatch := Some d\<rparr>) view)
   | Cancel_dispatched conf \<Rightarrow> Inr (set_command_view c (row\<lparr>cv_cancelDispatched := Some conf\<rparr>) view)
   | Error_reported f \<Rightarrow> Inr (if view_settled row then view else set_command_view c (row\<lparr>cv_failure := Some f\<rparr>) view)
   | Text m t \<Rightarrow> Inr (if view_settled row then view
       else order_item Item_message (messageKey c m) (2 * sequence ev)
         (view\<lparr>cl_messages := jm_set (cl_messages view) (messageKey c m)
            \<lparr>mv_commandId = c, mv_text = t, mv_stable = True\<rparr>\<rparr>))
   | Delivery_requested i t n a \<Rightarrow> Inr (if t \<noteq> rust_execution then view
       else order_item Item_delivery i (2 * sequence ev) (view\<lparr>cl_deliveries := jm_set (cl_deliveries view) i
         \<lparr>yv_commandId = c, yv_name = n, yv_arguments = a, yv_recorded = False\<rparr>\<rparr>))
   | Delivery_recorded i t h r \<Rightarrow> Inr (case jm_get (cl_deliveries view) i of
       None \<Rightarrow> view | Some d \<Rightarrow> view\<lparr>cl_deliveries := jm_set (cl_deliveries view) i (d\<lparr>yv_recorded := True\<rparr>)\<rparr>)
   | Tool_proposal p n a \<Rightarrow> Inr (if view_settled row then view
       else order_item Item_tool (messageKey c p) (2 * sequence ev) (view\<lparr>cl_tools := jm_set (cl_tools view) (messageKey c p)
         \<lparr>ov_commandId = c, ov_proposalId = p, ov_name = n, ov_arguments = a, ov_status = Tool_pending, ov_result = None\<rparr>\<rparr>))
   | Tool_result p d t \<Rightarrow> (if view_settled row then Inr view
       else case jm_get (cl_tools view) (messageKey c p) of
         None \<Rightarrow> Inl Resync_required
       | Some tool \<Rightarrow> Inr (view\<lparr>cl_tools := jm_set (cl_tools view) (messageKey c p)
           (tool\<lparr>ov_status := (if d = Returned then Tool_completed else Tool_failed), ov_result := Some (d, t)\<rparr>)\<rparr>))
   | Interaction_opened i req x life \<Rightarrow> open_interaction ev c row i req x life view
   | Interaction_answered i r \<Rightarrow> update_interaction i (\<lambda>v. v\<lparr>iv_status := Answered, iv_responseCommandId := Some r\<rparr>) view
   | Interaction_lapsed i \<Rightarrow> update_interaction i (\<lambda>v. v\<lparr>iv_status := Interaction_expired\<rparr>) view
   | Interaction_withdrawn i \<Rightarrow> update_interaction i (\<lambda>v. v\<lparr>iv_status := Interaction_unavailable\<rparr>) view
   | Surface_changed s \<Rightarrow> project_surface e (sequence ev) s view
   | _ \<Rightarrow> Inr view)"

definition project_accepted :: "event \<Rightarrow> id \<Rightarrow> command \<Rightarrow> session_view \<Rightarrow> client_error + session_view" where
  "project_accepted ev c cmd view =
     (if jm_has (cl_commands view) c then Inl Resync_required
      else let view' = set_command_view c (new_command cmd) view in
        Inr (if is_prompt (input_of cmd) then order_item Item_prompt c (2 * sequence ev) view' else view'))"

definition project_known :: "env \<Rightarrow> event \<Rightarrow> id \<Rightarrow> session_view \<Rightarrow> client_error + session_view" where
  "project_known e ev c view = (case jm_get (cl_commands view) c of
     None \<Rightarrow> Inl Resync_required
   | Some row \<Rightarrow> project_body e ev c row view)"

definition project_event :: "env \<Rightarrow> event \<Rightarrow> session_view \<Rightarrow> client_error + session_view" where
  "project_event e ev view =
     (if body ev = Session_recovery_unavailable
      then Inr (view\<lparr>cl_sessionStatus := Recovery_required, cl_connection := Resync\<rparr>)
      else if body ev = Session_retired then Inr (view\<lparr>cl_sessionStatus := Retired\<rparr>)
      else case ev_commandId ev of
        None \<Rightarrow> Inr view
      | Some c \<Rightarrow> (case body ev of
          Command_accepted cmd \<Rightarrow> project_accepted ev c cmd view
        | _ \<Rightarrow> project_known e ev c view))"

section \<open>Restoring a snapshot\<close>

text \<open>A field the record lacks keeps what the events left in the view.\<close>

definition or_else :: "'a option \<Rightarrow> 'a option \<Rightarrow> 'a option" where
  "or_else x y = (case x of None \<Rightarrow> y | Some v \<Rightarrow> Some v)"

definition command_row :: "command_record \<Rightarrow> (id, command_view) jsmap \<Rightarrow> (id, command_view) jsmap" where
  "command_row c m = (let prior = (case jm_get m (record_id c) of Some row \<Rightarrow> row | None \<Rightarrow> new_command (cr_command c)) in
     jm_set m (record_id c) (prior\<lparr>cv_command := cr_command c, cv_state := state_of c,
       cv_dispatch := or_else (dispatch c) (cv_dispatch prior),
       cv_outcome := or_else (state_outcome (cr_state c)) (cv_outcome prior),
       cv_failure := or_else (state_failure (cr_state c)) (cv_failure prior),
       cv_acknowledgement := or_else (state_ack (cr_state c)) (cv_acknowledgement prior),
       cv_cancelledBy := or_else (nonempty_member (state_cancelledBy (cr_state c))) (cv_cancelledBy prior)\<rparr>))"

definition restore_command :: "command_record \<Rightarrow> session_view \<Rightarrow> session_view" where
  "restore_command c view = view\<lparr>cl_commands := command_row c (cl_commands view)\<rparr>"

definition restore_interaction :: "interaction \<Rightarrow> session_view \<Rightarrow> session_view" where
  "restore_interaction row view =
     view\<lparr>cl_interactions := jm_set (cl_interactions view) (interactionId row) (projectInteraction row)\<rparr>"

definition surface_row :: "env \<Rightarrow> surface_state \<Rightarrow> (id, surface_state) jsmap \<Rightarrow> client_error + (id, surface_state) jsmap" where
  "surface_row e row m = and_then (client_surface e row) (\<lambda>s. Inr (jm_set m (surfaceInstanceId row) s))"

definition restore_surface :: "env \<Rightarrow> surface_state \<Rightarrow> session_view \<Rightarrow> client_error + session_view" where
  "restore_surface e row view = and_then (surface_row e row (cl_surfaces view)) (\<lambda>m. Inr (view\<lparr>cl_surfaces := m\<rparr>))"

definition restore_rows :: "env \<Rightarrow> snapshot_page \<Rightarrow> session_view \<Rightarrow> client_error + session_view" where
  "restore_rows e page view = loop_exit (restore_surface e) (sn_surfaces page)
     (fold restore_interaction (sn_interactions page) (fold restore_command (sn_commands page) view))"

definition restoreSnapshot :: "env \<Rightarrow> snapshot_page list \<Rightarrow> session_view \<Rightarrow> client_error + session_view" where
  "restoreSnapshot e pages view =
     and_then (loop_exit (\<lambda>page. loop_exit (project_event e) (sn_events page)) pages view) (\<lambda>view1.
       loop_exit (restore_rows e) pages
         (case pages of [] \<Rightarrow> view1 | page # _ \<Rightarrow> view1\<lparr>cl_sessionStatus := status (sn_session page)\<rparr>))"

section \<open>Live updates\<close>

datatype subscription =
    Live_event event
  | Live_delta id id id utext \<comment> \<open>generation, command, message, text\<close>
  | Live_resync

definition text_bytes :: "(string, message_view) jsmap \<Rightarrow> int" where
  "text_bytes ms = sum_list (map (\<lambda>m. byteLength (mv_text m)) (jm_values ms))"

text \<open>The transient messages other than the one under \<open>key\<close>.\<close>

definition other_transient :: "string \<Rightarrow> session_view \<Rightarrow> (string, message_view) jsmap" where
  "other_transient key view = filter (\<lambda>kv. \<not> mv_stable (snd kv) \<and> fst kv \<noteq> key) (cl_messages view)"

definition apply_delta :: "id \<Rightarrow> id \<Rightarrow> id \<Rightarrow> utext \<Rightarrow> session_view \<Rightarrow> session_view" where
  "apply_delta gen c m t view =
     (if gen \<noteq> cl_generation view \<or> (case jm_get (cl_commands view) c of None \<Rightarrow> True | Some row \<Rightarrow> view_settled row)
      then view
      else let key = messageKey c m; prior = jm_get (cl_messages view) key in
        if map_option mv_stable prior = Some True then view
        else let text' = (case prior of None \<Rightarrow> [] | Some p \<Rightarrow> mv_text p) @ t; others = other_transient key view in
          if 1024 \<le> length others \<or> maxTextBytes accessLimits < byteLength text' + text_bytes others
          then view\<lparr>cl_connection := Resync\<rparr>
          else (order_item Item_message key (2 * cl_cursor view + 1) view)
            \<lparr>cl_messages := jm_set (cl_messages view) key \<lparr>mv_commandId = c, mv_text = text', mv_stable = False\<rparr>\<rparr>)"

definition apply_event :: "env \<Rightarrow> event \<Rightarrow> session_view \<Rightarrow> client_error + session_view" where
  "apply_event e ev view =
     (if ev_namespace ev \<noteq> cl_namespace view \<or> ev_generation ev \<noteq> cl_generation view then Inl Resync_required
      else if sequence ev \<le> cl_cursor view then Inr view
      else if sequence ev \<noteq> cl_cursor view + 1 then Inr (view\<lparr>cl_connection := Resync\<rparr>)
      else and_then (project_event e ev view) (\<lambda>view'. Inr (view'\<lparr>cl_cursor := sequence ev\<rparr>)))"

definition applyUpdate :: "env \<Rightarrow> subscription \<Rightarrow> session_view \<Rightarrow> client_error + session_view" where
  "applyUpdate e item view = (case item of
     Live_resync \<Rightarrow> Inr (view\<lparr>cl_connection := Resync\<rparr>)
   | Live_delta gen c m t \<Rightarrow> Inr (if cl_connection view = Resync then view else apply_delta gen c m t view)
   | Live_event ev \<Rightarrow> if cl_connection view = Resync then Inr view else apply_event e ev view)"

text \<open>\<^verbatim>\<open>RuntimeClient.update\<close>: an update that throws leaves the view as it was, to be resynchronised.\<close>

definition client_update :: "env \<Rightarrow> subscription \<Rightarrow> session_view \<Rightarrow> session_view" where
  "client_update e item view = (case applyUpdate e item view of
     Inl x \<Rightarrow> view\<lparr>cl_connection := Resync\<rparr> | Inr view' \<Rightarrow> view')"

section \<open>Receiving the pages of a snapshot\<close>

text \<open>\<^verbatim>\<open>parse(page, "snapshotPage")\<close>: the access limits, the schema and the context rules of a page.\<close>

definition schema_snapshot_page :: "snapshot_page \<Rightarrow> bool" where
  "schema_snapshot_page p \<longleftrightarrow> isId (sn_snapshotId p) \<and> isCounter (sn_pageIndex p) \<and> schema_session (sn_session p) \<and>
     isCounter (sn_cursor p) \<and> list_all schema_event (sn_events p) \<and> list_all schema_record (sn_commands p) \<and>
     list_all schema_interaction (sn_interactions p) \<and> list_all schema_surface (sn_surfaces p) \<and> opt_ok isId (sn_next p)"

definition context_snapshot_page :: "digest \<Rightarrow> snapshot_page \<Rightarrow> bool" where
  "context_snapshot_page digest p \<longleftrightarrow> context_session (sn_session p) \<and> sn_cursor p = lastSequence (sn_session p) \<and>
     (let n = ss_namespace (sn_session p) in
      list_all (\<lambda>ev. context_event ev \<and> ev_namespace ev = n \<and> sequence ev \<le> sn_cursor p) (sn_events p) \<and>
      list_all (\<lambda>c. context_record digest c \<and> rc_namespace (cr_receipt c) = n) (sn_commands p) \<and>
      list_all (\<lambda>i. context_interaction i \<and> ia_namespace i = n) (sn_interactions p) \<and>
      list_all (\<lambda>s. sf_namespace s = n) (sn_surfaces p))"

definition parse_page :: "env \<Rightarrow> snapshot_page \<Rightarrow> client_error option" where
  "parse_page e p = fail_if
     (\<not> (case boundedJson accessLimits (json_of_snapshot_page p) of Inl d \<Rightarrow> False | Inr s \<Rightarrow> True) \<or>
      \<not> schema_snapshot_page p \<or> \<not> context_snapshot_page (env_digest e) p) Invalid_response"

text \<open>What \<^verbatim>\<open>restore\<close> has accumulated: the pages in order, the event cursor and the scratch view.\<close>

record restoring =
  rs_pages :: "snapshot_page list"
  rs_eventCursor :: counter
  rs_view :: "session_view option"

definition restore_start :: restoring where
  "restore_start = \<lparr>rs_pages = [], rs_eventCursor = 0, rs_view = None\<rparr>"

definition page_mismatch :: "id \<Rightarrow> snapshot_page \<Rightarrow> snapshot_page \<Rightarrow> nat \<Rightarrow> bool" where
  "page_mismatch sessionId page initial index \<longleftrightarrow> sn_pageIndex page \<noteq> int index \<or>
     sn_snapshotId page \<noteq> sn_snapshotId initial \<or> sn_cursor page \<noteq> sn_cursor initial \<or>
     json_print (json_of_session (sn_session page)) \<noteq> json_print (json_of_session (sn_session initial)) \<or>
     ns_sessionId (ss_namespace (sn_session page)) \<noteq> sessionId"

definition next_event :: "snapshot_page \<Rightarrow> event \<Rightarrow> counter \<Rightarrow> client_error + counter" where
  "next_event page ev cur = (if sequence ev \<noteq> cur + 1 \<or> sequence ev > sn_cursor page then Inl Resync_required
     else Inr (sequence ev))"

definition receive_page :: "env \<Rightarrow> id \<Rightarrow> snapshot_page \<Rightarrow> restoring \<Rightarrow> client_error + restoring" where
  "receive_page e sessionId page r = unless_exit (first_exit
       [parse_page e page,
        fail_if (page_mismatch sessionId page (case rs_pages r of [] \<Rightarrow> page | p # _ \<Rightarrow> p) (length (rs_pages r)))
          Resync_required])
     (and_then (case rs_view r of Some v \<Rightarrow> Inr v | None \<Rightarrow> emptyView (sn_session page) (sn_cursor page)) (\<lambda>view.
      and_then (loop_exit (next_event page) (sn_events page) (rs_eventCursor r)) (\<lambda>cur.
        Inr \<lparr>rs_pages = rs_pages r @ [page], rs_eventCursor = cur, rs_view = Some view\<rparr>)))"

text \<open>\<^verbatim>\<open>restore\<close> once the last page is in: the events reach the watermark, then the rows.\<close>

definition finish_restore :: "env \<Rightarrow> restoring \<Rightarrow> client_error + session_view" where
  "finish_restore e r = (case rs_view r of
     None \<Rightarrow> Inl Resync_required
   | Some view \<Rightarrow> if rs_eventCursor r \<noteq> cl_cursor view then Inl Resync_required
       else and_then (restoreSnapshot e (rs_pages r) view) (\<lambda>v. Inr (v\<lparr>cl_connection := Attached\<rparr>)))"

text \<open>
  \<^verbatim>\<open>RuntimeClient.restore\<close> up to the attach request; \<open>ask\<close> requests the page after a
  continuation from the host. A restore superseded by another attachment is not modelled.
\<close>

definition client_restore ::
  "env \<Rightarrow> id \<Rightarrow> (id option \<Rightarrow> 's \<Rightarrow> (client_error + snapshot_page) \<times> 's) \<Rightarrow> 's \<Rightarrow> (client_error + session_view) \<times> 's" where
  "client_restore e sessionId ask s =
     (case fetch Resync_required sn_next ask (receive_page e sessionId) 4096 None restore_start s of
        (Inl x, s') \<Rightarrow> (Inl x, s')
      | (Inr r, s') \<Rightarrow> (finish_restore e r, s'))"

end
