(* ===== verification/Client_Facts.thy ===== *)
theory Client_Facts
  imports Client_Projection
begin

text \<open>
  What the client's view keeps: a timeline in order with one place per item, a bounded amount of
  transient text that belongs to unsettled commands only, a cursor that moves by single events;
  transient text never influences the durable part of the view.
\<close>

section \<open>The timeline\<close>

definition item_id :: "timeline_item \<Rightarrow> item_kind \<times> string" where
  "item_id t = (ti_kind t, ti_key t)"

definition timeline_ok :: "timeline_item list \<Rightarrow> bool" where
  "timeline_ok ts \<longleftrightarrow> sorted (map ti_position ts) \<and> distinct (map item_id ts)"

lemma place_ids: "map item_id (place_item kind key pos ts) =
    (if (kind, key) \<in> set (map item_id ts) then map item_id ts else map item_id ts @ [(kind, key)])"
  by (induction ts) (auto simp: is_item_def item_id_def)

lemma place_distinct: "distinct (map item_id ts) \<Longrightarrow> distinct (map item_id (place_item kind key pos ts))"
  by (simp add: place_ids)

lemma sort_ids: "distinct (map item_id (sort_key f ts)) = distinct (map item_id ts)"
  by (simp add: distinct_map)

lemma order_timeline [intro]: "timeline_ok (cl_timeline view) \<Longrightarrow> timeline_ok (cl_timeline (order_item kind key pos view))"
  by (simp add: timeline_ok_def order_item_def sort_ids place_distinct)

lemma filter_timeline: "timeline_ok ts \<Longrightarrow> timeline_ok (filter P ts)"
  by (simp add: timeline_ok_def sorted_filter distinct_map_filter)

section \<open>Transient text\<close>

definition transient :: "session_view \<Rightarrow> (string, message_view) jsmap" where
  "transient view = filter (\<lambda>kv. \<not> mv_stable (snd kv)) (cl_messages view)"

definition live_command :: "session_view \<Rightarrow> id \<Rightarrow> bool" where
  "live_command view c \<longleftrightarrow> (\<exists>row. jm_get (cl_commands view) c = Some row \<and> \<not> view_settled row)"

definition view_inv :: "session_view \<Rightarrow> bool" where
  "view_inv view \<longleftrightarrow> timeline_ok (cl_timeline view) \<and> jm_wf (cl_messages view) \<and>
     length (transient view) \<le> 1024 \<and> text_bytes (transient view) \<le> maxTextBytes accessLimits \<and>
     (\<forall>kv \<in> set (transient view). live_command view (mv_commandId (snd kv)))"

text \<open>
  What one durable step may do: settle or change commands, but only drop transient text, and keep
  the command of what it leaves alive.
\<close>

definition durable_step :: "session_view \<Rightarrow> session_view \<Rightarrow> bool" where
  "durable_step view view' \<longleftrightarrow>
     (timeline_ok (cl_timeline view) \<longrightarrow> timeline_ok (cl_timeline view')) \<and>
     (jm_wf (cl_messages view) \<longrightarrow> jm_wf (cl_messages view') \<and>
        (\<exists>P. transient view' = filter P (transient view))) \<and>
     (\<forall>kv \<in> set (transient view'). live_command view (mv_commandId (snd kv)) \<longrightarrow> live_command view' (mv_commandId (snd kv)))"

lemma durable_refl [simp]: "durable_step v v"
  unfolding durable_step_def by (auto intro: exI [of _ "\<lambda>_. True"])

lemma transient_cong: "cl_messages v = cl_messages w \<Longrightarrow> transient v = transient w"
  by (simp add: transient_def)

lemma live_cong: "cl_commands v = cl_commands w \<Longrightarrow> live_command v c = live_command w c"
  by (simp add: live_command_def)

text \<open>Steps that leave the messages and the commands alone.\<close>

lemma durable_same:
  assumes "cl_messages view' = cl_messages view" "cl_commands view' = cl_commands view"
    "timeline_ok (cl_timeline view) \<Longrightarrow> timeline_ok (cl_timeline view')"
  shows "durable_step view view'"
  using assms transient_cong [OF assms(1)] live_cong [OF assms(2)]
  unfolding durable_step_def by (auto intro: exI [of _ "\<lambda>_. True"])

lemma durable_put:
  assumes "\<And>old. jm_get (cl_commands view) c = Some old \<Longrightarrow> view_settled row \<Longrightarrow> view_settled old"
  shows "durable_step view (set_command_view c row view)"
  using assms unfolding durable_step_def
  by (auto simp: transient_def live_command_def intro: exI [of _ "\<lambda>_. True"])

lemma order_transient [simp]: "transient (order_item k x p v) = transient v"
  by (rule transient_cong) (simp add: order_item_def)

lemma order_live [simp]: "live_command (order_item k x p v) c = live_command v c"
  by (rule live_cong) (simp add: order_item_def)

lemma durable_step_order: "durable_step v w \<Longrightarrow> durable_step v (order_item k x p w)"
  unfolding durable_step_def by (simp add: order_timeline) (simp add: order_item_def)

lemma view_settled_simps [simp]:
  "view_settled (row\<lparr>cv_state := live_tag s\<rparr>) = False" "view_settled (row\<lparr>cv_dispatch := d\<rparr>) = view_settled row"
  "view_settled (row\<lparr>cv_state := T_accepted\<rparr>) = False"
  "view_settled (row\<lparr>cv_failure := f\<rparr>) = view_settled row"
  "view_settled (row\<lparr>cv_cancelDispatched := x\<rparr>) = view_settled row"
  "view_settled (new_command cmd) = False"
  by (cases s; simp add: view_settled_def settled_state_def new_command_def)+

lemma order_fields [simp]:
  "cl_messages (order_item k x p v) = cl_messages v" "cl_commands (order_item k x p v) = cl_commands v"
  "cl_interactions (order_item k x p v) = cl_interactions v" "cl_surfaces (order_item k x p v) = cl_surfaces v"
  "cl_deliveries (order_item k x p v) = cl_deliveries v" "cl_tools (order_item k x p v) = cl_tools v"
  "cl_cursor (order_item k x p v) = cl_cursor v" "cl_connection (order_item k x p v) = cl_connection v"
  "cl_namespace (order_item k x p v) = cl_namespace v" "cl_generation (order_item k x p v) = cl_generation v"
  "cl_sessionStatus (order_item k x p v) = cl_sessionStatus v"
  by (simp_all add: order_item_def)

lemma settle_durable:
  "durable_step view (project_settled c row bd view)" if "jm_get (cl_commands view) c = Some row"
proof (cases "view_settled row")
  case True
  then show ?thesis by (simp add: project_settled_def)
next
  case False
  let ?v = "drop_transient c (set_command_view c (settle_view bd row) view)"
  have "transient ?v = filter (\<lambda>kv. \<not> transient_of c kv) (transient view)"
    by (auto simp: transient_def drop_transient_def Let_def intro: filter_cong)
  moreover have "live_command ?v (mv_commandId (snd kv))"
    if "kv \<in> set (transient ?v)" "live_command view (mv_commandId (snd kv))" for kv
    using that by (auto simp: transient_def drop_transient_def Let_def transient_of_def live_command_def)
  moreover have "timeline_ok (cl_timeline view) \<Longrightarrow> timeline_ok (cl_timeline ?v)"
    by (simp add: drop_transient_def Let_def filter_timeline)
  moreover have "jm_wf (cl_messages view) \<Longrightarrow> jm_wf (cl_messages ?v)"
    by (simp add: drop_transient_def Let_def jm_wf_filter)
  ultimately have "durable_step view ?v" unfolding durable_step_def by blast
  then show ?thesis using False by (simp add: project_settled_def)
qed

text \<open>A stable text replaces the transient one under its key.\<close>

lemma jm_set_filter:
  assumes "jm_wf m" "\<not> P (k, v)"
  shows "filter P (jm_set m k v) = filter (\<lambda>kv. fst kv \<noteq> k) (filter P m)"
  using assms
proof (induction m)
  case Nil
  then show ?case by (simp add: jm_set_def)
next
  case (Cons kv m)
  obtain j w where kv: "kv = (j, w)" by (cases kv)
  show ?case
  proof (cases "j = k")
    case True
    then have "k \<notin> fst ` set m" using Cons.prems(1) by (simp add: jm_wf_def kv)
    then have "filter (\<lambda>kv. fst kv \<noteq> k) (filter P m) = filter P m" by (intro filter_True) force
    then show ?thesis using True Cons.prems(2) by (simp add: jm_set_def kv)
  next
    case False
    then show ?thesis using Cons by (auto simp: jm_set_def kv jm_wf_def)
  qed
qed

lemma stable_text_durable:
  "durable_step view (order_item Item_message key pos (view\<lparr>cl_messages := jm_set (cl_messages view) key
     \<lparr>mv_commandId = c, mv_text = t, mv_stable = True\<rparr>\<rparr>))"
proof -
  let ?m = "jm_set (cl_messages view) key \<lparr>mv_commandId = c, mv_text = t, mv_stable = True\<rparr>"
  let ?v = "order_item Item_message key pos (view\<lparr>cl_messages := ?m\<rparr>)"
  have "transient ?v = filter (\<lambda>kv. fst kv \<noteq> key) (transient view)" if "jm_wf (cl_messages view)"
    using that by (simp add: transient_def jm_set_filter)
  moreover have "live_command ?v x = live_command view x" for x by (simp add: live_command_def)
  moreover have "jm_wf (cl_messages view) \<Longrightarrow> jm_wf (cl_messages ?v)" by simp
  moreover have "timeline_ok (cl_timeline view) \<Longrightarrow> timeline_ok (cl_timeline ?v)"
    by (rule order_timeline) simp
  ultimately show ?thesis unfolding durable_step_def by blast
qed

lemma surface_durable:
  assumes "project_surface e pos raw view = Inr view'"
  shows "durable_step view view'"
proof -
  obtain s where s: "client_surface e raw = Inr s" using assms by (auto simp: project_surface_def)
  let ?v = "order_item Item_surface (surfaceInstanceId s) (2 * pos)
    (view\<lparr>cl_surfaces := jm_set (cl_surfaces view) (surfaceInstanceId s) s\<rparr>)"
  have "view' = ?v \<or> view' = withdraw_pending (sf_interactionId s) ?v"
    using assms s by (auto simp: project_surface_def Let_def split: if_splits)
  moreover have "cl_messages (withdraw_pending i w) = cl_messages w" "cl_commands (withdraw_pending i w) = cl_commands w"
    "cl_timeline (withdraw_pending i w) = cl_timeline w" for i w
    by (simp_all add: withdraw_pending_def split: option.split)
  ultimately show ?thesis
    using order_timeline by (intro durable_same) (elim disjE; force)+
qed

lemma update_interaction_durable: "update_interaction i f view = Inr view' \<Longrightarrow> durable_step view view'"
  by (auto simp: update_interaction_def split: option.splits intro!: durable_same)

lemma open_interaction_durable: "open_interaction ev c row i req x life view = Inr view' \<Longrightarrow> durable_step view view'"
  by (auto simp: open_interaction_def split: option.splits if_splits intro!: durable_same order_timeline)

lemma body_durable:
  assumes row: "jm_get (cl_commands view) c = Some row" and run: "project_body e ev c row view = Inr view'"
  shows "durable_step view view'"
proof (cases "body ev")
  case (Text m t)
  then show ?thesis using run by (auto simp: project_body_def stable_text_durable)
next
  case (Interaction_opened i r x l)
  then show ?thesis using run by (simp add: project_body_def open_interaction_durable)
next
  case (Surface_changed s)
  then show ?thesis using run by (simp add: project_body_def surface_durable)
next
  case (Delivery_recorded i t h r)
  then show ?thesis using run by (auto simp: project_body_def intro!: durable_same split: option.splits)
next
  case (Delivery_requested i t n a)
  then show ?thesis using run by (auto simp: project_body_def intro!: durable_same order_timeline)
next
  case (Tool_proposal p n a)
  then show ?thesis using run by (auto simp: project_body_def intro!: durable_same order_timeline)
next
  case (Tool_result p d t)
  then show ?thesis using run by (auto simp: project_body_def intro!: durable_same split: if_splits option.splits)
qed (use run row in \<open>auto simp: project_body_def settle_durable update_interaction_durable intro!: durable_put\<close>)

lemma project_event_simps:
  "body ev = Session_recovery_unavailable \<Longrightarrow>
     project_event e ev view = Inr (view\<lparr>cl_sessionStatus := Recovery_required, cl_connection := Resync\<rparr>)"
  "body ev = Session_retired \<Longrightarrow> project_event e ev view = Inr (view\<lparr>cl_sessionStatus := Retired\<rparr>)"
  "body ev \<notin> {Session_recovery_unavailable, Session_retired} \<Longrightarrow> ev_commandId ev = None \<Longrightarrow> project_event e ev view = Inr view"
  "ev_commandId ev = Some c \<Longrightarrow> body ev = Command_accepted cmd \<Longrightarrow>
     project_event e ev view = project_accepted ev c cmd view"
  unfolding project_event_def by simp_all

lemma project_event_known:
  "\<nexists>cmd. body ev = Command_accepted cmd \<Longrightarrow> body ev \<notin> {Session_recovery_unavailable, Session_retired} \<Longrightarrow>
   ev_commandId ev = Some c \<Longrightarrow> project_event e ev view = project_known e ev c view"
  unfolding project_event_def by (cases "body ev") simp_all

text \<open>The four ways an event goes through.\<close>

lemma project_event_cases:
  assumes "project_event e ev view = Inr view'"
  obtains (lost) "body ev = Session_recovery_unavailable"
        "view' = view\<lparr>cl_sessionStatus := Recovery_required, cl_connection := Resync\<rparr>"
    | (retired) "body ev = Session_retired" "view' = view\<lparr>cl_sessionStatus := Retired\<rparr>"
    | (ignored) "ev_commandId ev = None" "view' = view" "body ev \<notin> {Session_recovery_unavailable, Session_retired}"
    | (accepted) c cmd where "ev_commandId ev = Some c" "body ev = Command_accepted cmd"
        "project_accepted ev c cmd view = Inr view'"
    | (known) c row where "ev_commandId ev = Some c" "\<nexists>cmd. body ev = Command_accepted cmd"
        "jm_get (cl_commands view) c = Some row" "project_body e ev c row view = Inr view'"
        "body ev \<notin> {Session_recovery_unavailable, Session_retired}"
proof (cases "body ev \<in> {Session_recovery_unavailable, Session_retired}")
  case True
  then consider "body ev = Session_recovery_unavailable" | "body ev = Session_retired" by blast
  then show ?thesis
  proof cases
    case 1
    with assms have "view' = view\<lparr>cl_sessionStatus := Recovery_required, cl_connection := Resync\<rparr>"
      by (simp only: project_event_simps(1) sum.inject)
    with 1 show ?thesis by (rule lost)
  next
    case 2
    with assms have "view' = view\<lparr>cl_sessionStatus := Retired\<rparr>"
      by (simp only: project_event_simps(2) sum.inject)
    with 2 show ?thesis by (rule retired)
  qed
next
  case False
  show ?thesis
  proof (cases "ev_commandId ev")
    case None
    then have "view' = view" using assms False by (simp add: project_event_simps(3))
    from None this False show ?thesis by (rule ignored)
  next
    case (Some c)
    show ?thesis
    proof (cases "\<exists>cmd. body ev = Command_accepted cmd")
      case True
      then obtain cmd where cmd: "body ev = Command_accepted cmd" by blast
      then have "project_accepted ev c cmd view = Inr view'" using assms Some by (simp add: project_event_simps(4))
      with Some cmd show ?thesis by (rule accepted)
    next
      case not: False
      then have "project_known e ev c view = Inr view'"
        using assms False Some by (simp add: project_event_known)
      then obtain row where "jm_get (cl_commands view) c = Some row" "project_body e ev c row view = Inr view'"
        by (cases "jm_get (cl_commands view) c") (simp_all add: project_known_def)
      from Some not this False show ?thesis by (rule known)
    qed
  qed
qed

lemma project_durable:
  assumes "project_event e ev view = Inr view'"
  shows "durable_step view view'"
  using assms
proof (cases rule: project_event_cases)
  case lost
  then show ?thesis by (simp add: durable_same)
next
  case retired
  then show ?thesis by (simp add: durable_same)
next
  case (accepted c cmd)
  have "durable_step view (set_command_view c (new_command cmd) view)" by (rule durable_put) simp
  then have "durable_step view (order_item Item_prompt c x (set_command_view c (new_command cmd) view))" for x
    by (rule durable_step_order)
  with \<open>durable_step view (set_command_view c (new_command cmd) view)\<close> show ?thesis
    using accepted(3) by (auto simp: project_accepted_def Let_def split: if_splits)
next
  case (known c row)
  show ?thesis by (rule body_durable [OF known(3,4)])
qed simp

text \<open>A durable step of the projection keeps the invariant.\<close>

lemma text_bytes_filter: "text_bytes (filter P m) \<le> text_bytes m"
  by (induction m) (auto simp: text_bytes_def jm_values_def intro: add_increasing)

lemma durable_inv:
  assumes "durable_step view view'" "view_inv view"
  shows "view_inv view'"
proof -
  obtain P where P: "transient view' = filter P (transient view)"
    using assms by (auto simp: durable_step_def view_inv_def)
  have "length (transient view') \<le> 1024"
    using assms(2) by (metis P length_filter_le le_trans view_inv_def)
  moreover have "text_bytes (transient view') \<le> maxTextBytes accessLimits"
    using assms(2) text_bytes_filter [of P "transient view"] by (simp add: P view_inv_def)
  moreover have "\<forall>kv \<in> set (transient view'). live_command view' (mv_commandId (snd kv))"
    using assms by (auto simp: durable_step_def view_inv_def P)
  ultimately show ?thesis using assms by (simp add: view_inv_def durable_step_def)
qed

section \<open>Streamed text\<close>

lemma transient_split:
  assumes "jm_wf (cl_messages view)" "map_option mv_stable (jm_get (cl_messages view) key) \<noteq> Some True"
  shows "transient (view\<lparr>cl_messages := jm_set (cl_messages view) key \<lparr>mv_commandId = c, mv_text = t, mv_stable = False\<rparr>\<rparr>) =
    jm_set (transient view) key \<lparr>mv_commandId = c, mv_text = t, mv_stable = False\<rparr>"
proof -
  have "filter (\<lambda>kv. \<not> mv_stable (snd kv)) (jm_set m key w) = jm_set (filter (\<lambda>kv. \<not> mv_stable (snd kv)) m) key w"
    if "map_option mv_stable (jm_get m key) \<noteq> Some True" "jm_wf m" "\<not> mv_stable w" for m and w :: message_view
    using that
  proof (induction m)
    case (Cons kv m)
    obtain j x where kv: "kv = (j, x)" by (cases kv)
    show ?case
    proof (cases "j = key")
      case True
      then show ?thesis using Cons.prems by (simp add: kv jm_set_def jm_get_def)
    next
      case False
      then show ?thesis using Cons by (simp add: kv jm_set_def jm_get_def jm_wf_def)
    qed
  qed (simp add: jm_set_def)
  then show ?thesis using assms by (simp add: transient_def)
qed

text \<open>What the others hold and what is written under the key add up to the new transient text.\<close>

lemma set_others:
  assumes "jm_wf m"
  shows "length (jm_set m k v) = Suc (length (filter (\<lambda>kv. fst kv \<noteq> k) m))"
    "text_bytes (jm_set m k v) = byteLength (mv_text v) + text_bytes (filter (\<lambda>kv. fst kv \<noteq> k) m)"
  using assms
proof (induction m)
  case (Cons kv m)
  obtain j x where kv: "kv = (j, x)" by (cases kv)
  {
    case 1
    show ?case
    proof (cases "j = k")
      case True
      then have "filter (\<lambda>kv. fst kv \<noteq> k) m = m" using 1 by (intro filter_True) (force simp: kv jm_wf_def)
      then show ?thesis using True by (simp add: kv jm_set_def)
    qed (use 1 Cons.IH(1) in \<open>simp add: kv jm_set_def jm_wf_def\<close>)
  next
    case 2
    show ?case
    proof (cases "j = k")
      case True
      then have "filter (\<lambda>kv. fst kv \<noteq> k) m = m" using 2 by (intro filter_True) (force simp: kv jm_wf_def)
      then show ?thesis using True by (simp add: kv jm_set_def text_bytes_def jm_values_def)
    qed (use 2 Cons.IH(2) in \<open>simp add: kv jm_set_def jm_wf_def text_bytes_def jm_values_def\<close>)
  }
qed (simp_all add: jm_set_def text_bytes_def jm_values_def)

lemma other_transient_filter: "other_transient key view = filter (\<lambda>kv. fst kv \<noteq> key) (transient view)"
  by (simp add: other_transient_def transient_def conj_commute)

lemma apply_delta_cases:
  obtains (ignored) "apply_delta gen c m t view = view"
    | (overflow) "apply_delta gen c m t view = view\<lparr>cl_connection := Resync\<rparr>"
    | (streamed) tx where "live_command view c" "gen = cl_generation view"
        "map_option mv_stable (jm_get (cl_messages view) (messageKey c m)) \<noteq> Some True"
        "length (other_transient (messageKey c m) view) < 1024"
        "byteLength tx + text_bytes (other_transient (messageKey c m) view) \<le> maxTextBytes accessLimits"
        "apply_delta gen c m t view = (order_item Item_message (messageKey c m) (2 * cl_cursor view + 1) view)
           \<lparr>cl_messages := jm_set (cl_messages view) (messageKey c m) \<lparr>mv_commandId = c, mv_text = tx, mv_stable = False\<rparr>\<rparr>"
proof (cases "gen = cl_generation view \<and> live_command view c \<and>
    map_option mv_stable (jm_get (cl_messages view) (messageKey c m)) \<noteq> Some True")
  case False
  then have "apply_delta gen c m t view = view"
    by (auto simp: apply_delta_def Let_def live_command_def split: option.splits)
  then show ?thesis by (rule ignored)
next
  case True
  then obtain row where row: "jm_get (cl_commands view) c = Some row" "\<not> view_settled row" by (auto simp: live_command_def)
  let ?tx = "(case jm_get (cl_messages view) (messageKey c m) of None \<Rightarrow> [] | Some p \<Rightarrow> mv_text p) @ t"
  show ?thesis
  proof (cases "1024 \<le> length (other_transient (messageKey c m) view) \<or>
      maxTextBytes accessLimits < byteLength ?tx + text_bytes (other_transient (messageKey c m) view)")
    case over: True
    then have "apply_delta gen c m t view = view\<lparr>cl_connection := Resync\<rparr>"
      using True row unfolding apply_delta_def Let_def by simp blast
    then show ?thesis by (rule overflow)
  next
    case fit: False
    then have "apply_delta gen c m t view = (order_item Item_message (messageKey c m) (2 * cl_cursor view + 1) view)
           \<lparr>cl_messages := jm_set (cl_messages view) (messageKey c m) \<lparr>mv_commandId = c, mv_text = ?tx, mv_stable = False\<rparr>\<rparr>"
      using True row unfolding apply_delta_def Let_def by simp blast
    then show ?thesis using True fit by (intro streamed [of ?tx]) auto
  qed
qed

lemma jm_set_subset: "set (jm_set m k v) \<subseteq> insert (k, v) (set m)"
  by (induction m) (auto simp: jm_set_def)

lemma delta_inv:
  assumes "view_inv view"
  shows "view_inv (apply_delta gen c m t view)"
proof (cases rule: apply_delta_cases [of gen c m t view])
  case ignored
  then show ?thesis using assms by simp
next
  case overflow
  have "transient (view\<lparr>cl_connection := Resync\<rparr>) = transient view"
    "live_command (view\<lparr>cl_connection := Resync\<rparr>) x = live_command view x" for x
    by (simp_all add: transient_def live_command_def)
  then show ?thesis using assms by (simp add: overflow view_inv_def)
next
  case (streamed tx)
  let ?k = "messageKey c m" and ?w = "\<lparr>mv_commandId = c, mv_text = tx, mv_stable = False\<rparr>"
  let ?v = "(order_item Item_message ?k (2 * cl_cursor view + 1) view)\<lparr>cl_messages := jm_set (cl_messages view) ?k ?w\<rparr>"
  have wf: "jm_wf (cl_messages view)" "jm_wf (transient view)"
    using assms by (simp_all add: view_inv_def transient_def jm_wf_filter)
  have "transient ?v = transient (view\<lparr>cl_messages := jm_set (cl_messages view) ?k ?w\<rparr>)" by (rule transient_cong) simp
  then have tr: "transient ?v = jm_set (transient view) ?k ?w" using transient_split [OF wf(1) streamed(3)] by simp
  have live: "live_command ?v x = live_command view x" for x by (rule live_cong) simp
  have "set (jm_set (transient view) ?k ?w) \<subseteq> insert (?k, ?w) (set (transient view))"
    by (rule jm_set_subset)
  then have "\<forall>kv \<in> set (transient ?v). live_command ?v (mv_commandId (snd kv))"
    using assms streamed(1) by (fastforce simp: live tr view_inv_def)
  then show ?thesis
    using assms streamed(4,5) set_others [OF wf(2), of ?k ?w] order_timeline [of view Item_message ?k "2 * cl_cursor view + 1"]
    by (simp add: streamed(6) view_inv_def tr other_transient_filter)
qed

section \<open>Updates and restored views\<close>

lemma view_inv_cong:
  "cl_timeline v = cl_timeline w \<Longrightarrow> cl_messages v = cl_messages w \<Longrightarrow> cl_commands v = cl_commands w \<Longrightarrow>
   view_inv v = view_inv w"
  unfolding view_inv_def using transient_cong [of v w] live_cong [of v w] by simp

lemma apply_event_inv:
  assumes "apply_event e ev view = Inr view'" "view_inv view"
  shows "view_inv view'"
proof -
  consider "view' = view" | "view' = view\<lparr>cl_connection := Resync\<rparr>"
    | w where "project_event e ev view = Inr w" "view' = w\<lparr>cl_cursor := sequence ev\<rparr>"
    using assms(1) by (auto simp: apply_event_def simp del: and_then_Inr split: if_splits)
      (auto simp: and_then_def split: sum.splits)
  then show ?thesis
  proof cases
    case 1
    with assms(2) show ?thesis by simp
  next
    case 2
    then show ?thesis using assms(2) view_inv_cong [of view' view] by simp
  next
    case (3 w)
    then show ?thesis
      using durable_inv [OF project_durable assms(2)] view_inv_cong [of view' w] by simp
  qed
qed

lemma update_inv:
  assumes "view_inv view"
  shows "view_inv (client_update e item view)"
proof -
  have resync: "view_inv (view\<lparr>cl_connection := Resync\<rparr>)" using assms view_inv_cong [of "view\<lparr>cl_connection := Resync\<rparr>" view] by simp
  show ?thesis
  proof (cases item)
    case (Live_event ev)
    then show ?thesis
      using assms resync apply_event_inv [OF _ assms, of e ev]
      by (cases "apply_event e ev view") (simp_all add: client_update_def applyUpdate_def)
  next
    case (Live_delta gen c m t)
    then show ?thesis using assms delta_inv [OF assms] by (simp add: client_update_def applyUpdate_def)
  qed (simp add: client_update_def applyUpdate_def resync)
qed

text \<open>Restoring projects the events on an empty view, which has no transient text, then sets rows.\<close>

lemma events_inv:
  assumes "loop_exit (project_event e) evs view = Inr view'" "view_inv view"
  shows "view_inv view' \<and> (transient view = [] \<longrightarrow> transient view' = [])"
  using assms
proof (induction evs arbitrary: view)
  case (Cons ev evs)
  then obtain w where w: "project_event e ev view = Inr w" "loop_exit (project_event e) evs w = Inr view'"
    by (auto split: sum.splits)
  have "transient view = [] \<longrightarrow> transient w = []"
    using project_durable [OF w(1)] Cons.prems(2) by (auto simp: durable_step_def view_inv_def)
  then show ?case using Cons.IH [OF w(2) durable_inv [OF project_durable [OF w(1)] Cons.prems(2)]] by blast
qed simp

lemma pages_inv:
  assumes "loop_exit (\<lambda>page. loop_exit (project_event e) (sn_events page)) pages view = Inr view'" "view_inv view"
  shows "view_inv view' \<and> (transient view = [] \<longrightarrow> transient view' = [])"
  using assms
proof (induction pages arbitrary: view)
  case (Cons page pages)
  then obtain w where w: "loop_exit (project_event e) (sn_events page) view = Inr w"
    "loop_exit (\<lambda>page. loop_exit (project_event e) (sn_events page)) pages w = Inr view'"
    by (auto split: sum.splits)
  then show ?case using Cons.IH [OF w(2)] events_inv [OF w(1) Cons.prems(2)] by blast
qed simp

definition same_texts :: "session_view \<Rightarrow> session_view \<Rightarrow> bool" where
  "same_texts v w \<longleftrightarrow> cl_messages v = cl_messages w \<and> cl_timeline v = cl_timeline w"

lemma fold_same_texts: "(\<And>x v. same_texts (f x v) v) \<Longrightarrow> same_texts (fold f xs v) v"
  by (induction xs arbitrary: v) (auto simp: same_texts_def)

lemma loop_same_texts:
  "(\<And>x v v'. f x v = Inr v' \<Longrightarrow> same_texts v' v) \<Longrightarrow> loop_exit f xs v = Inr v' \<Longrightarrow> same_texts v' v"
proof (induction xs arbitrary: v)
  case (Cons x xs)
  then obtain w where "f x v = Inr w" "loop_exit f xs w = Inr v'" by (auto split: sum.splits)
  with Cons show ?case unfolding same_texts_def by metis
qed (simp add: same_texts_def)

lemma restore_rows_texts: "restore_rows e page view = Inr view' \<Longrightarrow> same_texts view' view"
proof -
  assume run: "restore_rows e page view = Inr view'"
  let ?v = "fold restore_interaction (sn_interactions page) (fold restore_command (sn_commands page) view)"
  have "same_texts view' ?v"
    using run [unfolded restore_rows_def]
    by (rule loop_same_texts [rotated]) (auto simp: restore_surface_def same_texts_def)
  moreover have "same_texts ?v (fold restore_command (sn_commands page) view)"
    by (rule fold_same_texts) (simp add: restore_interaction_def same_texts_def)
  moreover have "same_texts (fold restore_command (sn_commands page) view) view"
    by (rule fold_same_texts) (simp add: restore_command_def Let_def same_texts_def)
  ultimately show ?thesis by (simp add: same_texts_def)
qed

lemma empty_view_inv: "emptyView s cur = Inr view \<Longrightarrow> view_inv view \<and> transient view = []"
  by (auto simp: emptyView_def Let_def view_inv_def transient_def timeline_ok_def text_bytes_def jm_values_def accessLimits_def
      split: if_splits sum.splits)

lemma restore_inv:
  assumes "restoreSnapshot e pages view = Inr view'" "view_inv view" "transient view = []"
  shows "view_inv view'"
proof -
  obtain w where w: "loop_exit (\<lambda>page. loop_exit (project_event e) (sn_events page)) pages view = Inr w"
    and rows: "loop_exit (restore_rows e) pages
      (case pages of [] \<Rightarrow> w | page # _ \<Rightarrow> w\<lparr>cl_sessionStatus := status (sn_session page)\<rparr>) = Inr view'"
    using assms(1) by (auto simp: restoreSnapshot_def)
  have w': "view_inv w" "transient w = []" using pages_inv [OF w assms(2)] assms(3) by blast+
  have "same_texts view' (case pages of [] \<Rightarrow> w | page # _ \<Rightarrow> w\<lparr>cl_sessionStatus := status (sn_session page)\<rparr>)"
    using rows by (rule loop_same_texts [where f = "restore_rows e", rotated]) (rule restore_rows_texts)
  then have texts: "cl_messages view' = cl_messages w" "cl_timeline view' = cl_timeline w"
    by (simp_all add: same_texts_def split: list.splits)
  then have "transient view' = []" using w'(2) transient_cong by metis
  then show ?thesis
    using w'(1) texts by (simp add: view_inv_def text_bytes_def jm_values_def accessLimits_def)
qed

end
