(* ===== verification/Client_Stream.thy ===== *)
theory Client_Stream
  imports Client_Facts
begin

text \<open>
  Streamed text is transient: an item of the timeline takes a durable position only for a stable
  text, and removing every delta from a sequence of updates leaves the durable part of the view
  unchanged.
\<close>

section \<open>Durable positions\<close>

definition durable_items :: "timeline_item list \<Rightarrow> timeline_item set" where
  "durable_items ts = {t \<in> set ts. even (ti_position t)}"

definition stable_text :: "session_view \<Rightarrow> string \<Rightarrow> message_view option" where
  "stable_text view k = (case jm_get (cl_messages view) k of
     Some m \<Rightarrow> if mv_stable m then Some m else None | None \<Rightarrow> None)"

definition placed :: "session_view \<Rightarrow> bool" where
  "placed view \<longleftrightarrow> jm_wf (cl_messages view) \<and> distinct (map item_id (cl_timeline view)) \<and>
     (\<forall>t \<in> durable_items (cl_timeline view). ti_kind t = Item_message \<longrightarrow> stable_text view (ti_key t) \<noteq> None)"

lemma durable_Cons:
  "durable_items (t # us) = (if even (ti_position t) then insert t (durable_items us) else durable_items us)"
  "durable_items [] = {}"
  by (auto simp: durable_items_def)

lemma durable_place_even:
  assumes "even pos" "distinct (map item_id ts)"
  shows "durable_items (place_item kind key pos ts) =
    (if \<exists>t \<in> durable_items ts. item_id t = (kind, key) then durable_items ts
     else insert \<lparr>ti_kind = kind, ti_key = key, ti_position = pos\<rparr> (durable_items ts))"
  using assms(2)
proof (induction ts)
  case Nil
  then show ?case using assms(1) by (auto simp: durable_items_def)
next
  case (Cons t ts)
  note cons = durable_Cons
  show ?case
  proof (cases "is_item kind key t")
    case True
    then have id: "item_id t = (kind, key)" by (simp add: is_item_def item_id_def)
    then have "\<not> (\<exists>u \<in> durable_items ts. item_id u = (kind, key))"
      using Cons.prems by (force simp: durable_items_def)
    moreover have "t\<lparr>ti_position := pos\<rparr> = \<lparr>ti_kind = kind, ti_key = key, ti_position = pos\<rparr>"
      using True by (cases t) (simp add: is_item_def)
    ultimately show ?thesis using True id assms(1) by (auto simp: cons)
  next
    case False
    then have "item_id t \<noteq> (kind, key)" by (auto simp: is_item_def item_id_def)
    then show ?thesis using False Cons by (auto simp: cons)
  qed
qed

lemma durable_place_odd:
  assumes "odd pos"
  shows "durable_items (place_item kind key pos ts) = durable_items ts"
  using assms by (induction ts) (simp_all add: durable_Cons)

lemma durable_order: "durable_items (cl_timeline (order_item kind key pos view)) = durable_items (place_item kind key pos (cl_timeline view))"
  by (auto simp: order_item_def durable_items_def)

lemma order_distinct: "distinct (map item_id (cl_timeline view)) \<Longrightarrow>
    distinct (map item_id (cl_timeline (order_item kind key pos view)))"
  by (simp add: order_item_def sort_ids place_distinct)

section \<open>Views with the same durable part\<close>

definition same_durable :: "session_view \<Rightarrow> session_view \<Rightarrow> bool" where
  "same_durable v w \<longleftrightarrow> cl_namespace v = cl_namespace w \<and> cl_generation v = cl_generation w \<and> cl_cursor v = cl_cursor w \<and>
     cl_connection v = cl_connection w \<and> cl_sessionStatus v = cl_sessionStatus w \<and> cl_commands v = cl_commands w \<and>
     cl_interactions v = cl_interactions w \<and> cl_surfaces v = cl_surfaces w \<and> cl_deliveries v = cl_deliveries w \<and>
     cl_tools v = cl_tools w \<and> (\<forall>k. stable_text v k = stable_text w k) \<and>
     durable_items (cl_timeline v) = durable_items (cl_timeline w)"

lemma same_durable_refl [simp]: "same_durable v v"
  by (simp add: same_durable_def)

lemma stable_cong: "cl_messages v = cl_messages w \<Longrightarrow> stable_text v k = stable_text w k"
  by (simp add: stable_text_def)

lemma stable_order [simp]: "stable_text (order_item kind key pos v) k = stable_text v k"
  by (rule stable_cong) simp

lemma stable_fields [simp]:
  "stable_text (v\<lparr>cl_commands := a\<rparr>) k = stable_text v k" "stable_text (v\<lparr>cl_interactions := b\<rparr>) k = stable_text v k"
  "stable_text (v\<lparr>cl_surfaces := c\<rparr>) k = stable_text v k" "stable_text (v\<lparr>cl_deliveries := d\<rparr>) k = stable_text v k"
  "stable_text (v\<lparr>cl_tools := f\<rparr>) k = stable_text v k" "stable_text (v\<lparr>cl_cursor := g\<rparr>) k = stable_text v k"
  "stable_text (v\<lparr>cl_connection := h\<rparr>) k = stable_text v k" "stable_text (v\<lparr>cl_sessionStatus := i\<rparr>) k = stable_text v k"
  by (simp_all add: stable_text_def)

lemma same_fields:
  assumes "same_durable v w"
  shows "same_durable (v\<lparr>cl_commands := a\<rparr>) (w\<lparr>cl_commands := a\<rparr>)"
    "same_durable (v\<lparr>cl_interactions := b\<rparr>) (w\<lparr>cl_interactions := b\<rparr>)"
    "same_durable (v\<lparr>cl_surfaces := c\<rparr>) (w\<lparr>cl_surfaces := c\<rparr>)"
    "same_durable (v\<lparr>cl_deliveries := d\<rparr>) (w\<lparr>cl_deliveries := d\<rparr>)"
    "same_durable (v\<lparr>cl_tools := f\<rparr>) (w\<lparr>cl_tools := f\<rparr>)" "same_durable (v\<lparr>cl_cursor := g\<rparr>) (w\<lparr>cl_cursor := g\<rparr>)"
    "same_durable (v\<lparr>cl_connection := h\<rparr>) (w\<lparr>cl_connection := h\<rparr>)"
    "same_durable (v\<lparr>cl_sessionStatus := i\<rparr>) (w\<lparr>cl_sessionStatus := i\<rparr>)"
  using assms unfolding same_durable_def by simp_all

lemma same_eqs:
  assumes "same_durable v w"
  shows "cl_commands v = cl_commands w" "cl_interactions v = cl_interactions w" "cl_surfaces v = cl_surfaces w"
    "cl_deliveries v = cl_deliveries w" "cl_tools v = cl_tools w" "cl_cursor v = cl_cursor w"
    "cl_connection v = cl_connection w" "cl_namespace v = cl_namespace w" "cl_generation v = cl_generation w"
  using assms unfolding same_durable_def by simp_all

lemma same_order:
  assumes "same_durable v w" "even pos" "distinct (map item_id (cl_timeline v))" "distinct (map item_id (cl_timeline w))"
  shows "same_durable (order_item kind key pos v) (order_item kind key pos w)"
  using assms(1) unfolding same_durable_def
  by (simp add: durable_order durable_place_even [OF assms(2,3)] durable_place_even [OF assms(2,4)])

text \<open>Bodies of an event: both views take the same step.\<close>

lemma stable_set:
  "stable_text (v\<lparr>cl_messages := jm_set (cl_messages v) k m\<rparr>) j =
     (if j = k then (if mv_stable m then Some m else None) else stable_text v j)"
  by (simp add: stable_text_def)

lemma same_text:
  assumes "same_durable v w"
  shows "same_durable (v\<lparr>cl_messages := jm_set (cl_messages v) k m\<rparr>) (w\<lparr>cl_messages := jm_set (cl_messages w) k m\<rparr>)"
  using assms unfolding same_durable_def by (simp add: stable_set)

lemma jm_get_filter_case:
  assumes "jm_wf m"
  shows "jm_get (filter P m) k = (case jm_get m k of None \<Rightarrow> None | Some v \<Rightarrow> if P (k, v) then Some v else None)"
proof (cases "jm_get (filter P m) k")
  case None
  then show ?thesis using jm_get_filter [OF assms, of P k] by (auto split: option.split)
next
  case (Some v)
  then show ?thesis using jm_get_filter [OF assms, of P k v] by simp
qed

lemma stable_drop: "jm_wf (cl_messages v) \<Longrightarrow> stable_text (drop_transient c v) k = stable_text v k"
  by (simp add: stable_text_def drop_transient_def Let_def jm_get_filter_case transient_of_def split: option.split)

lemma durable_drop:
  assumes "placed v"
  shows "durable_items (cl_timeline (drop_transient c v)) = durable_items (cl_timeline v)"
proof -
  have "ti_kind t \<noteq> Item_message \<or> ti_key t \<notin> fst ` {kv \<in> set (cl_messages v). transient_of c kv}"
    if t: "t \<in> durable_items (cl_timeline v)" for t
  proof (rule ccontr)
    assume "\<not> ?thesis"
    then obtain m where m: "ti_kind t = Item_message" "(ti_key t, m) \<in> set (cl_messages v)" "\<not> mv_stable m"
      by (auto simp: transient_of_def)
    then have "jm_get (cl_messages v) (ti_key t) = Some m" using assms by (simp add: placed_def jm_mem_get)
    then have "stable_text v (ti_key t) = None" using m(3) by (simp add: stable_text_def)
    then show False using assms t m(1) by (auto simp: placed_def)
  qed
  then show ?thesis by (auto simp: durable_items_def drop_transient_def Let_def)
qed

lemma drop_fields [simp]:
  "cl_namespace (drop_transient c v) = cl_namespace v" "cl_generation (drop_transient c v) = cl_generation v"
  "cl_cursor (drop_transient c v) = cl_cursor v" "cl_connection (drop_transient c v) = cl_connection v"
  "cl_sessionStatus (drop_transient c v) = cl_sessionStatus v" "cl_commands (drop_transient c v) = cl_commands v"
  "cl_interactions (drop_transient c v) = cl_interactions v" "cl_surfaces (drop_transient c v) = cl_surfaces v"
  "cl_deliveries (drop_transient c v) = cl_deliveries v" "cl_tools (drop_transient c v) = cl_tools v"
  by (simp_all add: drop_transient_def Let_def)

lemma placed_cong:
  "cl_messages v = cl_messages w \<Longrightarrow> cl_timeline v = cl_timeline w \<Longrightarrow> placed v = placed w"
  unfolding placed_def using stable_cong [of v w] by simp

lemma same_drop:
  assumes "same_durable v w" "placed v" "placed w"
  shows "same_durable (drop_transient c v) (drop_transient c w)"
proof -
  have wf: "jm_wf (cl_messages v)" "jm_wf (cl_messages w)" using assms(2,3) by (simp_all only: placed_def)
  show ?thesis
    using assms(1) unfolding same_durable_def
    by (simp add: stable_drop [OF wf(1)] stable_drop [OF wf(2)] durable_drop [OF assms(2)] durable_drop [OF assms(3)])
qed

lemma same_settled:
  assumes "same_durable v w" "placed v" "placed w"
  shows "same_durable (project_settled c row bd v) (project_settled c row bd w)"
proof (cases "view_settled row")
  case False
  let ?v = "set_command_view c (settle_view bd row) v" and ?w = "set_command_view c (settle_view bd row) w"
  have "same_durable ?v ?w" using same_fields(1) [OF assms(1)] same_eqs(1) [OF assms(1)] by simp
  moreover have "placed ?v" "placed ?w" using assms(2,3) placed_cong [of ?v v] placed_cong [of ?w w] by simp_all
  ultimately show ?thesis using False by (simp add: project_settled_def same_drop)
qed (simp add: project_settled_def assms(1))

text \<open>Messages of the timeline only gain durable positions with a stable text.\<close>

lemma placed_order:
  assumes "placed v" "kind \<noteq> Item_message"
  shows "placed (order_item kind key pos v)"
proof -
  have "ti_kind t = Item_message \<Longrightarrow> t \<in> durable_items (place_item kind key pos ts) \<Longrightarrow> t \<in> durable_items ts" for t ts
    using assms(2) by (induction ts) (auto simp: durable_Cons is_item_def split: if_splits)
  then show ?thesis
    using assms(1) unfolding placed_def by (auto simp: order_distinct durable_order)
qed

lemma placed_drop:
  assumes "placed v"
  shows "placed (drop_transient c v)"
proof -
  have wf: "jm_wf (cl_messages v)" using assms by (simp only: placed_def)
  have "distinct (map item_id (cl_timeline (drop_transient c v)))"
    using assms by (simp add: drop_transient_def Let_def placed_def distinct_map_filter)
  moreover have "jm_wf (cl_messages (drop_transient c v))" by (simp add: drop_transient_def Let_def jm_wf_filter [OF wf])
  ultimately show ?thesis
    using assms unfolding placed_def by (simp add: stable_drop [OF wf] durable_drop [OF assms])
qed

lemma placed_text:
  assumes "placed v"
  shows "placed (order_item Item_message k (2 * n) (v\<lparr>cl_messages := jm_set (cl_messages v) k
    \<lparr>mv_commandId = c, mv_text = t, mv_stable = True\<rparr>\<rparr>))" (is "placed ?v")
proof -
  have d: "distinct (map item_id (cl_timeline v))" using assms by (simp only: placed_def)
  have "stable_text ?v (ti_key x) \<noteq> None" if "x \<in> durable_items (cl_timeline ?v)" "ti_kind x = Item_message" for x
  proof (cases "ti_key x = k")
    case False
    then have "x \<in> durable_items (cl_timeline v)"
      using that durable_place_even [OF _ d, of "2 * n" Item_message k] by (auto simp: durable_order split: if_splits)
    then show ?thesis using assms that(2) False by (simp add: placed_def stable_set)
  qed (simp add: stable_set)
  moreover have "distinct (map item_id (cl_timeline ?v))" using d by (simp add: order_distinct)
  moreover have "jm_wf (cl_messages ?v)" using assms by (simp add: placed_def)
  ultimately show ?thesis unfolding placed_def by blast
qed

lemma placed_fields [simp]:
  "placed (v\<lparr>cl_commands := a\<rparr>) = placed v" "placed (v\<lparr>cl_interactions := b\<rparr>) = placed v"
  "placed (v\<lparr>cl_surfaces := c\<rparr>) = placed v" "placed (v\<lparr>cl_deliveries := d\<rparr>) = placed v"
  "placed (v\<lparr>cl_tools := f\<rparr>) = placed v" "placed (v\<lparr>cl_cursor := g\<rparr>) = placed v"
  "placed (v\<lparr>cl_connection := h\<rparr>) = placed v" "placed (v\<lparr>cl_sessionStatus := i\<rparr>) = placed v"
  by (rule placed_cong; simp)+

lemma placed_distinct: "placed v \<Longrightarrow> distinct (map item_id (cl_timeline v))"
  by (simp add: placed_def)

lemma placed_settled: "placed v \<Longrightarrow> placed (project_settled c row bd v)"
  by (simp add: project_settled_def placed_drop)

lemma placed_withdraw: "placed v \<Longrightarrow> placed (withdraw_pending i v)"
  by (simp add: withdraw_pending_def split: option.split)

lemma placed_surface: "project_surface e pos raw v = Inr v' \<Longrightarrow> placed v \<Longrightarrow> placed v'"
  by (auto simp: project_surface_def Let_def placed_withdraw placed_order split: if_splits)

lemma body_placed:
  assumes "placed v" "project_body e ev c row v = Inr v'"
  shows "placed v'"
proof (cases "body ev")
  case (Text m t)
  then show ?thesis using assms by (auto simp: project_body_def placed_text)
next
  case (Interaction_opened i r x l)
  then show ?thesis using assms by (auto simp: project_body_def open_interaction_def placed_order split: option.splits if_splits)
next
  case (Surface_changed s)
  then show ?thesis using assms by (simp add: project_body_def placed_surface)
next
  case (Delivery_recorded i t h r)
  then show ?thesis using assms by (auto simp: project_body_def split: option.splits)
next
  case (Tool_result p d t)
  then show ?thesis using assms by (auto simp: project_body_def split: if_splits option.splits)
qed (use assms in \<open>auto simp: project_body_def placed_settled placed_order update_interaction_def split: option.splits\<close>)

lemma project_placed:
  assumes "placed v" "project_event e ev v = Inr v'"
  shows "placed v'"
  using assms(2)
proof (cases rule: project_event_cases)
  case (accepted c cmd)
  then show ?thesis using assms(1) by (auto simp: project_accepted_def Let_def placed_order split: if_splits)
next
  case (known c row)
  show ?thesis by (rule body_placed [OF assms(1) known(4)])
qed (simp_all add: assms(1))

lemma same_withdraw: "same_durable v w \<Longrightarrow> same_durable (withdraw_pending i v) (withdraw_pending i w)"
  using same_eqs(2) [of v w] by (auto simp: withdraw_pending_def same_fields split: option.split)

lemma same_surface:
  assumes same: "same_durable v w" and placed: "placed v" "placed w" and run: "project_surface e pos raw v = Inr v'"
  shows "\<exists>w'. project_surface e pos raw w = Inr w' \<and> same_durable v' w'"
proof -
  obtain s where s: "client_surface e raw = Inr s" using run by (auto simp: project_surface_def)
  let ?f = "\<lambda>v. order_item Item_surface (surfaceInstanceId s) (2 * pos) (v\<lparr>cl_surfaces := jm_set (cl_surfaces v) (surfaceInstanceId s) s\<rparr>)"
  have "same_durable (?f v) (?f w)"
    using same_order [OF same_fields(3) [OF same], of "2 * pos"] placed same_eqs(3) [OF same] by (simp add: placed_distinct)
  then show ?thesis
    using run s same_withdraw [of "?f v" "?f w"] same_eqs(3) [OF same]
    by (auto simp: project_surface_def Let_def split: if_splits)
qed

lemma body_same:
  assumes same: "same_durable v w" and placed: "placed v" "placed w" and run: "project_body e ev c row v = Inr v'"
  shows "\<exists>w'. project_body e ev c row w = Inr w' \<and> same_durable v' w'"
proof -
  note eqs = same_eqs [OF same] and d = placed [THEN placed_distinct]
  note fields = same_fields [OF same] and order = same_order [OF _ _ d]
  show ?thesis
  proof (cases "body ev")
    case (Text m t)
    have "same_durable (order_item Item_message k (2 * n) (v\<lparr>cl_messages := jm_set (cl_messages v) k x\<rparr>))
        (order_item Item_message k (2 * n) (w\<lparr>cl_messages := jm_set (cl_messages w) k x\<rparr>))" for k n x
      using d by (intro same_order same_text same) simp_all
    then show ?thesis using run Text same by (auto simp: project_body_def)
  next
    case (Interaction_opened i r x l)
    have "same_durable (order_item k j (2 * n) (v\<lparr>cl_interactions := y\<rparr>)) (order_item k j (2 * n) (w\<lparr>cl_interactions := y\<rparr>))" for k j n y
      using d by (intro same_order same_fields same) simp_all
    then show ?thesis
      using run Interaction_opened eqs(2) by (auto simp: project_body_def open_interaction_def split: option.splits if_splits)
  next
    case (Surface_changed s)
    then show ?thesis using run same_surface [OF same placed] by (simp add: project_body_def)
  next
    case (Delivery_requested i t n a)
    have "same_durable (order_item k j (2 * m) (v\<lparr>cl_deliveries := y\<rparr>)) (order_item k j (2 * m) (w\<lparr>cl_deliveries := y\<rparr>))" for k j m y
      using d by (intro same_order same_fields same) simp_all
    then show ?thesis using run Delivery_requested eqs(4) same by (auto simp: project_body_def)
  next
    case (Delivery_recorded i t h r)
    then show ?thesis using run eqs(4) fields(4) same by (auto simp: project_body_def split: option.splits)
  next
    case (Tool_proposal p n a)
    have "same_durable (order_item k j (2 * m) (v\<lparr>cl_tools := y\<rparr>)) (order_item k j (2 * m) (w\<lparr>cl_tools := y\<rparr>))" for k j m y
      using d by (intro same_order same_fields same) simp_all
    then show ?thesis using run Tool_proposal eqs(5) same by (auto simp: project_body_def)
  next
    case (Tool_result p r t)
    then show ?thesis using run eqs(5) fields(5) same by (auto simp: project_body_def split: if_splits option.splits)
  qed (use run eqs fields same same_settled [OF same placed] in
      \<open>auto simp: project_body_def update_interaction_def split: if_splits option.splits\<close>)
qed

lemma project_same:
  assumes same: "same_durable v w" and placed: "placed v" "placed w" and run: "project_event e ev v = Inr v'"
  shows "\<exists>w'. project_event e ev w = Inr w' \<and> same_durable v' w'"
  using run
proof (cases rule: project_event_cases)
  case lost
  then show ?thesis
    using same_fields(7) [OF same_fields(8) [OF same, of Recovery_required], of Resync] by (simp add: project_event_simps(1))
next
  case retired
  then show ?thesis using same_fields(8) [OF same] by (simp add: project_event_simps(2))
next
  case ignored
  then show ?thesis using same by (simp add: project_event_simps(3))
next
  case (accepted c cmd)
  let ?f = "\<lambda>v. set_command_view c (new_command cmd) v"
  have put: "same_durable (?f v) (?f w)" using same_fields(1) [OF same] same_eqs(1) [OF same] by simp
  moreover have "same_durable (order_item Item_prompt c (2 * n) (?f v)) (order_item Item_prompt c (2 * n) (?f w))" for n
    using placed by (intro same_order put) (simp_all add: placed_distinct)
  ultimately show ?thesis
    using accepted same_eqs(1) [OF same]
    by (auto simp: project_event_simps(4) project_accepted_def Let_def split: if_splits)
next
  case (known c row)
  obtain w' where "project_body e ev c row w = Inr w'" "same_durable v' w'"
    using body_same [OF same placed known(4)] by blast
  moreover have "project_event e ev w = project_known e ev c w"
    by (rule project_event_known [OF known(2,5,1)])
  ultimately show ?thesis using known(3) same_eqs(1) [OF same] by (simp add: project_known_def)
qed

section \<open>Updates without the streamed text\<close>

fun is_delta :: "subscription \<Rightarrow> bool" where
  "is_delta (Live_delta g c m t) = True"
| "is_delta _ = False"

lemma apply_event_same:
  assumes same: "same_durable v w" and placed: "placed v" "placed w" and run: "apply_event e ev v = Inr v'"
  shows "\<exists>w'. apply_event e ev w = Inr w' \<and> same_durable v' w' \<and> placed v' \<and> placed w'"
proof -
  note eqs = same_eqs [OF same]
  consider (old) "v' = v" "sequence ev \<le> cl_cursor v" | (gap) "v' = v\<lparr>cl_connection := Resync\<rparr>" "\<not> sequence ev \<le> cl_cursor v" "sequence ev \<noteq> cl_cursor v + 1"
    | (fresh) x where "project_event e ev v = Inr x" "v' = x\<lparr>cl_cursor := sequence ev\<rparr>" "sequence ev = cl_cursor v + 1"
    using run unfolding apply_event_def by (cases "project_event e ev v") (simp_all split: if_splits)
  then show ?thesis
  proof cases
    case old
    then show ?thesis using run same placed eqs unfolding apply_event_def by (simp split: if_splits)
  next
    case gap
    then have "apply_event e ev w = Inr (w\<lparr>cl_connection := Resync\<rparr>)"
      using run eqs unfolding apply_event_def by (simp split: if_splits)
    then show ?thesis using gap(1) same_fields(7) [OF same] placed by simp
  next
    case (fresh x)
    obtain y where y: "project_event e ev w = Inr y" "same_durable x y" using project_same [OF same placed fresh(1)] by blast
    have "apply_event e ev w = Inr (y\<lparr>cl_cursor := sequence ev\<rparr>)"
      using run eqs y(1) fresh(3) unfolding apply_event_def by (simp split: if_splits)
    then show ?thesis
      using fresh(2) same_fields(6) [OF y(2)] project_placed [OF placed(1) fresh(1)] project_placed [OF placed(2) y(1)] by simp
  qed
qed

text \<open>A delta either leaves the durable part or asks for a resynchronisation.\<close>

lemma delta_same:
  assumes "placed v" "cl_connection v \<noteq> Resync" "cl_connection (apply_delta gen c m t v) \<noteq> Resync"
  shows "same_durable (apply_delta gen c m t v) v \<and> placed (apply_delta gen c m t v)"
proof (cases rule: apply_delta_cases [of gen c m t v])
  case (streamed tx)
  let ?k = "messageKey c m" and ?x = "\<lparr>mv_commandId = c, mv_text = tx, mv_stable = False\<rparr>"
  let ?v = "(order_item Item_message ?k (2 * cl_cursor v + 1) v)\<lparr>cl_messages := jm_set (cl_messages v) ?k ?x\<rparr>"
  have none: "stable_text v ?k = None" using streamed(3) by (auto simp: stable_text_def split: option.split)
  have st: "stable_text ?v j = stable_text v j" for j
    using none stable_set [of v ?k ?x j] stable_cong [of ?v "v\<lparr>cl_messages := jm_set (cl_messages v) ?k ?x\<rparr>" j] by simp
  have du: "durable_items (cl_timeline ?v) = durable_items (cl_timeline v)"
    using durable_order [of Item_message ?k "2 * cl_cursor v + 1" v] durable_place_odd [of "2 * cl_cursor v + 1"] by simp
  have "distinct (map item_id (cl_timeline ?v))"
    using order_distinct [OF placed_distinct [OF assms(1)], of Item_message ?k "2 * cl_cursor v + 1"] by simp
  moreover have "jm_wf (cl_messages ?v)" using assms(1) by (simp add: placed_def)
  ultimately have "placed ?v" using assms(1) unfolding placed_def du st by blast
  moreover have "same_durable ?v v" unfolding same_durable_def du st by simp
  ultimately show ?thesis by (simp add: streamed(6))
qed (use assms in simp_all)

lemma update_frozen: "cl_connection v = Resync \<Longrightarrow> cl_connection (client_update e item v) = Resync"
  by (cases item) (simp_all add: client_update_def applyUpdate_def)

lemma updates_frozen: "cl_connection v = Resync \<Longrightarrow> cl_connection (fold (client_update e) items v) = Resync"
  by (induction items arbitrary: v) (simp_all add: update_frozen)

lemma update_same:
  assumes same: "same_durable v w" and placed: "placed v" "placed w" and item: "\<not> is_delta item"
    and ok: "cl_connection (client_update e item v) \<noteq> Resync"
  shows "same_durable (client_update e item v) (client_update e item w) \<and>
    placed (client_update e item v) \<and> placed (client_update e item w)"
proof (cases item)
  case (Live_event ev)
  have c: "cl_connection v \<noteq> Resync" "cl_connection w \<noteq> Resync"
    using ok update_frozen same_eqs(7) [OF same] by auto
  then obtain v' where v': "apply_event e ev v = Inr v'"
    using ok Live_event by (cases "apply_event e ev v") (simp_all add: client_update_def applyUpdate_def)
  from apply_event_same [OF same placed v'] show ?thesis
    using v' c Live_event by (auto simp: client_update_def applyUpdate_def)
next
  case (Live_delta g c m t)
  then show ?thesis using item by simp
next
  case Live_resync
  then show ?thesis using ok by (simp add: client_update_def applyUpdate_def)
qed

lemma updates_same:
  assumes "same_durable v w" "placed v" "placed w" "cl_connection (fold (client_update e) items v) \<noteq> Resync"
  shows "same_durable (fold (client_update e) items v) (fold (client_update e) (filter (\<lambda>i. \<not> is_delta i) items) w)"
  using assms
proof (induction items arbitrary: v w)
  case (Cons item items)
  have ok: "cl_connection (client_update e item v) \<noteq> Resync" using Cons.prems(4) updates_frozen by auto
  show ?case
  proof (cases "is_delta item")
    case True
    then obtain g c m t where item: "item = Live_delta g c m t" by (cases item) auto
    have v: "cl_connection v \<noteq> Resync" using ok update_frozen by blast
    then have step: "client_update e item v = apply_delta g c m t v" by (simp add: item client_update_def applyUpdate_def)
    have d: "same_durable (apply_delta g c m t v) v" "placed (apply_delta g c m t v)"
      using delta_same [OF Cons.prems(2) v] ok unfolding step by blast+
    have "same_durable (apply_delta g c m t v) w"
      using d(1) Cons.prems(1) unfolding same_durable_def by simp
    from Cons.IH [OF this d(2) Cons.prems(3)] show ?thesis using Cons.prems(4) True by (simp add: step)
  next
    case False
    from update_same [OF Cons.prems(1-3) False ok] Cons.IH Cons.prems(4) False show ?thesis by simp
  qed
qed simp

end
