(* ===== verification/Client_Restore.thy ===== *)
theory Client_Restore
  imports Client_Stream
begin

text \<open>
  Restoring over pages: whatever the page boundaries, a client that receives the pages of one
  snapshot in order accepts them all and ends with the view the whole snapshot determines.
\<close>

section \<open>The view of a whole snapshot\<close>

definition snapshot_records :: "workspace \<Rightarrow> snapshot_record list" where
  "snapshot_records w = map Snap_event (ws_events w) @ map Snap_command (jm_values (ws_commands w)) @
     map Snap_interaction (jm_values (ws_interactions w)) @ map Snap_surface (jm_values (ws_surfaces w))"

definition restore_all ::
  "env \<Rightarrow> session_status \<Rightarrow> event list \<Rightarrow> command_record list \<Rightarrow> interaction list \<Rightarrow> surface_state list \<Rightarrow> session_view
     \<Rightarrow> client_error + session_view" where
  "restore_all e st evs cs is ss view = and_then (loop_exit (project_event e) evs view) (\<lambda>v.
     loop_exit (restore_surface e) ss (fold restore_interaction is (fold restore_command cs (v\<lparr>cl_sessionStatus := st\<rparr>))))"

text \<open>The view a client should have of a workspace.\<close>

definition workspace_view :: "env \<Rightarrow> workspace \<Rightarrow> client_error + session_view" where
  "workspace_view e w = and_then (emptyView (ws_session w) (lastSequence (ws_session w))) (\<lambda>view.
     and_then (restore_all e (status (ws_session w)) (ws_events w) (jm_values (ws_commands w))
        (jm_values (ws_interactions w)) (jm_values (ws_surfaces w)) view) (\<lambda>v. Inr (v\<lparr>cl_connection := Attached\<rparr>)))"

section \<open>Rows set independent fields\<close>

definition with_rows ::
  "(id, command_view) jsmap \<Rightarrow> (id, interaction_view) jsmap \<Rightarrow> (id, surface_state) jsmap \<Rightarrow> session_view \<Rightarrow> session_view" where
  "with_rows a b c view = view\<lparr>cl_commands := a, cl_interactions := b, cl_surfaces := c\<rparr>"

lemma row_steps:
  "restore_command r (with_rows a b c view) = with_rows (command_row r a) b c view"
  "restore_interaction i (with_rows a b c view) = with_rows a (jm_set b (interactionId i) (projectInteraction i)) c view"
  by (simp_all add: restore_command_def restore_interaction_def with_rows_def)

lemma fold_commands:
  "fold restore_command cs (with_rows a b c view) = with_rows (fold command_row cs a) b c view"
  by (induction cs arbitrary: a) (simp_all add: row_steps)

abbreviation interaction_row :: "interaction \<Rightarrow> (id, interaction_view) jsmap \<Rightarrow> (id, interaction_view) jsmap" where
  "interaction_row row m \<equiv> jm_set m (interactionId row) (projectInteraction row)"

lemma fold_interaction_rows:
  "fold restore_interaction is (with_rows a b c view) = with_rows a (fold interaction_row is b) c view"
  by (induction "is" arbitrary: b) (simp_all add: row_steps)

lemma loop_surfaces:
  "loop_exit (restore_surface e) ss (with_rows a b c view) =
    and_then (loop_exit (surface_row e) ss c) (\<lambda>c'. Inr (with_rows a b c' view))"
proof (induction ss arbitrary: c)
  case (Cons s ss)
  have "restore_surface e s (with_rows a b c view) = and_then (surface_row e s c) (\<lambda>m. Inr (with_rows a b m view))"
    by (simp add: restore_surface_def with_rows_def)
  then show ?case using Cons by (cases "surface_row e s c") simp_all
qed simp

lemma restore_rows_set:
  "restore_rows e page (with_rows a b c view) = and_then (loop_exit (surface_row e) (sn_surfaces page) c) (\<lambda>c'.
     Inr (with_rows (fold command_row (sn_commands page) a) (fold interaction_row (sn_interactions page) b) c' view))"
  by (simp add: restore_rows_def fold_commands fold_interaction_rows loop_surfaces)

lemma restore_pages_set:
  "loop_exit (restore_rows e) pages (with_rows a b c view) =
     and_then (loop_exit (surface_row e) (concat (map sn_surfaces pages)) c) (\<lambda>c'.
       Inr (with_rows (fold command_row (concat (map sn_commands pages)) a)
         (fold interaction_row (concat (map sn_interactions pages)) b) c' view))"
proof (induction pages arbitrary: a b c)
  case (Cons page pages)
  show ?case
    by (cases "loop_exit (surface_row e) (sn_surfaces page) c")
      (simp_all add: restore_rows_set Cons loop_exit_append)
qed simp

lemma loop_pages:
  "loop_exit (\<lambda>page. loop_exit (project_event e) (sn_events page)) pages view =
     loop_exit (project_event e) (concat (map sn_events pages)) view"
proof (induction pages arbitrary: view)
  case (Cons page pages)
  show ?case by (cases "loop_exit (project_event e) (sn_events page) view") (simp_all add: Cons loop_exit_append)
qed simp

text \<open>Page boundaries do not matter.\<close>

lemma restore_pages_all:
  assumes "pages \<noteq> []" "status (sn_session (hd pages)) = st"
  shows "restoreSnapshot e pages view = restore_all e st (concat (map sn_events pages)) (concat (map sn_commands pages))
    (concat (map sn_interactions pages)) (concat (map sn_surfaces pages)) view"
proof (cases "loop_exit (project_event e) (concat (map sn_events pages)) view")
  case (Inl x)
  then show ?thesis by (simp add: restoreSnapshot_def restore_all_def loop_pages)
next
  case (Inr v)
  let ?v = "v\<lparr>cl_sessionStatus := st\<rparr>"
  have head: "(case pages of [] \<Rightarrow> v | page # _ \<Rightarrow> v\<lparr>cl_sessionStatus := status (sn_session page)\<rparr>) = ?v"
    using assms by (cases pages) auto
  have self: "with_rows (cl_commands ?v) (cl_interactions ?v) (cl_surfaces ?v) ?v = ?v"
    by (simp add: with_rows_def)
  from head have "restoreSnapshot e pages view = loop_exit (restore_rows e) pages
      (with_rows (cl_commands ?v) (cl_interactions ?v) (cl_surfaces ?v) ?v)"
    unfolding self by (simp add: restoreSnapshot_def loop_pages Inr)
  moreover have "restore_all e st (concat (map sn_events pages)) (concat (map sn_commands pages))
      (concat (map sn_interactions pages)) (concat (map sn_surfaces pages)) view =
    loop_exit (restore_surface e) (concat (map sn_surfaces pages)) (fold restore_interaction (concat (map sn_interactions pages))
      (fold restore_command (concat (map sn_commands pages))
        (with_rows (cl_commands ?v) (cl_interactions ?v) (cl_surfaces ?v) ?v)))"
    unfolding self by (simp add: restore_all_def Inr)
  ultimately show ?thesis
    by (simp only: restore_pages_set fold_commands fold_interaction_rows loop_surfaces)
qed

section \<open>What the restored view shows\<close>

text \<open>A row of the snapshot appears under its identifier with the state and fields the record has.\<close>

definition shows_record :: "command_view \<Rightarrow> command_record \<Rightarrow> bool" where
  "shows_record v c \<longleftrightarrow> cv_command v = cr_command c \<and> cv_state v = state_of c \<and>
     (\<forall>d. dispatch c = Some d \<longrightarrow> cv_dispatch v = Some d) \<and>
     (\<forall>r. state_outcome (cr_state c) = Some r \<longrightarrow> cv_outcome v = Some r) \<and>
     (\<forall>f. state_failure (cr_state c) = Some f \<longrightarrow> cv_failure v = Some f) \<and>
     (\<forall>a. state_ack (cr_state c) = Some a \<longrightarrow> cv_acknowledgement v = Some a)"

lemma command_row_get:
  "jm_get (command_row c m) k = (if k = record_id c then Some ((case jm_get m k of Some row \<Rightarrow> row | None \<Rightarrow> new_command (cr_command c))
     \<lparr>cv_command := cr_command c, cv_state := state_of c,
       cv_dispatch := or_else (dispatch c) (cv_dispatch (case jm_get m k of Some row \<Rightarrow> row | None \<Rightarrow> new_command (cr_command c))),
       cv_outcome := or_else (state_outcome (cr_state c)) (cv_outcome (case jm_get m k of Some row \<Rightarrow> row | None \<Rightarrow> new_command (cr_command c))),
       cv_failure := or_else (state_failure (cr_state c)) (cv_failure (case jm_get m k of Some row \<Rightarrow> row | None \<Rightarrow> new_command (cr_command c))),
       cv_acknowledgement := or_else (state_ack (cr_state c)) (cv_acknowledgement (case jm_get m k of Some row \<Rightarrow> row | None \<Rightarrow> new_command (cr_command c))),
       cv_cancelledBy := or_else (nonempty_member (state_cancelledBy (cr_state c))) (cv_cancelledBy (case jm_get m k of Some row \<Rightarrow> row | None \<Rightarrow> new_command (cr_command c)))\<rparr>)
     else jm_get m k)"
  by (simp add: command_row_def Let_def)

lemma command_row_shows: "\<exists>v. jm_get (command_row c m) (record_id c) = Some v \<and> shows_record v c"
  unfolding command_row_get by (simp add: shows_record_def or_else_def)

lemma command_row_other: "k \<noteq> record_id c \<Longrightarrow> jm_get (command_row c m) k = jm_get m k"
  by (simp add: command_row_get)

lemma fold_command_shows:
  assumes "distinct (map record_id cs)" "c \<in> set cs"
  shows "\<exists>v. jm_get (fold command_row cs m) (record_id c) = Some v \<and> shows_record v c"
  using assms
proof (induction cs arbitrary: m)
  case (Cons d cs)
  show ?case
  proof (cases "c = d")
    case True
    have "jm_get (fold command_row cs m') k = jm_get m' k" if "k \<notin> set (map record_id cs)" for k m'
      using that by (induction cs arbitrary: m') (simp_all add: command_row_other)
    then show ?thesis using True Cons.prems(1) command_row_shows by simp
  next
    case False
    then show ?thesis using Cons by simp
  qed
qed simp

lemma fold_interaction_shows:
  assumes "distinct (map interactionId is)" "i \<in> set is"
  shows "jm_get (fold interaction_row is m) (interactionId i) = Some (projectInteraction i)"
  using assms
proof (induction "is" arbitrary: m)
  case (Cons d "is")
  show ?case
  proof (cases "i = d")
    case True
    have "jm_get (fold interaction_row is m') k = jm_get m' k" if "k \<notin> set (map interactionId is)" for k m'
      using that by (induction "is" arbitrary: m') simp_all
    then show ?thesis using True Cons.prems(1) by simp
  next
    case False
    then show ?thesis using Cons by simp
  qed
qed simp

lemma client_surface_Inr: "client_surface e s = Inr t \<Longrightarrow> t = s"
  by (auto simp: client_surface_def split: sum.splits dest: validateSurface_Inr)

lemma surface_row_Inr:
  "surface_row e d m = Inr m' \<Longrightarrow> client_surface e d = Inr d \<and> m' = jm_set m (surfaceInstanceId d) d"
  using client_surface_Inr [of e d] by (cases "client_surface e d") (auto simp: surface_row_def)

lemma loop_surface_other:
  "loop_exit (surface_row e) ss m = Inr m' \<Longrightarrow> k \<notin> set (map surfaceInstanceId ss) \<Longrightarrow> jm_get m' k = jm_get m k"
proof (induction ss arbitrary: m)
  case (Cons d ss)
  obtain n where n: "surface_row e d m = Inr n" "loop_exit (surface_row e) ss n = Inr m'"
    using Cons.prems(1) by (auto split: sum.splits)
  then show ?case using Cons.IH [OF n(2)] Cons.prems(2) surface_row_Inr [OF n(1)] by simp
qed simp

lemma loop_surface_shows:
  "loop_exit (surface_row e) ss m = Inr m' \<Longrightarrow> distinct (map surfaceInstanceId ss) \<Longrightarrow> s \<in> set ss \<Longrightarrow>
   jm_get m' (surfaceInstanceId s) = Some s"
proof (induction ss arbitrary: m)
  case (Cons d ss)
  obtain n where n: "surface_row e d m = Inr n" "loop_exit (surface_row e) ss n = Inr m'"
    using Cons.prems(1) by (auto split: sum.splits)
  show ?case
  proof (cases "s = d")
    case True
    then show ?thesis
      using loop_surface_other [OF n(2), of "surfaceInstanceId d"] surface_row_Inr [OF n(1)] Cons.prems(2) by simp
  next
    case False
    then show ?thesis using Cons.IH [OF n(2)] Cons.prems(2,3) by simp
  qed
qed simp

section \<open>What projecting leaves alone\<close>

definition view_identity :: "session_view \<Rightarrow> namespace \<times> id \<times> counter \<times> id option \<times> capabilities" where
  "view_identity v = (cl_namespace v, cl_generation v, cl_cursor v, cl_stageId v, cl_capabilities v)"

lemma identity_cong [simp]:
  "view_identity (v\<lparr>cl_commands := a\<rparr>) = view_identity v" "view_identity (v\<lparr>cl_interactions := b\<rparr>) = view_identity v"
  "view_identity (v\<lparr>cl_surfaces := c\<rparr>) = view_identity v" "view_identity (v\<lparr>cl_deliveries := d\<rparr>) = view_identity v"
  "view_identity (v\<lparr>cl_tools := f\<rparr>) = view_identity v" "view_identity (v\<lparr>cl_messages := g\<rparr>) = view_identity v"
  "view_identity (v\<lparr>cl_timeline := h\<rparr>) = view_identity v" "view_identity (v\<lparr>cl_connection := i\<rparr>) = view_identity v"
  "view_identity (v\<lparr>cl_sessionStatus := j\<rparr>) = view_identity v"
  by (simp_all add: view_identity_def)

lemma order_identity [simp]: "view_identity (order_item k x p v) = view_identity v"
  by (simp add: order_item_def)

lemma settled_identity [simp]: "view_identity (project_settled c row bd v) = view_identity v"
  by (simp add: project_settled_def drop_transient_def Let_def)

lemma surface_keeps_identity: "project_surface e pos raw v = Inr v' \<Longrightarrow> view_identity v' = view_identity v"
  by (auto simp: project_surface_def Let_def withdraw_pending_def split: if_splits option.splits)

lemma body_identity:
  assumes "project_body e ev c row v = Inr v'"
  shows "view_identity v' = view_identity v"
proof (cases "body ev")
  case (Interaction_opened i r x l)
  then show ?thesis using assms by (auto simp: project_body_def open_interaction_def split: option.splits if_splits)
next
  case (Surface_changed s)
  then show ?thesis using assms by (simp add: project_body_def surface_keeps_identity)
next
  case (Delivery_recorded i t h r)
  then show ?thesis using assms by (auto simp: project_body_def split: option.splits)
next
  case (Tool_result p d t)
  then show ?thesis using assms by (auto simp: project_body_def split: if_splits option.splits)
qed (use assms in \<open>auto simp: project_body_def update_interaction_def split: option.splits\<close>)

lemma project_identity:
  assumes "project_event e ev v = Inr v'"
  shows "view_identity v' = view_identity v"
  using assms
proof (cases rule: project_event_cases)
  case (accepted c cmd)
  then show ?thesis by (auto simp: project_accepted_def Let_def split: if_splits)
next
  case (known c row)
  show ?thesis by (rule body_identity [OF known(4)])
qed simp_all

lemma events_identity: "loop_exit (project_event e) evs v = Inr v' \<Longrightarrow> view_identity v' = view_identity v"
proof (induction evs arbitrary: v)
  case (Cons ev evs)
  then obtain u where "project_event e ev v = Inr u" "loop_exit (project_event e) evs u = Inr v'"
    by (auto split: sum.splits)
  then show ?case using Cons.IH project_identity by metis
qed simp

lemma restore_all_result:
  assumes "restore_all e st evs cs is ss view = Inr view'"
  obtains v m where "loop_exit (project_event e) evs view = Inr v" "loop_exit (surface_row e) ss (cl_surfaces v) = Inr m"
    "view' = with_rows (fold command_row cs (cl_commands v)) (fold interaction_row is (cl_interactions v)) m (v\<lparr>cl_sessionStatus := st\<rparr>)"
proof -
  obtain v where v: "loop_exit (project_event e) evs view = Inr v"
    and rest: "loop_exit (restore_surface e) ss (fold restore_interaction is (fold restore_command cs (v\<lparr>cl_sessionStatus := st\<rparr>))) = Inr view'"
    using assms by (auto simp: restore_all_def)
  have self: "with_rows (cl_commands v) (cl_interactions v) (cl_surfaces v) (v\<lparr>cl_sessionStatus := st\<rparr>) = v\<lparr>cl_sessionStatus := st\<rparr>"
    by (simp add: with_rows_def)
  have "loop_exit (restore_surface e) ss (fold restore_interaction is (fold restore_command cs
      (with_rows (cl_commands v) (cl_interactions v) (cl_surfaces v) (v\<lparr>cl_sessionStatus := st\<rparr>)))) = Inr view'"
    using rest by (simp only: self)
  then obtain m where "loop_exit (surface_row e) ss (cl_surfaces v) = Inr m"
    "view' = with_rows (fold command_row cs (cl_commands v)) (fold interaction_row is (cl_interactions v)) m (v\<lparr>cl_sessionStatus := st\<rparr>)"
    unfolding fold_commands fold_interaction_rows loop_surfaces and_then_Inr sum.inject by blast
  with v show ?thesis by (rule that)
qed

text \<open>The restored view of a workspace.\<close>

definition mirrors :: "session_view \<Rightarrow> workspace \<Rightarrow> bool" where
  "mirrors view w \<longleftrightarrow> cl_namespace view = ss_namespace (ws_session w) \<and> cl_cursor view = lastSequence (ws_session w) \<and>
     cl_sessionStatus view = status (ws_session w) \<and> cl_connection view = Attached \<and>
     (\<forall>c \<in> set (jm_values (ws_commands w)). \<exists>v. jm_get (cl_commands view) (record_id c) = Some v \<and> shows_record v c) \<and>
     (\<forall>i \<in> set (jm_values (ws_interactions w)). jm_get (cl_interactions view) (interactionId i) = Some (projectInteraction i)) \<and>
     (\<forall>s \<in> set (jm_values (ws_surfaces w)). jm_get (cl_surfaces view) (surfaceInstanceId s) = Some s)"

definition distinct_rows :: "workspace \<Rightarrow> bool" where
  "distinct_rows w \<longleftrightarrow> distinct (map record_id (jm_values (ws_commands w))) \<and>
     distinct (map interactionId (jm_values (ws_interactions w))) \<and>
     distinct (map surfaceInstanceId (jm_values (ws_surfaces w)))"

lemma workspace_view_mirrors:
  assumes "workspace_view e w = Inr view" "distinct_rows w"
  shows "mirrors view w \<and> view_inv view"
proof -
  obtain v0 where v0: "emptyView (ws_session w) (lastSequence (ws_session w)) = Inr v0"
    using assms(1) by (cases "emptyView (ws_session w) (lastSequence (ws_session w))") (simp_all add: workspace_view_def)
  obtain v1 where all: "restore_all e (status (ws_session w)) (ws_events w) (jm_values (ws_commands w))
      (jm_values (ws_interactions w)) (jm_values (ws_surfaces w)) v0 = Inr v1"
    using assms(1) v0 by (cases "restore_all e (status (ws_session w)) (ws_events w) (jm_values (ws_commands w))
      (jm_values (ws_interactions w)) (jm_values (ws_surfaces w)) v0") (simp_all add: workspace_view_def)
  have view: "view = v1\<lparr>cl_connection := Attached\<rparr>"
    using assms(1) unfolding workspace_view_def v0 all and_then_simps sum.inject by (rule sym)
  have id0: "cl_namespace v0 = ss_namespace (ws_session w)" "cl_cursor v0 = lastSequence (ws_session w)"
    using v0 by (auto simp: emptyView_def Let_def split: if_splits sum.splits)
  from all obtain v m where v: "loop_exit (project_event e) (ws_events w) v0 = Inr v"
    and m: "loop_exit (surface_row e) (jm_values (ws_surfaces w)) (cl_surfaces v) = Inr m"
    and v1: "v1 = with_rows (fold command_row (jm_values (ws_commands w)) (cl_commands v))
      (fold interaction_row (jm_values (ws_interactions w)) (cl_interactions v)) m (v\<lparr>cl_sessionStatus := status (ws_session w)\<rparr>)"
    by (rule restore_all_result)
  have "cl_namespace v = ss_namespace (ws_session w)" "cl_cursor v = lastSequence (ws_session w)"
    using events_identity [OF v] id0 by (simp_all add: view_identity_def)
  then have "mirrors view w"
    using assms(2) fold_command_shows [of "jm_values (ws_commands w)"] fold_interaction_shows [of "jm_values (ws_interactions w)"]
      loop_surface_shows [OF m]
    by (simp add: mirrors_def view v1 with_rows_def distinct_rows_def)
  moreover have "view_inv view"
  proof -
    have "view_inv v \<and> transient v = []" using events_inv [OF v] empty_view_inv [OF v0] by blast
    moreover have "transient view = transient v" by (rule transient_cong) (simp add: view v1 with_rows_def)
    ultimately show ?thesis
      by (simp add: view_inv_def view v1 with_rows_def text_bytes_def jm_values_def accessLimits_def)
  qed
  ultimately show ?thesis by blast
qed

section \<open>Receiving the pages\<close>

text \<open>A snapshot whose rows pass the client's own checks.\<close>

definition acceptable :: "env \<Rightarrow> id \<Rightarrow> workspace \<Rightarrow> bool" where
  "acceptable e sessionId w \<longleftrightarrow> (let s = ws_session w; n = ss_namespace s in
     schema_session s \<and> context_session s \<and> ns_sessionId n = sessionId \<and>
     lastSequence s = int (length (ws_events w)) \<and>
     (\<forall>j < length (ws_events w). sequence (ws_events w ! j) = int j + 1) \<and>
     list_all (\<lambda>ev. schema_event ev \<and> context_event ev \<and> ev_namespace ev = n) (ws_events w) \<and>
     list_all (\<lambda>c. schema_record c \<and> context_record (env_digest e) c \<and> rc_namespace (cr_receipt c) = n) (jm_values (ws_commands w)) \<and>
     list_all (\<lambda>i. schema_interaction i \<and> context_interaction i \<and> ia_namespace i = n) (jm_values (ws_interactions w)) \<and>
     list_all (\<lambda>x. schema_surface x \<and> sf_namespace x = n) (jm_values (ws_surfaces w)) \<and>
     (\<exists>view. emptyView s (lastSequence s) = Inr view) \<and> length (snapshot_records w) \<le> 4095)"

lemma snapshot_parts:
  "List.map_filter event_of (snapshot_records w) = ws_events w"
  "List.map_filter command_of (snapshot_records w) = jm_values (ws_commands w)"
  "List.map_filter interaction_of (snapshot_records w) = jm_values (ws_interactions w)"
  "List.map_filter surface_of (snapshot_records w) = jm_values (ws_surfaces w)"
  by (simp_all add: snapshot_records_def List.map_filter_def filter_map comp_def)

text \<open>Events numbered from one advance the cursor one by one.\<close>

lemma next_events:
  assumes "\<forall>j < length evs. sequence (evs ! j) = cur + int j + 1" "cur + int (length evs) \<le> sn_cursor page"
  shows "loop_exit (next_event page) evs cur = Inr (cur + int (length evs))"
  using assms
proof (induction evs arbitrary: cur)
  case (Cons ev evs)
  have "sequence ev = cur + 1" using Cons.prems(1) by force
  moreover have "\<forall>j < length evs. sequence (evs ! j) = (cur + 1) + int j + 1" using Cons.prems(1) by force
  ultimately show ?case using Cons.IH [of "cur + 1"] Cons.prems(2) by (simp add: next_event_def)
qed simp

text \<open>What the client has received when the records before \<open>offset\<close> are in.\<close>

definition received :: "workspace \<Rightarrow> id \<Rightarrow> nat \<Rightarrow> nat \<Rightarrow> restoring \<Rightarrow> bool" where
  "received w i offset index r \<longleftrightarrow> (let s = ws_session w; rs = take offset (snapshot_records w) in
     length (rs_pages r) = index \<and>
     (\<forall>p \<in> set (rs_pages r). sn_snapshotId p = i \<and> sn_session p = s \<and> sn_cursor p = lastSequence s) \<and>
     concat (map sn_events (rs_pages r)) = List.map_filter event_of rs \<and>
     concat (map sn_commands (rs_pages r)) = List.map_filter command_of rs \<and>
     concat (map sn_interactions (rs_pages r)) = List.map_filter interaction_of rs \<and>
     concat (map sn_surfaces (rs_pages r)) = List.map_filter surface_of rs \<and>
     rs_eventCursor r = int (length (List.map_filter event_of rs)) \<and>
     (if rs_pages r = [] then rs_view r = None
      else \<exists>view. emptyView s (lastSequence s) = Inr view \<and> rs_view r = Some view))"

lemma take_more: "List.map_filter f (take (offset + k) rs) = List.map_filter f (take offset rs) @ List.map_filter f (take k (drop offset rs))"
  by (simp add: take_add map_filter_append)

lemma part_subset: "set (List.map_filter f (take k (drop offset rs))) \<subseteq> set (List.map_filter f rs)"
  by (auto simp: List.map_filter_def dest!: in_set_takeD in_set_dropD)

lemma list_all_subset: "list_all P ys \<Longrightarrow> set xs \<subseteq> set ys \<Longrightarrow> list_all P xs"
  by (auto simp: list_all_iff)

lemma accessLimits_legal: "checkLimits accessLimits = None"
  by (simp add: checkLimits_None accessLimits_def max_safe_def)

lemma page_parses:
  assumes acc: "acceptable e sid w" and uuid: "id_supply uuid n" and i: "i \<in> uuid ` {..<n}" and nxt: "nxt \<in> may_follow uuid n"
    and index: "index \<le> length (snapshot_records w)" and lim: "lim \<le> accessLimits"
    and page: "page = build_snapshot \<lparr>vp_id = i, vp_offset = offset, vp_index = index,
      vp_value = Snapshot_value (ws_session w) (snapshot_records w)\<rparr> (take k (drop offset (snapshot_records w))) nxt"
    and fits: "fits lim (json_of_snapshot_page page)"
  shows "parse_page e page = None"
proof -
  let ?rs = "snapshot_records w" and ?n = "ss_namespace (ws_session w)"
  have sub: "set (List.map_filter event_of (take k (drop offset ?rs))) \<subseteq> set (ws_events w)"
    "set (List.map_filter command_of (take k (drop offset ?rs))) \<subseteq> set (jm_values (ws_commands w))"
    "set (List.map_filter interaction_of (take k (drop offset ?rs))) \<subseteq> set (jm_values (ws_interactions w))"
    "set (List.map_filter surface_of (take k (drop offset ?rs))) \<subseteq> set (jm_values (ws_surfaces w))"
    using part_subset [of _ k offset ?rs] by (simp_all only: snapshot_parts [symmetric])
  have rows: "\<forall>ev \<in> set (ws_events w). schema_event ev \<and> context_event ev \<and> ev_namespace ev = ?n"
    "\<forall>c \<in> set (jm_values (ws_commands w)). schema_record c \<and> context_record (env_digest e) c \<and> rc_namespace (cr_receipt c) = ?n"
    "\<forall>i \<in> set (jm_values (ws_interactions w)). schema_interaction i \<and> context_interaction i \<and> ia_namespace i = ?n"
    "\<forall>x \<in> set (jm_values (ws_surfaces w)). schema_surface x \<and> sf_namespace x = ?n"
    and head: "schema_session (ws_session w)" "context_session (ws_session w)" "length ?rs \<le> 4095"
    using acc by (simp_all add: acceptable_def Let_def list_all_iff)
  have seqs: "\<forall>ev \<in> set (ws_events w). sequence ev \<le> lastSequence (ws_session w)"
    using acc by (auto simp: acceptable_def Let_def in_set_conv_nth)
  have ids: "isId i" "opt_ok isId nxt" using uuid i nxt by (auto simp: id_supply_def may_follow_def opt_ok_def)
  have counters: "isCounter (int index)" "isCounter (lastSequence (ws_session w))"
    using index head(1,3) by (simp_all add: isCounter_def max_safe_def schema_session_def)
  have "boundedJson accessLimits (json_of_snapshot_page page) = Inr (json_print (json_of_snapshot_page page))"
    using fits_mono [OF fits lim] accessLimits_legal by (simp add: boundedJson_Inr)
  moreover have "schema_snapshot_page page"
    using sub rows ids counters head(1)
    unfolding schema_snapshot_page_def page build_snapshot_def list_all_iff by (simp add: subset_iff)
  moreover have "context_snapshot_page (env_digest e) page"
    using sub rows seqs head(2)
    unfolding context_snapshot_page_def page build_snapshot_def list_all_iff Let_def by (simp add: subset_iff)
  ultimately show ?thesis by (simp add: parse_page_def)
qed

lemma received_events:
  assumes acc: "acceptable e sid w" and k: "offset + k \<le> length (snapshot_records w)"
    and cur: "cur = int (length (List.map_filter event_of (take offset (snapshot_records w))))"
    and page: "sn_cursor page = lastSequence (ws_session w)"
  shows "loop_exit (next_event page) (List.map_filter event_of (take k (drop offset (snapshot_records w)))) cur =
    Inr (int (length (List.map_filter event_of (take (offset + k) (snapshot_records w)))))"
proof -
  let ?rs = "snapshot_records w"
  let ?prev = "List.map_filter event_of (take offset ?rs)" and ?here = "List.map_filter event_of (take k (drop offset ?rs))"
  have "ws_events w = List.map_filter event_of (take (offset + k) ?rs) @ List.map_filter event_of (drop (offset + k) ?rs)"
    by (metis append_take_drop_id map_filter_append snapshot_parts(1))
  then have split: "ws_events w = ?prev @ ?here @ List.map_filter event_of (drop (offset + k) ?rs)"
    by (simp add: take_more)
  have seqs: "\<forall>j < length (ws_events w). sequence (ws_events w ! j) = int j + 1"
    and len: "lastSequence (ws_session w) = int (length (ws_events w))" using acc by (simp_all add: acceptable_def Let_def)
  have "\<forall>j < length ?here. sequence (?here ! j) = cur + int j + 1"
  proof (intro allI impI)
    fix j assume j: "j < length ?here"
    then have "?here ! j = ws_events w ! (length ?prev + j)" by (subst split) (simp add: nth_append)
    moreover have "length ?prev + j < length (ws_events w)" by (subst split) (use j in simp)
    ultimately show "sequence (?here ! j) = cur + int j + 1" using seqs cur by simp
  qed
  moreover have "cur + int (length ?here) \<le> sn_cursor page"
    by (subst page, subst len, subst split) (simp add: cur)
  ultimately show ?thesis using next_events [of ?here cur page] by (simp add: cur take_more)
qed

lemma receive_step:
  assumes acc: "acceptable e sid w" and uuid: "id_supply uuid n" and lim: "lim \<le> accessLimits"
    and rec: "received w i offset index r" and index: "index \<le> offset" and k: "offset + k \<le> length (snapshot_records w)"
    and i: "i \<in> uuid ` {..<n}" and nxt: "nxt \<in> may_follow uuid n"
    and page: "page = build_snapshot \<lparr>vp_id = i, vp_offset = offset, vp_index = index,
      vp_value = Snapshot_value (ws_session w) (snapshot_records w)\<rparr> (take k (drop offset (snapshot_records w))) nxt"
    and fits: "fits lim (json_of_snapshot_page page)"
  shows "\<exists>r'. receive_page e sid page r = Inr r' \<and> received w i (offset + k) (index + 1) r'"
proof -
  let ?s = "ws_session w" and ?rs = "snapshot_records w"
  have parse: "parse_page e page = None"
    using page_parses [OF acc uuid i nxt _ lim page fits] index k by simp
  have fields: "sn_snapshotId page = i" "sn_pageIndex page = int index" "sn_session page = ?s" "sn_cursor page = lastSequence ?s"
    "sn_events page = List.map_filter event_of (take k (drop offset ?rs))"
    "sn_commands page = List.map_filter command_of (take k (drop offset ?rs))"
    "sn_interactions page = List.map_filter interaction_of (take k (drop offset ?rs))"
    "sn_surfaces page = List.map_filter surface_of (take k (drop offset ?rs))"
    by (simp_all add: page build_snapshot_def)
  have "\<not> page_mismatch sid page (case rs_pages r of [] \<Rightarrow> page | p # _ \<Rightarrow> p) (length (rs_pages r))"
    using rec acc by (cases "rs_pages r") (simp_all add: page_mismatch_def received_def Let_def fields acceptable_def)
  moreover obtain view where view: "emptyView ?s (lastSequence ?s) = Inr view" using acc by (auto simp: acceptable_def Let_def)
  then have "(case rs_view r of Some v \<Rightarrow> Inr v | None \<Rightarrow> emptyView (sn_session page) (sn_cursor page)) = Inr view"
    using rec by (simp add: received_def Let_def fields split: if_splits)
  moreover have "loop_exit (next_event page) (sn_events page) (rs_eventCursor r) =
      Inr (int (length (List.map_filter event_of (take (offset + k) ?rs))))"
    unfolding fields(5) by (rule received_events [OF acc k _ fields(4)]) (use rec in \<open>simp add: received_def Let_def\<close>)
  ultimately have run: "receive_page e sid page r = Inr \<lparr>rs_pages = rs_pages r @ [page],
      rs_eventCursor = int (length (List.map_filter event_of (take (offset + k) ?rs))), rs_view = Some view\<rparr>"
    using parse by (simp add: receive_page_def)
  show ?thesis
    unfolding run using rec view by (simp add: received_def Let_def fields take_more)
qed

lemma receive_visits:
  assumes "acceptable e sid w" "id_supply uuid n" "lim \<le> accessLimits"
  shows "visits uuid n lim json_of_snapshot_page build_snapshot (snapshot_records w) (receive_page e sid) (received w)
    (Snapshot_value (ws_session w) (snapshot_records w))"
  unfolding visits_def using receive_step [OF assms] by blast

text \<open>Everything received, the client restores the view of the workspace.\<close>

lemma finish_received:
  assumes "acceptable e sid w" "received w i (length (snapshot_records w)) m r" "rs_pages r \<noteq> []"
  shows "finish_restore e r = workspace_view e w"
proof -
  obtain view where view: "emptyView (ws_session w) (lastSequence (ws_session w)) = Inr view" "rs_view r = Some view"
    using assms(2,3) by (auto simp: received_def Let_def)
  have "cl_cursor view = lastSequence (ws_session w)"
    using view(1) by (auto simp: emptyView_def Let_def split: if_splits sum.splits)
  moreover have "rs_eventCursor r = lastSequence (ws_session w)"
    using assms(1,2) by (simp add: received_def acceptable_def Let_def snapshot_parts)
  moreover have "hd (rs_pages r) \<in> set (rs_pages r)" using assms(3) by simp
  then have "sn_session (hd (rs_pages r)) = ws_session w" using assms(2) unfolding received_def Let_def by blast
  moreover have "concat (map sn_events (rs_pages r)) = ws_events w" "concat (map sn_commands (rs_pages r)) = jm_values (ws_commands w)"
    "concat (map sn_interactions (rs_pages r)) = jm_values (ws_interactions w)"
    "concat (map sn_surfaces (rs_pages r)) = jm_values (ws_surfaces w)"
    using assms(2) by (simp_all add: received_def Let_def snapshot_parts)
  ultimately show ?thesis
    unfolding workspace_view_def view(1)
    using restore_pages_all [OF assms(3), of "status (ws_session w)" e view] by (simp add: finish_restore_def view(2))
qed

end
