(* ===== verification/Store_Reads.thy ===== *)
theory Store_Reads
  imports Client_Restore Store_Steps
begin

text \<open>
  The paged reads of the durable store (\<^verbatim>\<open>SqliteSessionStore\<close>): snapshots and session lists
  through its \<^verbatim>\<open>ReadViews\<close>, which live beside the database for thirty seconds each, and the
  keyset pages of unsettled commands and due deliveries, whose cursor is the key of the last
  row in base64url. SQLite compares the keys bytewise, which on identifiers is the order of
  their characters.
\<close>

section \<open>The store with its views\<close>

record reading =
  rd_store :: store
  rd_views :: "view_value read_views"

text \<open>\<^verbatim>\<open>errorResult\<close> on what the contract raises; any other exception is an unknown failure.\<close>

fun store_thrown :: "exit \<Rightarrow> failure" where
  "store_thrown (Failed f) = f"
| "store_thrown (Contract_error d) = fail_with (if d = D_limit then Limit_exceeded else Invalid_input) Never"
| "store_thrown Surface_error = unavailable"
| "store_thrown Js_error = unavailable"

definition page_limits :: "bounds \<Rightarrow> limits" where
  "page_limits bd = Limits (min 262144 (maxQueryBytes bd)) (min 131072 (maxQueryBytes bd)) 32 16384"

definition view_ttl :: int where
  "view_ttl = 30000"

text \<open>A read of the views under \<^verbatim>\<open>#query\<close>, after a \<open>guard\<close> that may fail.\<close>

definition query_views ::
  "failure option \<Rightarrow> (view_value read_views \<Rightarrow> 'p result \<times> view_value read_views) \<Rightarrow> reading \<Rightarrow> 'p result \<times> reading" where
  "query_views guard act rd =
     (case query (rd_store rd) (case guard of None \<Rightarrow> Inr () | Some f \<Rightarrow> Inl f) of
        Inl f \<Rightarrow> (Inl f, rd)
      | Inr u \<Rightarrow> (case act (rd_views rd) of (r, vs) \<Rightarrow> (r, rd\<lparr>rd_views := vs\<rparr>)))"

section \<open>Snapshots\<close>

definition captured_snapshot :: "env \<Rightarrow> bounds \<Rightarrow> database \<Rightarrow> namespace \<Rightarrow> (session \<times> snapshot_record list) result" where
  "captured_snapshot e bd db n = and_then (full_state e bd db n) (\<lambda>w. Inr (ws_session w, snapshot_records w))"

definition store_snapshotPage ::
  "env \<Rightarrow> bounds \<Rightarrow> (nat \<Rightarrow> id) \<Rightarrow> int \<Rightarrow> namespace \<Rightarrow> page_query \<Rightarrow> reading \<Rightarrow> snapshot_page result \<times> reading" where
  "store_snapshotPage e bd uuid now n q rd = query_views
     (with_value (read_session e (st_db (rd_store rd)) n) (\<lambda>s. None))
     (readSnapshotPage uuid store_thrown view_ttl now (''snapshot:'' @ namespace_text n) q
       (captured_snapshot e bd (st_db (rd_store rd)) n) (page_limits bd)) rd"

section \<open>Session lists\<close>

definition caller_text :: "caller \<Rightarrow> string" where
  "caller_text ca = ''[\"'' @ ca_tenantId ca @ ''\",\"'' @ ca_principalId ca @ ''\",\"'' @ ca_authorityId ca @ ''\"]''"

text \<open>\<^verbatim>\<open>status IN ('active','recovery_required') ORDER BY session_id\<close>\<close>

definition listed_sessions :: "database \<Rightarrow> caller \<Rightarrow> session list" where
  "listed_sessions db ca = map snd (sort_key (\<lambda>(n, s). ns_sessionId n)
     (filter (\<lambda>(n, s). caller_of n = ca \<and> status s \<in> {Active, Recovery_required}) (db_sessions db)))"

definition decode_all :: "env \<Rightarrow> ('v \<Rightarrow> row) \<Rightarrow> 'v list \<Rightarrow> 'v list result" where
  "decode_all e as_row rows = (case first_exit (map (\<lambda>v. decode_row e (as_row v)) rows) of
     Some f \<Rightarrow> Inl f | None \<Rightarrow> Inr rows)"

definition list_item :: "env \<Rightarrow> bounds \<Rightarrow> database \<Rightarrow> caller \<Rightarrow> session \<Rightarrow> session_item result" where
  "list_item e bd db ca s = unless_exit (first_exit
       [decode_row e (Row_session s), fail_if (caller_of (ss_namespace s) \<noteq> ca) corrupt])
     (and_then (sized_rows bd Row_record (jm_values (scoped (ss_namespace s) (db_commands db)))) (\<lambda>rows.
      and_then (decode_all e Row_record rows) (\<lambda>commands. Inr (sessionListItem s commands))))"

definition captured_sessions :: "env \<Rightarrow> bounds \<Rightarrow> database \<Rightarrow> caller \<Rightarrow> session_item list result" where
  "captured_sessions e bd db ca = and_then (sized_rows bd Row_session (listed_sessions db ca)) (\<lambda>rows.
     loop_exit (\<lambda>s items. and_then (list_item e bd db ca s) (\<lambda>i. Inr (items @ [i]))) rows [])"

definition store_listSessions ::
  "env \<Rightarrow> bounds \<Rightarrow> (nat \<Rightarrow> id) \<Rightarrow> int \<Rightarrow> caller \<Rightarrow> page_query \<Rightarrow> reading \<Rightarrow> session_page result \<times> reading" where
  "store_listSessions e bd uuid now ca q rd = query_views
     (fail_if (\<not> valid_caller ca) scope_failure)
     (readSessionPage uuid store_thrown view_ttl now (''list:'' @ caller_text ca) q
       (captured_sessions e bd (st_db (rd_store rd)) ca) (page_limits bd)) rd"

section \<open>Other operations beside the views\<close>

text \<open>A successful close clears the views; a restarted process has none. Every other operation leaves them.\<close>

definition reading_close :: "int \<Rightarrow> bool \<Rightarrow> bool \<Rightarrow> unit result \<Rightarrow> reading \<Rightarrow> unit result \<times> reading" where
  "reading_close timeoutMs signalled aborted closes rd =
     (case store_close timeoutMs signalled aborted closes (rd_store rd) of (r, st') \<Rightarrow>
        (r, \<lparr>rd_store = st', rd_views = (if st_closed st' \<and> \<not> st_closed (rd_store rd) then clear_views (rd_views rd)
               else rd_views rd)\<rparr>))"

definition reading_open :: "env \<Rightarrow> bounds \<Rightarrow> database \<Rightarrow> reading result" where
  "reading_open e bd db = and_then (store_open e bd db) (\<lambda>st. Inr \<lparr>rd_store = st, rd_views = no_views\<rparr>)"

section \<open>Cursors\<close>

definition base64url :: string where
  "base64url = ''ABCDEFGHIJKLMNOPQRSTUVWXYZabcdefghijklmnopqrstuvwxyz0123456789-_''"

fun to_sextets :: "nat list \<Rightarrow> nat list" where
  "to_sextets [] = []"
| "to_sextets [a] = [a div 4, a mod 4 * 16]"
| "to_sextets [a, b] = [a div 4, a mod 4 * 16 + b div 16, b mod 16 * 4]"
| "to_sextets (a # b # c # bs) = [a div 4, a mod 4 * 16 + b div 16, b mod 16 * 4 + c div 64, c mod 64] @ to_sextets bs"

text \<open>Decoding drops the bits of an unfinished byte.\<close>

fun of_sextets :: "nat list \<Rightarrow> nat list" where
  "of_sextets (p # q # r # s # rest) =
     [p * 4 + q div 16, q mod 16 * 16 + r div 4, r mod 4 * 64 + s] @ of_sextets rest"
| "of_sextets [p, q, r] = [p * 4 + q div 16, q mod 16 * 16 + r div 4]"
| "of_sextets [p, q] = [p * 4 + q div 16]"
| "of_sextets _ = []"

definition encode_base64url :: "nat list \<Rightarrow> string" where
  "encode_base64url bs = map (\<lambda>k. base64url ! k) (to_sextets bs)"

primrec index_of :: "'a \<Rightarrow> 'a list \<Rightarrow> nat" where
  "index_of x [] = 0"
| "index_of x (y # ys) = (if x = y then 0 else Suc (index_of x ys))"

definition decode_base64url :: "string \<Rightarrow> nat list" where
  "decode_base64url s = of_sextets (map (\<lambda>c. index_of c base64url) s)"

text \<open>
  A cursor is the printed list of the five key columns; identifiers are ASCII, so its
  characters are its bytes. \<open>parse\<close> is \<^verbatim>\<open>JSON.parse\<close> of the decoded bytes, undefined where it throws.
\<close>

definition encode_cursor :: "id list \<Rightarrow> string" where
  "encode_cursor ks = encode_base64url (json_print (JArr (map jid ks)))"

fun id_of_json :: "json \<Rightarrow> id option" where
  "id_of_json (JStr u) = (if list_all (\<lambda>c. c < 128) u \<and> isId (map char_of u) then Some (map char_of u) else None)"
| "id_of_json _ = None"

fun key_of_json :: "json \<Rightarrow> id list option" where
  "key_of_json (JArr vs) = (if length vs = 5 \<and> list_all (\<lambda>v. id_of_json v \<noteq> None) vs
     then Some (map (\<lambda>v. the (id_of_json v)) vs) else None)"
| "key_of_json _ = None"

definition decode_cursor :: "(nat list \<Rightarrow> json option) \<Rightarrow> string \<Rightarrow> id list option" where
  "decode_cursor parse s =
     (if length s < 1 \<or> 2048 < length s \<or> \<not> set s \<subseteq> set base64url then None
      else case parse (decode_base64url s) of None \<Rightarrow> None | Some j \<Rightarrow> key_of_json j)"

section \<open>Keyset pages\<close>

record 'v keyset_page =
  kp_items :: "'v list"
  kp_next :: "string option"

definition row_key :: "namespace \<times> id \<Rightarrow> id list" where
  "row_key k = (case k of (n, i) \<Rightarrow> [tenantId n, principalId n, authorityId n, ns_sessionId n, i])"

definition keyset_rows :: "('v \<Rightarrow> bool) \<Rightarrow> 'v table \<Rightarrow> (id list \<times> 'v) list" where
  "keyset_rows P t = sort_key fst (map (\<lambda>(k, v). (row_key k, v)) (filter (\<lambda>(k, v). P v) t))"

definition after_key :: "id list option \<Rightarrow> (id list \<times> 'v) list \<Rightarrow> (id list \<times> 'v) list" where
  "after_key cursor rows = (case cursor of None \<Rightarrow> rows | Some k \<Rightarrow> filter (\<lambda>(j, v). k < j) rows)"

definition page_cursor :: "(nat list \<Rightarrow> json option) \<Rightarrow> string option \<Rightarrow> id list option result" where
  "page_cursor parse after = (case after of None \<Rightarrow> Inr None
   | Some s \<Rightarrow> (case decode_cursor parse s of None \<Rightarrow> Inl (fail_with Invalid_input Never) | Some k \<Rightarrow> Inr (Some k)))"

definition json_of_keyset_page :: "('v \<Rightarrow> row) \<Rightarrow> 'v keyset_page \<Rightarrow> json" where
  "json_of_keyset_page as_row p = obj ([(''items'', JArr (map (\<lambda>v. json_of_row (as_row v)) (kp_items p)))] @
     opt_member ''next'' jid (kp_next p))"

definition cut_page :: "nat \<Rightarrow> (id list \<times> 'v) list \<Rightarrow> 'v keyset_page" where
  "cut_page lim rows = \<lparr>kp_items = map snd (take lim rows),
     kp_next = (if lim < length rows then Some (encode_cursor (fst (rows ! (lim - 1)))) else None)\<rparr>"

definition keyset_page ::
  "env \<Rightarrow> bounds \<Rightarrow> (nat list \<Rightarrow> json option) \<Rightarrow> ('v \<Rightarrow> row) \<Rightarrow> ('v \<Rightarrow> bool) \<Rightarrow> 'v table \<Rightarrow> int \<Rightarrow> string option
     \<Rightarrow> 'v keyset_page result" where
  "keyset_page e bd parse as_row P t lim after =
     (if \<not> is_safe_integer lim \<or> lim < 1 \<or> 1024 < lim then Inl (fail_with Invalid_input Never)
      else and_then (page_cursor parse after) (\<lambda>cursor.
        let rows = take (nat lim + 1) (after_key cursor (keyset_rows P t)) in
        and_then (sized_rows bd as_row (map snd rows)) (\<lambda>_.
        and_then (decode_all e as_row (map snd (take (nat lim) rows))) (\<lambda>_.
          bounded_answer bd (json_of_keyset_page as_row (cut_page (nat lim) rows)) (cut_page (nat lim) rows)))))"

definition unsettled :: "command_record \<Rightarrow> bool" where
  "unsettled c \<longleftrightarrow> \<not> isSettled c"

definition due_by :: "counter \<Rightarrow> delivery \<Rightarrow> bool" where
  "due_by now d \<longleftrightarrow> dl_status d \<noteq> Delivered \<and> nextAttemptAtMs d \<le> now"

definition store_recovery ::
  "env \<Rightarrow> bounds \<Rightarrow> (nat list \<Rightarrow> json option) \<Rightarrow> int \<Rightarrow> string option \<Rightarrow> store \<Rightarrow> command_record keyset_page result" where
  "store_recovery e bd parse lim after st = query st
     (keyset_page e bd parse Row_record unsettled (db_commands (st_db st)) lim after)"

definition store_deliveries ::
  "env \<Rightarrow> bounds \<Rightarrow> (nat list \<Rightarrow> json option) \<Rightarrow> int \<Rightarrow> counter \<Rightarrow> string option \<Rightarrow> store \<Rightarrow> delivery keyset_page result" where
  "store_deliveries e bd parse lim now after st = query st
     (if \<not> isCounter now then Inl (fail_with Invalid_input Never)
      else keyset_page e bd parse Row_delivery (due_by now) (db_deliveries (st_db st)) lim after)"

end
