(* ===== verification/Store_Paging.thy ===== *)
theory Store_Paging
  imports Store_Reads
begin

text \<open>
  Reading the store through its views: every read is a run of the views' own steps, whatever is
  written in between; a stored snapshot passes the client's checks; and a client that restores
  over the store ends with the view of a workspace the store held.
\<close>

section \<open>A page request is a run of view steps\<close>

lemma read_retained:
  assumes "views_read uuid thrown as_json ttl now scope q captured vs = (Inr p, vs')"
  shows "\<exists>view. jm_get (vs_views vs') (vp_id p) = Some view"
  using assms
proof (cases rule: views_read_cases)
  case later
  then show ?thesis by (auto simp: continue_view_def split: option.splits if_splits)
next
  case initial
  from initial(4) show ?thesis by (cases rule: capture_cases) auto
qed simp

lemma page_run:
  assumes "id_supply uuid n" "views_inv uuid vs" "vs_drawn vs' \<le> n" "now \<le> until"
    "page_of uuid lim as_page build cast q (views_read uuid thrown as_json ttl now scope q captured vs) = (r, vs')"
  shows "(views_step uuid until)\<^sup>*\<^sup>* vs vs'"
proof -
  obtain x vs1 where x: "views_read uuid thrown as_json ttl now scope q captured vs = (x, vs1)" by (metis surj_pair)
  have read: "(views_step uuid until)\<^sup>*\<^sup>* vs vs1" using Step_read [OF x assms(4)] by blast
  have page: "page_of uuid lim as_page build cast q (x, vs1) = (r, vs')" using assms(5) x by simp
  have d: "vs_drawn vs1 \<le> n" using page_of_drawn [OF page] assms(3) by simp
  show ?thesis
  proof (cases "vs' = vs1")
    case False
    then obtain p rows where p: "x = Inr p" and off: "vp_offset p \<le> length rows"
      and fit: "fit_page uuid lim as_page (build p) rows (vp_id p) (vp_offset p) (vp_index p)
        (nat (min (pq_limit q) (int (length rows - vp_offset p)))) vs1 = (r, vs')"
      using page by (auto simp: page_of_def not_less split: sum.splits if_splits)
    obtain view where view: "jm_get (vs_views vs1) (vp_id p) = Some view" using read_retained x p by blast
    have "vp_offset p + nat (min (pq_limit q) (int (length rows - vp_offset p))) \<le> length rows" using off by linarith
    from fit_page_run [OF assms(1) read_inv [OF assms(1,2) x d] view assms(3) this fit, of until]
    show ?thesis using rtranclp_trans [OF read] by blast
  qed (use read in simp)
qed

section \<open>The reading store as a machine\<close>

text \<open>What happens to a running store while the clock stays at or before \<open>until\<close>.\<close>

inductive reading_step :: "(nat \<Rightarrow> id) \<Rightarrow> int \<Rightarrow> reading \<Rightarrow> reading \<Rightarrow> bool" for uuid until where
  Reading_write: "store_write (rd_store rd) st \<Longrightarrow> reading_step uuid until rd (rd\<lparr>rd_store := st\<rparr>)"
| Reading_snapshot: "store_snapshotPage e bd uuid now n q rd = (page, rd') \<Longrightarrow> now \<le> until \<Longrightarrow> reading_step uuid until rd rd'"
| Reading_sessions: "store_listSessions e bd uuid now ca q rd = (listing, rd') \<Longrightarrow> now \<le> until \<Longrightarrow> reading_step uuid until rd rd'"

lemma query_views_cases:
  assumes "query_views guard act rd = (r, rd')"
  obtains (refused) f where "r = Inl f" "rd' = rd"
    | (run) "guard = None" "act (rd_views rd) = (r, rd_views rd')" "rd_store rd' = rd_store rd" "rd' = rd\<lparr>rd_views := rd_views rd'\<rparr>"
proof -
  obtain x vs where x: "act (rd_views rd) = (x, vs)" by (metis surj_pair)
  show ?thesis
  proof (cases "query (rd_store rd) (case guard of None \<Rightarrow> Inr () | Some f \<Rightarrow> Inl f)")
    case (Inl f)
    then show ?thesis using assms by (intro refused [of f]) (simp_all add: query_views_def)
  next
    case (Inr u)
    then have r: "r = x" "rd' = rd\<lparr>rd_views := vs\<rparr>" using assms x by (simp_all add: query_views_def)
    moreover have "guard = None" using Inr by (cases guard) (simp_all add: query_def split: if_splits)
    ultimately show ?thesis using x by (intro run) simp_all
  qed
qed

lemma snapshot_run:
  assumes "store_snapshotPage e bd uuid now n q rd = (r, rd')"
  obtains (refused) f where "r = Inl f" "rd' = rd"
    | (run) s where "read_session e (st_db (rd_store rd)) n = Inr s" "rd_store rd' = rd_store rd"
      "page_of uuid (page_limits bd) json_of_snapshot_page build_snapshot (snapshot_rows store_thrown) q
         (views_read uuid store_thrown json_of_view_value view_ttl now (''snapshot:'' @ namespace_text n) q
           (and_then (captured_snapshot e bd (st_db (rd_store rd)) n) (\<lambda>(s, rs). Inr (Snapshot_value s rs))) (rd_views rd))
         = (r, rd_views rd')"
  using assms unfolding store_snapshotPage_def
proof (cases rule: query_views_cases)
  case run
  then obtain s where "read_session e (st_db (rd_store rd)) n = Inr s"
    by (auto simp: with_value_def split: sum.splits)
  then show ?thesis using run by (intro that(2)) (simp_all add: readSnapshotPage_def)
qed (rule that(1))

lemma listing_run:
  assumes "store_listSessions e bd uuid now ca q rd = (r, rd')"
  obtains (refused) f where "r = Inl f" "rd' = rd"
    | (run) "valid_caller ca" "rd_store rd' = rd_store rd"
      "page_of uuid (page_limits bd) json_of_session_page build_sessions (session_rows store_thrown) q
         (views_read uuid store_thrown json_of_view_value view_ttl now (''list:'' @ caller_text ca) q
           (and_then (captured_sessions e bd (st_db (rd_store rd)) ca) (\<lambda>items. Inr (Sessions_value (sort_key recent_order items))))
           (rd_views rd)) = (r, rd_views rd')"
  using assms unfolding store_listSessions_def
proof (cases rule: query_views_cases)
  case run
  then show ?thesis by (intro that(2)) (simp_all add: readSessionPage_def)
qed (rule that(1))

lemma reading_step_views:
  assumes "id_supply uuid n" "views_inv uuid (rd_views rd)" "vs_drawn (rd_views rd') \<le> n" "reading_step uuid until rd rd'"
  shows "(views_step uuid until)\<^sup>*\<^sup>* (rd_views rd) (rd_views rd')"
  using assms(4)
proof cases
  case (Reading_snapshot e bd now m q page)
  from Reading_snapshot(1) show ?thesis
    by (cases rule: snapshot_run) (simp_all add: page_run [OF assms(1-3) Reading_snapshot(2)])
next
  case (Reading_sessions e bd now ca q listing)
  from Reading_sessions(1) show ?thesis
    by (cases rule: listing_run) (simp_all add: page_run [OF assms(1-3) Reading_sessions(2)])
qed simp

lemma reading_step_drawn:
  assumes "reading_step uuid until rd rd'"
  shows "vs_drawn (rd_views rd) \<le> vs_drawn (rd_views rd')"
  using assms
proof cases
  case (Reading_snapshot e bd now m q page)
  from Reading_snapshot(1) show ?thesis by (cases rule: snapshot_run) (simp_all add: read_page_drawn)
next
  case (Reading_sessions e bd now ca q listing)
  from Reading_sessions(1) show ?thesis by (cases rule: listing_run) (simp_all add: read_page_drawn)
qed simp

text \<open>The invariant of the views holds whatever the store is asked, and issued continuations stay.\<close>

lemma reading_run_views:
  assumes "id_supply uuid n" "(reading_step uuid until)\<^sup>*\<^sup>* rd rd'" "views_inv uuid (rd_views rd)" "vs_drawn (rd_views rd') \<le> n"
  shows "(views_step uuid until)\<^sup>*\<^sup>* (rd_views rd) (rd_views rd') \<and> views_inv uuid (rd_views rd')"
  using assms(2-4)
proof (induction rule: rtranclp_induct)
  case base
  then show ?case by simp
next
  case (step b c)
  have "vs_drawn (rd_views b) \<le> n" using reading_step_drawn [OF step(2)] step(5) by simp
  then have b: "(views_step uuid until)\<^sup>*\<^sup>* (rd_views rd) (rd_views b)" "views_inv uuid (rd_views b)"
    using step by simp_all
  have bc: "(views_step uuid until)\<^sup>*\<^sup>* (rd_views b) (rd_views c)"
    by (rule reading_step_views [OF assms(1) b(2) step(5,2)])
  then show ?case
    using views_run_keeps [OF assms(1) bc b(2) step(5)] rtranclp_trans [OF b(1) bc] by simp
qed

section \<open>A stored snapshot is acceptable\<close>

lemma full_rows_ok:
  assumes "full_rows e as_row key ns n m = Inr m'"
  shows "m' = m" and "\<And>k v. (k, v) \<in> set m \<Longrightarrow> schema_row (as_row v) \<and> checkContext (env_digest e) (as_row v) \<and> key v = k \<and> ns v = n"
proof -
  show "m' = m" using assms by (simp add: full_rows_Inr)
  fix k v assume "(k, v) \<in> set m"
  then have "check_row e as_row key ns n (k, v) = None" using assms by (auto simp: full_rows_Inr)
  then show "schema_row (as_row v) \<and> checkContext (env_digest e) (as_row v) \<and> key v = k \<and> ns v = n"
    by (auto simp: check_row_def decode_row_def valid_None split: option.splits if_splits)
qed

lemma if_Inl_Inr: "(if c then Inl f else r) = Inr x \<longleftrightarrow> \<not> c \<and> r = Inr x"
  by simp

lemma full_state_cases:
  assumes "full_state e bd db n = Inr w"
  obtains s where "read_session e db n = Inr s" "ws_session w = s" "contiguous s (ws_events w)"
    "full_rows e Row_record record_id (\<lambda>c. rc_namespace (cr_receipt c)) n (by_id (scoped n (db_commands db))) = Inr (ws_commands w)"
    "full_rows e Row_interaction interactionId ia_namespace n (by_id (scoped n (db_interactions db))) = Inr (ws_interactions w)"
    "full_rows e Row_surface surfaceInstanceId sf_namespace n (by_id (scoped n (db_surfaces db))) = Inr (ws_surfaces w)"
    "full_rows e Row_delivery operationId dl_namespace n (by_id (scoped n (db_deliveries db))) = Inr (ws_deliveries w)"
    "\<And>ev. ev \<in> set (ws_events w) \<Longrightarrow> schema_event ev \<and> context_event ev \<and> ev_namespace ev = n"
    "ws_events w = sort_key sequence (jm_values (scoped n (db_events db)))" "ws_generations w = scoped_generations n db"
proof -
  let ?events = "full_rows e Row_event eventId ev_namespace n (sort_key (\<lambda>(i, ev). sequence ev) (scoped n (db_events db)))"
  from assms obtain s cs evs "is" ss ds where w: "read_session e db n = Inr s" "?events = Inr evs"
    "full_rows e Row_record record_id (\<lambda>c. rc_namespace (cr_receipt c)) n (by_id (scoped n (db_commands db))) = Inr cs"
    "full_rows e Row_interaction interactionId ia_namespace n (by_id (scoped n (db_interactions db))) = Inr is"
    "full_rows e Row_surface surfaceInstanceId sf_namespace n (by_id (scoped n (db_surfaces db))) = Inr ss"
    "full_rows e Row_delivery operationId dl_namespace n (by_id (scoped n (db_deliveries db))) = Inr ds"
    "contiguous s (jm_values evs)"
    "w = \<lparr>ws_session = s, ws_generations = scoped_generations n db, ws_commands = cs, ws_events = jm_values evs,
      ws_interactions = is, ws_deliveries = ds, ws_surfaces = ss\<rparr>"
    unfolding full_state_def and_then_Inr if_Inl_Inr unless_exit_Inr first_exit.simps by (elim exE conjE) (rule that, (assumption+)?, simp_all split: option.splits)
  note rows = full_rows_ok [OF w(2)]
  have evs: "jm_values evs = sort_key sequence (jm_values (scoped n (db_events db)))"
    using sort_values [of sequence "scoped n (db_events db)"]
    by (simp add: rows(1) jm_values_def)
  show ?thesis
  proof (rule that [OF w(1)])
    show "schema_event ev \<and> context_event ev \<and> ev_namespace ev = n" if "ev \<in> set (ws_events w)" for ev
      using that rows by (fastforce simp: w(8) jm_values_def)
  qed (use w(7) in \<open>simp_all add: w evs\<close>)
qed

text \<open>What is in the tables is what the snapshot holds.\<close>

lemma by_id_rows [simp]: "set (by_id m) = set m" "length (by_id m) = length m" "set (jm_values (by_id m)) = set (jm_values m)"
  by (simp_all add: by_id_def jm_values_def)

lemma keyed_by_id: "keyed key m \<Longrightarrow> keyed key (by_id m)"
  by (simp add: keyed_def by_id_def jm_wf_def distinct_map)

lemma empty_view_returns:
  assumes "context_session s"
  shows "\<exists>view. emptyView s cur = Inr view"
proof (cases "nonempty_member (currentStageId s)")
  case (Some i)
  then obtain stage where "stage \<in> set (stages s)" "Some (stageId stage) = currentStageId s"
    using assms by (auto simp: context_session_def nonempty_member_def split: if_splits) (metis last_in_set)
  then have "find (\<lambda>row. Some (stageId row) = currentStageId s) (stages s) \<noteq> None" by (auto simp: find_None_iff)
  then show ?thesis using Some by (auto simp: emptyView_def Let_def activeStage_def)
qed (simp add: emptyView_def Let_def)

lemma stored_snapshot:
  assumes inv: "store_inv db" and full: "full_state e bd db n = Inr w"
  obtains s where "jm_get (db_sessions db) n = Some s" "ws_session w = s" "ss_namespace s = n" "schema_session s" "context_session s"
    "distinct_rows w" "\<And>view. mirrors view w \<longleftrightarrow> mirrors view (content db n s)"
    "length (snapshot_records w) \<le> 4095 \<Longrightarrow> acceptable e (ns_sessionId n) w"
proof -
  obtain s where s: "read_session e db n = Inr s" "ws_session w = s" "contiguous s (ws_events w)"
    and rows: "full_rows e Row_record record_id (\<lambda>c. rc_namespace (cr_receipt c)) n (by_id (scoped n (db_commands db))) = Inr (ws_commands w)"
      "full_rows e Row_interaction interactionId ia_namespace n (by_id (scoped n (db_interactions db))) = Inr (ws_interactions w)"
      "full_rows e Row_surface surfaceInstanceId sf_namespace n (by_id (scoped n (db_surfaces db))) = Inr (ws_surfaces w)"
    and events: "\<And>ev. ev \<in> set (ws_events w) \<Longrightarrow> schema_event ev \<and> context_event ev \<and> ev_namespace ev = n"
    by (rule full_state_cases [OF full]) (rule that, assumption+)
  have row: "jm_get (db_sessions db) n = Some s" "ss_namespace s = n" "schema_session s" "context_session s"
    using s(1) by (auto simp: read_session_def decode_row_def valid_None split: if_splits option.splits)
  have keyed: "ws_keyed (content db n s)" using inv row(1) reachable_inv by (auto simp: store_inv_def ws_inv_def)
  note commands = full_rows_ok [OF rows(1)] and interactions = full_rows_ok [OF rows(2)] and surfaces = full_rows_ok [OF rows(3)]
  have "distinct_rows w"
    using keyed unfolding distinct_rows_def commands(1) interactions(1) surfaces(1)
    by (intro conjI keyed_values_distinct keyed_by_id) (simp_all add: ws_keyed_def content_def)
  moreover have "mirrors view w \<longleftrightarrow> mirrors view (content db n s)" for view
    by (simp add: mirrors_def commands(1) interactions(1) surfaces(1) s(2)) (simp add: content_def)
  moreover have "acceptable e (ns_sessionId n) w" if "length (snapshot_records w) \<le> 4095"
  proof -
    have "\<forall>c \<in> set (jm_values (ws_commands w)). schema_record c \<and> context_record (env_digest e) c \<and> rc_namespace (cr_receipt c) = n"
      using commands by (fastforce simp: jm_values_def)
    moreover have "\<forall>i \<in> set (jm_values (ws_interactions w)). schema_interaction i \<and> context_interaction i \<and> ia_namespace i = n"
      using interactions by (fastforce simp: jm_values_def)
    moreover have "\<forall>x \<in> set (jm_values (ws_surfaces w)). schema_surface x \<and> sf_namespace x = n"
      using surfaces by (fastforce simp: jm_values_def)
    moreover have "\<forall>j < length (ws_events w). sequence (ws_events w ! j) = int j + 1"
      using s(3) by (auto simp: contiguous_def list_all_length nth_enumerate_eq)
    ultimately show ?thesis
      using s(2,3) row that events empty_view_returns [OF row(4)]
      by (simp add: acceptable_def Let_def list_all_iff contiguous_def)
  qed
  ultimately show ?thesis using that row s(2) by blast
qed

section \<open>Restoring over the store\<close>

text \<open>
  The environment a restore is studied in. The host answers each request of a client from its store,
  after anything else the store was asked; the session is there to be read at every request, and all
  requests fall within the lifetime (\<open>view_ttl\<close>, 30 seconds) of what the first one captured, which
  ends no earlier than \<open>until\<close>. The client sees the page, or some failure.
\<close>

definition served ::
  "env \<Rightarrow> bounds \<Rightarrow> (nat \<Rightarrow> id) \<Rightarrow> int \<Rightarrow> namespace \<Rightarrow> int \<Rightarrow> (workspace \<Rightarrow> bool) \<Rightarrow> ('s \<Rightarrow> reading)
     \<Rightarrow> (id option \<Rightarrow> 's \<Rightarrow> ('e + snapshot_page) \<times> 's) \<Rightarrow> bool" where
  "served e bd uuid until n limit holds held ask \<longleftrightarrow> (\<forall>cont s r s'. ask cont s = (r, s') \<longrightarrow>
     (\<exists>rd now result x. (reading_step uuid until)\<^sup>*\<^sup>* (held s) rd \<and> reachable_store (rd_store rd) \<and>
        (\<forall>w. full_state e bd (st_db (rd_store rd)) n = Inr w \<longrightarrow> holds w) \<and>
        query (rd_store rd) (read_session e (st_db (rd_store rd)) n) = Inr x \<and> now \<le> until \<and> until \<le> now + view_ttl \<and>
        store_snapshotPage e bd uuid now n \<lparr>pq_limit = limit, pq_continuation = cont\<rparr> rd = (result, held s') \<and>
        (\<forall>page. (result = Inr page) = (r = Inr page))))"

text \<open>What a snapshot of the session can capture.\<close>

definition stored_value :: "env \<Rightarrow> bounds \<Rightarrow> namespace \<Rightarrow> (workspace \<Rightarrow> bool) \<Rightarrow> view_value \<Rightarrow> bool" where
  "stored_value e bd n holds v \<longleftrightarrow> (\<exists>st w. reachable_store st \<and> full_state e bd (st_db st) n = Inr w \<and> holds w \<and>
     v = Snapshot_value (ws_session w) (snapshot_records w))"

lemma ready_page:
  assumes "query (rd_store rd) (read_session e (st_db (rd_store rd)) n) = Inr x"
  shows "store_snapshotPage e bd uuid now n q rd =
    (case page_of uuid (page_limits bd) json_of_snapshot_page build_snapshot (snapshot_rows store_thrown) q
         (views_read uuid store_thrown json_of_view_value view_ttl now (''snapshot:'' @ namespace_text n) q
           (and_then (captured_snapshot e bd (st_db (rd_store rd)) n) (\<lambda>(s, rs). Inr (Snapshot_value s rs))) (rd_views rd))
       of (r, vs) \<Rightarrow> (r, rd\<lparr>rd_views := vs\<rparr>))"
  using assms
  by (auto simp: store_snapshotPage_def query_views_def query_def with_value_def readSnapshotPage_def split: if_splits)

lemma reading_run_drawn:
  "(reading_step uuid until)\<^sup>*\<^sup>* rd rd' \<Longrightarrow> vs_drawn (rd_views rd) \<le> vs_drawn (rd_views rd')"
  by (induction rule: rtranclp_induct) (auto dest: reading_step_drawn)

lemma servedD:
  assumes "served e bd uuid until n limit holds held ask" "ask cont s = (r, s')"
  obtains rd now result x where "(reading_step uuid until)\<^sup>*\<^sup>* (held s) rd" "reachable_store (rd_store rd)"
    "query (rd_store rd) (read_session e (st_db (rd_store rd)) n) = Inr x" "now \<le> until" "until \<le> now + view_ttl"
    "\<forall>w. full_state e bd (st_db (rd_store rd)) n = Inr w \<longrightarrow> holds w"
    "store_snapshotPage e bd uuid now n \<lparr>pq_limit = limit, pq_continuation = cont\<rparr> rd = (result, held s')"
    "\<forall>page. (result = Inr page) = (r = Inr page)"
  using assms(1) [unfolded served_def, THEN spec, THEN spec, THEN spec, THEN spec, THEN mp, OF assms(2)]
  by (elim exE conjE) (rule that)

text \<open>Requests served by the store are answered from its views.\<close>

lemma served_answers:
  assumes ids: "id_supply uuid m" and served: "served e bd uuid until n limit holds held ask"
  shows "answers uuid m until view_ttl (''snapshot:'' @ namespace_text n) limit (page_limits bd) json_of_snapshot_page build_snapshot
    (snapshot_rows store_thrown) (stored_value e bd n holds) (\<lambda>s. rd_views (held s)) ask"
proof -
  let ?scope = "''snapshot:'' @ namespace_text n"
  have "vs_drawn (rd_views (held s)) \<le> vs_drawn (rd_views (held s')) \<and>
      (views_inv uuid (rd_views (held s)) \<longrightarrow> vs_drawn (rd_views (held s')) \<le> m \<longrightarrow>
       (\<exists>vs now thrown value_json captured result. (views_step uuid until)\<^sup>*\<^sup>* (rd_views (held s)) vs \<and> now \<le> until \<and>
         until \<le> now + view_ttl \<and> (\<forall>v. captured = Inr v \<longrightarrow> stored_value e bd n holds v) \<and>
         page_of uuid (page_limits bd) json_of_snapshot_page build_snapshot (snapshot_rows store_thrown) \<lparr>pq_limit = limit, pq_continuation = cont\<rparr>
           (views_read uuid thrown value_json view_ttl now ?scope \<lparr>pq_limit = limit, pq_continuation = cont\<rparr> captured vs) = (result, rd_views (held s')) \<and>
         (\<forall>page. (result = Inr page) = (r = Inr page))))"
    if asked: "ask cont s = (r, s')" for cont s r s'
  proof -
    let ?q = "\<lparr>pq_limit = limit, pq_continuation = cont\<rparr>"
    obtain rd now result x where rd: "(reading_step uuid until)\<^sup>*\<^sup>* (held s) rd" "reachable_store (rd_store rd)"
        "query (rd_store rd) (read_session e (st_db (rd_store rd)) n) = Inr x" "now \<le> until" "until \<le> now + view_ttl"
      and holds: "\<forall>w. full_state e bd (st_db (rd_store rd)) n = Inr w \<longrightarrow> holds w"
      and page: "store_snapshotPage e bd uuid now n ?q rd = (result, held s')"
      and r: "\<forall>page. (result = Inr page) = (r = Inr page)"
      by (rule servedD [OF served asked])
    let ?captured = "and_then (captured_snapshot e bd (st_db (rd_store rd)) n) (\<lambda>(s, rs). Inr (Snapshot_value s rs))"
    have run: "page_of uuid (page_limits bd) json_of_snapshot_page build_snapshot (snapshot_rows store_thrown) ?q
        (views_read uuid store_thrown json_of_view_value view_ttl now ?scope ?q ?captured (rd_views rd)) = (result, rd_views (held s'))"
      using page unfolding ready_page [OF rd(3)] by (auto simp del: append.simps split: prod.splits dest: sym)
    have stored: "\<forall>v. ?captured = Inr v \<longrightarrow> stored_value e bd n holds v"
      using rd(2) holds by (auto simp: captured_snapshot_def stored_value_def)
    have drawn: "vs_drawn (rd_views (held s)) \<le> vs_drawn (rd_views rd)" "vs_drawn (rd_views rd) \<le> vs_drawn (rd_views (held s'))"
      using reading_run_drawn [OF rd(1)] reading_step_drawn [OF Reading_snapshot [OF page rd(4)]] by simp_all
    have steps: "(views_step uuid until)\<^sup>*\<^sup>* (rd_views (held s)) (rd_views rd)"
      if "views_inv uuid (rd_views (held s))" "vs_drawn (rd_views (held s')) \<le> m"
      using reading_run_views [OF ids rd(1) that(1)] drawn that(2) by simp
    show ?thesis
    proof (intro conjI impI exI)
      show "vs_drawn (rd_views (held s)) \<le> vs_drawn (rd_views (held s'))" using drawn by simp
    qed (assumption | rule steps run rd(4,5) stored r)+
  qed
  then show ?thesis unfolding answers_def by (intro allI impI)
qed

section \<open>The restored view\<close>

text \<open>
  A session that a client can always fetch: a page holds at least one record when each fits on its own,
  so at most 4095 records never need more than the 4096 pages the client takes.
\<close>

definition pageable :: "(nat \<Rightarrow> id) \<Rightarrow> nat \<Rightarrow> bounds \<Rightarrow> workspace \<Rightarrow> bool" where
  "pageable uuid m bd w \<longleftrightarrow> length (snapshot_records w) \<le> 4095 \<and>
     each_fits uuid m (page_limits bd) json_of_snapshot_page build_snapshot (snapshot_records w)
       (Snapshot_value (ws_session w) (snapshot_records w))"

lemma page_limits_le: "page_limits bd \<le> accessLimits"
  by (simp add: page_limits_def accessLimits_def less_eq_limits_def)

lemma restored_from_store:
  assumes ids: "id_supply uuid m" and served: "served e bd uuid until n limit holds held ask"
    and small: "\<And>w. holds w \<Longrightarrow> pageable uuid m bd w"
    and inv: "views_inv uuid (rd_views (held s))" and drawn: "vs_drawn (rd_views (held s')) \<le> m"
    and first: "ask None s = (Inr page, s1)" and run: "client_restore e (ns_sessionId n) ask s = (r, s')"
  shows "\<exists>st w. reachable_store st \<and> full_state e bd (st_db st) n = Inr w \<and> holds w \<and> r = workspace_view e w \<and>
    (\<forall>view. r = Inr view \<longrightarrow> mirrors view (content (st_db st) n (ws_session w)) \<and> view_inv view)"
proof -
  obtain x where fetch: "fetch Resync_required sn_next ask (receive_page e (ns_sessionId n)) (Suc 4095) None restore_start s = (x, s')"
    and r: "r = (case x of Inl f \<Rightarrow> Inl f | Inr rs \<Rightarrow> finish_restore e rs)"
    using run by (auto simp: client_restore_def split: prod.splits sum.splits)
  have good: "visits uuid m (page_limits bd) json_of_snapshot_page build_snapshot (held_records v) (receive_page e (ns_sessionId n)) (C v) v \<and>
      each_fits uuid m (page_limits bd) json_of_snapshot_page build_snapshot (held_records v) v \<and>
      snapshot_rows store_thrown v = Inr (held_records v) \<and> (\<forall>i. C v i 0 0 restore_start) \<and> length (held_records v) \<le> 4095"
    if v: "stored_value e bd n holds v"
      and C: "C = (\<lambda>v i offset index c. \<exists>st w. reachable_store st \<and> full_state e bd (st_db st) n = Inr w \<and>
        v = Snapshot_value (ws_session w) (snapshot_records w) \<and> holds w \<and> received w i offset index c)" for v C
  proof -
    obtain st w where w: "reachable_store st" "full_state e bd (st_db st) n = Inr w" "holds w"
        "v = Snapshot_value (ws_session w) (snapshot_records w)"
      using v by (auto simp: stored_value_def)
    have start: "received w i 0 0 restore_start" for i
      by (simp add: received_def restore_start_def List.map_filter_def)
    have acc: "acceptable e (ns_sessionId n) w'"
      if "reachable_store st'" "full_state e bd (st_db st') n = Inr w'" "length (snapshot_records w') \<le> 4095" for st' w'
      using stored_snapshot [OF reachable_store_inv [OF that(1)] that(2)] that(3) by metis
    have "visits uuid m (page_limits bd) json_of_snapshot_page build_snapshot (held_records v) (receive_page e (ns_sessionId n)) (C v) v"
      unfolding visits_def C
    proof (intro allI impI, elim exE conjE)
      fix i offset index k nxt c pg st' w'
      assume st': "reachable_store st'" "full_state e bd (st_db st') n = Inr w'" "v = Snapshot_value (ws_session w') (snapshot_records w')"
          "holds w'" "received w' i offset index c"
        and a: "index \<le> offset" "offset + k \<le> length (held_records v)" "i \<in> uuid ` {..<m}" "nxt \<in> may_follow uuid m"
          "pg = build_snapshot \<lparr>vp_id = i, vp_offset = offset, vp_index = index, vp_value = v\<rparr> (take k (drop offset (held_records v))) nxt"
          "checkLimits (page_limits bd) = None" "fits (page_limits bd) (json_of_snapshot_page pg)"
      obtain c' where "receive_page e (ns_sessionId n) pg c = Inr c'" "received w' i (offset + k) (index + 1) c'"
        using receive_visits [OF acc [OF st'(1,2) conjunct1 [OF small [OF st'(4), unfolded pageable_def]]] ids page_limits_le, of bd] st'(3,5) a unfolding visits_def by (metis view_value.sel(2))
      then show "\<exists>c'. receive_page e (ns_sessionId n) pg c = Inr c' \<and>
          (\<exists>st w. reachable_store st \<and> full_state e bd (st_db st) n = Inr w \<and> v = Snapshot_value (ws_session w) (snapshot_records w) \<and>
            holds w \<and> received w i (offset + k) (index + 1) c')"
        using st' by blast
    qed
    then show ?thesis using w start small [OF w(3)] by (auto simp: C pageable_def snapshot_rows_def)
  qed
  let ?C = "\<lambda>v i offset index c. \<exists>st w. reachable_store st \<and> full_state e bd (st_db st) n = Inr w \<and>
      v = Snapshot_value (ws_session w) (snapshot_records w) \<and> holds w \<and> received w i offset index c"
  obtain v i k c where "x = Inr c" "0 < k" "?C v i (length (held_records v)) k c"
    using fetch_all [OF ids served_answers [OF ids served] good [OF _ refl] build_snapshot_next drawn inv first fetch] by blast
  then obtain st w where w: "reachable_store st" "full_state e bd (st_db st) n = Inr w" "holds w"
      "received w i (length (snapshot_records w)) k c" by auto
  obtain acc: "acceptable e (ns_sessionId n) w" and rows: "distinct_rows w"
    and mir: "\<And>view. mirrors view w \<longleftrightarrow> mirrors view (content (st_db st) n (ws_session w))"
    using stored_snapshot [OF reachable_store_inv [OF w(1)] w(2)] small [OF w(3)] unfolding pageable_def by metis
  have "rs_pages c \<noteq> []" using w(4) \<open>0 < k\<close> by (auto simp: received_def Let_def)
  then have "r = workspace_view e w" using finish_received [OF acc w(4)] r \<open>x = Inr c\<close> by simp
  then show ?thesis using w(1-3) workspace_view_mirrors [OF _ rows] mir by metis
qed

end
