(* ===== verification/Reading_Demo.thy ===== *)
theory Reading_Demo
  imports Store_Paging Store_Demo
begin

text \<open>
  The demonstration session read back: its snapshot fits pages of one record each, and a client
  that asks the store for them ends with the view of the accepted workspace.
\<close>

definition demo_uuid :: "nat \<Rightarrow> id" where
  "demo_uuid k = replicate (Suc k) (CHR ''v'')"

definition demo_reading :: "view_value read_views \<Rightarrow> reading" where
  "demo_reading vs = \<lparr>rd_store = demo_store demo_db_accepted, rd_views = vs\<rparr>"

definition demo_ask :: "id option \<Rightarrow> view_value read_views \<Rightarrow> (client_error + snapshot_page) \<times> view_value read_views" where
  "demo_ask cont vs = (case store_snapshotPage demo_env demo_bounds demo_uuid 0 demo_ns
       \<lparr>pq_limit = 1, pq_continuation = cont\<rparr> (demo_reading vs) of
     (r, rd) \<Rightarrow> (case r of Inl f \<Rightarrow> Inl Invalid_response | Inr page \<Rightarrow> Inr page, rd_views rd))"

lemma demo_supply: "id_supply demo_uuid 2"
  by (auto simp: id_supply_def demo_uuid_def inj_on_def isId_def id_char_def alphanumeric_def Let_def numeral_2_eq_2 less_Suc_eq)

lemma demo_page_limits: "page_limits demo_bounds = defaultLimits"
  by (simp add: page_limits_def defaultLimits_def)

section \<open>The stored session\<close>

lemma demo_read: "read_session demo_env demo_db_accepted demo_ns = Inr (demo_session 1 1)"
  by (simp add: read_session_def demo_decode demo_db_accepted_def jm_get_def)

lemma demo_full: "full_state demo_env demo_bounds demo_db_accepted demo_ns = Inr demo_accepted"
proof -
  let ?c = "demo_record Accepted" and ?ev = "demo_event ''e1'' 1 None (Command_accepted demo_prompt)"
  have tables: "scoped demo_ns (db_commands demo_db_accepted) = [(''p1'', ?c)]" "scoped demo_ns (db_events demo_db_accepted) = [(''e1'', ?ev)]"
    "scoped demo_ns (db_interactions demo_db_accepted) = []" "scoped demo_ns (db_surfaces demo_db_accepted) = []"
    "scoped demo_ns (db_deliveries demo_db_accepted) = []" "scoped_generations demo_ns demo_db_accepted = [''g1'']"
    by (simp_all add: demo_db_accepted_def empty_database_def scoped_generations_def scoped_Cons)
  have rows: "decode_row demo_env (Row_record ?c) = None" "decode_row demo_env (Row_event ?ev) = None"
    using demo_record_valid [of Accepted] demo_event_valid(1) by (simp_all add: decode_row_def)
  have "row_bytes (Row_record ?c) \<le> 262144" "row_bytes (Row_event ?ev) \<le> 262144" "row_bytes (Row_session (demo_session 1 1)) \<le> 262144"
    using demo_session_valid [of 1 1, THEN row_size(3)] demo_record_valid [of Accepted, THEN row_size(3)]
      demo_event_valid(1) [THEN row_size(3)] by simp_all
  moreover have "stage_recorded demo_db_accepted demo_ns (demo_session 1 1) = None"
    by (simp add: stage_recorded_def demo_active tables) (simp add: providerStage_def)
  moreover have "contiguous (demo_session 1 1) [?ev]" by (simp add: contiguous_def enumerate_eq_zip) (simp add: demo_event_def)
  moreover have "full_rows demo_env Row_record record_id (\<lambda>c. rc_namespace (cr_receipt c)) demo_ns [(''p1'', ?c)] = Inr [(''p1'', ?c)]"
    "full_rows demo_env Row_event eventId ev_namespace demo_ns [(''e1'', ?ev)] = Inr [(''e1'', ?ev)]"
    using rows by (simp_all add: full_rows_Inr check_row_def) (simp_all add: demo_defs)
  ultimately show ?thesis
    by (simp add: full_state_def demo_read tables totals_def table_size_def id_bytes_def by_id_def jm_values_def)
       (simp add: full_rows_def demo_accepted_def demo_created_def)
qed

section \<open>Its pages fit\<close>

definition small_json :: "json \<Rightarrow> bool" where
  "small_json j \<longleftrightarrow> json_clean j \<and> json_depth j \<le> 20 \<and> json_nodes j \<le> 200 \<and> jsize j \<le> 20000"

lemma demo_parts_small:
  "small_json (json_of_session (demo_session 1 1))"
  "small_json (json_of_event (demo_event ''e1'' 1 None (Command_accepted demo_prompt)))"
  "small_json (json_of_record (demo_record Accepted))"
  unfolding small_json_def
  by (simp_all add: demo_defs row_eval is_safe_integer_def max_safe_def json_int_def decimal.simps
      byteLength_Cons utf8_char_def)

lemma small_items: "\<forall>x \<in> set xs. small_json (f x) \<Longrightarrow> clean_items (map f xs) \<and> depth_items (map f xs) \<le> 20 \<and>
    nodes_items (map f xs) \<le> 200 * int (length xs) \<and> size_items (map f xs) \<le> 20001 * int (length xs)"
  by (induction xs) (auto simp: small_json_def)

lemma one_digit: "byteLength (decimal (Suc 0)) = 1"
  by (simp add: decimal.simps byteLength_Cons utf8_char_def)

text \<open>A page with a session and at most one record, none of them large, fits.\<close>

lemma small_page_fits:
  assumes "small_json (json_of_session (sn_session p))" "\<forall>x \<in> set (sn_events p). small_json (json_of_event x)"
    "\<forall>x \<in> set (sn_commands p). small_json (json_of_record x)" "sn_interactions p = []" "sn_surfaces p = []"
    "length (sn_events p) \<le> 1" "length (sn_commands p) \<le> 1" "length (sn_snapshotId p) \<le> 128" "\<And>t. sn_next p = Some t \<Longrightarrow> length t \<le> 128"
    "is_safe_integer (sn_pageIndex p) \<and> byteLength (json_int (sn_pageIndex p)) \<le> 20"
    "is_safe_integer (sn_cursor p) \<and> byteLength (json_int (sn_cursor p)) \<le> 20"
  shows "fits defaultLimits (json_of_snapshot_page p)"
proof -
  note items = small_items [OF assms(2)] small_items [OF assms(3)]
  have session: "json_clean (json_of_session (sn_session p))" "json_depth (json_of_session (sn_session p)) \<le> 20"
    "json_nodes (json_of_session (sn_session p)) \<le> 200" "jsize (json_of_session (sn_session p)) \<le> 20000"
    using assms(1) by (simp_all add: small_json_def)
  show ?thesis
  proof (rule fits_by_size; cases "sn_next p")
  qed (use items session assms(4-11) in \<open>simp_all add: json_of_snapshot_page_def header_def obj_def jid_def json_int_def [of 1] one_digit
      is_safe_integer_def [of 1] max_safe_def byteLength_Cons utf8_char_def\<close>)
qed

lemma demo_records: "snapshot_records demo_accepted =
    [Snap_event (demo_event ''e1'' 1 None (Command_accepted demo_prompt)), Snap_command (demo_record Accepted)]"
  by (simp add: snapshot_records_def demo_accepted_def demo_created_def jm_values_def)

lemma demo_id_range: "i \<in> demo_uuid ` {..<2} \<Longrightarrow> length i \<le> 2"
  by (auto simp: demo_uuid_def)

lemma index_text:
  assumes "k \<le> 2"
  shows "byteLength (json_int (int k)) \<le> 2 \<and> is_safe_integer (int k)"
proof -
  have "k = 0 \<or> k = 1 \<or> k = 2" using assms by linarith
  then show ?thesis
    by (elim disjE) (simp_all add: json_int_def decimal.simps byteLength_Cons utf8_char_def is_safe_integer_def max_safe_def)
qed

lemma demo_page_fits:
  assumes "index \<le> 2" "i \<in> demo_uuid ` {..<2}" "nxt \<in> may_follow demo_uuid 2"
  shows "fits defaultLimits (json_of_snapshot_page (build_snapshot \<lparr>vp_id = i, vp_offset = offset, vp_index = index,
    vp_value = Snapshot_value (demo_session 1 1) (snapshot_records demo_accepted)\<rparr> (take 1 (drop offset (snapshot_records demo_accepted))) nxt))"
proof -
  let ?ev = "demo_event ''e1'' 1 None (Command_accepted demo_prompt)" and ?c = "demo_record Accepted"
  let ?rs = "take 1 (drop offset (snapshot_records demo_accepted))"
  have ids: "length i \<le> 2" "\<And>t. nxt = Some t \<Longrightarrow> length t \<le> 2"
    using demo_id_range [OF assms(2)] assms(3) demo_id_range by (auto simp: may_follow_def)
  have rs: "?rs = [] \<or> ?rs = [Snap_event ?ev] \<or> ?rs = [Snap_command ?c]"
    by (cases offset; cases "offset - 1") (auto simp: demo_records)
  show ?thesis
    by (rule small_page_fits) (use rs ids demo_parts_small index_text [OF assms(1)] index_text [of 1] in
      \<open>auto simp: build_snapshot_def List.map_filter_def\<close>)
qed

lemma demo_pageable: "pageable demo_uuid 2 demo_bounds demo_accepted"
proof -
  have "length (snapshot_records demo_accepted) = 2" by (simp add: demo_records)
  moreover have "ws_session demo_accepted = demo_session 1 1" by (simp add: demo_accepted_def)
  ultimately show ?thesis
    using demo_page_fits by (simp add: pageable_def each_fits_def page_fits_def demo_page_limits)
qed

section \<open>The store answers\<close>

lemma demo_served: "served demo_env demo_bounds demo_uuid 0 demo_ns 1 (\<lambda>w. w = demo_accepted) demo_reading demo_ask"
  unfolding served_def
proof (intro allI impI)
  fix cont s r s' assume ask: "demo_ask cont s = (r, s')"
  let ?q = "\<lparr>pq_limit = 1, pq_continuation = cont\<rparr>"
  obtain result rd where page: "store_snapshotPage demo_env demo_bounds demo_uuid 0 demo_ns ?q (demo_reading s) = (result, rd)"
    by (metis surj_pair)
  have "rd_store rd = demo_store demo_db_accepted"
    using page by (cases rule: snapshot_run) (simp_all add: demo_reading_def)
  moreover have "rd_views rd = s'" and r: "\<forall>page. (result = Inr page) = (r = Inr page)"
    using ask page by (auto simp: demo_ask_def split: sum.splits)
  ultimately have rd: "rd = demo_reading s'" by (simp add: demo_reading_def)
  have store: "rd_store (demo_reading s) = demo_store demo_db_accepted" "st_db (demo_store demo_db_accepted) = demo_db_accepted"
    by (simp_all add: demo_reading_def demo_store_def)
  have "query (demo_store demo_db_accepted) (read_session demo_env demo_db_accepted demo_ns) = Inr (demo_session 1 1)"
    by (simp add: query_def demo_store_def demo_read)
  then show "\<exists>rd now result x. (reading_step demo_uuid 0)\<^sup>*\<^sup>* (demo_reading s) rd \<and> reachable_store (rd_store rd) \<and>
      (\<forall>w. full_state demo_env demo_bounds (st_db (rd_store rd)) demo_ns = Inr w \<longrightarrow> w = demo_accepted) \<and>
      query (rd_store rd) (read_session demo_env (st_db (rd_store rd)) demo_ns) = Inr x \<and> now \<le> 0 \<and> 0 \<le> now + view_ttl \<and>
      store_snapshotPage demo_env demo_bounds demo_uuid now demo_ns ?q rd = (result, demo_reading s') \<and>
      (\<forall>page. (result = Inr page) = (r = Inr page))"
    using page rd r demo_reachable(2) demo_full
    by (intro exI [of _ "demo_reading s"] exI [of _ 0] exI [of _ result] exI [of _ "demo_session 1 1"])
      (simp add: store view_ttl_def)
qed

lemma demo_value_fits: "boundedJson view_limits (json_of_view_value (Snapshot_value (demo_session 1 1) (snapshot_records demo_accepted))) =
    Inr (json_print (json_of_view_value (Snapshot_value (demo_session 1 1) (snapshot_records demo_accepted))))"
  "byteLength (json_print (json_of_view_value (Snapshot_value (demo_session 1 1) (snapshot_records demo_accepted)))) \<le> 262144"
proof -
  have "fits defaultLimits (json_of_view_value (Snapshot_value (demo_session 1 1) (snapshot_records demo_accepted)))"
    using demo_parts_small by (intro fits_by_size) (simp_all add: small_json_def demo_records obj_def)
  then have f: "fits view_limits (json_of_view_value (Snapshot_value (demo_session 1 1) (snapshot_records demo_accepted)))"
    and "byteLength (json_print (json_of_view_value (Snapshot_value (demo_session 1 1) (snapshot_records demo_accepted)))) \<le> 262144"
    by (auto simp: fits_def defaultLimits_def view_limits_def)
  then show "byteLength (json_print (json_of_view_value (Snapshot_value (demo_session 1 1) (snapshot_records demo_accepted)))) \<le> 262144"
    by simp
  show "boundedJson view_limits (json_of_view_value (Snapshot_value (demo_session 1 1) (snapshot_records demo_accepted))) =
    Inr (json_print (json_of_view_value (Snapshot_value (demo_session 1 1) (snapshot_records demo_accepted))))"
    unfolding boundedJson_Inr using f by (simp add: checkLimits_None view_limits_def max_safe_def)
qed

text \<open>What the two requests of a full read leave in the views.\<close>

definition demo_value :: view_value where
  "demo_value = Snapshot_value (demo_session 1 1) (snapshot_records demo_accepted)"

definition demo_page :: "nat \<Rightarrow> id option \<Rightarrow> snapshot_page" where
  "demo_page k nxt = build_snapshot \<lparr>vp_id = ''v'', vp_offset = k, vp_index = k, vp_value = demo_value\<rparr>
     (take 1 (drop k (snapshot_records demo_accepted))) nxt"

definition demo_views :: "view_value read_views" where
  "demo_views = (let bytes = byteLength (json_print (json_of_view_value demo_value)) in
     \<lparr>vs_views = [(''v'', \<lparr>vw_scope = ''snapshot:'' @ namespace_text demo_ns, vw_expires = view_ttl, vw_limit = 1, vw_value = demo_value,
        vw_bytes = bytes, vw_continued = True\<rparr>)], vs_retained = bytes,
      vs_tokens = [(''vv'', \<lparr>tk_id = ''v'', tk_offset = 1, tk_index = 1\<rparr>)], vs_drawn = 2\<rparr>)"

lemma demo_page_print:
  assumes "k \<le> 2" "nxt = None \<or> nxt = Some ''vv''"
  shows "boundedJson defaultLimits (json_of_snapshot_page (demo_page k nxt)) = Inr (json_print (json_of_snapshot_page (demo_page k nxt)))"
proof -
  have "''v'' = demo_uuid 0" "''vv'' = demo_uuid 1" by (simp_all add: demo_uuid_def)
  then have "''v'' \<in> demo_uuid ` {..<2}" "nxt \<in> may_follow demo_uuid 2" using assms(2) by (auto simp: may_follow_def)
  from demo_page_fits [OF assms(1) this] show ?thesis by (simp add: boundedJson_Inr demo_page_def demo_value_def)
qed

lemma demo_snapshot: "captured_snapshot demo_env demo_bounds demo_db_accepted demo_ns = Inr (demo_session 1 1, snapshot_records demo_accepted)"
  by (simp add: captured_snapshot_def demo_full) (simp add: demo_accepted_def)

lemma demo_store_read: "query (rd_store (demo_reading vs)) (read_session demo_env (st_db (rd_store (demo_reading vs))) demo_ns) = Inr (demo_session 1 1)"
  by (simp add: query_def demo_store_def demo_read demo_reading_def)

lemma demo_ask_page: "demo_ask cont vs =
    (case page_of demo_uuid defaultLimits json_of_snapshot_page build_snapshot (snapshot_rows store_thrown) \<lparr>pq_limit = 1, pq_continuation = cont\<rparr>
       (views_read demo_uuid store_thrown json_of_view_value view_ttl 0 (''snapshot:'' @ namespace_text demo_ns)
         \<lparr>pq_limit = 1, pq_continuation = cont\<rparr> (Inr demo_value) vs) of
     (r, vs') \<Rightarrow> (case r of Inl f \<Rightarrow> Inl Invalid_response | Inr page \<Rightarrow> Inr page, vs'))"
proof -
  have db: "st_db (rd_store (demo_reading vs)) = demo_db_accepted" by (simp add: demo_reading_def demo_store_def)
  show ?thesis
    unfolding demo_ask_def ready_page [OF demo_store_read] demo_page_limits db
    by (simp add: demo_snapshot demo_value_def demo_reading_def split: prod.splits)
qed

lemma demo_rows: "snapshot_rows store_thrown demo_value = Inr (snapshot_records demo_accepted)" "length (snapshot_records demo_accepted) = 2"
  by (simp_all add: snapshot_rows_def demo_value_def demo_records)

lemma demo_first: "demo_ask None no_views = (Inr (demo_page 0 (Some ''vv'')), demo_views)"
proof -
  let ?bytes = "byteLength (json_print (json_of_view_value demo_value))" and ?scope = "''snapshot:'' @ namespace_text demo_ns"
  let ?view = "\<lparr>vw_scope = ?scope, vw_expires = view_ttl, vw_limit = 1, vw_value = demo_value, vw_bytes = ?bytes, vw_continued = False\<rparr>"
  let ?vs = "\<lparr>vs_views = [(''v'', ?view)], vs_retained = ?bytes, vs_tokens = [], vs_drawn = 1\<rparr>"
  have "views_read demo_uuid store_thrown json_of_view_value view_ttl 0 ?scope \<lparr>pq_limit = 1, pq_continuation = None\<rparr> (Inr demo_value) no_views =
      (Inr \<lparr>vp_id = ''v'', vp_offset = 0, vp_index = 0, vp_value = demo_value\<rparr>, ?vs)"
    using demo_value_fits
    by (simp add: views_read_def sweep_views_def live_tokens_def capture_view_def no_views_def is_safe_integer_def max_safe_def
        Let_def demo_uuid_def jm_set_def demo_value_def)
  moreover have "fit_page demo_uuid defaultLimits json_of_snapshot_page
      (build_snapshot \<lparr>vp_id = ''v'', vp_offset = 0, vp_index = 0, vp_value = demo_value\<rparr>) (snapshot_records demo_accepted) ''v'' 0 0 1 ?vs =
      (Inr (demo_page 0 (Some ''vv'')), demo_views)"
    using demo_page_print [of 0 "Some ''vv''"]
    by (simp add: fit_page.simps rest_token_def next_token_def Let_def demo_rows demo_uuid_def numeral_2_eq_2 demo_page_def
        finish_view_def jm_get_def jm_set_def demo_views_def)
  ultimately show ?thesis
    by (simp add: demo_ask_page page_of_def demo_rows)
qed

lemma demo_second: "\<exists>vs. demo_ask (Some ''vv'') demo_views = (Inr (demo_page 1 None), vs) \<and> vs_drawn vs = 2"
proof -
  let ?scope = "''snapshot:'' @ namespace_text demo_ns"
  have "views_read demo_uuid store_thrown json_of_view_value view_ttl 0 ?scope \<lparr>pq_limit = 1, pq_continuation = Some ''vv''\<rparr>
      (Inr demo_value) demo_views = (Inr \<lparr>vp_id = ''v'', vp_offset = 1, vp_index = 1, vp_value = demo_value\<rparr>, demo_views)"
    by (simp add: views_read_def sweep_views_def live_tokens_def expired_view_def demo_views_def view_ttl_def continue_view_def
        is_safe_integer_def max_safe_def Let_def jm_has_def jm_get_def)
  moreover have "\<exists>vs. fit_page demo_uuid defaultLimits json_of_snapshot_page
      (build_snapshot \<lparr>vp_id = ''v'', vp_offset = 1, vp_index = 1, vp_value = demo_value\<rparr>) (snapshot_records demo_accepted) ''v'' 1 1 1 demo_views =
      (Inr (demo_page 1 None), vs) \<and> vs_drawn vs = 2"
    using demo_page_print [of 1 None]
    by (simp add: fit_page.simps rest_token_def Let_def demo_rows demo_page_def) (simp add: demo_views_def Let_def)
  ultimately show ?thesis
    by (auto simp: demo_ask_page page_of_def demo_rows)
qed

section \<open>A restore\<close>

lemma fetch_two:
  assumes "ask None s = (Inr p1, s1)" "nextOf p1 = Some t" "ask (Some t) s1 = (Inr p2, s2)" "nextOf p2 = None"
    "fetch overrun nextOf ask handle (Suc (Suc n)) None c s = (r, s')"
  shows "s' = s1 \<or> s' = s2"
  using assms by (auto split: sum.splits if_splits)

definition demo_view :: session_view where
  "demo_view = \<lparr>cl_namespace = demo_ns, cl_generation = ''g1'', cl_stageId = Some ''g1'', cl_connectionPending = False,
     cl_selectedConnectionId = Some ''c1'', cl_cursor = 1, cl_capabilities = demo_capabilities, cl_sessionStatus = Active,
     cl_timeline = [\<lparr>ti_kind = Item_prompt, ti_key = ''p1'', ti_position = 2\<rparr>], cl_connection = Attached,
     cl_commands = [(''p1'', new_command demo_prompt)], cl_messages = [], cl_interactions = [], cl_surfaces = [],
     cl_deliveries = [], cl_tools = []\<rparr>"

lemma demo_workspace_view: "workspace_view demo_env demo_accepted = Inr demo_view"
proof -
  let ?ev = "demo_event ''e1'' 1 None (Command_accepted demo_prompt)"
  let ?v0 = "demo_view\<lparr>cl_timeline := [], cl_connection := Detached, cl_commands := []\<rparr>"
  let ?v1 = "demo_view\<lparr>cl_connection := Detached\<rparr>"
  have rows: "ws_session demo_accepted = demo_session 1 1" "ws_events demo_accepted = [?ev]" "jm_values (ws_commands demo_accepted) = [demo_record Accepted]"
    "jm_values (ws_interactions demo_accepted) = []" "jm_values (ws_surfaces demo_accepted) = []"
    by (simp_all add: demo_accepted_def demo_created_def jm_values_def)
  have start: "emptyView (demo_session 1 1) 1 = Inr ?v0"
    by (simp add: emptyView_def Let_def nonempty_member_def demo_active demo_view_def)
       (simp add: demo_session_def providerStage_def demo_binding_def)
  have "project_event demo_env ?ev ?v0 = Inr ?v1"
    by (simp add: project_event_def project_accepted_def order_item_def demo_event_def demo_prompt_def demo_view_def jm_has_def jm_get_def jm_set_def
        new_command_def Let_def)
  moreover have "fold restore_command [demo_record Accepted] (?v1\<lparr>cl_sessionStatus := Active\<rparr>) = ?v1"
    by (simp add: restore_command_def command_row_def demo_record_def demo_prompt_def demo_view_def jm_get_def jm_set_def new_command_def
        or_else_def Let_def nonempty_member_def)
  ultimately have "restore_all demo_env Active [?ev] [demo_record Accepted] [] [] ?v0 = Inr ?v1"
    by (simp add: restore_all_def)
  moreover have "?v1\<lparr>cl_connection := Attached\<rparr> = demo_view" by (simp add: demo_view_def)
  ultimately show ?thesis
    by (simp add: workspace_view_def rows start)
qed

lemma demo_restored: "\<exists>s'. client_restore demo_env ''s1'' demo_ask no_views = (Inr demo_view, s') \<and> vs_drawn s' \<le> 2"
proof -
  obtain r s' where run: "client_restore demo_env ''s1'' demo_ask no_views = (r, s')" by (metis surj_pair)
  obtain x where x: "fetch Resync_required sn_next demo_ask (receive_page demo_env ''s1'') (Suc (Suc 4094)) None restore_start no_views = (x, s')"
    using run by (auto simp: client_restore_def split: prod.splits sum.splits)
  obtain vs where second: "demo_ask (Some ''vv'') demo_views = (Inr (demo_page 1 None), vs)" "vs_drawn vs = 2"
    using demo_second by blast
  have "s' = demo_views \<or> s' = vs"
    by (rule fetch_two [OF demo_first _ second(1) _ x]) (simp_all add: demo_page_def)
  then have drawn: "vs_drawn s' \<le> 2" using second(2) by (auto simp: demo_views_def Let_def)
  have inv: "views_inv demo_uuid (rd_views (demo_reading no_views))"
    by (simp add: views_inv_def no_views_def demo_reading_def view_bytes_def jm_values_def jm_wf_def jm_keys_def)
  have "\<exists>st w. w = demo_accepted \<and> r = workspace_view demo_env w"
    using restored_from_store [OF demo_supply demo_served _ inv _ demo_first, of s' r] demo_pageable drawn run
    by (auto simp: demo_reading_def demo_ns_def)
  then show ?thesis using run drawn by (simp add: demo_workspace_view)
qed

end
