(* ===== verification/Client_Guarantees.thy ===== *)
theory Client_Guarantees
  imports Reading_Demo "HOL-Library.Sublist"
begin

text \<open>
  What an attached client may rely on between restores: its view stays well formed under any
  updates, the streamed text it shows is immaterial to everything durable, and its cursor moves
  only through the next event.
\<close>

section \<open>What a restore leaves\<close>

lemma fetch_inv:
  assumes "\<And>page c c'. handle page c = Inr c' \<Longrightarrow> J c \<Longrightarrow> J c'"
  shows "fetch overrun nextOf ask handle fuel cont c s = (Inr c', s') \<Longrightarrow> J c \<Longrightarrow> J c'"
proof (induction fuel arbitrary: cont c s)
  case (Suc fuel)
  obtain x s1 where x: "ask cont s = (x, s1)" by (metis surj_pair)
  then obtain page c1 where page: "x = Inr page" "handle page c = Inr c1"
    using Suc.prems(1) by (auto split: sum.splits if_splits)
  then show ?case using Suc assms [OF page(2)] x by (auto split: if_splits)
qed simp

inductive initial_view :: "session_view \<Rightarrow> bool" where
  Initial_view: "emptyView s cur = Inr view \<Longrightarrow> initial_view view"

definition begun :: "restoring \<Rightarrow> bool" where
  "begun r \<longleftrightarrow> (\<forall>view. rs_view r = Some view \<longrightarrow> initial_view view)"

lemma receive_begun: "receive_page e sid page r = Inr r' \<Longrightarrow> begun r \<Longrightarrow> begun r'"
  unfolding begun_def receive_page_def by (cases "rs_view r") (auto intro: Initial_view)

lemma initial_view_facts: "initial_view view \<Longrightarrow> placed view \<and> view_inv view \<and> transient view = []"
proof (erule initial_view.cases)
  fix s cur v assume "view = v" "emptyView s cur = Inr v"
  then have v: "emptyView s cur = Inr view" by simp
  then have "placed view"
    by (auto simp: emptyView_def Let_def placed_def durable_items_def split: if_splits sum.splits)
  then show ?thesis using empty_view_inv [OF v] by blast
qed

lemma loop_placed: "loop_exit (project_event e) evs v = Inr v' \<Longrightarrow> placed v \<Longrightarrow> placed v'"
proof (induction evs arbitrary: v)
  case (Cons ev evs)
  then obtain u where "project_event e ev v = Inr u" "loop_exit (project_event e) evs u = Inr v'" by (auto split: sum.splits)
  then show ?case using Cons project_placed by blast
qed simp

lemma restore_placed:
  assumes "restoreSnapshot e pages view = Inr view'" "placed view"
  shows "placed view'"
proof -
  obtain w where w: "loop_exit (project_event e) (concat (map sn_events pages)) view = Inr w"
    and rows: "loop_exit (restore_rows e) pages
      (case pages of [] \<Rightarrow> w | page # _ \<Rightarrow> w\<lparr>cl_sessionStatus := status (sn_session page)\<rparr>) = Inr view'"
    using assms(1) by (auto simp: restoreSnapshot_def loop_pages)
  have "same_texts view' (case pages of [] \<Rightarrow> w | page # _ \<Rightarrow> w\<lparr>cl_sessionStatus := status (sn_session page)\<rparr>)"
    using rows by (rule loop_same_texts [where f = "restore_rows e", rotated]) (rule restore_rows_texts)
  then have "cl_messages view' = cl_messages w" "cl_timeline view' = cl_timeline w"
    by (simp_all add: same_texts_def split: list.splits)
  then show ?thesis using placed_cong loop_placed [OF w assms(2)] by blast
qed

lemma restored_view:
  assumes "client_restore e sid ask s = (Inr view, s')"
  shows "view_inv view \<and> placed view \<and> cl_connection view = Attached"
proof -
  obtain r where fetch: "fetch Resync_required sn_next ask (receive_page e sid) 4096 None restore_start s = (Inr r, s')"
    and finish: "finish_restore e r = Inr view"
    using assms by (auto simp: client_restore_def split: prod.splits sum.splits)
  have start: "begun restore_start" by (simp add: begun_def restore_start_def)
  have "begun r" by (rule fetch_inv [where J = begun, OF _ fetch start]) (rule receive_begun)
  obtain v0 where r: "rs_view r = Some v0" using finish by (cases "rs_view r") (simp_all add: finish_restore_def)
  have v0: "initial_view v0" using \<open>begun r\<close> r by (simp add: begun_def)
  have "and_then (restoreSnapshot e (rs_pages r) v0) (\<lambda>v. Inr (v\<lparr>cl_connection := Attached\<rparr>)) = Inr view"
    using finish r by (cases "rs_eventCursor r = cl_cursor v0") (simp_all add: finish_restore_def del: and_then_Inr)
  then obtain v where v: "restoreSnapshot e (rs_pages r) v0 = Inr v" and "Inr (v\<lparr>cl_connection := Attached\<rparr>) = (Inr view :: client_error + session_view)"
    unfolding and_then_Inr by blast
  then have view: "view = v\<lparr>cl_connection := Attached\<rparr>" by (simp only: sum.inject)
  have "view_inv v" "placed v" using initial_view_facts [OF v0] restore_inv [OF v] restore_placed [OF v] by blast+
  moreover have "view_inv view = view_inv v" unfolding view by (rule view_inv_cong) simp_all
  ultimately show ?thesis by (simp add: view)
qed

section \<open>Views stay well formed\<close>

lemma updates_inv: "view_inv view \<Longrightarrow> view_inv (fold (client_update e) items view)"
  by (induction items arbitrary: view) (simp_all add: update_inv)

text \<open>
  C30. Whatever arrives on an attachment after a restore - events, deltas, duplicates, gaps, refused
  rows - the client's view stays well formed: its timeline is sorted with one item for each row, its
  messages are keyed once, and the streamed text it holds belongs to unsettled commands only, in
  at most 1024 messages and within the access limit on text.
\<close>

theorem client_view_sound:
  assumes "client_restore e sid ask s = (Inr view, s')"
  shows "view_inv (fold (client_update e) items view)"
  using updates_inv restored_view [OF assms] by blast

text \<open>What reaches the demonstration client: streamed text, a duplicate, and the dispatch of its prompt.\<close>

definition demo_items :: "subscription list" where
  "demo_items = [Live_delta ''g1'' ''p1'' ''m1'' [104], Live_event (demo_event ''e1'' 1 None (Command_accepted demo_prompt)),
     Live_event (demo_event ''e2'' 2 (Some ''x1'') (Dispatch_reported (demo_attempt Intent)))]"

theorem client_view_sound_witness:
  "view_inv (fold (client_update demo_env) demo_items demo_view)"
proof -
  obtain s' where "client_restore demo_env ''s1'' demo_ask no_views = (Inr demo_view, s')" using demo_restored by blast
  then show ?thesis by (rule client_view_sound)
qed

section \<open>The durable view is a replay of the log\<close>

text \<open>The next event of the view's session.\<close>

definition next_for :: "session_view \<Rightarrow> event \<Rightarrow> bool" where
  "next_for view ev \<longleftrightarrow> ev_namespace ev = cl_namespace view \<and> ev_generation ev = cl_generation view \<and>
     sequence ev = cl_cursor view + 1"

lemma next_event_applied:
  assumes "next_for view ev" "cl_connection view \<noteq> Resync" "cl_connection (client_update e (Live_event ev) view) \<noteq> Resync"
  shows "cl_namespace (client_update e (Live_event ev) view) = cl_namespace view"
    "cl_generation (client_update e (Live_event ev) view) = cl_generation view"
    "cl_cursor (client_update e (Live_event ev) view) = sequence ev"
proof -
  obtain v where v: "project_event e ev view = Inr v"
    using assms by (cases "project_event e ev view") (simp_all add: client_update_def applyUpdate_def apply_event_def next_for_def)
  then have "client_update e (Live_event ev) view = v\<lparr>cl_cursor := sequence ev\<rparr>"
    using assms(1,2) by (simp add: client_update_def applyUpdate_def apply_event_def next_for_def)
  with project_identity [OF v] show "cl_namespace (client_update e (Live_event ev) view) = cl_namespace view"
    "cl_generation (client_update e (Live_event ev) view) = cl_generation view"
    "cl_cursor (client_update e (Live_event ev) view) = sequence ev" by (simp_all add: view_identity_def)
qed

lemma other_event_ignored:
  assumes "\<not> next_for view ev" "cl_connection view \<noteq> Resync" "cl_connection (client_update e (Live_event ev) view) \<noteq> Resync"
  shows "client_update e (Live_event ev) view = view"
  using assms by (simp add: client_update_def applyUpdate_def apply_event_def next_for_def split: if_splits)

lemma replayed_events:
  assumes "cl_connection (fold (client_update e) items view) \<noteq> Resync" "list_all (\<lambda>i. \<not> is_delta i) items"
  shows "\<exists>evs. subseq (map Live_event evs) items \<and> fold (client_update e) items view = fold (client_update e) (map Live_event evs) view \<and>
    map sequence evs = [cl_cursor view + 1 .. cl_cursor (fold (client_update e) items view)] \<and>
    cl_cursor view \<le> cl_cursor (fold (client_update e) items view) \<and>
    list_all (\<lambda>ev. ev_namespace ev = cl_namespace view \<and> ev_generation ev = cl_generation view) evs"
  using assms
proof (induction items arbitrary: view)
  case (Cons item items)
  let ?v = "client_update e item view"
  have live: "cl_connection ?v \<noteq> Resync" "cl_connection view \<noteq> Resync"
    using Cons.prems(1) updates_frozen update_frozen by (simp, blast)+
  obtain ev where item: "item = Live_event ev"
    using Cons.prems(2) live(1) by (cases item) (simp_all add: client_update_def applyUpdate_def)
  obtain evs where evs: "subseq (map Live_event evs) items"
      "fold (client_update e) items ?v = fold (client_update e) (map Live_event evs) ?v"
      "map sequence evs = [cl_cursor ?v + 1 .. cl_cursor (fold (client_update e) items ?v)]"
      "cl_cursor ?v \<le> cl_cursor (fold (client_update e) items ?v)"
      "list_all (\<lambda>ev. ev_namespace ev = cl_namespace ?v \<and> ev_generation ev = cl_generation ?v) evs"
    using Cons.IH [of ?v] Cons.prems by auto
  show ?case
  proof (cases "next_for view ev")
    case True
    note same = next_event_applied [OF True live(2) live(1) [unfolded item], folded item]
    have lt: "cl_cursor view + 1 \<le> cl_cursor (fold (client_update e) items ?v)"
      using evs(4) True same(3) by (simp add: next_for_def)
    then have "map sequence (ev # evs) = [cl_cursor view + 1 .. cl_cursor (fold (client_update e) items ?v)]"
      using evs(3) same(3) True upto_rec1 [of "cl_cursor view + 1" "cl_cursor (fold (client_update e) items ?v)"]
      by (simp add: next_for_def)
    moreover have "subseq (map Live_event (ev # evs)) (item # items)" using evs(1) item by simp
    moreover have "fold (client_update e) (item # items) view = fold (client_update e) (map Live_event (ev # evs)) view"
      using evs(2) item by simp
    moreover have "list_all (\<lambda>ev. ev_namespace ev = cl_namespace view \<and> ev_generation ev = cl_generation view) (ev # evs)"
      using evs(5) True same(1,2) by (simp add: next_for_def)
    ultimately show ?thesis using lt by (intro exI [of _ "ev # evs"] conjI) simp_all
  next
    case False
    have same: "?v = view" using other_event_ignored [OF False live(2) live(1) [unfolded item]] item by simp
    moreover have "subseq (map Live_event evs) (item # items)" using evs(1) by (rule list_emb_Cons)
    ultimately show ?thesis using evs by (intro exI [of _ evs] conjI) simp_all
  qed
qed simp

text \<open>
  C29. Unless the client has to resynchronise, everything durable in its view - commands,
  interactions, surfaces, deliveries, tools, status, cursor, stable messages and the timeline of
  durable items - is what the next events of its own session give when applied once each, in
  sequence and without a gap, up to the cursor: duplicates, foreign events and streamed deltas in
  between leave no durable trace.
\<close>

theorem durable_view_is_replay:
  assumes "client_restore e sid ask s = (Inr view, s')" "cl_connection (fold (client_update e) items view) \<noteq> Resync"
  shows "\<exists>evs. subseq (map Live_event evs) items \<and>
    map sequence evs = [cl_cursor view + 1 .. cl_cursor (fold (client_update e) items view)] \<and>
    list_all (\<lambda>ev. ev_namespace ev = cl_namespace view \<and> ev_generation ev = cl_generation view) evs \<and>
    same_durable (fold (client_update e) items view) (fold (client_update e) (map Live_event evs) view)"
proof -
  let ?items = "filter (\<lambda>i. \<not> is_delta i) items"
  have "placed view" using restored_view [OF assms(1)] by blast
  then have same: "same_durable (fold (client_update e) items view) (fold (client_update e) ?items view)"
    using updates_same [OF same_durable_refl _ _ assms(2)] by blast
  then have cur: "cl_cursor (fold (client_update e) items view) = cl_cursor (fold (client_update e) ?items view)"
    and live: "cl_connection (fold (client_update e) ?items view) \<noteq> Resync"
    using assms(2) unfolding same_durable_def by simp_all
  have "list_all (\<lambda>i. \<not> is_delta i) ?items" by (simp add: list_all_iff)
  from replayed_events [OF live this] obtain evs where evs: "subseq (map Live_event evs) ?items"
      "fold (client_update e) ?items view = fold (client_update e) (map Live_event evs) view"
      "map sequence evs = [cl_cursor view + 1 .. cl_cursor (fold (client_update e) ?items view)]"
      "list_all (\<lambda>ev. ev_namespace ev = cl_namespace view \<and> ev_generation ev = cl_generation view) evs"
    by blast
  have "subseq (map Live_event evs) items" using subseq_order.trans [OF evs(1) subseq_filter_left] .
  moreover have "map sequence evs = [cl_cursor view + 1 .. cl_cursor (fold (client_update e) items view)]"
    unfolding cur by (rule evs(3))
  moreover note evs(4) same [unfolded evs(2)]
  ultimately show ?thesis by blast
qed

lemma demo_followed: "cl_cursor (fold (client_update demo_env) demo_items demo_view) = 2"
  "cl_connection (fold (client_update demo_env) demo_items demo_view) = Attached"
proof -
  let ?v1 = "apply_delta ''g1'' ''p1'' ''m1'' [104] demo_view"
  have d: "?v1 = (order_item Item_message (messageKey ''p1'' ''m1'') 3 demo_view)\<lparr>cl_messages :=
      [(messageKey ''p1'' ''m1'', \<lparr>mv_commandId = ''p1'', mv_text = [104], mv_stable = False\<rparr>)]\<rparr>"
    by (simp add: apply_delta_def Let_def other_transient_def text_bytes_def jm_values_def byteLength_Cons utf8_char_def accessLimits_def)
       (simp add: demo_view_def jm_get_def jm_set_def view_settled_def new_command_def settled_state_def)
  have ev: "ev_namespace (demo_event i n a b) = demo_ns" "ev_generation (demo_event i n a b) = ''g1''" "sequence (demo_event i n a b) = n"
    "ev_commandId (demo_event i n a b) = Some ''p1''" "body (demo_event i n a b) = b" for i n a b
    by (simp_all add: demo_event_def)
  have v: "cl_namespace demo_view = demo_ns" "cl_generation demo_view = ''g1''" "cl_cursor demo_view = 1" "cl_connection demo_view = Attached"
    "cl_commands demo_view = [(''p1'', new_command demo_prompt)]"
    by (simp_all add: demo_view_def)
  have "fold (client_update demo_env) demo_items demo_view =
      (set_command_view ''p1'' ((new_command demo_prompt)\<lparr>cv_dispatch := Some (demo_attempt Intent)\<rparr>) ?v1)\<lparr>cl_cursor := 2\<rparr>"
    by (simp add: demo_items_def client_update_def applyUpdate_def apply_event_def project_event_def project_known_def project_body_def
        v ev d order_item_def jm_get_def jm_set_def view_settled_def settled_state_def new_command_def)
  then show "cl_cursor (fold (client_update demo_env) demo_items demo_view) = 2"
    "cl_connection (fold (client_update demo_env) demo_items demo_view) = Attached"
    by (simp_all add: d v order_item_def)
qed

theorem durable_view_is_replay_witness:
  "\<exists>evs. subseq (map Live_event evs) demo_items \<and> map sequence evs = [2..2] \<and>
    same_durable (fold (client_update demo_env) demo_items demo_view) (fold (client_update demo_env) (map Live_event evs) demo_view)"
proof -
  obtain s' where run: "client_restore demo_env ''s1'' demo_ask no_views = (Inr demo_view, s')" using demo_restored by blast
  have live: "cl_connection (fold (client_update demo_env) demo_items demo_view) \<noteq> Resync" by (simp add: demo_followed(2))
  have range: "[cl_cursor demo_view + 1..cl_cursor (fold (client_update demo_env) demo_items demo_view)] = [2..2]"
    unfolding demo_followed(1) by (simp add: demo_view_def)
  show ?thesis using durable_view_is_replay [OF run live] unfolding range by blast
qed

section \<open>A log the projection refuses\<close>

text \<open>
  The result of a tool that was never proposed: a commit accepts its event, but no view of the
  session exists afterwards, so no client can restore it.
\<close>

definition demo_orphan :: commit_batch where
  "demo_orphan = \<lparr>cb_providerFacts = [], cb_nowMs = Some 6, cb_namespace = demo_ns, cb_expectedRevision = 2,
     cb_expectedGeneration = ''g1'', cb_session = demo_session 3 4, cb_commands = [],
     cb_events = [demo_event ''e4'' 4 (Some ''x1'') (Tool_result ''t1'' Returned (utext_of ''ok''))],
     cb_interactions = [], cb_deliveries = [], cb_surfaces = []\<rparr>"

lemma demo_orphan_event: "valid demo_digest defaultLimits (Row_event (demo_event ''e4'' 4 (Some ''x1'') (Tool_result ''t1'' Returned (utext_of ''ok'')))) = None"
  by (intro row_validI; simp add: demo_defs row_eval is_safe_integer_def max_safe_def json_int_def decimal.simps
      byteLength_Cons utf8_char_def schema_eval)

lemma demo_orphan_run: "reduceCommit demo_env defaultLimits demo_dispatching demo_orphan False False = Inr (applied demo_dispatching demo_orphan)"
proof (rule reduceCommitI)
  show "rows_check demo_env defaultLimits demo_orphan = None"
    using demo_session_valid [of 3 4] demo_orphan_event
    by (simp add: rows_check_def batch_rows_def demo_orphan_def)
  show "collect_facts demo_env demo_dispatching demo_orphan = Inr []" by (simp add: demo_orphan_def collect_facts_def)
  show "commit_body demo_env defaultLimits demo_dispatching demo_orphan False demo_stage [] = Inr (applied demo_dispatching demo_orphan)"
    by (simp add: demo_orphan_def demo_eval)
qed (simp_all add: demo_orphan_def demo_eval schema_namespace_def)

theorem orphan_result_has_no_view:
  "reachable (applied demo_dispatching demo_orphan)" "workspace_view demo_env (applied demo_dispatching demo_orphan) = Inl Resync_required"
proof -
  have "commitSession demo_env defaultLimits demo_accepted demo_dispatch = Inr demo_dispatching"
    by (simp add: commitSession_def demo_dispatch_run)
  then have d: "reachable demo_dispatching"
    using Stepped [OF Stepped [OF Created [OF demo_create] Accept [OF demo_accept_run]] Commit] by blast
  have "commitSession demo_env defaultLimits demo_dispatching demo_orphan = Inr (applied demo_dispatching demo_orphan)"
    by (simp add: commitSession_def demo_orphan_run)
  then show "reachable (applied demo_dispatching demo_orphan)" by (rule Stepped [OF d Commit])
  let ?v0 = "demo_view\<lparr>cl_timeline := [], cl_connection := Detached, cl_commands := []\<rparr>"
  have ev: "ev_commandId (demo_event i n a b) = Some ''p1''" "body (demo_event i n a b) = b" "sequence (demo_event i n a b) = n" for i n a b
    by (simp_all add: demo_event_def)
  have start: "emptyView (demo_session 3 4) 4 = Inr (?v0\<lparr>cl_cursor := 4\<rparr>)"
    by (simp add: emptyView_def Let_def nonempty_member_def demo_active demo_view_def)
       (simp add: demo_session_def providerStage_def demo_binding_def)
  have events: "ws_events (applied demo_dispatching demo_orphan) = [demo_event ''e1'' 1 None (Command_accepted demo_prompt),
      demo_event ''e2'' 2 (Some ''x1'') (Dispatch_reported (demo_attempt Intent)),
      demo_event ''e3'' 3 (Some ''x1'') (Status_changed Live_dispatching),
      demo_event ''e4'' 4 (Some ''x1'') (Tool_result ''t1'' Returned (utext_of ''ok''))]"
    and session: "ws_session (applied demo_dispatching demo_orphan) = demo_session 3 4"
    by (simp_all add: applied_def demo_dispatching_simp demo_orphan_def)
  show "workspace_view demo_env (applied demo_dispatching demo_orphan) = Inl Resync_required"
    by (simp add: workspace_view_def session start restore_all_def events project_event_def project_accepted_def project_known_def project_body_def
        ev order_item_def demo_view_def jm_get_def jm_set_def jm_has_def new_command_def view_settled_def settled_state_def demo_prompt_def Let_def)
qed

end
