(* ===== verification/Reading_Guarantees.thy ===== *)
theory Reading_Guarantees
  imports Client_Guarantees
begin

text \<open>
  What the readers of a store may rely on: the views stay within their budget, a continuation is
  answered from what its first page captured, session lists are the caller's and complete, and
  what a client restores is the projection of a workspace the store held.
\<close>

section \<open>The budget of the views\<close>

text \<open>A store starts with no views: when it is opened, and after it was closed.\<close>

lemma no_views_after:
  "reading_open e bd db = Inr rd \<Longrightarrow> rd_views rd = no_views"
  "reading_close t sg ab cl rd = (r, rd') \<Longrightarrow> \<not> st_closed (rd_store rd) \<Longrightarrow> st_closed (rd_store rd') \<Longrightarrow>
     rd_views rd' = no_views\<lparr>vs_drawn := vs_drawn (rd_views rd)\<rparr>"
  by (auto simp: reading_open_def reading_close_def clear_views_def no_views_def split: prod.splits)

lemma no_views_inv: "views_inv uuid (no_views\<lparr>vs_drawn := k\<rparr>)"
  by (simp add: views_inv_def no_views_def view_bytes_def jm_values_def jm_wf_def jm_keys_def)

text \<open>
  C33. Whatever is written to and read from a store that started with no views, it retains at most
  128 captured views of at most 16 MiB together, counts exactly the bytes it retains, and every
  continuation it has issued and not dropped addresses a retained view under an identifier of
  its own.
\<close>

theorem views_bounded:
  assumes "rd_views rd0 = no_views\<lparr>vs_drawn := k\<rparr>" "(reading_step uuid until)\<^sup>*\<^sup>* rd0 rd"
    "id_supply uuid (vs_drawn (rd_views rd))"
  shows "length (vs_views (rd_views rd)) \<le> 128 \<and> vs_retained (rd_views rd) = view_bytes (rd_views rd) \<and>
    view_bytes (rd_views rd) \<le> 16777216 \<and> distinct (jm_keys (vs_tokens (rd_views rd))) \<and>
    tk_id ` set (jm_values (vs_tokens (rd_views rd))) \<subseteq> set (jm_keys (vs_views (rd_views rd)))"
proof -
  have "views_inv uuid (rd_views rd)"
    using reading_run_views [OF assms(3,2)] by (simp add: assms(1) no_views_inv)
  then show ?thesis
    by (auto simp: views_inv_def jm_has_keys jm_wf_def jm_keys_def)
qed

text \<open>The first page of the demonstration session.\<close>

lemma demo_first_page: "store_snapshotPage demo_env demo_bounds demo_uuid 0 demo_ns \<lparr>pq_limit = 1, pq_continuation = None\<rparr>
    (demo_reading no_views) = (Inr (demo_page 0 (Some ''vv'')), demo_reading demo_views)"
proof -
  obtain r rd where page: "store_snapshotPage demo_env demo_bounds demo_uuid 0 demo_ns \<lparr>pq_limit = 1, pq_continuation = None\<rparr>
      (demo_reading no_views) = (r, rd)" by (metis surj_pair)
  then have "rd_store rd = demo_store demo_db_accepted" by (cases rule: snapshot_run) (simp_all add: demo_reading_def)
  moreover have "r = Inr (demo_page 0 (Some ''vv''))" "rd_views rd = demo_views"
    using demo_first page by (auto simp: demo_ask_def split: sum.splits)
  ultimately show ?thesis using page by (simp add: demo_reading_def)
qed

theorem views_bounded_witness:
  "tk_id ` set (jm_values (vs_tokens demo_views)) \<subseteq> set (jm_keys (vs_views demo_views)) \<and>
    vs_retained demo_views = view_bytes demo_views"
proof -
  have run: "(reading_step demo_uuid 0)\<^sup>*\<^sup>* (demo_reading no_views) (demo_reading demo_views)"
    by (rule r_into_rtranclp, rule Reading_snapshot [OF demo_first_page]) simp
  have ids: "id_supply demo_uuid (vs_drawn (rd_views (demo_reading demo_views)))"
    using demo_supply by (simp add: demo_reading_def demo_views_def Let_def)
  have start: "rd_views (demo_reading no_views) = no_views\<lparr>vs_drawn := 0\<rparr>" by (simp add: demo_reading_def no_views_def)
  have views: "rd_views (demo_reading demo_views) = demo_views" by (simp add: demo_reading_def)
  from views_bounded [OF start run ids] show ?thesis unfolding views by blast
qed

section \<open>Continuations\<close>




text \<open>
  The pages of one snapshot: the first is cut from a fresh capture; each further one answers the
  continuation of the one before, after whatever else the store was asked, while the clock stays at or
  before \<open>until\<close>, within the lifetime of the capture.
\<close>

inductive served_page ::
  "env \<Rightarrow> bounds \<Rightarrow> (nat \<Rightarrow> id) \<Rightarrow> int \<Rightarrow> namespace \<Rightarrow> int \<Rightarrow> reading \<Rightarrow> nat \<Rightarrow> snapshot_page \<Rightarrow> reading \<Rightarrow> bool"
  for e :: env and bd :: bounds and uuid :: "nat \<Rightarrow> id" and until :: int and n :: namespace and limit :: int and rd0 :: reading where
  First_page: "store_snapshotPage e bd uuid now n \<lparr>pq_limit = limit, pq_continuation = None\<rparr> rd0 = (Inr page, rd1) \<Longrightarrow>
    until \<le> now + view_ttl \<Longrightarrow> served_page e bd uuid until n limit rd0 0 page rd1"
| Next_page: "served_page e bd uuid until n limit rd0 index page rd1 \<Longrightarrow> sn_next page = Some t \<Longrightarrow>
    (reading_step uuid until)\<^sup>*\<^sup>* rd1 rd2 \<Longrightarrow>
    store_snapshotPage e bd uuid later n \<lparr>pq_limit = limit, pq_continuation = Some t\<rparr> rd2 = (Inr page', rd3) \<Longrightarrow> later \<le> until \<Longrightarrow>
    served_page e bd uuid until n limit rd0 (Suc index) page' rd3"

abbreviation "snapshot_at uuid m bd until w limit n i offset index k nxt page vs \<equiv>
  page_at uuid m (page_limits bd) json_of_snapshot_page until (Snapshot_value (ws_session w) (snapshot_records w)) held_records
    limit (''snapshot:'' @ namespace_text n) build_snapshot i offset index k nxt page vs"

abbreviation "records_fit uuid m bd w \<equiv>
  each_fits uuid m (page_limits bd) json_of_snapshot_page build_snapshot (snapshot_records w)
    (Snapshot_value (ws_session w) (snapshot_records w))"






section \<open>Restoring a client\<close>

text \<open>
  C27. What a client restores page by page is the projection of one workspace the store held, whatever
  is written to the store and read from it between the requests: the outcome of the restore is the
  outcome of projecting the events and rows of that workspace. If the projection succeeds the restore
  succeeds with it, and the view mirrors every stored command, interaction and surface of the
  session; if the projection refuses, the restore fails with the same error. The claim is about restores
  whose first page was answered and that \<open>served\<close> and \<open>pageable\<close> describe: the session is kept and
  readable at every request, all requests are made within the 30 seconds one captured view lives, every
  session of the store was created with at most one stage, and the session has at most
  4095 records (the client stops at 4096 pages), each of which fits a page on its own.
\<close>

theorem client_restores_store:
  assumes "id_supply uuid m" "served e bd uuid until n limit holds held ask" "\<And>w. holds w \<Longrightarrow> pageable uuid m bd w"
    and "views_inv uuid (rd_views (held s))" "vs_drawn (rd_views (held s')) \<le> m"
    and "ask None s = (Inr page, s1)" "client_restore e (ns_sessionId n) ask s = (r, s')"
  shows "\<exists>st w. reachable_store st \<and> full_state e bd (st_db st) n = Inr w \<and> holds w \<and> r = workspace_view e w \<and>
    (\<forall>view. r = Inr view \<longrightarrow> mirrors view (content (st_db st) n (ws_session w)) \<and> view_inv view)"
  by (rule restored_from_store [OF assms(1,2) _ assms(4-7)]) (rule assms(3))

theorem client_restores_store_witness:
  "\<exists>st. reachable_store st \<and> full_state demo_env demo_bounds (st_db st) demo_ns = Inr demo_accepted \<and>
    mirrors demo_view (content (st_db st) demo_ns (demo_session 1 1))"
proof -
  obtain s' where run: "client_restore demo_env ''s1'' demo_ask no_views = (Inr demo_view, s')" and "vs_drawn s' \<le> 2"
    using demo_restored by blast
  then have drawn: "vs_drawn (rd_views (demo_reading s')) \<le> 2" by (simp add: demo_reading_def)
  have inv: "views_inv demo_uuid (rd_views (demo_reading no_views))"
    using no_views_inv [of demo_uuid 0] by (simp add: demo_reading_def no_views_def)
  have run: "client_restore demo_env (ns_sessionId demo_ns) demo_ask no_views = (Inr demo_view, s')"
    using run by (simp add: demo_ns_def)
  have "\<exists>st w. reachable_store st \<and> full_state demo_env demo_bounds (st_db st) demo_ns = Inr w \<and> w = demo_accepted \<and>
      Inr demo_view = workspace_view demo_env w \<and> (\<forall>view. Inr demo_view = (Inr view :: client_error + session_view) \<longrightarrow>
        mirrors view (content (st_db st) demo_ns (ws_session w)) \<and> view_inv view)"
    by (rule client_restores_store [OF demo_supply demo_served _ inv drawn demo_first run]) (simp add: demo_pageable)
  then show ?thesis by (auto simp: demo_accepted_def)
qed

section \<open>Session lists\<close>

text \<open>An item of the caller's list: an open session of the store under a short title on one line.\<close>

definition listed_item :: "database \<Rightarrow> caller \<Rightarrow> session_item \<Rightarrow> bool" where
  "listed_item db ca i \<longleftrightarrow> (\<exists>t. jm_get (li_presentation i) (utext_of ''title'') = Some (JStr t) \<and> 1 \<le> length t \<and> length t \<le> 32 \<and>
     no_runs False t) \<and> map_option status (jm_get (db_sessions db) (li_namespace i)) = Some (li_status i)"

definition open_sessions :: "database \<Rightarrow> caller \<Rightarrow> namespace set" where
  "open_sessions db ca = {n. caller_of n = ca \<and> map_option status (jm_get (db_sessions db) n) \<in> {Some Active, Some Recovery_required}}"

lemma list_item_Inr:
  assumes "list_item e bd db ca s = Inr i"
  obtains commands where "i = sessionListItem s commands"
  using assms by (auto simp: list_item_def)

lemma loop_items:
  "loop_exit (\<lambda>s items. and_then (f s) (\<lambda>i. Inr (items @ [i]))) rows items0 = Inr items \<Longrightarrow>
    \<exists>is. items = items0 @ is \<and> list_all2 (\<lambda>s i. f s = Inr i) rows is"
proof (induction rows arbitrary: items0)
  case (Cons s rows)
  then obtain i where i: "f s = Inr i" "loop_exit (\<lambda>s items. and_then (f s) (\<lambda>i. Inr (items @ [i]))) rows (items0 @ [i]) = Inr items"
    by (auto simp: and_then_def split: sum.splits)
  with Cons.IH [OF i(2)] show ?case by (force simp: append_eq_append_conv2 intro: list_all2_Cons [THEN iffD2])
qed simp

lemma captured_items:
  assumes db: "store_inv db" and items: "captured_sessions e bd db ca = Inr items"
  shows "list_all (listed_item db ca) items \<and> li_namespace ` set items = open_sessions db ca"
proof -
  let ?rows = "listed_sessions db ca"
  have all: "list_all2 (\<lambda>s i. list_item e bd db ca s = Inr i) ?rows items"
    using items loop_items [of "list_item e bd db ca" _ "[]" items]
    by (auto simp: captured_sessions_def sized_rows_def and_then_def split: if_splits)
  have get: "jm_get (db_sessions db) n = Some s \<longleftrightarrow> (n, s) \<in> set (db_sessions db)" for n s
    using db by (simp add: store_inv_def jm_mem_get)
  have key: "ss_namespace s = n" if "(n, s) \<in> set (db_sessions db)" for n s
    using db that [folded get] by (simp add: store_inv_def)
  have rows: "s \<in> set ?rows \<longleftrightarrow> jm_get (db_sessions db) (ss_namespace s) = Some s \<and> caller_of (ss_namespace s) = ca \<and>
      status s \<in> {Active, Recovery_required}" for s
  proof -
    have "s \<in> set ?rows \<longleftrightarrow> (\<exists>n. (n, s) \<in> set (db_sessions db) \<and> caller_of n = ca \<and> status s \<in> {Active, Recovery_required})"
      unfolding listed_sessions_def set_map set_sort set_filter image_iff by (simp add: Bex_def split_paired_Ex)
    then show ?thesis using key unfolding get by blast
  qed
  have item: "listed_item db ca i \<and> li_namespace i = ss_namespace s" if row: "s \<in> set ?rows" and got: "list_item e bd db ca s = Inr i" for s i
  proof -
    obtain commands where i: "i = sessionListItem s commands" using got by (rule list_item_Inr)
    show ?thesis using row [unfolded rows] title_length [of "first_prompt commands"] title_no_runs [of "first_prompt commands"]
      by (simp add: i listed_item_def sessionListItem_def)
  qed
  have "list_all2 (\<lambda>s i. listed_item db ca i \<and> li_namespace i = ss_namespace s) ?rows items"
    using all item by (auto intro: list.rel_mono_strong)
  then have "list_all (listed_item db ca) items" "map li_namespace items = map ss_namespace ?rows"
    by (induction rule: list_all2_induct) simp_all
  moreover have "ss_namespace ` set ?rows = open_sessions db ca"
  proof (intro set_eqI iffI)
    fix n assume "n \<in> ss_namespace ` set ?rows"
    then obtain s where "s \<in> set ?rows" "n = ss_namespace s" by blast
    then show "n \<in> open_sessions db ca" using rows [of s] by (simp add: open_sessions_def)
  next
    fix n assume "n \<in> open_sessions db ca"
    then obtain s where "jm_get (db_sessions db) n = Some s" "caller_of n = ca" "status s \<in> {Active, Recovery_required}"
      by (cases "jm_get (db_sessions db) n") (simp_all add: open_sessions_def)
    moreover from this(1) have "ss_namespace s = n" using key get by blast
    ultimately show "n \<in> ss_namespace ` set ?rows" using rows [of s] by blast
  qed
  ultimately show ?thesis by (metis list.set_map)
qed

text \<open>
  C32. The first page of a session list shows only open sessions of the caller, the most recently
  active first, each with its status and a title of 1 to 32 characters without runs of white
  space; when the page has no continuation it shows all of them.
\<close>

theorem session_list_page:
  assumes "reachable_store (rd_store rd)" "id_supply uuid m" "views_inv uuid (rd_views rd)"
    and "store_listSessions e bd uuid now ca q rd = (Inr page, rd')" "pq_continuation q = None" "vs_drawn (rd_views rd') \<le> m"
  shows "list_all (listed_item (st_db (rd_store rd)) ca) (sg_items page) \<and> sorted (map recent_order (sg_items page)) \<and>
    li_namespace ` set (sg_items page) \<subseteq> open_sessions (st_db (rd_store rd)) ca \<and>
    (sg_next page = None \<longrightarrow> li_namespace ` set (sg_items page) = open_sessions (st_db (rd_store rd)) ca)"
  using assms(4)
proof (cases rule: listing_run)
  case run
  let ?captured = "and_then (captured_sessions e bd (st_db (rd_store rd)) ca) (\<lambda>items. Inr (Sessions_value (sort_key recent_order items)))"
  let ?rows = "\<lambda>v. case v of Sessions_value items \<Rightarrow> items | _ \<Rightarrow> []"
  have cast: "session_rows store_thrown v = Inr (?rows v)" if "?captured = Inr v" for v
    using that by (auto simp: session_rows_def)
  have ttl: "now \<le> now + view_ttl" and start: "\<not> truthy_text (pq_continuation q)" by (simp_all add: view_ttl_def assms(5))
  obtain v i k nxt where v: "?captured = Inr v"
    and at: "page_at uuid m (page_limits bd) json_of_session_page now v ?rows (pq_limit q) (''list:'' @ caller_text ca) build_sessions i 0 0 k nxt page (rd_views rd')"
    using first_page [OF assms(2,3) ttl start run(3) assms(6) cast] by blast
  obtain items where items: "captured_sessions e bd (st_db (rd_store rd)) ca = Inr items" "v = Sessions_value (sort_key recent_order items)"
    using v by auto
  have page: "sg_items page = take k (sort_key recent_order items)" and nxt: "sg_next page = nxt"
    using at items(2) by (simp_all add: page_at_def build_sessions_def)
  have whole: "sg_items page = sort_key recent_order items" if "sg_next page = None"
    using that at items(2) by (simp add: page_at_def nxt page build_sessions_def)
  have sub: "set (sg_items page) \<subseteq> set items" unfolding page using set_take_subset by fastforce
  have "sorted (map recent_order (sg_items page))"
    unfolding page take_map [symmetric] by (rule sorted_wrt_take) simp
  with captured_items [OF reachable_store_inv [OF assms(1)] items(1)] sub whole show ?thesis
    by (auto simp: list_all_iff)
qed simp

text \<open>The list of the demonstration caller.\<close>

definition demo_item :: session_item where
  "demo_item = \<lparr>li_namespace = demo_ns, li_status = Active, li_lastActivityAtMs = 0,
     li_presentation = [(utext_of ''title'', JStr (utext_of ''hi''))]\<rparr>"

lemma demo_captured: "captured_sessions demo_env demo_bounds demo_db_accepted (caller_of demo_ns) = Inr [demo_item]"
proof -
  let ?s = "demo_session 1 1" and ?c = "demo_record Accepted"
  have rows: "listed_sessions demo_db_accepted (caller_of demo_ns) = [?s]"
    by (simp add: listed_sessions_def demo_db_accepted_def empty_database_def demo_session_def)
  have bytes: "row_bytes (Row_session ?s) \<le> 262144" "row_bytes (Row_record ?c) \<le> 262144"
    using demo_session_valid [of 1 1, THEN row_size(3)] demo_record_valid [of Accepted, THEN row_size(3)] by simp_all
  have commands: "jm_values (scoped demo_ns (db_commands demo_db_accepted)) = [?c]"
    by (simp add: demo_db_accepted_def empty_database_def scoped_Cons jm_values_def)
  have "decode_row demo_env (Row_record ?c) = None" using demo_record_valid [of Accepted] by (simp add: decode_row_def)
  moreover have "sessionListItem ?s [?c] = demo_item"
    by (simp add: sessionListItem_def demo_item_def demo_session_def demo_record_def demo_prompt_def demo_receipt_def first_prompt_def
        session_title_def js_trim_def js_space_def utext_of_def jm_set_def)
  moreover have "ss_namespace ?s = demo_ns" by (simp add: demo_session_def)
  ultimately have "list_item demo_env demo_bounds demo_db_accepted (caller_of demo_ns) ?s = Inr demo_item"
    using bytes commands
    by (simp add: list_item_def demo_decode sized_rows_def decode_all_def)
  then show ?thesis using bytes by (simp add: captured_sessions_def rows sized_rows_def)
qed

lemma demo_item_fits:
  "fits defaultLimits (json_of_view_value (Sessions_value [demo_item]))"
  "fits defaultLimits (json_of_session_page \<lparr>sg_items = [demo_item], sg_next = None\<rparr>)"
  by (rule fits_by_size; simp add: demo_item_def json_of_item_def json_of_session_page_def header_def demo_ns_def row_eval obj_def jid_def
      is_safe_integer_def max_safe_def json_int_def decimal.simps byteLength_Cons utf8_char_def)+

lemma demo_list_page: "\<exists>rd'. store_listSessions demo_env demo_bounds demo_uuid 0 (caller_of demo_ns) \<lparr>pq_limit = 1, pq_continuation = None\<rparr>
    (demo_reading no_views) = (Inr \<lparr>sg_items = [demo_item], sg_next = None\<rparr>, rd') \<and> vs_drawn (rd_views rd') \<le> 2"
proof -
  let ?q = "\<lparr>pq_limit = 1, pq_continuation = None\<rparr>" and ?v = "Sessions_value [demo_item]" and ?scope = "''list:'' @ caller_text (caller_of demo_ns)"
  let ?bytes = "byteLength (json_print (json_of_view_value ?v))"
  let ?vs = "\<lparr>vs_views = [(''v'', \<lparr>vw_scope = ?scope, vw_expires = view_ttl, vw_limit = 1, vw_value = ?v, vw_bytes = ?bytes, vw_continued = False\<rparr>)],
    vs_retained = ?bytes, vs_tokens = [], vs_drawn = 1\<rparr>"
  have fits: "boundedJson view_limits (json_of_view_value ?v) = Inr (json_print (json_of_view_value ?v))" "?bytes \<le> 16777216"
    using demo_item_fits(1) by (auto simp: boundedJson_Inr fits_def defaultLimits_def view_limits_def checkLimits_None max_safe_def)
  have read: "views_read demo_uuid store_thrown json_of_view_value view_ttl 0 ?scope ?q (Inr ?v) no_views =
      (Inr \<lparr>vp_id = ''v'', vp_offset = 0, vp_index = 0, vp_value = ?v\<rparr>, ?vs)"
    using fits
    by (simp add: views_read_def sweep_views_def live_tokens_def capture_view_def no_views_def is_safe_integer_def max_safe_def
        Let_def demo_uuid_def jm_set_def)
  have page: "boundedJson defaultLimits (json_of_session_page \<lparr>sg_items = [demo_item], sg_next = None\<rparr>) =
      Inr (json_print (json_of_session_page \<lparr>sg_items = [demo_item], sg_next = None\<rparr>))"
    using demo_item_fits(2) by (simp add: boundedJson_Inr)
  have run: "page_of demo_uuid defaultLimits json_of_session_page build_sessions (session_rows store_thrown) ?q
      (views_read demo_uuid store_thrown json_of_view_value view_ttl 0 ?scope ?q (Inr ?v) no_views) =
      (Inr \<lparr>sg_items = [demo_item], sg_next = None\<rparr>, finish_view ''v'' False ?vs)"
    unfolding read using page by (simp add: page_of_def session_rows_def fit_page.simps rest_token_def Let_def build_sessions_def)
  have db: "st_db (rd_store (demo_reading no_views)) = demo_db_accepted" "rd_views (demo_reading no_views) = no_views"
    "query (rd_store (demo_reading no_views)) r = r" for r :: "unit result"
    by (simp_all add: demo_reading_def demo_store_def query_def)
  have guard: "fail_if (\<not> valid_caller (caller_of demo_ns)) scope_failure = None"
    by (simp add: valid_caller_def caller_of_def demo_ns_def)
  have captured: "and_then (captured_sessions demo_env demo_bounds demo_db_accepted (caller_of demo_ns))
      (\<lambda>items. Inr (Sessions_value (sort_key recent_order items))) = Inr ?v"
    by (simp add: demo_captured)
  have "store_listSessions demo_env demo_bounds demo_uuid 0 (caller_of demo_ns) ?q (demo_reading no_views) =
      (Inr \<lparr>sg_items = [demo_item], sg_next = None\<rparr>, (demo_reading no_views)\<lparr>rd_views := finish_view ''v'' False ?vs\<rparr>)"
    unfolding store_listSessions_def query_views_def readSessionPage_def guard db captured demo_page_limits option.case sum.case run prod.case ..
  then show ?thesis by simp
qed

theorem session_list_page_witness:
  "listed_item demo_db_accepted (caller_of demo_ns) demo_item \<and> open_sessions demo_db_accepted (caller_of demo_ns) = {demo_ns}"
proof -
  obtain rd' where run: "store_listSessions demo_env demo_bounds demo_uuid 0 (caller_of demo_ns) \<lparr>pq_limit = 1, pq_continuation = None\<rparr>
      (demo_reading no_views) = (Inr \<lparr>sg_items = [demo_item], sg_next = None\<rparr>, rd')" and drawn: "vs_drawn (rd_views rd') \<le> 2"
    using demo_list_page by blast
  have inv: "views_inv demo_uuid (rd_views (demo_reading no_views))"
    using no_views_inv [of demo_uuid 0] by (simp add: demo_reading_def no_views_def)
  have store: "reachable_store (rd_store (demo_reading no_views))" "st_db (rd_store (demo_reading no_views)) = demo_db_accepted"
    using demo_reachable(2) by (simp_all add: demo_reading_def demo_store_def)
  from session_list_page [OF store(1) demo_supply inv run _ drawn] show ?thesis
    by (simp add: store(2)) (simp add: demo_item_def)
qed

end
