(* ===== verification/Keyset_Paging.thy ===== *)
theory Keyset_Paging
  imports Store_Reads
begin

text \<open>
  Facts about the keyset pages: a cursor is read back as the key it was printed from, whatever
  the identifiers, and stays within the length a request may carry; following the cursors over
  a store lists every matching row once, in the order of the keys.
\<close>

section \<open>Cursors are read back\<close>

lemma split_digits:
  "y < 16 \<Longrightarrow> (x * 16 + y) div 16 = (x :: nat)" "y < 16 \<Longrightarrow> (x * 16 + y) mod 16 = (y :: nat)"
  "y < 4 \<Longrightarrow> (x * 4 + y) div 4 = (x :: nat)" "y < 4 \<Longrightarrow> (x * 4 + y) mod 4 = (y :: nat)"
  by simp_all

lemma byte_digits: "b < 256 \<Longrightarrow> b div 16 < (16 :: nat)" "b < 256 \<Longrightarrow> b div 64 < (4 :: nat)" "b < 256 \<Longrightarrow> b div 4 < (64 :: nat)"
  by simp_all

lemma sextets_back: "list_all (\<lambda>b. b < 256) bs \<Longrightarrow> of_sextets (to_sextets bs) = bs"
proof (induction bs rule: to_sextets.induct)
  case (3 a b)
  then show ?case by (simp add: split_digits byte_digits)
next
  case (4 a b c bs)
  then show ?case by (simp add: split_digits byte_digits)
qed simp_all

lemma carried: "x < 4 \<Longrightarrow> y < 16 \<Longrightarrow> x * 16 + y < (64 :: nat)" "x < 16 \<Longrightarrow> y < 4 \<Longrightarrow> x * 4 + y < (64 :: nat)"
  by simp_all

lemma sextets_small: "list_all (\<lambda>b. b < 256) bs \<Longrightarrow> list_all (\<lambda>k. k < 64) (to_sextets bs)"
proof (induction bs rule: to_sextets.induct)
  case (2 a)
  then show ?case using carried(1) [of "a mod 4" 0] by simp
next
  case (3 a b)
  then show ?case using carried(2) [of "b mod 16" 0] by (simp add: carried byte_digits)
qed (simp_all add: carried byte_digits)

lemma sextets_length: "length (to_sextets bs) = (4 * length bs + 2) div 3"
  by (induction bs rule: to_sextets.induct) simp_all

lemma base64url_distinct: "distinct base64url" "length base64url = 64"
  by (simp_all add: base64url_def)

lemma index_nth: "distinct xs \<Longrightarrow> k < length xs \<Longrightarrow> index_of (xs ! k) xs = k"
  by (induction xs arbitrary: k) (auto simp: nth_Cons' nth_mem)

lemma base64url_back:
  assumes "list_all (\<lambda>b. b < 256) bs"
  shows "decode_base64url (encode_base64url bs) = bs" "set (encode_base64url bs) \<subseteq> set base64url"
proof -
  have small: "\<forall>k \<in> set (to_sextets bs). k < 64" using sextets_small [OF assms] by (simp add: list_all_iff)
  then have "map (\<lambda>k. index_of (base64url ! k) base64url) (to_sextets bs) = to_sextets bs"
    using index_nth [OF base64url_distinct(1)] base64url_distinct(2) by (simp add: map_idI)
  then show "decode_base64url (encode_base64url bs) = bs"
    using sextets_back [OF assms] by (simp add: decode_base64url_def encode_base64url_def comp_def)
  show "set (encode_base64url bs) \<subseteq> set base64url"
    using small base64url_distinct(2) by (auto simp: encode_base64url_def)
qed

text \<open>An identifier prints between quotes, unescaped; as JSON it is read back.\<close>

lemma id_char_code: "id_char c \<Longrightarrow> (of_char c :: nat) \<ge> 43 \<and> of_char c \<noteq> (92 :: nat) \<and> of_char c < (128 :: nat)"
  by (auto simp: id_char_def alphanumeric_def Let_def)

lemma isId_chars: "isId s \<Longrightarrow> list_all id_char s \<and> length s \<le> 128 \<and> s \<noteq> []"
  by (cases s) (auto simp: isId_def id_char_def)

lemma id_text: "isId s \<Longrightarrow> list_all (\<lambda>c. c < 128) (utext_of s) \<and> concat (map json_escape (utext_of s)) = utext_of s"
proof -
  have "list_all (\<lambda>c. c < 128) (utext_of t) \<and> concat (map json_escape (utext_of t)) = utext_of t" if "list_all id_char t" for t
    using that by (induction t) (auto simp: utext_of_def json_escape_def dest: id_char_code)
  then show "isId s \<Longrightarrow> ?thesis" using isId_chars by blast
qed

lemma id_back: "isId s \<Longrightarrow> id_of_json (jid s) = Some s"
  using id_text [of s] by (simp add: jid_def utext_of_def comp_def)

lemma ids_back: "list_all isId ks \<Longrightarrow> length ks = 5 \<Longrightarrow> key_of_json (JArr (map jid ks)) = Some ks"
  by (auto simp: list_all_iff id_back comp_def map_idI)

lemma printed_ids:
  assumes "list_all isId ks"
  shows "list_all (\<lambda>c. c < 128) (concat (parts_items (map jid ks) b)) \<and> length (concat (parts_items (map jid ks) b)) \<le> 131 * length ks"
  using assms
proof (induction ks arbitrary: b)
  case (Cons k ks)
  have "length (utext_of k) \<le> 128" using isId_chars [of k] Cons.prems by (simp add: utext_of_def)
  then show ?case using Cons.IH [of False] Cons.prems id_text [of k] by (auto simp: jid_def json_quote_def)
qed simp

lemma cursor_back:
  assumes "length ks = 5" "list_all isId ks" "parse (json_print (JArr (map jid ks))) = Some (JArr (map jid ks))"
  shows "decode_cursor parse (encode_cursor ks) = Some ks"
proof -
  let ?text = "json_print (JArr (map jid ks))"
  have ascii: "list_all (\<lambda>c. c < 128) ?text" and len: "2 \<le> length ?text" "length ?text \<le> 657"
    using printed_ids [OF assms(2), of True] assms(1) by (simp_all add: json_print_def)
  then have bytes: "list_all (\<lambda>b. b < 256) ?text" by (auto simp: list_all_iff)
  have "length (encode_cursor ks) = (4 * length ?text + 2) div 3"
    by (simp add: encode_cursor_def encode_base64url_def sextets_length)
  then have "1 \<le> length (encode_cursor ks) \<and> length (encode_cursor ks) \<le> 2048" using len by linarith
  then show ?thesis
    using base64url_back [OF bytes] assms(3) ids_back [OF assms(2,1)]
    by (auto simp: decode_cursor_def encode_cursor_def)
qed

section \<open>Pages in key order\<close>

text \<open>The keys of a table are distinct, and those of rows that decode are well formed.\<close>

definition well_keyed :: "env \<Rightarrow> ('v \<Rightarrow> row) \<Rightarrow> 'v table \<Rightarrow> bool" where
  "well_keyed e as_row t \<longleftrightarrow> jm_wf t \<and>
     (\<forall>((n, i), v) \<in> set t. schema_namespace n \<and> (decode_row e (as_row v) = None \<longrightarrow> isId i))"

lemma row_key_inj: "row_key j = row_key k \<Longrightarrow> j = k"
  by (cases j; cases k) (auto simp: row_key_def intro: namespace.equality)

lemma rows_keys: "set (map fst (keyset_rows P t)) = row_key ` fst ` set (filter (\<lambda>(k, v). P v) t)"
  by (force simp: keyset_rows_def)

lemma rows_sorted: "jm_wf t \<Longrightarrow> sorted_wrt (<) (map fst (keyset_rows P t))"
proof -
  assume wf: "jm_wf t"
  have "distinct (map fst (filter (\<lambda>(k, v). P v) t))" using jm_wf_filter [OF wf] by (simp add: jm_wf_def)
  then have "distinct (map row_key (map fst (filter (\<lambda>(k, v). P v) t)))"
    by (simp only: distinct_map) (auto intro: inj_onI dest: row_key_inj)
  then have "distinct (map fst (map (\<lambda>(k, v). (row_key k, v)) (filter (\<lambda>(k, v). P v) t)))"
    by (simp add: comp_def case_prod_unfold)
  then have "distinct (map fst (keyset_rows P t))" unfolding keyset_rows_def distinct_map [of fst] by (simp only: distinct_sort set_sort)
  moreover have "sorted (map fst (keyset_rows P t))" by (simp add: keyset_rows_def)
  ultimately show ?thesis by (simp add: strict_sorted_iff)
qed

lemma rows_ids:
  "well_keyed e as_row t \<Longrightarrow> (k, v) \<in> set (keyset_rows P t) \<Longrightarrow> decode_row e (as_row v) = None \<Longrightarrow> length k = 5 \<and> list_all isId k"
  by (fastforce simp: well_keyed_def keyset_rows_def row_key_def schema_namespace_def split: prod.splits)

text \<open>What lies beyond the key of a row is the rest of the rows.\<close>

lemma after_nth:
  assumes "sorted_wrt (<) (map fst rows)" "j < length rows"
  shows "after_key (Some (fst (rows ! j))) rows = drop (Suc j) rows"
  using assms
proof (induction rows arbitrary: j)
  case (Cons r rows)
  show ?case
  proof (cases j)
    case 0
    have "\<forall>x \<in> set rows. fst r < fst x" using Cons.prems(1) by auto
    then have "filter (\<lambda>(j, v). fst r < j) rows = rows" by (auto simp: filter_id_conv)
    then show ?thesis using 0 by (simp add: after_key_def case_prod_unfold)
  next
    case (Suc i)
    have "fst r < fst (rows ! i)" using Cons.prems Suc by auto
    then have "\<not> fst (rows ! i) < fst r" by (rule less_not_sym)
    then show ?thesis using Cons.IH [of i] Cons.prems Suc by (simp add: after_key_def case_prod_unfold)
  qed
qed simp

text \<open>The cursor a reader holds after the first \<open>p\<close> rows.\<close>

definition cursor_at :: "(id list \<times> 'v) list \<Rightarrow> nat \<Rightarrow> string option" where
  "cursor_at rows p = (if p = 0 then None else Some (encode_cursor (fst (rows ! (p - 1)))))"

definition parses_ids :: "(nat list \<Rightarrow> json option) \<Rightarrow> bool" where
  "parses_ids parse \<longleftrightarrow> (\<forall>ks. list_all isId ks \<longrightarrow> parse (json_print (JArr (map jid ks))) = Some (JArr (map jid ks)))"

text \<open>A position a reader may be at: the rows before it were decoded.\<close>

definition read_to :: "env \<Rightarrow> ('v \<Rightarrow> row) \<Rightarrow> (id list \<times> 'v) list \<Rightarrow> nat \<Rightarrow> bool" where
  "read_to e as_row rows p \<longleftrightarrow> p \<le> length rows \<and> (\<forall>(k, v) \<in> set (take p rows). decode_row e (as_row v) = None)"

lemma cursor_position:
  assumes "well_keyed e as_row t" "parses_ids parse" "read_to e as_row (keyset_rows P t) p"
  shows "\<exists>cursor. page_cursor parse (cursor_at (keyset_rows P t) p) = Inr cursor \<and>
    after_key cursor (keyset_rows P t) = drop p (keyset_rows P t)"
proof (cases p)
  case 0
  then show ?thesis by (simp add: page_cursor_def cursor_at_def after_key_def)
next
  case (Suc j)
  let ?rows = "keyset_rows P t"
  have "?rows ! j \<in> set (take p ?rows)" using assms(3) Suc by (auto simp: read_to_def in_set_conv_nth)
  then have "(fst (?rows ! j), snd (?rows ! j)) \<in> set ?rows" "decode_row e (as_row (snd (?rows ! j))) = None"
    using assms(3) by (auto simp: read_to_def dest: in_set_takeD)
  from rows_ids [OF assms(1) this] have "length (fst (?rows ! j)) = 5 \<and> list_all isId (fst (?rows ! j))" .
  then have "decode_cursor parse (encode_cursor (fst (?rows ! j))) = Some (fst (?rows ! j))"
    using cursor_back assms(2) by (simp add: parses_ids_def)
  moreover have "sorted_wrt (<) (map fst ?rows)" using assms(1) by (simp add: well_keyed_def rows_sorted)
  ultimately show ?thesis using after_nth [of ?rows j] assms(3) Suc by (simp add: page_cursor_def cursor_at_def read_to_def)
qed

text \<open>A page that is returned is the next \<open>lim\<close> rows, with a cursor when rows remain.\<close>

lemma page_at_cursor:
  assumes "well_keyed e as_row t" "parses_ids parse" "read_to e as_row (keyset_rows P t) p"
    "keyset_page e bd parse as_row P t lim (cursor_at (keyset_rows P t) p) = Inr page"
  shows "1 \<le> lim" "kp_items page = map snd (take (nat lim) (drop p (keyset_rows P t)))"
    "kp_next page = (if p + nat lim < length (keyset_rows P t) then cursor_at (keyset_rows P t) (p + nat lim) else None)"
    "read_to e as_row (keyset_rows P t) (min (p + nat lim) (length (keyset_rows P t)))"
    "\<forall>(k, v) \<in> set (take (nat lim) (drop p (keyset_rows P t))). decode_row e (as_row v) = None"
proof -
  let ?rows = "keyset_rows P t"
  obtain cursor where "page_cursor parse (cursor_at ?rows p) = Inr cursor" "after_key cursor ?rows = drop p ?rows"
    using cursor_position [OF assms(1-3)] by blast
  with assms(4) have lim: "1 \<le> lim" and page: "page = cut_page (nat lim) (take (nat lim + 1) (drop p ?rows))"
    and rows: "\<forall>x \<in> set (take (nat lim) (drop p ?rows)). decode_row e (as_row (snd x)) = None"
    by (auto simp: keyset_page_def bounded_answer_def decode_all_def Let_def split: if_splits sum.splits option.splits)
  show "1 \<le> lim" by (rule lim)
  show "\<forall>(k, v) \<in> set (take (nat lim) (drop p ?rows)). decode_row e (as_row v) = None" using rows by auto
  show "kp_items page = map snd (take (nat lim) (drop p ?rows))" by (simp add: page cut_page_def)
  show "kp_next page = (if p + nat lim < length ?rows then cursor_at ?rows (p + nat lim) else None)"
    using lim by (auto simp: page cut_page_def cursor_at_def add.commute nth_drop)
  show "read_to e as_row ?rows (min (p + nat lim) (length ?rows))"
  proof -
    have "take (min (p + nat lim) (length ?rows)) ?rows = take p ?rows @ take (nat lim) (drop p ?rows)"
      using take_add [of p "nat lim" ?rows] by (simp add: min_def)
    then show ?thesis using rows assms(3) by (auto simp: read_to_def ball_Un case_prod_unfold)
  qed
qed

section \<open>Reading to the end\<close>

definition keyset_ask ::
  "(string option \<Rightarrow> 'v keyset_page result) \<Rightarrow> string option \<Rightarrow> unit \<Rightarrow> (failure option + 'v keyset_page) \<times> unit" where
  "keyset_ask ask after u = (case ask after of Inl f \<Rightarrow> (Inl (Some f), u) | Inr page \<Rightarrow> (Inr page, u))"

definition keyset_all :: "nat \<Rightarrow> (string option \<Rightarrow> 'v keyset_page result) \<Rightarrow> failure option + 'v list" where
  "keyset_all fuel ask =
     fst (fetch None kp_next (keyset_ask ask) (\<lambda>page rows. Inr (rows @ kp_items page)) fuel None [] ())"

lemma encode_nonempty: "encode_cursor ks \<noteq> []"
proof -
  have "length (encode_cursor ks) = (4 * length (json_print (JArr (map jid ks))) + 2) div 3"
    by (simp add: encode_cursor_def encode_base64url_def sextets_length)
  moreover have "1 \<le> length (json_print (JArr (map jid ks)))" by (simp add: json_print_def)
  ultimately have "0 < length (encode_cursor ks)" by linarith
  then show ?thesis by simp
qed

text \<open>
  Following the cursors ends, after at most one request per row, with every row visited in
  order or with a failure that a request returned. \<open>visited rows\<close> is what the reader holds after
  \<open>rows\<close>.
\<close>

definition gathers :: "env \<Rightarrow> ('v \<Rightarrow> row) \<Rightarrow> ('v keyset_page \<Rightarrow> 'c \<Rightarrow> failure option + 'c) \<Rightarrow> ((id list \<times> 'v) list \<Rightarrow> 'c) \<Rightarrow> bool" where
  "gathers e as_row visit_page visited \<longleftrightarrow> (\<forall>page rows more. kp_items page = map snd more \<longrightarrow>
     (\<forall>(k, v) \<in> set more. decode_row e (as_row v) = None) \<longrightarrow> visit_page page (visited rows) = Inr (visited (rows @ more)))"

definition rows_left ::
  "env \<Rightarrow> (nat list \<Rightarrow> json option) \<Rightarrow> ('v \<Rightarrow> row) \<Rightarrow> ('v \<Rightarrow> bool) \<Rightarrow> (namespace \<times> id, 'v) jsmap
     \<Rightarrow> ('v keyset_page \<Rightarrow> 'c \<Rightarrow> failure option + 'c) \<Rightarrow> ((id list \<times> 'v) list \<Rightarrow> 'c) \<Rightarrow> nat \<Rightarrow> string option \<Rightarrow> 'c \<Rightarrow> bool" where
  "rows_left e parse as_row P t visit_page visited left after c \<longleftrightarrow>
     well_keyed e as_row t \<and> parses_ids parse \<and> gathers e as_row visit_page visited \<and>
     (\<exists>p. left = max 1 (length (keyset_rows P t) - p) \<and> after = cursor_at (keyset_rows P t) p \<and>
       c = visited (take p (keyset_rows P t)) \<and> read_to e as_row (keyset_rows P t) p)"

lemma rows_progress:
  assumes at: "rows_left e parse as_row P t visit_page visited left after c" and page: "keyset_page e bd parse as_row P t lim after = Inr page"
  shows "\<exists>c'. visit_page page c = Inr c' \<and>
    (if truthy_text (kp_next page) then \<exists>left'<left. rows_left e parse as_row P t visit_page visited left' (kp_next page) c'
     else c' = visited (keyset_rows P t) \<and> read_to e as_row (keyset_rows P t) (length (keyset_rows P t)))"
proof -
  let ?rows = "keyset_rows P t"
  from at obtain p where keyed: "well_keyed e as_row t" "parses_ids parse" and gathers: "gathers e as_row visit_page visited"
    and p: "left = max 1 (length ?rows - p)" "after = cursor_at ?rows p" "c = visited (take p ?rows)" "read_to e as_row ?rows p"
    unfolding rows_left_def by blast
  note next_rows = page_at_cursor [OF keyed p(4) page [unfolded p(2)]]
  have acc: "visit_page page c = Inr (visited (take (p + nat lim) ?rows))"
    using gathers next_rows(2,5) unfolding gathers_def p(3) by (simp add: take_add)
  show ?thesis
  proof (cases "p + nat lim < length ?rows")
    case True
    then have nxt: "kp_next page = cursor_at ?rows (p + nat lim)" "truthy_text (kp_next page)"
      using next_rows(1,3) by (simp_all add: cursor_at_def encode_nonempty)
    have "rows_left e parse as_row P t visit_page visited (max 1 (length ?rows - (p + nat lim))) (kp_next page) (visited (take (p + nat lim) ?rows))"
      unfolding rows_left_def using keyed gathers nxt(1) next_rows(4) True
      by (intro conjI exI [of _ "p + nat lim"]) simp_all
    moreover have "max 1 (length ?rows - (p + nat lim)) < left" using True next_rows(1) p(1) by simp
    ultimately show ?thesis using acc nxt(2) by (simp only: if_True) blast
  qed (use acc next_rows(3,4) in simp)
qed

interpretation rows: paged_source kp_next "keyset_ask (keyset_page e bd parse as_row P t lim)" visit_page "\<lambda>u. True"
    "\<lambda>left after c u. rows_left e parse as_row P t visit_page visited left after c" "\<lambda>e. \<exists>f. e = Some f"
    "\<lambda>c. c = visited (keyset_rows P t) \<and> read_to e as_row (keyset_rows P t) (length (keyset_rows P t))"
  for e bd parse and as_row :: "'v \<Rightarrow> row" and P t lim and visit_page :: "'v keyset_page \<Rightarrow> 'c \<Rightarrow> failure option + 'c" and visited
proof
  fix left after c u r u'
  assume "rows_left e parse as_row P t visit_page visited left after c" "keyset_ask (keyset_page e bd parse as_row P t lim) after u = (r, u')"
  with rows_progress [OF this(1)]
  show "(\<exists>x. r = Inl x \<and> (\<exists>f. x = Some f)) \<or> (\<exists>page c'. r = Inr page \<and> visit_page page c = Inr c' \<and>
      (if truthy_text (kp_next page) then \<exists>left'<left. rows_left e parse as_row P t visit_page visited left' (kp_next page) c'
       else c' = visited (keyset_rows P t) \<and> read_to e as_row (keyset_rows P t) (length (keyset_rows P t))))"
    by (cases "keyset_page e bd parse as_row P t lim after") (fastforce simp: keyset_ask_def)+
qed (auto simp: rows_left_def)

lemma keyset_fetched:
  assumes "well_keyed e as_row t" "parses_ids parse" "gathers e as_row visit_page visited" "length (keyset_rows P t) < fuel"
    "fetch None kp_next (keyset_ask (keyset_page e bd parse as_row P t lim)) visit_page fuel None (visited []) () = (r, u)"
  shows "(\<exists>f. r = Inl (Some f)) \<or> r = Inr (visited (keyset_rows P t)) \<and> read_to e as_row (keyset_rows P t) (length (keyset_rows P t))"
proof -
  have "rows_left e parse as_row P t visit_page visited (max 1 (length (keyset_rows P t))) None (visited [])"
    unfolding rows_left_def using assms(1-3) by (intro conjI exI [of _ 0]) (simp_all add: cursor_at_def read_to_def)
  from rows.fetch_ends [OF this _ assms(5)] show ?thesis using assms(4) by auto
qed

lemma keyset_reads_all:
  assumes "well_keyed e as_row t" "parses_ids parse" "length (keyset_rows P t) < fuel"
  shows "(\<exists>f. keyset_all fuel (keyset_page e bd parse as_row P t lim) = Inl (Some f)) \<or>
    keyset_all fuel (keyset_page e bd parse as_row P t lim) = Inr (map snd (keyset_rows P t))"
proof -
  obtain r u where "fetch None kp_next (keyset_ask (keyset_page e bd parse as_row P t lim)) (\<lambda>page acc. Inr (acc @ kp_items page))
      fuel None [] () = (r, u)" by (metis surj_pair)
  moreover have "gathers e as_row (\<lambda>page acc. Inr (acc @ kp_items page)) (map snd)" by (simp add: gathers_def)
  ultimately show ?thesis using keyset_fetched [OF assms(1,2) _ assms(3)] by (fastforce simp: keyset_all_def)
qed

section \<open>The sessions a starting host resumes\<close>

text \<open>
  \<^verbatim>\<open>start\<close> of \<^verbatim>\<open>ai-host/src/index.ts\<close>: the namespaces of all unsettled commands, read in pages of
  128, one entry for each session.
\<close>

definition add_namespace :: "command_record \<Rightarrow> (string, namespace) jsmap \<Rightarrow> failure option + (string, namespace) jsmap" where
  "add_namespace c m = (let n = rc_namespace (cr_receipt c) in
     case namespaceKey n of Inl x \<Rightarrow> Inl (Some (exit_failure x)) | Inr k \<Rightarrow> Inr (jm_set m k n))"

definition recovery_namespaces ::
  "env \<Rightarrow> bounds \<Rightarrow> (nat list \<Rightarrow> json option) \<Rightarrow> nat \<Rightarrow> store \<Rightarrow> failure option + (string, namespace) jsmap" where
  "recovery_namespaces e bd parse fuel st = fst (fetch None kp_next
     (keyset_ask (\<lambda>after. store_recovery e bd parse 128 after st))
     (\<lambda>page m. loop_exit add_namespace (kp_items page) m) fuel None [] ())"

definition named_sessions :: "command_record list \<Rightarrow> (string, namespace) jsmap" where
  "named_sessions cs = fold (\<lambda>c m. jm_set m (namespace_text (rc_namespace (cr_receipt c))) (rc_namespace (cr_receipt c))) cs []"

lemma decoded_record: "decode_row e (Row_record c) = None \<Longrightarrow> schema_namespace (rc_namespace (cr_receipt c)) \<and> isId (record_id c)"
  by (auto simp: decode_row_def valid_None schema_record_def schema_receipt_def schema_command_def split: option.splits if_splits)

lemma add_namespaces:
  assumes "list_all (\<lambda>c. schema_namespace (rc_namespace (cr_receipt c))) cs"
  shows "loop_exit add_namespace cs m =
    Inr (fold (\<lambda>c m. jm_set m (namespace_text (rc_namespace (cr_receipt c))) (rc_namespace (cr_receipt c))) cs m)"
  using assms by (induction cs arbitrary: m) (simp_all add: add_namespace_def namespaceKey_def Let_def)

lemma named_sessions_values:
  assumes "list_all (\<lambda>c. schema_namespace (rc_namespace (cr_receipt c))) cs"
  shows "set (jm_values (named_sessions cs)) = (\<lambda>c. rc_namespace (cr_receipt c)) ` set cs \<and>
    keyed namespace_text (named_sessions cs)"
  using assms
proof (induction cs rule: rev_induct)
  case (snoc c cs)
  let ?n = "rc_namespace (cr_receipt c)" and ?m = "named_sessions cs"
  have step: "named_sessions (cs @ [c]) = jm_set ?m (namespace_text ?n) ?n" by (simp add: named_sessions_def)
  have m: "set (jm_values ?m) = (\<lambda>c. rc_namespace (cr_receipt c)) ` set cs" "keyed namespace_text ?m" using snoc by simp_all
  have "set (jm_values (jm_set ?m (namespace_text ?n) ?n)) = insert ?n (set (jm_values ?m))"
  proof (cases "jm_get ?m (namespace_text ?n)")
    case None
    then show ?thesis by (rule jm_add_entry(2))
  next
    case (Some w)
    then have w: "w \<in> set (jm_values ?m)" "namespace_text w = namespace_text ?n"
      by (rule jm_values_get, rule keyed_get [OF m(2)])
    then have "w = ?n" using m(1) snoc.prems namespace_text_inj by (fastforce simp: list_all_iff)
    then have "jm_set ?m (namespace_text ?n) ?n = ?m" using Some jm_set_same by simp
    then show ?thesis using w(1) \<open>w = ?n\<close> by auto
  qed
  moreover have "keyed namespace_text (jm_set ?m (namespace_text ?n) ?n)" using m(2) by (rule keyed_set)
  ultimately show ?case using m(1) by (simp add: step)
qed (simp add: named_sessions_def keyed_def jm_wf_def jm_values_def jm_get_def)

lemma recovery_reads_all:
  assumes "well_keyed e Row_record (db_commands (st_db st))" "parses_ids parse" "\<not> st_closing st" "\<not> st_closed st"
    "length (filter (\<lambda>(k, c). unsettled c) (db_commands (st_db st))) < fuel"
  shows "(\<exists>f. recovery_namespaces e bd parse fuel st = Inl (Some f)) \<or>
    (\<exists>m. recovery_namespaces e bd parse fuel st = Inr m \<and>
      distinct (jm_values m) \<and> set (jm_values m) =
        (\<lambda>c. rc_namespace (cr_receipt c)) ` {c \<in> set (jm_values (db_commands (st_db st))). unsettled c})"
proof -
  let ?t = "db_commands (st_db st)" and ?visited = "\<lambda>rows. named_sessions (map snd rows)"
  let ?reader = "keyset_page e bd parse Row_record unsettled ?t 128"
  have reader: "(\<lambda>after. store_recovery e bd parse 128 after st) = ?reader"
    using assms(3,4) by (auto simp: store_recovery_def query_def)
  obtain r u where run: "fetch None kp_next (keyset_ask ?reader) (\<lambda>page m. loop_exit add_namespace (kp_items page) m) fuel None [] () = (r, u)"
    by (metis surj_pair)
  then have r: "recovery_namespaces e bd parse fuel st = r" by (simp add: recovery_namespaces_def reader)
  have "gathers e Row_record (\<lambda>page m. loop_exit add_namespace (kp_items page) m) ?visited"
    unfolding gathers_def
  proof (intro allI impI)
    fix page :: "command_record keyset_page" and rows more
    assume page: "kp_items page = map snd more" "\<forall>(k, c) \<in> set more. decode_row e (Row_record c) = None"
    then have "list_all (\<lambda>c. schema_namespace (rc_namespace (cr_receipt c))) (kp_items page)"
      using decoded_record by (fastforce simp: list_all_iff)
    then show "loop_exit add_namespace (kp_items page) (?visited rows) = Inr (?visited (rows @ more))"
      by (simp add: add_namespaces named_sessions_def page(1))
  qed
  moreover have "length (keyset_rows unsettled ?t) < fuel" using assms(5) by (simp add: keyset_rows_def)
  moreover have "?visited [] = []" by (simp add: named_sessions_def)
  ultimately have "(\<exists>f. r = Inl (Some f)) \<or> r = Inr (?visited (keyset_rows unsettled ?t)) \<and>
      read_to e Row_record (keyset_rows unsettled ?t) (length (keyset_rows unsettled ?t))"
    using keyset_fetched [OF assms(1,2), where visited = ?visited] run by simp
  moreover have "set (map snd (keyset_rows unsettled ?t)) = {c \<in> set (jm_values ?t). unsettled c}"
    by (force simp: keyset_rows_def jm_values_def)
  moreover have "list_all (\<lambda>c. schema_namespace (rc_namespace (cr_receipt c))) (map snd (keyset_rows unsettled ?t))"
    if "read_to e Row_record (keyset_rows unsettled ?t) (length (keyset_rows unsettled ?t))"
    using that decoded_record by (fastforce simp: read_to_def list_all_iff)
  moreover have "distinct (jm_values m)" if "keyed namespace_text m" for m
    using keyed_values_distinct [OF that] by (simp add: distinct_map)
  ultimately show ?thesis unfolding r by (metis named_sessions_values)
qed

section \<open>Reachable tables are well keyed\<close>

lemma scoped_mem: "((n, k), v) \<in> set t \<longleftrightarrow> (k, v) \<in> set (scoped n t)"
  by (force simp: scoped_def)

lemma table_wf: "(\<And>n. jm_wf (scoped n t)) \<Longrightarrow> jm_wf t"
proof (induction t)
  case (Cons row t)
  obtain m k v where row: "row = ((m, k), v)" by (metis surj_pair)
  have "jm_wf (scoped n t)" for n using Cons.prems [of n] by (auto simp: scoped_Cons row jm_wf_def split: if_splits)
  moreover have "(m, k) \<notin> fst ` set t"
  proof
    assume "(m, k) \<in> fst ` set t"
    then obtain w where "((m, k), w) \<in> set t" by force
    then have "(k, w) \<in> set (scoped m t)" by (simp add: scoped_mem)
    then have "k \<in> fst ` set (scoped m t)" by force
    then show False using Cons.prems [of m] by (simp add: scoped_Cons row jm_wf_def)
  qed
  ultimately show ?case using Cons.IH by (simp add: jm_wf_def row)
qed (simp add: jm_wf_def)

lemma stored_keyed:
  assumes "store_inv db"
  shows "keyed record_id (scoped n (db_commands db)) \<and> keyed operationId (scoped n (db_deliveries db)) \<and>
    (scoped n (db_commands db) = [] \<and> scoped n (db_deliveries db) = [] \<or> schema_namespace n)"
proof (cases "jm_get (db_sessions db) n")
  case None
  then show ?thesis using assms by (simp add: store_inv_def no_rows_def)
next
  case (Some s)
  then have "ws_inv (content db n s)" "ss_namespace s = n" using assms reachable_inv by (auto simp: store_inv_def)
  then show ?thesis by (simp add: ws_inv_def ws_keyed_def) (simp add: content_def)
qed

lemma decoded_delivery: "decode_row e (Row_delivery d) = None \<Longrightarrow> isId (operationId d)"
  by (auto simp: decode_row_def valid_None schema_delivery_def split: option.splits if_splits)

lemma reachable_well_keyed:
  assumes "reachable_store st"
  shows "well_keyed e Row_record (db_commands (st_db st))" "well_keyed e Row_delivery (db_deliveries (st_db st))"
proof -
  note inv = reachable_store_inv [OF assms] and keyed = stored_keyed [OF reachable_store_inv [OF assms]]
  have "jm_wf (db_commands (st_db st))" "jm_wf (db_deliveries (st_db st))"
    using keyed by (auto intro: table_wf simp: keyed_def)
  moreover have "schema_namespace n \<and> isId i" if "((n, i), c) \<in> set (db_commands (st_db st))" "decode_row e (Row_record c) = None" for n i c
    using that keyed [of n] decoded_record [OF that(2)] by (auto simp: scoped_mem keyed_def)
  moreover have "schema_namespace n" if "((n, i), v) \<in> set (db_commands (st_db st)) \<or> ((n, i), d) \<in> set (db_deliveries (st_db st))" for n i v d
    using that keyed [of n] by (auto simp: scoped_mem)
  moreover have "isId i" if "((n, i), d) \<in> set (db_deliveries (st_db st))" "decode_row e (Row_delivery d) = None" for n i d
    using that keyed [of n] decoded_delivery [OF that(2)] by (auto simp: scoped_mem keyed_def)
  ultimately show "well_keyed e Row_record (db_commands (st_db st))" "well_keyed e Row_delivery (db_deliveries (st_db st))"
    unfolding well_keyed_def by blast+
qed

end
