(* ===== verification/Recovery_Guarantees.thy ===== *)
theory Recovery_Guarantees
  imports Keyset_Paging Reading_Demo
begin

text \<open>
  What a starting host may rely on: the paged scan for unfinished work ends, and names every session
  that has some, once.
\<close>

section \<open>The scan\<close>

text \<open>
  C31. The recovery scan of a starting host terminates: with one page request more than there are
  unsettled commands, or fewer, it either reports the failure of a request or has found exactly
  the sessions with unsettled commands, each once - whatever the order of keys, and although every
  page is asked for by an opaque cursor that is printed, encoded and parsed again.
\<close>

theorem recovery_names_sessions:
  assumes "reachable_store st" "\<not> st_closing st" "\<not> st_closed st" "parses_ids parse"
    and "length (filter unsettled (jm_values (db_commands (st_db st)))) < fuel"
  shows "(\<exists>f. recovery_namespaces e bd parse fuel st = Inl (Some f)) \<or>
    (\<exists>m. recovery_namespaces e bd parse fuel st = Inr m \<and> distinct (jm_values m) \<and>
      set (jm_values m) = (\<lambda>c. rc_namespace (cr_receipt c)) ` set (filter unsettled (jm_values (db_commands (st_db st)))))"
proof -
  have "length (filter (\<lambda>(k, c). unsettled c) (db_commands (st_db st))) < fuel"
    using assms(5) by (simp add: jm_values_def filter_map comp_def case_prod_unfold)
  moreover have "set (filter unsettled (jm_values t)) = {c \<in> set (jm_values t). unsettled c}" for t :: "command_record table"
    by auto
  ultimately show ?thesis
    using recovery_reads_all [OF reachable_well_keyed(1) [OF assms(1)] assms(4,2,3)] by simp
qed

section \<open>The scan of the demonstration store\<close>

text \<open>A parser for printed lists of identifiers: the texts between the quotes.\<close>

fun quoted :: "utext option \<Rightarrow> utext \<Rightarrow> utext list" where
  "quoted u [] = []"
| "quoted None (c # t) = (if c = 34 then quoted (Some []) t else quoted None t)"
| "quoted (Some u) (c # t) = (if c = 34 then u # quoted None t else quoted (Some (u @ [c])) t)"

definition demo_parse :: "nat list \<Rightarrow> json option" where
  "demo_parse t = Some (JArr (map JStr (quoted None t)))"

lemma quoted_inside: "34 \<notin> set t \<Longrightarrow> quoted (Some u) (t @ 34 # rest) = (u @ t) # quoted None rest"
  by (induction t arbitrary: u) auto

lemma id_no_quote: "isId s \<Longrightarrow> 34 \<notin> set (utext_of s)"
  using isId_chars [of s] id_char_code by (fastforce simp: utext_of_def list_all_iff)

lemma quoted_ids: "list_all isId ks \<Longrightarrow> quoted None (concat (parts_items (map jid ks) b) @ [93]) = map utext_of ks"
proof (induction ks arbitrary: b)
  case (Cons k ks)
  then have "concat (map json_escape (utext_of k)) = utext_of k" "34 \<notin> set (utext_of k)"
    using id_text id_no_quote by simp_all
  then show ?case using Cons quoted_inside [of "utext_of k" "[]"] by (simp add: jid_def json_quote_def)
qed simp

lemma demo_parses: "parses_ids demo_parse"
  unfolding parses_ids_def
proof (intro allI impI)
  fix ks assume "list_all isId ks"
  from quoted_ids [OF this, of True] show "demo_parse (json_print (JArr (map jid ks))) = Some (JArr (map jid ks))"
    by (simp add: demo_parse_def json_print_def jid_def comp_def)
qed

lemma demo_unsettled: "unsettled (demo_record Accepted)"
  by (simp add: unsettled_def isSettled_def settled_state_def demo_record_def)

lemma demo_recovery_page: "store_recovery demo_env demo_bounds demo_parse 128 None (demo_store demo_db_accepted) =
    Inr \<lparr>kp_items = [demo_record Accepted], kp_next = None\<rparr>"
proof -
  let ?c = "demo_record Accepted" and ?page = "\<lparr>kp_items = [demo_record Accepted], kp_next = None\<rparr>"
  have rows: "keyset_rows unsettled (db_commands demo_db_accepted) = [(row_key (demo_ns, ''p1''), ?c)]"
    by (simp add: keyset_rows_def demo_db_accepted_def demo_unsettled)
  have "row_bytes (Row_record ?c) \<le> 262144" "decode_row demo_env (Row_record ?c) = None"
    using demo_record_valid [of Accepted] demo_record_valid [of Accepted, THEN row_size(3)] by (simp_all add: decode_row_def)
  moreover have "fits defaultLimits (json_of_keyset_page Row_record ?page)"
    using demo_parts_small(3) by (intro fits_by_size) (simp_all add: json_of_keyset_page_def obj_def small_json_def)
  then have "boundedJson (query_limits demo_bounds) (json_of_keyset_page Row_record ?page) = Inr (json_print (json_of_keyset_page Row_record ?page))"
    by (auto simp: boundedJson_Inr fits_def defaultLimits_def query_limits_def checkLimits_None max_safe_def)
  ultimately show ?thesis
    by (simp add: store_recovery_def query_def demo_store_def keyset_page_def rows page_cursor_def after_key_def sized_rows_def
        decode_all_def cut_page_def bounded_answer_def is_safe_integer_def max_safe_def Let_def)
qed

lemma demo_recovery: "recovery_namespaces demo_env demo_bounds demo_parse 2 (demo_store demo_db_accepted) =
    Inr [(namespace_text demo_ns, demo_ns)]"
proof -
  have "rc_namespace (cr_receipt (demo_record Accepted)) = demo_ns" by (simp add: demo_record_def demo_receipt_def)
  then have "add_namespace (demo_record Accepted) [] = Inr [(namespace_text demo_ns, demo_ns)]"
    by (simp add: add_namespace_def namespaceKey_def Let_def jm_set_def)
  then show ?thesis by (simp add: recovery_namespaces_def numeral_2_eq_2 keyset_ask_def demo_recovery_page)
qed

theorem recovery_names_sessions_witness:
  "\<exists>m. recovery_namespaces demo_env demo_bounds demo_parse 2 (demo_store demo_db_accepted) = Inr m \<and>
    distinct (jm_values m) \<and> set (jm_values m) = {demo_ns}"
proof -
  let ?st = "demo_store demo_db_accepted"
  have st: "st_db ?st = demo_db_accepted" "\<not> st_closing ?st" "\<not> st_closed ?st" by (simp_all add: demo_store_def)
  have rows: "filter unsettled (jm_values (db_commands (st_db ?st))) = [demo_record Accepted]"
    unfolding st(1) by (simp add: demo_db_accepted_def jm_values_def demo_unsettled)
  have "length (filter unsettled (jm_values (db_commands (st_db ?st)))) < 2" by (simp add: rows)
  from recovery_names_sessions [OF demo_reachable(2) st(2,3) demo_parses this, of demo_env demo_bounds] show ?thesis
    by (auto simp: demo_recovery rows demo_record_def demo_receipt_def)
qed

end
