(* ===== verification/Provider_Admission.thy ===== *)
theory Provider_Admission
  imports Provider_Facts
begin

text \<open>
  Admission of provider sessions (\<^verbatim>\<open>open\<close>, \<^verbatim>\<open>restore\<close> and \<^verbatim>\<open>fork\<close> of \<^verbatim>\<open>session.ts\<close>). A provider
  instance is a port with an identity; what it, the fork extension and the verifier answer is a
  parameter, one answer for each call an admission makes. A call that throws is \<open>Broken\<close>, and so is
  one the budget outlives: its late answer may still arrive. \<open>path\<close> resolves a directory, \<open>hash\<close> is
  SHA-256 of a path.
\<close>

section \<open>Requests and answers\<close>

datatype permissions = Tools_off | Mediated | Unknown_permissions

record provider_configuration =
  pc_namespace :: namespace
  pc_provider :: id
  pc_config :: config_ref
  pc_workingDirectory :: utext
  pc_permissions :: permissions

text \<open>Identities of the tool endpoint and the verifier, and which of their methods are functions.\<close>

record tool_endpoint =
  te_id :: nat
  te_list :: bool
  te_propose :: bool

record admission_inputs =
  am_tools :: "tool_endpoint option"
  am_verifies :: "bool option" \<comment> \<open>a verifier; whether \<^verbatim>\<open>verify\<close> is a function\<close>

record provider_port =
  pp_id :: nat
  pp_closes :: bool
  pp_resumes :: bool

record fork_request =
  fq_namespace :: namespace
  fq_binding :: binding
  fq_throughTurnId :: id

datatype fork_certainty = Not_created | Unknown_creation

datatype fork_result =
    Fork_created "binding \<times> capabilities" fork_request
  | Fork_failed fork_certainty failure

datatype 'a answer = Answer 'a | Broken "'a option"

text \<open>How the budget of an admission fares: a refused one starts nothing, an exhausted one discards the result.\<close>

datatype budget_course = Budget_kept | Budget_refused | Budget_exhausted

record provider_answers =
  an_budget :: budget_course
  an_create :: "provider_configuration \<Rightarrow> (binding \<times> capabilities) result answer"
  an_resume :: "binding \<Rightarrow> provider_configuration \<Rightarrow> (binding \<times> capabilities) result answer"
  an_fork :: "fork_request \<Rightarrow> provider_configuration \<Rightarrow> fork_result answer"
  an_verify :: "binding \<times> capabilities \<Rightarrow> nat \<Rightarrow> (utext \<times> id) result answer" \<comment> \<open>platform and reference\<close>
  an_close :: "bool result answer" \<comment> \<open>whether the process stopped\<close>

record fork_admission =
  fa_port :: bool
  fa_rejection :: "failure option"
  fa_request :: fork_request
  fa_result :: "fork_result option"
  fa_attempted :: bool

datatype admission_result = Admitted_session provider_session | Refused_session failure "failure option"

text \<open>\<open>None\<close> is an exception or an exhausted budget.\<close>

type_synonym 'a tried = "failure option + 'a"

definition port_unavailable :: failure where
  "port_unavailable = fail_with Unavailable Same_command"

section \<open>Checks\<close>

definition utf16Length :: "utext \<Rightarrow> nat" where
  "utf16Length t = sum_list (map (\<lambda>c. if c < 65536 then 1 else 2) t)"

definition workspaceIdentity :: "(utext \<Rightarrow> utext) \<Rightarrow> (utext \<Rightarrow> id) \<Rightarrow> utext \<Rightarrow> id option" where
  "workspaceIdentity path hash d = (if d = [] \<or> 32768 < utf16Length d \<or> 0 \<in> set d then None else Some (hash (path d)))"

definition admission_fits :: "permissions \<Rightarrow> admission_inputs option \<Rightarrow> bool" where
  "admission_fits perms adm = (case perms of
     Mediated \<Rightarrow> (case adm of None \<Rightarrow> False
       | Some a \<Rightarrow> (case am_tools a of None \<Rightarrow> False | Some t \<Rightarrow> te_list t \<and> te_propose t) \<and> am_verifies a = Some True)
   | Tools_off \<Rightarrow> (case adm of None \<Rightarrow> True | Some a \<Rightarrow> am_tools a = None \<and> am_verifies a = None)
   | Unknown_permissions \<Rightarrow> False)"

text \<open>A resumed session must be one this workspace and namespace left behind.\<close>

definition previous_check :: "session option \<Rightarrow> id \<Rightarrow> namespace \<Rightarrow> failure option option" where
  "previous_check previous workspace n = (case previous of
     None \<Rightarrow> None
   | Some s \<Rightarrow> (case activeStage s of
       Inl x \<Rightarrow> Some None
     | Inr stage \<Rightarrow> fail_if (workspaceId (stage_binding stage) \<noteq> workspace \<or> ss_namespace s \<noteq> n) (Some denied)))"

definition admission_limits :: limits where
  "admission_limits = Limits 65536 32768 16 2048"

definition stage_valid :: "digest \<Rightarrow> namespace \<Rightarrow> binding \<times> capabilities \<Rightarrow> bool" where
  "stage_valid digest n v = (case startStage (productSession n None) (providerStage (fst v) (snd v) 1) of
     Inl x \<Rightarrow> False | Inr s \<Rightarrow> valid digest admission_limits (Row_session s) = None)"

definition required_tools :: "permissions \<Rightarrow> tool_mode" where
  "required_tools perms = (if perms = Mediated then Host_mediated else Tools_disabled)"

definition identity_fits :: "provider_configuration \<Rightarrow> id \<Rightarrow> binding \<times> capabilities \<Rightarrow> bool" where
  "identity_fits conf workspace v \<longleftrightarrow> workspaceId (fst v) = workspace \<and> provider (fst v) = pc_provider conf \<and>
     config (fst v) = pc_config conf \<and> tools (snd v) = required_tools (pc_permissions conf)"

definition continues :: "binding \<Rightarrow> binding \<times> capabilities \<Rightarrow> bool" where
  "continues prior v \<longleftrightarrow> (case v of (b, c) \<Rightarrow>
     workspaceId b = workspaceId prior \<and> generation b \<noteq> generation prior \<and> provider b = provider prior \<and>
     providerVersion b = providerVersion prior \<and> adapterVersion b = adapterVersion prior \<and> config b = config prior \<and>
     nativeSessionId b = nativeSessionId prior \<and> nativeThreadId b = nativeThreadId prior \<and>
     continuation c = Across_processes)"

definition child_fits :: "fork_request \<Rightarrow> binding \<times> capabilities \<Rightarrow> fork_request \<Rightarrow> bool" where
  "child_fits asked v source \<longleftrightarrow> source = asked \<and> (let parent = fq_binding asked; child = fst v in
     generation child \<noteq> generation parent \<and> nativeSessionId child \<noteq> nativeSessionId parent \<and>
     (nativeThreadId parent = None \<or> nativeThreadId child \<noteq> nativeThreadId parent) \<and>
     providerVersion child = providerVersion parent \<and> adapterVersion child = adapterVersion parent)"

section \<open>Initialisation\<close>

fun tried :: "'a result answer \<Rightarrow> 'a tried" where
  "tried (Answer (Inl f)) = Inl (Some f)"
| "tried (Answer (Inr v)) = Inr v"
| "tried (Broken late) = Inl None"

text \<open>The native session: forked, resumed or created.\<close>

definition fork_session ::
  "provider_answers \<Rightarrow> provider_configuration \<Rightarrow> fork_admission \<Rightarrow> (binding \<times> capabilities) tried \<times> fork_admission" where
  "fork_session an conf fk =
     (case fa_rejection fk of
        Some f \<Rightarrow> (Inl (Some f), fk)
      | None \<Rightarrow>
        if \<not> fa_port fk then (Inl (Some denied), fk)
        else let fk' = fk\<lparr>fa_attempted := True\<rparr> in
          case an_fork an (fa_request fk) conf of
            Broken late \<Rightarrow> (Inl None, fk'\<lparr>fa_result := late\<rparr>)
          | Answer r \<Rightarrow> (case r of
              Fork_failed c f \<Rightarrow> Inl (Some f)
            | Fork_created v source \<Rightarrow> if child_fits (fa_request fk) v source then Inr v else Inl (Some denied),
              fk'\<lparr>fa_result := Some r\<rparr>))"

definition native_session ::
  "provider_answers \<Rightarrow> provider_configuration \<Rightarrow> session option \<Rightarrow> fork_admission option
     \<Rightarrow> (binding \<times> capabilities) tried \<times> fork_admission option" where
  "native_session an conf previous fk = (case fk of
     Some k \<Rightarrow> (case fork_session an conf k of (r, k') \<Rightarrow> (r, Some k'))
   | None \<Rightarrow> (case previous of
       None \<Rightarrow> tried (an_create an conf)
     | Some s \<Rightarrow> (case activeStage s of
         Inl x \<Rightarrow> Inl None | Inr stage \<Rightarrow> tried (an_resume an (stage_binding stage) conf)), None))"

definition verified :: "provider_answers \<Rightarrow> permissions \<Rightarrow> admission_inputs option \<Rightarrow> binding \<times> capabilities \<Rightarrow> failure option option" where
  "verified an perms adm v = (case (perms, adm) of
     (Mediated, Some a) \<Rightarrow> (case am_tools a of
        None \<Rightarrow> Some None
      | Some t \<Rightarrow> (case tried (an_verify an v (te_id t)) of
          Inl f \<Rightarrow> Some f
        | Inr (platform, ref) \<Rightarrow> fail_if (platform = [] \<or> ref = []) (Some denied)))
   | _ \<Rightarrow> None)"

definition accept_native ::
  "digest \<Rightarrow> provider_answers \<Rightarrow> provider_port \<Rightarrow> provider_configuration \<Rightarrow> id \<Rightarrow> session option
     \<Rightarrow> admission_inputs option \<Rightarrow> binding \<times> capabilities \<Rightarrow> provider_session tried" where
  "accept_native digest an port conf workspace previous adm v =
     (let prior = (case previous of None \<Rightarrow> None | Some s \<Rightarrow> (case activeStage s of
          Inl x \<Rightarrow> None | Inr stage \<Rightarrow> Some (ss_namespace s, stage_binding stage))) in
      unless_exit (first_exit
        [fail_if (\<not> stage_valid digest (pc_namespace conf) v) (Some denied),
         fail_if (\<not> identity_fits conf workspace v) (Some denied),
         fail_if (case prior of None \<Rightarrow> False | Some (n, b) \<Rightarrow> \<not> continues b v) (Some denied),
         verified an (pc_permissions conf) adm v])
      (Inr \<lparr>vs_namespace = pc_namespace conf, vs_binding = fst v, vs_port = pp_id port, vs_capabilities = snd v,
         vs_tools = (case adm of None \<Rightarrow> None | Some a \<Rightarrow> map_option te_id (am_tools a)), vs_previous = prior\<rparr>))"

text \<open>The two tests of the aborted signal are not repeated: \<^verbatim>\<open>withinBudget\<close> discards what an aborted run returns.\<close>

definition initialize ::
  "(utext \<Rightarrow> utext) \<Rightarrow> (utext \<Rightarrow> id) \<Rightarrow> digest \<Rightarrow> provider_answers \<Rightarrow> provider_port \<Rightarrow> provider_configuration \<Rightarrow> session option
     \<Rightarrow> admission_inputs option \<Rightarrow> fork_admission option \<Rightarrow> provider_session tried \<times> fork_admission option" where
  "initialize path hash digest an port conf previous adm fk =
     (case workspaceIdentity path hash (pc_workingDirectory conf) of
        None \<Rightarrow> (Inl None, fk)
      | Some workspace \<Rightarrow>
        (case first_exit
            [previous_check previous workspace (pc_namespace conf),
             fail_if (\<not> admission_fits (pc_permissions conf) adm) (Some denied),
             fail_if (previous \<noteq> None \<and> \<not> pp_resumes port) (Some denied)] of
           Some f \<Rightarrow> (Inl f, fk)
         | None \<Rightarrow> (case native_session an conf previous fk of
             (Inl f, fk') \<Rightarrow> (Inl f, fk')
           | (Inr v, fk') \<Rightarrow> (accept_native digest an port conf workspace previous adm v, fk'))))"

section \<open>Admission\<close>

text \<open>What closing the port of a failed admission adds to its result.\<close>

fun cleanup_error :: "bool result answer \<Rightarrow> failure option" where
  "cleanup_error (Answer (Inl f)) = Some f"
| "cleanup_error (Answer (Inr stopped)) = (if stopped then None else Some port_unavailable)"
| "cleanup_error (Broken late) = Some port_unavailable"

text \<open>The ports a process has used, in order, and those it has asked to close.\<close>

record port_registry =
  pr_used :: "nat list"
  pr_closed :: "nat list"

definition admission_run ::
  "(utext \<Rightarrow> utext) \<Rightarrow> (utext \<Rightarrow> id) \<Rightarrow> digest \<Rightarrow> provider_answers \<Rightarrow> provider_port \<Rightarrow> provider_configuration \<Rightarrow> session option
     \<Rightarrow> admission_inputs option \<Rightarrow> fork_admission option \<Rightarrow> provider_session result \<times> fork_admission option" where
  "admission_run path hash digest an port conf previous adm fk =
     (if an_budget an = Budget_refused then (Inl port_unavailable, fk)
      else case initialize path hash digest an port (conf\<lparr>pc_workingDirectory := path (pc_workingDirectory conf)\<rparr>) previous adm fk of
        (r, fk') \<Rightarrow> (case r of
            Inl None \<Rightarrow> Inl port_unavailable
          | Inl (Some f) \<Rightarrow> if an_budget an = Budget_exhausted then Inl port_unavailable else Inl f
          | Inr vs \<Rightarrow> if an_budget an = Budget_exhausted then Inl port_unavailable else Inr vs, fk'))"

definition admit ::
  "(utext \<Rightarrow> utext) \<Rightarrow> (utext \<Rightarrow> id) \<Rightarrow> digest \<Rightarrow> provider_answers \<Rightarrow> provider_port \<Rightarrow> provider_configuration \<Rightarrow> session option
     \<Rightarrow> admission_inputs option \<Rightarrow> fork_admission option \<Rightarrow> port_registry
     \<Rightarrow> admission_result \<times> fork_admission option \<times> port_registry" where
  "admit path hash digest an port conf previous adm fk reg =
     (if pp_id port \<in> set (pr_used reg) \<or> \<not> pp_closes port then (Refused_session denied None, fk, reg)
      else let reg' = reg\<lparr>pr_used := pr_used reg @ [pp_id port]\<rparr> in
        case admission_run path hash digest an port conf previous adm fk of
          (Inr vs, fk') \<Rightarrow> (Admitted_session vs, fk', reg')
        | (Inl f, fk') \<Rightarrow> (Refused_session f (cleanup_error (an_close an)), fk', reg'\<lparr>pr_closed := pr_closed reg @ [pp_id port]\<rparr>))"

definition open_session ::
  "(utext \<Rightarrow> utext) \<Rightarrow> (utext \<Rightarrow> id) \<Rightarrow> digest \<Rightarrow> provider_answers \<Rightarrow> provider_port \<Rightarrow> provider_configuration
     \<Rightarrow> admission_inputs option \<Rightarrow> port_registry \<Rightarrow> admission_result \<times> port_registry" where
  "open_session path hash digest an port conf adm reg =
     (case admit path hash digest an port conf None adm None reg of (r, fk, reg') \<Rightarrow> (r, reg'))"

definition restore_session ::
  "(utext \<Rightarrow> utext) \<Rightarrow> (utext \<Rightarrow> id) \<Rightarrow> digest \<Rightarrow> provider_answers \<Rightarrow> provider_port \<Rightarrow> session \<Rightarrow> provider_configuration
     \<Rightarrow> admission_inputs option \<Rightarrow> port_registry \<Rightarrow> admission_result \<times> port_registry" where
  "restore_session path hash digest an port previous conf adm reg =
     (case admit path hash digest an port conf (Some previous) adm None reg of (r, fk, reg') \<Rightarrow> (r, reg'))"

section \<open>Forking\<close>

definition fork_rejection ::
  "(utext \<Rightarrow> utext) \<Rightarrow> (utext \<Rightarrow> id) \<Rightarrow> provider_session \<Rightarrow> bool \<Rightarrow> id \<Rightarrow> provider_configuration \<Rightarrow> failure option" where
  "fork_rejection path hash vs forks turn conf =
     (let parent = vs_namespace vs; child = pc_namespace conf in
      if fork (vs_capabilities vs) \<noteq> Supported \<or> \<not> forks then Some (fail_with Unsupported_capability Never)
      else if \<not> isId turn \<or> ns_sessionId parent = ns_sessionId child \<or>
        parent\<lparr>ns_sessionId := ns_sessionId child\<rparr> \<noteq> child \<or>
        pc_provider conf \<noteq> provider (vs_binding vs) \<or> pc_config conf \<noteq> config (vs_binding vs) then Some denied
      else case workspaceIdentity path hash (pc_workingDirectory conf) of
        None \<Rightarrow> Some (fail_with Invalid_input Never)
      | Some w \<Rightarrow> fail_if (w \<noteq> workspaceId (vs_binding vs) \<or> required_tools (pc_permissions conf) \<noteq> tools (vs_capabilities vs))
          denied)"

datatype fork_outcome =
    Forked provider_session fork_request
  | Not_forked fork_certainty failure "failure option"

definition fork_child ::
  "(utext \<Rightarrow> utext) \<Rightarrow> (utext \<Rightarrow> id) \<Rightarrow> digest \<Rightarrow> provider_answers \<Rightarrow> provider_session \<Rightarrow> provider_port \<Rightarrow> bool \<Rightarrow> id
     \<Rightarrow> provider_configuration \<Rightarrow> admission_inputs option \<Rightarrow> port_registry \<Rightarrow> fork_outcome \<times> port_registry" where
  "fork_child path hash digest an vs child forks turn conf adm reg =
     (let asked = \<lparr>fq_namespace = vs_namespace vs, fq_binding = vs_binding vs, fq_throughTurnId = turn\<rparr> in
      if pp_id child = vs_port vs \<or> pp_id child \<in> set (pr_used reg) then (Not_forked Not_created denied None, reg)
      else case admit path hash digest an child conf None adm
          (Some \<lparr>fa_port = forks, fa_rejection = fork_rejection path hash vs forks turn conf, fa_request = asked,
             fa_result = None, fa_attempted = False\<rparr>) reg of
        (Admitted_session s, fk, reg') \<Rightarrow> (Forked s asked, reg')
      | (Refused_session f cleanup, fk, reg') \<Rightarrow> (Not_forked
          (case fk of None \<Rightarrow> Unknown_creation
           | Some k \<Rightarrow> if (case fa_result k of Some (Fork_failed Not_created e) \<Rightarrow> True | _ \<Rightarrow> False) \<or> \<not> fa_attempted k
               then Not_created else Unknown_creation) f cleanup, reg'))"

end
