(* ===== verification/Admission_Guarantees.thy ===== *)
theory Admission_Guarantees
  imports Provider_Admission Session_Demo_Handoff
begin

text \<open>
  What admission guarantees of provider sessions: an admitted session is the one that was asked for,
  every provider instance serves at most one session and is closed when it serves none, and a fork
  never shares identity with its parent.
\<close>

section \<open>Runs\<close>

lemma tried_Inr: "tried a = Inr v \<longleftrightarrow> a = Answer (Inr v)"
  by (cases a rule: tried.cases) auto

lemma prior_None [simp]: "previous_check None w n = None"
  by (simp add: previous_check_def)

lemma previous_fits:
  assumes "previous_check (Some s) w n = None"
  obtains stage where "activeStage s = Inr stage" "workspaceId (stage_binding stage) = w" "ss_namespace s = n"
  using assms by (auto simp: previous_check_def split: sum.splits)

lemma accept_native_Inr:
  assumes "accept_native digest an port conf w previous adm v = Inr vs"
  shows "vs_namespace vs = pc_namespace conf" "vs_binding vs = fst v" "vs_capabilities vs = snd v" "vs_port vs = pp_id port"
    "stage_valid digest (pc_namespace conf) v" "identity_fits conf w v" "verified an (pc_permissions conf) adm v = None"
    "vs_tools vs = (case adm of None \<Rightarrow> None | Some a \<Rightarrow> map_option te_id (am_tools a))"
    "previous = None \<Longrightarrow> vs_previous vs = None"
    "previous = Some s \<Longrightarrow> activeStage s = Inr stage \<Longrightarrow>
       vs_previous vs = Some (ss_namespace s, stage_binding stage) \<and> continues (stage_binding stage) v"
  using assms by (auto simp: accept_native_def Let_def)

lemma initialize_Inr:
  assumes "initialize path hash digest an port conf previous adm fk = (Inr vs, fk')"
  obtains w v where "workspaceIdentity path hash (pc_workingDirectory conf) = Some w"
    "previous_check previous w (pc_namespace conf) = None" "admission_fits (pc_permissions conf) adm"
    "native_session an conf previous fk = (Inr v, fk')"
    "accept_native digest an port conf w previous adm v = Inr vs"
  using assms by (auto simp: initialize_def split: option.splits sum.splits prod.splits if_splits)

lemma admit_cases:
  assumes "admit path hash digest an port conf previous adm fk reg = (r, fk', reg')"
  obtains (refused) "r = Refused_session denied None" "fk' = fk" "reg' = reg"
  | (failed) f where "pp_id port \<notin> set (pr_used reg)" "r = Refused_session f (cleanup_error (an_close an))"
      "reg' = \<lparr>pr_used = pr_used reg @ [pp_id port], pr_closed = pr_closed reg @ [pp_id port]\<rparr>"
      "admission_run path hash digest an port conf previous adm fk = (Inl f, fk')"
  | (admitted) vs where "pp_id port \<notin> set (pr_used reg)" "r = Admitted_session vs"
      "reg' = reg\<lparr>pr_used := pr_used reg @ [pp_id port]\<rparr>" "an_budget an = Budget_kept"
      "initialize path hash digest an port (conf\<lparr>pc_workingDirectory := path (pc_workingDirectory conf)\<rparr>) previous adm fk = (Inr vs, fk')"
proof (cases "pp_id port \<in> set (pr_used reg) \<or> \<not> pp_closes port")
  case True
  then show ?thesis using assms refused by (auto simp: admit_def)
next
  case False
  obtain x k where run: "admission_run path hash digest an port conf previous adm fk = (x, k)" by (metis surj_pair)
  show ?thesis
  proof (cases x)
    case (Inl f)
    then show ?thesis using False assms run failed by (auto simp: admit_def)
  next
    case (Inr vs)
    then have "an_budget an = Budget_kept"
      "initialize path hash digest an port (conf\<lparr>pc_workingDirectory := path (pc_workingDirectory conf)\<rparr>) previous adm fk = (Inr vs, k)"
      using run by (cases "an_budget an"; auto simp: admission_run_def split: prod.splits sum.splits option.splits)+
    then show ?thesis using False assms run Inr admitted by (auto simp: admit_def)
  qed
qed

lemma admitted_port:
  assumes "initialize path hash digest an port conf previous adm fk = (Inr vs, fk')"
  shows "vs_port vs = pp_id port"
  by (rule initialize_Inr [OF assms]) (rule accept_native_Inr(4))

section \<open>Admitted sessions\<close>

text \<open>
  C18. An admitted session is the one that was asked for: it belongs to the namespace and the fresh
  port of the request, and its binding to the workspace, provider, configuration and tool mode of
  the configuration; an opened session opens that namespace and no other, while a restored one restores
  exactly the given session, continuing its native session across processes under a new generation.
\<close>

theorem admission_binds:
  assumes "admit path hash digest an port conf previous adm fk reg = (Admitted_session vs, fk', reg')"
  shows "vs_namespace vs = pc_namespace conf \<and> vs_port vs = pp_id port \<and> pp_id port \<notin> set (pr_used reg) \<and>
    workspaceIdentity path hash (path (pc_workingDirectory conf)) = Some (workspaceId (vs_binding vs)) \<and>
    provider (vs_binding vs) = pc_provider conf \<and> config (vs_binding vs) = pc_config conf \<and>
    tools (vs_capabilities vs) = required_tools (pc_permissions conf) \<and>
    (case previous of
       None \<Rightarrow> opens vs n = (n = pc_namespace conf)
     | Some s \<Rightarrow> restores vs s = Inr True \<and> ss_namespace s = pc_namespace conf \<and>
         (\<exists>stage. activeStage s = Inr stage \<and> continues (stage_binding stage) (vs_binding vs, vs_capabilities vs)))"
  using assms
proof (cases rule: admit_cases)
  case admitted
  let ?conf = "conf\<lparr>pc_workingDirectory := path (pc_workingDirectory conf)\<rparr>"
  obtain w v where run: "workspaceIdentity path hash (pc_workingDirectory ?conf) = Some w"
    "previous_check previous w (pc_namespace ?conf) = None" "accept_native digest an port ?conf w previous adm v = Inr vs"
    by (rule initialize_Inr [OF admitted(5)]) (use admitted(2) in simp)
  note accepted = accept_native_Inr [OF run(3)]
  show ?thesis
  proof (cases previous)
    case None
    then show ?thesis using accepted(1-4,6,9) admitted(1) run(1) by (auto simp: identity_fits_def opens_def)
  next
    case (Some s)
    then obtain stage where stage: "activeStage s = Inr stage" "ss_namespace s = pc_namespace conf"
      using previous_fits run(2) by (metis provider_configuration.select_convs(1) provider_configuration.update_convs(4) provider_configuration.surjective)
    show ?thesis using accepted(1-4,6) accepted(10) [OF Some stage(1)] admitted(1) run(1) stage Some
      by (auto simp: identity_fits_def restores_def)
  qed
qed simp_all

section \<open>Ports\<close>

fun admitted_sessions :: "admission_result \<Rightarrow> provider_session list" where
  "admitted_sessions (Admitted_session vs) = [vs]"
| "admitted_sessions (Refused_session f c) = []"

fun forked_sessions :: "fork_outcome \<Rightarrow> provider_session list" where
  "forked_sessions (Forked vs source) = [vs]"
| "forked_sessions (Not_forked c f e) = []"

text \<open>The admissions of one process: the registry they leave and the sessions they admitted.\<close>

inductive admissions :: "port_registry \<Rightarrow> provider_session list \<Rightarrow> bool" where
  Booted: "admissions \<lparr>pr_used = [], pr_closed = []\<rparr> []"
| Opened: "admissions reg live \<Longrightarrow> open_session path hash digest an port conf adm reg = (r, reg') \<Longrightarrow>
    admissions reg' (live @ admitted_sessions r)"
| Restored: "admissions reg live \<Longrightarrow> restore_session path hash digest an port s conf adm reg = (r, reg') \<Longrightarrow>
    admissions reg' (live @ admitted_sessions r)"
| Branched: "admissions reg live \<Longrightarrow> vs \<in> set live \<Longrightarrow>
    fork_child path hash digest an vs child forks turn conf adm reg = (out, reg') \<Longrightarrow>
    admissions reg' (live @ forked_sessions out)"

definition ports_partitioned :: "port_registry \<Rightarrow> provider_session list \<Rightarrow> bool" where
  "ports_partitioned reg live \<longleftrightarrow> distinct (pr_used reg) \<and> distinct (map vs_port live @ pr_closed reg) \<and>
     set (map vs_port live @ pr_closed reg) = set (pr_used reg)"

lemma admit_partition:
  assumes "ports_partitioned reg live" "admit path hash digest an port conf previous adm fk reg = (r, fk', reg')"
  shows "ports_partitioned reg' (live @ admitted_sessions r)"
  using assms(2)
proof (cases rule: admit_cases)
  case (admitted vs)
  then show ?thesis using assms(1) admitted(1-3) admitted_port [OF admitted(5)] by (auto simp: ports_partitioned_def)
qed (use assms(1) in \<open>auto simp: ports_partitioned_def\<close>)

lemma fork_cases:
  assumes "fork_child path hash digest an vs child forks turn conf adm reg = (out, reg')"
  obtains (own) "out = Not_forked Not_created denied None" "reg' = reg" "pp_id child = vs_port vs \<or> pp_id child \<in> set (pr_used reg)"
  | (asked) r k where "admit path hash digest an child conf None adm
      (Some \<lparr>fa_port = forks, fa_rejection = fork_rejection path hash vs forks turn conf,
         fa_request = \<lparr>fq_namespace = vs_namespace vs, fq_binding = vs_binding vs, fq_throughTurnId = turn\<rparr>,
         fa_result = None, fa_attempted = False\<rparr>) reg = (r, k, reg')"
    "forked_sessions out = admitted_sessions r"
  using assms by (auto simp: fork_child_def Let_def split: if_splits prod.splits admission_result.splits)

text \<open>
  C17. Every provider instance is used by at most one admission, whatever opens, restores and forks a
  process makes: each instance ever taken serves exactly one admitted session or was asked to close
  exactly once, and never both; refusing a second use leaves the first untouched.
\<close>

theorem ports_owned_once:
  assumes "admissions reg live"
  shows "distinct (pr_used reg) \<and> distinct (map vs_port live @ pr_closed reg) \<and>
    set (map vs_port live @ pr_closed reg) = set (pr_used reg)"
proof -
  have "ports_partitioned reg live"
    using assms
  proof induction
    case (Opened reg live path hash digest an port conf adm r reg')
    then show ?case using admit_partition by (auto simp: open_session_def split: prod.splits)
  next
    case (Restored reg live path hash digest an port s conf adm r reg')
    then show ?case using admit_partition by (auto simp: restore_session_def split: prod.splits)
  next
    case (Branched reg live vs path hash digest an child forks turn conf adm out reg')
    from Branched(3) show ?case
    proof (cases rule: fork_cases)
      case own
      then show ?thesis using Branched.IH by simp
    next
      case (asked r k)
      then show ?thesis using admit_partition [OF Branched.IH asked(1)] by simp
    qed
  qed (simp add: ports_partitioned_def)
  then show ?thesis by (simp add: ports_partitioned_def)
qed

section \<open>Forks\<close>

lemma fork_session_Inr:
  assumes "fork_session an conf k = (Inr v, k')"
  shows "fa_rejection k = None \<and> (\<exists>source. child_fits (fa_request k) v source)"
  using assms by (auto simp: fork_session_def Let_def split: option.splits if_splits answer.splits fork_result.splits)

lemma rejection_None:
  assumes "fork_rejection path hash vs forks turn conf = None"
  shows "ns_sessionId (pc_namespace conf) \<noteq> ns_sessionId (vs_namespace vs) \<and>
    (vs_namespace vs)\<lparr>ns_sessionId := ns_sessionId (pc_namespace conf)\<rparr> = pc_namespace conf"
  using assms by (auto simp: fork_rejection_def Let_def split: if_splits option.splits)

text \<open>What the fork extension can have told an admission that asked it: an answer in time, or late.\<close>

definition says_not_created :: "fork_result answer \<Rightarrow> bool" where
  "says_not_created a \<longleftrightarrow> (\<exists>f. a = Answer (Fork_failed Not_created f) \<or> a = Broken (Some (Fork_failed Not_created f)))"

definition fork_asks :: "fork_admission \<Rightarrow> bool" where
  "fork_asks k \<longleftrightarrow> fa_rejection k = None \<and> fa_port k"

lemma fork_session_asked:
  assumes "fork_asks k" "fork_session an conf k = (x, k1)"
  shows "fa_attempted k1 \<and> fa_result k1 = (case an_fork an (fa_request k) conf of Answer r \<Rightarrow> Some r | Broken late \<Rightarrow> late)"
  using assms by (auto simp: fork_asks_def fork_session_def Let_def split: answer.splits)

lemma fork_session_unasked:
  assumes "\<not> fork_asks k"
  obtains f where "fork_session an conf k = (Inl (Some f), k)" "\<And>g. fork_session (an\<lparr>an_fork := g\<rparr>) conf k = (Inl (Some f), k)"
  using assms by (cases "fa_rejection k") (auto simp: fork_asks_def fork_session_def)

lemma verified_fork: "verified (an\<lparr>an_fork := g\<rparr>) perms adm v = verified an perms adm v"
  by (auto simp: verified_def split: permissions.split option.split)

lemma accept_native_fork [simp]: "accept_native digest (an\<lparr>an_fork := g\<rparr>) port conf w previous adm v = accept_native digest an port conf w previous adm v"
  by (simp add: accept_native_def verified_fork)

text \<open>Either the fork extension was not asked, and its answer does not matter, or its answer is on record.\<close>

lemma initialize_fork:
  assumes "initialize path hash digest an port conf None adm (Some k) = (x, k')"
  shows "(k' = Some k \<and> (\<forall>g. initialize path hash digest (an\<lparr>an_fork := g\<rparr>) port conf None adm (Some k) = (x, k'))) \<or>
    (\<exists>k1. k' = Some k1 \<and> fa_attempted k1 \<and>
      fa_result k1 = (case an_fork an (fa_request k) conf of Answer r \<Rightarrow> Some r | Broken late \<Rightarrow> late))"
proof (cases "fork_asks k")
  case False
  then obtain f where "fork_session an conf k = (Inl (Some f), k)" "\<And>g. fork_session (an\<lparr>an_fork := g\<rparr>) conf k = (Inl (Some f), k)"
    by (rule fork_session_unasked [of k an conf]) blast
  with assms show ?thesis by (auto simp: initialize_def native_session_def fail_if_def split: option.splits)
next
  case True
  obtain r k1 where r: "fork_session an conf k = (r, k1)" by (metis surj_pair)
  show ?thesis using assms fork_session_asked [OF True r]
    by (auto simp: initialize_def native_session_def fail_if_def r split: option.splits sum.splits)
qed

lemma admit_fork:
  assumes "admit path hash digest an port conf None adm (Some k) reg = (r, k', reg')"
  shows "(k' = Some k \<and> (\<forall>g. admit path hash digest (an\<lparr>an_fork := g\<rparr>) port conf None adm (Some k) reg = (r, k', reg'))) \<or>
    (\<exists>k1. k' = Some k1 \<and> fa_attempted k1 \<and>
      fa_result k1 = (case an_fork an (fa_request k) (conf\<lparr>pc_workingDirectory := path (pc_workingDirectory conf)\<rparr>)
        of Answer r \<Rightarrow> Some r | Broken late \<Rightarrow> late))"
proof -
  let ?conf = "conf\<lparr>pc_workingDirectory := path (pc_workingDirectory conf)\<rparr>"
  obtain x k1 where x: "initialize path hash digest an port ?conf None adm (Some k) = (x, k1)" by (metis surj_pair)
  show ?thesis
  proof (cases "pp_id port \<in> set (pr_used reg) \<or> \<not> pp_closes port \<or> an_budget an = Budget_refused")
    case True
    then show ?thesis using assms by (auto simp: admit_def admission_run_def Let_def split: if_splits)
  next
    case False
    then have k': "k' = k1" using assms x by (auto simp: admit_def admission_run_def split: sum.splits option.splits if_splits)
    show ?thesis using initialize_fork [OF x]
    proof (elim disjE conjE)
      assume "k1 = Some k" "\<forall>g. initialize path hash digest (an\<lparr>an_fork := g\<rparr>) port ?conf None adm (Some k) = (x, k1)"
      then have "admission_run path hash digest (an\<lparr>an_fork := g\<rparr>) port conf None adm (Some k) =
          admission_run path hash digest an port conf None adm (Some k)" for g
        using x by (cases x) (auto simp: admission_run_def split: option.split)
      then have "admit path hash digest (an\<lparr>an_fork := g\<rparr>) port conf None adm (Some k) reg =
          admit path hash digest an port conf None adm (Some k) reg" for g
        by (auto simp: admit_def Let_def split: prod.split sum.split)
      then have "admit path hash digest (an\<lparr>an_fork := g\<rparr>) port conf None adm (Some k) reg = (r, k', reg')" for g
        using assms by simp
      then show ?thesis using k' \<open>k1 = Some k\<close> by blast
    qed (simp add: k')
  qed
qed

text \<open>
  C19. A fork is a session of its own, and its outcome is honest: a created child belongs to another
  session of the same caller, runs under a generation and a native session its parent does not have
  and in the parent's workspace; "not created" is reported only when the provider said so or when its
  answer could not have mattered, because it was never asked.
\<close>

theorem fork_is_separate:
  assumes "fork_child path hash digest an vs child forks turn conf adm reg = (out, reg')"
  shows "(case out of
      Forked s source \<Rightarrow> vs_namespace s = (vs_namespace vs)\<lparr>ns_sessionId := ns_sessionId (vs_namespace s)\<rparr> \<and>
        ns_sessionId (vs_namespace s) \<noteq> ns_sessionId (vs_namespace vs) \<and> vs_port s \<noteq> vs_port vs \<and>
        generation (vs_binding s) \<noteq> generation (vs_binding vs) \<and> nativeSessionId (vs_binding s) \<noteq> nativeSessionId (vs_binding vs)
    | Not_forked certainty f cleanup \<Rightarrow> certainty = Unknown_creation \<or>
        says_not_created (an_fork an \<lparr>fq_namespace = vs_namespace vs, fq_binding = vs_binding vs, fq_throughTurnId = turn\<rparr>
          (conf\<lparr>pc_workingDirectory := path (pc_workingDirectory conf)\<rparr>)) \<or>
        (\<forall>g. fork_child path hash digest (an\<lparr>an_fork := g\<rparr>) vs child forks turn conf adm reg = (out, reg')))"
proof (cases "pp_id child = vs_port vs \<or> pp_id child \<in> set (pr_used reg)")
  case True
  then show ?thesis using assms by (auto simp: fork_child_def Let_def)
next
  case False
  let ?asked = "\<lparr>fq_namespace = vs_namespace vs, fq_binding = vs_binding vs, fq_throughTurnId = turn\<rparr>"
  let ?k = "\<lparr>fa_port = forks, fa_rejection = fork_rejection path hash vs forks turn conf, fa_request = ?asked,
    fa_result = None, fa_attempted = False\<rparr>"
  obtain r k' reg1 where r: "admit path hash digest an child conf None adm (Some ?k) reg = (r, k', reg1)" by (metis surj_pair)
  show ?thesis
  proof (cases r)
    case (Admitted_session s)
    then have out: "out = Forked s ?asked" using assms False r by (auto simp: fork_child_def Let_def)
    from r [unfolded Admitted_session] show ?thesis
    proof (cases rule: admit_cases)
      case (admitted s')
      then have init: "initialize path hash digest an child (conf\<lparr>pc_workingDirectory := path (pc_workingDirectory conf)\<rparr>) None adm
          (Some ?k) = (Inr s, k')" by simp
      obtain w v where v: "native_session an (conf\<lparr>pc_workingDirectory := path (pc_workingDirectory conf)\<rparr>) None (Some ?k) = (Inr v, k')"
        and acc: "accept_native digest an child (conf\<lparr>pc_workingDirectory := path (pc_workingDirectory conf)\<rparr>) w None adm v = Inr s"
        by (rule initialize_Inr [OF init])
      obtain source where "fork_rejection path hash vs forks turn conf = None" "child_fits ?asked v source"
        using v fork_session_Inr [of an _ ?k v] by (auto simp: native_session_def split: prod.splits)
      then show ?thesis using rejection_None accept_native_Inr(1-4) [OF acc] False
        by (auto simp: out child_fits_def Let_def dest: rejection_None)
    qed simp_all
  next
    case (Refused_session f cleanup)
    then obtain c where out: "out = Not_forked c f cleanup" using assms False r by (auto simp: fork_child_def Let_def)
    show ?thesis using admit_fork [OF r]
    proof (elim disjE conjE exE)
      assume k': "k' = Some ?k" and any: "\<forall>g. admit path hash digest (an\<lparr>an_fork := g\<rparr>) child conf None adm (Some ?k) reg = (r, k', reg1)"
      then have "fork_child path hash digest (an\<lparr>an_fork := g\<rparr>) vs child forks turn conf adm reg = (out, reg')" for g
        using assms False r any by (simp add: fork_child_def Let_def Refused_session)
      then show ?thesis by (simp add: out)
    next
      fix k1 assume k1: "k' = Some k1" "fa_attempted k1" "fa_result k1 = (case an_fork an (fa_request ?k)
        (conf\<lparr>pc_workingDirectory := path (pc_workingDirectory conf)\<rparr>) of Answer x \<Rightarrow> Some x | Broken late \<Rightarrow> late)"
      then show ?thesis using assms False r
        by (auto simp: fork_child_def Let_def Refused_session says_not_created_def split: answer.splits option.splits fork_result.splits
            fork_certainty.splits if_splits)
    qed
  qed
qed

section \<open>Demonstration\<close>

definition demo_conf :: provider_configuration where
  "demo_conf = \<lparr>pc_namespace = demo_ns, pc_provider = ''pv'', pc_config = \<lparr>cfg_id = ''c1'', cfg_revision = ''r1''\<rparr>,
     pc_workingDirectory = utext_of ''/w'', pc_permissions = Tools_off\<rparr>"

definition demo_hash_path :: "utext \<Rightarrow> id" where
  "demo_hash_path d = ''w1''"

text \<open>A provider that continues the demonstration session under the next generation, and one that forks it.\<close>

definition demo_fork_capabilities :: capabilities where
  "demo_fork_capabilities = demo_capabilities\<lparr>fork := Supported\<rparr>"

definition demo_child_binding :: binding where
  "demo_child_binding = demo_binding_next\<lparr>nativeSessionId := ''n2''\<rparr>"

definition demo_answers :: provider_answers where
  "demo_answers = \<lparr>an_budget = Budget_kept, an_create = (\<lambda>c. Broken None),
     an_resume = (\<lambda>b c. Answer (Inr (demo_binding_next, demo_capabilities))),
     an_fork = (\<lambda>asked c. Answer (Fork_created (demo_child_binding, demo_fork_capabilities) asked)),
     an_verify = (\<lambda>v t. Broken None), an_close = Answer (Inr True)\<rparr>"

definition demo_port :: "nat \<Rightarrow> provider_port" where
  "demo_port i = \<lparr>pp_id = i, pp_closes = True, pp_resumes = True\<rparr>"

definition demo_restored_session :: provider_session where
  "demo_restored_session = \<lparr>vs_namespace = demo_ns, vs_binding = demo_binding_next, vs_port = 1, vs_capabilities = demo_capabilities,
     vs_tools = None, vs_previous = Some (demo_ns, demo_binding)\<rparr>"

lemma admission_validI:
  assumes "json_clean (json_of_row row)" "json_depth (json_of_row row) \<le> 16" "json_nodes (json_of_row row) \<le> 2048"
    "jsize (json_of_row row) \<le> 32768" "schema_row row" "checkContext dg row"
  shows "valid dg admission_limits row = None"
proof -
  have "fits admission_limits (json_of_row row)"
    using assms(1-4) print_size(1) [of "json_of_row row"] text_le_size(1) [of "json_of_row row"]
    by (simp add: fits_def admission_limits_def json_print_def byteLength_concat)
  moreover have "checkLimits admission_limits = None" by (simp add: checkLimits_None admission_limits_def max_safe_def)
  ultimately show ?thesis using assms(5,6) by (simp add: valid_None)
qed

lemma demo_id2 [simp]: "isId ''n2''" "isId ''s2''"
  by (simp_all add: isId_def id_char_def alphanumeric_def Let_def)

lemma demo_stage_valid: "stage_valid demo_digest demo_ns (demo_binding_next, demo_capabilities)"
  "stage_valid demo_digest (demo_ns\<lparr>ns_sessionId := ''s2''\<rparr>) (demo_child_binding, demo_fork_capabilities)"
  by (simp_all add: stage_valid_def startStage_def productSession_def)
     (rule admission_validI; simp add: demo_row_eval demo_binding_next_def demo_child_binding_def demo_fork_capabilities_def)+

lemma demo_restore_run: "restore_session (\<lambda>d. d) demo_hash_path demo_digest demo_answers (demo_port 1) (demo_session 2 3) demo_conf None
    \<lparr>pr_used = [], pr_closed = []\<rparr> = (Admitted_session demo_restored_session, \<lparr>pr_used = [1], pr_closed = []\<rparr>)"
proof -
  have "workspaceIdentity (\<lambda>d. d) demo_hash_path (utext_of ''/w'') = Some ''w1''"
    by (simp add: workspaceIdentity_def demo_hash_path_def utf16Length_def utext_of_def)
  moreover have "continues demo_binding (demo_binding_next, demo_capabilities)"
    by (simp add: continues_def demo_binding_next_def demo_binding_def demo_capabilities_def)
  moreover have "workspaceId demo_binding = ''w1''" "stage_binding demo_stage = demo_binding" "ss_namespace (demo_session 2 3) = demo_ns"
    by (simp_all add: demo_binding_def providerStage_def demo_session_def)
  moreover have "identity_fits demo_conf ''w1'' (demo_binding_next, demo_capabilities)"
    by (simp add: identity_fits_def demo_conf_def demo_binding_next_def demo_binding_def demo_capabilities_def required_tools_def)
  moreover have "pc_namespace demo_conf = demo_ns" "pc_permissions demo_conf = Tools_off"
    and conf: "pc_workingDirectory demo_conf = utext_of ''/w''" "demo_conf\<lparr>pc_workingDirectory := utext_of ''/w''\<rparr> = demo_conf"
    by (simp_all add: demo_conf_def)
  moreover have "an_budget demo_answers = Budget_kept" "native_session demo_answers demo_conf (Some (demo_session 2 3)) None =
      (Inr (demo_binding_next, demo_capabilities), None)"
    by (simp_all add: native_session_def demo_active demo_answers_def)
  ultimately show ?thesis using demo_stage_valid(1)
    by (simp add: restore_session_def admit_def admission_run_def initialize_def previous_check_def demo_active admission_fits_def
        accept_native_def verified_def demo_port_def demo_restored_session_def fail_if_def conf)
qed

theorem admission_binds_witness: "restores demo_restored_session (demo_session 2 3) = Inr True \<and> tools (vs_capabilities demo_restored_session) = Tools_disabled"
proof -
  obtain fk where "admit (\<lambda>d. d) demo_hash_path demo_digest demo_answers (demo_port 1) demo_conf (Some (demo_session 2 3)) None None
      \<lparr>pr_used = [], pr_closed = []\<rparr> = (Admitted_session demo_restored_session, fk, \<lparr>pr_used = [1], pr_closed = []\<rparr>)"
    using demo_restore_run by (auto simp: restore_session_def split: prod.splits)
  from admission_binds [OF this] show ?thesis by (simp add: required_tools_def demo_conf_def)
qed

theorem ports_owned_once_witness: "set (map vs_port [demo_restored_session] @ []) = set [1]"
proof -
  have "admissions \<lparr>pr_used = [1], pr_closed = []\<rparr> ([] @ admitted_sessions (Admitted_session demo_restored_session))"
    by (rule Restored [OF Booted demo_restore_run])
  from ports_owned_once [OF this] show ?thesis by simp
qed

text \<open>A session that can be forked, and its child.\<close>

definition demo_parent :: provider_session where
  "demo_parent = \<lparr>vs_namespace = demo_ns, vs_binding = demo_binding, vs_port = 0, vs_capabilities = demo_fork_capabilities,
     vs_tools = None, vs_previous = None\<rparr>"

definition demo_child_conf :: provider_configuration where
  "demo_child_conf = demo_conf\<lparr>pc_namespace := demo_ns\<lparr>ns_sessionId := ''s2''\<rparr>\<rparr>"

definition demo_child :: provider_session where
  "demo_child = \<lparr>vs_namespace = demo_ns\<lparr>ns_sessionId := ''s2''\<rparr>, vs_binding = demo_child_binding, vs_port = 1,
     vs_capabilities = demo_fork_capabilities, vs_tools = None, vs_previous = None\<rparr>"

definition demo_asked :: fork_request where
  "demo_asked = \<lparr>fq_namespace = demo_ns, fq_binding = demo_binding, fq_throughTurnId = ''x1''\<rparr>"

lemma demo_fork_run: "fork_child (\<lambda>d. d) demo_hash_path demo_digest demo_answers demo_parent (demo_port 1) True ''x1'' demo_child_conf None
    \<lparr>pr_used = [0], pr_closed = []\<rparr> = (Forked demo_child demo_asked, \<lparr>pr_used = [0, 1], pr_closed = []\<rparr>)"
proof -
  let ?v = "(demo_child_binding, demo_fork_capabilities)" and ?n = "demo_ns\<lparr>ns_sessionId := ''s2''\<rparr>"
  let ?k = "\<lparr>fa_port = True, fa_rejection = None, fa_request = demo_asked, fa_result = None, fa_attempted = False\<rparr>"
  have ws: "workspaceIdentity (\<lambda>d. d) demo_hash_path (utext_of ''/w'') = Some ''w1''"
    by (simp add: workspaceIdentity_def demo_hash_path_def utf16Length_def utext_of_def)
  have conf: "pc_namespace demo_child_conf = ?n" "pc_workingDirectory demo_child_conf = utext_of ''/w''" "pc_permissions demo_child_conf = Tools_off"
    "demo_child_conf\<lparr>pc_workingDirectory := utext_of ''/w''\<rparr> = demo_child_conf"
    by (simp_all add: demo_child_conf_def demo_conf_def)
  have "child_fits demo_asked ?v demo_asked"
    by (simp add: child_fits_def demo_asked_def demo_child_binding_def demo_binding_next_def demo_binding_def)
  then have native: "\<exists>k'. native_session demo_answers demo_child_conf None (Some ?k) = (Inr ?v, Some k')"
    by (simp add: native_session_def fork_session_def demo_answers_def Let_def)
  have "identity_fits demo_child_conf ''w1'' ?v"
    by (simp add: identity_fits_def demo_child_conf_def demo_conf_def demo_child_binding_def demo_binding_next_def demo_binding_def
        demo_fork_capabilities_def demo_capabilities_def required_tools_def)
  then have "accept_native demo_digest demo_answers (demo_port 1) demo_child_conf ''w1'' None None ?v = Inr demo_child"
    using demo_stage_valid(2) by (simp add: accept_native_def verified_def conf demo_port_def demo_child_def)
  then have init: "\<exists>k'. initialize (\<lambda>d. d) demo_hash_path demo_digest demo_answers (demo_port 1) demo_child_conf None None (Some ?k) =
      (Inr demo_child, Some k')"
    using native ws by (auto simp: initialize_def conf admission_fits_def fail_if_def)
  have reject: "fork_rejection (\<lambda>d. d) demo_hash_path demo_parent True ''x1'' demo_child_conf = None"
    using ws by (simp add: fork_rejection_def Let_def conf demo_parent_def required_tools_def)
      (simp add: demo_ns_def demo_child_conf_def demo_conf_def demo_binding_def demo_fork_capabilities_def demo_capabilities_def)
  have parent: "vs_namespace demo_parent = demo_ns" "vs_binding demo_parent = demo_binding" "vs_port demo_parent = 0" "pp_id (demo_port i) = i"
    "pp_closes (demo_port i)" "an_budget demo_answers = Budget_kept" for i
    by (simp_all add: demo_parent_def demo_port_def demo_answers_def)
  show ?thesis
    using init by (auto simp: fork_child_def Let_def parent reject admit_def admission_run_def conf demo_asked_def [symmetric])
qed

theorem fork_is_separate_witness:
  "ns_sessionId (vs_namespace demo_child) \<noteq> ns_sessionId (vs_namespace demo_parent) \<and>
    nativeSessionId (vs_binding demo_child) \<noteq> nativeSessionId (vs_binding demo_parent)"
  using fork_is_separate [OF demo_fork_run] by simp

end
