(* ===== verification/Delivery_Outbox.thy ===== *)
theory Delivery_Outbox
  imports Store_Reads
begin

text \<open>
  The durable outbox of a host (\<^verbatim>\<open>Deliveries\<close> of \<^verbatim>\<open>ai-host/src/delivery.ts\<close>): a tool call is filed as a
  delivery before its receiver hears of it, and what the receiver answers is recorded before it is
  acknowledged. A flight is one run of \<^verbatim>\<open>propose\<close> or \<^verbatim>\<open>deliver\<close>, cut at its awaits: each phase is what
  the flight waits for next, and \<open>flight_step\<close> what it does when that wait is over. The work of one
  mailbox turn is atomic: the mailbox runs one at a time, and a write is refused unless the session is
  as it was read. The router, the authorizer, the clock, fresh identifiers and deadlines are
  parameters, gathered in a \<open>turn\<close>.
\<close>

section \<open>What the outbox is asked and told\<close>

record tool_reply =
  tr_disposition :: disposition
  tr_text :: utext

record delivery_receipt =
  dr_receiptRef :: id
  dr_reply :: tool_reply

datatype receiver_state = Was_committed delivery_receipt | Not_submitted | Outcome_unknown

datatype verdict = Call_allowed | Call_rejected | Call_undecided

text \<open>A proposal after \<^verbatim>\<open>prepare\<close>.\<close>

record proposed_call =
  pc_generation :: id
  pc_command :: id
  pc_operation :: id
  pc_target :: id
  pc_asks :: bool
  pc_name :: id
  pc_arguments :: json
  pc_fingerprint :: utext

text \<open>
  What the rest of the world contributes to one turn. \<open>None\<close> is a call that throws or that the
  deadline outlives; \<open>tn_published\<close> is whether the listeners' notification went through.
\<close>

record turn =
  tn_aborted :: bool
  tn_now :: counter
  tn_uuid :: id
  tn_current :: bool
  tn_published :: bool
  tn_authorized :: "verdict result option"
  tn_reconciled :: "receiver_state result option"
  tn_sent :: "delivery_receipt result option"
  tn_acknowledged :: "unit result option"

section \<open>Failures\<close>

text \<open>
  \<^verbatim>\<open>fail("unavailable", "reconcile_first")\<close> is what any exception becomes, except two failures of the
  store or of a check that keep their code (\<^verbatim>\<open>failure\<close> of \<^verbatim>\<open>coordinate\<close>).
\<close>

definition unconfirmed :: failure where
  "unconfirmed = fail_with Unavailable Reconcile_first"

definition thrown_failure :: "failure \<Rightarrow> failure" where
  "thrown_failure f = (if code f \<in> {Content_conflict, Stale_binding} then fail_with (code f) Never else unconfirmed)"

text \<open>\<^verbatim>\<open>value\<close>: the value of a result, or an exception that carries its code.\<close>

definition value_of :: "'a result \<Rightarrow> 'a result" where
  "value_of r = (case r of Inl f \<Rightarrow> Inl (thrown_failure f) | Inr v \<Rightarrow> Inr v)"

definition check_deadline :: "turn \<Rightarrow> failure option" where
  "check_deadline t = fail_if (tn_aborted t) unconfirmed"

definition proposal_json :: "id \<Rightarrow> json \<Rightarrow> json" where
  "proposal_json name args = obj [(''name'', jid name), (''arguments'', args)]"

definition call_fingerprint :: "id \<Rightarrow> id \<Rightarrow> json \<Rightarrow> diagnostic + utext" where
  "call_fingerprint tgt name args =
     boundedJson defaultLimits (obj [(''target'', jid tgt), (''proposal'', proposal_json name args)])"

text \<open>
  The head of \<^verbatim>\<open>propose\<close>: what the router made of a proposal is checked and fingerprinted. The
  identity of the native callback goes into \<^verbatim>\<open>prepare\<close> only.
\<close>

definition prepare_call ::
  "(json \<Rightarrow> (id \<times> id \<times> string) result) \<Rightarrow> id \<Rightarrow> id \<Rightarrow> id \<Rightarrow> json \<Rightarrow> id option \<Rightarrow> proposed_call result" where
  "prepare_call prepare gen cmd name args callId =
     (let raw = obj ([(''name'', jid name), (''arguments'', args)] @ (case callId of None \<Rightarrow> [] | Some c \<Rightarrow> [(''callId'', jid c)]))
      in case boundedJson defaultLimits raw of
        Inl d \<Rightarrow> Inl unconfirmed
      | Inr s \<Rightarrow> and_then (prepare raw) (\<lambda>(i, tgt, permission).
          if \<not> isId i \<or> \<not> isId tgt \<or> permission \<notin> {''none'', ''ask''} then Inl (fail_with Invalid_input Never)
          else case call_fingerprint tgt name args of
            Inl d \<Rightarrow> Inl unconfirmed
          | Inr fp \<Rightarrow> Inr \<lparr>pc_generation = gen, pc_command = cmd, pc_operation = i, pc_target = tgt,
              pc_asks = (permission = ''ask''), pc_name = name, pc_arguments = args, pc_fingerprint = fp\<rparr>))"

section \<open>Reading and writing the store\<close>

text \<open>\<^verbatim>\<open>existing\<close>: the delivery filed under this operation, which must have this content.\<close>

definition existing_delivery ::
  "env \<Rightarrow> bounds \<Rightarrow> namespace \<Rightarrow> proposed_call \<Rightarrow> store \<Rightarrow> (delivery \<times> event) option result" where
  "existing_delivery e bd n c st = and_then (value_of (store_delivery e bd n (pc_operation c) st)) (\<lambda>found.
     case found of None \<Rightarrow> Inr None
     | Some (d, ev) \<Rightarrow> (case body ev of
         Delivery_requested i t name args \<Rightarrow> (case call_fingerprint (target d) name args of
             Inl x \<Rightarrow> Inl unconfirmed
           | Inr fp \<Rightarrow> if fp \<noteq> pc_fingerprint c then Inl (fail_with Content_conflict Never) else Inr (Some (d, ev)))
       | _ \<Rightarrow> Inl (fail_with Content_conflict Never)))"

text \<open>\<^verbatim>\<open>live\<close>: the command is still the running prompt of the current generation.\<close>

definition live_session :: "env \<Rightarrow> bounds \<Rightarrow> namespace \<Rightarrow> turn \<Rightarrow> id \<Rightarrow> id \<Rightarrow> store \<Rightarrow> session result" where
  "live_session e bd n t gen cmd st =
     and_then (value_of (store_session e bd n st)) (\<lambda>s.
     and_then (value_of (store_command e bd n cmd st)) (\<lambda>row.
     unless_exit (check_deadline t)
       (if \<not> tn_current t \<or> status s \<noteq> Active then Inl (fail_with Stale_binding Never)
        else case activeStage s of
          Inl x \<Rightarrow> Inl unconfirmed
        | Inr stage \<Rightarrow>
            if generation (stage_binding stage) \<noteq> gen \<or> \<not> is_prompt (input_of (cr_command row)) \<or>
               state_of row \<notin> {T_running, T_dispatching} \<or>
               map_option observerGeneration (dispatch row) \<noteq> Some gen
            then Inl (fail_with Stale_binding Never) else Inr s)))"

text \<open>\<^verbatim>\<open>commit\<close>: one delivery and its events, written against the session as it was read.\<close>

definition delivery_batch :: "namespace \<Rightarrow> counter \<Rightarrow> session \<Rightarrow> id \<Rightarrow> delivery \<Rightarrow> event list \<Rightarrow> commit_batch" where
  "delivery_batch n now s gen d evs = \<lparr>cb_providerFacts = [], cb_nowMs = Some now, cb_namespace = n,
     cb_expectedRevision = revision s, cb_expectedGeneration = gen,
     cb_session = s\<lparr>revision := revision s + 1, lastSequence := lastSequence s + int (length evs)\<rparr>,
     cb_commands = [], cb_events = evs, cb_interactions = [], cb_deliveries = [d], cb_surfaces = []\<rparr>"

definition commit_outbox ::
  "env \<Rightarrow> bounds \<Rightarrow> turn \<Rightarrow> session \<Rightarrow> delivery \<Rightarrow> event list \<Rightarrow> store \<Rightarrow> unit result \<times> store" where
  "commit_outbox e bd t s d evs st = (case activeStage s of
     Inl x \<Rightarrow> (Inl unconfirmed, st)
   | Inr stage \<Rightarrow> (case store_commit e bd
         (delivery_batch (ss_namespace s) (tn_now t) s (generation (stage_binding stage)) d evs) st of
       (Inl f, st') \<Rightarrow> (Inl (thrown_failure f), st')
     | (Inr u, st') \<Rightarrow> (if tn_published t then Inr () else Inl unconfirmed, st')))"

text \<open>The delivery as it is now, or an exception; \<open>absent\<close> when there is none.\<close>

definition current_delivery :: "env \<Rightarrow> bounds \<Rightarrow> namespace \<Rightarrow> id \<Rightarrow> store \<Rightarrow> delivery option result" where
  "current_delivery e bd n i st = and_then (value_of (store_delivery e bd n i st)) (\<lambda>found. Inr (map_option fst found))"

definition current_session :: "env \<Rightarrow> bounds \<Rightarrow> namespace \<Rightarrow> store \<Rightarrow> session result" where
  "current_session e bd n st = value_of (store_session e bd n st)"

section \<open>The mailbox turns of a flight\<close>

text \<open>The second mailbox turn of \<^verbatim>\<open>propose\<close>: the call is filed, unless it has been meanwhile.\<close>

definition request_event :: "namespace \<Rightarrow> id \<Rightarrow> session \<Rightarrow> proposed_call \<Rightarrow> event" where
  "request_event n uuid s c = \<lparr>ev_namespace = n, eventId = uuid, sequence = lastSequence s + 1,
     ev_generation = pc_generation c, ev_commandId = Some (pc_command c), ev_attemptId = None,
     body = Delivery_requested (pc_operation c) (pc_target c) (pc_name c) (pc_arguments c)\<rparr>"

definition fresh_delivery :: "namespace \<Rightarrow> counter \<Rightarrow> event \<Rightarrow> string \<Rightarrow> proposed_call \<Rightarrow> delivery" where
  "fresh_delivery n now ev h c = \<lparr>dl_namespace = n, operationId = pc_operation c, dl_eventId = eventId ev,
     target = pc_target c, dl_contentHash = h, dl_retry = Retry_reconcile_first, dl_status = Delivery_pending,
     attempts = 0, nextAttemptAtMs = now\<rparr>"

definition file_delivery ::
  "env \<Rightarrow> bounds \<Rightarrow> namespace \<Rightarrow> turn \<Rightarrow> proposed_call \<Rightarrow> store \<Rightarrow> (delivery \<times> event) result \<times> store" where
  "file_delivery e bd n t c st = (case live_session e bd n t (pc_generation c) (pc_command c) st of
     Inl f \<Rightarrow> (Inl f, st)
   | Inr s \<Rightarrow> (case existing_delivery e bd n c st of
       Inl f \<Rightarrow> (Inl f, st)
     | Inr (Some replay) \<Rightarrow> (Inr replay, st)
     | Inr None \<Rightarrow>
         if tn_aborted t then (Inl unconfirmed, st)
         else let ev = request_event n (tn_uuid t) s c in
           case deliveryFingerprint (env_digest e) defaultLimits ev (pc_target c) of
             Inl x \<Rightarrow> (Inl unconfirmed, st)
           | Inr h \<Rightarrow> (let d = fresh_delivery n (tn_now t) ev h c in
               case commit_outbox e bd t s d [ev] st of
                 (Inl f, st') \<Rightarrow> (Inl f, st') | (Inr u, st') \<Rightarrow> (Inr (d, ev), st'))))"

text \<open>Before anything is sent, the attempt is counted and the delivery marked as one to reconcile.\<close>

definition mark_attempt :: "env \<Rightarrow> bounds \<Rightarrow> namespace \<Rightarrow> id \<Rightarrow> turn \<Rightarrow> store \<Rightarrow> unit result \<times> store" where
  "mark_attempt e bd n i t st = (case current_delivery e bd n i st of
     Inl f \<Rightarrow> (Inl f, st)
   | Inr None \<Rightarrow> (Inl unconfirmed, st)
   | Inr (Some d) \<Rightarrow>
       if dl_status d = Delivered then (Inl unconfirmed, st)
       else (case current_session e bd n st of
         Inl f \<Rightarrow> (Inl f, st)
       | Inr s \<Rightarrow> commit_outbox e bd t s
           (d\<lparr>dl_status := Delivery_reconciliation_required, attempts := attempts d + 1,
              nextAttemptAtMs := tn_now t + 1000\<rparr>) [] st))"

text \<open>The receipt's reference becomes an event, and the delivery recorded, once.\<close>

definition receipt_event :: "namespace \<Rightarrow> id \<Rightarrow> session \<Rightarrow> id \<Rightarrow> event \<Rightarrow> delivery \<Rightarrow> delivery_receipt \<Rightarrow> event" where
  "receipt_event n uuid s gen req d r = \<lparr>ev_namespace = n, eventId = uuid, sequence = lastSequence s + 1,
     ev_generation = gen, ev_commandId = ev_commandId req, ev_attemptId = None,
     body = Delivery_recorded (operationId d) (target d) (dl_contentHash d) (dr_receiptRef r)\<rparr>"

definition record_receipt ::
  "env \<Rightarrow> bounds \<Rightarrow> namespace \<Rightarrow> id \<Rightarrow> turn \<Rightarrow> event \<Rightarrow> delivery_receipt \<Rightarrow> store \<Rightarrow> unit result \<times> store" where
  "record_receipt e bd n i t req r st = (case current_delivery e bd n i st of
     Inl f \<Rightarrow> (Inl f, st)
   | Inr None \<Rightarrow> (Inl unconfirmed, st)
   | Inr (Some d) \<Rightarrow>
       if dl_status d \<in> {Receipt_recorded, Delivered} then (Inr (), st)
       else (case current_session e bd n st of
         Inl f \<Rightarrow> (Inl f, st)
       | Inr s \<Rightarrow> (case activeStage s of
           Inl x \<Rightarrow> (Inl unconfirmed, st)
         | Inr stage \<Rightarrow> commit_outbox e bd t s (d\<lparr>dl_status := Receipt_recorded\<rparr>)
             [receipt_event n (tn_uuid t) s (generation (stage_binding stage)) req d r] st)))"

text \<open>After the acknowledgement the delivery is done.\<close>

definition settle_delivery :: "env \<Rightarrow> bounds \<Rightarrow> namespace \<Rightarrow> id \<Rightarrow> turn \<Rightarrow> store \<Rightarrow> unit result \<times> store" where
  "settle_delivery e bd n i t st = (case current_delivery e bd n i st of
     Inl f \<Rightarrow> (Inl f, st)
   | Inr None \<Rightarrow> (Inr (), st)
   | Inr (Some d) \<Rightarrow>
       if dl_status d = Delivered then (Inr (), st)
       else (case current_session e bd n st of
         Inl f \<Rightarrow> (Inl f, st)
       | Inr s \<Rightarrow> commit_outbox e bd t s (d\<lparr>dl_status := Delivered\<rparr>) [] st))"

section \<open>Flights\<close>

text \<open>What a flight waits for next. An \<open>Awaiting\<close> phase follows a call to the router.\<close>

datatype phase =
    Looking_up proposed_call
  | Checking_live proposed_call
  | Authorizing proposed_call
  | Filing proposed_call
  | Attempting delivery event
  | Reconciling delivery event
  | Marking event
  | Sending event
  | Awaiting_receipt event
  | Recording event delivery_receipt
  | Acknowledging event delivery_receipt
  | Awaiting_acknowledgement event delivery_receipt
  | Settling delivery_receipt
  | Landed "tool_reply result"

text \<open>Calls of the router, in the order they are made; a reconciliation with its answer.\<close>

datatype router_call =
    Send_call event
  | Reconcile_call event receiver_state
  | Acknowledge_call event delivery_receipt

definition json_of_reply :: "tool_reply \<Rightarrow> json" where
  "json_of_reply r = obj [(''disposition'', jid (disposition_text (tr_disposition r))), (''text'', JStr (tr_text r))]"

text \<open>The reply to a call the user rejects, in the code points of the source.\<close>

definition rejected_reply :: tool_reply where
  "rejected_reply = \<lparr>tr_disposition = Rejected, tr_text = [29992, 25143, 25298, 32477, 26412, 27425, 32] @ utext_of ''AI'' @
     [32, 24037, 20855, 35843, 29992, 12290]\<rparr>"

definition is_request :: "event \<Rightarrow> bool" where
  "is_request ev = (case body ev of Delivery_requested i t name args \<Rightarrow> True | _ \<Rightarrow> False)"

text \<open>A receipt is checked before it is recorded.\<close>

definition receive_receipt :: "event \<Rightarrow> delivery_receipt \<Rightarrow> phase" where
  "receive_receipt ev r = (if \<not> isId (dr_receiptRef r) then Landed (Inl (fail_with Invalid_input Never))
     else case boundedJson defaultLimits (json_of_reply (dr_reply r)) of
       Inl x \<Rightarrow> Landed (Inl unconfirmed) | Inr s \<Rightarrow> Recording ev r)"

text \<open>An answer of the outside world: \<open>None\<close> and failures end the flight.\<close>

definition on_answer :: "'a result option \<Rightarrow> ('a \<Rightarrow> phase) \<Rightarrow> phase" where
  "on_answer a k = (case a of None \<Rightarrow> Landed (Inl unconfirmed) | Some (Inl f) \<Rightarrow> Landed (Inl f) | Some (Inr v) \<Rightarrow> k v)"

definition on_turn :: "'a result \<times> store \<Rightarrow> ('a \<Rightarrow> phase) \<Rightarrow> phase \<times> store \<times> router_call list" where
  "on_turn r k = (case r of (Inl f, st) \<Rightarrow> (Landed (Inl f), st, []) | (Inr v, st) \<Rightarrow> (k v, st, []))"

text \<open>The first mailbox turn of \<^verbatim>\<open>propose\<close>, and the user's decision.\<close>

definition look_up :: "env \<Rightarrow> bounds \<Rightarrow> namespace \<Rightarrow> proposed_call \<Rightarrow> store \<Rightarrow> phase" where
  "look_up e bd n c st = (case existing_delivery e bd n c st of
     Inl f \<Rightarrow> Landed (Inl f)
   | Inr (Some (d, ev)) \<Rightarrow> Attempting d ev
   | Inr None \<Rightarrow> Checking_live c)"

definition authorized :: "proposed_call \<Rightarrow> verdict \<Rightarrow> phase" where
  "authorized c v = (case v of
     Call_allowed \<Rightarrow> Filing c
   | Call_rejected \<Rightarrow> Landed (Inr rejected_reply)
   | Call_undecided \<Rightarrow> Landed (Inl (fail_with Unavailable Never)))"

text \<open>
  \<^verbatim>\<open>propose\<close> from its lookup on, and \<^verbatim>\<open>attempt\<close>. An attempt that may have been made before asks
  the receiver first, and sends again only what the receiver never had.
\<close>

fun flight_step ::
  "env \<Rightarrow> bounds \<Rightarrow> namespace \<Rightarrow> id \<Rightarrow> turn \<Rightarrow> phase \<Rightarrow> store \<Rightarrow> phase \<times> store \<times> router_call list" where
  "flight_step e bd n i t (Looking_up c) st =
     (look_up e bd n c st, st, [])"
| "flight_step e bd n i t (Checking_live c) st =
     (case live_session e bd n t (pc_generation c) (pc_command c) st of
        Inl f \<Rightarrow> (Landed (Inl f), st, [])
      | Inr s \<Rightarrow> (if pc_asks c then Authorizing c else Filing c, st, []))"
| "flight_step e bd n i t (Authorizing c) st =
     (on_answer (tn_authorized t) (authorized c), st, [])"
| "flight_step e bd n i t (Filing c) st = on_turn (file_delivery e bd n t c st) (\<lambda>(d, ev). Attempting d ev)"
| "flight_step e bd n i t (Attempting d ev) st =
     (if tn_aborted t \<or> \<not> is_request ev then Landed (Inl (fail_with Unavailable Never))
      else if dl_status d \<noteq> Delivery_pending \<or> 0 < attempts d then Reconciling d ev
      else Marking ev, st, [])"
| "flight_step e bd n i t (Reconciling d ev) st =
     (on_answer (tn_reconciled t) (\<lambda>v. case v of
        Was_committed r \<Rightarrow> receive_receipt ev r
      | Outcome_unknown \<Rightarrow> Landed (Inl (fail_with Reconciliation_required Reconcile_first))
      | Not_submitted \<Rightarrow> if dl_status d \<in> {Receipt_recorded, Delivered}
          then Landed (Inl (fail_with Reconciliation_required Reconcile_first)) else Marking ev), st,
      case tn_reconciled t of Some (Inr v) \<Rightarrow> [Reconcile_call ev v] | _ \<Rightarrow> [])"
| "flight_step e bd n i t (Marking ev) st =
     on_turn (mark_attempt e bd n i t st) (\<lambda>u. if tn_aborted t then Landed (Inl unconfirmed) else Sending ev)"
| "flight_step e bd n i t (Sending ev) st = (Awaiting_receipt ev, st, [Send_call ev])"
| "flight_step e bd n i t (Awaiting_receipt ev) st = (on_answer (tn_sent t) (receive_receipt ev), st, [])"
| "flight_step e bd n i t (Recording ev r) st =
     on_turn (record_receipt e bd n i t ev r st) (\<lambda>u. Acknowledging ev r)"
| "flight_step e bd n i t (Acknowledging ev r) st = (Awaiting_acknowledgement ev r, st, [Acknowledge_call ev r])"
| "flight_step e bd n i t (Awaiting_acknowledgement ev r) st = (on_answer (tn_acknowledged t) (\<lambda>u. Settling r), st, [])"
| "flight_step e bd n i t (Settling r) st =
     on_turn (settle_delivery e bd n i t st) (\<lambda>u. Landed (Inr (dr_reply r)))"
| "flight_step e bd n i t (Landed a) st = (Landed a, st, [])"

section \<open>Departures\<close>

text \<open>
  \<^verbatim>\<open>coordinate\<close>: one flight for each operation of a namespace. A caller with the same content waits
  for it, one with other content is refused, and without a flight a caller starts one.
\<close>

datatype boarding = Joins | Departs

definition coordinate :: "(string \<times> id, utext) jsmap \<Rightarrow> namespace \<Rightarrow> id \<Rightarrow> utext \<Rightarrow> boarding result" where
  "coordinate active n i fp = (case namespaceKey n of
     Inl x \<Rightarrow> Inl unconfirmed
   | Inr key \<Rightarrow> (case jm_get active (key, i) of
       Some fp' \<Rightarrow> if fp' \<noteq> fp then Inl (fail_with Content_conflict Never) else Inr Joins
     | None \<Rightarrow> Inr Departs))"

text \<open>The first phase of a proposal; what a sweep makes of a due row: an outcome, or a flight.\<close>

definition propose_phase :: "turn \<Rightarrow> proposed_call \<Rightarrow> phase" where
  "propose_phase t c = (if tn_aborted t then Landed (Inl unconfirmed) else Looking_up c)"

definition recover_row :: "env \<Rightarrow> bounds \<Rightarrow> namespace \<Rightarrow> id \<Rightarrow> turn \<Rightarrow> store \<Rightarrow> unit result + phase" where
  "recover_row e bd n i t st = (case store_delivery e bd n i st of
     Inl f \<Rightarrow> Inl (Inl unconfirmed)
   | Inr None \<Rightarrow> Inl (Inr ())
   | Inr (Some (d, ev)) \<Rightarrow> (case body ev of
         Delivery_requested j tgt name args \<Rightarrow> (case call_fingerprint (target d) name args of
             Inl x \<Rightarrow> Inl (Inl unconfirmed)
           | Inr fp \<Rightarrow> Inr (if tn_aborted t then Landed (Inl unconfirmed) else Attempting d ev))
       | _ \<Rightarrow> Inl (Inr ())))"

text \<open>
  \<^verbatim>\<open>recover\<close>: one page of due deliveries; the cursor of the next sweep is kept before any of them
  is attempted. The sweep reports the first failure among its results.
\<close>

definition recover_page ::
  "env \<Rightarrow> bounds \<Rightarrow> (nat list \<Rightarrow> json option) \<Rightarrow> counter \<Rightarrow> string option \<Rightarrow> store \<Rightarrow> (delivery list \<times> string option) result" where
  "recover_page e bd parse now after st =
     (case store_deliveries e bd parse 4 now after st of
        Inl f \<Rightarrow> Inl unconfirmed | Inr page \<Rightarrow> Inr (kp_items page, kp_next page))"

definition recover_outcome :: "'a result list \<Rightarrow> unit result" where
  "recover_outcome rs = (case find isl rs of Some (Inl f) \<Rightarrow> Inl f | _ \<Rightarrow> Inr ())"

section \<open>The outbox as a machine\<close>

text \<open>
  One operation of one namespace: the store, the flight under way, and every call the router has had.
  Meanwhile the store does anything it may, under any callers. The process may stop at any point and
  another open the database; a flight is lost with it. A sweep starts from the row it has just read: the store
  answers without waiting, so no flight of the operation is sent and lands between the two.
\<close>

record outbox =
  ob_store :: store
  ob_flight :: "phase option"
  ob_calls :: "router_call list"

inductive outbox_step :: "namespace \<Rightarrow> id \<Rightarrow> outbox \<Rightarrow> outbox \<Rightarrow> bool" for n :: namespace and i :: id where
  World: "store_step (ob_store ob) st' \<Longrightarrow> outbox_step n i ob (ob\<lparr>ob_store := st'\<rparr>)"
| Propose: "ob_flight ob = None \<Longrightarrow> pc_operation c = i \<Longrightarrow> outbox_step n i ob (ob\<lparr>ob_flight := Some (propose_phase t c)\<rparr>)"
| Sweep: "ob_flight ob = None \<Longrightarrow> recover_row e bd n i t (ob_store ob) = Inr p \<Longrightarrow>
    outbox_step n i ob (ob\<lparr>ob_flight := Some p\<rparr>)"
| Fly: "ob_flight ob = Some p \<Longrightarrow> flight_step e bd n i t p (ob_store ob) = (p', st', calls) \<Longrightarrow>
    outbox_step n i ob \<lparr>ob_store = st', ob_flight = Some p', ob_calls = ob_calls ob @ calls\<rparr>"
| Land: "ob_flight ob = Some (Landed a) \<Longrightarrow> outbox_step n i ob (ob\<lparr>ob_flight := None\<rparr>)"
| Crash: "store_open e bd (st_db (ob_store ob)) = Inr st' \<Longrightarrow> outbox_step n i ob (ob\<lparr>ob_store := st', ob_flight := None\<rparr>)"

inductive reachable_outbox :: "namespace \<Rightarrow> id \<Rightarrow> outbox \<Rightarrow> bool" for n :: namespace and i :: id where
  Fresh_outbox: "reachable_outbox n i \<lparr>ob_store = empty_store, ob_flight = None, ob_calls = []\<rparr>"
| Next_outbox: "reachable_outbox n i ob \<Longrightarrow> outbox_step n i ob ob' \<Longrightarrow> reachable_outbox n i ob'"

end
