(* ===== verification/Delivery_Facts.thy ===== *)
theory Delivery_Facts
  imports Delivery_Outbox
begin

text \<open>
  Facts about the outbox: what is true of a filed delivery stays true, whatever happens to the
  store, until its session is pruned for good; and what each turn of a flight establishes.
\<close>

section \<open>Deliveries only advance\<close>

definition delivery_succeeds :: "delivery \<Rightarrow> delivery \<Rightarrow> bool" where
  "delivery_succeeds d d' \<longleftrightarrow> dl_eventId d' = dl_eventId d \<and> dl_contentHash d' = dl_contentHash d \<and> target d' = target d \<and>
     attempts d \<le> attempts d' \<and>
     (dl_status d = Receipt_recorded \<longrightarrow> dl_status d' \<in> {Receipt_recorded, Delivered}) \<and>
     (dl_status d = Delivered \<longrightarrow> dl_status d' = Delivered)"

lemma delivery_succeeds_refl [simp]: "delivery_succeeds d d"
  by (simp add: delivery_succeeds_def)

lemma delivery_succeeds_trans: "delivery_succeeds a b \<Longrightarrow> delivery_succeeds b c \<Longrightarrow> delivery_succeeds a c"
  by (auto simp: delivery_succeeds_def)

definition deliveries_kept :: "workspace \<Rightarrow> workspace \<Rightarrow> bool" where
  "deliveries_kept w w' \<longleftrightarrow> (ws_inv w \<longrightarrow> table_succeeds delivery_succeeds (ws_deliveries w) (ws_deliveries w'))"

lemma same_deliveries: "ws_deliveries w' = ws_deliveries w \<Longrightarrow> deliveries_kept w w'"
  by (simp add: deliveries_kept_def table_succeeds_refl)

lemma deliveries_kept_trans: "preserves a b \<Longrightarrow> deliveries_kept a b \<Longrightarrow> deliveries_kept b c \<Longrightarrow> deliveries_kept a c"
  using table_succeeds_trans [OF delivery_succeeds_trans, where m = "ws_deliveries a" and m' = "ws_deliveries b" and m'' = "ws_deliveries c"]
  by (auto simp: deliveries_kept_def preserves_def)

lemma checked_delivery:
  assumes "delivery_checks e lim b seen copy row = None" "jm_get (ws_deliveries copy) (operationId row) = Some old"
  shows "delivery_succeeds old row"
  using assms by (auto simp: delivery_checks_def delivery_regresses_def delivery_succeeds_def Let_def split: option.splits)

lemma commit_keeps_deliveries:
  assumes "reduceCommit e lim st b accepting suspending = Inr st'"
  shows "deliveries_kept st st'"
proof -
  from assms obtain cur facts lp copy1 copy2 "is" copy3 copy4 ss where
    run: "commit_run e lim st b accepting suspending cur facts lp copy1 copy2 is copy3 copy4 ss"
    and st': "st' = copy4\<lparr>ws_session := cb_session b\<rparr>" by (rule reduceCommit_run)
  have loop: "commit_deliveries e lim b copy2 = Inr copy3" using run unfolding commit_run_def by blast
  note eff = commit_run_applied(1,13) [OF run]
  have "\<exists>d'. jm_get (upsert operationId (cb_deliveries b) (ws_deliveries st)) k = Some d' \<and> delivery_succeeds d d'"
    if d: "jm_get (ws_deliveries st) k = Some d" for k d
  proof (cases "k \<in> operationId ` set (cb_deliveries b)")
    case True
    then obtain row where row: "row \<in> set (cb_deliveries b)" "operationId row = k" by auto
    then obtain "past" future where split: "past @ row # future = cb_deliveries b" by (metis split_list)
    note distinct = run_deliveries_distinct [OF loop]
    have "k \<notin> operationId ` set past" using distinct row(2) by (auto simp: split [symmetric])
    then have "jm_get (upsert operationId past (ws_deliveries st)) (operationId row) = Some d"
      using d by (simp add: upsert_other row(2))
    then have "delivery_succeeds d row"
      using checked_delivery [OF commit_deliveries_loop(2) [OF loop split]] eff(2) by simp
    then show ?thesis using upsert_get [OF distinct row(1), of "ws_deliveries st"] row(2) by simp
  qed (simp add: upsert_other d)
  then show ?thesis by (simp add: deliveries_kept_def table_succeeds_def st' eff(1)) (simp add: applied_def)
qed

lemma acceptance_keeps_deliveries:
  assumes "reduceAcceptance e lim st inp suspending = Inr (st', r)"
  shows "deliveries_kept st st'"
  using assms by (cases rule: acceptance_cases) (auto intro: commit_keeps_deliveries same_deliveries)

lemma handoff_keeps_deliveries:
  assumes "reduceHandoff e lim st inp restored = Inr st'"
  shows "deliveries_kept st st'"
  unfolding deliveries_kept_def
proof
  assume "ws_inv st"
  then have "ws_keyed st" by (simp add: ws_inv_def)
  from reduceHandoff_effect [OF assms this]
  obtain g s events where "st' = (swept g st)\<lparr>ws_session := s, ws_events := ws_events st @ events,
       ws_generations := add_generation g (ws_generations st)\<rparr>"
    by blast
  then have "ws_deliveries st' = ws_deliveries st" by (simp add: swept_def)
  then show "table_succeeds delivery_succeeds (ws_deliveries st) (ws_deliveries st')" by (simp add: table_succeeds_refl)
qed

lemma suspend_target_keeps_deliveries:
  assumes "suspend_target e lim inp gen tgt nxt = Inr nxt'"
  shows "deliveries_kept nxt nxt'"
  using assms
  by (auto simp: suspend_target_def Let_def split: if_splits option.splits
      intro: deliveries_kept_trans [OF acceptance_ok acceptance_keeps_deliveries commit_keeps_deliveries] same_deliveries)

lemma suspension_keeps_deliveries:
  assumes run: "reduceSuspension e lim st inp = Inr st'"
  shows "deliveries_kept st st'"
proof (cases "st' = st")
  case False
  then obtain gen nxt where loop: "loop_exit (suspend_target e lim inp gen) (commandsInStates st [T_accepted]) st = Inr nxt"
    and rest: "st' = nxt \<or> (\<exists>r. reduceHandoff e lim nxt r None = Inr st')"
    using run by (auto simp: reduceSuspension_def Let_def split: if_splits)
  have "preserves st nxt \<and> deliveries_kept st nxt"
    by (rule loop_exit_invariant [OF loop, of "\<lambda>past w. preserves st w \<and> deliveries_kept st w"])
       (auto intro: preserves_trans suspend_target_ok deliveries_kept_trans suspend_target_keeps_deliveries same_deliveries)
  then show ?thesis using rest by (auto intro: deliveries_kept_trans handoff_keeps_deliveries)
qed (simp add: same_deliveries)

lemma step_keeps_deliveries: "session_step st st' \<Longrightarrow> deliveries_kept st st'"
proof (induction rule: session_step.induct)
  case (Accept e lim st inp st' r)
  then show ?case by (auto simp: step_entry_defs intro: acceptance_keeps_deliveries)
next
  case (Commit e lim st b st')
  then show ?case by (auto simp: step_entry_defs intro: commit_keeps_deliveries)
next
  case (Rebind e lim st ri restored st')
  then show ?case by (auto simp: step_entry_defs intro: handoff_keeps_deliveries)
next
  case (Recover e lim st ri st')
  then show ?case by (auto simp: step_entry_defs intro: handoff_keeps_deliveries)
next
  case (Retire e lim st revn gen st')
  then show ?case
    by (auto simp: step_entry_defs reduceRetirement_def Let_def intro!: same_deliveries split: option.splits)
next
  case (Suspend e lim st si st')
  then show ?case by (auto simp: step_entry_defs intro: suspension_keeps_deliveries)
next
  case (Select st connection revn fresh st')
  then show ?case by (auto simp: selectConnection_def intro!: same_deliveries split: if_splits)
next
  case (Activate e st xi st')
  then show ?case by (auto elim!: activation_run intro!: same_deliveries)
qed

section \<open>What stands of a filed delivery\<close>

text \<open>
  \<open>stands n i S db\<close>: the delivery under this operation satisfies \<open>S\<close>, or its namespace is spent, so
  that it will never be seen again.
\<close>

definition stands :: "namespace \<Rightarrow> id \<Rightarrow> (delivery \<Rightarrow> bool) \<Rightarrow> database \<Rightarrow> bool" where
  "stands n i S db \<longleftrightarrow> n \<in> set (db_tombstones db) \<or>
     (\<exists>w d. session_at db n = Some w \<and> jm_get (ws_deliveries w) i = Some d \<and> S d)"

abbreviation lasting :: "(delivery \<Rightarrow> bool) \<Rightarrow> bool" where
  "lasting S \<equiv> \<forall>d d'. delivery_succeeds d d' \<longrightarrow> S d \<longrightarrow> S d'"

definition stands_spec :: "namespace \<Rightarrow> id \<Rightarrow> (delivery \<Rightarrow> bool) \<Rightarrow> spec \<Rightarrow> bool" where
  "stands_spec n i S sp \<longleftrightarrow> (\<forall>m w. sp_sessions sp m = Some w \<longrightarrow> ws_inv w) \<and> (n \<in> sp_spent sp \<or>
     (\<exists>w d. sp_sessions sp n = Some w \<and> jm_get (ws_deliveries w) i = Some d \<and> S d))"

lemma spec_step_stands: "spec_step sp sp' \<Longrightarrow> lasting S \<Longrightarrow> stands_spec n i S sp \<Longrightarrow> stands_spec n i S sp'"
proof (induction rule: spec_step.induct)
  case (Spec_create e lim s w m sp)
  then show ?case using createState_ok [OF Spec_create(1)] by (auto simp: stands_spec_def)
next
  case (Spec_move sp m w w')
  have inv: "ws_inv w" "ws_inv w'" using Spec_move step_ok [OF Spec_move(2)] by (auto simp: stands_spec_def preserves_def)
  have "table_succeeds delivery_succeeds (ws_deliveries w) (ws_deliveries w')"
    using step_keeps_deliveries [OF Spec_move(2)] inv(1) by (simp add: deliveries_kept_def)
  then show ?case using Spec_move inv by (fastforce simp: stands_spec_def dest: table_succeedsD)
qed (auto simp: stands_spec_def)

lemma step_stands:
  assumes "store_step st st'" "reachable_store st" "lasting S" "stands n i S (st_db st)"
  shows "stands n i S (st_db st')"
proof -
  note inv = reachable_store_inv [OF assms(2)]
  have "spec_step\<^sup>*\<^sup>* (abs_store (st_db st)) (abs_store (st_db st'))"
    using step_store_ok [OF assms(1)] inv by (simp add: store_ok_def)
  moreover have "stands_spec n i S (abs_store (st_db st))"
    using assms(4) inv reachable_inv
    by (fastforce simp: stands_spec_def stands_def abs_store_def session_at_def store_inv_def)
  ultimately have "stands_spec n i S (abs_store (st_db st'))"
    by (induction rule: rtranclp_induct) (auto intro: spec_step_stands [OF _ assms(3)])
  then show ?thesis by (auto simp: stands_spec_def stands_def abs_store_def)
qed

lemma steps_stand:
  assumes "store_step\<^sup>*\<^sup>* st st'" "reachable_store st" "lasting S" "stands n i S (st_db st)"
  shows "stands n i S (st_db st') \<and> reachable_store st'"
  using assms by (induction rule: rtranclp_induct) (auto intro: step_stands Next_store)

lemma stands_mono: "stands n i S db \<Longrightarrow> (\<And>d. S d \<Longrightarrow> T d) \<Longrightarrow> stands n i T db"
  by (auto simp: stands_def)

text \<open>Three facts that last.\<close>

abbreviation attempted :: "delivery \<Rightarrow> bool" where "attempted d \<equiv> 0 < attempts d"
abbreviation recorded :: "delivery \<Rightarrow> bool" where "recorded d \<equiv> dl_status d \<in> {Receipt_recorded, Delivered}"
abbreviation delivered :: "delivery \<Rightarrow> bool" where "delivered d \<equiv> dl_status d = Delivered"

lemma lasting_facts: "lasting attempted" "lasting recorded" "lasting delivered"
  by (auto simp: delivery_succeeds_def)

section \<open>What a turn reads and writes\<close>

definition row_now :: "namespace \<Rightarrow> id \<Rightarrow> delivery option \<Rightarrow> database \<Rightarrow> bool" where
  "row_now n i d db \<longleftrightarrow> n \<notin> set (db_tombstones db) \<and> (\<exists>w. session_at db n = Some w \<and> jm_get (ws_deliveries w) i = d)"

lemma row_now_stands: "row_now n i (Some d) db \<Longrightarrow> stands n i S db \<longleftrightarrow> S d"
  by (auto simp: row_now_def stands_def)

lemma no_row_stands: "row_now n i None db \<Longrightarrow> \<not> stands n i S db"
  by (auto simp: row_now_def stands_def)

lemma store_delivery_row:
  assumes "store_delivery e bd n i st = Inr found" "reachable_store st"
  shows "row_now n i (map_option fst found) (st_db st)"
    "found = Some (d, ev) \<Longrightarrow> operationId d = i \<and> 0 \<le> attempts d"
proof -
  note inv = reachable_store_inv [OF assms(2)]
  have "\<exists>s. jm_get (db_sessions (st_db st)) n = Some s \<and> ss_namespace s = n \<and>
      jm_get (db_deliveries (st_db st)) (n, i) = map_option fst found \<and>
      (\<forall>d ev. found = Some (d, ev) \<longrightarrow> decode_row e (Row_delivery d) = None)"
    using assms(1) by (auto simp: store_delivery_def query_def read_session_def bounded_answer_def split: if_splits option.splits sum.splits)
  then obtain s where s: "jm_get (db_sessions (st_db st)) n = Some s" "ss_namespace s = n"
    and row: "jm_get (db_deliveries (st_db st)) (n, i) = map_option fst found"
    and decoded: "\<And>d ev. found = Some (d, ev) \<Longrightarrow> decode_row e (Row_delivery d) = None" by blast
  have at: "session_at (st_db st) n = Some (content (st_db st) n s)" "n \<notin> set (db_tombstones (st_db st))"
    "ws_inv (content (st_db st) n s)"
    using s inv reachable_inv by (auto simp: session_at_def store_inv_def)
  have get: "jm_get (ws_deliveries (content (st_db st) n s)) i = map_option fst found"
    using row by (simp add: content_def scoped_get)
  show "row_now n i (map_option fst found) (st_db st)" using at get by (simp add: row_now_def)
  assume found: "found = Some (d, ev)"
  have "operationId d = i" using at(3) get found by (auto simp: ws_inv_def ws_keyed_def dest: keyed_get)
  moreover have "0 \<le> attempts d"
    using decoded [OF found] by (auto simp: decode_row_def valid_None schema_delivery_def isCounter_def split: option.splits if_splits)
  ultimately show "operationId d = i \<and> 0 \<le> attempts d" ..
qed

lemma value_of_Inr [simp]: "value_of r = Inr v \<longleftrightarrow> r = Inr v"
  by (cases r) (simp_all add: value_of_def)

lemma current_delivery_row:
  assumes "current_delivery e bd n i st = Inr found" "reachable_store st"
  shows "row_now n i found (st_db st)" "found = Some d \<Longrightarrow> operationId d = i \<and> 0 \<le> attempts d"
  using assms(1) store_delivery_row [OF _ assms(2), of e bd n i] by (auto simp: current_delivery_def)

lemma store_session_namespace: "store_session e bd n st = Inr s \<Longrightarrow> ss_namespace s = n"
  by (auto simp: store_session_def query_def read_session_def bounded_answer_def split: if_splits option.splits sum.splits)

lemma commit_outbox_run:
  assumes "commit_outbox e bd t s d evs st = (r, st')"
  shows "store_step\<^sup>*\<^sup>* st st'" "reachable_store st \<Longrightarrow> r = Inr u \<Longrightarrow> row_now (ss_namespace s) (operationId d) (Some d) (st_db st')"
proof -
  show "store_step\<^sup>*\<^sup>* st st'"
    using assms by (auto simp: commit_outbox_def intro: Store_write [OF Store_commit] split: sum.splits prod.splits if_splits)
  assume reach: "reachable_store st" and "r = Inr u"
  then obtain g where run: "store_commit e bd (delivery_batch (ss_namespace s) (tn_now t) s g d evs) st = (Inr (), st')"
    using assms by (auto simp: commit_outbox_def split: sum.splits prod.splits if_splits)
  let ?b = "delivery_batch (ss_namespace s) (tn_now t) s g d evs"
  from run obtain before after where load: "load_state e (st_db st) (ss_namespace s) = Inr before"
    and commit: "commitSession e defaultLimits before ?b = Inr after" and save: "save bd before after (st_db st) = Inr (st_db st')"
    unfolding store_commit_def by (cases rule: transact_cases) (auto simp: delivery_batch_def split: if_splits)
  have "after = applied before ?b" using commit reduceCommit_applied by (auto simp: commitSession_def)
  then have row: "jm_get (ws_deliveries after) (operationId d) = Some d"
    by (simp add: applied_def) (simp add: delivery_batch_def upsert_Cons)
  note at = save_session_at [OF reachable_store_inv [OF reach] load Commit [OF commit] save]
  have "ss_namespace s \<notin> set (db_tombstones (st_db st))"
    using at(1) reachable_store_inv [OF reach] by (auto simp: session_at_def store_inv_def)
  then show "row_now (ss_namespace s) (operationId d) (Some d) (st_db st')"
    using at(2,3) row by (simp add: row_now_def)
qed

lemma mark_attempt_run:
  assumes "mark_attempt e bd n i t st = (r, st')"
  shows "store_step\<^sup>*\<^sup>* st st'" "reachable_store st \<Longrightarrow> r = Inr u \<Longrightarrow> stands n i attempted (st_db st')"
proof -
  show "store_step\<^sup>*\<^sup>* st st'"
    using assms commit_outbox_run(1) by (fastforce simp: mark_attempt_def split: sum.splits option.splits if_splits)
  assume reach: "reachable_store st" and "r = Inr u"
  with assms obtain d s where d: "current_delivery e bd n i st = Inr (Some d)" and s: "current_session e bd n st = Inr s"
    and run: "commit_outbox e bd t s (d\<lparr>dl_status := Delivery_reconciliation_required, attempts := attempts d + 1,
              nextAttemptAtMs := tn_now t + 1000\<rparr>) [] st = (Inr u, st')"
    by (auto simp: mark_attempt_def split: sum.splits option.splits if_splits)
  have "ss_namespace s = n" using s store_session_namespace by (simp add: current_session_def)
  then show "stands n i attempted (st_db st')"
    using commit_outbox_run(2) [OF run reach refl] current_delivery_row(2) [OF d reach refl] by (simp add: row_now_stands)
qed

lemma record_receipt_run:
  assumes "record_receipt e bd n i t req rc st = (r, st')"
  shows "store_step\<^sup>*\<^sup>* st st'" "reachable_store st \<Longrightarrow> r = Inr u \<Longrightarrow> stands n i recorded (st_db st')"
proof -
  show "store_step\<^sup>*\<^sup>* st st'"
    using assms commit_outbox_run(1) by (fastforce simp: record_receipt_def split: sum.splits option.splits if_splits)
  assume reach: "reachable_store st" and "r = Inr u"
  with assms obtain d where d: "current_delivery e bd n i st = Inr (Some d)"
    and rest: "recorded d \<and> st' = st \<or> (\<exists>s evs. current_session e bd n st = Inr s \<and>
      commit_outbox e bd t s (d\<lparr>dl_status := Receipt_recorded\<rparr>) evs st = (Inr u, st'))"
    by (auto simp: record_receipt_def split: sum.splits option.splits if_splits)
  note row = current_delivery_row [OF d reach]
  from rest show "stands n i recorded (st_db st')"
  proof (elim disjE exE conjE)
    fix s evs assume s: "current_session e bd n st = Inr s"
      and run: "commit_outbox e bd t s (d\<lparr>dl_status := Receipt_recorded\<rparr>) evs st = (Inr u, st')"
    have "ss_namespace s = n" using s store_session_namespace by (simp add: current_session_def)
    then show ?thesis using commit_outbox_run(2) [OF run reach refl] row(2) by (simp add: row_now_stands)
  qed (use row(1) row_now_stands in blast)
qed

lemma settle_delivery_run:
  assumes "settle_delivery e bd n i t st = (r, st')"
  shows "store_step\<^sup>*\<^sup>* st st'" "reachable_store st \<Longrightarrow> r = Inr u \<Longrightarrow> stands n i S (st_db st) \<Longrightarrow> stands n i delivered (st_db st')"
proof -
  show "store_step\<^sup>*\<^sup>* st st'"
    using assms commit_outbox_run(1) by (fastforce simp: settle_delivery_def split: sum.splits option.splits if_splits)
  assume reach: "reachable_store st" and "r = Inr u" and S: "stands n i S (st_db st)"
  with assms obtain found where found: "current_delivery e bd n i st = Inr found"
    and rest: "found = None \<or> (\<exists>d. found = Some d \<and> (delivered d \<and> st' = st \<or> (\<exists>s. current_session e bd n st = Inr s \<and>
      commit_outbox e bd t s (d\<lparr>dl_status := Delivered\<rparr>) [] st = (Inr u, st'))))"
    by (auto simp: settle_delivery_def split: sum.splits option.splits if_splits)
  note row = current_delivery_row [OF found reach]
  from rest show "stands n i delivered (st_db st')"
  proof (elim disjE exE conjE)
    assume "found = None"
    then show ?thesis using row(1) no_row_stands S by simp
  next
    fix d assume "found = Some d" "delivered d" "st' = st"
    then show ?thesis using row(1) by (simp add: row_now_stands)
  next
    fix d s assume d: "found = Some d" and s: "current_session e bd n st = Inr s"
      and run: "commit_outbox e bd t s (d\<lparr>dl_status := Delivered\<rparr>) [] st = (Inr u, st')"
    have "ss_namespace s = n" using s store_session_namespace by (simp add: current_session_def)
    then show ?thesis using commit_outbox_run(2) [OF run reach refl] row(2) d by (simp add: row_now_stands)
  qed
qed

lemma existing_row:
  assumes "existing_delivery e bd n c st = Inr found" "reachable_store st"
  shows "row_now n (pc_operation c) (map_option fst found) (st_db st)"
proof -
  obtain row where row: "store_delivery e bd n (pc_operation c) st = Inr row"
    and rest: "(case row of None \<Rightarrow> Inr None | Some (d, ev) \<Rightarrow> (case body ev of
         Delivery_requested i t name args \<Rightarrow> (case call_fingerprint (target d) name args of
             Inl x \<Rightarrow> Inl unconfirmed
           | Inr fp \<Rightarrow> if fp \<noteq> pc_fingerprint c then Inl (fail_with Content_conflict Never) else Inr (Some (d, ev)))
       | _ \<Rightarrow> Inl (fail_with Content_conflict Never))) = Inr found"
    using assms(1) unfolding existing_delivery_def and_then_Inr value_of_Inr by blast
  have "row = found"
  proof (cases row)
    case (Some dev)
    obtain d ev where dev: "dev = (d, ev)" by (cases dev)
    show ?thesis using rest by (cases "body ev") (simp_all add: Some dev split: sum.splits if_splits)
  qed (use rest in simp)
  then show ?thesis using store_delivery_row(1) [OF row assms(2)] by simp
qed

lemma file_delivery_run:
  assumes "file_delivery e bd n t c st = (r, st')"
  shows "store_step\<^sup>*\<^sup>* st st'"
    "reachable_store st \<Longrightarrow> r = Inr (d, ev) \<Longrightarrow> stands n (pc_operation c) attempted (st_db st) \<Longrightarrow> attempted d"
proof -
  show "store_step\<^sup>*\<^sup>* st st'"
    using assms commit_outbox_run(1)
    by (fastforce simp: file_delivery_def Let_def split: sum.splits option.splits prod.splits if_splits)
  assume reach: "reachable_store st" and "r = Inr (d, ev)" and S: "stands n (pc_operation c) attempted (st_db st)"
  with assms obtain found where found: "existing_delivery e bd n c st = Inr found" and "found = None \<or> found = Some (d, ev)"
    by (auto simp: file_delivery_def split: sum.splits option.splits if_splits)
  then show "attempted d" using existing_row [OF found reach] row_now_stands no_row_stands S by fastforce
qed

section \<open>The invariant\<close>

text \<open>Nothing has been sent since the receiver was last found not to have it.\<close>

definition cleared :: "event \<Rightarrow> router_call list \<Rightarrow> bool" where
  "cleared ev cs \<longleftrightarrow> (\<forall>a ev' b. cs = a @ Send_call ev' # b \<longrightarrow> Reconcile_call ev Not_submitted \<in> set b)"

definition resends_reconciled :: "router_call list \<Rightarrow> bool" where
  "resends_reconciled cs \<longleftrightarrow> (\<forall>a b c first again. cs = a @ Send_call first # b @ Send_call again # c \<longrightarrow>
     Reconcile_call again Not_submitted \<in> set b)"

definition sent :: "router_call list \<Rightarrow> bool" where
  "sent cs \<longleftrightarrow> (\<exists>ev. Send_call ev \<in> set cs)"

lemma unsent_cleared: "\<not> sent cs \<Longrightarrow> cleared ev cs"
  by (auto simp: sent_def cleared_def)

lemma cleared_reconciled: "cleared ev (cs @ [Reconcile_call ev Not_submitted])"
  unfolding cleared_def
proof (intro allI impI)
  fix a ev' b assume "cs @ [Reconcile_call ev Not_submitted] = a @ Send_call ev' # b"
  then show "Reconcile_call ev Not_submitted \<in> set b" by (cases b rule: rev_cases) auto
qed

lemma resend_cleared:
  assumes "resends_reconciled cs" "cleared ev cs"
  shows "resends_reconciled (cs @ [Send_call ev])"
  unfolding resends_reconciled_def
proof (intro allI impI)
  fix a b c first again assume eq: "cs @ [Send_call ev] = a @ Send_call first # b @ Send_call again # c"
  show "Reconcile_call again Not_submitted \<in> set b"
  proof (cases c rule: rev_cases)
    case Nil
    then have "cs = a @ Send_call first # b" "again = ev" using eq by auto
    then show ?thesis using assms(2) by (simp add: cleared_def)
  next
    case (snoc c' x)
    then have "cs = a @ Send_call first # b @ Send_call again # c'" using eq by auto
    then show ?thesis using assms(1) unfolding resends_reconciled_def by blast
  qed
qed

lemma no_resend:
  assumes "resends_reconciled cs" "\<not> (\<exists>ev. x = Send_call ev)"
  shows "resends_reconciled (cs @ [x])"
  unfolding resends_reconciled_def
proof (intro allI impI)
  fix a b c first again assume eq: "cs @ [x] = a @ Send_call first # b @ Send_call again # c"
  then obtain c' where "c = c' @ [x]" using assms(2) by (cases c rule: rev_cases) auto
  then have "cs = a @ Send_call first # b @ Send_call again # c'" using eq by simp
  then show "Reconcile_call again Not_submitted \<in> set b" using assms(1) unfolding resends_reconciled_def by blast
qed

text \<open>What holds of the calls made so far, and of the flight in each of its phases.\<close>

definition calls_ok :: "namespace \<Rightarrow> id \<Rightarrow> database \<Rightarrow> router_call list \<Rightarrow> bool" where
  "calls_ok n i db cs \<longleftrightarrow> resends_reconciled cs \<and> (sent cs \<longrightarrow> stands n i attempted db) \<and>
     (\<forall>ev r. Acknowledge_call ev r \<in> set cs \<longrightarrow> stands n i recorded db)"

fun phase_ok :: "namespace \<Rightarrow> id \<Rightarrow> database \<Rightarrow> router_call list \<Rightarrow> phase \<Rightarrow> bool" where
  "phase_ok n i db cs (Looking_up c) \<longleftrightarrow> pc_operation c = i"
| "phase_ok n i db cs (Checking_live c) \<longleftrightarrow> pc_operation c = i"
| "phase_ok n i db cs (Authorizing c) \<longleftrightarrow> pc_operation c = i"
| "phase_ok n i db cs (Filing c) \<longleftrightarrow> pc_operation c = i"
| "phase_ok n i db cs (Attempting d ev) \<longleftrightarrow> attempted d \<or> \<not> sent cs"
| "phase_ok n i db cs (Reconciling d ev) \<longleftrightarrow> True"
| "phase_ok n i db cs (Marking ev) \<longleftrightarrow> cleared ev cs"
| "phase_ok n i db cs (Sending ev) \<longleftrightarrow> cleared ev cs \<and> stands n i attempted db"
| "phase_ok n i db cs (Awaiting_receipt ev) \<longleftrightarrow> Send_call ev \<in> set cs"
| "phase_ok n i db cs (Recording ev r) \<longleftrightarrow> Send_call ev \<in> set cs \<or> Reconcile_call ev (Was_committed r) \<in> set cs"
| "phase_ok n i db cs (Acknowledging ev r) \<longleftrightarrow> stands n i recorded db"
| "phase_ok n i db cs (Awaiting_acknowledgement ev r) \<longleftrightarrow> Acknowledge_call ev r \<in> set cs"
| "phase_ok n i db cs (Settling r) \<longleftrightarrow> (\<exists>ev. Acknowledge_call ev r \<in> set cs)"
| "phase_ok n i db cs (Landed a) \<longleftrightarrow> (\<forall>reply. a = Inr reply \<longrightarrow> reply = rejected_reply \<or>
     (\<exists>ev r. Acknowledge_call ev r \<in> set cs \<and> reply = dr_reply r \<and> stands n i delivered db))"

text \<open>Changes of the store keep all of it.\<close>

lemma facts_last:
  assumes "store_step\<^sup>*\<^sup>* st st'" "reachable_store st"
  shows "stands n i attempted (st_db st) \<Longrightarrow> stands n i attempted (st_db st')"
    "stands n i recorded (st_db st) \<Longrightarrow> stands n i recorded (st_db st')"
    "stands n i delivered (st_db st) \<Longrightarrow> stands n i delivered (st_db st')"
  by (rule steps_stand [OF assms, THEN conjunct1], rule lasting_facts, assumption)+

lemma calls_ok_steps:
  assumes "store_step\<^sup>*\<^sup>* st st'" "reachable_store st" "calls_ok n i (st_db st) cs"
  shows "calls_ok n i (st_db st') cs"
  using assms(3) facts_last(1,2) [OF assms(1,2), of n i] by (simp add: calls_ok_def)

lemma phase_ok_steps:
  assumes "store_step\<^sup>*\<^sup>* st st'" "reachable_store st" "phase_ok n i (st_db st) cs p"
  shows "phase_ok n i (st_db st') cs p"
proof (cases p)
  case (Landed a)
  then show ?thesis using assms(3) facts_last(3) [OF assms(1,2), of n i] by auto
qed (use assms(3) facts_last(1,2) [OF assms(1,2), of n i] in simp_all)

lemma attempting_ok:
  assumes "row_now n i (Some d) (st_db st)" "calls_ok n i (st_db st) cs"
  shows "phase_ok n i (st_db st) cs (Attempting d ev)"
  using assms row_now_stands by (auto simp: calls_ok_def)

lemma recover_row_ok:
  assumes "recover_row e bd n i t st = Inr p" "reachable_store st" "calls_ok n i (st_db st) cs"
  shows "phase_ok n i (st_db st) cs p"
proof -
  obtain found where found: "store_delivery e bd n i st = Inr found"
    using assms(1) by (cases "store_delivery e bd n i st") (simp_all add: recover_row_def)
  obtain d ev where row: "found = Some (d, ev)" using assms(1) found by (cases found) (auto simp: recover_row_def)
  then have "p = Attempting d ev \<or> p = Landed (Inl unconfirmed)"
    using assms(1) found by (cases "body ev") (simp_all add: recover_row_def split: sum.splits if_splits)
  then show ?thesis using attempting_ok [OF _ assms(3)] store_delivery_row(1) [OF found assms(2)] row by auto
qed

lemma receive_ok:
  assumes "Send_call ev \<in> set cs \<or> Reconcile_call ev (Was_committed r) \<in> set cs"
  shows "phase_ok n i db cs (receive_receipt ev r)"
  using assms by (simp add: receive_receipt_def split: sum.splits)

lemma on_answer_ok:
  assumes "\<And>v. a = Some (Inr v) \<Longrightarrow> phase_ok n i db cs (k v)"
  shows "phase_ok n i db cs (on_answer a k)"
  using assms by (auto simp: on_answer_def split: option.splits sum.splits)

lemma quiet_call:
  assumes "calls_ok n i db cs" "\<not> (\<exists>ev. x = Send_call ev)" "\<And>ev r. x = Acknowledge_call ev r \<Longrightarrow> stands n i recorded db"
  shows "calls_ok n i db (cs @ [x])"
  using assms no_resend by (auto simp: calls_ok_def sent_def)

text \<open>A turn of the mailbox that makes no call.\<close>

lemma on_turn_ok:
  assumes turn: "on_turn (r, st1) k = (p', st', new)" and run: "store_step\<^sup>*\<^sup>* st st1" and reach: "reachable_store st"
    and calls: "calls_ok n i (st_db st) cs" and ok: "\<And>v. r = Inr v \<Longrightarrow> phase_ok n i (st_db st1) cs (k v)"
  shows "store_step\<^sup>*\<^sup>* st st' \<and> calls_ok n i (st_db st') (cs @ new) \<and> phase_ok n i (st_db st') (cs @ new) p'"
  using turn run calls_ok_steps [OF run reach calls] ok by (auto simp: on_turn_def split: sum.splits)

lemma flight_keeps:
  assumes step: "flight_step e bd n i t p st = (p', st', new)" and reach: "reachable_store st"
    and calls: "calls_ok n i (st_db st) cs" and ok: "phase_ok n i (st_db st) cs p"
  shows "store_step\<^sup>*\<^sup>* st st' \<and> calls_ok n i (st_db st') (cs @ new) \<and> phase_ok n i (st_db st') (cs @ new) p'"
proof (cases p)
  case (Looking_up c)
  then show ?thesis using step calls ok existing_row [OF _ reach, of e bd n c] attempting_ok [OF _ calls]
    by (fastforce simp: look_up_def split: sum.splits option.splits)
next
  case (Checking_live c)
  then show ?thesis using step calls ok by (auto split: sum.splits if_splits)
next
  case (Authorizing c)
  then show ?thesis using step calls ok by (auto simp: on_answer_def authorized_def split: option.splits sum.splits verdict.splits)
next
  case (Filing c)
  obtain r st1 where run: "file_delivery e bd n t c st = (r, st1)" by (metis surj_pair)
  note filed = file_delivery_run [OF run]
  have "phase_ok n i (st_db st1) cs (Attempting d ev)" if "r = Inr (d, ev)" for d ev
    using filed(2) [OF reach that] calls ok by (auto simp: Filing calls_ok_def)
  then show ?thesis using on_turn_ok [OF step [unfolded Filing, simplified, unfolded run] filed(1) reach calls] by auto
next
  case (Attempting d ev)
  then show ?thesis using step calls ok unsent_cleared by auto
next
  case (Reconciling d ev)
  have same: "st' = st" "new = (case tn_reconciled t of Some (Inr v) \<Rightarrow> [Reconcile_call ev v] | _ \<Rightarrow> [])"
    using step by (auto simp: Reconciling)
  have "calls_ok n i (st_db st) (cs @ new)"
    using calls quiet_call [OF calls] by (auto simp: same(2) split: option.splits sum.splits)
  moreover have "phase_ok n i (st_db st) (cs @ new) p'"
    using step receive_ok [of ev "cs @ new"] cleared_reconciled [of ev cs]
    by (auto simp: Reconciling on_answer_def split: option.splits sum.splits receiver_state.splits)
  ultimately show ?thesis by (simp add: same(1))
next
  case (Marking ev)
  obtain r st1 where run: "mark_attempt e bd n i t st = (r, st1)" by (metis surj_pair)
  note mark = mark_attempt_run [OF run]
  have "phase_ok n i (st_db st1) cs (if tn_aborted t then Landed (Inl unconfirmed) else Sending ev)" if "r = Inr u" for u
    using mark(2) [OF reach that] ok by (simp add: Marking)
  then show ?thesis using on_turn_ok [OF step [unfolded Marking, simplified, unfolded run] mark(1) reach calls] by auto
next
  case (Sending ev)
  have "calls_ok n i (st_db st) (cs @ [Send_call ev])"
    using calls ok resend_cleared by (auto simp: Sending calls_ok_def)
  then show ?thesis using step by (auto simp: Sending)
next
  case (Awaiting_receipt ev)
  then show ?thesis using step calls ok receive_ok by (auto intro!: on_answer_ok)
next
  case (Recording ev rc)
  obtain r st1 where run: "record_receipt e bd n i t ev rc st = (r, st1)" by (metis surj_pair)
  note rec = record_receipt_run [OF run]
  have "phase_ok n i (st_db st1) cs (Acknowledging ev rc)" if "r = Inr u" for u
    using rec(2) [OF reach that] by simp
  then show ?thesis using on_turn_ok [OF step [unfolded Recording, simplified, unfolded run] rec(1) reach calls] by auto
next
  case (Acknowledging ev rc)
  then show ?thesis using step quiet_call [OF calls, of "Acknowledge_call ev rc"] ok by auto
next
  case (Awaiting_acknowledgement ev rc)
  then show ?thesis using step calls ok by (auto intro!: on_answer_ok)
next
  case (Settling rc)
  obtain r st1 where run: "settle_delivery e bd n i t st = (r, st1)" by (metis surj_pair)
  note settle = settle_delivery_run [OF run]
  obtain ev where ev: "Acknowledge_call ev rc \<in> set cs" using ok by (auto simp: Settling)
  then have "stands n i recorded (st_db st)" using calls by (auto simp: calls_ok_def)
  from settle(2) [OF reach _ this] have "phase_ok n i (st_db st1) cs (Landed (Inr (dr_reply rc)))" if "r = Inr u" for u
    using that ev by auto
  then show ?thesis using on_turn_ok [OF step [unfolded Settling, simplified, unfolded run] settle(1) reach calls] by auto
next
  case (Landed a)
  then show ?thesis using step calls ok by auto
qed

definition outbox_ok :: "namespace \<Rightarrow> id \<Rightarrow> outbox \<Rightarrow> bool" where
  "outbox_ok n i ob \<longleftrightarrow> reachable_store (ob_store ob) \<and> calls_ok n i (st_db (ob_store ob)) (ob_calls ob) \<and>
     (\<forall>p. ob_flight ob = Some p \<longrightarrow> phase_ok n i (st_db (ob_store ob)) (ob_calls ob) p)"

lemma outbox_step_ok: "outbox_step n i ob ob' \<Longrightarrow> outbox_ok n i ob \<Longrightarrow> outbox_ok n i ob'"
proof (induction rule: outbox_step.induct)
  case (World ob st')
  then have "store_step\<^sup>*\<^sup>* (ob_store ob) st'" "reachable_store (ob_store ob)" by (auto simp: outbox_ok_def)
  then show ?case
    using World Next_store calls_ok_steps phase_ok_steps by (simp add: outbox_ok_def)
next
  case (Sweep ob e bd t p)
  then show ?case using recover_row_ok by (simp add: outbox_ok_def)
next
  case (Fly ob p e bd t p' st' calls)
  have "reachable_store (ob_store ob)" "calls_ok n i (st_db (ob_store ob)) (ob_calls ob)"
    "phase_ok n i (st_db (ob_store ob)) (ob_calls ob) p" using Fly by (simp_all add: outbox_ok_def)
  from flight_keeps [OF Fly(2) this] reachable_store_rtrancl [OF this(1)] show ?case by (simp add: outbox_ok_def)
next
  case (Crash e bd ob st')
  have step: "store_step (ob_store ob) st'" by (rule Store_restart [OF Crash(1)])
  then have "store_step\<^sup>*\<^sup>* (ob_store ob) st'" by (rule r_into_rtranclp)
  then show ?case
    using Crash(2) step calls_ok_steps by (auto simp: outbox_ok_def intro: Next_store)
qed (auto simp: outbox_ok_def propose_phase_def)

lemma reachable_outbox_ok: "reachable_outbox n i ob \<Longrightarrow> outbox_ok n i ob"
proof (induction rule: reachable_outbox.induct)
  case Fresh_outbox
  then show ?case by (simp add: outbox_ok_def calls_ok_def resends_reconciled_def sent_def Fresh_store)
qed (rule outbox_step_ok)

end
