(* ===== verification/Delivery_Demo.thy ===== *)
theory Delivery_Demo
  imports Delivery_Facts Store_Demo
begin

text \<open>
  The demonstration session calls a tool: the call is filed, marked and sent, the answer is lost, a
  sweep asks the receiver, which never had it, and it is sent again.
\<close>

section \<open>The rows\<close>

definition demo_call :: proposed_call where
  "demo_call = \<lparr>pc_generation = ''g1'', pc_command = ''p1'', pc_operation = ''c1'', pc_target = ''r1'', pc_asks = False,
     pc_name = ''n1'', pc_arguments = JObj [],
     pc_fingerprint = json_print (obj [(''target'', jid ''r1''), (''proposal'', proposal_json ''n1'' (JObj []))])\<rparr>"

definition demo_request :: event where
  "demo_request = demo_event ''e4'' 4 None (Delivery_requested ''c1'' ''r1'' ''n1'' (JObj []))"

definition demo_row :: "nat \<Rightarrow> delivery" where
  "demo_row k = \<lparr>dl_namespace = demo_ns, operationId = ''c1'', dl_eventId = ''e4'', target = ''r1'',
     dl_contentHash = replicate 64 (CHR ''a''), dl_retry = Retry_reconcile_first,
     dl_status = (if k = 0 then Delivery_pending else Delivery_reconciliation_required), attempts = int k,
     nextAttemptAtMs = (if k = 0 then 5 else 1005)\<rparr>"

lemma demo_request_valid: "valid demo_digest defaultLimits (Row_event demo_request) = None"
  by (intro row_validI; simp add: demo_request_def demo_defs row_eval is_safe_integer_def max_safe_def json_int_def decimal.simps
      byteLength_Cons utf8_char_def schema_eval)

lemma demo_row_valid: "k \<le> 2 \<Longrightarrow> valid demo_digest defaultLimits (Row_delivery (demo_row k)) = None"
  by (intro row_validI; auto simp: demo_row_def demo_defs row_eval json_of_delivery_def schema_delivery_def is_safe_integer_def
      max_safe_def json_int_def decimal.simps byteLength_Cons utf8_char_def schema_eval)

lemma demo_fingerprint: "deliveryFingerprint demo_digest defaultLimits demo_request ''r1'' = Inr (replicate 64 (CHR ''a''))"
proof -
  have "fits defaultLimits (obj [(''event'', json_of_event demo_request), (''target'', jid ''r1'')])"
    by (rule fits_by_size; simp add: demo_request_def demo_defs row_eval is_safe_integer_def max_safe_def json_int_def decimal.simps
      byteLength_Cons utf8_char_def)
  then show ?thesis using demo_request_valid by (simp add: deliveryFingerprint_def Let_def boundedJson_Inr [THEN iffD2] demo_digest_def obj_def)
qed

lemma demo_call_fingerprint: "call_fingerprint ''r1'' ''n1'' (JObj []) = Inr (pc_fingerprint demo_call)"
proof -
  have "fits defaultLimits (obj [(''target'', jid ''r1''), (''proposal'', proposal_json ''n1'' (JObj []))])"
    by (rule fits_by_size; simp add: proposal_json_def row_eval byteLength_Cons utf8_char_def)
  then show ?thesis by (simp add: call_fingerprint_def boundedJson_Inr demo_call_def)
qed

section \<open>The stores it passes through\<close>

definition demo_db_out :: "counter \<Rightarrow> nat \<Rightarrow> database" where
  "demo_db_out r k = demo_db_dispatching\<lparr>db_sessions := [(demo_ns, demo_session r 4)],
     db_events := db_events demo_db_dispatching @ [((demo_ns, ''e4''), demo_request)],
     db_deliveries := [((demo_ns, ''c1''), demo_row k)]\<rparr>"

definition demo_out :: "counter \<Rightarrow> nat \<Rightarrow> workspace" where
  "demo_out r k = demo_dispatching\<lparr>ws_session := demo_session r 4, ws_events := ws_events demo_dispatching @ [demo_request],
     ws_deliveries := [(''c1'', demo_row k)]\<rparr>"

lemma demo_out_content: "content (demo_db_out r k) demo_ns (demo_session r 4) = demo_out r k"
  by (simp add: content_def demo_db_out_def demo_out_def demo_db_dispatching_def empty_database_def scoped_generations_def
      scoped_Cons demo_dispatching_simp jm_values_def demo_event_sel demo_request_def)

lemma demo_out_load: "0 \<le> r \<Longrightarrow> r \<le> 9 \<Longrightarrow> load_state demo_env (demo_db_out r k) demo_ns = Inr (demo_out r k)"
  unfolding demo_out_content [symmetric]
  by (rule load_stateI [where g = "''g1''"];
      simp add: demo_decode demo_generation demo_db_out_def demo_db_dispatching_def jm_get_def scoped_generations_def)

section \<open>The commits\<close>

definition demo_filing :: commit_batch where
  "demo_filing = delivery_batch demo_ns 5 (demo_session 2 3) ''g1'' (demo_row 0) [demo_request]"

definition demo_marking :: "nat \<Rightarrow> commit_batch" where
  "demo_marking k = delivery_batch demo_ns 5 (demo_session (3 + int k) 4) ''g1'' (demo_row (Suc k)) []"

lemma demo_advance: "(demo_session r n)\<lparr>revision := r', lastSequence := n'\<rparr> = demo_session r' n'"
  by (simp add: demo_session_def)

lemma demo_request_sel: "eventId demo_request = ''e4''" "sequence demo_request = 4" "ev_commandId demo_request = Some ''p1''"
  "ev_attemptId demo_request = None" "ev_generation demo_request = ''g1''" "ev_namespace demo_request = demo_ns"
  "body demo_request = Delivery_requested ''c1'' ''r1'' ''n1'' (JObj [])"
  by (simp_all add: demo_request_def demo_event_def)

lemma demo_row_sel: "operationId (demo_row k) = ''c1''" "dl_eventId (demo_row k) = ''e4''" "target (demo_row k) = ''r1''"
  "dl_namespace (demo_row k) = demo_ns" "dl_contentHash (demo_row k) = replicate 64 (CHR ''a'')" "attempts (demo_row k) = int k"
  "dl_retry (demo_row k) = Retry_reconcile_first"
  "dl_status (demo_row k) = (if k = 0 then Delivery_pending else Delivery_reconciliation_required)"
  by (simp_all add: demo_row_def)

lemma demo_filing_sel: "cb_providerFacts demo_filing = []" "cb_namespace demo_filing = demo_ns" "cb_expectedRevision demo_filing = 2"
  "cb_expectedGeneration demo_filing = ''g1''" "cb_session demo_filing = demo_session 3 4" "cb_commands demo_filing = []"
  "cb_events demo_filing = [demo_request]" "cb_interactions demo_filing = []" "cb_deliveries demo_filing = [demo_row 0]"
  "cb_surfaces demo_filing = []"
  by (simp_all add: demo_filing_def delivery_batch_def demo_advance)

lemma demo_marking_sel: "cb_providerFacts (demo_marking k) = []" "cb_namespace (demo_marking k) = demo_ns"
  "cb_expectedRevision (demo_marking k) = 3 + int k"
  "cb_expectedGeneration (demo_marking k) = ''g1''" "cb_session (demo_marking k) = demo_session (4 + int k) 4"
  "cb_commands (demo_marking k) = []"
  "cb_events (demo_marking k) = []" "cb_interactions (demo_marking k) = []" "cb_deliveries (demo_marking k) = [demo_row (Suc k)]"
  "cb_surfaces (demo_marking k) = []"
  by (simp_all add: demo_marking_def delivery_batch_def demo_advance)

lemmas delivery_eval = delivery_requested_check_def batch_delivery_def commit_delivery_def delivery_checks_def delivery_regresses_def
  find_event_def

lemma demo_filing_body: "commit_body demo_env defaultLimits demo_dispatching demo_filing False demo_stage [] = Inr (demo_out 3 0)"
  by (simp add: demo_filing_sel demo_request_sel demo_row_sel demo_fingerprint demo_out_def delivery_eval demo_eval)

lemma demo_filing_run: "reduceCommit demo_env defaultLimits demo_dispatching demo_filing False False = Inr (demo_out 3 0)"
proof (rule reduceCommitI [OF _ _ _ _ _ _ _ _ _ _ _ _ _ _ demo_filing_body])
  show "rows_check demo_env defaultLimits demo_filing = None"
    using demo_session_valid [of 3 4] demo_request_valid demo_row_valid [of 0]
    by (simp add: rows_check_def batch_rows_def demo_filing_sel)
qed (simp_all add: demo_filing_sel demo_dispatching_simp demo_active stage_check_def collect_facts_def,
     simp_all add: demo_eval)

lemma demo_out_sel: "ws_session (demo_out r k) = demo_session r 4" "ws_deliveries (demo_out r k) = [(''c1'', demo_row k)]"
  "ws_events (demo_out r k) = ws_events demo_dispatching @ [demo_request]" "ws_commands (demo_out r k) = ws_commands demo_dispatching"
  "ws_interactions (demo_out r k) = []" "ws_surfaces (demo_out r k) = []" "ws_generations (demo_out r k) = [''g1'']"
  by (simp_all add: demo_out_def demo_dispatching_simp)

lemma demo_marking_body: "k \<le> 1 \<Longrightarrow>
    commit_body demo_env defaultLimits (demo_out (3 + int k) k) (demo_marking k) False demo_stage [] = Inr (demo_out (4 + int k) (Suc k))"
  by (simp add: demo_marking_sel demo_request_sel demo_row_sel demo_fingerprint demo_out_def delivery_eval demo_eval)

lemma demo_marking_run: "k \<le> 1 \<Longrightarrow>
    reduceCommit demo_env defaultLimits (demo_out (3 + int k) k) (demo_marking k) False False = Inr (demo_out (4 + int k) (Suc k))"
proof (rule reduceCommitI [OF _ _ _ _ _ _ _ _ _ _ _ _ _ _ demo_marking_body])
  assume k: "k \<le> 1"
  show "rows_check demo_env defaultLimits (demo_marking k) = None"
    using demo_session_valid [of "4 + int k" 4] demo_row_valid [of "Suc k"] k
    by (simp add: rows_check_def batch_rows_def demo_marking_sel)
qed (simp_all add: demo_marking_sel demo_out_sel demo_active stage_check_def collect_facts_def,
     simp_all add: demo_eval)

section \<open>Saved and committed\<close>

lemma demo_columns: "generation_column (demo_session r n) = Some ''g1''" "expected_generation (demo_session r n) = Inr (Some ''g1'')"
  by (simp_all add: generation_column_def expected_generation_def demo_active)
     (simp_all add: demo_session_def providerStage_def)

lemma demo_command_id: "record_id (demo_record s) = ''p1''"
  by (simp add: demo_record_def demo_prompt_def)

lemma demo_dispatching_tables: "scoped demo_ns (db_commands demo_db_dispatching) = [(''p1'', demo_record (Dispatching (demo_attempt Intent)))]"
    "scoped demo_ns (db_events demo_db_dispatching) = [(''e1'', demo_event ''e1'' 1 None (Command_accepted demo_prompt)),
       (''e2'', demo_event ''e2'' 2 (Some ''x1'') (Dispatch_reported (demo_attempt Intent))),
       (''e3'', demo_event ''e3'' 3 (Some ''x1'') (Status_changed Live_dispatching))]"
    "scoped demo_ns (db_interactions demo_db_dispatching) = []" "scoped demo_ns (db_surfaces demo_db_dispatching) = []"
    "scoped demo_ns (db_deliveries demo_db_dispatching) = []" "scoped_generations demo_ns demo_db_dispatching = [''g1'']"
  by (simp_all add: demo_db_dispatching_def empty_database_def scoped_generations_def scoped_Cons)

lemma demo_sizes:
  "0 \<le> r \<Longrightarrow> r \<le> 9 \<Longrightarrow> row_bytes (Row_session (demo_session r 4)) \<le> 262144"
  "row_bytes (Row_event demo_request) \<le> 262144" "0 \<le> row_bytes (Row_event demo_request)"
  "k \<le> 2 \<Longrightarrow> row_bytes (Row_delivery (demo_row k)) \<le> 262144" "k \<le> 2 \<Longrightarrow> 0 \<le> row_bytes (Row_delivery (demo_row k))"
  "row_bytes (Row_record (demo_record (Dispatching (demo_attempt Intent)))) \<le> 262144"
  using demo_session_valid [of r 4, THEN row_size(3)] demo_request_valid [THEN row_size(2)] demo_request_valid [THEN row_size(3)]
    demo_row_valid [THEN row_size(2)] demo_row_valid [THEN row_size(3)]
    demo_record_valid [of "Dispatching (demo_attempt Intent)", THEN row_size(3)] by simp_all

lemmas demo_out_serialised = demo_serialised demo_request_valid [THEN row_size(1)] demo_row_valid [THEN row_size(1)]

lemma demo_save_filing: "save demo_bounds demo_dispatching (demo_out 3 0) demo_db_dispatching = Inr (demo_db_out 3 0)"
proof -
  have delta: "new_generations demo_dispatching (demo_out 3 0) = []" "new_events demo_dispatching (demo_out 3 0) = [demo_request]"
    "changed (ws_commands demo_dispatching) (ws_commands (demo_out 3 0)) = []"
    "changed (ws_interactions demo_dispatching) (ws_interactions (demo_out 3 0)) = []"
    "changed (ws_surfaces demo_dispatching) (ws_surfaces (demo_out 3 0)) = []"
    "changed (ws_deliveries demo_dispatching) (ws_deliveries (demo_out 3 0)) = [demo_row 0]"
    by (simp_all add: new_generations_def new_events_def changed_def demo_out_sel demo_dispatching_simp jm_get_def)
  have rows: "ws_session demo_dispatching = demo_session 2 3" by (simp add: demo_dispatching_simp)
  have "size_check demo_bounds demo_db_dispatching demo_ns demo_dispatching (demo_out 3 0) = None"
    using demo_sizes(1) [of 3] demo_sizes(2,6) demo_sizes(4) [of 0] demo_event_valid [THEN row_size(3)]
    by (simp add: size_check_def delta rows demo_out_sel(1) totals_def demo_dispatching_tables table_size_def id_bytes_def grow_def Let_def jm_get_def
        demo_out_serialised demo_row_sel demo_request_sel demo_event_sel demo_command_id)
  then show ?thesis
    by (simp add: save_def Let_def rows demo_out_sel(1) delta put_command_def put_event_def put_session_def put_delivery_def demo_columns demo_row_sel demo_request_sel)
       (simp add: demo_db_dispatching_def demo_db_out_def empty_database_def jm_set_def jm_get_def jm_has_def
          jm_values_def scoped_generations_def scoped_Cons demo_event_sel demo_columns)
qed

lemma demo_out_tables: "scoped demo_ns (db_commands (demo_db_out r k)) = scoped demo_ns (db_commands demo_db_dispatching)"
    "scoped demo_ns (db_events (demo_db_out r k)) = scoped demo_ns (db_events demo_db_dispatching) @ [(''e4'', demo_request)]"
    "scoped demo_ns (db_interactions (demo_db_out r k)) = []" "scoped demo_ns (db_surfaces (demo_db_out r k)) = []"
    "scoped demo_ns (db_deliveries (demo_db_out r k)) = [(''c1'', demo_row k)]"
    "scoped_generations demo_ns (demo_db_out r k) = [''g1'']"
  by (simp_all add: demo_db_out_def demo_db_dispatching_def empty_database_def scoped_generations_def scoped_Cons)

lemma demo_save_marking:
  assumes "k \<le> 1"
  shows "save demo_bounds (demo_out (3 + int k) k) (demo_out (4 + int k) (Suc k)) (demo_db_out (3 + int k) k) = Inr (demo_db_out (4 + int k) (Suc k))"
proof -
  let ?w = "demo_out (3 + int k) k" and ?w' = "demo_out (4 + int k) (Suc k)"
  have "demo_row k \<noteq> demo_row (Suc k)" by (simp add: demo_row_def)
  then have delta: "new_generations ?w ?w' = []" "new_events ?w ?w' = []"
    "changed (ws_commands ?w) (ws_commands ?w') = []" "changed (ws_interactions ?w) (ws_interactions ?w') = []"
    "changed (ws_surfaces ?w) (ws_surfaces ?w') = []" "changed (ws_deliveries ?w) (ws_deliveries ?w') = [demo_row (Suc k)]"
    by (simp_all add: new_generations_def new_events_def changed_def demo_out_sel demo_dispatching_simp jm_get_def)
  have "size_check demo_bounds (demo_db_out (3 + int k) k) demo_ns ?w ?w' = None"
    using assms demo_sizes(1) [of "4 + int k"] demo_sizes(2,6) demo_sizes(4) [of k] demo_sizes(5) [of k] demo_sizes(4) [of "Suc k"]
      demo_event_valid [THEN row_size(3)]
    by (simp add: size_check_def delta demo_out_sel(1) totals_def demo_out_tables demo_dispatching_tables table_size_def id_bytes_def grow_def Let_def jm_get_def
        demo_out_serialised demo_row_sel demo_request_sel demo_event_sel demo_command_id)
  then show ?thesis
    by (simp add: save_def Let_def demo_out_sel(1) delta put_command_def put_event_def put_session_def put_delivery_def demo_columns demo_row_sel demo_request_sel)
       (simp add: demo_db_dispatching_def demo_db_out_def empty_database_def jm_set_def jm_get_def jm_has_def
          jm_values_def scoped_generations_def scoped_Cons demo_event_sel demo_columns)
qed

lemma demo_filing_store: "store_commit demo_env demo_bounds demo_filing (demo_store demo_db_dispatching) = (Inr (), demo_store (demo_db_out 3 0))"
proof -
  have "batch_size demo_filing = 2" by (simp add: batch_size_def demo_filing_sel)
  moreover have "commitSession demo_env defaultLimits demo_dispatching demo_filing = Inr (demo_out 3 0)"
    by (simp add: commitSession_def demo_filing_run)
  moreover have "ws_session demo_dispatching = demo_session 2 3" by (simp add: demo_dispatching_simp)
  ultimately show ?thesis
    using demo_writable [of demo_db_dispatching 2 3]
    by (simp add: store_commit_def transact_def query_def demo_store_def demo_dispatching_load demo_filing_sel demo_save_filing)
qed

lemma demo_marking_store:
  assumes "k \<le> 1"
  shows "store_commit demo_env demo_bounds (demo_marking k) (demo_store (demo_db_out (3 + int k) k)) =
    (Inr (), demo_store (demo_db_out (4 + int k) (Suc k)))"
proof -
  have "batch_size (demo_marking k) = 1" by (simp add: batch_size_def demo_marking_sel)
  moreover have "commitSession demo_env defaultLimits (demo_out (3 + int k) k) (demo_marking k) = Inr (demo_out (4 + int k) (Suc k))"
    using demo_marking_run [OF assms] by (simp add: commitSession_def)
  ultimately show ?thesis
    using assms demo_writable [of "demo_db_out (3 + int k) k" "3 + int k" 4] demo_out_load [of "3 + int k" k]
    by (simp add: store_commit_def transact_def query_def demo_store_def demo_out_sel(1) demo_marking_sel demo_save_marking [OF assms])
qed

section \<open>What the host reads\<close>

lemma demo_answer: "fits defaultLimits j \<Longrightarrow> bounded_answer demo_bounds j v = Inr v"
  by (simp add: bounded_answer_def boundedJson_Inr [THEN iffD2] query_limits_def fits_def defaultLimits_def checkLimits_None max_safe_def)

lemma valid_fits: "valid dg lim row = None \<Longrightarrow> fits lim (json_of_row row)"
  by (simp add: valid_None)

lemma demo_stored_session:
  assumes "st_db st = db" "\<not> st_closing st" "\<not> st_closed st" "jm_get (db_sessions db) demo_ns = Some (demo_session r n)"
    "0 \<le> r" "r \<le> 9" "0 \<le> n" "n \<le> 9"
  shows "read_session demo_env db demo_ns = Inr (demo_session r n)" "store_session demo_env demo_bounds demo_ns st = Inr (demo_session r n)"
proof -
  show read: "read_session demo_env db demo_ns = Inr (demo_session r n)" using assms(4-8) by (simp add: read_session_def demo_decode)
  have "fits defaultLimits (json_of_session (demo_session r n))" using demo_session_valid [OF assms(5-8), THEN valid_fits] by simp
  then show "store_session demo_env demo_bounds demo_ns st = Inr (demo_session r n)"
    using assms(1-3) read by (simp add: store_session_def query_def demo_answer)
qed

lemma demo_store_open [simp]: "st_db (demo_store db) = db" "\<not> st_closing (demo_store db)" "\<not> st_closed (demo_store db)"
  by (simp_all add: demo_store_def)

lemma demo_sessions: "jm_get (db_sessions demo_db_dispatching) demo_ns = Some (demo_session 2 3)"
  "jm_get (db_sessions (demo_db_out r k)) demo_ns = Some (demo_session r 4)"
  by (simp_all add: demo_db_dispatching_def demo_db_out_def jm_get_def)

lemma demo_row_fits: "k \<le> 2 \<Longrightarrow> fits defaultLimits (obj [(''delivery'', json_of_delivery (demo_row k)), (''event'', json_of_event demo_request)])"
  by (rule fits_by_size; auto simp: demo_row_def demo_request_def demo_defs row_eval json_of_delivery_def is_safe_integer_def
      max_safe_def json_int_def decimal.simps byteLength_Cons utf8_char_def)

lemma demo_deliveries: "store_delivery demo_env demo_bounds demo_ns ''c1'' (demo_store demo_db_dispatching) = Inr None"
  "0 \<le> r \<Longrightarrow> r \<le> 9 \<Longrightarrow> k \<le> 2 \<Longrightarrow>
    store_delivery demo_env demo_bounds demo_ns ''c1'' (demo_store (demo_db_out r k)) = Inr (Some (demo_row k, demo_request))"
proof -
  show "store_delivery demo_env demo_bounds demo_ns ''c1'' (demo_store demo_db_dispatching) = Inr None"
    using demo_stored_session(1) [OF demo_store_open demo_sessions(1)]
    by (simp add: store_delivery_def query_def) (simp add: demo_db_dispatching_def empty_database_def jm_get_def)
  assume r: "0 \<le> r" "r \<le> 9" and k: "k \<le> 2"
  have rows: "jm_get (db_deliveries (demo_db_out r k)) (demo_ns, ''c1'') = Some (demo_row k)"
    "jm_get (db_events (demo_db_out r k)) (demo_ns, dl_eventId (demo_row k)) = Some demo_request"
    by (simp_all add: demo_db_out_def demo_db_dispatching_def empty_database_def jm_get_def demo_row_sel)
  show "store_delivery demo_env demo_bounds demo_ns ''c1'' (demo_store (demo_db_out r k)) = Inr (Some (demo_row k, demo_request))"
    using r demo_stored_session(1) [OF demo_store_open demo_sessions(2), of r k] demo_row_valid [OF k] demo_request_valid demo_answer [OF demo_row_fits [OF k]]
    by (simp add: store_delivery_def query_def rows decode_row_def)
qed

lemma demo_command_row: "store_command demo_env demo_bounds demo_ns ''p1'' (demo_store demo_db_dispatching) =
    Inr (demo_record (Dispatching (demo_attempt Intent)))"
proof -
  note valid = demo_record_valid [of "Dispatching (demo_attempt Intent)", simplified]
  have "jm_get (db_commands demo_db_dispatching) (demo_ns, ''p1'') = Some (demo_record (Dispatching (demo_attempt Intent)))"
    by (simp add: demo_db_dispatching_def jm_get_def)
  then show ?thesis
    using demo_stored_session(1) [OF demo_store_open demo_sessions(1)] valid demo_answer [OF valid_fits [OF valid]]
    by (simp add: store_command_def query_def answer_row_def decode_row_def)
qed

section \<open>Its turns\<close>

definition demo_turn :: turn where
  "demo_turn = \<lparr>tn_aborted = False, tn_now = 5, tn_uuid = ''e4'', tn_current = True, tn_published = True, tn_authorized = None,
     tn_reconciled = Some (Inr Not_submitted), tn_sent = None, tn_acknowledged = None\<rparr>"

lemma demo_turn_sel: "\<not> tn_aborted demo_turn" "tn_now demo_turn = 5" "tn_uuid demo_turn = ''e4''" "tn_current demo_turn"
  "tn_published demo_turn" "tn_reconciled demo_turn = Some (Inr Not_submitted)" "tn_sent demo_turn = None"
  by (simp_all add: demo_turn_def)

lemma demo_call_sel: "pc_generation demo_call = ''g1''" "pc_command demo_call = ''p1''" "pc_operation demo_call = ''c1''"
  "pc_target demo_call = ''r1''" "\<not> pc_asks demo_call"
  by (simp_all add: demo_call_def)

lemma demo_live: "live_session demo_env demo_bounds demo_ns demo_turn ''g1'' ''p1'' (demo_store demo_db_dispatching) = Inr (demo_session 2 3)"
proof -
  have "observerGeneration (demo_attempt Intent) = ''g1''" "is_prompt (input_of demo_prompt)"
    by (simp_all add: demo_attempt_def demo_prompt_def)
  then show ?thesis
    using demo_stored_session(2) [OF demo_store_open demo_sessions(1)]
    by (simp add: live_session_def demo_command_row check_deadline_def demo_turn_sel demo_active value_of_def)
       (simp add: demo_record_def providerStage_def)
qed

lemma demo_none: "existing_delivery demo_env demo_bounds demo_ns demo_call (demo_store demo_db_dispatching) = Inr None"
  by (simp add: existing_delivery_def demo_call_sel demo_deliveries(1) value_of_def)

lemma demo_file: "file_delivery demo_env demo_bounds demo_ns demo_turn demo_call (demo_store demo_db_dispatching) =
    (Inr (demo_row 0, demo_request), demo_store (demo_db_out 3 0))"
proof -
  have event: "request_event demo_ns ''e4'' (demo_session 2 3) demo_call = demo_request"
    by (simp add: request_event_def demo_request_def demo_event_def demo_call_def)
  have row: "fresh_delivery demo_ns 5 demo_request (replicate 64 (CHR ''a'')) demo_call = demo_row 0"
    by (simp add: fresh_delivery_def demo_row_def demo_call_sel demo_request_sel)
  have "commit_outbox demo_env demo_bounds demo_turn (demo_session 2 3) (demo_row 0) [demo_request] (demo_store demo_db_dispatching) =
      (Inr (), demo_store (demo_db_out 3 0))"
    using demo_filing_store by (simp add: commit_outbox_def demo_active demo_turn_sel demo_filing_def) (simp add: providerStage_def)
  then show ?thesis
    by (simp add: file_delivery_def demo_call_sel demo_live demo_none demo_turn_sel event demo_fingerprint row)
qed

lemma demo_mark:
  assumes "k \<le> 1"
  shows "mark_attempt demo_env demo_bounds demo_ns ''c1'' demo_turn (demo_store (demo_db_out (3 + int k) k)) =
    (Inr (), demo_store (demo_db_out (4 + int k) (Suc k)))"
proof -
  let ?st = "demo_store (demo_db_out (3 + int k) k)"
  have row: "(demo_row k)\<lparr>dl_status := Delivery_reconciliation_required, attempts := int k + 1, nextAttemptAtMs := 1005\<rparr> = demo_row (Suc k)"
    by (simp add: demo_row_def)
  have found: "current_delivery demo_env demo_bounds demo_ns ''c1'' ?st = Inr (Some (demo_row k))"
    using assms demo_deliveries(2) [of "3 + int k" k] by (simp add: current_delivery_def value_of_def)
  have session: "current_session demo_env demo_bounds demo_ns ?st = Inr (demo_session (3 + int k) 4)"
    using assms demo_stored_session(2) [OF demo_store_open demo_sessions(2), of "3 + int k" k] by (simp add: current_session_def value_of_def)
  have "commit_outbox demo_env demo_bounds demo_turn (demo_session (3 + int k) 4) (demo_row (Suc k)) [] ?st =
      (Inr (), demo_store (demo_db_out (4 + int k) (Suc k)))"
    using demo_marking_store [OF assms] by (simp add: commit_outbox_def demo_active demo_turn_sel demo_marking_def) (simp add: providerStage_def)
  then show ?thesis by (simp add: mark_attempt_def found session demo_row_sel demo_turn_sel row)
qed

end
