(* ===== verification/Delivery_Demo_Receipt.thy ===== *)
theory Delivery_Demo_Receipt
  imports Delivery_Demo
begin

text \<open>
  The demonstration's second send is answered: the receipt is recorded, acknowledged, and the
  delivery done.
\<close>

section \<open>The receipt\<close>

definition demo_reply :: delivery_receipt where
  "demo_reply = \<lparr>dr_receiptRef = ''w1'', dr_reply = \<lparr>tr_disposition = Returned, tr_text = []\<rparr>\<rparr>"

definition demo_receipt_event :: event where
  "demo_receipt_event = demo_event ''e5'' 5 None (Delivery_recorded ''c1'' ''r1'' (replicate 64 (CHR ''a'')) ''w1'')"

definition demo_row_as :: "delivery_status \<Rightarrow> delivery" where
  "demo_row_as s = (demo_row 2)\<lparr>dl_status := s\<rparr>"

lemma demo_receipt_event_valid: "valid demo_digest defaultLimits (Row_event demo_receipt_event) = None"
  by (intro row_validI; simp add: demo_receipt_event_def demo_defs row_eval is_safe_integer_def max_safe_def json_int_def decimal.simps
      byteLength_Cons utf8_char_def schema_eval)

lemma demo_row_as_valid: "s \<noteq> Delivery_pending \<Longrightarrow> valid demo_digest defaultLimits (Row_delivery (demo_row_as s)) = None"
  by (cases s; intro row_validI; simp add: demo_row_as_def demo_row_def demo_defs row_eval json_of_delivery_def schema_delivery_def is_safe_integer_def
      max_safe_def json_int_def decimal.simps byteLength_Cons utf8_char_def schema_eval)

lemma demo_receipt_event_sel: "eventId demo_receipt_event = ''e5''" "sequence demo_receipt_event = 5" "ev_commandId demo_receipt_event = Some ''p1''"
  "ev_attemptId demo_receipt_event = None" "ev_generation demo_receipt_event = ''g1''" "ev_namespace demo_receipt_event = demo_ns"
  "body demo_receipt_event = Delivery_recorded ''c1'' ''r1'' (replicate 64 (CHR ''a'')) ''w1''"
  by (simp_all add: demo_receipt_event_def demo_event_def)

lemma demo_row_as_sel: "operationId (demo_row_as s) = ''c1''" "dl_eventId (demo_row_as s) = ''e4''" "target (demo_row_as s) = ''r1''"
  "dl_namespace (demo_row_as s) = demo_ns" "dl_contentHash (demo_row_as s) = replicate 64 (CHR ''a'')" "attempts (demo_row_as s) = 2"
  "dl_retry (demo_row_as s) = Retry_reconcile_first" "dl_status (demo_row_as s) = s"
  by (simp_all add: demo_row_as_def demo_row_sel)

definition demo_db_rec :: "counter \<Rightarrow> delivery_status \<Rightarrow> database" where
  "demo_db_rec r s = (demo_db_out r 2)\<lparr>db_sessions := [(demo_ns, demo_session r 5)],
     db_events := db_events (demo_db_out r 2) @ [((demo_ns, ''e5''), demo_receipt_event)],
     db_deliveries := [((demo_ns, ''c1''), demo_row_as s)]\<rparr>"

definition demo_rec :: "counter \<Rightarrow> delivery_status \<Rightarrow> workspace" where
  "demo_rec r s = (demo_out r 2)\<lparr>ws_session := demo_session r 5, ws_events := ws_events (demo_out r 2) @ [demo_receipt_event],
     ws_deliveries := [(''c1'', demo_row_as s)]\<rparr>"

lemma demo_rec_content: "content (demo_db_rec r s) demo_ns (demo_session r 5) = demo_rec r s"
  by (simp add: content_def demo_db_rec_def demo_db_out_def demo_rec_def demo_out_def demo_db_dispatching_def empty_database_def
      scoped_generations_def scoped_Cons demo_dispatching_simp jm_values_def demo_event_sel demo_request_def demo_receipt_event_def)

lemma demo_rec_load: "0 \<le> r \<Longrightarrow> r \<le> 9 \<Longrightarrow> load_state demo_env (demo_db_rec r s) demo_ns = Inr (demo_rec r s)"
  unfolding demo_rec_content [symmetric]
  by (rule load_stateI [where g = "''g1''"];
      simp add: demo_decode demo_generation demo_db_rec_def demo_db_out_def demo_db_dispatching_def jm_get_def scoped_generations_def)

section \<open>The commits\<close>

definition demo_recording :: commit_batch where
  "demo_recording = delivery_batch demo_ns 5 (demo_session 5 4) ''g1'' (demo_row_as Receipt_recorded) [demo_receipt_event]"

definition demo_settling :: commit_batch where
  "demo_settling = delivery_batch demo_ns 5 (demo_session 6 5) ''g1'' (demo_row_as Delivered) []"

lemma demo_recording_sel: "cb_providerFacts demo_recording = []" "cb_namespace demo_recording = demo_ns" "cb_expectedRevision demo_recording = 5"
  "cb_expectedGeneration demo_recording = ''g1''" "cb_session demo_recording = demo_session 6 5" "cb_commands demo_recording = []"
  "cb_events demo_recording = [demo_receipt_event]" "cb_interactions demo_recording = []"
  "cb_deliveries demo_recording = [demo_row_as Receipt_recorded]" "cb_surfaces demo_recording = []"
  by (simp_all add: demo_recording_def delivery_batch_def demo_advance)

lemma demo_settling_sel: "cb_providerFacts demo_settling = []" "cb_namespace demo_settling = demo_ns" "cb_expectedRevision demo_settling = 6"
  "cb_expectedGeneration demo_settling = ''g1''" "cb_session demo_settling = demo_session 7 5" "cb_commands demo_settling = []"
  "cb_events demo_settling = []" "cb_interactions demo_settling = []"
  "cb_deliveries demo_settling = [demo_row_as Delivered]" "cb_surfaces demo_settling = []"
  by (simp_all add: demo_settling_def delivery_batch_def demo_advance)

lemma demo_recording_body: "commit_body demo_env defaultLimits (demo_out 5 2) demo_recording False demo_stage [] = Inr (demo_rec 6 Receipt_recorded)"
  by (simp add: demo_recording_sel demo_receipt_event_sel demo_request_sel demo_row_sel demo_row_as_sel demo_fingerprint demo_out_def
      demo_rec_def delivery_recorded_check_def delivery_eval demo_eval)

lemma demo_recording_run: "reduceCommit demo_env defaultLimits (demo_out 5 2) demo_recording False False = Inr (demo_rec 6 Receipt_recorded)"
proof (rule reduceCommitI [OF _ _ _ _ _ _ _ _ _ _ _ _ _ _ demo_recording_body])
  show "rows_check demo_env defaultLimits demo_recording = None"
    using demo_session_valid [of 6 5] demo_receipt_event_valid demo_row_as_valid [of Receipt_recorded]
    by (simp add: rows_check_def batch_rows_def demo_recording_sel)
qed (simp_all add: demo_recording_sel demo_out_sel demo_active stage_check_def collect_facts_def,
     simp_all add: demo_eval)

lemma demo_rec_sel: "ws_session (demo_rec r s) = demo_session r 5" "ws_deliveries (demo_rec r s) = [(''c1'', demo_row_as s)]"
  "ws_events (demo_rec r s) = ws_events demo_dispatching @ [demo_request, demo_receipt_event]" "ws_commands (demo_rec r s) = ws_commands demo_dispatching"
  "ws_interactions (demo_rec r s) = []" "ws_surfaces (demo_rec r s) = []" "ws_generations (demo_rec r s) = [''g1'']"
  by (simp_all add: demo_rec_def demo_out_sel)

lemma demo_settling_body: "commit_body demo_env defaultLimits (demo_rec 6 Receipt_recorded) demo_settling False demo_stage [] = Inr (demo_rec 7 Delivered)"
  by (simp add: demo_settling_sel demo_receipt_event_sel demo_request_sel demo_row_sel demo_row_as_sel demo_fingerprint demo_out_def
      demo_rec_def delivery_eval demo_eval)

lemma demo_settling_run: "reduceCommit demo_env defaultLimits (demo_rec 6 Receipt_recorded) demo_settling False False = Inr (demo_rec 7 Delivered)"
proof (rule reduceCommitI [OF _ _ _ _ _ _ _ _ _ _ _ _ _ _ demo_settling_body])
  show "rows_check demo_env defaultLimits demo_settling = None"
    using demo_session_valid [of 7 5] demo_row_as_valid [of Delivered]
    by (simp add: rows_check_def batch_rows_def demo_settling_sel)
qed (simp_all add: demo_settling_sel demo_rec_sel demo_active stage_check_def collect_facts_def,
     simp_all add: demo_eval)

section \<open>Saved and committed\<close>

lemma demo_rec_sizes:
  "0 \<le> r \<Longrightarrow> r \<le> 9 \<Longrightarrow> row_bytes (Row_session (demo_session r 5)) \<le> 262144"
  "row_bytes (Row_event demo_receipt_event) \<le> 262144"
  "s \<noteq> Delivery_pending \<Longrightarrow> row_bytes (Row_delivery (demo_row_as s)) \<le> 262144"
  "s \<noteq> Delivery_pending \<Longrightarrow> 0 \<le> row_bytes (Row_delivery (demo_row_as s))"
  using demo_session_valid [of r 5, THEN row_size(3)] demo_receipt_event_valid [THEN row_size(3)]
    demo_row_as_valid [THEN row_size(2)] demo_row_as_valid [THEN row_size(3)] by simp_all

lemmas demo_rec_serialised = demo_serialised demo_receipt_event_valid [THEN row_size(1)] demo_row_as_valid [THEN row_size(1)]

lemma demo_rec_tables: "scoped demo_ns (db_commands (demo_db_rec r s)) = scoped demo_ns (db_commands demo_db_dispatching)"
    "scoped demo_ns (db_events (demo_db_rec r s)) =
       scoped demo_ns (db_events demo_db_dispatching) @ [(''e4'', demo_request), (''e5'', demo_receipt_event)]"
    "scoped demo_ns (db_interactions (demo_db_rec r s)) = []" "scoped demo_ns (db_surfaces (demo_db_rec r s)) = []"
    "scoped demo_ns (db_deliveries (demo_db_rec r s)) = [(''c1'', demo_row_as s)]"
    "scoped_generations demo_ns (demo_db_rec r s) = [''g1'']"
  by (simp_all add: demo_db_rec_def demo_db_out_def demo_db_dispatching_def empty_database_def scoped_generations_def scoped_Cons)

lemma demo_save_recording: "save demo_bounds (demo_out 5 2) (demo_rec 6 Receipt_recorded) (demo_db_out 5 2) = Inr (demo_db_rec 6 Receipt_recorded)"
proof -
  let ?w = "demo_out 5 2" and ?w' = "demo_rec 6 Receipt_recorded"
  have "demo_row 2 \<noteq> demo_row_as Receipt_recorded" by (simp add: demo_row_as_def demo_row_def)
  then have delta: "new_generations ?w ?w' = []" "new_events ?w ?w' = [demo_receipt_event]"
    "changed (ws_commands ?w) (ws_commands ?w') = []" "changed (ws_interactions ?w) (ws_interactions ?w') = []"
    "changed (ws_surfaces ?w) (ws_surfaces ?w') = []" "changed (ws_deliveries ?w) (ws_deliveries ?w') = [demo_row_as Receipt_recorded]"
    by (simp_all add: new_generations_def new_events_def changed_def demo_out_sel demo_rec_sel demo_dispatching_simp jm_get_def)
  have "size_check demo_bounds (demo_db_out 5 2) demo_ns ?w ?w' = None"
    using demo_rec_sizes(1) [of 6] demo_rec_sizes(2) demo_rec_sizes(3) [of Receipt_recorded] demo_sizes(2,6) demo_sizes(4) [of 2]
      demo_sizes(5) [of 2] demo_event_valid [THEN row_size(3)]
    by (simp add: size_check_def delta demo_out_sel(1) demo_rec_sel(1) totals_def demo_out_tables demo_dispatching_tables table_size_def
        id_bytes_def grow_def Let_def jm_get_def demo_rec_serialised demo_row_as_sel demo_receipt_event_sel demo_event_sel demo_command_id)
  then show ?thesis
    by (simp add: save_def Let_def demo_out_sel(1) demo_rec_sel(1) delta put_command_def put_event_def put_session_def put_delivery_def
        demo_columns demo_row_as_sel demo_receipt_event_sel)
       (simp add: demo_db_dispatching_def demo_db_out_def demo_db_rec_def empty_database_def jm_set_def jm_get_def jm_has_def
          jm_values_def scoped_generations_def scoped_Cons demo_event_sel demo_columns demo_request_sel)
qed

lemma demo_save_settling:
  "save demo_bounds (demo_rec 6 Receipt_recorded) (demo_rec 7 Delivered) (demo_db_rec 6 Receipt_recorded) = Inr (demo_db_rec 7 Delivered)"
proof -
  let ?w = "demo_rec 6 Receipt_recorded" and ?w' = "demo_rec 7 Delivered"
  have "demo_row_as Receipt_recorded \<noteq> demo_row_as Delivered" by (simp add: demo_row_as_def demo_row_def)
  then have delta: "new_generations ?w ?w' = []" "new_events ?w ?w' = []"
    "changed (ws_commands ?w) (ws_commands ?w') = []" "changed (ws_interactions ?w) (ws_interactions ?w') = []"
    "changed (ws_surfaces ?w) (ws_surfaces ?w') = []" "changed (ws_deliveries ?w) (ws_deliveries ?w') = [demo_row_as Delivered]"
    by (simp_all add: new_generations_def new_events_def changed_def demo_rec_sel demo_dispatching_simp jm_get_def)
  have "size_check demo_bounds (demo_db_rec 6 Receipt_recorded) demo_ns ?w ?w' = None"
    using demo_rec_sizes(1) [of 7] demo_rec_sizes(2) demo_rec_sizes(3,4) [of Receipt_recorded] demo_rec_sizes(3) [of Delivered]
      demo_sizes(2,6) demo_event_valid [THEN row_size(3)]
    by (simp add: size_check_def delta demo_rec_sel(1) totals_def demo_rec_tables demo_dispatching_tables table_size_def
        id_bytes_def grow_def Let_def jm_get_def demo_rec_serialised demo_row_as_sel demo_receipt_event_sel demo_request_sel demo_event_sel
        demo_command_id)
  then show ?thesis
    by (simp add: save_def Let_def demo_rec_sel(1) delta put_command_def put_event_def put_session_def put_delivery_def
        demo_columns demo_row_as_sel)
       (simp add: demo_db_dispatching_def demo_db_out_def demo_db_rec_def empty_database_def jm_set_def jm_get_def jm_has_def
          jm_values_def scoped_generations_def scoped_Cons demo_event_sel demo_columns)
qed

lemma demo_recording_store: "store_commit demo_env demo_bounds demo_recording (demo_store (demo_db_out 5 2)) =
    (Inr (), demo_store (demo_db_rec 6 Receipt_recorded))"
proof -
  have "batch_size demo_recording = 2" by (simp add: batch_size_def demo_recording_sel)
  moreover have "commitSession demo_env defaultLimits (demo_out 5 2) demo_recording = Inr (demo_rec 6 Receipt_recorded)"
    using demo_recording_run by (simp add: commitSession_def)
  ultimately show ?thesis
    using demo_writable [of "demo_db_out 5 2" 5 4] demo_out_load [of 5 2]
    by (simp add: store_commit_def transact_def query_def demo_store_def demo_out_sel(1) demo_recording_sel demo_save_recording)
qed

lemma demo_settling_store: "store_commit demo_env demo_bounds demo_settling (demo_store (demo_db_rec 6 Receipt_recorded)) =
    (Inr (), demo_store (demo_db_rec 7 Delivered))"
proof -
  have "batch_size demo_settling = 1" by (simp add: batch_size_def demo_settling_sel)
  moreover have "commitSession demo_env defaultLimits (demo_rec 6 Receipt_recorded) demo_settling = Inr (demo_rec 7 Delivered)"
    using demo_settling_run by (simp add: commitSession_def)
  ultimately show ?thesis
    using demo_writable [of "demo_db_rec 6 Receipt_recorded" 6 5] demo_rec_load [of 6 Receipt_recorded]
    by (simp add: store_commit_def transact_def query_def demo_store_def demo_rec_sel(1) demo_settling_sel demo_save_settling)
qed

lemma demo_rec_session: "jm_get (db_sessions (demo_db_rec r s)) demo_ns = Some (demo_session r 5)"
  by (simp add: demo_db_rec_def jm_get_def)

lemma demo_row_as_fits: "s \<noteq> Delivery_pending \<Longrightarrow>
    fits defaultLimits (obj [(''delivery'', json_of_delivery (demo_row_as s)), (''event'', json_of_event demo_request)])"
  by (cases s; rule fits_by_size; simp add: demo_row_as_def demo_row_def demo_request_def demo_defs row_eval json_of_delivery_def
      is_safe_integer_def max_safe_def json_int_def decimal.simps byteLength_Cons utf8_char_def)

lemma demo_rec_delivery: "store_delivery demo_env demo_bounds demo_ns ''c1'' (demo_store (demo_db_rec 6 Receipt_recorded)) =
    Inr (Some (demo_row_as Receipt_recorded, demo_request))"
proof -
  have rows: "jm_get (db_deliveries (demo_db_rec 6 Receipt_recorded)) (demo_ns, ''c1'') = Some (demo_row_as Receipt_recorded)"
    "jm_get (db_events (demo_db_rec 6 Receipt_recorded)) (demo_ns, ''e4'') = Some demo_request"
    by (simp_all add: demo_db_rec_def demo_db_out_def demo_db_dispatching_def empty_database_def jm_get_def)
  show ?thesis
    using demo_stored_session(1) [OF demo_store_open demo_rec_session, of 6 Receipt_recorded] demo_row_as_valid [of Receipt_recorded]
      demo_request_valid demo_answer [OF demo_row_as_fits [of Receipt_recorded]]
    by (simp add: store_delivery_def query_def rows decode_row_def demo_row_as_sel)
qed

section \<open>The turns\<close>

definition demo_answered_turn :: turn where
  "demo_answered_turn = demo_turn\<lparr>tn_uuid := ''e5'', tn_sent := Some (Inr demo_reply), tn_acknowledged := Some (Inr ())\<rparr>"

lemma demo_answered_sel: "tn_now demo_answered_turn = 5" "tn_uuid demo_answered_turn = ''e5''"
  "tn_published demo_answered_turn" "tn_sent demo_answered_turn = Some (Inr demo_reply)" "tn_acknowledged demo_answered_turn = Some (Inr ())"
  by (simp_all add: demo_answered_turn_def demo_turn_sel)

lemma demo_record_turn: "record_receipt demo_env demo_bounds demo_ns ''c1'' demo_answered_turn demo_request demo_reply (demo_store (demo_db_out 5 2)) =
    (Inr (), demo_store (demo_db_rec 6 Receipt_recorded))"
proof -
  let ?st = "demo_store (demo_db_out 5 2)"
  have event: "receipt_event demo_ns ''e5'' (demo_session 5 4) ''g1'' demo_request (demo_row 2) demo_reply = demo_receipt_event"
    by (simp add: receipt_event_def demo_receipt_event_def demo_event_def demo_row_sel demo_request_sel demo_reply_def)
  have found: "current_delivery demo_env demo_bounds demo_ns ''c1'' ?st = Inr (Some (demo_row 2))"
    using demo_deliveries(2) [of 5 2] by (simp add: current_delivery_def value_of_def)
  have session: "current_session demo_env demo_bounds demo_ns ?st = Inr (demo_session 5 4)"
    using demo_stored_session(2) [OF demo_store_open demo_sessions(2), of 5 2] by (simp add: current_session_def value_of_def)
  have stage: "activeStage (demo_session 5 4) = Inr demo_stage" "generation (stage_binding demo_stage) = ''g1''"
    by (simp_all add: demo_active) (simp add: providerStage_def)
  have "commit_outbox demo_env demo_bounds demo_answered_turn (demo_session 5 4) (demo_row_as Receipt_recorded) [demo_receipt_event] ?st =
      (Inr (), demo_store (demo_db_rec 6 Receipt_recorded))"
    using demo_recording_store by (simp add: commit_outbox_def stage demo_answered_sel demo_recording_def)
  then show ?thesis
    by (simp add: record_receipt_def found session stage demo_row_sel demo_answered_sel event demo_row_as_def [symmetric])
qed

lemma demo_settle_turn: "settle_delivery demo_env demo_bounds demo_ns ''c1'' demo_answered_turn (demo_store (demo_db_rec 6 Receipt_recorded)) =
    (Inr (), demo_store (demo_db_rec 7 Delivered))"
proof -
  let ?st = "demo_store (demo_db_rec 6 Receipt_recorded)"
  have found: "current_delivery demo_env demo_bounds demo_ns ''c1'' ?st = Inr (Some (demo_row_as Receipt_recorded))"
    using demo_rec_delivery by (simp add: current_delivery_def value_of_def)
  have session: "current_session demo_env demo_bounds demo_ns ?st = Inr (demo_session 6 5)"
    using demo_stored_session(2) [OF demo_store_open demo_rec_session, of 6 Receipt_recorded] by (simp add: current_session_def value_of_def)
  have stage: "activeStage (demo_session 6 5) = Inr demo_stage" "generation (stage_binding demo_stage) = ''g1''"
    by (simp_all add: demo_active) (simp add: providerStage_def)
  have row: "(demo_row_as Receipt_recorded)\<lparr>dl_status := Delivered\<rparr> = demo_row_as Delivered" by (simp add: demo_row_as_def)
  have "commit_outbox demo_env demo_bounds demo_answered_turn (demo_session 6 5) (demo_row_as Delivered) [] ?st =
      (Inr (), demo_store (demo_db_rec 7 Delivered))"
    using demo_settling_store by (simp add: commit_outbox_def stage demo_answered_sel demo_settling_def)
  then show ?thesis by (simp add: settle_delivery_def found session demo_row_as_sel row)
qed

lemma demo_receive: "receive_receipt demo_request demo_reply = Recording demo_request demo_reply"
proof -
  have "fits defaultLimits (json_of_reply (dr_reply demo_reply))"
    by (rule fits_by_size; simp add: json_of_reply_def demo_reply_def row_eval byteLength_Cons utf8_char_def)
  then show ?thesis by (simp add: receive_receipt_def boundedJson_Inr [THEN iffD2]) (simp add: demo_reply_def)
qed

end
