(* ===== verification/Delivery_Guarantees.thy ===== *)
theory Delivery_Guarantees
  imports Delivery_Demo_Receipt
begin

text \<open>
  What the durable outbox guarantees of one operation, over every run of the store and every crash:
  nothing leaves the host before its trace is durable, and nothing is sent twice on a guess.
\<close>

section \<open>Sending\<close>

text \<open>
  C25. Two sends of one operation are never blind: before the later one, and after the earlier one,
  the receiver was asked about this request and answered that it never had it - whatever flights, sweeps,
  concurrent writers, crashes and restarts lie between them.
\<close>

theorem resend_needs_reconciliation:
  assumes "reachable_outbox n i ob" "ob_calls ob = a @ Send_call first # b @ Send_call again # c"
  shows "Reconcile_call again Not_submitted \<in> set b"
  using reachable_outbox_ok [OF assms(1)] assms(2) unfolding outbox_ok_def calls_ok_def resends_reconciled_def by blast

lemma stored_outbox: "reachable_store st \<Longrightarrow> reachable_outbox n i \<lparr>ob_store = st, ob_flight = None, ob_calls = []\<rparr>"
proof (induction rule: reachable_store_of.induct)
  case Fresh_store
  then show ?case by (rule Fresh_outbox)
next
  case (Next_store st st')
  then show ?case using Next_outbox World [of "\<lparr>ob_store = st, ob_flight = None, ob_calls = []\<rparr>" st'] by fastforce
qed

lemma outbox_fly:
  assumes "reachable_outbox n i \<lparr>ob_store = st, ob_flight = Some p, ob_calls = cs\<rparr>" "flight_step e bd n i t p st = (p', st', new)"
  shows "reachable_outbox n i \<lparr>ob_store = st', ob_flight = Some p', ob_calls = cs @ new\<rparr>"
  using Next_outbox [OF assms(1) Fly [of "\<lparr>ob_store = st, ob_flight = Some p, ob_calls = cs\<rparr>", OF _ ]] assms(2) by simp

abbreviation "demo_outbox st p cs \<equiv> reachable_outbox demo_ns ''c1'' \<lparr>ob_store = demo_store st, ob_flight = p, ob_calls = cs\<rparr>"

lemma demo_is_request: "is_request demo_request"
  by (simp add: is_request_def demo_request_sel)

lemmas demo_fly = outbox_fly [of demo_ns "''c1''" _ _ _ demo_env demo_bounds demo_turn]

text \<open>A send of the demonstration, whose answer is lost.\<close>

lemma demo_sent:
  assumes "demo_outbox (demo_db_out (3 + int k) k) (Some (Marking demo_request)) cs" "k \<le> 1"
  shows "demo_outbox (demo_db_out (4 + int k) (Suc k)) (Some (Awaiting_receipt demo_request)) (cs @ [Send_call demo_request])"
proof -
  have "demo_outbox (demo_db_out (4 + int k) (Suc k)) (Some (Sending demo_request)) (cs @ [])"
    by (rule demo_fly [OF assms(1)]) (simp add: on_turn_def demo_mark [OF assms(2)] demo_turn_sel)
  then show ?thesis by (intro demo_fly [where p = "Sending demo_request"]) simp_all
qed

lemma demo_first_send: "demo_outbox (demo_db_out 4 1) (Some (Awaiting_receipt demo_request)) [Send_call demo_request]"
proof -
  have start: "demo_outbox demo_db_dispatching None []" by (rule stored_outbox [OF demo_reachable_dispatching])
  have "demo_outbox demo_db_dispatching (Some (Looking_up demo_call)) []"
    using Next_outbox [OF start Propose [where c = demo_call and t = demo_turn]]
    by (simp add: demo_call_sel propose_phase_def demo_turn_sel)
  from demo_fly [OF this, where new = "[]" and p' = "Checking_live demo_call"]
  have "demo_outbox demo_db_dispatching (Some (Checking_live demo_call)) []" by (simp add: look_up_def demo_none)
  from demo_fly [OF this, where new = "[]" and p' = "Filing demo_call"]
  have "demo_outbox demo_db_dispatching (Some (Filing demo_call)) []" by (simp add: demo_call_sel demo_live)
  from demo_fly [OF this, where new = "[]" and p' = "Attempting (demo_row 0) demo_request"]
  have "demo_outbox (demo_db_out 3 0) (Some (Attempting (demo_row 0) demo_request)) []" by (simp add: on_turn_def demo_file)
  from demo_fly [OF this, where new = "[]" and p' = "Marking demo_request"]
  have "demo_outbox (demo_db_out (3 + int 0) 0) (Some (Marking demo_request)) []"
    by (simp add: demo_turn_sel demo_is_request demo_row_sel)
  from demo_sent [OF this] show ?thesis by simp
qed

lemma demo_second_send: "demo_outbox (demo_db_out 5 2) (Some (Awaiting_receipt demo_request))
    ([] @ Send_call demo_request # [Reconcile_call demo_request Not_submitted] @ Send_call demo_request # [])"
proof -
  let ?cs = "[Send_call demo_request]"
  from demo_fly [OF demo_first_send, where new = "[]" and p' = "Landed (Inl unconfirmed)"]
  have "demo_outbox (demo_db_out 4 1) (Some (Landed (Inl unconfirmed))) ?cs" by (simp add: on_answer_def demo_turn_sel)
  from Next_outbox [OF this Land] have landed: "demo_outbox (demo_db_out 4 1) None ?cs" by simp
  have "recover_row demo_env demo_bounds demo_ns ''c1'' demo_turn (demo_store (demo_db_out 4 1)) = Inr (Attempting (demo_row 1) demo_request)"
    using demo_deliveries(2) [of 4 1] demo_call_fingerprint by (simp add: recover_row_def demo_request_sel demo_row_sel demo_turn_sel)
  then have "outbox_step demo_ns ''c1'' \<lparr>ob_store = demo_store (demo_db_out 4 1), ob_flight = None, ob_calls = ?cs\<rparr>
      (\<lparr>ob_store = demo_store (demo_db_out 4 1), ob_flight = None, ob_calls = ?cs\<rparr>
        \<lparr>ob_flight := Some (Attempting (demo_row 1) demo_request)\<rparr>)"
    by (intro Sweep [where e = demo_env and bd = demo_bounds and t = demo_turn]) simp_all
  from Next_outbox [OF landed this]
  have "demo_outbox (demo_db_out 4 1) (Some (Attempting (demo_row 1) demo_request)) ?cs" by simp
  from demo_fly [OF this, where new = "[]" and p' = "Reconciling (demo_row 1) demo_request"]
  have "demo_outbox (demo_db_out 4 1) (Some (Reconciling (demo_row 1) demo_request)) ?cs"
    by (simp add: demo_turn_sel demo_is_request demo_row_sel)
  from demo_fly [OF this, where new = "[Reconcile_call demo_request Not_submitted]" and p' = "Marking demo_request"]
  have "demo_outbox (demo_db_out (3 + int 1) 1) (Some (Marking demo_request)) (?cs @ [Reconcile_call demo_request Not_submitted])"
    by (simp add: on_answer_def demo_turn_sel demo_row_sel)
  from demo_sent [OF this] show ?thesis by (simp add: numeral_2_eq_2)
qed

theorem resend_needs_reconciliation_witness:
  "\<exists>ob b. reachable_outbox demo_ns ''c1'' ob \<and> ob_calls ob = [] @ Send_call demo_request # b @ Send_call demo_request # [] \<and>
     Reconcile_call demo_request Not_submitted \<in> set b"
  using resend_needs_reconciliation [OF demo_second_send outbox.select_convs(3)] demo_second_send by fastforce

section \<open>Recording before acknowledging\<close>

text \<open>
  C26. The outbox writes first and speaks second. Once a request was sent, its delivery durably counts
  the attempt; once a receipt was acknowledged, the delivery durably records it; and a caller that is
  answered with the receiver's reply finds the delivery done. A namespace that has been spent since
  is the one exception.
\<close>

theorem written_before_spoken:
  assumes "reachable_outbox n i ob"
  shows "(\<forall>ev. Send_call ev \<in> set (ob_calls ob) \<longrightarrow> stands n i attempted (st_db (ob_store ob))) \<and>
    (\<forall>ev r. Acknowledge_call ev r \<in> set (ob_calls ob) \<longrightarrow> stands n i recorded (st_db (ob_store ob))) \<and>
    (\<forall>reply. ob_flight ob = Some (Landed (Inr reply)) \<longrightarrow> reply = rejected_reply \<or>
      (\<exists>ev r. Acknowledge_call ev r \<in> set (ob_calls ob) \<and> reply = dr_reply r \<and> stands n i delivered (st_db (ob_store ob))))"
proof -
  from reachable_outbox_ok [OF assms] have "calls_ok n i (st_db (ob_store ob)) (ob_calls ob)"
    and "\<And>p. ob_flight ob = Some p \<Longrightarrow> phase_ok n i (st_db (ob_store ob)) (ob_calls ob) p" by (simp_all add: outbox_ok_def)
  from this(1) this(2) [of "Landed (Inr _)"] show ?thesis by (auto simp: calls_ok_def sent_def)
qed

lemma demo_reply_answered: "demo_outbox (demo_db_rec 7 Delivered) (Some (Landed (Inr (dr_reply demo_reply))))
    [Send_call demo_request, Reconcile_call demo_request Not_submitted, Send_call demo_request, Acknowledge_call demo_request demo_reply]"
proof -
  let ?cs = "[Send_call demo_request, Reconcile_call demo_request Not_submitted, Send_call demo_request]"
  note answered = outbox_fly [of demo_ns "''c1''" _ _ _ demo_env demo_bounds demo_answered_turn]
  have "demo_outbox (demo_db_out 5 2) (Some (Awaiting_receipt demo_request)) ?cs" using demo_second_send by simp
  from answered [OF this, where new = "[]" and p' = "Recording demo_request demo_reply"]
  have "demo_outbox (demo_db_out 5 2) (Some (Recording demo_request demo_reply)) ?cs"
    by (simp add: on_answer_def demo_answered_sel demo_receive)
  from answered [OF this, where new = "[]" and p' = "Acknowledging demo_request demo_reply"]
  have "demo_outbox (demo_db_rec 6 Receipt_recorded) (Some (Acknowledging demo_request demo_reply)) ?cs"
    by (simp add: on_turn_def demo_record_turn)
  from answered [OF this, where new = "[Acknowledge_call demo_request demo_reply]" and p' = "Awaiting_acknowledgement demo_request demo_reply"]
  have "demo_outbox (demo_db_rec 6 Receipt_recorded) (Some (Awaiting_acknowledgement demo_request demo_reply))
      (?cs @ [Acknowledge_call demo_request demo_reply])" by simp
  from answered [OF this, where new = "[]" and p' = "Settling demo_reply"]
  have "demo_outbox (demo_db_rec 6 Receipt_recorded) (Some (Settling demo_reply)) (?cs @ [Acknowledge_call demo_request demo_reply])"
    by (simp add: on_answer_def demo_answered_sel)
  from answered [OF this, where new = "[]" and p' = "Landed (Inr (dr_reply demo_reply))"]
  show ?thesis by (simp add: on_turn_def demo_settle_turn)
qed

theorem written_before_spoken_witness:
  "stands demo_ns ''c1'' attempted (demo_db_rec 7 Delivered) \<and> stands demo_ns ''c1'' recorded (demo_db_rec 7 Delivered) \<and>
   stands demo_ns ''c1'' delivered (demo_db_rec 7 Delivered)"
proof -
  have "dr_reply demo_reply \<noteq> rejected_reply" by (simp add: demo_reply_def rejected_reply_def)
  then show ?thesis using written_before_spoken [OF demo_reply_answered] by auto
qed

end
