(* ===== verification/Session_Finality.thy ===== *)
theory Session_Finality
  imports Session_Reach
begin

text \<open>
  What stands once it is reached: a retired session moves only by deliveries, the receipt of an
  accepted command answers every later replay, a dispatched steering prompt has the turn it steers,
  and an activation is one explicit update.
\<close>

section \<open>A retired session\<close>

definition only_deliveries_move :: "workspace \<Rightarrow> workspace \<Rightarrow> bool" where
  "only_deliveries_move st st' \<longleftrightarrow>
     (ws_session st')\<lparr>revision := revision (ws_session st), lastSequence := lastSequence (ws_session st)\<rparr> = ws_session st \<and>
     ws_commands st' = ws_commands st \<and> ws_interactions st' = ws_interactions st \<and>
     ws_surfaces st' = ws_surfaces st \<and> ws_generations st' = ws_generations st \<and>
     jm_keys (ws_deliveries st') = jm_keys (ws_deliveries st)"

lemma only_deliveries_move_refl [simp]: "only_deliveries_move st st"
  by (simp add: only_deliveries_move_def)

lemma only_deliveries_move_head:
  assumes "only_deliveries_move a b"
  shows "(ws_session b)\<lparr>revision := r, lastSequence := n\<rparr> = (ws_session a)\<lparr>revision := r, lastSequence := n\<rparr>"
    and "status (ws_session b) = status (ws_session a)"
proof -
  have h: "(ws_session b)\<lparr>revision := revision (ws_session a), lastSequence := lastSequence (ws_session a)\<rparr> = ws_session a"
    using assms by (simp add: only_deliveries_move_def)
  from arg_cong [OF h, of "\<lambda>s. s\<lparr>revision := r, lastSequence := n\<rparr>"]
  show "(ws_session b)\<lparr>revision := r, lastSequence := n\<rparr> = (ws_session a)\<lparr>revision := r, lastSequence := n\<rparr>" by simp
  from arg_cong [OF h, of status] show "status (ws_session b) = status (ws_session a)" by simp
qed

lemma only_deliveries_move_trans:
  assumes "only_deliveries_move a b" "only_deliveries_move b c"
  shows "only_deliveries_move a c"
proof -
  have "(ws_session c)\<lparr>revision := revision (ws_session a), lastSequence := lastSequence (ws_session a)\<rparr> = ws_session a"
    using only_deliveries_move_head(1) [OF assms(2)] assms(1) by (simp add: only_deliveries_move_def)
  then show ?thesis using assms by (simp add: only_deliveries_move_def)
qed

text \<open>Setting rows that are there already leaves the keys, and their order, as they were.\<close>

lemma jm_keys_kept: "jm_has m k \<Longrightarrow> jm_keys (jm_set m k v) = jm_keys m"
  by (induction m) (auto simp: jm_keys_def jm_has_def jm_get_def jm_set_def split: if_splits)

lemma jm_has_kept: "jm_has m k \<Longrightarrow> jm_has (jm_set m j v) k"
  by (cases "j = k") (auto simp: jm_has_def)

lemma upsert_keys:
  "list_all (\<lambda>v. jm_has m (f v)) vs \<Longrightarrow> jm_keys (upsert f vs m) = jm_keys m"
proof (induction vs arbitrary: m)
  case (Cons v vs)
  then have "jm_keys (upsert f vs (jm_set m (f v) v)) = jm_keys (jm_set m (f v) v)"
    by (auto simp: list_all_iff intro: jm_has_kept)
  then show ?case using Cons.prems by (simp add: upsert_def jm_keys_kept)
qed (simp add: upsert_def)

lemma delivery_commit_moves:
  assumes commit: "reduceCommit e lim st b False False = Inr st'" and retired: "status (ws_session st) = Retired"
  shows "only_deliveries_move st st'"
  using commit
proof (rule reduceCommit_run)
  fix cur facts lp copy1 copy2 ixs copy3 copy4 ss
  assume run: "commit_run e lim st b False False cur facts lp copy1 copy2 ixs copy3 copy4 ss"
    and "st' = copy4\<lparr>ws_session := cb_session b\<rparr>"
  then have st': "st' = applied st b" using commit_run_applied(1) by simp
  have "checkState (ws_session st) (isDeliveryCommit st b) (cb_expectedRevision b) (cb_expectedGeneration b) = None"
    using run by (simp add: commit_run_def)
  then have "isDeliveryCommit st b" using retired by (simp add: checkState_None)
  then show ?thesis
    by (simp add: only_deliveries_move_def isDeliveryCommit_def st' applied_def upsert_keys)
qed

lemma retired_moves:
  assumes "session_step st st'" "status (ws_session st) = Retired"
  shows "only_deliveries_move st st'"
  using assms
proof (induction rule: session_step.induct)
  case (Accept e lim st inp st' r)
  then have "reduceAcceptance e lim st inp False = Inr (st', r)" by (simp add: acceptCommand_def)
  then show ?case
  proof (cases rule: acceptance_cases)
    case (fresh cur answered answers)
    then show ?thesis using Accept.prems by (simp add: accept_open_def checkState_None)
  qed simp
next
  case (Commit e lim st b st')
  then show ?case using delivery_commit_moves by (auto simp: step_entry_defs)
next
  case (Rebind e lim st ri restored st')
  then show ?case by (simp add: step_entry_defs reduceHandoff_def)
next
  case (Recover e lim st ri st')
  then show ?case by (simp add: step_entry_defs reduceHandoff_def)
next
  case (Retire e lim st revn gen st')
  then show ?case by (simp add: step_entry_defs reduceRetirement_def checkState_None)
next
  case (Suspend e lim st si st')
  then show ?case by (simp add: step_entry_defs reduceSuspension_def)
next
  case (Select st connection revn fresh st')
  then show ?case by (simp add: selectConnection_def)
next
  case (Activate e st xi st')
  then show ?case by (auto elim: activation_run)
qed

lemma retired_run:
  assumes "session_step\<^sup>*\<^sup>* st st'" "status (ws_session st) = Retired"
  shows "only_deliveries_move st st'"
  using assms
proof (induction rule: rtranclp_induct)
  case (step a b)
  then have "only_deliveries_move st a" by simp
  moreover from this have "status (ws_session a) = Retired" using step.prems only_deliveries_move_head(2) by metis
  ultimately show ?case using retired_moves [OF step.hyps(2)] only_deliveries_move_trans by blast
qed simp

section \<open>The receipt of an accepted command\<close>

lemma accepted_row:
  assumes "acceptCommand e lim st inp = Inr (st', r)"
  shows "\<exists>c. jm_get (ws_commands st') (commandId (ai_command inp)) = Some c \<and> cr_receipt c = r \<and>
      contentHash r = env_digest e (json_of_command (ai_command inp))"
proof -
  have "reduceAcceptance e lim st inp False = Inr (st', r)" using assms by (simp add: acceptCommand_def)
  then show ?thesis
  proof (cases rule: acceptance_cases)
    case (replay prior)
    then show ?thesis by auto
  next
    case (fresh cur answered answers)
    let ?b = "accept_batch st inp cur (env_digest e (json_of_command (ai_command inp))) answered answers"
    obtain cur' facts lp copy1 copy2 ixs copy3 copy4 ss where
      run: "commit_run e lim st ?b True False cur' facts lp copy1 copy2 ixs copy3 copy4 ss"
      and "st' = copy4\<lparr>ws_session := cb_session ?b\<rparr>"
      by (rule reduceCommit_run [OF fresh(4)])
    then have "st' = applied st ?b" using commit_run_applied(1) by simp
    then show ?thesis by (auto simp: applied_def accept_batch_def upsert_def fresh(3) new_receipt_def)
  qed
qed

section \<open>A prompt on its way out\<close>

lemma first_dispatch_checked:
  assumes commit: "commitSession e lim st b = Inr st'" and wk: "ws_keyed st"
    and old: "jm_get (ws_commands st) k = Some c0" "dispatch c0 = None"
    and new: "jm_get (ws_commands st') k = Some c" "dispatch c = Some d"
  obtains cur attempted where "activeStage (ws_session st) = Inr cur"
    "first_dispatch st b cur attempted c (Some c0) d = None" "record_id c = k" "cr_command c = cr_command c0"
proof -
  obtain cur facts lp copy1 copy2 ixs copy3 copy4 ss where
    run: "commit_run e lim st b False False cur facts lp copy1 copy2 ixs copy3 copy4 ss"
    and "st' = copy4\<lparr>ws_session := cb_session b\<rparr>"
    using commit by (auto simp: commitSession_def elim: reduceCommit_run)
  then have st': "st' = applied st b" using commit_run_applied(1) by simp
  have c: "c \<in> set (cb_commands b)" "record_id c = k"
    using new old st' by (auto elim: applied_command_cases)
  obtain seen attempted where "command_identity st b False cur seen c (Some c0) = None"
    "dispatch_check st b cur attempted c (Some c0) (jm_get facts (record_id c)) = None"
    using run_command [OF run c(1) refl refl] c(2) old(1) by metis
  then have "first_dispatch st b cur attempted c (Some c0) d = None" "cr_command c = cr_command c0"
    using old(2) new(2) by (simp_all add: dispatch_check_def command_identity_def)
  moreover have "activeStage (ws_session st) = Inr cur" using run by (simp add: commit_run_def)
  ultimately show ?thesis using that c(2) by blast
qed

text \<open>A queued prompt goes out alone, a steering prompt into the open turn it names.\<close>

lemma unsettled_live:
  assumes "jm_get (ws_commands st) k = Some c" "\<not> isSettled c"
  shows "c \<in> set (commandsInStates st live_states)"
  using assms jm_values_get [OF assms(1)] by (simp add: commandsInStates_def live_settled)

lemma queued_dispatch_alone:
  assumes "reachable st" "commitSession e lim st b = Inr st'"
    "jm_get (ws_commands st) k = Some c0" "dispatch c0 = None"
    "jm_get (ws_commands st') k = Some c" "dispatch c = Some d" "queue_next (input_of (cr_command c))"
    "jm_get (ws_commands st) l = Some r" "is_prompt (input_of (cr_command r))" "dispatch r \<noteq> None"
  shows "isSettled r"
proof (rule ccontr)
  assume unsettled: "\<not> isSettled r"
  have wk: "ws_keyed st" using reachable_inv [OF assms(1)] by (simp add: ws_inv_def)
  obtain cur attempted where fd: "first_dispatch st b cur attempted c (Some c0) d = None" and c: "record_id c = k"
    by (rule first_dispatch_checked [OF assms(2) wk assms(3-6)])
  have "\<not> other_turn_open st k" using fd assms(7) c by (auto simp: first_dispatch_def)
  moreover have "record_id r = l" using keyed_get wk assms(8) by (auto simp: ws_keyed_def)
  ultimately have "k = l"
    using unsettled_live [OF assms(8) unsettled] assms(9,10) unsettled by (auto simp: other_turn_open_def list_ex_iff)
  then show False using assms(3,4,8,10) by simp
qed

lemma steering_dispatch_target:
  assumes "reachable st" "commitSession e lim st b = Inr st'"
    "jm_get (ws_commands st) k = Some c0" "dispatch c0 = None"
    "jm_get (ws_commands st') k = Some c" "dispatch c = Some d" "input_of (cr_command c) = Prompt t Steer run h"
  shows "\<exists>l r d'. jm_get (ws_commands st) l = Some r \<and> open_turn r \<and> dispatch r = Some d' \<and>
      certainty_of d' = Submitted \<and> da_nativeRunId d' = run \<and> da_nativeRunId d = run"
proof -
  have wk: "ws_keyed st" using reachable_inv [OF assms(1)] by (simp add: ws_inv_def)
  obtain cur attempted where fd: "first_dispatch st b cur attempted c (Some c0) d = None"
    by (rule first_dispatch_checked [OF assms(2) wk assms(3-6)])
  then have "steer_target_open st run" "da_nativeRunId d = run"
    using assms(7) by (auto simp: first_dispatch_def)
  then obtain r where r: "r \<in> set (jm_values (ws_commands st))" "queue_next (input_of (cr_command r))" "\<not> isSettled r"
    "\<exists>d'. dispatch r = Some d' \<and> certainty_of d' = Submitted \<and> da_nativeRunId d' = run"
    by (auto simp: steer_target_open_def list_ex_iff commandsInStates_def split: option.splits)
  moreover obtain l where "jm_get (ws_commands st) l = Some r"
    using jm_values_mem [THEN iffD1, OF _ r(1)] wk by (auto simp: ws_keyed_def keyed_def)
  ultimately show ?thesis using \<open>da_nativeRunId d = run\<close> by (auto simp: open_turn_def)
qed

end
