(* ===== verification/Retired_Demo.thy ===== *)
theory Retired_Demo
  imports Delivery_Demo_Receipt Session_Finality
begin

text \<open>
  The demonstration session with its delivered call is finished and retired; a late count of the
  delivered row still commits.
\<close>

section \<open>The turn ends\<close>

definition demo_finishing :: commit_batch where
  "demo_finishing = demo_terminal\<lparr>cb_expectedRevision := 7, cb_session := demo_session 8 8,
     cb_events := [demo_event ''e6'' 6 (Some ''x1'') (Reconciled (demo_attempt Intent) R_terminal),
                  demo_event ''e7'' 7 (Some ''x1'') (Dispatch_reported (demo_attempt Submitted)),
                  demo_event ''e8'' 8 (Some ''x1'') (Terminal_reported Completed)]\<rparr>"

definition demo_done :: workspace where
  "demo_done = applied (demo_rec 7 Delivered) demo_finishing"

lemma demo_late_ids [simp]: "isId ''e7''" "isId ''e8''" "isId ''dretire-8''"
  by (simp_all add: isId_def id_char_def alphanumeric_def Let_def)

lemma demo_finishing_valid:
  "valid demo_digest defaultLimits (Row_event (demo_event ''e6'' 6 (Some ''x1'') (Reconciled (demo_attempt Intent) R_terminal))) = None"
  "valid demo_digest defaultLimits (Row_event (demo_event ''e7'' 7 (Some ''x1'') (Dispatch_reported (demo_attempt Submitted)))) = None"
  "valid demo_digest defaultLimits (Row_event (demo_event ''e8'' 8 (Some ''x1'') (Terminal_reported Completed))) = None"
  by (intro row_validI; simp add: demo_defs row_eval is_safe_integer_def max_safe_def json_int_def decimal.simps
      byteLength_Cons utf8_char_def schema_eval)+

lemma demo_finishing_facts: "collect_facts demo_env (demo_rec 7 Delivered) demo_finishing = Inr [(''p1'', demo_observation)]"
  by (simp add: demo_rec_def demo_out_def demo_finishing_def demo_eval providerFactFor_def find_evidence_def evidence_matches_def providerIdentity_def)

lemma demo_finishing_body: "commit_body demo_env defaultLimits (demo_rec 7 Delivered) demo_finishing False demo_stage
    [(''p1'', demo_observation)] = Inr demo_done"
  by (simp add: demo_done_def demo_rec_def demo_out_def demo_finishing_def demo_request_sel demo_receipt_event_sel demo_eval providerIdentity_def)

lemma demo_finishing_run: "reduceCommit demo_env defaultLimits (demo_rec 7 Delivered) demo_finishing False False = Inr demo_done"
proof (rule reduceCommitI [OF _ _ _ _ _ _ _ _ _ _ _ _ _ demo_finishing_facts demo_finishing_body])
  show "rows_check demo_env defaultLimits demo_finishing = None"
    using demo_session_valid [of 8 8] demo_record_valid demo_finishing_valid
    by (simp add: rows_check_def batch_rows_def demo_finishing_def demo_terminal_def)
qed (simp_all add: demo_rec_def demo_out_def demo_finishing_def demo_eval providerIdentity_def)

lemma demo_done_sel: "ws_session demo_done = demo_session 8 8" "ws_generations demo_done = [''g1'']"
  "ws_commands demo_done = [(''p1'', demo_record (Terminal (demo_attempt Submitted) Completed))]"
  "ws_events demo_done = ws_events (demo_rec 7 Delivered) @ cb_events demo_finishing"
  "ws_interactions demo_done = []" "ws_surfaces demo_done = []"
  "ws_deliveries demo_done = [(''c1'', demo_row_as Delivered)]"
  by (simp_all add: demo_done_def demo_rec_sel demo_finishing_def demo_terminal_def applied_def upsert_def
      demo_dispatching_simp demo_record_def demo_prompt_def jm_set_def)

section \<open>The session retires\<close>

abbreviation "demo_over_session n \<equiv> (demo_session n 9)\<lparr>status := Retired\<rparr>"

definition demo_over_event :: event where
  "demo_over_event = \<lparr>ev_namespace = demo_ns, eventId = ''dretire-8'', sequence = 9, ev_generation = ''g1'',
       ev_commandId = None, ev_attemptId = None, body = Session_retired\<rparr>"

definition demo_over :: workspace where
  "demo_over = demo_done\<lparr>ws_session := demo_over_session 9, ws_events := ws_events demo_done @ [demo_over_event]\<rparr>"

lemma print_eight: "map char_of (json_int 8) = ''8''"
proof -
  have "char_of (56 :: nat) = CHR ''8''"
    by (rule of_char_eqI [where ?'a = nat]) simp
  then show ?thesis by (simp add: json_int_def decimal.simps)
qed

lemma demo_over_valid:
  "valid demo_digest defaultLimits (Row_event demo_over_event) = None"
  "valid demo_digest defaultLimits (Row_session (demo_over_session 9)) = None"
  "valid demo_digest defaultLimits (Row_session (demo_over_session 10)) = None"
  by (intro row_validI; simp add: demo_over_event_def demo_defs row_eval is_safe_integer_def max_safe_def json_int_def decimal.simps
      byteLength_Cons utf8_char_def schema_eval)+

lemma demo_over_run: "retireSession demo_env defaultLimits demo_done 8 ''g1'' = Inr demo_over"
proof -
  have head: "demo_session 8 8\<lparr>status := Retired, revision := 9, lastSequence := 9\<rparr> = demo_over_session 9"
    by (simp add: demo_session_def)
  have ev: "retirement_event demo_env (demo_over_session 9) k 8 ''g1'' = demo_over_event" for k
    by (simp add: retirement_event_def demo_derive print_eight demo_over_event_def)
  have "\<not> retire_blocked demo_done"
    by (simp add: retire_blocked_def unsettled_work_def demo_done_sel commandsInStates_def in_states_def live_states_def
      jm_values_def interactionsForCommand_def deliveriesInStates_def in_statuses_def undelivered_def demo_row_as_sel demo_record_def)
  moreover have "checkState (ws_session demo_done) False 8 ''g1'' = None"
    by (simp add: checkState_None demo_done_sel demo_active) (simp add: demo_defs providerStage_def)
  ultimately show ?thesis
    using demo_over_valid by (simp add: retireSession_def reduceRetirement_def Let_def demo_done_sel head ev namespaceKey_def demo_over_def)
qed

section \<open>A late delivery commit\<close>

definition demo_late_row :: delivery where
  "demo_late_row = (demo_row_as Delivered)\<lparr>attempts := 3\<rparr>"

definition demo_late :: commit_batch where
  "demo_late = delivery_batch demo_ns 5 (demo_over_session 9) ''g1'' demo_late_row []"

definition demo_late_over :: workspace where
  "demo_late_over = demo_over\<lparr>ws_session := demo_over_session 10, ws_deliveries := [(''c1'', demo_late_row)]\<rparr>"

lemma demo_late_row_valid: "valid demo_digest defaultLimits (Row_delivery demo_late_row) = None"
  by (intro row_validI; simp add: demo_late_row_def demo_row_as_def demo_row_def demo_defs row_eval json_of_delivery_def schema_delivery_def
      is_safe_integer_def max_safe_def json_int_def decimal.simps byteLength_Cons utf8_char_def schema_eval)

lemma demo_late_row_sel: "operationId demo_late_row = ''c1''" "dl_eventId demo_late_row = ''e4''" "target demo_late_row = ''r1''"
  "dl_namespace demo_late_row = demo_ns" "dl_contentHash demo_late_row = replicate 64 (CHR ''a'')" "attempts demo_late_row = 3"
  "dl_retry demo_late_row = Retry_reconcile_first" "dl_status demo_late_row = Delivered"
  by (simp_all add: demo_late_row_def demo_row_as_sel)

lemma demo_over_head: "(demo_over_session a)\<lparr>revision := r, lastSequence := 9\<rparr> = demo_over_session r"
  "revision (demo_over_session r) = r" "lastSequence (demo_over_session r) = 9" "status (demo_over_session r) = Retired"
  "ss_namespace (demo_over_session r) = demo_ns" "activeStage (demo_over_session r) = Inr demo_stage"
  by (simp_all add: demo_session_def activeStage_def providerStage_def demo_binding_def)

lemma demo_late_sel: "cb_providerFacts demo_late = []" "cb_namespace demo_late = demo_ns" "cb_expectedRevision demo_late = 9"
  "cb_expectedGeneration demo_late = ''g1''" "cb_session demo_late = demo_over_session 10" "cb_commands demo_late = []"
  "cb_events demo_late = []" "cb_interactions demo_late = []" "cb_deliveries demo_late = [demo_late_row]" "cb_surfaces demo_late = []"
  "cb_nowMs demo_late = Some 5"
  by (simp_all add: demo_late_def delivery_batch_def demo_over_head)

lemma demo_over_sel: "ws_session demo_over = demo_over_session 9" "ws_deliveries demo_over = [(''c1'', demo_row_as Delivered)]"
  "ws_events demo_over = ws_events demo_dispatching @ [demo_request, demo_receipt_event] @ cb_events demo_finishing @ [demo_over_event]"
  "ws_commands demo_over = [(''p1'', demo_record (Terminal (demo_attempt Submitted) Completed))]"
  "ws_interactions demo_over = []" "ws_surfaces demo_over = []" "ws_generations demo_over = [''g1'']"
  by (simp_all add: demo_over_def demo_done_sel demo_rec_sel)

lemma demo_late_body: "commit_body demo_env defaultLimits demo_over demo_late False demo_stage [] = Inr demo_late_over"
  by (simp add: demo_late_sel demo_over_sel demo_late_over_def demo_receipt_event_sel demo_request_sel demo_row_as_sel demo_late_row_sel
      demo_fingerprint delivery_eval demo_eval)

lemma demo_late_run: "commitSession demo_env defaultLimits demo_over demo_late = Inr demo_late_over"
proof -
  have "isDeliveryCommit demo_over demo_late"
    by (simp add: isDeliveryCommit_def demo_late_sel demo_over_sel demo_over_head demo_late_row_sel jm_has_def jm_get_def)
  moreover have "checkState (ws_session demo_over) True 9 ''g1'' = None"
    by (simp add: checkState_None demo_over_sel demo_over_head demo_active) (simp add: providerStage_def)
  moreover have "rows_check demo_env defaultLimits demo_late = None"
    using demo_over_valid demo_late_row_valid by (simp add: rows_check_def batch_rows_def demo_late_sel)
  moreover have "coordinates_check demo_over demo_late True False = None"
    by (simp add: coordinates_check_def demo_late_sel demo_over_sel demo_over_head other_namespace_self)
  moreover have "stage_check demo_over demo_late demo_stage = None"
    by (simp add: stage_check_def demo_late_sel demo_over_sel demo_over_head demo_active) (simp add: demo_session_def)
  ultimately show ?thesis
    using demo_late_body by (simp add: commitSession_def reduceCommit_def demo_late_sel demo_over_sel demo_over_head demo_active collect_facts_def)
qed

lemma reachable_over: "reachable demo_dispatching \<Longrightarrow> reachable demo_over"
proof -
  have commit: "session_step st st'" if "reduceCommit demo_env defaultLimits st b False False = Inr st'" for st b st'
    by (rule Commit [of demo_env defaultLimits _ b]) (simp add: commitSession_def that)
  assume "reachable demo_dispatching"
  then have "reachable (demo_out 3 0)" by (rule Stepped [OF _ commit [OF demo_filing_run]])
  then have "reachable (demo_out 4 1)" using Stepped [OF _ commit [OF demo_marking_run [of 0]]] by simp
  then have "reachable (demo_out 5 2)" using Stepped [OF _ commit [OF demo_marking_run [of 1]]] by (simp add: eval_nat_numeral)
  then have "reachable (demo_rec 6 Receipt_recorded)" by (rule Stepped [OF _ commit [OF demo_recording_run]])
  then have "reachable (demo_rec 7 Delivered)" by (rule Stepped [OF _ commit [OF demo_settling_run]])
  then have "reachable demo_done" by (rule Stepped [OF _ commit [OF demo_finishing_run]])
  then show ?thesis by (rule Stepped [OF _ Retire [OF demo_over_run]])
qed

end
