(* ===== verification/Spec2Isabelle.thy ===== *)
theory Spec2Isabelle
  imports Component_Guarantees Session_Suspension Store_Overlay Store_Guarantees Connection_Guarantees
    Reading_Guarantees Recovery_Guarantees Admission_Guarantees Delivery_Guarantees Session_Finality Retired_Demo
begin

text \<open>
  Verification of the AI session core of RSS MDM agent: the contract package that defines sessions
  and their transitions, the SQLite store that keeps them, the paged reads of that store, and the
  client's projection that shows them.

  \<^bold>\<open>Parts and how they meet.\<close> A host keeps one session per namespace. Its whole state is a workspace of
  rows (session, commands, events, interactions, deliveries, surfaces, generations); the reducers of
  \<^verbatim>\<open>packages/ai-contract/src/transitions.ts\<close> map a workspace and an input to the next workspace or a
  failure. The durable store \<^verbatim>\<open>packages/ai-store-sqlite/src/index.ts\<close> runs a reducer inside a database
  transaction over a lazily read overlay of the session's rows and writes back the difference. Readers
  page through immutable captures of the store (\<^verbatim>\<open>packages/ai-contract/src/read-views.ts\<close>); a client
  (\<^verbatim>\<open>packages/ai-client/src/client.ts\<close>, \<^verbatim>\<open>projection.ts\<close>) restores its view from those pages and then
  follows live events. A starting host (\<^verbatim>\<open>packages/ai-host/src/index.ts\<close>) scans the store for unfinished
  work. Its outbox (\<^verbatim>\<open>packages/ai-host/src/delivery.ts\<close>) files tool calls in the store, sends them to a
  receiver and records what comes back.

  \<^bold>\<open>Theories and sources.\<close>
  \<^item> \<open>Session_Prelude\<close>: guard lists (\<open>first_exit\<close>), early returns (\<open>unless_exit\<close>, \<open>and_then\<close>), loops that
    may leave (\<open>loop_exit\<close>), the insertion-ordered \<^verbatim>\<open>Map\<close> (\<open>jsmap\<close>), failures and results.
  \<^item> \<open>Json_Codec\<close> (\<^verbatim>\<open>codec.ts\<close>, \<^verbatim>\<open>results.ts\<close>), \<open>Wire_Types\<close> (\<^verbatim>\<open>wire.ts\<close>), \<open>Wire_Codec\<close> (schema and context
    checks of \<^verbatim>\<open>codec.ts\<close>, \<^verbatim>\<open>validate-id.ts\<close>), \<open>Wire_Decode\<close> (the whole of \<^verbatim>\<open>decode\<close>),
    \<open>Surface_Check\<close> (\<^verbatim>\<open>a2ui.ts\<close>).
  \<^item> \<open>Session_Contexts\<close> (\<^verbatim>\<open>contexts.ts\<close>, \<^verbatim>\<open>history.ts\<close>), \<open>Provider_Facts\<close>, \<open>Provider_Admission\<close>
    (\<^verbatim>\<open>session.ts\<close>, \<^verbatim>\<open>ports.ts\<close>),
    \<open>Connections\<close> (\<^verbatim>\<open>connections.ts\<close>).
  \<^item> \<open>Session_Rows\<close>, \<open>Session_View\<close> (\<^verbatim>\<open>session-mutation.ts\<close>): rows a reducer reads and writes, and queries that
    merge pending writes into what a source returns. Two of the interfaces are locales here: \<open>writable_rows\<close>, what a
    reducer relies on when it writes, interpreted on plain maps and on transaction overlays; and
    \<open>session_source\<close>, what the merged queries rely on, interpreted on the in-memory workspace and, in
    \<open>Sqlite_Facts\<close>, on the scoped SQL queries.
  \<^item> \<open>Session_Rules\<close>, \<open>Commit_Commands\<close>, \<open>Commit_Rows\<close>, \<open>Session_Commit\<close>, \<open>Session_Transitions\<close>
    (\<^verbatim>\<open>transitions.ts\<close>): \<open>createState\<close>, \<open>acceptCommand\<close>, \<open>commitSession\<close>, \<open>rebindSession\<close>,
    \<open>recoverUnavailable\<close>, \<open>suspendSession\<close>, \<open>retireSession\<close>, \<open>selectConnection\<close>, \<open>activateStage\<close>, \<open>canPrune\<close>,
    each guard in the order of the source.
  \<^item> \<open>Commit_Facts\<close>, \<open>Session_Invariant\<close>, \<open>Session_Sweep\<close>, \<open>Session_Reach\<close>, \<open>Session_Suspension\<close>,
    \<open>Session_Finality\<close>: what a commit's loops establish row by row, the workspace invariant, the transitions
    as the step relation \<open>session_step\<close> with its reachable states, what handoffs and suspensions leave
    behind, what still moves in a retired session, and what a first dispatch requires.
  \<^item> \<open>Sqlite_Tables\<close>, \<open>Sqlite_Store\<close>, \<open>Sqlite_Connections\<close>, \<open>Store_Reads\<close> (the store's \<^verbatim>\<open>index.ts\<close>,
    \<^verbatim>\<open>schema.ts\<close>, \<^verbatim>\<open>launch-fence.ts\<close>): tables with their keys, the transaction, every operation of
    \<^verbatim>\<open>SqliteSessionStore\<close>. \<open>Sqlite_Facts\<close>, \<open>Session_Growth\<close>, \<open>Store_Reach\<close>, \<open>Store_Steps\<close>,
    \<open>Store_Overlay\<close>, \<open>Connection_History\<close>: writing back the difference is exact, the database invariant,
    the store's step relations \<open>store_write_of\<close> and \<open>store_step_of\<close> (with closing and restarting), whose
    parameter \<open>creates\<close> says which sessions are created; \<open>store_step\<close> and \<open>reachable_store\<close> are the instances
    in which they have at most one stage (\<open>single_stage\<close>), as the host's do. The store itself accepts more, and
    \<open>staged_creation_loses_generation\<close> shows what then goes wrong. \<open>Store_Overlay\<close> compares every query and
    every pending write of the transaction overlay with the workspace written in place (\<open>perform\<close>,
    \<open>write_through\<close>).
  \<^item> \<open>Read_Views\<close>, \<open>Snapshot_Pages\<close> (\<^verbatim>\<open>read-views.ts\<close>), \<open>Client_Projection\<close> (\<^verbatim>\<open>projection.ts\<close> and the paging
    of \<^verbatim>\<open>client.ts\<close>). \<open>View_Paging\<close>, \<open>Client_Facts\<close>, \<open>Client_Stream\<close>, \<open>Client_Restore\<close>, \<open>Store_Paging\<close>,
    \<open>Keyset_Paging\<close>: continuations survive until they expire, streamed text leaves no durable trace,
    received pages add up to the snapshot, a restore over the live store, cursors and the recovery scan
    of \<^verbatim>\<open>ai-host/src/index.ts\<close>. The pages of one snapshot that are answered in turn are the relation
    \<open>served_page\<close> of \<open>Reading_Guarantees\<close>. The loop that follows continuations (\<open>fetch\<close>) is one lemma of the locale
    \<open>paged_source\<close>, interpreted on the views' continuations and on the keyset cursors.
  \<^item> \<open>Delivery_Outbox\<close> (\<^verbatim>\<open>delivery.ts\<close>, \<^verbatim>\<open>deadline.ts\<close>): the flight of one tool call as a machine of
    phases over the store (\<open>flight_step\<close>), and \<open>outbox_step\<close>, in which other users, sweeps and crashes come
    between. \<open>Delivery_Facts\<close>: deliveries only advance, and the invariant of calls and phases.
  \<^item> \<open>Session_Demo\<close>, \<open>Session_Demo_Handoff\<close>, \<open>Store_Demo\<close>, \<open>Reading_Demo\<close>, \<open>Delivery_Demo\<close>,
    \<open>Delivery_Demo_Receipt\<close>, \<open>Retired_Demo\<close>: one concrete session, in memory, in the store, read back,
    delivering, and receiving a late delivery after its retirement, on which the theorems are applied.
  \<^item> The guarantees: this theory (transitions), \<open>Component_Guarantees\<close> (codec, surfaces, evidence, previews),
    \<open>Admission_Guarantees\<close> (provider sessions),
    \<open>Store_Guarantees\<close>, \<open>Store_Overlay\<close>, \<open>Connection_Guarantees\<close> (the store), \<open>Reading_Guarantees\<close>,
    \<open>Client_Guarantees\<close>, \<open>Recovery_Guarantees\<close> (its readers), \<open>Delivery_Guarantees\<close> (the outbox).

  \<^bold>\<open>How the model corresponds.\<close> A TypeScript interface is a record, a discriminated union a datatype, a
  \<^verbatim>\<open>Result\<close> or a throw a sum whose left side is the failure, an \<^verbatim>\<open>async\<close> method of the store a function from
  the store to an answer and the next store (they run to completion: \<^verbatim>\<open>DatabaseSync\<close> is synchronous). A
  number the schema declares a counter is an \<open>int\<close> with the safe-integer bound checked where the code
  checks it. Strings that are identifiers are \<open>string\<close>; text that may hold any character is a list of code
  points, measured in code points or UTF-8 bytes as the code does. A class with
  private fields is a record of those fields; iteration over a \<^verbatim>\<open>Map\<close> is in insertion order.

  \<^bold>\<open>Abstract specifications.\<close> The store refines a map from namespaces to workspaces with a set of spent
  namespaces (\<open>Store_Guarantees\<close>); lazy overlays refine eager workspaces (\<open>Store_Overlay\<close>); paging refines
  reading the captured list (\<open>View_Paging\<close>); a client's restore refines projecting one stored workspace
  (\<open>workspace_view\<close>), and its later view the replay of the event log.

  \<^bold>\<open>Bounds and fuel.\<close> The surface graph is searched to the depth 25 the code allows, one level of fuel for
  each; the page loop of a restore has the code's own limit of 4096 requests; the recovery scan has no limit in
  the code, and \<open>recovery_names_sessions\<close> shows that one request more than there are unsettled commands
  is enough. All other recursions are structural or have a proved measure (the halving of a page).

  \<^bold>\<open>Parameters.\<close> Code outside the repository is an argument of the definitions that use it: SHA-256 over
  canonical JSON (\<open>env_digest\<close>), the compiled A2UI message schema (\<open>env_message_ok\<close>), the tokens of
  \<^verbatim>\<open>jsonc-parser\<close> and \<^verbatim>\<open>JSON.parse\<close>, the evidence a process has filed (\<open>env_evidence\<close>), what a
  provider's port, fork extension and tool verifier answer, the URL check and the control-character class
  of connections, the identifiers of \<^verbatim>\<open>crypto.randomUUID\<close> (\<open>id_supply\<close>: the
  drawn ones are distinct identifiers), the clock. \<open>parses_ids\<close> says that \<^verbatim>\<open>JSON.parse\<close> reads back a printed
  list of identifiers. The compiled record validator is a parameter of \<open>decode\<close>; the round trip assumes that it
  accepts a row's document exactly when the row meets the schema (\<open>schema_row\<close>). \<open>served\<close> states the
  environment of a client's restore: the transport hands a page the host returned to the client, or some
  failure, the session is readable at every request, and all requests fall within one view's 30 seconds;
  \<open>pageable\<close> bounds the session to 4095 records, each of which fits a page. A continuation of a snapshot
  likewise needs the session to be readable and its records to fit. The theorems about a \<open>reachable_store\<close>
  are about stores whose sessions were created with at most one stage. The answers of a delivery's
  router and authorizer, the clock and its deadlines are drawn anew in each \<open>turn\<close>.

  \<^bold>\<open>Not modelled.\<close> The rest of the host runtime, the access service and the
  remaining methods of the client interleave promises, timers, abort signals and processes around the
  operations above; of the outbox, a sweep's read of a row and the start of its flight are one step;
  provider adapters translate streams of third-party SDKs; operations and catalogues are presentation
  data; the desktop application and the UI bridge are user interface; validators and bindings are
  generated; the Rust services are another program. SQLite itself is represented by its tables: file
  handling, pragmas and native error codes are left out, and a transaction that fails leaves the
  tables unchanged.
\<close>

section \<open>The demonstration session is reachable\<close>

lemma reachable_demo:
  "reachable demo_created" "reachable demo_accepted" "reachable demo_dispatching"
  "reachable demo_finished" "reachable demo_retired"
proof -
  show c: "reachable demo_created" by (rule Created [OF demo_create])
  show a: "reachable demo_accepted" by (rule Stepped [OF c Accept [OF demo_accept_run]])
  have "commitSession demo_env defaultLimits demo_accepted demo_dispatch = Inr demo_dispatching"
    by (simp add: commitSession_def demo_dispatch_run)
  then show d: "reachable demo_dispatching" by (rule Stepped [OF a Commit])
  have "commitSession demo_env defaultLimits demo_dispatching demo_terminal = Inr demo_finished"
    by (simp add: commitSession_def demo_terminal_run)
  then show f: "reachable demo_finished" by (rule Stepped [OF d Commit])
  show "reachable demo_retired" by (rule Stepped [OF f Retire [OF demo_retire_run]])
qed

lemma demo_terminal_step: "session_step demo_dispatching demo_finished"
  by (rule Commit [of demo_env defaultLimits _ demo_terminal]) (simp add: commitSession_def demo_terminal_run)

section \<open>Commits\<close>

text \<open>The run behind a successful public commit.\<close>

lemma commitSession_run:
  assumes "commitSession e lim st b = Inr st'"
  obtains cur facts lp copy1 copy2 ixs copy3 copy4 ss where
    "commit_run e lim st b False False cur facts lp copy1 copy2 ixs copy3 copy4 ss" "st' = applied st b"
  using assms by (auto simp: commitSession_def commit_run_applied(1) elim: reduceCommit_run)

text \<open>
  C1. A successful commit is exactly the upsert of its batch: the rows of the batch replace or
  join the rows of the workspace, the events are appended, the revision advances by one and
  the sequence by the number of events, and namespace and status do not move.
\<close>

theorem commit_effect:
  assumes "commitSession e lim st b = Inr st'"
  shows "st' = applied st b \<and> revision (ws_session st') = revision (ws_session st) + 1 \<and>
    lastSequence (ws_session st') = lastSequence (ws_session st) + int (length (cb_events b)) \<and>
    status (ws_session st') = status (ws_session st) \<and>
    ss_namespace (ws_session st') = ss_namespace (ws_session st)"
  using assms
proof (rule commitSession_run)
  fix cur facts lp copy1 copy2 ixs copy3 copy4 ss
  assume "commit_run e lim st b False False cur facts lp copy1 copy2 ixs copy3 copy4 ss" "st' = applied st b"
  then show ?thesis using run_head(5,7,8) run_status by (simp add: applied_def)
qed

theorem commit_effect_witness: "demo_finished = applied demo_dispatching demo_terminal \<and>
  revision (ws_session demo_finished) = revision (ws_session demo_dispatching) + 1"
  using commit_effect [of demo_env defaultLimits demo_dispatching demo_terminal demo_finished]
  by (simp add: commitSession_def demo_terminal_run)

text \<open>
  C2. A command cannot become submitted, running or terminal on the caller's word: a commit
  that makes it so carries a fact proof whose evidence was filed for this command, for this
  namespace, by the provider identity of the active stage, and that evidence says so.
\<close>

theorem progress_needs_evidence:
  assumes commit: "commitSession e lim st b = Inr st'"
    and old: "jm_get (ws_commands st) k = Some old" and new: "jm_get (ws_commands st') k = Some c"
    and progress: "submitted c \<and> \<not> submitted old \<or> state_of c = T_running \<and> state_of old \<noteq> T_running \<or>
      state_of c = T_terminal \<and> state_of old \<noteq> T_terminal"
  shows "\<exists>p ev cur. p \<in> set (cb_providerFacts b) \<and> pf_commandId p = k \<and>
    find_evidence (env_evidence e) p = Some ev \<and> ed_namespace ev = ss_namespace (ws_session st) \<and>
    evidence_matches ev old \<and> activeStage (ws_session st) = Inr cur \<and>
    ed_binding ev = providerIdentity (stage_binding cur) \<and> proves_submission (Some (ed_observation ev))"
  using commit
proof (rule commitSession_run)
  fix cur facts lp copy1 copy2 ixs copy3 copy4 ss
  assume r: "commit_run e lim st b False False cur facts lp copy1 copy2 ixs copy3 copy4 ss"
    and st': "st' = applied st b"
  have c: "c \<in> set (cb_commands b)" "record_id c = k"
    using new old progress st' by (auto elim: applied_command_cases)
  have "provider_gate c (Some old) (jm_get facts k) = None"
    using run_command [OF r c(1) refl refl] by (metis old c(2))
  then have proves: "proves_submission (jm_get facts k)"
    using progress by (auto simp: provider_gate_def was_in_def)
  then obtain obs where obs: "jm_get facts k = Some obs"
    by (auto simp: proves_submission_def split: option.splits)
  obtain p row where "p \<in> set (cb_providerFacts b)" "pf_commandId p = k" "jm_get (ws_commands st) k = Some row"
    "providerFactFor (env_evidence e) p (ws_session st) row = Inr (Some obs)"
    using collect_facts_sound [OF run_head(15) [OF r] obs] by blast
  then show ?thesis
    using proves obs old
    by (intro exI [of _ p]) (auto simp: providerFactFor_def split: option.splits if_splits)
qed

theorem progress_needs_evidence_witness:
  "\<exists>p \<in> set (cb_providerFacts demo_terminal). find_evidence (env_evidence demo_env) p \<noteq> None"
proof -
  have run: "commitSession demo_env defaultLimits demo_dispatching demo_terminal = Inr demo_finished"
    by (simp add: commitSession_def demo_terminal_run)
  have old: "jm_get (ws_commands demo_dispatching) ''p1'' = Some (demo_record (Dispatching (demo_attempt Intent)))"
    by (simp add: demo_dispatching_simp jm_get_def)
  have new: "jm_get (ws_commands demo_finished) ''p1'' = Some (demo_record (Terminal (demo_attempt Submitted) Completed))"
    by (simp add: demo_finished_simp jm_get_def)
  show ?thesis
    using progress_needs_evidence [OF run old new] by (auto simp: demo_record_def)
qed

section \<open>Reachable workspaces\<close>

text \<open>
  C3. Every workspace reachable by the session's transitions is well formed: rows under their
  own keys, a contiguous event log of the session's namespace about known commands, the
  generations of all stages on record, running and terminal commands submitted, at most one
  open turn, interactions and surfaces hanging off submitted commands and closed once those
  settle, and callback identifiers unique per generation.
\<close>

theorem reachable_well_formed: "reachable st \<Longrightarrow> ws_inv st"
  by (rule reachable_inv)

theorem reachable_well_formed_witness: "ws_inv demo_retired"
  by (rule reachable_well_formed [OF reachable_demo(5)])

text \<open>
  C4. What is durable stays: from any reachable workspace, over any number of transitions, a
  command keeps its content and its receipt, a settled command never changes again, and a
  submission is permanent together with its attempt.
\<close>

theorem command_history_frozen:
  assumes "reachable st" "session_step\<^sup>*\<^sup>* st st'" "jm_get (ws_commands st) k = Some c"
  shows "\<exists>c'. jm_get (ws_commands st') k = Some c' \<and> cr_command c' = cr_command c \<and> cr_receipt c' = cr_receipt c \<and>
    (isSettled c \<longrightarrow> c' = c) \<and>
    (submitted c \<longrightarrow> submitted c' \<and> map_option attemptId (dispatch c') = map_option attemptId (dispatch c))"
proof -
  have "table_succeeds record_succeeds (ws_commands st) (ws_commands st')"
    using steps_ok [OF assms(2)] reachable_inv [OF assms(1)] by (simp add: preserves_def ws_succeeds_def)
  from table_succeedsD [OF this assms(3)] show ?thesis by (auto simp: record_succeeds_def)
qed

theorem command_history_frozen_witness:
  "\<exists>c'. jm_get (ws_commands demo_finished) ''p1'' = Some c' \<and> cr_receipt c' = demo_receipt"
  using command_history_frozen [OF reachable_demo(3) r_into_rtranclp [of session_step, OF demo_terminal_step],
      of "''p1''" "demo_record (Dispatching (demo_attempt Intent))"]
  by (auto simp: demo_dispatching_simp jm_get_def demo_record_def)

text \<open>
  C5. The event log only grows, and stays the gapless sequence 1, 2, 3 up to the session's
  last sequence number.
\<close>

theorem event_log_append_only:
  assumes "reachable st" "session_step\<^sup>*\<^sup>* st st'"
  shows "(\<exists>es. ws_events st' = ws_events st @ es) \<and> lastSequence (ws_session st') = int (length (ws_events st')) \<and>
    (\<forall>i < length (ws_events st'). sequence (ws_events st' ! i) = int i + 1)"
proof -
  have "ws_succeeds st st'" and inv: "ws_inv st'"
    using steps_ok [OF assms(2)] reachable_inv [OF assms(1)] by (simp_all add: preserves_def)
  moreover have "events_ok st'" using inv by (simp add: ws_inv_def)
  ultimately show ?thesis by (simp add: ws_succeeds_def events_ok_def)
qed

theorem event_log_append_only_witness: "lastSequence (ws_session demo_finished) = int (length (ws_events demo_finished))"
  using event_log_append_only [OF reachable_demo(3) r_into_rtranclp [of session_step, OF demo_terminal_step]] by simp

text \<open>
  C6. One turn at a time. In a reachable workspace at most one queued (\<^verbatim>\<open>queue_next\<close>) prompt is
  dispatched and unsettled, however the transitions interleave: that one is the open turn. Steering
  prompts are not turns and may be out beside it, so the commit that dispatches a prompt for the
  first time is constrained by its policy: a queued prompt goes out only when no other prompt, of
  either policy, is dispatched and unsettled; a steering prompt goes out only into the one open
  turn, already submitted and running under the native run the prompt names.
\<close>

theorem one_turn_in_flight:
  assumes reach: "reachable st"
  shows "(\<forall>k l c d. jm_get (ws_commands st) k = Some c \<and> jm_get (ws_commands st) l = Some d \<and>
      open_turn c \<and> open_turn d \<longrightarrow> k = l) \<and>
    (\<forall>e lim b st' k c0 c d. commitSession e lim st b = Inr st' \<and> jm_get (ws_commands st) k = Some c0 \<and>
      dispatch c0 = None \<and> jm_get (ws_commands st') k = Some c \<and> dispatch c = Some d \<longrightarrow>
      (queue_next (input_of (cr_command c)) \<longrightarrow>
        (\<forall>l r. jm_get (ws_commands st) l = Some r \<and> is_prompt (input_of (cr_command r)) \<and> dispatch r \<noteq> None \<longrightarrow> isSettled r)) \<and>
      (\<forall>t run h. input_of (cr_command c) = Prompt t Steer run h \<longrightarrow>
        (\<exists>l r d'. jm_get (ws_commands st) l = Some r \<and> open_turn r \<and> dispatch r = Some d' \<and>
          certainty_of d' = Submitted \<and> da_nativeRunId d' = run \<and> da_nativeRunId d = run)))"
proof (intro conjI allI impI; elim conjE)
  have len: "length (filter open_turn (jm_values (ws_commands st))) \<le> 1" and wk: "keyed record_id (ws_commands st)"
    using reachable_inv [OF reach] by (auto simp: ws_inv_def commands_ok_def ws_keyed_def)
  fix k l c d
  assume a: "jm_get (ws_commands st) k = Some c" "jm_get (ws_commands st) l = Some d" "open_turn c" "open_turn d"
  then have "c \<in> set (filter open_turn (jm_values (ws_commands st)))" "d \<in> set (filter open_turn (jm_values (ws_commands st)))"
    using jm_values_get by fastforce+
  then have "c = d" using len by (cases "filter open_turn (jm_values (ws_commands st))") (auto simp: Suc_le_eq)
  then show "k = l" using keyed_get [OF wk] a(1,2) by metis
next
  fix e lim b st' k c0 c d l r
  assume a: "commitSession e lim st b = Inr st'" "jm_get (ws_commands st) k = Some c0" "dispatch c0 = None"
    "jm_get (ws_commands st') k = Some c" "dispatch c = Some d" "queue_next (input_of (cr_command c))"
    "jm_get (ws_commands st) l = Some r" "is_prompt (input_of (cr_command r))" "dispatch r \<noteq> None"
  then show "isSettled r" using queued_dispatch_alone [OF reach] by blast
next
  fix e lim b st' k c0 c d t run h
  assume "commitSession e lim st b = Inr st'" "jm_get (ws_commands st) k = Some c0" "dispatch c0 = None"
    "jm_get (ws_commands st') k = Some c" "dispatch c = Some d" "input_of (cr_command c) = Prompt t Steer run h"
  then show "\<exists>l r d'. jm_get (ws_commands st) l = Some r \<and> open_turn r \<and> dispatch r = Some d' \<and>
      certainty_of d' = Submitted \<and> da_nativeRunId d' = run \<and> da_nativeRunId d = run"
    using steering_dispatch_target [OF reach] by blast
qed

theorem one_turn_in_flight_witness:
  "{l. \<exists>d. jm_get (ws_commands demo_dispatching) l = Some d \<and> open_turn d} = {''p1''} \<and>
   {l. \<exists>r. jm_get (ws_commands demo_accepted) l = Some r \<and> is_prompt (input_of (cr_command r)) \<and> dispatch r \<noteq> None \<and>
     \<not> isSettled r} = {}"
proof
  let ?c = "demo_record (Dispatching (demo_attempt Intent))"
  have new: "jm_get (ws_commands demo_dispatching) ''p1'' = Some ?c" "open_turn ?c" "dispatch ?c = Some (demo_attempt Intent)"
    "queue_next (input_of (cr_command ?c))"
    by (simp_all add: demo_dispatching_simp jm_get_def demo_record_def open_turn_def demo_prompt_def isSettled_def settled_state_def)
  then show "{l. \<exists>d. jm_get (ws_commands demo_dispatching) l = Some d \<and> open_turn d} = {''p1''}"
    using one_turn_in_flight [OF reachable_demo(3), THEN conjunct1] by blast
  have "commitSession demo_env defaultLimits demo_accepted demo_dispatch = Inr demo_dispatching"
    by (simp add: commitSession_def demo_dispatch_run)
  moreover have "jm_get (ws_commands demo_accepted) ''p1'' = Some (demo_record Accepted)" "dispatch (demo_record Accepted) = None"
    by (simp_all add: demo_accepted_def demo_created_def jm_get_def demo_record_def)
  ultimately show "{l. \<exists>r. jm_get (ws_commands demo_accepted) l = Some r \<and> is_prompt (input_of (cr_command r)) \<and> dispatch r \<noteq> None \<and>
     \<not> isSettled r} = {}"
    using one_turn_in_flight [OF reachable_demo(2), THEN conjunct2] new by blast
qed

section \<open>Acceptance\<close>

text \<open>
  C7. Acceptance is idempotent: once a command is accepted, a replay of it to any later workspace of the
  session, whatever became of the command (dispatched, settled, swept) and of the session (rebound,
  suspended, on its next stage, retired), under any expected revision, generation, event identifier,
  retention and provider evidence, and at any time within the receipt window, changes nothing and
  returns the receipt of the acceptance.
\<close>

theorem accept_replay:
  assumes reach: "reachable st" and accepted: "acceptCommand e lim st inp = Inr (st', r)"
    and later: "session_step\<^sup>*\<^sup>* st' st''"
    and again: "ai_command inp' = ai_command inp" "ai_namespace inp' = ai_namespace inp" "isId (ai_eventId inp')"
      "env_digest e' = env_digest e"
    and time: "is_safe_integer (ai_nowMs inp')" "0 \<le> ai_nowMs inp'" "ai_nowMs inp' \<le> receiptUntilMs r"
  shows "acceptCommand e' lim st'' inp' = Inr (st'', r)"
proof -
  let ?k = "commandId (ai_command inp)" and ?hash = "env_digest e (json_of_command (ai_command inp))"
  have red: "reduceAcceptance e lim st inp False = Inr (st', r)" using accepted by (simp add: acceptCommand_def)
  then have head: "accept_head e lim st inp = None" and fp: "fingerprint (env_digest e) lim (ai_command inp) = Inr ?hash"
    by (auto simp: reduceAcceptance_def accept_head_def fingerprint_def)
  have run: "session_step\<^sup>*\<^sup>* st st''" using Accept [OF accepted] later by (rule converse_rtranclp_into_rtranclp)
  have "ws_inv st'" using Stepped [OF reach Accept [OF accepted]] by (rule reachable_inv)
  then have "table_succeeds record_succeeds (ws_commands st') (ws_commands st'')"
    using steps_ok [OF later] by (simp add: preserves_def ws_succeeds_def)
  moreover obtain c where "jm_get (ws_commands st') ?k = Some c" "cr_receipt c = r" "contentHash r = ?hash"
    using accepted_row [OF accepted] by blast
  ultimately obtain c' where c': "jm_get (ws_commands st'') ?k = Some c'" "cr_receipt c' = r" "contentHash r = ?hash"
    using table_succeedsD by (fastforce simp: record_succeeds_def)
  have "ss_namespace (ws_session st'') = ss_namespace (ws_session st)"
    using steps_ok [OF run] reachable_inv [OF reach] by (simp add: preserves_def ws_succeeds_def)
  then show ?thesis
    using head fp again time c' by (auto simp: acceptCommand_def reduceAcceptance_def accept_head_def)
qed

theorem accept_replay_witness: "acceptCommand (demo_env\<lparr>env_evidence := []\<rparr>) defaultLimits demo_retired
    (demo_accept\<lparr>ai_nowMs := 150, ai_eventId := ''e9'', ai_expectedRevision := 7\<rparr>) = Inr (demo_retired, demo_receipt)"
proof (rule accept_replay [OF reachable_demo(1) demo_accept_run])
  have "session_step demo_accepted demo_dispatching"
    by (rule Commit [of demo_env defaultLimits _ demo_dispatch]) (simp add: commitSession_def demo_dispatch_run)
  then show "session_step\<^sup>*\<^sup>* demo_accepted demo_retired"
    using demo_terminal_step Retire [OF demo_retire_run]
    by (blast intro: converse_rtranclp_into_rtranclp)
  show "isId (ai_eventId (demo_accept\<lparr>ai_nowMs := 150, ai_eventId := ''e9'', ai_expectedRevision := 7\<rparr>))"
    by (simp add: isId_def id_char_def alphanumeric_def Let_def)
qed (simp_all add: is_safe_integer_def max_safe_def demo_receipt_def)

text \<open>
  Reusing a command identifier for different content is a conflict: whatever else the input says,
  the workspace is not touched and the answer is never retryable.
\<close>

theorem accept_conflict:
  assumes "accept_head e lim st inp = None" "jm_get (ws_commands st) (commandId (ai_command inp)) = Some prior"
    and "contentHash (cr_receipt prior) \<noteq> env_digest e (json_of_command (ai_command inp))"
  shows "acceptCommand e lim st inp = Inl (fail_with Content_conflict Never)"
proof -
  have "fingerprint (env_digest e) lim (ai_command inp) = Inr (env_digest e (json_of_command (ai_command inp)))"
    using assms(1) by (simp add: accept_head_def fingerprint_def)
  then show ?thesis using assms by (simp add: acceptCommand_def reduceAcceptance_def guarded_def del: first_exit_None)
qed

theorem accept_conflict_witness:
  "acceptCommand (demo_env\<lparr>env_digest := (\<lambda>j. replicate 64 (CHR ''b''))\<rparr>) defaultLimits demo_accepted demo_accept =
     Inl (fail_with Content_conflict Never)"
proof (rule accept_conflict)
  show "jm_get (ws_commands demo_accepted) (commandId (ai_command demo_accept)) = Some (demo_record Accepted)"
    by (simp add: demo_accepted_def demo_accept_def demo_prompt_def jm_get_def)
  have "valid (\<lambda>j. replicate 64 (CHR ''b'')) defaultLimits (Row_command demo_prompt) = None"
    by (intro row_validI) (simp_all add: demo_row_eval)
  then show "accept_head (demo_env\<lparr>env_digest := (\<lambda>j. replicate 64 (CHR ''b''))\<rparr>) defaultLimits demo_accepted demo_accept = None"
    by (simp add: accept_head_def demo_accept_def demo_accepted_def)
       (simp add: demo_defs schema_namespace_def is_safe_integer_def max_safe_def)
qed (simp add: demo_record_def demo_receipt_def)

text \<open>
  C8. Accepting a new command stores it unsettled with the receipt that is returned: issued for the
  session's namespace at the time given, its windows ordered and computed from the retention, the
  next revision; no other command is touched.
\<close>

theorem fresh_acceptance:
  assumes "acceptCommand e lim st inp = Inr (st', r)" "jm_get (ws_commands st) (commandId (ai_command inp)) = None"
  shows "jm_get (ws_commands st') (commandId (ai_command inp)) = Some \<lparr>cr_command = ai_command inp, cr_receipt = r, cr_state = Accepted\<rparr> \<and>
    rc_namespace r = ss_namespace (ws_session st) \<and> acceptedAtMs r = ai_nowMs inp \<and>
    retryUntilMs r = min (expiresAtMs (ai_command inp)) (ai_nowMs inp + retryWindowMs (ai_retention inp)) \<and>
    receiptUntilMs r = ai_nowMs inp + receiptWindowMs (ai_retention inp) \<and>
    acceptedAtMs r \<le> retryUntilMs r \<and> retryUntilMs r \<le> receiptUntilMs r \<and>
    acceptedRevision r = revision (ws_session st') \<and> revision (ws_session st') = revision (ws_session st) + 1 \<and>
    (\<forall>k. k \<noteq> commandId (ai_command inp) \<longrightarrow> jm_get (ws_commands st') k = jm_get (ws_commands st) k)"
proof -
  let ?hash = "env_digest e (json_of_command (ai_command inp))"
  have red: "reduceAcceptance e lim st inp False = Inr (st', r)" using assms(1) by (simp add: acceptCommand_def)
  then have head: "accept_head e lim st inp = None" by (auto simp: reduceAcceptance_def)
  from red show ?thesis
  proof (cases rule: acceptance_cases)
    case (replay prior)
    then show ?thesis using assms(2) by simp
  next
    case (fresh cur answered answers)
    let ?b = "accept_batch st inp cur ?hash answered answers"
    obtain facts lp copy1 copy2 ixs copy3 copy4 ss cur' where
      run: "commit_run e lim st ?b True False cur' facts lp copy1 copy2 ixs copy3 copy4 ss"
      and st': "st' = copy4\<lparr>ws_session := cb_session ?b\<rparr>"
      by (rule reduceCommit_run [OF fresh(4)])
    have ap: "st' = applied st ?b" using commit_run_applied(1) [OF run] st' by simp
    have "expiresAtMs (ai_command inp) \<ge> ai_nowMs inp" "\<not> retention_invalid (ai_retention inp) (ai_nowMs inp)"
      using fresh(6) by (simp_all add: accept_open_def)
    then have w: "ai_nowMs inp \<le> min (expiresAtMs (ai_command inp)) (ai_nowMs inp + retryWindowMs (ai_retention inp))"
      "min (expiresAtMs (ai_command inp)) (ai_nowMs inp + retryWindowMs (ai_retention inp)) \<le> ai_nowMs inp + receiptWindowMs (ai_retention inp)"
      by (auto simp: retention_invalid_def)
    then show ?thesis
      using head by (simp add: ap applied_def accept_batch_def upsert_def fresh(3) new_receipt_def accept_head_def)
  qed
qed

theorem fresh_acceptance_witness: "retryUntilMs demo_receipt = 100 \<and> acceptedRevision demo_receipt = 1"
  using fresh_acceptance [OF demo_accept_run]
  by (simp add: demo_created_def demo_accept_def demo_prompt_def demo_accepted_def)

section \<open>Handoff, retirement, activation\<close>

text \<open>
  C9. A handoff, whether it recovers without a provider or rebinds to one, leaves nothing live behind:
  no interaction pending, no surface active, and every command settled, uncertain, or a prompt that
  still waits unsent in the queue.
\<close>

theorem handoff_withdraws:
  assumes reach: "reachable st"
    and run: "recoverUnavailable e lim st inp = Inr st' \<or> rebindSession e lim st inp vs = Inr st'"
  shows "(\<forall>k i. jm_get (ws_interactions st') k = Some i \<longrightarrow> ia_status i \<noteq> Pending) \<and>
    (\<forall>k s. jm_get (ws_surfaces st') k = Some s \<longrightarrow> sf_status s \<noteq> Surface_active) \<and>
    (\<forall>k c. jm_get (ws_commands st') k = Some c \<longrightarrow>
       isSettled c \<or> state_of c = T_uncertain \<or> cr_state c = Accepted \<and> queue_next (input_of (cr_command c)))"
proof -
  obtain restored where red: "reduceHandoff e lim st inp restored = Inr st'"
    using run by (auto simp: recoverUnavailable_def rebindSession_def)
  have keyed: "ws_keyed st" using reachable_inv [OF reach] by (simp add: ws_inv_def)
  show ?thesis using handoff_leaves [OF red keyed] unfolding queued_def by blast
qed

theorem handoff_withdraws_witness:
  "\<exists>c. jm_get (ws_commands demo_recovering) ''p1'' = Some c \<and> (isSettled c \<or> state_of c = T_uncertain \<or> cr_state c = Accepted)"
proof -
  have "jm_get (ws_commands demo_recovering) ''p1'' = Some (demo_record (Uncertain (demo_attempt Intent)))"
    by (simp add: demo_recovering_def jm_get_def)
  then show ?thesis
    using handoff_withdraws [OF reachable_demo(3) disjI1 [OF demo_recover_run]] by blast
qed

text \<open>
  C13. Suspension leaves nothing waiting: on a session with a stage that is not retired it ends in
  \<open>Recovery_required\<close> with no prompt queued, and from an active session with every command
  settled or uncertain.
\<close>

theorem suspension_drains_queue:
  assumes reach: "reachable st" and run: "suspendSession e lim st inp = Inr st'"
    and "status (ws_session st) \<noteq> Retired" "currentStageId (ws_session st) \<notin> {None, Some []}"
  shows "status (ws_session st') = Recovery_required \<and>
    (\<forall>k c. jm_get (ws_commands st') k = Some c \<longrightarrow> \<not> queued c \<and>
       (status (ws_session st) = Active \<longrightarrow> isSettled c \<or> state_of c = T_uncertain))"
proof -
  have red: "reduceSuspension e lim st inp = Inr st'" using run by (simp add: suspendSession_def)
  show ?thesis
    using suspension_leaves [OF red reachable_inv [OF reach] assms(3,4)] by blast
qed

lemma demo_suspend_run:
  "suspendSession demo_env defaultLimits demo_dispatching
     \<lparr>si_recovery = demo_lost, si_nowMs = 0, si_retention = ai_retention demo_accept\<rparr> = Inr demo_recovering"
proof -
  have s: "ws_session demo_dispatching = demo_session 2 3" by (simp add: demo_dispatching_simp)
  have "commandsInStates demo_dispatching [T_accepted] = []"
    by (simp add: commandsInStates_def in_states_def jm_values_def demo_dispatching_simp demo_record_def)
  moreover have "generation (stage_binding demo_stage) = ''g1''" by (simp add: providerStage_def)
  moreover have "ri_namespace demo_lost = demo_ns" "isId (ri_eventId demo_lost)" "ri_expectedRevision demo_lost = 2"
    "ri_expectedGeneration demo_lost = ''g1''"
    by (simp_all add: demo_lost_def)
  moreover have "reduceHandoff demo_env defaultLimits demo_dispatching (demo_lost\<lparr>ri_expectedRevision := 2\<rparr>) None =
      Inr demo_recovering"
    using demo_recover_run by (simp add: recoverUnavailable_def demo_lost_def)
  ultimately show ?thesis
    by (simp add: suspendSession_def reduceSuspension_def s demo_active)
qed

theorem suspension_drains_queue_witness: "status (ws_session demo_recovering) = Recovery_required"
  using suspension_drains_queue [OF reachable_demo(3) demo_suspend_run] by (simp add: demo_dispatching_simp)

text \<open>
  C10. Retirement needs quiet: it succeeds only when every command is settled, no interaction is
  pending and every delivery is delivered, and it leaves the commands as they are.
\<close>

theorem retirement_needs_quiet:
  assumes "retireSession e lim st revn gen = Inr st'"
  shows "status (ws_session st') = Retired \<and> ws_commands st' = ws_commands st \<and>
    (\<forall>k c. jm_get (ws_commands st) k = Some c \<longrightarrow> isSettled c) \<and>
    (\<forall>k i. jm_get (ws_interactions st) k = Some i \<longrightarrow> ia_status i \<noteq> Pending) \<and>
    (\<forall>k d. jm_get (ws_deliveries st) k = Some d \<longrightarrow> dl_status d = Delivered)"
proof -
  have red: "reduceRetirement e lim st revn gen = Inr st'" using assms by (simp add: retireSession_def)
  then have quiet: "\<not> retire_blocked st" by (auto simp: reduceRetirement_def)
  have d: "dl_status d \<in> set undelivered \<or> dl_status d = Delivered" for d :: delivery
    by (cases "dl_status d") (simp_all add: undelivered_def)
  have "isSettled c" if "jm_get (ws_commands st) k = Some c" for k c
    using quiet jm_values_get [OF that] by (auto simp: retire_blocked_def unsettled_work_def commandsInStates_def
        list_ex_iff live_settled)
  moreover have "ia_status i \<noteq> Pending" if "jm_get (ws_interactions st) k = Some i" for k i
    using quiet jm_values_get [OF that] by (auto simp: retire_blocked_def interactionsForCommand_def for_command_def list_ex_iff)
  moreover have "dl_status x = Delivered" if "jm_get (ws_deliveries st) k = Some x" for k x
    using quiet jm_values_get [OF that] d [of x]
    by (auto simp: retire_blocked_def deliveriesInStates_def in_statuses_def list_ex_iff)
  moreover have "status (ws_session st') = Retired" "ws_commands st' = ws_commands st"
    using red by (auto simp: reduceRetirement_def Let_def split: option.splits)
  ultimately show ?thesis by blast
qed

theorem retirement_needs_quiet_witness: "status (ws_session demo_retired) = Retired \<and>
    isSettled (demo_record (Terminal (demo_attempt Submitted) Completed))"
proof -
  have "jm_get (ws_commands demo_finished) ''p1'' = Some (demo_record (Terminal (demo_attempt Submitted) Completed))"
    by (simp add: demo_finished_simp jm_get_def)
  then show ?thesis using retirement_needs_quiet [OF demo_retire_run] by blast
qed

text \<open>
  C11. Retirement is final: no run of transitions leads out of it, and none of them touches anything
  but the delivery rows the session has, the revision and the event log. Its commands, interactions,
  surfaces, generations and every other field of its head stay as retirement left them.
\<close>

theorem retirement_is_final:
  assumes "session_step\<^sup>*\<^sup>* st st'" "status (ws_session st) = Retired"
  shows "status (ws_session st') = Retired \<and>
    (ws_session st')\<lparr>revision := revision (ws_session st), lastSequence := lastSequence (ws_session st)\<rparr> = ws_session st \<and>
    ws_commands st' = ws_commands st \<and> ws_interactions st' = ws_interactions st \<and>
    ws_surfaces st' = ws_surfaces st \<and> ws_generations st' = ws_generations st \<and>
    jm_keys (ws_deliveries st') = jm_keys (ws_deliveries st)"
  using retired_run [OF assms] only_deliveries_move_head(2) [OF retired_run [OF assms]] assms(2)
  by (simp add: only_deliveries_move_def)

theorem retirement_is_final_witness:
  "demo_late_over \<noteq> demo_over \<and> reachable demo_over \<and> status (ws_session demo_late_over) = Retired \<and>
   ws_commands demo_late_over = [(''p1'', demo_record (Terminal (demo_attempt Submitted) Completed))]"
proof -
  have "session_step\<^sup>*\<^sup>* demo_over demo_late_over" using Commit [OF demo_late_run] by blast
  moreover have "status (ws_session demo_over) = Retired" by (simp add: demo_over_sel demo_over_head)
  ultimately have "status (ws_session demo_late_over) = Retired" "ws_commands demo_late_over = ws_commands demo_over"
    by (rule retirement_is_final [THEN conjunct1], rule retirement_is_final [THEN conjunct2, THEN conjunct2, THEN conjunct1])
  moreover have "demo_late_over \<noteq> demo_over"
    using demo_over_head(2) [of 9] demo_over_head(2) [of 10] demo_over_sel(1) by (auto simp: demo_late_over_def dest: arg_cong [where f = "\<lambda>w. revision (ws_session w)"])
  ultimately show ?thesis using reachable_over [OF reachable_demo(3)] by (simp add: demo_over_sel)
qed

text \<open>
  Pruning is allowed for a retired session exactly when the receipts of all its commands have
  expired and nothing is left to deliver.
\<close>

theorem prune_when_expired:
  assumes "reachable st"
  shows "canPrune st now \<longleftrightarrow> is_safe_integer now \<and> 0 \<le> now \<and> status (ws_session st) = Retired \<and>
    (\<forall>k c. jm_get (ws_commands st) k = Some c \<longrightarrow> receiptUntilMs (cr_receipt c) < now) \<and>
    (\<forall>k d. jm_get (ws_deliveries st) k = Some d \<longrightarrow> dl_status d = Delivered)"
proof -
  have wf: "jm_wf (ws_commands st)" "jm_wf (ws_deliveries st)"
    using reachable_inv [OF assms] by (auto simp: ws_inv_def ws_keyed_def keyed_def)
  have all: "in_states all_states c" for c
    by (cases "cr_state c") (simp_all add: in_states_def all_states_def live_states_def)
  have "in_statuses undelivered d \<longleftrightarrow> dl_status d \<noteq> Delivered" for d :: delivery
    by (cases "dl_status d") (simp_all add: in_statuses_def undelivered_def)
  then show ?thesis
    using jm_values_mem [OF wf(1)] jm_values_mem [OF wf(2)] all
    by (auto simp: canPrune_def commandsInStates_def deliveriesInStates_def list_all_iff)
qed

theorem prune_when_expired_witness: "canPrune demo_retired 201 \<and> \<not> canPrune demo_retired 200"
  using prune_when_expired [OF reachable_demo(5), of 200] prune_when_expired [OF reachable_demo(5), of 201]
  by (simp add: demo_retired_def demo_finished_simp jm_get_def demo_record_def demo_receipt_def is_safe_integer_def max_safe_def)

text \<open>
  C12. A new stage starts fresh: activation succeeds only on a session that is not retired, at its
  expected revision, when all commands are settled, with an opened session of the same namespace and
  of the selected connection, and with a generation the session never had. The result is the workspace
  with the stage appended and made current, the session active, its revision one up and its fresh
  context spent, and the generation recorded after all earlier ones; nothing else moves.
\<close>

theorem activation_starts_fresh:
  assumes run: "activateStage e st inp = Inr st'" and reach: "reachable st"
  shows "(\<forall>k c. jm_get (ws_commands st) k = Some c \<longrightarrow> isSettled c) \<and>
    status (ws_session st) \<noteq> Retired \<and> revision (ws_session st) = xi_expectedRevision inp \<and>
    (\<exists>vs stage. xi_opened inp = Admitted vs \<and> stage = providerStage (vs_binding vs) (vs_capabilities vs) (xi_configRevision inp) \<and>
       vs_namespace vs = ss_namespace (ws_session st) \<and>
       selectedConnectionId (ws_session st) = Some (connectionId stage) \<and>
       generation (vs_binding vs) \<notin> set (ws_generations st) \<and>
       activeStage (ws_session st') = Inr stage \<and>
       st' = st\<lparr>ws_session := (ws_session st)\<lparr>status := Active, revision := revision (ws_session st) + 1,
           currentStageId := Some (stageId stage), stages := stages (ws_session st) @ [stage], freshContext := False\<rparr>,
         ws_generations := ws_generations st @ [generation (vs_binding vs)]\<rparr>)"
  using run
proof (rule activation_run)
  fix vs :: provider_session and s
  let ?stage = "providerStage (vs_binding vs) (vs_capabilities vs) (xi_configRevision inp)"
  assume a: "xi_opened inp = Admitted vs" "opens vs (xi_namespace inp)" "xi_namespace inp = ss_namespace (ws_session st)"
    "\<not> unsettled_work st" "generation (vs_binding vs) \<notin> set (ws_generations st)" "status (ws_session st) \<noteq> Retired"
    "revision (ws_session st) = xi_expectedRevision inp"
    "selectedConnectionId (ws_session st) = Some (cfg_id (config (vs_binding vs)))"
    and start: "startStage ((ws_session st)\<lparr>status := Active, revision := revision (ws_session st) + 1\<rparr>) ?stage = Inr s"
    and st': "st' = st\<lparr>ws_session := s,
       ws_generations := add_generation (generation (vs_binding vs)) (ws_generations st),
       ws_interactions := withdraw_interactions (ws_interactions st),
       ws_surfaces := withdraw_surfaces (ws_surfaces st)\<rparr>"
  have inv: "ws_inv st" by (rule reachable_inv [OF reach])
  have "\<forall>k c. jm_get (ws_commands st) k = Some c \<longrightarrow> isSettled c"
    using a(4) unsettled_work_iff [of st] inv by (auto simp: ws_inv_def)
  moreover have conn: "connectionId ?stage = cfg_id (config (vs_binding vs))" by (simp add: providerStage_def)
  moreover have "s = (ws_session st)\<lparr>status := Active, revision := revision (ws_session st) + 1,
      currentStageId := Some (stageId ?stage), stages := stages (ws_session st) @ [?stage], freshContext := False\<rparr>"
    using start a(8) conn by (auto simp: startStage_def split: if_splits)
  ultimately show ?thesis
    using a(1,2,3,5,6,7,8) startStage_active [OF start]
    by (simp add: st' nothing_to_withdraw [OF inv a(4)] opens_def add_generation_def)
qed

theorem activation_starts_fresh_witness:
  "stages (ws_session demo_activated) = stages (ws_session demo_finished) @ [demo_stage_next] \<and>
   ws_generations demo_activated = ws_generations demo_finished @ [''g2''] \<and>
   revision (ws_session demo_activated) = 4 \<and> ws_events demo_activated = ws_events demo_finished"
proof -
  obtain vs where vs: "xi_opened demo_activation = Admitted vs" and
    result: "demo_activated = demo_finished\<lparr>ws_session := (ws_session demo_finished)\<lparr>status := Active, revision := revision (ws_session demo_finished) + 1,
         currentStageId := Some (stageId (providerStage (vs_binding vs) (vs_capabilities vs) (xi_configRevision demo_activation))),
         stages := stages (ws_session demo_finished) @ [providerStage (vs_binding vs) (vs_capabilities vs) (xi_configRevision demo_activation)],
         freshContext := False\<rparr>,
       ws_generations := ws_generations demo_finished @ [generation (vs_binding vs)]\<rparr>"
    using activation_starts_fresh [OF demo_activate_run reachable_demo(4)] by blast
  show ?thesis
    unfolding result using vs by (auto simp: demo_activation_def demo_finished_simp demo_binding_next_def)
qed

text \<open>
  A session answers only to its own namespace: every transition refuses an input that names
  another one.
\<close>

theorem foreign_namespace_refused:
  assumes "ai_namespace inp \<noteq> ss_namespace (ws_session st)" "cb_namespace b \<noteq> ss_namespace (ws_session st)"
    "ri_namespace ri \<noteq> ss_namespace (ws_session st)" "ri_namespace (si_recovery si) \<noteq> ss_namespace (ws_session st)"
    "xi_namespace xi \<noteq> ss_namespace (ws_session st)"
  shows "(\<nexists>v. acceptCommand e lim st inp = Inr v) \<and> (\<nexists>v. commitSession e lim st b = Inr v) \<and>
    (\<nexists>v. rebindSession e lim st ri vs = Inr v) \<and> (\<nexists>v. recoverUnavailable e lim st ri = Inr v) \<and>
    (\<nexists>v. suspendSession e lim st si = Inr v) \<and> (\<nexists>v. activateStage e st xi = Inr v)"
  using assms
  by (auto simp: acceptCommand_def reduceAcceptance_def accept_head_def commitSession_def reduceCommit_def Let_def
      coordinates_check_def rebindSession_def recoverUnavailable_def reduceHandoff_def suspendSession_def
      reduceSuspension_def activateStage_def)

theorem foreign_namespace_refused_witness:
  "\<nexists>v. activateStage demo_env demo_finished (demo_activation\<lparr>xi_namespace := demo_ns\<lparr>tenantId := ''t2''\<rparr>\<rparr>) = Inr v"
  using foreign_namespace_refused [of "demo_accept\<lparr>ai_namespace := demo_ns\<lparr>tenantId := ''t2''\<rparr>\<rparr>" demo_finished
      "demo_dispatch\<lparr>cb_namespace := demo_ns\<lparr>tenantId := ''t2''\<rparr>\<rparr>" "demo_lost\<lparr>ri_namespace := demo_ns\<lparr>tenantId := ''t2''\<rparr>\<rparr>"
      "\<lparr>si_recovery = demo_lost\<lparr>ri_namespace := demo_ns\<lparr>tenantId := ''t2''\<rparr>\<rparr>, si_nowMs = 0, si_retention = ai_retention demo_accept\<rparr>"
      "demo_activation\<lparr>xi_namespace := demo_ns\<lparr>tenantId := ''t2''\<rparr>\<rparr>" demo_env defaultLimits Forged]
  by (simp add: demo_finished_simp demo_session_def demo_ns_def)

end
